(* ===== verification/Hand_Prelude.thy ===== *)
theory Hand_Prelude
  imports Main "HOL-Library.Word" "HOL-Library.Sublist" "HOL-Library.Char_ord"
    "HOL-Library.List_Lexorder"
begin

section \<open>Prelude: results, machine integers, maps and Rust strings\<close>

text \<open>
  The vocabulary every component of the development shares: Rust's \<open>Result\<close> as a sum type with
  the \<open>?\<close> operator as a bind, the checked and saturating integer operations of \<open>u64\<close> and
  \<open>usize\<close> (values are naturals, the width is written out as \<open>U64_MAX\<close>), sums of weights over
  finite maps (the byte and memory accounts of the registries), and the \<open>str\<close> functions of
  Rust's standard library on UTF-8 byte strings. A Rust string is a \<open>string\<close>, one character per
  UTF-8 byte, so \<open>length\<close> is \<open>str::len\<close>, and the list order on strings is Rust's byte-wise
  order on \<open>str\<close>.
\<close>

named_theorems op_defs \<open>definitions of operations, for unfolding\<close>
named_theorems std_defs \<open>definitions of standard-library functions, for evaluation\<close>

text \<open>A byte is a character of \<open>string\<close>, so \<open>Vec<u8>\<close> and \<open>str\<close> share one type.\<close>

type_synonym bytes = "char list"

subsection \<open>Results\<close>

type_synonym ('e, 'a) result = "'e + 'a"

abbreviation Err :: "'e \<Rightarrow> ('e, 'a) result" where "Err \<equiv> Inl"
abbreviation Ok :: "'a \<Rightarrow> ('e, 'a) result" where "Ok \<equiv> Inr"

text \<open>\<open>and_then r f\<close> is \<open>f(r?)\<close>: an error returns early.\<close>

definition and_then :: "('e, 'a) result \<Rightarrow> ('a \<Rightarrow> ('e, 'b) result) \<Rightarrow> ('e, 'b) result" where
  "and_then r f = (case r of Inl e \<Rightarrow> Inl e | Inr x \<Rightarrow> f x)"

definition map_err :: "('e \<Rightarrow> 'f) \<Rightarrow> ('e, 'a) result \<Rightarrow> ('f, 'a) result" where
  "map_err g r = (case r of Inl e \<Rightarrow> Inl (g e) | Inr x \<Rightarrow> Inr x)"

definition ok_or :: "'a option \<Rightarrow> 'e \<Rightarrow> ('e, 'a) result" where
  "ok_or x e = (case x of None \<Rightarrow> Inl e | Some v \<Rightarrow> Inr v)"

text \<open>\<open>require b e\<close> is \<open>if !b { return Err(e); }\<close>.\<close>

definition require :: "bool \<Rightarrow> 'e \<Rightarrow> ('e, unit) result" where
  "require b e = (if b then Inr () else Inl e)"

definition is_ok :: "('e, 'a) result \<Rightarrow> bool" where
  "is_ok r = (case r of Inl _ \<Rightarrow> False | Inr _ \<Rightarrow> True)"

lemma and_then_simps [simp]:
  "and_then (Inl e) f = Inl e"
  "and_then (Inr x) f = f x"
  by (simp_all add: and_then_def)

lemma and_then_Ok_iff: "and_then r f = Inr y \<longleftrightarrow> (\<exists>x. r = Inr x \<and> f x = Inr y)"
  by (cases r) auto

lemma and_then_Err_iff:
  "and_then r f = Inl e \<longleftrightarrow> r = Inl e \<or> (\<exists>x. r = Inr x \<and> f x = Inl e)"
  by (cases r) auto

lemma and_then_cong [fundef_cong]:
  "r = r' \<Longrightarrow> (\<And>x. r' = Inr x \<Longrightarrow> f x = f' x) \<Longrightarrow> and_then r f = and_then r' f'"
  by (cases r') auto

lemma map_err_simps [simp]:
  "map_err g (Inl e) = Inl (g e)"
  "map_err g (Inr x) = Inr x"
  "map_err g r = Inr y \<longleftrightarrow> r = Inr y"
  by (simp_all add: map_err_def split: sum.splits)

lemma map_err_Err_iff: "map_err g r = Inl e \<longleftrightarrow> (\<exists>d. r = Inl d \<and> e = g d)"
  by (cases r) auto

lemma ok_or_simps [simp]:
  "ok_or None e = Inl e"
  "ok_or (Some x) e = Inr x"
  "ok_or v e = Inr y \<longleftrightarrow> v = Some y"
  by (simp_all add: ok_or_def split: option.splits)

lemma ok_or_Err_iff: "ok_or v e = Inl d \<longleftrightarrow> v = None \<and> d = e"
  by (cases v) auto

lemma require_simps [simp]:
  "require True e = Inr ()"
  "require False e = Inl e"
  "require b e = Inr u \<longleftrightarrow> b"
  by (simp_all add: require_def)

lemma require_Err_iff: "require b e = Inl d \<longleftrightarrow> \<not> b \<and> d = e"
  by (auto simp: require_def)

lemma is_ok_simps [simp]:
  "is_ok (Inl e) = False" "is_ok (Inr x) = True"
  by (simp_all add: is_ok_def)

lemma is_ok_iff: "is_ok r \<longleftrightarrow> (\<exists>x. r = Inr x)"
  by (cases r) auto

lemmas result_iffs = and_then_Ok_iff and_then_Err_iff map_err_Err_iff ok_or_Err_iff require_Err_iff

subsection \<open>Machine integers\<close>

text \<open>
  The guest, the gateway and the adapter run on 64-bit targets, so \<open>usize\<close> and \<open>u64\<close> have the
  same width.
\<close>

definition U64_MAX :: nat where
  "U64_MAX = 18446744073709551615"

abbreviation USIZE_MAX :: nat where "USIZE_MAX \<equiv> U64_MAX"

lemma U64_MAX_pow: "U64_MAX = 2 ^ 64 - 1"
  by (simp add: U64_MAX_def)

definition checked_add :: "nat \<Rightarrow> nat \<Rightarrow> nat option" where
  "checked_add a b = (if a + b \<le> U64_MAX then Some (a + b) else None)"

definition checked_sub :: "nat \<Rightarrow> nat \<Rightarrow> nat option" where
  "checked_sub a b = (if b \<le> a then Some (a - b) else None)"

definition checked_mul :: "nat \<Rightarrow> nat \<Rightarrow> nat option" where
  "checked_mul a b = (if a * b \<le> U64_MAX then Some (a * b) else None)"

definition saturating_add :: "nat \<Rightarrow> nat \<Rightarrow> nat" where
  "saturating_add a b = min U64_MAX (a + b)"

definition saturating_sub :: "nat \<Rightarrow> nat \<Rightarrow> nat" where
  "saturating_sub a b = (if b \<le> a then a - b else 0)"

definition clamp :: "nat \<Rightarrow> nat \<Rightarrow> nat \<Rightarrow> nat" where
  "clamp lo hi x = (if x < lo then lo else if hi < x then hi else x)"

declare checked_add_def [std_defs] checked_sub_def [std_defs] checked_mul_def [std_defs]
  saturating_add_def [std_defs] saturating_sub_def [std_defs] clamp_def [std_defs]
  U64_MAX_def [std_defs]

lemma checked_add_Some_iff [simp]: "checked_add a b = Some c \<longleftrightarrow> c = a + b \<and> a + b \<le> U64_MAX"
  by (auto simp: checked_add_def)

lemma checked_add_None_iff [simp]: "checked_add a b = None \<longleftrightarrow> U64_MAX < a + b"
  by (auto simp: checked_add_def)

lemma checked_add_bind [simp]:
  "Option.bind (checked_add a b) (\<lambda>x. checked_add x c) = checked_add (a + b) c"
  by (auto simp: checked_add_def)

lemma checked_sub_Some_iff [simp]: "checked_sub a b = Some c \<longleftrightarrow> b \<le> a \<and> c = a - b"
  by (auto simp: checked_sub_def)

lemma checked_sub_None_iff [simp]: "checked_sub a b = None \<longleftrightarrow> a < b"
  by (auto simp: checked_sub_def)

lemma checked_mul_Some_iff [simp]: "checked_mul a b = Some c \<longleftrightarrow> c = a * b \<and> a * b \<le> U64_MAX"
  by (auto simp: checked_mul_def)

lemma saturating_sub_eq [simp]: "saturating_sub a b = a - b"
  by (simp add: saturating_sub_def)

lemma saturating_add_le: "saturating_add a b \<le> a + b" "saturating_add a b \<le> U64_MAX"
  by (simp_all add: saturating_add_def)

lemma clamp_bounds: "lo \<le> hi \<Longrightarrow> lo \<le> clamp lo hi x \<and> clamp lo hi x \<le> hi"
  by (simp add: clamp_def)

subsection \<open>Accounts: sums of weights over finite maps\<close>

definition account :: "('v \<Rightarrow> nat) \<Rightarrow> ('k \<rightharpoonup> 'v) \<Rightarrow> nat" where
  "account w m = (\<Sum>k\<in>dom m. w (the (m k)))"

lemma account_empty [simp]: "account w Map.empty = 0"
  by (simp add: account_def)

lemma account_remove:
  assumes "finite (dom m)" and "m k = Some v"
  shows "account w m = w v + account w (m(k := None))"
proof -
  have "account w m = w (the (m k)) + (\<Sum>j\<in>dom m - {k}. w (the (m j)))"
    unfolding account_def using assms by (intro sum.remove) auto
  also have "(\<Sum>j\<in>dom m - {k}. w (the (m j))) = account w (m(k := None))"
    unfolding account_def by (intro sum.cong) auto
  finally show ?thesis using assms by simp
qed

lemma account_insert:
  assumes "finite (dom m)"
  shows "account w (m(k \<mapsto> v)) = w v + account w (m(k := None))"
proof -
  have "finite (dom (m(k \<mapsto> v)))" using assms by simp
  from account_remove [OF this, of k v w] show ?thesis by simp
qed

lemma account_new:
  assumes "finite (dom m)" and "m k = None"
  shows "account w (m(k \<mapsto> v)) = w v + account w m"
  using account_insert [OF assms(1), of w k v] assms(2) by (simp add: fun_upd_idem)

lemma account_upd:
  assumes "finite (dom m)" and "m k = Some u"
  shows "account w (m(k \<mapsto> v)) + w u = account w m + w v"
  using account_insert [OF assms(1), of w k v] account_remove [OF assms, of w] by simp

lemma account_ge:
  assumes "finite (dom m)" and "m k = Some v"
  shows "w v \<le> account w m"
  using account_remove [OF assms, of w] by simp

lemma card_dom_new:
  assumes "finite (dom m)" and "m k = None"
  shows "card (dom (m(k \<mapsto> v))) = Suc (card (dom m))"
  using assms by (simp add: domIff)

lemma card_dom_upd: "m k = Some u \<Longrightarrow> card (dom (m(k \<mapsto> v))) = card (dom m)"
  by (simp add: insert_absorb domI)

lemma card_dom_del:
  assumes "finite (dom m)" and "m k = Some u"
  shows "Suc (card (dom (m(k := None)))) = card (dom m)"
proof -
  have "dom (m(k := None)) = dom m - {k}" by simp
  then show ?thesis using card_Suc_Diff1 [OF assms(1) domI [of m k u]] assms(2) by simp
qed

lemma finite_dom_upd [simp]: "finite (dom (m(k := v))) \<longleftrightarrow> finite (dom m)"
  by (cases v) simp_all

lemmas map_account = account_new account_upd account_remove card_dom_new card_dom_upd card_dom_del

subsection \<open>Histories of a component\<close>

text \<open>
  A component is a function from a state and a call to a reply and the next state; a history is
  a list of calls with their replies.
\<close>

inductive trace :: "('s \<Rightarrow> 'c \<Rightarrow> 'r \<times> 's) \<Rightarrow> 's \<Rightarrow> ('c \<times> 'r) list \<Rightarrow> 's \<Rightarrow> bool" for ex where
  trace_nil: "trace ex s [] s"
| trace_snoc: "trace ex s tr s' \<Longrightarrow> ex s' c = (rep, s'') \<Longrightarrow> trace ex s (tr @ [(c, rep)]) s''"

text \<open>The history of a list of calls, computed.\<close>

fun run_calls :: "('s \<Rightarrow> 'c \<Rightarrow> 'r \<times> 's) \<Rightarrow> 's \<Rightarrow> 'c list \<Rightarrow> ('c \<times> 'r) list \<times> 's" where
  "run_calls ex s [] = ([], s)"
| "run_calls ex s (c # cs) =
     (case ex s c of (rep, s') \<Rightarrow> (case run_calls ex s' cs of (tr, s'') \<Rightarrow> ((c, rep) # tr, s'')))"

lemma trace_cons: "ex s c = (rep, s') \<Longrightarrow> trace ex s' tr s'' \<Longrightarrow> trace ex s ((c, rep) # tr) s''"
proof (induction tr arbitrary: s'' rule: rev_induct)
  case Nil
  then have "s'' = s'" by (auto elim: trace.cases)
  then show ?case using trace_snoc [where ex = ex, OF trace_nil Nil.prems(1)] by simp
next
  case (snoc x tr)
  from snoc.prems(2) obtain t where "trace ex s' tr t" and "ex t (fst x) = (snd x, s'')"
    by (auto elim: trace.cases)
  with snoc.IH [OF snoc.prems(1)] show ?case
    using trace_snoc [of ex s "(c, rep) # tr" t "fst x" "snd x" s''] by simp
qed

lemma run_calls_trace: "run_calls ex s cs = (tr, s') \<Longrightarrow> trace ex s tr s'"
  by (induction cs arbitrary: s tr) (auto split: prod.splits intro: trace_nil trace_cons)

lemma trace_invariant:
  assumes "trace ex s tr s'" and "I s" and "\<And>s c rep s'. I s \<Longrightarrow> ex s c = (rep, s') \<Longrightarrow> I s'"
  shows "I s'"
  using assms by (induction rule: trace.induct) blast+

end
