(* ===== verification/Rust_Strings.thy ===== *)
theory Rust_Strings
  imports Hand_Prelude
begin

section \<open>Rust's string functions on UTF-8 bytes\<close>

text \<open>
  The functions of \<open>core::str\<close>, \<open>char\<close>, \<open>core::num\<close> and \<open>core::net\<close> that the components
  call: ASCII classes and case, prefixes, splitting, trimming, decimal numbers and IPv4
  addresses. Unicode white space is recognised by its UTF-8 encodings; UTF-8 is
  self-synchronising, so on a valid string an encoding occurs as a byte substring exactly where
  the character occurs.
\<close>

subsection \<open>Bytes and ASCII classes\<close>

abbreviation code :: "char \<Rightarrow> nat" where "code c \<equiv> of_char c"

definition ascii_digit :: "char \<Rightarrow> bool" where
  "ascii_digit c \<longleftrightarrow> 48 \<le> code c \<and> code c \<le> 57"

definition ascii_lower :: "char \<Rightarrow> bool" where
  "ascii_lower c \<longleftrightarrow> 97 \<le> code c \<and> code c \<le> 122"

definition ascii_upper :: "char \<Rightarrow> bool" where
  "ascii_upper c \<longleftrightarrow> 65 \<le> code c \<and> code c \<le> 90"

definition ascii_alphabetic :: "char \<Rightarrow> bool" where
  "ascii_alphabetic c \<longleftrightarrow> ascii_lower c \<or> ascii_upper c"

definition ascii_alphanumeric :: "char \<Rightarrow> bool" where
  "ascii_alphanumeric c \<longleftrightarrow> ascii_digit c \<or> ascii_alphabetic c"

definition is_ascii :: "string \<Rightarrow> bool" where
  "is_ascii s = list_all (\<lambda>c. code c < 128) s"

definition lower_char :: "char \<Rightarrow> char" where
  "lower_char c = (if ascii_upper c then char_of (code c + 32) else c)"

definition upper_char :: "char \<Rightarrow> char" where
  "upper_char c = (if ascii_lower c then char_of (code c - 32) else c)"

definition to_ascii_lowercase :: "string \<Rightarrow> string" where
  "to_ascii_lowercase = map lower_char"

definition to_ascii_uppercase :: "string \<Rightarrow> string" where
  "to_ascii_uppercase = map upper_char"

definition eq_ignore_ascii_case :: "string \<Rightarrow> string \<Rightarrow> bool" where
  "eq_ignore_ascii_case s t \<longleftrightarrow> to_ascii_lowercase s = to_ascii_lowercase t"

lemmas ascii_defs [std_defs] = ascii_digit_def ascii_lower_def ascii_upper_def ascii_alphabetic_def
  ascii_alphanumeric_def is_ascii_def lower_char_def upper_char_def to_ascii_lowercase_def
  to_ascii_uppercase_def eq_ignore_ascii_case_def

lemma code_less: "code c < 256"
  using rangeI [of "of_char :: char \<Rightarrow> nat" c] unfolding range_nat_of_char by simp

lemma code_pair_less: "code c * 256 + code d < 65536"
  using code_less [of c] code_less [of d] by linarith

lemma lower_char_idem [simp]: "lower_char (lower_char c) = lower_char c"
  by (auto simp: lower_char_def ascii_upper_def)

lemma lower_char_not_upper: "\<not> ascii_upper (lower_char c)"
  by (auto simp: lower_char_def ascii_upper_def)

lemma to_ascii_lowercase_idem [simp]:
  "to_ascii_lowercase (to_ascii_lowercase s) = to_ascii_lowercase s"
  by (simp add: to_ascii_lowercase_def)

lemma length_to_ascii_lowercase [simp]: "length (to_ascii_lowercase s) = length s"
  by (simp add: to_ascii_lowercase_def)

lemma lower_char_inv: "lower_char c = d \<Longrightarrow> \<not> ascii_alphabetic d \<Longrightarrow> c = d"
  by (auto simp: lower_char_def ascii_alphabetic_def ascii_lower_def ascii_upper_def split: if_splits)

lemma lower_char_alphanumeric [simp]: "ascii_alphanumeric (lower_char c) = ascii_alphanumeric c"
  by (auto simp: lower_char_def ascii_alphanumeric_def ascii_alphabetic_def ascii_lower_def
      ascii_upper_def ascii_digit_def)

lemma lower_char_digit [simp]: "ascii_digit (lower_char c) = ascii_digit c"
  by (auto simp: lower_char_def ascii_upper_def ascii_digit_def)

lemma lower_char_not_upper_id: "\<not> ascii_upper c \<Longrightarrow> lower_char c = c"
  by (simp add: lower_char_def)

subsection \<open>Prefixes and suffixes\<close>

fun strip_prefix :: "'a list \<Rightarrow> 'a list \<Rightarrow> 'a list option" where
  "strip_prefix [] s = Some s"
| "strip_prefix (p # ps) [] = None"
| "strip_prefix (p # ps) (c # s) = (if p = c then strip_prefix ps s else None)"

definition starts_with :: "'a list \<Rightarrow> 'a list \<Rightarrow> bool" where
  "starts_with p s \<longleftrightarrow> strip_prefix p s \<noteq> None"

definition ends_with :: "'a list \<Rightarrow> 'a list \<Rightarrow> bool" where
  "ends_with p s \<longleftrightarrow> starts_with (rev p) (rev s)"

lemma strip_prefix_Some_iff [simp]: "strip_prefix p s = Some t \<longleftrightarrow> s = p @ t"
  by (induction p s rule: strip_prefix.induct) auto

lemma strip_prefix_None_iff: "strip_prefix p s = None \<longleftrightarrow> \<not> prefix p s"
  by (induction p s rule: strip_prefix.induct) auto

lemma starts_with_iff: "starts_with p s \<longleftrightarrow> prefix p s"
  by (simp add: starts_with_def strip_prefix_None_iff)

lemma ends_with_iff: "ends_with p s \<longleftrightarrow> suffix p s"
  by (simp add: ends_with_def starts_with_iff suffix_to_prefix)

lemmas prefix_defs [std_defs] = starts_with_def ends_with_def

subsection \<open>Splitting\<close>

fun split_on :: "'a \<Rightarrow> 'a list \<Rightarrow> 'a list list" where
  "split_on c [] = [[]]"
| "split_on c (x # xs) =
     (if x = c then [] # split_on c xs
      else (case split_on c xs of [] \<Rightarrow> [[x]] | p # ps \<Rightarrow> (x # p) # ps))"

fun join_on :: "'a \<Rightarrow> 'a list list \<Rightarrow> 'a list" where
  "join_on c [] = []"
| "join_on c [p] = p"
| "join_on c (p # q # ps) = p @ c # join_on c (q # ps)"

fun split_once :: "'a \<Rightarrow> 'a list \<Rightarrow> ('a list \<times> 'a list) option" where
  "split_once c [] = None"
| "split_once c (x # xs) =
     (if x = c then Some ([], xs)
      else (case split_once c xs of None \<Rightarrow> None | Some (p, q) \<Rightarrow> Some (x # p, q)))"

definition rsplit_once :: "'a \<Rightarrow> 'a list \<Rightarrow> ('a list \<times> 'a list) option" where
  "rsplit_once c s =
     (case split_once c (rev s) of None \<Rightarrow> None | Some (b, a) \<Rightarrow> Some (rev a, rev b))"

lemmas split_defs [std_defs] = rsplit_once_def

lemma split_on_not_Nil [simp]: "split_on c s \<noteq> []"
  by (induction s) (auto split: list.splits)

lemma split_on_parts: "p \<in> set (split_on c s) \<Longrightarrow> c \<notin> set p"
  by (induction s arbitrary: p) (auto split: list.splits if_splits)

lemma join_split [simp]: "join_on c (split_on c s) = s"
proof (induction s)
  case Nil
  then show ?case by simp
next
  case (Cons x s)
  obtain p ps where "split_on c s = p # ps" by (cases "split_on c s") auto
  with Cons show ?case by (cases ps) auto
qed

lemma split_on_no_sep: "c \<notin> set s \<Longrightarrow> split_on c s = [s]"
  by (induction s) auto

lemma split_on_append: "c \<notin> set s \<Longrightarrow> split_on c (s @ c # t) = s # split_on c t"
  by (induction s) auto

lemma split_join:
  "ps \<noteq> [] \<Longrightarrow> \<forall>p \<in> set ps. c \<notin> set p \<Longrightarrow> split_on c (join_on c ps) = ps"
  by (induction c ps rule: join_on.induct) (auto simp: split_on_no_sep split_on_append)

lemma split_on_elem: "x \<in> set p \<Longrightarrow> p \<in> set (split_on c s) \<Longrightarrow> x \<in> set s"
proof (induction s arbitrary: p)
  case Nil
  then show ?case by simp
next
  case (Cons y s)
  obtain q qs where q: "split_on c s = q # qs" by (cases "split_on c s") auto
  with Cons.prems Cons.IH show ?case by (fastforce split: if_splits)
qed

lemma split_once_SomeD: "split_once c s = Some (a, b) \<Longrightarrow> s = a @ c # b \<and> c \<notin> set a"
  by (induction s arbitrary: a) (auto split: option.splits if_splits)

lemma split_once_SomeI [simp]: "c \<notin> set a \<Longrightarrow> split_once c (a @ c # b) = Some (a, b)"
  by (induction a) auto

lemma split_once_Some_iff: "split_once c s = Some (a, b) \<longleftrightarrow> s = a @ c # b \<and> c \<notin> set a"
  using split_once_SomeD split_once_SomeI by metis

lemma split_once_None_iff: "split_once c s = None \<longleftrightarrow> c \<notin> set s"
  by (induction s) (auto split: option.splits)

lemma rsplit_once_Some_iff: "rsplit_once c s = Some (a, b) \<longleftrightarrow> s = a @ c # b \<and> c \<notin> set b"
proof -
  have "rsplit_once c s = Some (a, b) \<longleftrightarrow> split_once c (rev s) = Some (rev b, rev a)"
    by (auto simp: rsplit_once_def split: option.splits)
  also have "\<dots> \<longleftrightarrow> s = a @ c # b \<and> c \<notin> set b"
    by (simp add: split_once_Some_iff rev_swap)
  finally show ?thesis .
qed

lemma rsplit_once_None_iff: "rsplit_once c s = None \<longleftrightarrow> c \<notin> set s"
  by (simp add: rsplit_once_def split_once_None_iff split: option.splits prod.splits) (metis option.distinct(1) set_rev split_once_None_iff)

subsection \<open>White space\<close>

text \<open>The UTF-8 encodings of the characters with the Unicode property \<open>White_Space\<close>.\<close>

definition ws_encodings :: "string list" where
  "ws_encodings =
     [[CHR 0x09], [CHR 0x0A], [CHR 0x0B], [CHR 0x0C], [CHR 0x0D], [CHR 0x20],
      [CHR 0xC2, CHR 0x85], [CHR 0xC2, CHR 0xA0], [CHR 0xE1, CHR 0x9A, CHR 0x80],
      [CHR 0xE2, CHR 0x80, CHR 0x80], [CHR 0xE2, CHR 0x80, CHR 0x81],
      [CHR 0xE2, CHR 0x80, CHR 0x82], [CHR 0xE2, CHR 0x80, CHR 0x83],
      [CHR 0xE2, CHR 0x80, CHR 0x84], [CHR 0xE2, CHR 0x80, CHR 0x85],
      [CHR 0xE2, CHR 0x80, CHR 0x86], [CHR 0xE2, CHR 0x80, CHR 0x87],
      [CHR 0xE2, CHR 0x80, CHR 0x88], [CHR 0xE2, CHR 0x80, CHR 0x89],
      [CHR 0xE2, CHR 0x80, CHR 0x8A], [CHR 0xE2, CHR 0x80, CHR 0xA8],
      [CHR 0xE2, CHR 0x80, CHR 0xA9], [CHR 0xE2, CHR 0x80, CHR 0xAF],
      [CHR 0xE2, CHR 0x81, CHR 0x9F], [CHR 0xE3, CHR 0x80, CHR 0x80]]"

text \<open>\<open>s.chars().any(char::is_whitespace)\<close>.\<close>

definition ws_at :: "string \<Rightarrow> bool" where
  "ws_at s = list_ex (\<lambda>w. starts_with w s) ws_encodings"

fun has_whitespace :: "string \<Rightarrow> bool" where
  "has_whitespace [] = False"
| "has_whitespace (c # s) = (ws_at (c # s) \<or> has_whitespace s)"

text \<open>\<open>str::trim\<close>: white space is removed at both ends.\<close>

function trim_front :: "string list \<Rightarrow> string \<Rightarrow> string" where
  "trim_front encs s =
     (case find (\<lambda>w. w \<noteq> [] \<and> starts_with w s) encs of
        None \<Rightarrow> s
      | Some w \<Rightarrow> trim_front encs (drop (length w) s))"
  by pat_completeness auto
termination
proof (relation "measure (\<lambda>(encs, s). length s)", goal_cases)
  case (2 encs s w)
  then have "w \<noteq> []" and "prefix w s" by (auto simp: find_Some_iff starts_with_iff)
  then show ?case by (auto simp: prefix_def)
qed simp

declare trim_front.simps [simp del]

definition trim :: "string \<Rightarrow> string" where
  "trim s = rev (trim_front (map rev ws_encodings) (rev (trim_front ws_encodings s)))"

lemmas ws_defs [std_defs] = ws_encodings_def ws_at_def trim_def trim_front.simps

lemma has_whitespace_append: "has_whitespace s \<Longrightarrow> has_whitespace (t @ s)"
  by (induction t) auto

lemma ws_encoding_head: "w \<in> set ws_encodings \<Longrightarrow> w \<noteq> []"
  by (auto simp: ws_encodings_def)

lemma ws_at_iff: "ws_at s \<longleftrightarrow> (\<exists>w\<in>set ws_encodings. prefix w s)"
  by (auto simp: ws_at_def list_ex_iff starts_with_iff)

lemma has_whitespace_iff: "has_whitespace s \<longleftrightarrow> (\<exists>w\<in>set ws_encodings. sublist w s)"
proof (induction s)
  case Nil
  then show ?case using ws_encoding_head by (auto simp: sublist_Nil_right)
next
  case (Cons c s)
  then show ?case by (auto simp: ws_at_iff sublist_Cons_right)
qed

text \<open>A string without white space is its own trim.\<close>

lemma trim_front_id:
  assumes "\<And>w. w \<in> set encs \<Longrightarrow> w \<noteq> [] \<Longrightarrow> \<not> prefix w s"
  shows "trim_front encs s = s"
proof -
  have "find (\<lambda>w. w \<noteq> [] \<and> starts_with w s) encs = None"
    using assms by (auto simp: find_None_iff starts_with_iff)
  then show ?thesis by (subst trim_front.simps) simp
qed

lemma trim_no_whitespace:
  assumes "\<not> has_whitespace s"
  shows "trim s = s"
proof -
  have "\<not> sublist w s" if "w \<in> set ws_encodings" for w
    using assms that by (auto simp: has_whitespace_iff)
  then have "trim_front ws_encodings s = s"
    by (intro trim_front_id) (meson prefix_imp_sublist)
  moreover have "trim_front (map rev ws_encodings) (rev s) = rev s"
  proof (rule trim_front_id)
    fix w assume "w \<in> set (map rev ws_encodings)"
    then obtain v where v: "v \<in> set ws_encodings" "w = rev v" by auto
    show "\<not> prefix w (rev s)"
    proof
      assume "prefix w (rev s)"
      then have "suffix v s" using v by (simp add: suffix_to_prefix)
      then show False using v assms by (meson has_whitespace_iff suffix_imp_sublist)
    qed
  qed
  ultimately show ?thesis by (simp add: trim_def)
qed

lemma ascii_has_whitespace:
  assumes "is_ascii s"
  shows "has_whitespace s \<longleftrightarrow>
    (\<exists>c\<in>set s. c \<in> {CHR 0x09, CHR 0x0A, CHR 0x0B, CHR 0x0C, CHR 0x0D, CHR 0x20})"
  using assms
proof (induction s)
  case Nil
  then show ?case by simp
next
  case (Cons c s)
  then have c: "code c < 128" and s: "is_ascii s" by (simp_all add: is_ascii_def)
  have "ws_at (c # s) \<longleftrightarrow> c \<in> {CHR 0x09, CHR 0x0A, CHR 0x0B, CHR 0x0C, CHR 0x0D, CHR 0x20}"
  proof -
    have "c \<noteq> CHR 0xC2" "c \<noteq> CHR 0xE1" "c \<noteq> CHR 0xE2" "c \<noteq> CHR 0xE3"
      by (rule notI, use c in simp)+
    then show ?thesis by (simp add: ws_at_def ws_encodings_def starts_with_def eq_commute [of _ c])
  qed
  with Cons.IH [OF s] show ?case by simp
qed

subsection \<open>Decimal numbers\<close>

definition dec_value :: "string \<Rightarrow> nat" where
  "dec_value s = foldl (\<lambda>n c. 10 * n + (code c - 48)) 0 s"

text \<open>\<open>uN::from_str\<close> with largest value \<open>bound\<close>: an optional plus sign, then digits.\<close>

definition parse_uint :: "nat \<Rightarrow> string \<Rightarrow> nat option" where
  "parse_uint bound s =
     (let ds = (case s of [] \<Rightarrow> [] | c # t \<Rightarrow> if c = CHR ''+'' then t else s)
      in if ds \<noteq> [] \<and> list_all ascii_digit ds \<and> dec_value ds \<le> bound then Some (dec_value ds) else None)"

definition digit_char :: "nat \<Rightarrow> char" where
  "digit_char n = char_of (48 + n)"

fun show_nat :: "nat \<Rightarrow> string" where
  "show_nat n = (if n < 10 then [digit_char n] else show_nat (n div 10) @ [digit_char (n mod 10)])"

declare show_nat.simps [simp del]

lemmas dec_defs [std_defs] = dec_value_def parse_uint_def digit_char_def

lemma dec_value_snoc: "dec_value (s @ [c]) = 10 * dec_value s + (code c - 48)"
  by (simp add: dec_value_def)

lemma code_digit_char [simp]: "n < 10 \<Longrightarrow> code (digit_char n) = 48 + n"
  by (simp add: digit_char_def)

lemma show_nat_digits: "list_all ascii_digit (show_nat n)"
proof (induction n rule: show_nat.induct)
  case (1 n)
  moreover have "ascii_digit (digit_char m)" if "m < 10" for m
    using that by (simp add: ascii_digit_def)
  ultimately show ?case by (subst show_nat.simps) simp
qed

lemma show_nat_not_Nil [simp]: "show_nat n \<noteq> []"
  by (subst show_nat.simps) simp

lemma dec_value_show_nat [simp]: "dec_value (show_nat n) = n"
proof (induction n rule: show_nat.induct)
  case (1 n)
  show ?case
  proof (cases "n < 10")
    case True
    then show ?thesis by (subst show_nat.simps) (simp add: dec_value_def)
  next
    case False
    then show ?thesis using 1 by (subst show_nat.simps) (simp add: dec_value_snoc)
  qed
qed

lemma parse_uint_show_nat: "n \<le> bound \<Longrightarrow> parse_uint bound (show_nat n) = Some n"
proof -
  assume n: "n \<le> bound"
  obtain c t where ct: "show_nat n = c # t" by (cases "show_nat n") auto
  with show_nat_digits [of n] have "ascii_digit c" by simp
  then have "c \<noteq> CHR ''+''" by (auto simp: ascii_digit_def)
  with ct n show ?thesis
    using show_nat_digits [of n] dec_value_show_nat [of n] by (simp add: parse_uint_def)
qed

lemma parse_uint_bound: "parse_uint bound s = Some n \<Longrightarrow> n \<le> bound"
  by (auto simp: parse_uint_def Let_def split: if_splits)

subsection \<open>IPv4 addresses\<close>

text \<open>
  \<open>Ipv4Addr::from_str\<close>: four decimal octets of at most three digits without a leading zero.
  An address is the 32-bit word with the first octet in the high bits.
\<close>

type_synonym ipv4 = "32 word"

definition parse_octet :: "string \<Rightarrow> nat option" where
  "parse_octet s =
     (if s \<noteq> [] \<and> length s \<le> 3 \<and> list_all ascii_digit s \<and> dec_value s \<le> 255
         \<and> (length s > 1 \<longrightarrow> hd s \<noteq> CHR ''0'')
      then Some (dec_value s) else None)"

definition parse_ipv4 :: "string \<Rightarrow> ipv4 option" where
  "parse_ipv4 s =
     (case map parse_octet (split_on (CHR ''.'') s) of
        [Some a, Some b, Some c, Some d] \<Rightarrow>
          Some (of_nat (((a * 256 + b) * 256 + c) * 256 + d))
      | _ \<Rightarrow> None)"

lemmas ipv4_defs [std_defs] = parse_octet_def parse_ipv4_def

subsection \<open>UTF-8\<close>

text \<open>\<open>std::str::from_utf8\<close>: whether bytes are well-formed UTF-8 (Unicode, table 3-7).\<close>

definition cont :: "char \<Rightarrow> bool" where
  "cont c \<longleftrightarrow> 0x80 \<le> code c \<and> code c \<le> 0xBF"

fun utf8_valid :: "bytes \<Rightarrow> bool" where
  "utf8_valid [] = True"
| "utf8_valid (a # s) =
     (if code a < 0x80 then utf8_valid s
      else (case s of
              [] \<Rightarrow> False
            | b # t \<Rightarrow>
                if 0xC2 \<le> code a \<and> code a \<le> 0xDF then cont b \<and> utf8_valid t
                else (case t of
                        [] \<Rightarrow> False
                      | c # u \<Rightarrow>
                          if 0xE0 \<le> code a \<and> code a \<le> 0xEF
                          then cont b \<and> cont c \<and> (code a = 0xE0 \<longrightarrow> 0xA0 \<le> code b)
                               \<and> (code a = 0xED \<longrightarrow> code b \<le> 0x9F) \<and> utf8_valid u
                          else (case u of
                                  [] \<Rightarrow> False
                                | d # v \<Rightarrow>
                                    0xF0 \<le> code a \<and> code a \<le> 0xF4 \<and> cont b \<and> cont c \<and> cont d
                                    \<and> (code a = 0xF0 \<longrightarrow> 0x90 \<le> code b)
                                    \<and> (code a = 0xF4 \<longrightarrow> code b \<le> 0x8F) \<and> utf8_valid v))))"

end
