(* ===== verification/Hand_Policy.thy ===== *)
theory Hand_Policy
  imports Rust_Strings
begin

section \<open>The policy vocabulary (crate \<open>hand-policy\<close>)\<close>

text \<open>
  The canonical identifier grammar (\<open>identity.rs\<close>), the secret newtypes (\<open>secret.rs\<close>), the
  connector classes (\<open>connector.rs\<close>) and the sandbox environment policy (\<open>guest_env.rs\<close>). An
  \<open>IdentityError\<close> carries only the name of the field, so the validators take the field and
  return it in the error. The bounds of Brain's protocol crate and the length of the canonical
  JSON of the secret document are parameters of \<open>secret_material_fits\<close>.
\<close>

subsection \<open>Identifiers and digests\<close>

definition identifier_char :: "char \<Rightarrow> bool" where
  "identifier_char c \<longleftrightarrow>
     ascii_alphanumeric c \<or> c \<in> {CHR ''.'', CHR ''_'', CHR '':'', CHR ''-''}"

definition validate_identifier :: "string \<Rightarrow> string \<Rightarrow> (string, unit) result" where
  "validate_identifier v field =
     (case v of
        [] \<Rightarrow> Err field
      | first # chars \<Rightarrow>
          if length v > 128 \<or> \<not> is_ascii v \<or> \<not> ascii_alphanumeric first
             \<or> list_ex (\<lambda>ch. \<not> identifier_char ch) chars
          then Err field else Ok ())"

definition lower_hex :: "char \<Rightarrow> bool" where
  "lower_hex c \<longleftrightarrow> ascii_digit c \<or> (97 \<le> code c \<and> code c \<le> 102)"

definition validate_digest :: "string \<Rightarrow> string \<Rightarrow> (string, unit) result" where
  "validate_digest v field =
     (if length v \<noteq> 64 \<or> \<not> list_all lower_hex v then Err field else Ok ())"

definition validate_bounded_token :: "string \<Rightarrow> string \<Rightarrow> nat \<Rightarrow> (string, unit) result" where
  "validate_bounded_token v field bound =
     (if v = [] \<or> length v > bound \<or> \<not> is_ascii v \<or> has_whitespace v then Err field else Ok ())"

declare identifier_char_def [op_defs] validate_identifier_def [op_defs] lower_hex_def [op_defs]
  validate_digest_def [op_defs] validate_bounded_token_def [op_defs]

text \<open>The grammar the validators decide, whatever the field.\<close>

definition valid_identifier :: "string \<Rightarrow> bool" where
  "valid_identifier v \<longleftrightarrow>
     v \<noteq> [] \<and> length v \<le> 128 \<and> ascii_alphanumeric (hd v) \<and> list_all identifier_char v"

definition valid_digest :: "string \<Rightarrow> bool" where
  "valid_digest v \<longleftrightarrow> length v = 64 \<and> list_all lower_hex v"

lemma identifier_char_ascii: "identifier_char c \<Longrightarrow> code c < 128"
  by (auto simp: identifier_char_def ascii_alphanumeric_def ascii_digit_def
      ascii_alphabetic_def ascii_lower_def ascii_upper_def)

lemma alphanumeric_identifier_char: "ascii_alphanumeric c \<Longrightarrow> identifier_char c"
  by (simp add: identifier_char_def)

lemma validate_identifier_Ok [simp]: "validate_identifier v f = Ok u \<longleftrightarrow> valid_identifier v"
  by (cases v) (auto simp: validate_identifier_def valid_identifier_def is_ascii_def list_all_iff
      list_ex_iff identifier_char_ascii alphanumeric_identifier_char, blast dest: identifier_char_ascii)

lemma validate_identifier_Err:
  "validate_identifier v f = Err e \<longleftrightarrow> \<not> valid_identifier v \<and> e = f"
  using validate_identifier_Ok [of v f "()"]
  by (auto simp: validate_identifier_def split: list.splits)

lemma validate_digest_Ok [simp]: "validate_digest v f = Ok u \<longleftrightarrow> valid_digest v"
  by (simp add: validate_digest_def valid_digest_def)

lemma validate_digest_Err: "validate_digest v f = Err e \<longleftrightarrow> \<not> valid_digest v \<and> e = f"
  by (auto simp: validate_digest_def valid_digest_def)

lemma validate_identifier_eq: "validate_identifier v f = (if valid_identifier v then Ok () else Err f)"
  using validate_identifier_Ok [of v f] validate_identifier_Err [of v f]
  by (cases "validate_identifier v f") auto

lemma validate_digest_eq: "validate_digest v f = (if valid_digest v then Ok () else Err f)"
  by (simp add: validate_digest_def valid_digest_def)

lemmas validate_eqs = validate_identifier_eq validate_digest_eq

lemmas validate_Errs = validate_identifier_Err validate_digest_Err

lemma valid_digest_replicate: "lower_hex c \<Longrightarrow> valid_digest (replicate 64 c)"
  by (simp add: valid_digest_def list_all_iff)

lemma lower_hex_identifier: "lower_hex c \<Longrightarrow> ascii_alphanumeric c"
  by (auto simp: lower_hex_def ascii_alphanumeric_def ascii_alphabetic_def ascii_lower_def)

text \<open>Every digest is also an identifier, so a digest can key the registries.\<close>

lemma valid_digest_identifier: "valid_digest v \<Longrightarrow> valid_identifier v"
  by (cases v) (auto simp: valid_digest_def valid_identifier_def list_all_iff identifier_char_def
      dest: lower_hex_identifier)

subsection \<open>Connector classes and object bound\<close>

datatype connector_class = ConnNone | ConnPublic | ConnAllowlist

definition MAX_OBJECT_BYTES :: nat where
  "MAX_OBJECT_BYTES = 512 * 1024 * 1024"

subsection \<open>Secrets\<close>

datatype secret_error = InvalidControlToken | InvalidLaunchRequest

datatype control_token = ControlToken (ct_expose: string)

definition CONTROL_TOKEN_PREFIX :: string where
  "CONTROL_TOKEN_PREFIX = ''control-''"

definition CONTROL_TOKEN_HEX_BYTES :: nat where
  "CONTROL_TOKEN_HEX_BYTES = 32"

definition control_token_new :: "string \<Rightarrow> (secret_error, control_token) result" where
  "control_token_new v =
     (case strip_prefix CONTROL_TOKEN_PREFIX v of
        None \<Rightarrow> Err InvalidControlToken
      | Some hex \<Rightarrow>
          if length hex \<noteq> CONTROL_TOKEN_HEX_BYTES * 2 \<or> \<not> list_all lower_hex hex
          then Err InvalidControlToken else Ok (ControlToken v))"

datatype launch_request = DurableLaunchRequest (lr_expose: string)

definition MAX_DURABLE_LAUNCH_REQUEST_BYTES :: nat where
  "MAX_DURABLE_LAUNCH_REQUEST_BYTES = 64 * 1024"

definition launch_request_new :: "string \<Rightarrow> (secret_error, launch_request) result" where
  "launch_request_new v =
     (if v = [] \<or> length v > MAX_DURABLE_LAUNCH_REQUEST_BYTES then Err InvalidLaunchRequest
      else Ok (DurableLaunchRequest v))"

definition launch_request_validate :: "launch_request \<Rightarrow> (secret_error, unit) result" where
  "launch_request_validate r =
     (if lr_expose r = [] \<or> length (lr_expose r) > MAX_DURABLE_LAUNCH_REQUEST_BYTES
      then Err InvalidLaunchRequest else Ok ())"

declare control_token_new_def [op_defs] launch_request_new_def [op_defs]
  launch_request_validate_def [op_defs]

lemma control_token_new_Ok_iff:
  "control_token_new v = Ok t \<longleftrightarrow>
     t = ControlToken v \<and> (\<exists>hex. v = ''control-'' @ hex \<and> valid_digest hex)"
  by (auto simp: control_token_new_def CONTROL_TOKEN_PREFIX_def CONTROL_TOKEN_HEX_BYTES_def
      valid_digest_def split: option.splits if_splits)

lemma launch_request_new_validates:
  "launch_request_new v = Ok r \<Longrightarrow> launch_request_validate r = Ok () \<and> lr_expose r = v"
  by (auto simp: launch_request_new_def launch_request_validate_def split: if_splits)

subsection \<open>The sandbox environment\<close>

datatype secret_material_error =
  TooManyNames | NamesValuesMismatch | InvalidName | InvalidValue | DocumentTooLarge

text \<open>Bounds of Brain's protocol crate, which is not part of this repository.\<close>

record secret_bounds =
  MAX_SESSION_SECRET_NAME_BYTES :: nat
  MAX_SESSION_SECRET_NAMES :: nat
  MAX_SESSION_SECRET_VALUE_UTF8_BYTES :: nat
  MAX_SESSION_SECRET_DOCUMENT_BYTES :: nat

definition environment_name_is_valid :: "secret_bounds \<Rightarrow> string \<Rightarrow> bool" where
  "environment_name_is_valid b name \<longleftrightarrow>
     name \<noteq> [] \<and> length name \<le> MAX_SESSION_SECRET_NAME_BYTES b
     \<and> (ascii_alphabetic (hd name) \<or> hd name = CHR ''_'')
     \<and> list_all (\<lambda>byte. ascii_alphanumeric byte \<or> byte = CHR ''_'') (tl name)"

definition reserved_names :: "string list" where
  "reserved_names =
     [''PATH'', ''HOME'', ''USER'', ''LOGNAME'', ''LANG'', ''TERM'', ''CI'', ''IFS'', ''ENV'',
      ''BASH_ENV'', ''SHELLOPTS'', ''PS4'', ''NODE_OPTIONS'', ''NODE_PATH'',
      ''NODE_REPL_EXTERNAL_MODULE'', ''HTTP_PROXY'', ''HTTPS_PROXY'', ''ALL_PROXY'', ''NO_PROXY'',
      ''GIT_TERMINAL_PROMPT'', ''CARGO_HOME'', ''RUSTUP_HOME'', ''GOPATH'', ''GOMODCACHE'',
      ''NPM_CONFIG_PREFIX'', ''NPM_CONFIG_CACHE'', ''PIP_CACHE_DIR'', ''PIPX_HOME'',
      ''PIPX_BIN_DIR'', ''UV_CACHE_DIR'', ''GCONV_PATH'', ''LOCPATH'', ''NLSPATH'',
      ''OPENSSL_CONF'', ''OPENSSL_MODULES'', ''SSLKEYLOGFILE'']"

definition reserved_tool_environment :: "string \<Rightarrow> bool" where
  "reserved_tool_environment name =
     (let up = to_ascii_uppercase name
      in starts_with ''LD_'' up \<or> starts_with ''HAND_'' up \<or> starts_with ''AEX_'' up
         \<or> up \<in> set reserved_names)"

text \<open>
  The loop over \<open>env_names\<close>: \<open>prior\<close> is the slice \<open>env_names[..index]\<close>, in order.
\<close>

fun secret_names_check ::
    "secret_bounds \<Rightarrow> (string \<rightharpoonup> string) \<Rightarrow> string list \<Rightarrow> string list
      \<Rightarrow> (secret_material_error, unit) result" where
  "secret_names_check b vals prior [] = Ok ()"
| "secret_names_check b vals prior (name # names) =
     (if \<not> environment_name_is_valid b name then Err InvalidName
      else if list_ex (\<lambda>p. p = name) prior \<or> name \<notin> dom vals then Err NamesValuesMismatch
      else secret_names_check b vals (prior @ [name]) names)"

definition secret_value_ok :: "secret_bounds \<Rightarrow> string \<Rightarrow> bool" where
  "secret_value_ok b v \<longleftrightarrow>
     length v \<le> MAX_SESSION_SECRET_VALUE_UTF8_BYTES b \<and> CHR 0x00 \<notin> set v"

text \<open>
  \<open>canonical\<close> is \<open>serde_jcs::to_vec(values)\<close>: \<open>None\<close> when serialization fails, the bytes
  otherwise.
\<close>

definition secret_material_fits ::
    "secret_bounds \<Rightarrow> ((string \<rightharpoonup> string) \<Rightarrow> string option) \<Rightarrow> string list \<Rightarrow> (string \<rightharpoonup> string)
      \<Rightarrow> (secret_material_error, unit) result" where
  "secret_material_fits b canonical env_names vals =
     (if length env_names > MAX_SESSION_SECRET_NAMES b then Err TooManyNames
      else if card (dom vals) \<noteq> length env_names then Err NamesValuesMismatch
      else and_then (secret_names_check b vals [] env_names) (\<lambda>_.
        if \<not> Ball (ran vals) (secret_value_ok b) then Err InvalidValue
        else (case canonical vals of
                None \<Rightarrow> Err DocumentTooLarge
              | Some bytes \<Rightarrow>
                  if length bytes \<le> MAX_SESSION_SECRET_DOCUMENT_BYTES b then Ok ()
                  else Err DocumentTooLarge)))"

declare environment_name_is_valid_def [op_defs] reserved_tool_environment_def [op_defs]
  secret_value_ok_def [op_defs] secret_material_fits_def [op_defs]

lemma secret_names_check_Ok_iff:
  "secret_names_check b vals prior names = Ok () \<longleftrightarrow>
     list_all (environment_name_is_valid b) names \<and> distinct names
     \<and> set prior \<inter> set names = {} \<and> set names \<subseteq> dom vals"
  by (induction names arbitrary: prior) (auto simp: list_ex_iff)

lemma secret_material_domain:
  assumes "finite (dom vals)" and "secret_material_fits b canonical names vals = Ok ()"
  shows "set names = dom vals" and "distinct names"
proof -
  from assms(2) have c: "card (dom vals) = length names"
    and n: "secret_names_check b vals [] names = Ok ()"
    by (auto simp: secret_material_fits_def and_then_Ok_iff split: if_splits)
  from n have "set names \<subseteq> dom vals" and d: "distinct names"
    by (auto simp: secret_names_check_Ok_iff)
  moreover have "card (set names) = card (dom vals)" using c d by (simp add: distinct_card)
  ultimately show "set names = dom vals" and "distinct names"
    using assms(1) card_subset_eq [of "dom vals" "set names"] by simp_all
qed

subsection \<open>Sample digests, for the evaluations of other theories\<close>

abbreviation digest_a :: string where "digest_a \<equiv> replicate 64 (CHR ''a'')"
abbreviation digest_b :: string where "digest_b \<equiv> replicate 64 (CHR ''b'')"
abbreviation digest_c :: string where "digest_c \<equiv> replicate 64 (CHR ''c'')"

lemma sample_digests [simp]: "valid_digest digest_a" "valid_digest digest_b" "valid_digest digest_c"
  by (simp_all add: valid_digest_def lower_hex_def list_all_iff)

lemma sample_digests_distinct [simp]: "digest_b \<noteq> digest_a" "digest_c \<noteq> digest_a" "digest_c \<noteq> digest_b"
  by (simp_all add: replicate_eq_replicate)

end
