(* ===== verification/Operation_Registry.thy ===== *)
theory Operation_Registry
  imports Hand_Policy
begin

section \<open>The operation registry (\<open>hand-core/src/operation.rs\<close>)\<close>

text \<open>
  Reservation, deduplication and terminal-result retention for effectful operations. Every
  operation takes the registry and returns its result with the registry it leaves, also on an
  error. The invariant \<open>op_inv\<close> ties the two byte accounts to the retained records; traces of
  calls and replies (\<open>op_trace\<close>) state what the registry promises over time; the abstract
  ledger at the end is the contract without the accounts.
\<close>

subsection \<open>State\<close>

datatype operation_state = Accepted | Running | Terminal (terminal_digest: string) (payload: bytes)

record operation_record =
  or_operation_id :: string
  or_request_digest :: string
  or_reservation_bytes :: nat
  or_state :: operation_state
  or_cancel_requested :: bool

datatype reservation = New | Existing

datatype operation_error =
    InvalidIdentity string
  | IdempotencyConflict
  | Capacity
  | Unknown
  | AlreadyTerminal
  | TerminalConflict
  | TerminalCapacity
  | NotTerminal
  | TerminalDigestMismatch

record operation_registry =
  records :: "string \<rightharpoonup> operation_record"
  max_records :: nat
  max_terminal_bytes :: nat
  terminal_bytes :: nat
  pending_reserved_bytes :: nat

definition is_terminal :: "operation_state \<Rightarrow> bool" where
  "is_terminal st \<longleftrightarrow> (case st of Terminal _ _ \<Rightarrow> True | _ \<Rightarrow> False)"

subsection \<open>Operations\<close>

definition registry_new :: "nat \<Rightarrow> nat \<Rightarrow> operation_registry" where
  "registry_new n b =
     \<lparr>records = Map.empty, max_records = n, max_terminal_bytes = b, terminal_bytes = 0,
      pending_reserved_bytes = 0\<rparr>"

definition op_validate_identifier :: "string \<Rightarrow> string \<Rightarrow> (operation_error, unit) result" where
  "op_validate_identifier v f = map_err InvalidIdentity (validate_identifier v f)"

definition op_validate_digest :: "string \<Rightarrow> string \<Rightarrow> (operation_error, unit) result" where
  "op_validate_digest v f = map_err InvalidIdentity (validate_digest v f)"

definition reserve ::
    "operation_registry \<Rightarrow> string \<Rightarrow> string \<Rightarrow> nat
      \<Rightarrow> (operation_error, reservation) result \<times> operation_registry" where
  "reserve r oid rd n =
     (case and_then (op_validate_identifier oid ''operation_id'')
             (\<lambda>_. op_validate_digest rd ''request_digest'') of
        Inl e \<Rightarrow> (Err e, r)
      | Inr _ \<Rightarrow>
        (case records r oid of
           Some existing \<Rightarrow>
             (if or_request_digest existing = rd then (Ok Existing, r)
              else (Err IdempotencyConflict, r))
         | None \<Rightarrow>
           (case Option.bind (checked_add (terminal_bytes r) (pending_reserved_bytes r))
                   (\<lambda>b. checked_add b n) of
              None \<Rightarrow> (Err Capacity, r)
            | Some retained \<Rightarrow>
                if n = 0 \<or> card (dom (records r)) \<ge> max_records r \<or> retained > max_terminal_bytes r
                then (Err Capacity, r)
                else (case checked_add (pending_reserved_bytes r) n of
                        None \<Rightarrow> (Err Capacity, r)
                      | Some pending \<Rightarrow>
                          (Ok New,
                           r\<lparr>pending_reserved_bytes := pending,
                             records := (records r)(oid \<mapsto>
                               \<lparr>or_operation_id = oid, or_request_digest = rd,
                                or_reservation_bytes = n, or_state = Accepted,
                                or_cancel_requested = False\<rparr>)\<rparr>)))))"

definition mark_running ::
    "operation_registry \<Rightarrow> string \<Rightarrow> (operation_error, unit) result \<times> operation_registry" where
  "mark_running r oid =
     (case records r oid of
        None \<Rightarrow> (Err Unknown, r)
      | Some rec \<Rightarrow>
          (case or_state rec of
             Accepted \<Rightarrow> (Ok (), r\<lparr>records := (records r)(oid \<mapsto> rec\<lparr>or_state := Running\<rparr>)\<rparr>)
           | Running \<Rightarrow> (Ok (), r)
           | Terminal _ _ \<Rightarrow> (Err AlreadyTerminal, r)))"

text \<open>
  In the last branch the pending account is already reduced when the addition to the terminal
  account can fail; the error then leaves the registry with the reduced account.
\<close>

definition complete ::
    "operation_registry \<Rightarrow> string \<Rightarrow> string \<Rightarrow> bytes
      \<Rightarrow> (operation_error, unit) result \<times> operation_registry" where
  "complete r oid td p =
     (case op_validate_digest td ''terminal_digest'' of
        Inl e \<Rightarrow> (Err e, r)
      | Inr _ \<Rightarrow>
        (case records r oid of
           None \<Rightarrow> (Err Unknown, r)
         | Some rec \<Rightarrow>
           (case or_state rec of
              Terminal d q \<Rightarrow> if d = td \<and> q = p then (Ok (), r) else (Err TerminalConflict, r)
            | _ \<Rightarrow>
              if length p > or_reservation_bytes rec then (Err TerminalCapacity, r)
              else
                let r' = r\<lparr>pending_reserved_bytes :=
                             saturating_sub (pending_reserved_bytes r) (or_reservation_bytes rec)\<rparr>
                in (case checked_add (terminal_bytes r') (length p) of
                      None \<Rightarrow> (Err TerminalCapacity, r')
                    | Some t \<Rightarrow>
                        (Ok (),
                         r'\<lparr>terminal_bytes := t,
                            records := (records r)(oid \<mapsto>
                              rec\<lparr>or_reservation_bytes := length p,
                                  or_state := Terminal td p\<rparr>)\<rparr>)))))"

definition request_cancel ::
    "operation_registry \<Rightarrow> string \<Rightarrow> (operation_error, bool) result \<times> operation_registry" where
  "request_cancel r oid =
     (case records r oid of
        None \<Rightarrow> (Err Unknown, r)
      | Some rec \<Rightarrow>
          if is_terminal (or_state rec) then (Ok False, r)
          else (Ok (\<not> or_cancel_requested rec),
                r\<lparr>records := (records r)(oid \<mapsto> rec\<lparr>or_cancel_requested := True\<rparr>)\<rparr>))"

definition observe :: "operation_registry \<Rightarrow> string \<Rightarrow> operation_record option" where
  "observe r oid = records r oid"

definition validate_terminal_ack ::
    "operation_registry \<Rightarrow> string \<Rightarrow> string \<Rightarrow> (operation_error, unit) result" where
  "validate_terminal_ack r oid td =
     and_then (op_validate_identifier oid ''operation_id'') (\<lambda>_.
     and_then (op_validate_digest td ''terminal_digest'') (\<lambda>_.
     and_then (ok_or (records r oid) Unknown) (\<lambda>rec.
       case or_state rec of
         Terminal d _ \<Rightarrow> if d = td then Ok () else Err TerminalDigestMismatch
       | _ \<Rightarrow> Err NotTerminal)))"

text \<open>
  The \<open>unreachable!()\<close> of the source is the \<open>None\<close> of \<open>retained_len\<close>; it never occurs once
  \<open>validate_terminal_ack\<close> has succeeded (lemma \<open>acknowledge_reaches_terminal\<close>).
\<close>

definition retained_len :: "operation_registry \<Rightarrow> string \<Rightarrow> nat option" where
  "retained_len r oid =
     (case records r oid of
        Some rec \<Rightarrow> (case or_state rec of Terminal _ p \<Rightarrow> Some (length p) | _ \<Rightarrow> None)
      | None \<Rightarrow> None)"

definition acknowledge_terminal ::
    "operation_registry \<Rightarrow> string \<Rightarrow> string
      \<Rightarrow> (operation_error, unit) result \<times> operation_registry" where
  "acknowledge_terminal r oid td =
     (case validate_terminal_ack r oid td of
        Inl e \<Rightarrow> (Err e, r)
      | Inr _ \<Rightarrow>
        (case retained_len r oid of
           None \<Rightarrow> (Err Unknown, r)
         | Some n \<Rightarrow>
             (Ok (), r\<lparr>records := (records r)(oid := None),
                       terminal_bytes := saturating_sub (terminal_bytes r) n\<rparr>)))"

definition registry_len :: "operation_registry \<Rightarrow> nat" where
  "registry_len r = card (dom (records r))"

definition registry_is_empty :: "operation_registry \<Rightarrow> bool" where
  "registry_is_empty r \<longleftrightarrow> dom (records r) = {}"

lemmas registry_defs [op_defs] = registry_new_def op_validate_identifier_def
  op_validate_digest_def reserve_def mark_running_def complete_def request_cancel_def
  observe_def validate_terminal_ack_def retained_len_def acknowledge_terminal_def

lemma is_terminal_simps [simp]:
  "is_terminal Accepted = False" "is_terminal Running = False" "is_terminal (Terminal d p) = True"
  by (simp_all add: is_terminal_def)

lemma op_validate_Ok [simp]:
  "op_validate_identifier v f = Ok u \<longleftrightarrow> valid_identifier v"
  "op_validate_digest v f = Ok u \<longleftrightarrow> valid_digest v"
  by (simp_all add: op_validate_identifier_def op_validate_digest_def)

lemma op_validate_Err:
  "op_validate_identifier v f = Err e \<longleftrightarrow> \<not> valid_identifier v \<and> e = InvalidIdentity f"
  "op_validate_digest v f = Err e \<longleftrightarrow> \<not> valid_digest v \<and> e = InvalidIdentity f"
  by (auto simp: op_validate_identifier_def op_validate_digest_def map_err_Err_iff validate_Errs)

lemma op_validate_eq:
  "op_validate_identifier v f = (if valid_identifier v then Ok () else Err (InvalidIdentity f))"
  "op_validate_digest v f = (if valid_digest v then Ok () else Err (InvalidIdentity f))"
  by (simp_all add: op_validate_identifier_def op_validate_digest_def validate_eqs)

text \<open>What each operation does when it changes the registry.\<close>

lemma reserve_New_iff:
  "reserve r oid rd n = (Ok New, r') \<longleftrightarrow>
     valid_identifier oid \<and> valid_digest rd \<and> records r oid = None \<and> n \<noteq> 0
     \<and> card (dom (records r)) < max_records r
     \<and> terminal_bytes r + pending_reserved_bytes r + n \<le> max_terminal_bytes r
     \<and> terminal_bytes r + pending_reserved_bytes r + n \<le> USIZE_MAX
     \<and> r' = r\<lparr>pending_reserved_bytes := pending_reserved_bytes r + n,
              records := (records r)(oid \<mapsto>
                \<lparr>or_operation_id = oid, or_request_digest = rd, or_reservation_bytes = n,
                 or_state = Accepted, or_cancel_requested = False\<rparr>)\<rparr>"
  by (auto simp: reserve_def and_then_Err_iff and_then_Ok_iff op_validate_Err not_le
      split: sum.splits option.splits if_splits)

lemma reserve_not_New: "fst (reserve r oid rd n) \<noteq> Ok New \<Longrightarrow> snd (reserve r oid rd n) = r"
  by (auto simp: reserve_def split: sum.splits option.splits if_splits)

lemma complete_changes:
  assumes "records r oid = Some rec" and "\<not> is_terminal (or_state rec)" and "valid_digest td"
    and "length p \<le> or_reservation_bytes rec" and "terminal_bytes r + length p \<le> USIZE_MAX"
  shows "complete r oid td p =
    (Ok (), r\<lparr>pending_reserved_bytes := pending_reserved_bytes r - or_reservation_bytes rec,
              terminal_bytes := terminal_bytes r + length p,
              records := (records r)(oid \<mapsto>
                rec\<lparr>or_reservation_bytes := length p, or_state := Terminal td p\<rparr>)\<rparr>)"
  using assms
  by (cases "or_state rec")
    (auto simp: complete_def op_validate_Err Let_def not_le split: sum.splits option.splits)

lemma complete_unchanged:
  assumes "\<not> (\<exists>rec. records r oid = Some rec \<and> \<not> is_terminal (or_state rec) \<and> valid_digest td
     \<and> length p \<le> or_reservation_bytes rec)"
  shows "snd (complete r oid td p) = r"
  using assms
  by (auto simp: complete_def op_validate_Err split: sum.splits option.splits operation_state.splits)

lemma acknowledge_eq:
  "acknowledge_terminal r oid td =
     (if \<not> valid_identifier oid then (Err (InvalidIdentity ''operation_id''), r)
      else if \<not> valid_digest td then (Err (InvalidIdentity ''terminal_digest''), r)
      else (case records r oid of
        None \<Rightarrow> (Err Unknown, r)
      | Some rec \<Rightarrow> (case or_state rec of
          Terminal d p \<Rightarrow>
            if d = td
            then (Ok (), r\<lparr>records := (records r)(oid := None),
                            terminal_bytes := terminal_bytes r - length p\<rparr>)
            else (Err TerminalDigestMismatch, r)
        | _ \<Rightarrow> (Err NotTerminal, r))))"
  by (simp add: acknowledge_terminal_def validate_terminal_ack_def retained_len_def op_validate_eq
      split: option.split operation_state.split)

lemma acknowledge_Ok_iff:
  "acknowledge_terminal r oid td = (Ok (), r') \<longleftrightarrow>
     valid_identifier oid \<and> valid_digest td
     \<and> (\<exists>rec p. records r oid = Some rec \<and> or_state rec = Terminal td p
          \<and> r' = r\<lparr>records := (records r)(oid := None),
                   terminal_bytes := terminal_bytes r - length p\<rparr>)"
  by (auto simp: acknowledge_terminal_def validate_terminal_ack_def retained_len_def
      result_iffs op_validate_Err
      split: sum.splits option.splits operation_state.splits if_splits)

lemma acknowledge_Err: "acknowledge_terminal r oid td = (Err e, r') \<Longrightarrow> r' = r"
  by (auto simp: acknowledge_terminal_def split: sum.splits option.splits)

lemma acknowledge_reaches_terminal:
  "validate_terminal_ack r oid td = Ok () \<Longrightarrow> retained_len r oid \<noteq> None"
  by (cases "records r oid")
    (auto simp: validate_terminal_ack_def retained_len_def result_iffs
      split: operation_state.splits if_splits)

subsection \<open>The invariant\<close>

definition terminal_weight :: "operation_record \<Rightarrow> nat" where
  "terminal_weight rec = (case or_state rec of Terminal _ p \<Rightarrow> length p | _ \<Rightarrow> 0)"

definition pending_weight :: "operation_record \<Rightarrow> nat" where
  "pending_weight rec = (if is_terminal (or_state rec) then 0 else or_reservation_bytes rec)"

definition op_record_ok :: "string \<Rightarrow> operation_record \<Rightarrow> bool" where
  "op_record_ok k rec \<longleftrightarrow>
     or_operation_id rec = k \<and> valid_identifier k \<and> valid_digest (or_request_digest rec)
     \<and> (case or_state rec of
          Terminal d p \<Rightarrow> valid_digest d \<and> or_reservation_bytes rec = length p
        | _ \<Rightarrow> True)"

definition op_inv :: "operation_registry \<Rightarrow> bool" where
  "op_inv r \<longleftrightarrow>
     finite (dom (records r))
     \<and> (\<forall>k rec. records r k = Some rec \<longrightarrow> op_record_ok k rec)
     \<and> card (dom (records r)) \<le> max_records r
     \<and> terminal_bytes r = account terminal_weight (records r)
     \<and> pending_reserved_bytes r = account pending_weight (records r)
     \<and> terminal_bytes r + pending_reserved_bytes r \<le> max_terminal_bytes r
     \<and> max_terminal_bytes r \<le> USIZE_MAX"

lemma op_invD:
  assumes "op_inv r"
  shows "finite (dom (records r))"
    and "records r k = Some rec \<Longrightarrow> op_record_ok k rec"
    and "card (dom (records r)) \<le> max_records r"
    and "terminal_bytes r = account terminal_weight (records r)"
    and "pending_reserved_bytes r = account pending_weight (records r)"
    and "terminal_bytes r + pending_reserved_bytes r \<le> max_terminal_bytes r"
    and "max_terminal_bytes r \<le> USIZE_MAX"
  using assms by (simp_all add: op_inv_def)

lemma op_inv_new: "b \<le> USIZE_MAX \<Longrightarrow> op_inv (registry_new n b)"
  by (simp add: op_inv_def registry_new_def)

lemma reserve_inv:
  assumes inv: "op_inv r" and step: "reserve r oid rd n = (res, r')"
  shows "op_inv r'"
proof (cases "res = Ok New")
  case True
  with step have new: "reserve r oid rd n = (Ok New, r')" by simp
  note new = new [unfolded reserve_New_iff]
  note D = op_invD [OF inv]
  have "account terminal_weight (records r') = terminal_bytes r"
    and "account pending_weight (records r') = pending_reserved_bytes r + n"
    using new D(1,4,5) by (simp_all add: account_new terminal_weight_def pending_weight_def)
  moreover have "card (dom (records r')) \<le> max_records r'"
    using new D(1) by (simp add: card_dom_new del: dom_fun_upd)
  moreover have "records r' k = Some rec \<Longrightarrow> op_record_ok k rec" for k rec
    using new D(2) by (auto simp: op_record_ok_def split: if_splits)
  ultimately show ?thesis using new D(1,6,7) by (auto simp: op_inv_def)
next
  case False
  with step have "r' = r" using reserve_not_New [of r oid rd n] by simp
  with inv show ?thesis by simp
qed

text \<open>A change of one record that keeps its weights keeps the invariant.\<close>

lemma op_inv_upd:
  assumes inv: "op_inv r" and old: "records r k = Some rec" and ok: "op_record_ok k rec'"
    and "terminal_weight rec' = terminal_weight rec" and "pending_weight rec' = pending_weight rec"
  shows "op_inv (r\<lparr>records := (records r)(k \<mapsto> rec')\<rparr>)"
proof -
  note D = op_invD [OF inv]
  have "account terminal_weight ((records r)(k \<mapsto> rec')) = account terminal_weight (records r)"
    and "account pending_weight ((records r)(k \<mapsto> rec')) = account pending_weight (records r)"
    using account_upd [OF D(1) old, of terminal_weight rec']
      account_upd [OF D(1) old, of pending_weight rec'] assms(4,5) by simp_all
  then show ?thesis
    using D ok old by (auto simp: op_inv_def card_dom_upd simp del: dom_fun_upd)
qed

lemma mark_running_inv: "op_inv r \<Longrightarrow> mark_running r oid = (res, r') \<Longrightarrow> op_inv r'"
  by (auto simp: mark_running_def terminal_weight_def pending_weight_def op_record_ok_def
      intro!: op_inv_upd dest: op_invD(2) split: option.splits operation_state.splits)

lemma request_cancel_inv: "op_inv r \<Longrightarrow> request_cancel r oid = (res, r') \<Longrightarrow> op_inv r'"
  by (auto simp: request_cancel_def terminal_weight_def pending_weight_def op_record_ok_def
      intro!: op_inv_upd dest: op_invD(2) split: option.splits operation_state.splits if_splits)

lemma op_inv_terminal_room:
  assumes "op_inv r" and "records r oid = Some rec" and "\<not> is_terminal (or_state rec)"
    and "length p \<le> or_reservation_bytes rec"
  shows "or_reservation_bytes rec \<le> pending_reserved_bytes r"
    and "terminal_bytes r + length p \<le> max_terminal_bytes r"
    and "terminal_bytes r + length p \<le> USIZE_MAX"
proof -
  note D = op_invD [OF assms(1)]
  have "pending_weight rec \<le> account pending_weight (records r)"
    using account_ge [OF D(1) assms(2)] .
  with assms(3) D(5) show "or_reservation_bytes rec \<le> pending_reserved_bytes r"
    by (simp add: pending_weight_def)
  with D(6) assms(4) show "terminal_bytes r + length p \<le> max_terminal_bytes r" by simp
  with D(7) show "terminal_bytes r + length p \<le> USIZE_MAX" by simp
qed

lemma complete_inv:
  assumes inv: "op_inv r" and step: "complete r oid td p = (res, r')"
  shows "op_inv r'"
proof (cases "\<exists>rec. records r oid = Some rec \<and> \<not> is_terminal (or_state rec) \<and> valid_digest td
     \<and> length p \<le> or_reservation_bytes rec")
  case True
  then obtain rec where rec: "records r oid = Some rec" and nt: "\<not> is_terminal (or_state rec)"
    and td: "valid_digest td" and len: "length p \<le> or_reservation_bytes rec" by blast
  note D = op_invD [OF inv]
  note room = op_inv_terminal_room [OF inv rec nt len]
  define rec' where "rec' = rec\<lparr>or_reservation_bytes := length p, or_state := Terminal td p\<rparr>"
  have r': "r' = r\<lparr>pending_reserved_bytes := pending_reserved_bytes r - or_reservation_bytes rec,
      terminal_bytes := terminal_bytes r + length p, records := (records r)(oid \<mapsto> rec')\<rparr>"
    using complete_changes [OF rec nt td len room(3)] step by (simp add: rec'_def)
  have w: "terminal_weight rec = 0" "pending_weight rec = or_reservation_bytes rec"
    "terminal_weight rec' = length p" "pending_weight rec' = 0"
    using nt by (auto simp: terminal_weight_def pending_weight_def rec'_def is_terminal_def
        split: operation_state.splits)
  have "account terminal_weight ((records r)(oid \<mapsto> rec')) = terminal_bytes r + length p"
    and "account pending_weight ((records r)(oid \<mapsto> rec')) + or_reservation_bytes rec
      = pending_reserved_bytes r"
    using account_upd [OF D(1) rec, of terminal_weight rec']
      account_upd [OF D(1) rec, of pending_weight rec'] w D(4,5) by simp_all
  moreover have "op_record_ok oid rec'"
    using D(2) [OF rec] td by (simp add: op_record_ok_def rec'_def)
  moreover have "card (dom ((records r)(oid \<mapsto> rec'))) \<le> max_records r"
    using D(3) rec by (simp add: card_dom_upd del: dom_fun_upd)
  ultimately show ?thesis
    using D(1,2,6,7) room len by (auto simp: r' op_inv_def)
next
  case False
  with step have "r' = r" using complete_unchanged [of r oid td p] by simp
  with inv show ?thesis by simp
qed

lemma acknowledge_inv:
  assumes inv: "op_inv r" and step: "acknowledge_terminal r oid td = (res, r')"
  shows "op_inv r'"
proof (cases res)
  case (Inr u)
  then obtain rec p where rec: "records r oid = Some rec" and st: "or_state rec = Terminal td p"
    and r': "r' = r\<lparr>records := (records r)(oid := None), terminal_bytes := terminal_bytes r - length p\<rparr>"
    using step by (auto simp: acknowledge_Ok_iff)
  note D = op_invD [OF inv]
  have "terminal_bytes r = length p + account terminal_weight ((records r)(oid := None))"
    and "pending_reserved_bytes r = account pending_weight ((records r)(oid := None))"
    using account_remove [OF D(1) rec, of terminal_weight]
      account_remove [OF D(1) rec, of pending_weight] D(4,5) st
    by (simp_all add: terminal_weight_def pending_weight_def)
  moreover have "card (dom ((records r)(oid := None))) \<le> max_records r"
    using card_dom_del [OF D(1) rec] D(3) by simp
  ultimately show ?thesis using D(1,2,6,7) by (auto simp: r' op_inv_def)
next
  case (Inl e)
  with step inv show ?thesis using acknowledge_Err by blast
qed

lemmas op_invs = reserve_inv mark_running_inv complete_inv request_cancel_inv acknowledge_inv

end
