(* ===== verification/Operation_Ledger.thy ===== *)
theory Operation_Ledger
  imports Operation_Registry
begin

section \<open>Histories of the operation registry and its abstract ledger\<close>

text \<open>
  Calls with their replies form traces of one registry. The ledger is the contract the guest
  relies on: a map from operation ids to pending or settled entries, with neither byte accounts
  nor record limits, in which the registry may refuse a new reservation for want of capacity.
  Every history of a registry is a history of the ledger.
\<close>

subsection \<open>Calls and traces\<close>

datatype op_call =
    CReserve string string nat
  | CMarkRunning string
  | CComplete string string bytes
  | CCancel string
  | CAck string string

datatype op_reply =
    RReserve "(operation_error, reservation) result"
  | RUnit "(operation_error, unit) result"
  | RCancel "(operation_error, bool) result"

fun op_exec :: "operation_registry \<Rightarrow> op_call \<Rightarrow> op_reply \<times> operation_registry" where
  "op_exec r (CReserve oid rd n) = (case reserve r oid rd n of (x, r') \<Rightarrow> (RReserve x, r'))"
| "op_exec r (CMarkRunning oid) = (case mark_running r oid of (x, r') \<Rightarrow> (RUnit x, r'))"
| "op_exec r (CComplete oid td p) = (case complete r oid td p of (x, r') \<Rightarrow> (RUnit x, r'))"
| "op_exec r (CCancel oid) = (case request_cancel r oid of (x, r') \<Rightarrow> (RCancel x, r'))"
| "op_exec r (CAck oid td) = (case acknowledge_terminal r oid td of (x, r') \<Rightarrow> (RUnit x, r'))"

lemma op_exec_inv: "op_inv r \<Longrightarrow> op_exec r c = (rep, r') \<Longrightarrow> op_inv r'"
  by (cases c) (auto split: prod.splits intro: op_invs)

lemma op_exec_limits:
  "op_exec r c = (rep, r') \<Longrightarrow> max_records r' = max_records r \<and> max_terminal_bytes r' = max_terminal_bytes r"
  by (cases c)
    (auto simp: reserve_def mark_running_def complete_def request_cancel_def
      acknowledge_terminal_def Let_def
      split: prod.splits sum.splits option.splits if_splits operation_state.splits)

subsection \<open>The abstract ledger\<close>

datatype ledger_entry =
    Pending (entry_request: string)
  | Settled (entry_request: string) (entry_digest: string) (entry_payload: bytes)

type_synonym ledger = "string \<rightharpoonup> ledger_entry"

definition abs_record :: "operation_record \<Rightarrow> ledger_entry" where
  "abs_record rec =
     (case or_state rec of
        Terminal td p \<Rightarrow> Settled (or_request_digest rec) td p
      | _ \<Rightarrow> Pending (or_request_digest rec))"

definition abs_ledger :: "operation_registry \<Rightarrow> ledger" where
  "abs_ledger r = map_option abs_record \<circ> records r"

inductive ledger_step :: "ledger \<Rightarrow> op_call \<Rightarrow> op_reply \<Rightarrow> ledger \<Rightarrow> bool" where
  admit: "valid_identifier oid \<Longrightarrow> valid_digest rd \<Longrightarrow> L oid = None \<Longrightarrow>
    ledger_step L (CReserve oid rd n) (RReserve (Ok New)) (L(oid \<mapsto> Pending rd))"
| refuse: "L oid = None \<Longrightarrow> ledger_step L (CReserve oid rd n) (RReserve (Err Capacity)) L"
| duplicate: "L oid = Some e \<Longrightarrow> entry_request e = rd \<Longrightarrow>
    ledger_step L (CReserve oid rd n) (RReserve (Ok Existing)) L"
| conflict: "L oid = Some e \<Longrightarrow> entry_request e \<noteq> rd \<Longrightarrow>
    ledger_step L (CReserve oid rd n) (RReserve (Err IdempotencyConflict)) L"
| malformed: "\<not> valid_identifier oid \<or> \<not> valid_digest rd \<Longrightarrow>
    ledger_step L (CReserve oid rd n) (RReserve (Err (InvalidIdentity f))) L"
| run: "L oid = Some (Pending rd) \<Longrightarrow> ledger_step L (CMarkRunning oid) (RUnit (Ok ())) L"
| run_unknown: "L oid = None \<Longrightarrow> ledger_step L (CMarkRunning oid) (RUnit (Err Unknown)) L"
| run_settled: "L oid = Some (Settled rd td p) \<Longrightarrow>
    ledger_step L (CMarkRunning oid) (RUnit (Err AlreadyTerminal)) L"
| settle: "L oid = Some (Pending rd) \<Longrightarrow> valid_digest td \<Longrightarrow>
    ledger_step L (CComplete oid td p) (RUnit (Ok ())) (L(oid \<mapsto> Settled rd td p))"
| settle_again: "L oid = Some (Settled rd td p) \<Longrightarrow> ledger_step L (CComplete oid td p) (RUnit (Ok ())) L"
| settle_conflict: "L oid = Some (Settled rd td' p') \<Longrightarrow> (td', p') \<noteq> (td, p) \<Longrightarrow>
    ledger_step L (CComplete oid td p) (RUnit (Err TerminalConflict)) L"
| settle_refuse: "L oid = Some (Pending rd) \<Longrightarrow>
    ledger_step L (CComplete oid td p) (RUnit (Err TerminalCapacity)) L"
| settle_unknown: "L oid = None \<Longrightarrow> ledger_step L (CComplete oid td p) (RUnit (Err Unknown)) L"
| settle_malformed: "\<not> valid_digest td \<Longrightarrow>
    ledger_step L (CComplete oid td p) (RUnit (Err (InvalidIdentity f))) L"
| cancel: "L oid = Some (Pending rd) \<Longrightarrow> ledger_step L (CCancel oid) (RCancel (Ok b)) L"
| cancel_settled: "L oid = Some (Settled rd td p) \<Longrightarrow> ledger_step L (CCancel oid) (RCancel (Ok False)) L"
| cancel_unknown: "L oid = None \<Longrightarrow> ledger_step L (CCancel oid) (RCancel (Err Unknown)) L"
| release: "L oid = Some (Settled rd td p) \<Longrightarrow>
    ledger_step L (CAck oid td) (RUnit (Ok ())) (L(oid := None))"
| ack_mismatch: "L oid = Some (Settled rd td' p) \<Longrightarrow> td' \<noteq> td \<Longrightarrow>
    ledger_step L (CAck oid td) (RUnit (Err TerminalDigestMismatch)) L"
| ack_pending: "L oid = Some (Pending rd) \<Longrightarrow>
    ledger_step L (CAck oid td) (RUnit (Err NotTerminal)) L"
| ack_unknown: "L oid = None \<Longrightarrow> ledger_step L (CAck oid td) (RUnit (Err Unknown)) L"
| ack_malformed: "\<not> valid_identifier oid \<or> \<not> valid_digest td \<Longrightarrow>
    ledger_step L (CAck oid td) (RUnit (Err (InvalidIdentity f))) L"

text \<open>A history of the ledger: the calls with their replies, oldest first, each one a ledger step.\<close>

inductive ledger_history :: "ledger \<Rightarrow> (op_call \<times> op_reply) list \<Rightarrow> ledger \<Rightarrow> bool" where
  history_nil: "ledger_history L [] L"
| history_snoc: "ledger_history L tr L' \<Longrightarrow> ledger_step L' c rep L'' \<Longrightarrow>
    ledger_history L (tr @ [(c, rep)]) L''"

inductive_cases ledger_step_reserveE: "ledger_step L (CReserve oid rd n) rep L'"
inductive_cases ledger_step_runE: "ledger_step L (CMarkRunning oid) rep L'"
inductive_cases ledger_step_completeE: "ledger_step L (CComplete oid td p) rep L'"
inductive_cases ledger_step_cancelE: "ledger_step L (CCancel oid) rep L'"
inductive_cases ledger_step_ackE: "ledger_step L (CAck oid td) rep L'"

lemmas ledger_cases = ledger_step_reserveE ledger_step_runE ledger_step_completeE
  ledger_step_cancelE ledger_step_ackE

lemma abs_ledger_apply: "abs_ledger r k = map_option abs_record (records r k)"
  by (simp add: abs_ledger_def)

lemma abs_ledger_upd:
  "records r' = (records r)(k := x) \<Longrightarrow> abs_ledger r' = (abs_ledger r)(k := map_option abs_record x)"
  by (auto simp: abs_ledger_apply fun_eq_iff)

lemma abs_ledger_keep:
  "records r' = (records r)(k \<mapsto> rec') \<Longrightarrow> records r k = Some rec \<Longrightarrow> abs_record rec' = abs_record rec
    \<Longrightarrow> abs_ledger r' = abs_ledger r"
  by (auto simp: abs_ledger_apply fun_eq_iff)

lemma abs_record_Pending:
  "\<not> is_terminal (or_state rec) \<Longrightarrow> abs_record rec = Pending (or_request_digest rec)"
  by (auto simp: abs_record_def is_terminal_def split: operation_state.splits)

lemma abs_record_Settled:
  "abs_record rec = Settled rd td p \<longleftrightarrow> or_request_digest rec = rd \<and> or_state rec = Terminal td p"
  by (cases "or_state rec") (auto simp: abs_record_def)

lemma entry_request_abs [simp]: "entry_request (abs_record rec) = or_request_digest rec"
  by (simp add: abs_record_def split: operation_state.split)

subsection \<open>Simulation, one lemma per operation\<close>

lemma reserve_refines:
  assumes "reserve r oid rd n = (x, r')"
  shows "ledger_step (abs_ledger r) (CReserve oid rd n) (RReserve x) (abs_ledger r')"
proof (cases "x = Ok New")
  case True
  with assms have new: "reserve r oid rd n = (Ok New, r')" by simp
  then have "abs_ledger r' = (abs_ledger r)(oid \<mapsto> Pending rd)"
    by (subst abs_ledger_upd [of r' r oid]) (auto simp: reserve_New_iff abs_record_def)
  moreover from new have "valid_identifier oid" "valid_digest rd" "abs_ledger r oid = None"
    by (auto simp: reserve_New_iff abs_ledger_apply)
  ultimately show ?thesis using True by (simp add: ledger_step.admit)
next
  case False
  with assms have "r' = r" using reserve_not_New [of r oid rd n] by simp
  with assms False show ?thesis
    by (auto simp: reserve_def op_validate_Err result_iffs abs_ledger_apply
        split: sum.splits option.splits if_splits
        intro: ledger_step.refuse ledger_step.malformed
        intro!: ledger_step.duplicate ledger_step.conflict)
qed

lemma mark_running_refines:
  assumes "mark_running r oid = (x, r')"
  shows "ledger_step (abs_ledger r) (CMarkRunning oid) (RUnit x) (abs_ledger r')"
proof (cases "records r oid")
  case None
  with assms show ?thesis
    by (auto simp: mark_running_def abs_ledger_apply intro: ledger_step.run_unknown)
next
  case (Some rec)
  show ?thesis
  proof (cases "or_state rec")
    case Accepted
    with Some assms have "abs_ledger r' = abs_ledger r" and "x = Ok ()"
      by (auto simp: mark_running_def abs_record_def intro: abs_ledger_keep [of _ _ oid _ rec])
    moreover have "abs_ledger r oid = Some (Pending (or_request_digest rec))"
      using Some Accepted by (simp add: abs_ledger_apply abs_record_def)
    ultimately show ?thesis by (auto intro: ledger_step.run)
  qed (use Some assms in \<open>auto simp: mark_running_def abs_ledger_apply abs_record_def
      intro!: ledger_step.run ledger_step.run_settled\<close>)
qed

lemma request_cancel_refines:
  assumes "request_cancel r oid = (x, r')"
  shows "ledger_step (abs_ledger r) (CCancel oid) (RCancel x) (abs_ledger r')"
proof (cases "records r oid")
  case None
  with assms show ?thesis
    by (auto simp: request_cancel_def abs_ledger_apply intro: ledger_step.cancel_unknown)
next
  case (Some rec)
  show ?thesis
  proof (cases "is_terminal (or_state rec)")
    case True
    then obtain td p where "or_state rec = Terminal td p" by (cases "or_state rec") auto
    with Some assms show ?thesis
      by (auto simp: request_cancel_def abs_ledger_apply abs_record_def
          intro!: ledger_step.cancel_settled)
  next
    case False
    with Some assms have "abs_ledger r' = abs_ledger r" and "x = Ok (\<not> or_cancel_requested rec)"
      by (auto simp: request_cancel_def intro!: abs_ledger_keep [of _ _ oid _ rec])
        (simp add: abs_record_def split: operation_state.split)
    moreover have "abs_ledger r oid = Some (Pending (or_request_digest rec))"
      using Some False by (simp add: abs_ledger_apply abs_record_Pending)
    ultimately show ?thesis by (auto intro: ledger_step.cancel)
  qed
qed

lemma complete_refines:
  assumes "complete r oid td p = (x, r')" and inv: "op_inv r"
  shows "ledger_step (abs_ledger r) (CComplete oid td p) (RUnit x) (abs_ledger r')"
proof (cases "\<exists>rec. records r oid = Some rec \<and> \<not> is_terminal (or_state rec) \<and> valid_digest td
     \<and> length p \<le> or_reservation_bytes rec")
  case True
  then obtain rec where rec: "records r oid = Some rec" and nt: "\<not> is_terminal (or_state rec)"
    and td: "valid_digest td" and len: "length p \<le> or_reservation_bytes rec" by blast
  note ch = complete_changes [OF rec nt td len op_inv_terminal_room(3) [OF inv rec nt len]]
  have "abs_ledger r' = (abs_ledger r)(oid \<mapsto> Settled (or_request_digest rec) td p)"
    using ch assms(1) by (subst abs_ledger_upd [of r' r oid]) (auto simp: abs_record_def)
  moreover have "abs_ledger r oid = Some (Pending (or_request_digest rec))"
    using rec nt by (simp add: abs_ledger_apply abs_record_Pending)
  ultimately show ?thesis using ch assms(1) td by (auto intro: ledger_step.settle)
next
  case False
  then have "r' = r" using complete_unchanged [of r oid td p] assms(1) by simp
  with assms(1) False show ?thesis
    by (auto simp: complete_def op_validate_Err abs_ledger_apply abs_record_def Let_def
        split: sum.splits option.splits operation_state.splits if_splits
        intro: ledger_step.settle_malformed ledger_step.settle_unknown ledger_step.settle_refuse
          ledger_step.settle_again ledger_step.settle_conflict)
qed

lemma acknowledge_refines:
  assumes "acknowledge_terminal r oid td = (x, r')"
  shows "ledger_step (abs_ledger r) (CAck oid td) (RUnit x) (abs_ledger r')"
proof (cases x)
  case (Inr u)
  then obtain rec p where rec: "records r oid = Some rec" and st: "or_state rec = Terminal td p"
    and r': "r' = r\<lparr>records := (records r)(oid := None), terminal_bytes := terminal_bytes r - length p\<rparr>"
    using assms by (auto simp: acknowledge_Ok_iff)
  then have "abs_ledger r' = (abs_ledger r)(oid := None)"
    by (subst abs_ledger_upd [of r' r oid]) auto
  moreover have "abs_ledger r oid = Some (Settled (or_request_digest rec) td p)"
    using rec st by (simp add: abs_ledger_apply abs_record_def)
  ultimately show ?thesis using Inr by (auto intro: ledger_step.release)
next
  case (Inl e)
  with assms have "r' = r" using acknowledge_Err by blast
  with Inl assms show ?thesis
    by (auto simp: acknowledge_eq abs_ledger_apply abs_record_def
        split: option.splits operation_state.splits if_splits
        intro: ledger_step.ack_malformed ledger_step.ack_unknown ledger_step.ack_mismatch
          ledger_step.ack_pending)
qed

lemmas op_refines = reserve_refines mark_running_refines complete_refines request_cancel_refines
  acknowledge_refines

lemma op_exec_refines:
  assumes "op_inv r" and "op_exec r c = (rep, r')"
  shows "ledger_step (abs_ledger r) c rep (abs_ledger r')"
  using assms by (cases c) (auto split: prod.splits intro: op_refines)

subsection \<open>The contract as an interface\<close>

text \<open>
  What a client may rely on, for any component that implements the ledger. An admission is a
  reservation answered \<open>New\<close>, the licence to start an effect; a release is a successful
  acknowledgement.
\<close>

fun is_admission :: "string \<Rightarrow> op_call \<times> op_reply \<Rightarrow> bool" where
  "is_admission oid (CReserve i rd n, RReserve (Inr New)) = (i = oid)"
| "is_admission oid _ = False"

fun is_release :: "string \<Rightarrow> op_call \<times> op_reply \<Rightarrow> bool" where
  "is_release oid (CAck i td, RUnit (Inr u)) = (i = oid)"
| "is_release oid _ = False"

definition admissions :: "string \<Rightarrow> (op_call \<times> op_reply) list \<Rightarrow> nat" where
  "admissions oid tr = length (filter (is_admission oid) tr)"

definition releases :: "string \<Rightarrow> (op_call \<times> op_reply) list \<Rightarrow> nat" where
  "releases oid tr = length (filter (is_release oid) tr)"

lemma history_simps [simp]:
  "admissions oid [] = 0" "releases oid [] = 0"
  "admissions oid (tr @ [x]) = admissions oid tr + (if is_admission oid x then 1 else 0)"
  "releases oid (tr @ [x]) = releases oid tr + (if is_release oid x then 1 else 0)"
  by (simp_all add: admissions_def releases_def)

text \<open>One ledger step moves at most the entry of the call's own id, and only in these ways.\<close>

lemma ledger_step_balance:
  assumes "ledger_step L c rep L'"
  shows "(if is_admission oid (c, rep) then 1 else 0) + (if L oid = None then 0 else 1) =
    (if is_release oid (c, rep) then 1 else 0) + (if L' oid = None then (0::nat) else 1)"
  using assms by cases auto

lemma ledger_step_settled:
  assumes "ledger_step L c rep L'" and "L oid = Some (Settled rd td p)"
    and "\<not> is_release oid (c, rep)"
  shows "L' oid = Some (Settled rd td p)"
  using assms by cases auto

lemma ledger_step_request:
  assumes "ledger_step L c rep L'" and "L oid = Some e" and "\<not> is_release oid (c, rep)"
  shows "\<exists>e'. L' oid = Some e' \<and> entry_request e' = entry_request e"
  using assms by cases auto

lemma ledger_step_release:
  assumes "ledger_step L c rep L'" and "is_release oid (c, rep)"
  shows "\<exists>rd td p. c = CAck oid td \<and> L oid = Some (Settled rd td p)"
  using assms by cases auto

locale ledger_port =
  fixes exec :: "'s \<Rightarrow> op_call \<Rightarrow> op_reply \<times> 's"
    and view :: "'s \<Rightarrow> ledger"
    and inv :: "'s \<Rightarrow> bool"
  assumes exec_inv: "inv s \<Longrightarrow> exec s c = (rep, s') \<Longrightarrow> inv s'"
    and exec_refines: "inv s \<Longrightarrow> exec s c = (rep, s') \<Longrightarrow> ledger_step (view s) c rep (view s')"
begin

lemma trace_inv: "trace exec s tr s' \<Longrightarrow> inv s \<Longrightarrow> inv s'"
  by (erule trace_invariant) (auto intro: exec_inv)

lemma trace_refines:
  assumes "trace exec s tr s'" and "inv s"
  shows "ledger_history (view s) tr (view s')"
  using assms
proof (induction rule: trace.induct)
  case (trace_snoc s tr s' c rep s'')
  then have "ledger_step (view s') c rep (view s'')"
    by (blast intro: exec_refines trace_inv)
  with trace_snoc show ?case by (blast intro: history_snoc)
qed (rule history_nil)

lemma admissions_balance:
  assumes "trace exec s tr s'" and "inv s"
  shows "admissions oid tr + (if view s oid = None then 0 else 1) =
    releases oid tr + (if view s' oid = None then 0 else 1)"
  using assms
proof (induction rule: trace.induct)
  case (trace_snoc s tr s' c rep s'')
  then have "ledger_step (view s') c rep (view s'')"
    by (blast intro: exec_refines trace_inv)
  from ledger_step_balance [OF this, of oid] trace_snoc show ?case by simp
qed simp

lemma settled_retained:
  assumes "trace exec s tr s'" and "inv s" and "view s oid = Some (Settled rd td p)"
    and "releases oid tr = 0"
  shows "view s' oid = Some (Settled rd td p)"
  using assms
proof (induction rule: trace.induct)
  case (trace_snoc s tr s' c rep s'')
  then have "view s' oid = Some (Settled rd td p)" and nr: "\<not> is_release oid (c, rep)"
    by (auto split: if_splits)
  moreover have "ledger_step (view s') c rep (view s'')"
    using trace_snoc by (blast intro: exec_refines trace_inv)
  ultimately show ?case using ledger_step_settled by blast
qed simp

lemma request_fixed:
  assumes "trace exec s tr s'" and "inv s" and "view s oid = Some e" and "releases oid tr = 0"
  shows "\<exists>e'. view s' oid = Some e' \<and> entry_request e' = entry_request e"
  using assms
proof (induction rule: trace.induct)
  case (trace_snoc s tr s' c rep s'')
  then obtain e' where "view s' oid = Some e'" "entry_request e' = entry_request e"
    and nr: "\<not> is_release oid (c, rep)"
    by (auto split: if_splits)
  moreover have "ledger_step (view s') c rep (view s'')"
    using trace_snoc by (blast intro: exec_refines trace_inv)
  ultimately show ?case using ledger_step_request by metis
qed simp

end

interpretation reg: ledger_port op_exec abs_ledger op_inv
  by unfold_locales (auto intro: op_exec_inv op_exec_refines)

subsection \<open>Properties of the registry\<close>

lemma sample_identifier [simp]: "valid_identifier ''op-1''"
  by (simp add: valid_identifier_def identifier_char_def ascii_defs)

text \<open>
  C19. Whatever calls a registry has answered, it is within its limits and its two byte accounts
  are exact: at most \<open>max_records\<close> records, \<open>terminal_bytes\<close> is the total length of the retained
  terminal payloads, \<open>pending_reserved_bytes\<close> is the total of the outstanding reservations, and
  together they never exceed \<open>max_terminal_bytes\<close>.
\<close>

theorem registry_within_limits:
  assumes "b \<le> USIZE_MAX" and "trace op_exec (registry_new n b) tr r"
  shows "card (dom (records r)) \<le> n \<and> terminal_bytes r = account terminal_weight (records r)
    \<and> pending_reserved_bytes r = account pending_weight (records r)
    \<and> terminal_bytes r + pending_reserved_bytes r \<le> b"
proof -
  have "op_inv r" using reg.trace_inv [OF assms(2) op_inv_new [OF assms(1)]] .
  moreover have "max_records r = n \<and> max_terminal_bytes r = b"
    using assms(2)
    by (rule trace_invariant) (auto simp: registry_new_def dest: op_exec_limits)
  ultimately show ?thesis by (auto simp: op_inv_def)
qed

theorem registry_within_limits_witness:
  "\<exists>tr r. trace op_exec (registry_new 4 1024) tr r \<and> terminal_bytes r = 2
    \<and> terminal_bytes r + pending_reserved_bytes r \<le> 1024"
proof -
  obtain tr r where run: "run_calls op_exec (registry_new 4 1024)
      [CReserve ''op-1'' digest_a 512, CMarkRunning ''op-1'', CComplete ''op-1'' digest_c ''ok''] = (tr, r)"
    by (cases "run_calls op_exec (registry_new 4 1024)
      [CReserve ''op-1'' digest_a 512, CMarkRunning ''op-1'', CComplete ''op-1'' digest_c ''ok'']")
  then have "terminal_bytes r = 2"
    by (auto simp: registry_defs validate_eqs U64_MAX_def checked_add_def)
  moreover have t: "trace op_exec (registry_new 4 1024) tr r" using run by (rule run_calls_trace)
  moreover have "terminal_bytes r + pending_reserved_bytes r \<le> 1024"
    using registry_within_limits [OF _ t] by (simp add: U64_MAX_def)
  ultimately show ?thesis by blast
qed

text \<open>
  C8. Effects are admitted at most once per operation id and acknowledgement: in any history of a
  fresh registry the number of reservations of an id answered \<open>New\<close> equals the number of its
  successful acknowledgements, plus one exactly when a record of it is still retained.
\<close>

theorem admitted_once_until_acknowledged:
  assumes "b \<le> USIZE_MAX" and "trace op_exec (registry_new n b) tr r"
  shows "admissions oid tr = releases oid tr + (if observe r oid = None then 0 else 1)"
  using reg.admissions_balance [OF assms(2) op_inv_new [OF assms(1)], of oid]
  by (simp add: abs_ledger_apply registry_new_def observe_def)

theorem admitted_once_until_acknowledged_witness:
  "\<exists>tr r. trace op_exec (registry_new 4 1024) tr r \<and> admissions ''op-1'' tr = 1"
proof -
  obtain tr r where run: "run_calls op_exec (registry_new 4 1024)
      [CReserve ''op-1'' digest_a 512, CReserve ''op-1'' digest_a 512] = (tr, r)"
    by (cases "run_calls op_exec (registry_new 4 1024)
      [CReserve ''op-1'' digest_a 512, CReserve ''op-1'' digest_a 512]")
  then have t: "trace op_exec (registry_new 4 1024) tr r" by (rule run_calls_trace)
  from run have "releases ''op-1'' tr = 0" and "observe r ''op-1'' \<noteq> None"
    by (auto simp: registry_defs validate_eqs U64_MAX_def checked_add_def releases_def)
  then have "admissions ''op-1'' tr = 1"
    using admitted_once_until_acknowledged [OF _ t, of "''op-1''"] by (auto simp: U64_MAX_def)
  with t show ?thesis by blast
qed

text \<open>
  A terminal result survives every call except its own exact acknowledgement: while no
  acknowledgement of the id succeeds, \<open>observe\<close> returns a record with the same request digest,
  terminal digest and payload bytes.
\<close>

theorem terminal_retained_until_acknowledged:
  assumes "op_inv r" and "trace op_exec r tr r'"
    and "observe r oid = Some rec" and "or_state rec = Terminal td p" and "releases oid tr = 0"
  shows "\<exists>rec'. observe r' oid = Some rec' \<and> or_state rec' = Terminal td p
    \<and> or_request_digest rec' = or_request_digest rec"
proof -
  have "abs_ledger r oid = Some (Settled (or_request_digest rec) td p)"
    using assms(3,4) by (simp add: observe_def abs_ledger_apply abs_record_def)
  from reg.settled_retained [OF assms(2,1) this assms(5)]
  show ?thesis
    by (auto simp: observe_def abs_ledger_apply abs_record_Settled)
qed

theorem terminal_retained_until_acknowledged_witness:
  "\<exists>r rec tr r' rec'. observe r ''op-1'' = Some rec \<and> trace op_exec r tr r' \<and> length tr = 2
     \<and> observe r' ''op-1'' = Some rec' \<and> or_state rec' = Terminal digest_c ''ok''"
proof -
  obtain tr0 r where run0: "run_calls op_exec (registry_new 4 1024)
      [CReserve ''op-1'' digest_a 512, CComplete ''op-1'' digest_c ''ok''] = (tr0, r)"
    by (cases "run_calls op_exec (registry_new 4 1024)
      [CReserve ''op-1'' digest_a 512, CComplete ''op-1'' digest_c ''ok'']")
  have inv: "op_inv r"
    using reg.trace_inv [OF run_calls_trace [OF run0]] op_inv_new [of 1024 4]
    by (simp add: U64_MAX_def)
  from run0 obtain rec where rec: "observe r ''op-1'' = Some rec"
    and st: "or_state rec = Terminal digest_c ''ok''"
    by (auto simp: registry_defs validate_eqs U64_MAX_def checked_add_def)
  obtain tr r' where run: "run_calls op_exec r
      [CAck ''op-1'' digest_b, CComplete ''op-1'' digest_b ''other''] = (tr, r')"
    by (cases "run_calls op_exec r
      [CAck ''op-1'' digest_b, CComplete ''op-1'' digest_b ''other'']")
  then have rel: "releases ''op-1'' tr = 0" and len: "length tr = 2"
    using rec st by (auto simp: registry_defs validate_eqs releases_def)
  have t: "trace op_exec r tr r'" using run by (rule run_calls_trace)
  from terminal_retained_until_acknowledged [OF inv t rec st rel] rec t len show ?thesis by blast
qed

text \<open>
  The reservation taken at admission is enough: for every admitted operation that is not yet
  terminal, reporting a terminal payload within the reserved bytes succeeds and is then observed.
  The error \<open>TerminalCapacity\<close> cannot occur for a payload that fits its reservation.
\<close>

theorem reserved_completion_succeeds:
  assumes "op_inv r" and "observe r oid = Some rec" and "\<not> is_terminal (or_state rec)"
    and "valid_digest td" and "length p \<le> or_reservation_bytes rec"
  shows "\<exists>r' rec'. complete r oid td p = (Ok (), r') \<and> observe r' oid = Some rec'
    \<and> or_state rec' = Terminal td p \<and> op_inv r'"
proof -
  have rec: "records r oid = Some rec" using assms(2) by (simp add: observe_def)
  note ch = complete_changes [OF rec assms(3,4,5) op_inv_terminal_room(3) [OF assms(1) rec assms(3,5)]]
  show ?thesis using ch complete_inv [OF assms(1) ch] by (auto simp: observe_def)
qed

theorem reserved_completion_succeeds_witness:
  "\<exists>r r' rec'. complete r ''op-1'' digest_c ''1234'' = (Ok (), r') \<and> observe r' ''op-1'' = Some rec'
     \<and> or_state rec' = Terminal digest_c ''1234''"
proof -
  obtain res r where r: "reserve (registry_new 1 4) ''op-1'' digest_a 4 = (res, r)"
    by (cases "reserve (registry_new 1 4) ''op-1'' digest_a 4")
  then have inv: "op_inv r" using reserve_inv op_inv_new [of 4 1] by (auto simp: U64_MAX_def)
  from r obtain rec where "observe r ''op-1'' = Some rec" "\<not> is_terminal (or_state rec)"
    "or_reservation_bytes rec = 4"
    by (auto simp: registry_defs validate_eqs U64_MAX_def checked_add_def)
  with reserved_completion_succeeds [OF inv, of "''op-1''" rec digest_c "''1234''"]
  show ?thesis by fastforce
qed

text \<open>
  C12. The registry implements the ledger: whatever calls a fresh registry has answered, in
  whatever order, the calls with their replies are a history of the abstract ledger from the empty
  ledger, and that history ends in the ledger the registry's records stand for.
\<close>

theorem registry_implements_ledger:
  assumes "b \<le> USIZE_MAX" and "trace op_exec (registry_new n b) tr r"
  shows "ledger_history Map.empty tr (abs_ledger r)"
proof -
  have "abs_ledger (registry_new n b) = Map.empty"
    by (simp add: abs_ledger_apply registry_new_def fun_eq_iff)
  with reg.trace_refines [OF assms(2) op_inv_new [OF assms(1)]] show ?thesis by simp
qed

theorem registry_implements_ledger_witness:
  "\<exists>tr r. map fst tr = [CReserve ''op-1'' digest_a 512, CMarkRunning ''op-1'', CComplete ''op-1'' digest_c ''ok'']
     \<and> map snd tr = [RReserve (Ok New), RUnit (Ok ()), RUnit (Ok ())]
     \<and> abs_ledger r ''op-1'' = Some (Settled digest_a digest_c ''ok'')
     \<and> ledger_history Map.empty tr (abs_ledger r)"
proof -
  obtain tr r where run: "run_calls op_exec (registry_new 4 1024)
      [CReserve ''op-1'' digest_a 512, CMarkRunning ''op-1'', CComplete ''op-1'' digest_c ''ok''] = (tr, r)"
    by (cases "run_calls op_exec (registry_new 4 1024)
      [CReserve ''op-1'' digest_a 512, CMarkRunning ''op-1'', CComplete ''op-1'' digest_c ''ok'']")
  then have "map fst tr = [CReserve ''op-1'' digest_a 512, CMarkRunning ''op-1'', CComplete ''op-1'' digest_c ''ok'']
      \<and> map snd tr = [RReserve (Ok New), RUnit (Ok ()), RUnit (Ok ())]
      \<and> abs_ledger r ''op-1'' = Some (Settled digest_a digest_c ''ok'')"
    by (auto simp: registry_defs validate_eqs U64_MAX_def checked_add_def abs_ledger_apply abs_record_def)
  moreover have "ledger_history Map.empty tr (abs_ledger r)"
    using registry_implements_ledger [OF _ run_calls_trace [OF run]] by (simp add: U64_MAX_def)
  ultimately show ?thesis by (intro exI [of _ tr] exI [of _ r]) simp
qed

end
