(* ===== verification/Paging.thy ===== *)
theory Paging
  imports Rust_Strings
begin

section \<open>Cursor pagination and resource ceilings (\<open>page.rs\<close>, \<open>resources.rs\<close>)\<close>

text \<open>
  A listing fetches \<open>limit + 1\<close> items, keeps \<open>limit\<close> and answers with the identity of the last
  kept item as the cursor of the next page. \<open>cursor_source\<close> is the contract of every ordered
  listing of the system; its lemma says that a client following cursors sees the whole listing,
  each item once and in order, and stops.
\<close>

subsection \<open>Pages\<close>

definition MAX_PAGE :: nat where
  "MAX_PAGE = 100"

record 'a page_result =
  page_items :: "'a list"
  next_cursor :: "string option"

text \<open>
  \<open>None\<close> is the panic of \<open>items[limit - 1]\<close> for a limit of zero; every caller clamps the limit
  to at least one.
\<close>

definition page :: "('a \<Rightarrow> string) \<Rightarrow> 'a list \<Rightarrow> nat \<Rightarrow> 'a page_result option" where
  "page ident items limit =
     (if length items > limit
      then (if limit = 0 then None
            else Some \<lparr>page_items = take limit items, next_cursor = Some (ident (items ! (limit - 1)))\<rparr>)
      else Some \<lparr>page_items = take limit items, next_cursor = None\<rparr>)"

text \<open>The items after a cursor, as every ordered listing of the system selects them.\<close>

definition after_cursor :: "('a \<Rightarrow> string) \<Rightarrow> string option \<Rightarrow> 'a list \<Rightarrow> 'a list" where
  "after_cursor ident cursor xs =
     filter (\<lambda>x. case cursor of None \<Rightarrow> True | Some c \<Rightarrow> c < ident x) xs"

definition fetch_page ::
    "('a \<Rightarrow> string) \<Rightarrow> 'a list \<Rightarrow> string option \<Rightarrow> nat \<Rightarrow> 'a page_result option" where
  "fetch_page ident xs cursor limit =
     page ident (take (limit + 1) (after_cursor ident cursor xs)) limit"

text \<open>A client that follows cursors from \<open>c\<close> until a page has none.\<close>

inductive walks_to :: "(string option \<Rightarrow> 'a page_result option) \<Rightarrow> string option \<Rightarrow> 'a list \<Rightarrow> bool"
  for next_page where
  walk_last: "next_page c = Some pg \<Longrightarrow> next_cursor pg = None \<Longrightarrow> walks_to next_page c (page_items pg)"
| walk_more: "next_page c = Some pg \<Longrightarrow> next_cursor pg = Some d \<Longrightarrow> walks_to next_page (Some d) ys \<Longrightarrow>
    walks_to next_page c (page_items pg @ ys)"

lemma walks_to_unique: "walks_to next_page c xs \<Longrightarrow> walks_to next_page c ys \<Longrightarrow> xs = ys"
proof (induction arbitrary: ys rule: walks_to.induct)
  case (walk_last c pg)
  from walk_last.prems show ?case by cases (use walk_last.hyps in auto)
next
  case (walk_more c pg d zs)
  note IH = walk_more.IH
  from walk_more.prems show ?case
  proof cases
    case (walk_last pg')
    with walk_more.hyps show ?thesis by simp
  next
    case (walk_more pg' d' ws)
    with \<open>next_page c = Some pg\<close> \<open>next_cursor pg = Some d\<close> have "walks_to next_page (Some d) ws"
      by simp
    from IH [OF this] walk_more \<open>next_page c = Some pg\<close> show ?thesis by simp
  qed
qed

text \<open>A walk depends only on the pages it visits.\<close>

lemma walks_to_cong:
  assumes "walks_to f c xs" and "P c" and "\<And>c. P c \<Longrightarrow> f c = g c"
    and "\<And>c pg d. P c \<Longrightarrow> f c = Some pg \<Longrightarrow> next_cursor pg = Some d \<Longrightarrow> P (Some d)"
  shows "walks_to g c xs"
  using assms
proof (induction rule: walks_to.induct)
  case (walk_last c pg)
  then show ?case by (intro walks_to.walk_last) auto
next
  case (walk_more c pg d ys)
  have "walks_to g (Some d) ys" using walk_more by blast
  with walk_more show ?case by (intro walks_to.walk_more) auto
qed

lemma page_last: "length items \<le> limit \<Longrightarrow> page ident items limit = Some \<lparr>page_items = items, next_cursor = None\<rparr>"
  by (simp add: page_def)

lemma page_over:
  "limit < length items \<Longrightarrow> 0 < limit \<Longrightarrow>
    page ident items limit = Some \<lparr>page_items = take limit items,
      next_cursor = Some (ident (items ! (limit - 1)))\<rparr>"
  by (simp add: page_def)

locale cursor_source =
  fixes ident :: "'a \<Rightarrow> string" and content :: "'a list"
  assumes ordered: "sorted_wrt (\<lambda>x y. ident x < ident y) content"
begin

lemma ordered_after: "sorted_wrt (\<lambda>x y. ident x < ident y) (after_cursor ident c content)"
  unfolding after_cursor_def using ordered by (rule sorted_wrt_filter)

text \<open>After the cursor of a full page come exactly the items the page left out.\<close>

lemma after_last_kept:
  assumes "0 < limit" and "limit \<le> length (after_cursor ident c content)"
  shows "after_cursor ident (Some (ident (after_cursor ident c content ! (limit - 1)))) content =
    drop limit (after_cursor ident c content)"
proof -
  define ys where "ys = after_cursor ident c content"
  define k where "k = ys ! (limit - 1)"
  have so: "sorted_wrt (\<lambda>x y. ident x < ident y) ys" unfolding ys_def by (rule ordered_after)
  have klt: "limit - 1 < length ys" using assms by (simp add: ys_def)
  have kc: "case c of None \<Rightarrow> True | Some d \<Rightarrow> d < ident k"
    using nth_mem [OF klt, folded k_def] unfolding ys_def after_cursor_def by simp
  have "after_cursor ident (Some (ident k)) content = filter (\<lambda>x. ident k < ident x) ys"
    unfolding ys_def after_cursor_def using kc
    by (auto simp: filter_filter intro!: filter_cong split: option.splits)
  also have "\<dots> = filter (\<lambda>x. ident k < ident x) (take limit ys @ drop limit ys)" by simp
  also have "\<dots> = drop limit ys"
  proof -
    have "\<not> ident k < ident x" if "x \<in> set (take limit ys)" for x
    proof -
      from that obtain i where i: "i < limit" "i < length ys" "x = ys ! i"
        by (auto simp: in_set_conv_nth)
      show ?thesis
      proof (cases "i = limit - 1")
        case False
        with i klt have "ident (ys ! i) < ident (ys ! (limit - 1))"
          by (intro sorted_wrt_nth_less [OF so]) auto
        then show ?thesis by (simp add: i k_def)
      qed (simp add: i k_def)
    qed
    moreover have "ident k < ident x" if "x \<in> set (drop limit ys)" for x
    proof -
      from that obtain i where "i < length (drop limit ys)" "x = drop limit ys ! i"
        by (auto simp: in_set_conv_nth)
      then have i: "limit + i < length ys" "x = ys ! (limit + i)" by (simp_all add: less_diff_conv)
      with assms(1) have "ident (ys ! (limit - 1)) < ident (ys ! (limit + i))"
        by (intro sorted_wrt_nth_less [OF so]) auto
      then show ?thesis by (simp add: i k_def)
    qed
    ultimately show ?thesis
      by (simp add: filter_append filter_empty_conv del: append_take_drop_id)
  qed
  finally show ?thesis by (simp add: k_def ys_def)
qed

lemma walk_complete:
  assumes "0 < limit"
  shows "walks_to (\<lambda>c. fetch_page ident content c limit) c (after_cursor ident c content)"
proof (induction "length (after_cursor ident c content)" arbitrary: c rule: less_induct)
  case less
  define ys where "ys = after_cursor ident c content"
  show ?case
  proof (cases "length ys \<le> limit")
    case True
    then have "fetch_page ident content c limit = Some \<lparr>page_items = ys, next_cursor = None\<rparr>"
      by (simp add: fetch_page_def ys_def [symmetric] page_last)
    from walk_last [where next_page = "\<lambda>c. fetch_page ident content c limit", OF this]
    show ?thesis by (simp add: ys_def)
  next
    case False
    define d where "d = ident (ys ! (limit - 1))"
    have pg: "fetch_page ident content c limit = Some \<lparr>page_items = take limit ys, next_cursor = Some d\<rparr>"
      using False assms
      by (simp add: fetch_page_def ys_def [symmetric] page_over d_def min_def nth_append take_Suc_conv_app_nth)
    have rest: "after_cursor ident (Some d) content = drop limit ys"
      unfolding d_def ys_def using False assms by (intro after_last_kept) (simp_all add: ys_def)
    have "walks_to (\<lambda>c. fetch_page ident content c limit) (Some d) (drop limit ys)"
      unfolding rest [symmetric]
      using False assms by (intro less) (simp add: rest ys_def [symmetric])
    from walk_more [where next_page = "\<lambda>c. fetch_page ident content c limit", OF pg _ this]
    show ?thesis by (simp add: ys_def)
  qed
qed

end

subsection \<open>Resource ceilings\<close>

record resource_request =
  rq_timeout_ms :: nat
  rq_max_output_bytes :: nat

record resource_support =
  rs_max_timeout_ms :: nat
  rs_max_output_bytes :: nat

datatype resource_error = TimeoutUnsupported | OutputUnsupported

definition resource_validate :: "resource_support \<Rightarrow> resource_request \<Rightarrow> (resource_error, unit) result"
where
  "resource_validate s q =
     (if rq_timeout_ms q = 0 \<or> rq_timeout_ms q > rs_max_timeout_ms s then Err TimeoutUnsupported
      else if rq_max_output_bytes q = 0 \<or> rq_max_output_bytes q > rs_max_output_bytes s
      then Err OutputUnsupported
      else Ok ())"

lemma resource_validate_Ok_iff:
  "resource_validate s q = Ok u \<longleftrightarrow>
     rq_timeout_ms q \<in> {1..rs_max_timeout_ms s} \<and> rq_max_output_bytes q \<in> {1..rs_max_output_bytes s}"
  by (auto simp: resource_validate_def)

end
