(* ===== verification/Materialization.thy ===== *)
theory Materialization
  imports Hand_Policy Paging
begin

section \<open>Target materialization: keys, specs, records and leases\<close>

text \<open>
  The data and pure transitions of \<open>hand-core/src/materialization\<close> (\<open>mod.rs\<close>, \<open>spec.rs\<close>,
  \<open>record.rs\<close>, \<open>port.rs\<close>). The digest of a target spec (SHA-256 of its canonical JSON) is code
  outside the repository, so every function that computes it takes it as the parameter \<open>dg\<close>.
\<close>

subsection \<open>Errors and validators\<close>

definition MAX_MATERIALIZATION_POLL_MS :: nat where "MAX_MATERIALIZATION_POLL_MS = 1000"
definition MAX_REASON_BYTES :: nat where "MAX_REASON_BYTES = 512"
definition MAX_IMAGE_IDENTITY_BYTES :: nat where "MAX_IMAGE_IDENTITY_BYTES = 256"
definition MAX_MATERIALIZED_MIB :: nat where "MAX_MATERIALIZED_MIB = 1048576"
definition DEFAULT_TARGET_KEY :: string where "DEFAULT_TARGET_KEY = ''target:default''"

datatype materialization_error =
    MInvalidIdentity string
  | MInvalidLease
  | MInvalidLaunchRequest
  | MInvalidControlToken
  | MInvalidReplacement
  | MInvalidCapacity
  | MSpecConflict
  | MPending nat
  | MGone
  | MTerminated
  | MCapacity string nat string
  | MLaunchRejected string
  | MLaunchRetryable string
  | MLaunchOutcomeUnknown string
  | MReservationLost "string option"
  | MStorage string
  | MCorrupt string

fun from_secret_error :: "secret_error \<Rightarrow> materialization_error" where
  "from_secret_error InvalidControlToken = MInvalidControlToken"
| "from_secret_error InvalidLaunchRequest = MInvalidLaunchRequest"

definition mat_validate_identifier :: "string \<Rightarrow> string \<Rightarrow> (materialization_error, unit) result" where
  "mat_validate_identifier v f = map_err MInvalidIdentity (validate_identifier v f)"

definition mat_validate_bounded_token ::
    "string \<Rightarrow> string \<Rightarrow> nat \<Rightarrow> (materialization_error, unit) result" where
  "mat_validate_bounded_token v f b = map_err MInvalidIdentity (validate_bounded_token v f b)"

definition mat_validate_digest :: "string \<Rightarrow> string \<Rightarrow> (materialization_error, unit) result" where
  "mat_validate_digest v f = map_err MInvalidIdentity (validate_digest v f)"

definition validate_reason :: "string \<Rightarrow> (materialization_error, unit) result" where
  "validate_reason reason =
     (if reason = [] \<or> length reason > MAX_REASON_BYTES then Err (MInvalidIdentity ''reason'')
      else Ok ())"

definition valid_reason :: "string \<Rightarrow> bool" where
  "valid_reason s \<longleftrightarrow> s \<noteq> [] \<and> length s \<le> MAX_REASON_BYTES"

definition valid_launch :: "launch_request \<Rightarrow> bool" where
  "valid_launch r \<longleftrightarrow>
     lr_expose r \<noteq> [] \<and> length (lr_expose r) \<le> MAX_DURABLE_LAUNCH_REQUEST_BYTES"

lemma mat_validate_eq:
  "mat_validate_identifier v f = (if valid_identifier v then Ok () else Err (MInvalidIdentity f))"
  "mat_validate_digest v f = (if valid_digest v then Ok () else Err (MInvalidIdentity f))"
  "validate_reason v = (if valid_reason v then Ok () else Err (MInvalidIdentity ''reason''))"
  "launch_request_validate r = (if valid_launch r then Ok () else Err InvalidLaunchRequest)"
  by (auto simp: mat_validate_identifier_def mat_validate_digest_def validate_eqs
      validate_reason_def valid_reason_def launch_request_validate_def valid_launch_def)

subsection \<open>Keys and specs\<close>

record target_key =
  tk_root_id :: string
  tk_target_key :: string

definition for_default_target :: "string \<Rightarrow> (materialization_error, target_key) result" where
  "for_default_target root =
     and_then (mat_validate_identifier root ''root_id'')
       (\<lambda>_. Ok \<lparr>tk_root_id = root, tk_target_key = DEFAULT_TARGET_KEY\<rparr>)"

definition additional :: "string \<Rightarrow> string \<Rightarrow> (materialization_error, target_key) result" where
  "additional root sandbox =
     and_then (mat_validate_identifier root ''root_id'') (\<lambda>_.
     and_then (mat_validate_identifier sandbox ''sandbox_id'') (\<lambda>_.
       Ok \<lparr>tk_root_id = root, tk_target_key = ''target:additional:'' @ sandbox\<rparr>))"

definition is_default :: "target_key \<Rightarrow> bool" where
  "is_default k \<longleftrightarrow> tk_target_key k = DEFAULT_TARGET_KEY"

definition sandbox_identity :: "target_key \<Rightarrow> (materialization_error, string) result" where
  "sandbox_identity k =
     (if is_default k then Ok ''default''
      else ok_or (strip_prefix ''target:additional:'' (tk_target_key k))
             (MInvalidIdentity ''target_key''))"

definition key_validate :: "target_key \<Rightarrow> (materialization_error, unit) result" where
  "key_validate k =
     and_then (mat_validate_identifier (tk_root_id k) ''root_id'') (\<lambda>_.
       if is_default k then Ok ()
       else and_then (sandbox_identity k) (\<lambda>sid. mat_validate_identifier sid ''sandbox_id''))"

record target_spec =
  ts_connector :: connector_class
  ts_image_identity :: string
  ts_resource_class :: string
  ts_materialized_mib :: nat
  ts_resource_policy_digest :: string
  ts_network_policy_digest :: string

definition spec_new ::
    "connector_class \<Rightarrow> string \<Rightarrow> string \<Rightarrow> nat \<Rightarrow> string \<Rightarrow> string
      \<Rightarrow> (materialization_error, target_spec) result" where
  "spec_new connector img rclass mib rdigest ndigest =
     and_then (mat_validate_bounded_token img ''image_identity'' MAX_IMAGE_IDENTITY_BYTES) (\<lambda>_.
     and_then (mat_validate_identifier rclass ''resource_class'') (\<lambda>_.
     and_then (require (\<not> (mib = 0 \<or> mib > MAX_MATERIALIZED_MIB)) MInvalidCapacity) (\<lambda>_.
     and_then (mat_validate_digest rdigest ''resource_policy_digest'') (\<lambda>_.
     and_then (mat_validate_digest ndigest ''network_policy_digest'') (\<lambda>_.
       Ok \<lparr>ts_connector = connector, ts_image_identity = img, ts_resource_class = rclass,
           ts_materialized_mib = mib, ts_resource_policy_digest = rdigest,
           ts_network_policy_digest = ndigest\<rparr>)))))"

type_synonym spec_digest_fn = "target_spec \<Rightarrow> string"

definition valid_key :: "target_key \<Rightarrow> bool" where
  "valid_key k \<longleftrightarrow> key_validate k = Ok ()"

lemma key_validate_eq: "key_validate k = Ok u \<longleftrightarrow> valid_key k"
  by (simp add: valid_key_def)

lemma key_constructors_valid:
  "for_default_target root = Ok k \<Longrightarrow> valid_key k \<and> is_default k \<and> sandbox_identity k = Ok ''default''"
  "additional root sandbox = Ok k \<Longrightarrow> valid_key k \<and> \<not> is_default k \<and> sandbox_identity k = Ok sandbox"
  by (auto simp: for_default_target_def additional_def valid_key_def key_validate_def
      is_default_def sandbox_identity_def DEFAULT_TARGET_KEY_def mat_validate_eq result_iffs
      split: if_splits)

subsection \<open>Durable records\<close>

record materialization_lease =
  ml_key :: target_key
  ml_spec :: target_spec
  ml_spec_digest :: string
  ml_reservation_id :: string
  ml_generation :: string
  ml_launch_request :: launch_request
  ml_attempt_id :: string
  ml_attempt_expires_at_ms :: nat
  ml_target_expires_at_ms :: nat
  ml_lease_expires_at_ms :: nat
  ml_recovery_attempt :: bool

record installed_target =
  it_key :: target_key
  it_spec :: target_spec
  it_spec_digest :: string
  it_target_ref :: string
  it_generation :: string
  it_control_token :: control_token
  it_installed_at_ms :: nat
  it_expires_at_ms :: nat

datatype disposition = Lost | Terminated

text \<open>
  \<open>Materializing\<close> holds reservation id, launch request, attempt id, and the expiry instants of
  the attempt, the target and the lease; \<open>Installed\<close> the target reference, its control token and
  the installation and expiry instants; \<open>Closed\<close> the disposition, its reason and the instant.
\<close>

datatype durable_target_state =
    Materializing string launch_request string nat nat nat
  | Installed string control_token nat nat
  | Closed disposition string nat

record durable_target_record =
  dr_key :: target_key
  dr_spec :: target_spec
  dr_spec_digest :: string
  dr_generation :: string
  dr_state :: durable_target_state
  dr_updated_at_ms :: nat

definition installed_validate ::
    "spec_digest_fn \<Rightarrow> installed_target \<Rightarrow> (materialization_error, unit) result" where
  "installed_validate dg t =
     and_then (key_validate (it_key t)) (\<lambda>_.
     and_then (mat_validate_digest (it_spec_digest t) ''spec_digest'') (\<lambda>_.
     and_then (require (dg (it_spec t) = it_spec_digest t) MSpecConflict) (\<lambda>_.
     and_then (mat_validate_identifier (it_target_ref t) ''target_ref'') (\<lambda>_.
     and_then (mat_validate_identifier (it_generation t) ''generation'') (\<lambda>_.
       require (\<not> (it_expires_at_ms t = 0 \<or> it_expires_at_ms t < it_installed_at_ms t)) MInvalidLease)))))"

definition state_validate ::
    "nat \<Rightarrow> durable_target_state \<Rightarrow> (materialization_error, unit) result" where
  "state_validate updated_at st =
     (case st of
        Materializing rid lr aid aexp texp lexp \<Rightarrow>
          and_then (mat_validate_identifier rid ''reservation_id'') (\<lambda>_.
          and_then (map_err from_secret_error (launch_request_validate lr)) (\<lambda>_.
          and_then (mat_validate_identifier aid ''attempt_id'') (\<lambda>_.
            require (\<not> (texp = 0 \<or> texp \<ge> lexp \<or> texp < updated_at
                        \<or> aexp \<le> updated_at \<or> aexp > lexp)) MInvalidLease)))
      | Installed tref ct iat exp \<Rightarrow>
          and_then (mat_validate_identifier tref ''target_ref'') (\<lambda>_.
            require (\<not> (exp = 0 \<or> exp < iat)) MInvalidLease)
      | Closed d reason at \<Rightarrow> validate_reason reason)"

definition record_validate ::
    "spec_digest_fn \<Rightarrow> durable_target_record \<Rightarrow> (materialization_error, unit) result" where
  "record_validate dg r =
     and_then (key_validate (dr_key r)) (\<lambda>_.
     and_then (mat_validate_digest (dr_spec_digest r) ''spec_digest'') (\<lambda>_.
     and_then (require (dg (dr_spec r) = dr_spec_digest r) MSpecConflict) (\<lambda>_.
     and_then (mat_validate_identifier (dr_generation r) ''generation'') (\<lambda>_.
       state_validate (dr_updated_at_ms r) (dr_state r)))))"

definition installed :: "durable_target_record \<Rightarrow> installed_target option" where
  "installed r =
     (case dr_state r of
        Installed tref ct iat exp \<Rightarrow>
          Some \<lparr>it_key = dr_key r, it_spec = dr_spec r, it_spec_digest = dr_spec_digest r,
                it_target_ref = tref, it_generation = dr_generation r, it_control_token = ct,
                it_installed_at_ms = iat, it_expires_at_ms = exp\<rparr>
      | _ \<Rightarrow> None)"

definition lease_from_materializing_record ::
    "durable_target_record \<Rightarrow> (materialization_error, materialization_lease) result" where
  "lease_from_materializing_record r =
     (case dr_state r of
        Materializing rid lr aid aexp texp lexp \<Rightarrow>
          Ok \<lparr>ml_key = dr_key r, ml_spec = dr_spec r, ml_spec_digest = dr_spec_digest r,
              ml_reservation_id = rid, ml_generation = dr_generation r, ml_launch_request = lr,
              ml_attempt_id = aid, ml_attempt_expires_at_ms = aexp, ml_target_expires_at_ms = texp,
              ml_lease_expires_at_ms = lexp, ml_recovery_attempt = True\<rparr>
      | _ \<Rightarrow> Err (MCorrupt ''expected materializing target''))"

definition recovery_lease ::
    "durable_target_record \<Rightarrow> (materialization_error, materialization_lease) result" where
  "recovery_lease r = lease_from_materializing_record r"

subsection \<open>Acquisition requests\<close>

record acquire_target =
  aq_key :: target_key
  aq_spec :: target_spec
  aq_reservation_id :: string
  aq_generation :: string
  aq_launch_request :: launch_request
  aq_attempt_id :: string
  aq_attempt_duration_ms :: nat
  aq_generation_is_fenced :: bool
  aq_now_ms :: nat
  aq_lease_duration_ms :: nat
  aq_target_lifetime_ms :: nat
  aq_replace_after_loss :: bool

definition acquire_validate :: "acquire_target \<Rightarrow> (materialization_error, unit) result" where
  "acquire_validate q =
     and_then (key_validate (aq_key q)) (\<lambda>_.
     and_then (mat_validate_identifier (aq_reservation_id q) ''reservation_id'') (\<lambda>_.
     and_then (mat_validate_identifier (aq_generation q) ''generation'') (\<lambda>_.
     and_then (map_err from_secret_error (launch_request_validate (aq_launch_request q))) (\<lambda>_.
     and_then (mat_validate_identifier (aq_attempt_id q) ''attempt_id'') (\<lambda>_.
     and_then (require (\<not> (aq_target_lifetime_ms q = 0
                           \<or> aq_lease_duration_ms q \<le> aq_target_lifetime_ms q)) MInvalidLease) (\<lambda>_.
     and_then (require (\<not> (aq_attempt_duration_ms q = 0
                           \<or> aq_attempt_duration_ms q \<ge> aq_lease_duration_ms q)) MInvalidLease) (\<lambda>_.
       require (\<not> (aq_replace_after_loss q \<and> \<not> is_default (aq_key q))) MInvalidReplacement)))))))"

definition acquire_lease ::
    "spec_digest_fn \<Rightarrow> acquire_target \<Rightarrow> (materialization_error, materialization_lease) result" where
  "acquire_lease dg q =
     and_then (acquire_validate q) (\<lambda>_.
     and_then (ok_or (checked_add (aq_now_ms q) (aq_lease_duration_ms q)) MInvalidLease) (\<lambda>lexp.
     and_then (ok_or (checked_add (aq_now_ms q) (aq_target_lifetime_ms q)) MInvalidLease) (\<lambda>texp.
     and_then (ok_or (checked_add (aq_now_ms q) (aq_attempt_duration_ms q)) MInvalidLease) (\<lambda>aexp.
       Ok \<lparr>ml_key = aq_key q, ml_spec = aq_spec q, ml_spec_digest = dg (aq_spec q),
           ml_reservation_id = aq_reservation_id q, ml_generation = aq_generation q,
           ml_launch_request = aq_launch_request q, ml_attempt_id = aq_attempt_id q,
           ml_attempt_expires_at_ms = aexp, ml_target_expires_at_ms = texp,
           ml_lease_expires_at_ms = lexp, ml_recovery_attempt = False\<rparr>))))"

datatype acquire_outcome =
    AAcquired materialization_lease
  | APending string nat
  | AInstalled installed_target
  | AGone
  | ATerminated

datatype install_outcome = IInstalled installed_target | IReservationLost

definition materialization_poll_after :: "nat \<Rightarrow> nat \<Rightarrow> nat" where
  "materialization_poll_after lease_expires now =
     clamp 1 MAX_MATERIALIZATION_POLL_MS (saturating_sub lease_expires now)"

record physical_target =
  pt_target_ref :: string
  pt_generation :: string
  pt_control_token :: control_token

definition physical_new ::
    "string \<Rightarrow> string \<Rightarrow> control_token \<Rightarrow> (materialization_error, physical_target) result" where
  "physical_new tref gen ct =
     and_then (mat_validate_identifier tref ''target_ref'') (\<lambda>_.
     and_then (mat_validate_identifier gen ''generation'') (\<lambda>_.
       Ok \<lparr>pt_target_ref = tref, pt_generation = gen, pt_control_token = ct\<rparr>))"

datatype launch_error =
    LCapacity string nat string
  | LKnownNoTarget string
  | LRetryableKnownNoTarget string
  | LOutcomeUnknown string

text \<open>Whether a record is still the one a launch attempt reserved.\<close>

definition holds_attempt :: "durable_target_record \<Rightarrow> materialization_lease \<Rightarrow> bool" where
  "holds_attempt r l \<longleftrightarrow>
     dr_generation r = ml_generation l
     \<and> (case dr_state r of
          Materializing rid lr aid aexp texp lexp \<Rightarrow>
            rid = ml_reservation_id l \<and> aid = ml_attempt_id l
        | _ \<Rightarrow> False)"

subsection \<open>What validation and leasing give\<close>

definition acquire_ok :: "acquire_target \<Rightarrow> bool" where
  "acquire_ok q \<longleftrightarrow>
     valid_key (aq_key q) \<and> valid_identifier (aq_reservation_id q) \<and> valid_identifier (aq_generation q)
     \<and> valid_launch (aq_launch_request q) \<and> valid_identifier (aq_attempt_id q)
     \<and> 0 < aq_target_lifetime_ms q \<and> aq_target_lifetime_ms q < aq_lease_duration_ms q
     \<and> 0 < aq_attempt_duration_ms q \<and> aq_attempt_duration_ms q < aq_lease_duration_ms q
     \<and> (aq_replace_after_loss q \<longrightarrow> is_default (aq_key q))"

lemma acquire_validate_Ok: "acquire_validate q = Ok u \<longleftrightarrow> acquire_ok q"
  by (auto simp: acquire_validate_def acquire_ok_def mat_validate_eq key_validate_eq result_iffs
      split: if_splits)

lemma acquire_lease_Ok:
  "acquire_lease dg q = Ok l \<longleftrightarrow>
     acquire_ok q \<and> aq_now_ms q + aq_lease_duration_ms q \<le> U64_MAX
     \<and> l = \<lparr>ml_key = aq_key q, ml_spec = aq_spec q, ml_spec_digest = dg (aq_spec q),
           ml_reservation_id = aq_reservation_id q, ml_generation = aq_generation q,
           ml_launch_request = aq_launch_request q, ml_attempt_id = aq_attempt_id q,
           ml_attempt_expires_at_ms = aq_now_ms q + aq_attempt_duration_ms q,
           ml_target_expires_at_ms = aq_now_ms q + aq_target_lifetime_ms q,
           ml_lease_expires_at_ms = aq_now_ms q + aq_lease_duration_ms q, ml_recovery_attempt = False\<rparr>"
  by (auto simp: acquire_lease_def acquire_validate_Ok acquire_ok_def result_iffs)

fun state_ok :: "nat \<Rightarrow> durable_target_state \<Rightarrow> bool" where
  "state_ok u (Materializing rid lr aid aexp texp lexp) \<longleftrightarrow>
     valid_identifier rid \<and> valid_launch lr \<and> valid_identifier aid
     \<and> 0 < texp \<and> texp < lexp \<and> u \<le> texp \<and> u < aexp \<and> aexp \<le> lexp"
| "state_ok u (Installed tref ct iat exp) \<longleftrightarrow> valid_identifier tref \<and> 0 < exp \<and> iat \<le> exp"
| "state_ok u (Closed d reason at) \<longleftrightarrow> valid_reason reason"

definition record_ok :: "spec_digest_fn \<Rightarrow> durable_target_record \<Rightarrow> bool" where
  "record_ok dg r \<longleftrightarrow>
     valid_key (dr_key r) \<and> valid_digest (dr_spec_digest r) \<and> dg (dr_spec r) = dr_spec_digest r
     \<and> valid_identifier (dr_generation r) \<and> state_ok (dr_updated_at_ms r) (dr_state r)"

lemma state_validate_Ok: "state_validate n st = Ok u \<longleftrightarrow> state_ok n st"
  by (cases st) (auto simp: state_validate_def mat_validate_eq result_iffs split: if_splits)

lemma record_validate_Ok: "record_validate dg r = Ok u \<longleftrightarrow> record_ok dg r"
  by (auto simp: record_validate_def record_ok_def mat_validate_eq key_validate_eq result_iffs
      state_validate_Ok split: if_splits)

lemma installed_Some_iff:
  "installed r = Some t \<longleftrightarrow>
     (\<exists>tref ct iat exp. dr_state r = Installed tref ct iat exp
        \<and> t = \<lparr>it_key = dr_key r, it_spec = dr_spec r, it_spec_digest = dr_spec_digest r,
               it_target_ref = tref, it_generation = dr_generation r, it_control_token = ct,
               it_installed_at_ms = iat, it_expires_at_ms = exp\<rparr>)"
  by (auto simp: installed_def split: durable_target_state.splits)

lemma installed_validates:
  "record_ok dg r \<Longrightarrow> installed r = Some t \<Longrightarrow> installed_validate dg t = Ok ()"
  by (auto simp: installed_Some_iff installed_validate_def record_ok_def mat_validate_eq
      key_validate_eq result_iffs)

lemma lease_from_record_Ok_iff:
  "lease_from_materializing_record r = Ok l \<longleftrightarrow>
     (\<exists>rid lr aid aexp texp lexp. dr_state r = Materializing rid lr aid aexp texp lexp
        \<and> l = \<lparr>ml_key = dr_key r, ml_spec = dr_spec r, ml_spec_digest = dr_spec_digest r,
              ml_reservation_id = rid, ml_generation = dr_generation r, ml_launch_request = lr,
              ml_attempt_id = aid, ml_attempt_expires_at_ms = aexp, ml_target_expires_at_ms = texp,
              ml_lease_expires_at_ms = lexp, ml_recovery_attempt = True\<rparr>)"
  by (auto simp: lease_from_materializing_record_def split: durable_target_state.splits)

lemma poll_after_bounds:
  "1 \<le> materialization_poll_after e n \<and> materialization_poll_after e n \<le> 1000"
  unfolding materialization_poll_after_def MAX_MATERIALIZATION_POLL_MS_def
  by (rule clamp_bounds) simp

end
