(* ===== verification/Materializer.thy ===== *)
theory Materializer
  imports Materialization
begin

section \<open>The reservation, launch, install orchestrator (\<open>materializer.rs\<close>)\<close>

text \<open>
  \<open>TargetMaterializer\<close> is generic over its registry and its launcher, and so is the model: the
  three registry operations are arguments, and the provider's answers to \<open>launch\<close> and
  \<open>terminate_stale\<close> are arguments too. The code suspends at the launch, where other workers run;
  \<open>ensure_begin\<close> is what happens before it and \<open>ensure_settle\<close> what happens after, and
  \<open>worker_step\<close> interleaves many workers on one registry. The locale \<open>target_port\<close> holds the laws
  of \<open>port.rs\<close> that the orchestrator relies on.
\<close>

type_synonym 'g acquire_fn =
  "'g \<Rightarrow> acquire_target \<Rightarrow> (materialization_error, acquire_outcome) result \<times> 'g"
type_synonym 'g install_fn =
  "'g \<Rightarrow> materialization_lease \<Rightarrow> physical_target \<Rightarrow> nat
    \<Rightarrow> (materialization_error, install_outcome) result \<times> 'g"
type_synonym 'g expire_fn =
  "'g \<Rightarrow> materialization_lease \<Rightarrow> nat \<Rightarrow> (materialization_error, unit) result \<times> 'g"
type_synonym launch_result = "(launch_error, physical_target) result"
type_synonym ensure_result = "(materialization_error, installed_target) result"

subsection \<open>The operation\<close>

text \<open>Up to the launch: a result, or a lease with which to launch.\<close>

definition ensure_begin ::
    "'g acquire_fn \<Rightarrow> 'g \<Rightarrow> acquire_target \<Rightarrow> (ensure_result + materialization_lease) \<times> 'g" where
  "ensure_begin acq g q =
     (case acq g q of
        (Err e, g') \<Rightarrow> (Inl (Err e), g')
      | (Ok (AInstalled t), g') \<Rightarrow> (Inl (Ok t), g')
      | (Ok (AAcquired l), g') \<Rightarrow> (Inr l, g')
      | (Ok (APending gen retry), g') \<Rightarrow> (Inl (Err (MPending retry)), g')
      | (Ok AGone, g') \<Rightarrow> (Inl (Err MGone), g')
      | (Ok ATerminated, g') \<Rightarrow> (Inl (Err MTerminated), g'))"

text \<open>Expiring the lease and then answering with an error.\<close>

definition expire_then ::
    "'g expire_fn \<Rightarrow> 'g \<Rightarrow> materialization_lease \<Rightarrow> nat \<Rightarrow> materialization_error \<Rightarrow> ensure_result \<times> 'g"
where
  "expire_then exp g l now err =
     (case exp g l now of (Err e, g') \<Rightarrow> (Err e, g') | (Ok _, g') \<Rightarrow> (Err err, g'))"

definition ensure_settle ::
    "'g install_fn \<Rightarrow> 'g expire_fn \<Rightarrow> (physical_target \<Rightarrow> (string, unit) result) \<Rightarrow> 'g
      \<Rightarrow> acquire_target \<Rightarrow> materialization_lease \<Rightarrow> launch_result \<Rightarrow> ensure_result \<times> 'g" where
  "ensure_settle inst exp terminate_stale g q l launched =
     (case launched of
        Err (LCapacity scope retry message) \<Rightarrow>
          (if \<not> ml_recovery_attempt l
           then expire_then exp g l (aq_now_ms q) (MCapacity scope retry message)
           else (Err (MCapacity scope retry message), g))
      | Err (LKnownNoTarget message) \<Rightarrow>
          (if ml_recovery_attempt l
           then (Err (MLaunchOutcomeUnknown
                  (''exact launch recovery returned no target; reservation remains fenced: '' @ message)), g)
           else expire_then exp g l (aq_now_ms q) (MLaunchRejected message))
      | Err (LRetryableKnownNoTarget message) \<Rightarrow>
          (if \<not> ml_recovery_attempt l
           then expire_then exp g l (aq_now_ms q) (MLaunchRetryable message)
           else (Err (MLaunchRetryable message), g))
      | Err (LOutcomeUnknown message) \<Rightarrow> (Err (MLaunchOutcomeUnknown message), g)
      | Ok physical \<Rightarrow>
          (case inst g l physical (aq_now_ms q) of
             (Err e, g') \<Rightarrow> (Err e, g')
           | (Ok (IInstalled t), g') \<Rightarrow> (Ok t, g')
           | (Ok IReservationLost, g') \<Rightarrow>
               (Err (MReservationLost
                  (case terminate_stale physical of Err m \<Rightarrow> Some m | Ok _ \<Rightarrow> None)), g')))"

definition ensure ::
    "'g acquire_fn \<Rightarrow> 'g install_fn \<Rightarrow> 'g expire_fn \<Rightarrow> (materialization_lease \<Rightarrow> launch_result)
      \<Rightarrow> (physical_target \<Rightarrow> (string, unit) result) \<Rightarrow> 'g \<Rightarrow> acquire_target \<Rightarrow> ensure_result \<times> 'g" where
  "ensure acq inst exp launch terminate_stale g q =
     (case ensure_begin acq g q of
        (Inl res, g') \<Rightarrow> (res, g')
      | (Inr l, g') \<Rightarrow> ensure_settle inst exp terminate_stale g' q l (launch l))"

text \<open>The launch failures in which the provider attests that no target exists.\<close>

fun no_target :: "launch_error \<Rightarrow> bool" where
  "no_target (LOutcomeUnknown m) = False"
| "no_target _ = True"

subsection \<open>Workers interleaved on one registry\<close>

record 'g plane =
  pl_registry :: 'g
  pl_inflight :: "(acquire_target \<times> materialization_lease) set"
  pl_attempts :: "string set"

text \<open>
  A worker begins with a fresh attempt id (callers draw it at random) and settles with any answer
  of the provider; between the two any number of other workers step.
\<close>

inductive worker_step ::
    "'g acquire_fn \<Rightarrow> 'g install_fn \<Rightarrow> 'g expire_fn \<Rightarrow> target_spec set \<Rightarrow> 'g plane \<Rightarrow> 'g plane \<Rightarrow> bool"
  for acq inst exp S where
  worker_answers:
    "ensure_begin acq (pl_registry p) q = (Inl res, g') \<Longrightarrow> aq_spec q \<in> S \<Longrightarrow>
      aq_attempt_id q \<notin> pl_attempts p \<Longrightarrow>
      worker_step acq inst exp S p
        (p\<lparr>pl_registry := g', pl_attempts := insert (aq_attempt_id q) (pl_attempts p)\<rparr>)"
| worker_launches:
    "ensure_begin acq (pl_registry p) q = (Inr l, g') \<Longrightarrow> aq_spec q \<in> S \<Longrightarrow>
      aq_attempt_id q \<notin> pl_attempts p \<Longrightarrow>
      worker_step acq inst exp S p
        (p\<lparr>pl_registry := g', pl_inflight := insert (q, l) (pl_inflight p),
          pl_attempts := insert (aq_attempt_id q) (pl_attempts p)\<rparr>)"
| worker_settles:
    "(q, l) \<in> pl_inflight p \<Longrightarrow>
      ensure_settle inst exp terminate_stale (pl_registry p) q l launched = (res, g') \<Longrightarrow>
      worker_step acq inst exp S p (p\<lparr>pl_registry := g', pl_inflight := pl_inflight p - {(q, l)}\<rparr>)"

text \<open>A record that is a lease's own reservation carries the lease's spec and digest.\<close>

definition agrees :: "durable_target_record option \<Rightarrow> materialization_lease \<Rightarrow> bool" where
  "agrees ro l \<longleftrightarrow>
     (\<forall>r. ro = Some r \<longrightarrow> holds_attempt r l \<longrightarrow>
        dr_spec r = ml_spec l \<and> dr_spec_digest r = ml_spec_digest l)"

text \<open>What a successful acquisition leaves in the registry.\<close>

definition leased :: "acquire_target \<Rightarrow> materialization_lease \<Rightarrow> durable_target_record option \<Rightarrow> bool" where
  "leased q l ro \<longleftrightarrow>
     ml_key l = aq_key q \<and> ml_attempt_id l = aq_attempt_id q \<and> aq_now_ms q < ml_target_expires_at_ms l
     \<and> (\<exists>r. ro = Some r \<and> holds_attempt r l) \<and> agrees ro l"

text \<open>The plane invariant: a sound registry, and leases in flight that agree with it.\<close>

definition plane_ok ::
    "('g \<Rightarrow> bool) \<Rightarrow> ('g \<Rightarrow> target_key \<rightharpoonup> durable_target_record) \<Rightarrow> 'g plane \<Rightarrow> bool" where
  "plane_ok I view p \<longleftrightarrow> I (pl_registry p) \<and>
     (\<forall>(q, l) \<in> pl_inflight p. ml_attempt_id l \<in> pl_attempts p
        \<and> aq_now_ms q < ml_target_expires_at_ms l
        \<and> agrees (view (pl_registry p) (ml_key l)) l)"

subsection \<open>The registry port\<close>

locale target_port =
  fixes acq :: "'g acquire_fn" and inst :: "'g install_fn" and exp :: "'g expire_fn"
    and view :: "'g \<Rightarrow> target_key \<rightharpoonup> durable_target_record"
    and inv :: "'g \<Rightarrow> bool" and S :: "target_spec set"
  assumes acq_inv: "inv g \<Longrightarrow> aq_spec q \<in> S \<Longrightarrow> acq g q = (res, g') \<Longrightarrow> inv g'"
    and acq_acquired: "inv g \<Longrightarrow> aq_spec q \<in> S \<Longrightarrow> acq g q = (Ok (AAcquired l), g') \<Longrightarrow>
      leased q l (view g' (aq_key q)) \<and> (\<forall>r. view g (aq_key q) = Some r \<longrightarrow> installed r = None)"
    and acq_frame: "inv g \<Longrightarrow> aq_spec q \<in> S \<Longrightarrow> acq g q = (res, g') \<Longrightarrow> k \<noteq> aq_key q \<Longrightarrow> view g' k = view g k"
    and acq_installed: "inv g \<Longrightarrow> aq_spec q \<in> S \<Longrightarrow> acq g q = (Ok (AInstalled it), g') \<Longrightarrow>
      \<exists>r. view g' (aq_key q) = Some r \<and> installed r = Some it"
    and acq_refused: "inv g \<Longrightarrow> aq_spec q \<in> S \<Longrightarrow> acq g q = (res, g') \<Longrightarrow>
      (\<And>l. res \<noteq> Ok (AAcquired l)) \<Longrightarrow> view g' = view g"
    and inst_inv: "inv g \<Longrightarrow> now \<le> ml_target_expires_at_ms l \<Longrightarrow> 0 < ml_target_expires_at_ms l \<Longrightarrow>
      inst g l pt now = (ires, g') \<Longrightarrow> inv g'"
    and inst_frame: "inst g l pt now = (ires, g') \<Longrightarrow> k \<noteq> ml_key l \<Longrightarrow> view g' k = view g k"
    and inst_installs: "inst g l pt now = (Ok (IInstalled it), g') \<Longrightarrow>
      \<exists>r. view g' (ml_key l) = Some r \<and> installed r = Some it"
    and inst_changes: "inst g l pt now = (ires, g') \<Longrightarrow> view g' (ml_key l) = view g (ml_key l) \<or>
      (\<exists>r r'. view g (ml_key l) = Some r \<and> installed r = None \<and>
         view g' (ml_key l) = Some r' \<and> installed r' \<noteq> None)"
    and inst_leased: "inv g \<Longrightarrow> view g (ml_key l) = Some r \<Longrightarrow> holds_attempt r l \<Longrightarrow>
      dr_spec_digest r = ml_spec_digest l \<Longrightarrow> valid_identifier (pt_target_ref pt) \<Longrightarrow>
      valid_identifier (pt_generation pt) \<Longrightarrow> \<exists>it g'. inst g l pt now = (Ok (IInstalled it), g')
        \<and> it_target_ref it = pt_target_ref pt \<and> it_control_token it = pt_control_token pt"
    and exp_inv: "inv g \<Longrightarrow> agrees (view g (ml_key l)) l \<Longrightarrow> exp g l now = (xres, g') \<Longrightarrow> inv g'"
    and exp_frame: "exp g l now = (xres, g') \<Longrightarrow> k \<noteq> ml_key l \<Longrightarrow> view g' k = view g k"
    and exp_changes: "exp g l now = (xres, g') \<Longrightarrow>
      (case view g (ml_key l) of
         None \<Rightarrow> view g' (ml_key l) = None
       | Some r \<Rightarrow> view g' (ml_key l) = (if holds_attempt r l then None else Some r))"
    and exp_ok: "inv g \<Longrightarrow> agrees (view g (ml_key l)) l \<Longrightarrow> \<exists>g'. exp g l now = (Ok (), g')"
begin

lemma begin_inv:
  "inv g \<Longrightarrow> aq_spec q \<in> S \<Longrightarrow> ensure_begin acq g q = (out, g') \<Longrightarrow> inv g'"
  by (auto simp: ensure_begin_def split: prod.splits sum.splits acquire_outcome.splits intro: acq_inv)

lemma begin_launch:
  "ensure_begin acq g q = (Inr l, g') \<longleftrightarrow> acq g q = (Ok (AAcquired l), g')"
  by (auto simp: ensure_begin_def split: prod.splits sum.splits acquire_outcome.splits)

lemma begin_frame:
  "inv g \<Longrightarrow> aq_spec q \<in> S \<Longrightarrow> ensure_begin acq g q = (out, g') \<Longrightarrow> k \<noteq> aq_key q \<Longrightarrow> view g' k = view g k"
  by (auto simp: ensure_begin_def split: prod.splits sum.splits acquire_outcome.splits intro: acq_frame)

lemma begin_answer:
  assumes "inv g" and "aq_spec q \<in> S" and "ensure_begin acq g q = (Inl res, g')"
  shows "view g' = view g \<and>
    (\<forall>t. res = Ok t \<longrightarrow> (\<exists>r. view g' (aq_key q) = Some r \<and> installed r = Some t))"
proof -
  have "view g' = view g"
    using assms(3) acq_refused [OF assms(1,2)]
    by (auto simp: ensure_begin_def split: prod.splits sum.splits acquire_outcome.splits)
  moreover have "\<exists>r. view g' (aq_key q) = Some r \<and> installed r = Some t" if "res = Ok t" for t
    using assms(3) that
    by (intro acq_installed [OF assms(1,2)])
      (auto simp: ensure_begin_def split: prod.splits sum.splits acquire_outcome.splits)
  ultimately show ?thesis by blast
qed

lemma expire_then_cases:
  assumes "expire_then exp g l now err = (res, g')"
  obtains res' where "exp g l now = (res', g')"
  using assms by (auto simp: expire_then_def split: prod.splits sum.splits)

text \<open>Every way to settle is an expiry, an install or no registry call at all.\<close>

lemma settle_cases:
  assumes "ensure_settle inst exp ts g q l launched = (res, g')"
  obtains (none) "g' = g" "\<exists>e. res = Err e"
  | (exp) res' where "exp g l (aq_now_ms q) = (res', g')" "\<exists>e. res = Err e"
  | (inst) t res' where "inst g l t (aq_now_ms q) = (res', g')" "\<forall>it. res = Ok it \<longrightarrow> res' = Ok (IInstalled it)"
  using assms
  by (cases launched)
    (auto simp: ensure_settle_def expire_then_def split: if_splits launch_error.splits prod.splits sum.splits
      install_outcome.splits)

lemma settle_inv:
  assumes "ensure_settle inst exp ts g q l launched = (res, g')" and "inv g"
    and "aq_now_ms q < ml_target_expires_at_ms l" and "agrees (view g (ml_key l)) l"
  shows "inv g'"
  using assms(1)
proof (cases rule: settle_cases)
  case none
  then show ?thesis using assms(2) by simp
next
  case (exp res')
  then show ?thesis using exp_inv assms(2,4) by blast
next
  case (inst t res')
  show ?thesis by (rule inst_inv [OF assms(2) _ _ inst(1)]) (use assms(3) in simp_all)
qed

lemma settle_frame:
  assumes "ensure_settle inst exp ts g q l launched = (res, g')" and "k \<noteq> ml_key l"
  shows "view g' k = view g k"
  using assms(1) by (cases rule: settle_cases) (use assms(2) exp_frame inst_frame in auto)

lemma settle_installed:
  assumes "ensure_settle inst exp ts g q l launched = (Ok it, g')"
  shows "\<exists>r. view g' (ml_key l) = Some r \<and> installed r = Some it"
  using assms by (cases rule: settle_cases) (use inst_installs in auto)

text \<open>Settling never displaces an installed target and never revives a lost reservation.\<close>

lemma settle_changes:
  assumes "ensure_settle inst exp ts g q l launched = (res, g')"
  shows "view g' (ml_key l) = view g (ml_key l) \<or> view g' (ml_key l) = None \<or>
    (\<exists>r. view g' (ml_key l) = Some r \<and> installed r \<noteq> None)"
  using assms
proof (cases rule: settle_cases)
  case (exp res')
  then show ?thesis using exp_changes [OF exp(1)] by (auto split: option.splits if_splits)
next
  case (inst t res')
  then show ?thesis using inst_changes [OF inst(1)] by auto
qed simp

lemma settle_keeps_installed:
  assumes "ensure_settle inst exp ts g q l launched = (res, g')"
    and "view g k = Some r" and "installed r = Some t"
  shows "view g' k = Some r"
proof (cases "k = ml_key l")
  case True
  have nh: "\<not> holds_attempt r l"
    using assms(3) by (auto simp: installed_Some_iff holds_attempt_def)
  from assms(1) show ?thesis
  proof (cases rule: settle_cases)
    case (exp res')
    with exp_changes [OF exp(1)] show ?thesis using nh assms(2) True by simp
  next
    case (inst t' res')
    with inst_changes [OF inst(1)] show ?thesis using assms(2,3) True by auto
  qed (use assms(2) in simp)
qed (use settle_frame [OF assms(1)] assms(2) in simp)

subsubsection \<open>Sequential runs\<close>

lemma ensure_inv:
  assumes "inv g" and "aq_spec q \<in> S" and "ensure acq inst exp launch ts g q = (res, g')"
  shows "inv g'"
proof (cases "ensure_begin acq g q")
  case (Pair out g1)
  have i1: "inv g1" using begin_inv [OF assms(1,2) Pair] .
  show ?thesis
  proof (cases out)
    case (Inl res1)
    then show ?thesis using assms(3) i1 Pair by (simp add: ensure_def)
  next
    case (Inr l)
    then have l: "leased q l (view g1 (aq_key q))"
      using Pair acq_acquired [OF assms(1,2)] by (simp add: begin_launch)
    have "ensure_settle inst exp ts g1 q l (launch l) = (res, g')"
      using assms(3) Inr Pair by (simp add: ensure_def)
    then show ?thesis using settle_inv i1 l by (auto simp: leased_def)
  qed
qed

lemma ensure_Ok:
  assumes "inv g" and "aq_spec q \<in> S" and "ensure acq inst exp launch ts g q = (Ok t, g')"
  shows "\<exists>r. view g' (aq_key q) = Some r \<and> installed r = Some t"
proof (cases "ensure_begin acq g q")
  case (Pair out g1)
  show ?thesis
  proof (cases out)
    case (Inl res1)
    then have "ensure_begin acq g q = (Inl (Ok t), g')" using assms(3) Pair by (simp add: ensure_def)
    from begin_answer [OF assms(1,2) this] show ?thesis by blast
  next
    case (Inr l)
    then have "ml_key l = aq_key q"
      using Pair acq_acquired [OF assms(1,2)] by (simp add: begin_launch leased_def)
    moreover have "ensure_settle inst exp ts g1 q l (launch l) = (Ok t, g')"
      using assms(3) Inr Pair by (simp add: ensure_def)
    ultimately show ?thesis using settle_installed by metis
  qed
qed

lemma ensure_launched:
  assumes "inv g" and "aq_spec q \<in> S" and "acq g q = (Ok (AAcquired l), g1)"
  shows "ensure acq inst exp launch ts g q = ensure_settle inst exp ts g1 q l (launch l)"
    and "inv g1" and "leased q l (view g1 (aq_key q))"
  using assms acq_inv acq_acquired by (simp_all add: ensure_def ensure_begin_def)

lemma ensure_known_no_target:
  assumes "inv g" and "aq_spec q \<in> S" and "acq g q = (Ok (AAcquired l), g1)"
    and "launch l = Err e" and "no_target e" and "\<not> ml_recovery_attempt l"
  shows "\<exists>err g'. ensure acq inst exp launch ts g q = (Err err, g') \<and> inv g' \<and> view g' (aq_key q) = None"
proof -
  note l = ensure_launched [OF assms(1-3)]
  from l(3) have ag: "agrees (view g1 (ml_key l)) l" and k: "ml_key l = aq_key q"
    by (simp_all add: leased_def)
  obtain g' where ex: "exp g1 l (aq_now_ms q) = (Ok (), g')" using exp_ok [OF l(2) ag] by blast
  have "view g' (aq_key q) = None"
    using exp_changes [OF ex] l(3) by (auto simp: leased_def)
  moreover have "inv g'" using exp_inv [OF l(2) ag ex] .
  moreover have "\<exists>err. ensure acq inst exp launch ts g q = (Err err, g')"
    using assms(4,5,6) ex
    by (cases e) (auto simp: l(1) ensure_settle_def expire_then_def)
  ultimately show ?thesis by blast
qed

lemma ensure_retains:
  assumes "inv g" and "aq_spec q \<in> S" and "acq g q = (Ok (AAcquired l), g1)"
    and "launch l = Err e" and "\<not> no_target e \<or> ml_recovery_attempt l"
  shows "\<exists>err r. ensure acq inst exp launch ts g q = (Err err, g1) \<and> view g1 (aq_key q) = Some r
    \<and> holds_attempt r l"
proof -
  note l = ensure_launched [OF assms(1-3)]
  have "\<exists>err. ensure acq inst exp launch ts g q = (Err err, g1)"
    using assms(4,5) by (cases e) (auto simp: l(1) ensure_settle_def)
  then show ?thesis using l(3) by (auto simp: leased_def)
qed

lemma ensure_installs:
  assumes "inv g" and "aq_spec q \<in> S" and "acq g q = (Ok (AAcquired l), g1)"
    and "launch l = Ok t" and "valid_identifier (pt_target_ref t)" and "valid_identifier (pt_generation t)"
  shows "\<exists>it g'. ensure acq inst exp launch ts g q = (Ok it, g') \<and> it_target_ref it = pt_target_ref t
    \<and> it_control_token it = pt_control_token t"
proof -
  note l = ensure_launched [OF assms(1-3)]
  from l(3) obtain r where r: "view g1 (ml_key l) = Some r" "holds_attempt r l"
      "dr_spec_digest r = ml_spec_digest l"
    by (auto simp: leased_def agrees_def)
  from inst_leased [OF l(2) r assms(5,6), of "aq_now_ms q"] show ?thesis
    using assms(4) by (auto simp: l(1) ensure_settle_def)
qed

subsubsection \<open>Interleaved workers\<close>

lemma agrees_other: "ml_attempt_id m \<noteq> ml_attempt_id l \<Longrightarrow> holds_attempt r l \<Longrightarrow> agrees (Some r) m"
  by (auto simp: agrees_def holds_attempt_def split: durable_target_state.splits)

lemma agrees_installed: "installed r \<noteq> None \<Longrightarrow> agrees (Some r) m"
  by (auto simp: agrees_def holds_attempt_def installed_def split: durable_target_state.splits)

lemma settle_agrees:
  assumes "ensure_settle inst exp ts g q l launched = (res, g')" and "agrees (view g (ml_key m)) m"
  shows "agrees (view g' (ml_key m)) m"
proof (cases "ml_key m = ml_key l")
  case True
  from settle_changes [OF assms(1)] show ?thesis
    using assms(2) agrees_installed True by (auto simp: agrees_def)
qed (use settle_frame [OF assms(1)] assms(2) in simp)

lemma worker_keeps_ok: "worker_step acq inst exp S p p' \<Longrightarrow> plane_ok inv view p \<Longrightarrow> plane_ok inv view p'"
proof (induction rule: worker_step.induct)
  case (worker_answers p q res g')
  then have i: "inv (pl_registry p)" by (simp add: plane_ok_def)
  from begin_answer [OF i worker_answers.hyps(2,1)] begin_inv [OF i worker_answers.hyps(2,1)]
  show ?case using worker_answers.prems by (auto simp: plane_ok_def)
next
  case (worker_launches p q l g')
  then have i: "inv (pl_registry p)" by (simp add: plane_ok_def)
  have l: "leased q l (view g' (aq_key q))"
    using acq_acquired [OF i worker_launches.hyps(2)] worker_launches.hyps(1) by (simp add: begin_launch)
  have "agrees (view g' (ml_key m)) m" if m: "(q', m) \<in> pl_inflight p" for q' m
  proof (cases "ml_key m = aq_key q")
    case True
    have "ml_attempt_id m \<noteq> ml_attempt_id l"
      using m worker_launches.prems worker_launches.hyps(3) l by (auto simp: plane_ok_def leased_def)
    moreover from l obtain r where "view g' (aq_key q) = Some r" "holds_attempt r l"
      by (auto simp: leased_def)
    ultimately show ?thesis using True agrees_other [of m l r] by simp
  next
    case False
    then show ?thesis
      using begin_frame [OF i worker_launches.hyps(2,1)] m worker_launches.prems by (auto simp: plane_ok_def)
  qed
  moreover have "inv g'" using begin_inv [OF i worker_launches.hyps(2,1)] .
  ultimately show ?case
    using l worker_launches.prems by (auto simp: plane_ok_def leased_def)
next
  case (worker_settles q l p ts launched res g')
  then have "inv g'" using settle_inv [OF worker_settles.hyps(2)] by (auto simp: plane_ok_def)
  then show ?case
    using settle_agrees [OF worker_settles.hyps(2)] worker_settles.prems by (auto simp: plane_ok_def)
qed

lemma worker_keeps_installed:
  assumes "worker_step acq inst exp S p p'" and "plane_ok inv view p"
    and "view (pl_registry p) k = Some r" and "installed r = Some t"
  shows "view (pl_registry p') k = Some r"
  using assms
proof (induction rule: worker_step.induct)
  case (worker_answers p q res g')
  then show ?case using begin_answer by (auto simp: plane_ok_def)
next
  case (worker_launches p q l g')
  then have i: "inv (pl_registry p)" by (simp add: plane_ok_def)
  have "k \<noteq> aq_key q"
    using acq_acquired [OF i worker_launches.hyps(2)] worker_launches by (auto simp: begin_launch)
  then show ?case using begin_frame [OF i worker_launches.hyps(2,1)] worker_launches.prems by simp
next
  case (worker_settles q l p ts launched res g')
  then show ?case using settle_keeps_installed [OF worker_settles.hyps(2)] by simp
qed

end

end
