(* ===== verification/Memory_Registry.thy ===== *)
theory Memory_Registry
  imports Materializer
begin

section \<open>The in-memory target registry (\<open>materialization/memory.rs\<close>)\<close>

text \<open>
  The conformance implementation of the two registry ports: a map of durable records and the
  memory allocation of the plane. Every operation returns its result with the next registry. The
  two locks are taken for the whole of each operation and are poisoned only by a panic, so lock
  errors are not modelled. The invariant \<open>mem_inv\<close> is the capacity promise of \<open>port.rs\<close>: the
  reserved memory is the sum over the records that still hold a reservation or a target.
\<close>

subsection \<open>State and capacity\<close>

record memory_target_registry =
  mr_records :: "target_key \<rightharpoonup> durable_target_record"
  mr_max_mib :: nat
  mr_reserved_mib :: nat

text \<open>\<open>None\<close> is the failing assertion on a zero capacity.\<close>

definition with_capacity :: "nat \<Rightarrow> memory_target_registry option" where
  "with_capacity max_mib =
     (if max_mib > 0
      then Some \<lparr>mr_records = Map.empty, mr_max_mib = max_mib, mr_reserved_mib = 0\<rparr> else None)"

definition reserve_capacity ::
    "memory_target_registry \<Rightarrow> nat \<Rightarrow> (materialization_error, unit) result \<times> memory_target_registry" where
  "reserve_capacity g mib =
     (if mr_reserved_mib g > saturating_sub (mr_max_mib g) mib
      then (Err (MCapacity ''plane_materialized_memory_mib'' 1000
             (show_nat mib @ '' MiB target exceeds remaining plane allocation'')), g)
      else (Ok (), g\<lparr>mr_reserved_mib := mr_reserved_mib g + mib\<rparr>))"

definition refund_capacity ::
    "memory_target_registry \<Rightarrow> nat \<Rightarrow> (materialization_error, unit) result \<times> memory_target_registry" where
  "refund_capacity g mib =
     (case checked_sub (mr_reserved_mib g) mib of
        None \<Rightarrow> (Err (MCorrupt ''capacity counter underflow''), g)
      | Some n \<Rightarrow> (Ok (), g\<lparr>mr_reserved_mib := n\<rparr>))"

subsection \<open>Reservations\<close>

definition record_from_lease :: "materialization_lease \<Rightarrow> nat \<Rightarrow> durable_target_record" where
  "record_from_lease l now =
     \<lparr>dr_key = ml_key l, dr_spec = ml_spec l, dr_spec_digest = ml_spec_digest l,
      dr_generation = ml_generation l,
      dr_state = Materializing (ml_reservation_id l) (ml_launch_request l) (ml_attempt_id l)
        (ml_attempt_expires_at_ms l) (ml_target_expires_at_ms l) (ml_lease_expires_at_ms l),
      dr_updated_at_ms = now\<rparr>"

text \<open>The record is changed in place before the checks that may fail, so it is returned with them.\<close>

definition take_materialization_attempt ::
    "spec_digest_fn \<Rightarrow> durable_target_record \<Rightarrow> acquire_target
      \<Rightarrow> (materialization_error, materialization_lease) result \<times> durable_target_record" where
  "take_materialization_attempt dg r q =
     (case dr_state r of
        Materializing rid lr aid aexp texp lexp \<Rightarrow>
          (case checked_add (aq_now_ms q) (aq_attempt_duration_ms q) of
             None \<Rightarrow> (Err MInvalidLease,
                      r\<lparr>dr_state := Materializing rid lr (aq_attempt_id q) aexp texp lexp\<rparr>)
           | Some e \<Rightarrow>
               (let r' = r\<lparr>dr_state := Materializing rid lr (aq_attempt_id q) (min e lexp) texp lexp,
                           dr_updated_at_ms := aq_now_ms q\<rparr>
                in (and_then (record_validate dg r') (\<lambda>_. lease_from_materializing_record r'), r')))
      | _ \<Rightarrow> (Err (MCorrupt ''expected materializing target''), r))"

definition put_record ::
    "memory_target_registry \<Rightarrow> target_key \<Rightarrow> durable_target_record \<Rightarrow> memory_target_registry" where
  "put_record g k r = g\<lparr>mr_records := (mr_records g)(k \<mapsto> r)\<rparr>"

text \<open>The branches of \<open>acquire\<close> on the state of an existing record.\<close>

definition acquire_existing ::
    "spec_digest_fn \<Rightarrow> memory_target_registry \<Rightarrow> acquire_target \<Rightarrow> materialization_lease
      \<Rightarrow> durable_target_record
      \<Rightarrow> (materialization_error, acquire_outcome) result \<times> memory_target_registry" where
  "acquire_existing dg g q l r =
     (case dr_state r of
        Installed tref ct iat exp \<Rightarrow> (Ok (AInstalled (the (installed r))), g)
      | Materializing rid lr aid aexp texp lexp \<Rightarrow>
          (if lexp \<le> aq_now_ms q
           then (Ok (AAcquired l), put_record g (aq_key q) (record_from_lease l (aq_now_ms q)))
           else if texp \<le> aq_now_ms q
           then (Ok (APending (dr_generation r) (materialization_poll_after lexp (aq_now_ms q))), g)
           else if aexp > aq_now_ms q
           then (Ok (APending (dr_generation r) (materialization_poll_after aexp (aq_now_ms q))), g)
           else (case take_materialization_attempt dg r q of
                   (Err e, r') \<Rightarrow> (Err e, put_record g (aq_key q) r')
                 | (Ok l', r') \<Rightarrow> (Ok (AAcquired l'), put_record g (aq_key q) r')))
      | Closed Lost reason at \<Rightarrow>
          (if aq_replace_after_loss q
           then (case reserve_capacity g (ts_materialized_mib (ml_spec l)) of
                   (Err e, g') \<Rightarrow> (Err e, g')
                 | (Ok _, g') \<Rightarrow>
                     (Ok (AAcquired l), put_record g' (aq_key q) (record_from_lease l (aq_now_ms q))))
           else (Ok AGone, g))
      | Closed Terminated reason at \<Rightarrow> (Ok ATerminated, g))"

fun closed_lost :: "durable_target_state \<Rightarrow> bool" where
  "closed_lost (Closed Lost reason at) = True"
| "closed_lost _ = False"

definition acquire ::
    "spec_digest_fn \<Rightarrow> memory_target_registry \<Rightarrow> acquire_target
      \<Rightarrow> (materialization_error, acquire_outcome) result \<times> memory_target_registry" where
  "acquire dg g q =
     (case acquire_lease dg q of
        Err e \<Rightarrow> (Err e, g)
      | Ok l \<Rightarrow>
          (case mr_records g (aq_key q) of
             None \<Rightarrow>
               (case reserve_capacity g (ts_materialized_mib (ml_spec l)) of
                  (Err e, g') \<Rightarrow> (Err e, g')
                | (Ok _, g') \<Rightarrow>
                    (Ok (AAcquired l), put_record g' (aq_key q) (record_from_lease l (aq_now_ms q))))
           | Some r \<Rightarrow>
               (case record_validate dg r of
                  Err e \<Rightarrow> (Err e, g)
                | Ok _ \<Rightarrow>
                    if dr_spec_digest r \<noteq> ml_spec_digest l then (Err MSpecConflict, g)
                    else if aq_generation_is_fenced q \<and> dr_generation r \<noteq> ml_generation l
                            \<and> \<not> (aq_replace_after_loss q \<and> closed_lost (dr_state r))
                    then (Err MSpecConflict, g)
                    else acquire_existing dg g q l r)))"

text \<open>The branches of \<open>install\<close> on the state of a record with the lease's digest and generation.\<close>

definition install_existing ::
    "memory_target_registry \<Rightarrow> materialization_lease \<Rightarrow> physical_target \<Rightarrow> nat \<Rightarrow> durable_target_record
      \<Rightarrow> (materialization_error, install_outcome) result \<times> memory_target_registry" where
  "install_existing g l t now r =
     (case dr_state r of
        Materializing rid lr aid aexp texp lexp \<Rightarrow>
          (if rid = ml_reservation_id l
           then (let r' = r\<lparr>dr_state := Installed (pt_target_ref t) (pt_control_token t)
                              now (ml_target_expires_at_ms l),
                            dr_generation := pt_generation t,
                            dr_updated_at_ms := now\<rparr>
                 in (Ok (IInstalled (the (installed r'))), put_record g (ml_key l) r'))
           else (Ok IReservationLost, g))
      | Installed tref ct iat exp \<Rightarrow>
          (if tref = pt_target_ref t \<and> ct = pt_control_token t \<and> dr_generation r = pt_generation t
           then (Ok (IInstalled (the (installed r))), g)
           else (Ok IReservationLost, g))
      | _ \<Rightarrow> (Ok IReservationLost, g))"

definition install ::
    "memory_target_registry \<Rightarrow> materialization_lease \<Rightarrow> physical_target \<Rightarrow> nat
      \<Rightarrow> (materialization_error, install_outcome) result \<times> memory_target_registry" where
  "install g l t now =
     (case and_then (mat_validate_identifier (pt_target_ref t) ''target_ref'')
             (\<lambda>_. mat_validate_identifier (pt_generation t) ''generation'') of
        Err e \<Rightarrow> (Err e, g)
      | Ok _ \<Rightarrow>
          (case mr_records g (ml_key l) of
             None \<Rightarrow> (Ok IReservationLost, g)
           | Some r \<Rightarrow>
               if dr_spec_digest r \<noteq> ml_spec_digest l \<or> dr_generation r \<noteq> ml_generation l
               then (Ok IReservationLost, g)
               else install_existing g l t now r))"

definition expire_lease ::
    "memory_target_registry \<Rightarrow> materialization_lease \<Rightarrow> nat
      \<Rightarrow> (materialization_error, unit) result \<times> memory_target_registry" where
  "expire_lease g l now =
     (if (case mr_records g (ml_key l) of None \<Rightarrow> False | Some r \<Rightarrow> holds_attempt r l)
      then refund_capacity (g\<lparr>mr_records := (mr_records g)(ml_key l := None)\<rparr>)
             (ts_materialized_mib (ml_spec l))
      else (Ok (), g))"

subsection \<open>The directory\<close>

definition get_record ::
    "memory_target_registry \<Rightarrow> target_key
      \<Rightarrow> (materialization_error, durable_target_record option) result" where
  "get_record g k = and_then (key_validate k) (\<lambda>_. Ok (mr_records g k))"

definition holds_target :: "durable_target_record \<Rightarrow> installed_target \<Rightarrow> bool" where
  "holds_target r t \<longleftrightarrow>
     (case dr_state r of Installed tref ct iat exp \<Rightarrow> tref = it_target_ref t | _ \<Rightarrow> False)
     \<and> dr_generation r = it_generation t"

definition transition_installed ::
    "(target_key \<rightharpoonup> durable_target_record) \<Rightarrow> installed_target
      \<Rightarrow> (durable_target_record \<Rightarrow> durable_target_record)
      \<Rightarrow> (materialization_error, unit) result \<times> (target_key \<rightharpoonup> durable_target_record)" where
  "transition_installed records t transition =
     (case records (it_key t) of
        None \<Rightarrow> (Err (MReservationLost None), records)
      | Some r \<Rightarrow>
          if holds_target r t then (Ok (), records(it_key t \<mapsto> transition r))
          else (case dr_state r of Closed d reason at \<Rightarrow> (Ok (), records)
                | _ \<Rightarrow> (Err (MReservationLost None), records)))"

definition mark_closed ::
    "memory_target_registry \<Rightarrow> installed_target \<Rightarrow> disposition \<Rightarrow> string \<Rightarrow> nat
      \<Rightarrow> (materialization_error, unit) result \<times> memory_target_registry" where
  "mark_closed g t d reason now =
     (case validate_reason reason of
        Err e \<Rightarrow> (Err e, g)
      | Ok _ \<Rightarrow>
          (let was_installed =
                 (case mr_records g (it_key t) of None \<Rightarrow> False | Some r \<Rightarrow> holds_target r t)
           in case transition_installed (mr_records g) t
                     (\<lambda>r. r\<lparr>dr_state := Closed d reason now, dr_updated_at_ms := now\<rparr>) of
                (Err e, records) \<Rightarrow> (Err e, g\<lparr>mr_records := records\<rparr>)
              | (Ok _, records) \<Rightarrow>
                  if was_installed
                  then refund_capacity (g\<lparr>mr_records := records\<rparr>) (ts_materialized_mib (it_spec t))
                  else (Ok (), g\<lparr>mr_records := records\<rparr>)))"

text \<open>
  The values of the ordered map that belong to one root, in the order of their keys. \<open>None\<close> in
  the second component is the panic of \<open>page\<close> on a limit of zero, which the clamp excludes.
\<close>

definition root_records :: "memory_target_registry \<Rightarrow> string \<Rightarrow> durable_target_record list" where
  "root_records g root =
     map (\<lambda>tk. the (mr_records g \<lparr>tk_root_id = root, tk_target_key = tk\<rparr>))
       (sorted_list_of_set (tk_target_key ` Set.filter (\<lambda>k. tk_root_id k = root) (dom (mr_records g))))"

definition record_cursor :: "durable_target_record \<Rightarrow> string" where
  "record_cursor r = tk_target_key (dr_key r)"

definition list_root ::
    "memory_target_registry \<Rightarrow> string \<Rightarrow> string option \<Rightarrow> nat
      \<Rightarrow> (materialization_error, durable_target_record page_result option) result" where
  "list_root g root cursor limit =
     and_then (mat_validate_identifier root ''root_id'')
       (\<lambda>_. Ok (fetch_page record_cursor (root_records g root) cursor (clamp 1 MAX_PAGE limit)))"

text \<open>
  \<open>purge_terminal\<close>, with which the purge of a root ends. Only the DynamoDB registry of \<open>hand-brain-aws\<close> has it: a
  conditional delete of the row of a closed generation, which leaves the account alone. This is what it
  does to the records; \<open>purge_row_refines_memory\<close> in \<open>Dynamo_Rows\<close> ties the two.
\<close>

definition purge_row :: "memory_target_registry \<Rightarrow> target_key \<Rightarrow> string \<Rightarrow> memory_target_registry" where
  "purge_row g k gen =
     (case mr_records g k of
        None \<Rightarrow> g
      | Some r \<Rightarrow>
          (case dr_state r of
             Closed d reason at \<Rightarrow> if dr_generation r = gen then g\<lparr>mr_records := (mr_records g)(k := None)\<rparr> else g
           | _ \<Rightarrow> g))"

subsection \<open>The capacity invariant\<close>

definition charge :: "durable_target_record \<Rightarrow> nat" where
  "charge r = (case dr_state r of Closed d reason at \<Rightarrow> 0 | _ \<Rightarrow> ts_materialized_mib (dr_spec r))"

text \<open>
  On the specs \<open>S\<close> in use the digest does not collide and prints as 64 lower-case hexadecimal
  digits, as SHA-256 does.
\<close>

definition digest_ok :: "spec_digest_fn \<Rightarrow> target_spec set \<Rightarrow> bool" where
  "digest_ok dg S \<longleftrightarrow> inj_on dg S \<and> (\<forall>s\<in>S. valid_digest (dg s))"

text \<open>
  A record that is stored. Every one passes \<open>validate\<close>, except that \<open>install\<close> does not compare the clock with the
  expiry of the target: an installation after the expiry is stored all the same, with an \<open>installed_at\<close> behind
  its \<open>expires_at\<close>, and no longer validates. \<open>timely\<close> says that there was no such installation.
\<close>

fun state_sound :: "bool \<Rightarrow> nat \<Rightarrow> durable_target_state \<Rightarrow> bool" where
  "state_sound timely u (Installed tref ct iat ex) \<longleftrightarrow> valid_identifier tref \<and> 0 < ex \<and> (timely \<longrightarrow> iat \<le> ex)"
| "state_sound timely u st \<longleftrightarrow> state_ok u st"

definition record_sound :: "bool \<Rightarrow> spec_digest_fn \<Rightarrow> durable_target_record \<Rightarrow> bool" where
  "record_sound timely dg r \<longleftrightarrow>
     valid_key (dr_key r) \<and> valid_digest (dr_spec_digest r) \<and> dg (dr_spec r) = dr_spec_digest r
     \<and> valid_identifier (dr_generation r) \<and> state_sound timely (dr_updated_at_ms r) (dr_state r)"

lemma record_sound_ok:
  "record_sound True dg r = record_ok dg r" "record_ok dg r \<Longrightarrow> record_sound timely dg r"
  "record_sound timely dg r \<Longrightarrow> dr_state r = Materializing rid lr aid aexp texp lexp \<Longrightarrow> record_ok dg r"
  "record_sound timely dg r \<Longrightarrow> dr_state r = Closed d reason at \<Longrightarrow> record_ok dg r"
  by (cases "dr_state r"; auto simp: record_sound_def record_ok_def)+

definition registry_inv :: "bool \<Rightarrow> spec_digest_fn \<Rightarrow> target_spec set \<Rightarrow> memory_target_registry \<Rightarrow> bool" where
  "registry_inv timely dg S g \<longleftrightarrow>
     finite (dom (mr_records g)) \<and> mr_reserved_mib g = account charge (mr_records g)
     \<and> (\<forall>k r. mr_records g k = Some r \<longrightarrow> dr_key r = k \<and> dr_spec r \<in> S \<and> record_sound timely dg r)"

abbreviation mem_inv :: "spec_digest_fn \<Rightarrow> target_spec set \<Rightarrow> memory_target_registry \<Rightarrow> bool" where
  "mem_inv \<equiv> registry_inv True"

lemmas mem_inv_def = registry_inv_def [of True, unfolded record_sound_ok(1)]

lemma registry_inv_record:
  "registry_inv timely dg S g \<Longrightarrow> mr_records g k = Some r \<Longrightarrow> dr_key r = k \<and> dr_spec r \<in> S \<and> record_sound timely dg r"
  by (simp add: registry_inv_def)

lemma mem_inv_record:
  "mem_inv dg S g \<Longrightarrow> mr_records g k = Some r \<Longrightarrow> dr_key r = k \<and> dr_spec r \<in> S \<and> record_ok dg r"
  by (simp add: mem_inv_def)

lemma charge_simps [simp]:
  "dr_state r = Materializing rid lr aid aexp texp lexp \<Longrightarrow> charge r = ts_materialized_mib (dr_spec r)"
  "dr_state r = Installed tref ct iat ex \<Longrightarrow> charge r = ts_materialized_mib (dr_spec r)"
  "dr_state r = Closed d reason at \<Longrightarrow> charge r = 0"
  by (simp_all add: charge_def)

text \<open>The three ways a record changes: created or revived with a charge, kept, released.\<close>

lemma put_charged:
  assumes "registry_inv timely dg S g" and "case mr_records g k of None \<Rightarrow> True | Some r \<Rightarrow> charge r = 0"
    and "dr_key r' = k" and "dr_spec r' \<in> S" and "record_sound timely dg r'"
  shows "registry_inv timely dg S (put_record (g\<lparr>mr_reserved_mib := mr_reserved_mib g + charge r'\<rparr>) k r')"
  using assms account_new [of "mr_records g" k charge r'] account_upd [of "mr_records g" k _ charge r']
  by (fastforce simp: registry_inv_def put_record_def split: option.splits)

lemma put_kept:
  assumes "registry_inv timely dg S g" and "mr_records g k = Some r" and "charge r' = charge r"
    and "dr_key r' = k" and "dr_spec r' \<in> S" and "record_sound timely dg r'"
  shows "registry_inv timely dg S (put_record g k r')"
  using assms account_upd [of "mr_records g" k r charge r'] by (auto simp: registry_inv_def put_record_def)

lemma release_refunded:
  assumes "registry_inv timely dg S g" and "mr_records g k = Some r" and "charge r = mib"
  shows "refund_capacity (g\<lparr>mr_records := (mr_records g)(k := None)\<rparr>) mib =
      (Ok (), g\<lparr>mr_records := (mr_records g)(k := None), mr_reserved_mib := mr_reserved_mib g - mib\<rparr>)"
    and "registry_inv timely dg S
      (g\<lparr>mr_records := (mr_records g)(k := None), mr_reserved_mib := mr_reserved_mib g - mib\<rparr>)"
  using assms account_ge [of "mr_records g" k r charge] account_remove [of "mr_records g" k r charge]
  by (auto simp: registry_inv_def refund_capacity_def checked_sub_def)

lemma close_refunded:
  assumes "registry_inv timely dg S g" and "mr_records g k = Some r" and "charge r = mib" and "charge r' = 0"
    and "dr_key r' = k" and "dr_spec r' \<in> S" and "record_sound timely dg r'"
  shows "refund_capacity (g\<lparr>mr_records := (mr_records g)(k \<mapsto> r')\<rparr>) mib =
      (Ok (), g\<lparr>mr_records := (mr_records g)(k \<mapsto> r'), mr_reserved_mib := mr_reserved_mib g - mib\<rparr>)"
    and "registry_inv timely dg S
      (g\<lparr>mr_records := (mr_records g)(k \<mapsto> r'), mr_reserved_mib := mr_reserved_mib g - mib\<rparr>)"
  using assms account_ge [of "mr_records g" k r charge] account_upd [of "mr_records g" k r charge r']
  by (auto simp: registry_inv_def refund_capacity_def checked_sub_def)

lemma record_from_lease_simps [simp]:
  "dr_key (record_from_lease l n) = ml_key l"
  "dr_spec (record_from_lease l n) = ml_spec l"
  "dr_spec_digest (record_from_lease l n) = ml_spec_digest l"
  "dr_generation (record_from_lease l n) = ml_generation l"
  "dr_updated_at_ms (record_from_lease l n) = n"
  "charge (record_from_lease l n) = ts_materialized_mib (ml_spec l)"
  "installed (record_from_lease l n) = None"
  "holds_attempt (record_from_lease l n) l"
  by (simp_all add: record_from_lease_def charge_def installed_def holds_attempt_def)

lemma leased_record:
  assumes "acquire_lease dg q = Ok l" and "digest_ok dg S" and "aq_spec q \<in> S"
  shows "record_ok dg (record_from_lease l (aq_now_ms q))" and "ml_key l = aq_key q"
    and "ml_spec l = aq_spec q" and "ml_spec_digest l = dg (aq_spec q)"
    and "leased q l (Some (record_from_lease l (aq_now_ms q)))"
  using assms
  by (auto simp: acquire_lease_Ok acquire_ok_def record_ok_def record_from_lease_def digest_ok_def
      leased_def agrees_def holds_attempt_def)

text \<open>A recovery attempt keeps the reservation and its charge and replaces the attempt.\<close>

lemma take_attempt_Ok:
  assumes "acquire_lease dg q = Ok l" and "record_ok dg r"
    and "dr_state r = Materializing rid lr aid aexp texp lexp" and "aq_now_ms q < texp" and "dr_key r = aq_key q"
  shows "\<exists>l' r'. take_materialization_attempt dg r q = (Ok l', r') \<and> record_ok dg r'
    \<and> dr_key r' = dr_key r \<and> dr_spec r' = dr_spec r \<and> charge r' = charge r
    \<and> leased q l' (Some r') \<and> ml_recovery_attempt l'"
proof -
  define r' where "r' = r\<lparr>dr_state := Materializing rid lr (aq_attempt_id q)
    (min (aq_now_ms q + aq_attempt_duration_ms q) lexp) texp lexp, dr_updated_at_ms := aq_now_ms q\<rparr>"
  have b: "aq_now_ms q + aq_attempt_duration_ms q \<le> U64_MAX" "0 < aq_attempt_duration_ms q"
      "valid_identifier (aq_attempt_id q)"
    using assms(1) by (auto simp: acquire_lease_Ok acquire_ok_def)
  have ok: "record_ok dg r'"
    using assms(2,3,4) b by (auto simp: record_ok_def r'_def)
  then have "record_validate dg r' = Ok ()" by (simp add: record_validate_Ok)
  moreover have st: "dr_state r' = Materializing rid lr (aq_attempt_id q)
      (min (aq_now_ms q + aq_attempt_duration_ms q) lexp) texp lexp"
    by (simp add: r'_def)
  ultimately have "take_materialization_attempt dg r q =
      (lease_from_materializing_record r', r')"
    using b by (simp add: take_materialization_attempt_def assms(3) checked_add_def r'_def [symmetric] Let_def)
  moreover have "dr_key r' = dr_key r" "dr_spec r' = dr_spec r" by (simp_all add: r'_def)
  ultimately show ?thesis using ok st assms(3,4,5)
    by (auto simp: lease_from_materializing_record_def leased_def agrees_def holds_attempt_def)
qed

subsection \<open>What each operation does to the records\<close>

definition holds_charge :: "memory_target_registry \<Rightarrow> target_key \<Rightarrow> bool" where
  "holds_charge g k \<longleftrightarrow> (case mr_records g k of None \<Rightarrow> False | Some r \<Rightarrow> \<not> (\<exists>d reason at. dr_state r = Closed d reason at))"

lemma reserve_capacity_cases:
  "reserve_capacity g mib = (res, g') \<Longrightarrow>
     (\<exists>e. res = Err e) \<and> g' = g \<or>
     res = Ok () \<and> g' = g\<lparr>mr_reserved_mib := mr_reserved_mib g + mib\<rparr>
       \<and> mr_reserved_mib g \<le> mr_max_mib g - mib"
  by (auto simp: reserve_capacity_def split: if_splits)

lemma acquire_existing_cases:
  assumes "acquire_existing dg g q l r = (res, g')" and "acquire_lease dg q = Ok l"
    and "mr_records g (aq_key q) = Some r" and "record_ok dg r" and "dr_key r = aq_key q"
  obtains (refused) "g' = g" "\<forall>l. res \<noteq> Ok (AAcquired l)"
      "\<forall>t. res = Ok (AInstalled t) \<longrightarrow> installed r = Some t"
  | (charged) "res = Ok (AAcquired l)" "\<not> holds_charge g (aq_key q)"
      "mr_reserved_mib g \<le> mr_max_mib g - ts_materialized_mib (ml_spec l)"
      "g' = put_record (g\<lparr>mr_reserved_mib := mr_reserved_mib g + ts_materialized_mib (ml_spec l)\<rparr>)
        (aq_key q) (record_from_lease l (aq_now_ms q))"
  | (reused) rid lr aid aexp texp lexp where "res = Ok (AAcquired l)"
      "dr_state r = Materializing rid lr aid aexp texp lexp"
      "g' = put_record g (aq_key q) (record_from_lease l (aq_now_ms q))"
  | (recovered) l' r' rid lr aid aexp texp lexp where "res = Ok (AAcquired l')"
      "dr_state r = Materializing rid lr aid aexp texp lexp"
      "g' = put_record g (aq_key q) r'" "leased q l' (Some r')" "record_ok dg r'" "dr_key r' = dr_key r"
      "dr_spec r' = dr_spec r" "charge r' = charge r"
proof (cases "dr_state r")
  case (Materializing rid lr aid aexp texp lexp)
  consider "lexp \<le> aq_now_ms q" | "aq_now_ms q < lexp" "texp \<le> aq_now_ms q \<or> aexp > aq_now_ms q"
    | "aq_now_ms q < lexp" "aq_now_ms q < texp" "aexp \<le> aq_now_ms q"
    by linarith
  then show thesis
  proof cases
    case 1
    then show thesis using assms(1) Materializing by (intro reused) (auto simp: acquire_existing_def)
  next
    case 2
    then show thesis using assms(1) Materializing
      by (intro refused) (auto simp: acquire_existing_def split: if_splits)
  next
    case 3
    from take_attempt_Ok [OF assms(2,4) Materializing 3(2) assms(5)]
    show thesis using assms(1) Materializing 3
      by (auto simp: acquire_existing_def intro: recovered)
  qed
next
  case (Installed tref ct iat ex)
  then show thesis using assms(1) by (intro refused) (auto simp: acquire_existing_def installed_def)
next
  case (Closed d reason at)
  show thesis
  proof (cases "d = Lost \<and> aq_replace_after_loss q")
    case True
    then show thesis
      using assms(1,3) Closed
        reserve_capacity_cases [of g "ts_materialized_mib (ml_spec l)"]
      by (cases "reserve_capacity g (ts_materialized_mib (ml_spec l))")
        (auto simp: acquire_existing_def holds_charge_def
          split: sum.splits intro: refused charged)
  next
    case False
    then show thesis using assms(1) Closed
      by (intro refused) (auto simp: acquire_existing_def split: disposition.splits)
  qed
qed

lemma not_holds_charge:
  "\<not> holds_charge g k \<longleftrightarrow>
     (case mr_records g k of None \<Rightarrow> True | Some r \<Rightarrow> (\<exists>d reason at. dr_state r = Closed d reason at))"
  by (auto simp: holds_charge_def split: option.splits)

lemma acquire_cases:
  assumes "acquire dg g q = (res, g')" and "registry_inv timely dg S g" and "digest_ok dg S" and "aq_spec q \<in> S"
  obtains (refused) "g' = g" "\<forall>l. res \<noteq> Ok (AAcquired l)"
      "\<forall>t. res = Ok (AInstalled t) \<longrightarrow> (\<exists>r. mr_records g (aq_key q) = Some r \<and> installed r = Some t)"
  | (charged) l where "acquire_lease dg q = Ok l" "res = Ok (AAcquired l)" "\<not> holds_charge g (aq_key q)"
      "mr_reserved_mib g \<le> mr_max_mib g - ts_materialized_mib (ml_spec l)"
      "g' = put_record (g\<lparr>mr_reserved_mib := mr_reserved_mib g + ts_materialized_mib (ml_spec l)\<rparr>)
        (aq_key q) (record_from_lease l (aq_now_ms q))"
  | (kept) l r r' rid lr aid aexp texp lexp where "res = Ok (AAcquired l)"
      "mr_records g (aq_key q) = Some r" "dr_state r = Materializing rid lr aid aexp texp lexp"
      "g' = put_record g (aq_key q) r'" "leased q l (Some r')" "record_ok dg r'" "dr_key r' = aq_key q"
      "dr_spec r' = dr_spec r" "charge r' = charge r"
proof (cases "acquire_lease dg q")
  case (Inl e)
  then show thesis using assms(1) by (intro refused) (auto simp: acquire_def)
next
  case (Inr l)
  note l = leased_record [OF Inr assms(3,4)]
  show thesis
  proof (cases "mr_records g (aq_key q)")
    case None
    then show thesis
      using assms(1) Inr reserve_capacity_cases [of g "ts_materialized_mib (ml_spec l)"]
      by (cases "reserve_capacity g (ts_materialized_mib (ml_spec l))")
        (auto simp: acquire_def holds_charge_def split: sum.splits intro: refused charged)
  next
    case (Some r)
    from registry_inv_record [OF assms(2) this] have r: "dr_key r = aq_key q" "dr_spec r \<in> S"
      by simp_all
    show thesis
    proof (cases "record_ok dg r")
      case False
      then have "record_validate dg r \<noteq> Ok ()" by (simp add: record_validate_Ok)
      then have "g' = g \<and> (\<exists>e. res = Err e)"
        using assms(1) Inr Some by (cases "record_validate dg r") (auto simp: acquire_def)
      then show thesis by (intro refused) auto
    next
      case ok: True
      then have v: "record_validate dg r = Ok ()" by (simp add: record_validate_Ok)
      have "acquire dg g q =
          (if dr_spec_digest r \<noteq> ml_spec_digest l then (Err MSpecConflict, g)
           else if aq_generation_is_fenced q \<and> dr_generation r \<noteq> ml_generation l
                   \<and> \<not> (aq_replace_after_loss q \<and> closed_lost (dr_state r))
           then (Err MSpecConflict, g) else acquire_existing dg g q l r)"
        by (simp add: acquire_def Inr Some v del: if_split)
      then consider "dr_spec_digest r = ml_spec_digest l" "acquire_existing dg g q l r = (res, g')"
        | "g' = g" "res = Err MSpecConflict"
        using assms(1) by (simp split: if_splits)
      then show thesis
      proof cases
        case 1
        have sp: "dr_spec r = ml_spec l"
          using 1(1) r ok assms(3,4) l(3,4) by (auto simp: digest_ok_def record_ok_def inj_on_eq_iff)
        from 1(2) Inr Some ok r(1) show thesis
        proof (cases rule: acquire_existing_cases)
          case (reused rid lr aid aexp texp lexp)
          show thesis
            by (rule kept [OF reused(1) Some reused(2,3)]) (use sp l reused(2) in simp_all)
        next
          case acq: refused
          show thesis by (rule refused [OF acq(1,2)]) (use acq(3) Some in simp)
        next
          case acq: charged
          show thesis by (rule charged [OF Inr acq])
        next
          case (recovered l' r' rid lr aid aexp texp lexp)
          show thesis
            by (rule kept [OF recovered(1) Some recovered(2,3,4,5)]) (use recovered r in simp_all)
        qed
      next
        case 2
        then show thesis by (intro refused) simp_all
      qed
    qed
  qed
qed

lemma acquire_inv:
  assumes "acquire dg g q = (res, g')" and "registry_inv timely dg S g" and "digest_ok dg S" and "aq_spec q \<in> S"
  shows "registry_inv timely dg S g'"
  using assms
proof (cases rule: acquire_cases)
  case refused
  then show ?thesis using assms(2) by simp
next
  case (charged l)
  note l = leased_record [OF charged(1) assms(3,4)]
  have "case mr_records g (aq_key q) of None \<Rightarrow> True | Some r \<Rightarrow> charge r = 0"
    using charged(3) by (auto simp: not_holds_charge split: option.splits)
  from put_charged [OF assms(2) this, of "record_from_lease l (aq_now_ms q)"] show ?thesis
    using charged l assms(4) by (simp add: record_sound_ok(2))
next
  case (kept l r r')
  with registry_inv_record [OF assms(2) kept(2)] show ?thesis
    using put_kept [OF assms(2) kept(2), of r'] by (simp add: record_sound_ok(2))
qed

lemma acquire_leased:
  assumes "acquire dg g q = (Ok (AAcquired l), g')" and "registry_inv timely dg S g" and "digest_ok dg S" and "aq_spec q \<in> S"
  shows "leased q l (mr_records g' (aq_key q)) \<and> (\<forall>r. mr_records g (aq_key q) = Some r \<longrightarrow> installed r = None)"
  using assms
proof (cases rule: acquire_cases)
  case (charged l')
  then have [simp]: "l' = l" by simp
  from leased_record(5) [OF charged(1) assms(3,4)] charged show ?thesis
    by (auto simp: not_holds_charge put_record_def installed_def split: option.splits)
next
  case (kept l' r r')
  then show ?thesis by (auto simp: put_record_def installed_def)
qed simp

lemma acquire_frame:
  assumes "acquire dg g q = (res, g')" and "registry_inv timely dg S g" and "digest_ok dg S" and "aq_spec q \<in> S"
    and "k \<noteq> aq_key q"
  shows "mr_records g' k = mr_records g k"
  using assms(1-4) by (cases rule: acquire_cases) (use assms(5) in \<open>simp_all add: put_record_def\<close>)

lemma acquire_refused:
  assumes "acquire dg g q = (res, g')" and "registry_inv timely dg S g" and "digest_ok dg S" and "aq_spec q \<in> S"
    and "\<forall>l. res \<noteq> Ok (AAcquired l)"
  shows "g' = g" and "res = Ok (AInstalled t) \<Longrightarrow>
    \<exists>r. mr_records g (aq_key q) = Some r \<and> installed r = Some t"
  using assms(1-4) by (cases rule: acquire_cases; use assms(5) in simp)+

lemma install_cases:
  assumes "install g l t now = (res, g')"
  obtains (refused) "g' = g" "\<forall>it. res \<noteq> Ok (IInstalled it)"
  | (again) r it where "g' = g" "mr_records g (ml_key l) = Some r" "installed r = Some it" "res = Ok (IInstalled it)"
  | (placed) r r' rid lr aid aexp texp lexp where "mr_records g (ml_key l) = Some r"
      "dr_state r = Materializing rid lr aid aexp texp lexp" "rid = ml_reservation_id l"
      "r' = r\<lparr>dr_state := Installed (pt_target_ref t) (pt_control_token t) now (ml_target_expires_at_ms l),
        dr_generation := pt_generation t, dr_updated_at_ms := now\<rparr>"
      "valid_identifier (pt_target_ref t)" "valid_identifier (pt_generation t)"
      "g' = put_record g (ml_key l) r'" "res = Ok (IInstalled (the (installed r')))"
proof (cases "valid_identifier (pt_target_ref t) \<and> valid_identifier (pt_generation t) \<and>
    (\<exists>r. mr_records g (ml_key l) = Some r \<and> dr_spec_digest r = ml_spec_digest l
      \<and> dr_generation r = ml_generation l)")
  case False
  then have "g' = g \<and> (\<forall>it. res \<noteq> Ok (IInstalled it))"
    using assms by (cases "mr_records g (ml_key l)") (auto simp: install_def mat_validate_eq split: if_splits)
  then show thesis by (intro refused) simp_all
next
  case True
  then obtain r where r: "mr_records g (ml_key l) = Some r" "dr_spec_digest r = ml_spec_digest l"
      "dr_generation r = ml_generation l" by blast
  have step: "install_existing g l t now r = (res, g')"
    using assms True r by (simp add: install_def mat_validate_eq)
  show thesis
  proof (cases "dr_state r")
    case (Materializing rid lr aid aexp texp lexp)
    show thesis
    proof (cases "rid = ml_reservation_id l")
      case eq: True
      show thesis
        by (rule placed [OF r(1) Materializing eq]) (use step Materializing eq True in \<open>auto simp: install_existing_def Let_def\<close>)
    qed (use step Materializing in \<open>auto simp: install_existing_def intro: refused\<close>)
  next
    case (Installed tref ct iat ex)
    then have "installed r = Some (the (installed r))" by (simp add: installed_def)
    note ir = this
    show thesis
    proof (cases "tref = pt_target_ref t \<and> ct = pt_control_token t \<and> dr_generation r = pt_generation t")
      case True
      show thesis
        by (rule again [OF _ r(1) ir]) (use step Installed True in \<open>simp_all add: install_existing_def\<close>)
    next
      case False
      have "(Ok IReservationLost, g) = (res, g')"
        using step Installed False by (simp add: install_existing_def)
      then show thesis by (intro refused) auto
    qed
  next
    case (Closed d reason at)
    then show thesis using step by (intro refused) (auto simp: install_existing_def)
  qed
qed

lemma install_inv:
  assumes "install g l t now = (res, g')" and "registry_inv timely dg S g"
    and "timely \<Longrightarrow> now \<le> ml_target_expires_at_ms l" and "0 < ml_target_expires_at_ms l"
  shows "registry_inv timely dg S g'"
  using assms(1)
proof (cases rule: install_cases)
  case (placed r r')
  with registry_inv_record [OF assms(2) placed(1)] show ?thesis
    using assms(3,4) put_kept [OF assms(2) placed(1), of r'] by (auto simp: record_sound_def)
qed (use assms(2) in simp_all)

text \<open>An installation after the expiry of the target succeeds and leaves a record that does not validate.\<close>

lemma late_install_is_invalid:
  assumes "install g l t now = (Ok (IInstalled it), g')" and "mr_records g (ml_key l) = Some r"
    and "dr_state r = Materializing rid lr aid aexp texp lexp" and "ml_target_expires_at_ms l < now"
  shows "\<exists>r'. mr_records g' (ml_key l) = Some r' \<and> installed r' = Some it \<and> record_validate dg r' \<noteq> Ok ()"
  using assms(1)
proof (cases rule: install_cases)
  case (placed r0 r')
  then have "\<not> record_ok dg r'" using assms(4) by (simp add: record_ok_def)
  then show ?thesis using placed by (auto simp: put_record_def record_validate_Ok installed_def)
next
  case (again r0 it')
  then show ?thesis using assms(2,3) by (simp add: installed_def)
qed simp

lemma install_leased:
  assumes "mr_records g (ml_key l) = Some r" and "holds_attempt r l"
    and "dr_spec_digest r = ml_spec_digest l"
    and "valid_identifier (pt_target_ref t)" and "valid_identifier (pt_generation t)"
  shows "\<exists>it g'. install g l t now = (Ok (IInstalled it), g') \<and> it_target_ref it = pt_target_ref t
    \<and> it_control_token it = pt_control_token t"
  using assms
  by (auto simp: install_def install_existing_def holds_attempt_def mat_validate_eq installed_def
      split: durable_target_state.splits)

lemma charge_holds: "holds_attempt r l \<Longrightarrow> charge r = ts_materialized_mib (dr_spec r)"
  by (auto simp: holds_attempt_def split: durable_target_state.splits)

lemma expire_lease_cases:
  assumes "expire_lease g l now = (res, g')"
  obtains (kept) "g' = g" "res = Ok ()" "\<forall>r. mr_records g (ml_key l) = Some r \<longrightarrow> \<not> holds_attempt r l"
  | (released) r where "mr_records g (ml_key l) = Some r" "holds_attempt r l"
      "refund_capacity (g\<lparr>mr_records := (mr_records g)(ml_key l := None)\<rparr>)
        (ts_materialized_mib (ml_spec l)) = (res, g')"
  using assms by (auto simp: expire_lease_def split: option.splits if_splits)

lemma refund_records: "refund_capacity g mib = (res, g') \<Longrightarrow> mr_records g' = mr_records g"
  by (auto simp: refund_capacity_def split: option.splits)

lemma expire_lease_inv:
  assumes "expire_lease g l now = (res, g')" and "registry_inv timely dg S g" and "agrees (mr_records g (ml_key l)) l"
  shows "registry_inv timely dg S g'" and "res = Ok ()"
proof -
  have "registry_inv timely dg S g' \<and> res = Ok ()"
    using assms(1)
  proof (cases rule: expire_lease_cases)
    case (released r)
    then have "charge r = ts_materialized_mib (ml_spec l)"
      using assms(3) by (simp add: charge_holds agrees_def)
    from release_refunded [OF assms(2) released(1) this] released(3) show ?thesis by simp
  qed (use assms(2) in simp)
  then show "registry_inv timely dg S g'" and "res = Ok ()" by simp_all
qed

text \<open>The state of the plane: records that validate, a digest that does not collide, exact accounts.\<close>

definition plane_inv_when :: "bool \<Rightarrow> spec_digest_fn \<Rightarrow> target_spec set \<Rightarrow> memory_target_registry \<Rightarrow> bool" where
  "plane_inv_when timely dg S g \<longleftrightarrow> digest_ok dg S \<and> registry_inv timely dg S g"

abbreviation plane_inv :: "spec_digest_fn \<Rightarrow> target_spec set \<Rightarrow> memory_target_registry \<Rightarrow> bool" where
  "plane_inv \<equiv> plane_inv_when True"

lemmas plane_inv_def = plane_inv_when_def

interpretation mem: target_port "acquire dg" install expire_lease mr_records "plane_inv_when timely dg S" S
  for timely dg S
proof (unfold_locales, goal_cases)
  case (1 g q res g')
  then show ?case using acquire_inv by (auto simp: plane_inv_def)
next
  case (2 g q l g')
  then show ?case using acquire_leased by (auto simp: plane_inv_def)
next
  case (3 g q res g' k)
  then show ?case using acquire_frame by (auto simp: plane_inv_def)
next
  case (4 g q it g')
  then have "g' = g" "\<exists>r. mr_records g (aq_key q) = Some r \<and> installed r = Some it"
    using acquire_refused [of dg g q "Ok (AInstalled it)" g' timely S] by (auto simp: plane_inv_def)
  then show ?case by simp
next
  case (5 g q res g')
  then show ?case using acquire_refused(1) [of dg g q res g' timely S] by (auto simp: plane_inv_def)
next
  case (6 g now l pt ires g')
  then show ?case using install_inv by (auto simp: plane_inv_def)
next
  case (7 g l pt now ires g' k)
  from 7(1) show ?case by (cases rule: install_cases) (use 7(2) in \<open>simp_all add: put_record_def\<close>)
next
  case (8 g l pt now it g')
  from 8 show ?case by (cases rule: install_cases) (auto simp: put_record_def installed_def)
next
  case (9 g l pt now ires g')
  from 9 show ?case by (cases rule: install_cases) (auto simp: put_record_def installed_def)
next
  case (10 g l r pt now)
  then show ?case using install_leased by blast
next
  case (11 g l now xres g')
  then show ?case using expire_lease_inv(1) by (auto simp: plane_inv_def)
next
  case (12 g l now xres g' k)
  from 12(1) show ?case
    by (cases rule: expire_lease_cases) (use 12(2) in \<open>auto dest!: refund_records\<close>)
next
  case (13 g l now xres g')
  from 13 show ?case
    by (cases rule: expire_lease_cases) (auto dest!: refund_records split: option.splits)
next
  case (14 g l now)
  then show ?case using expire_lease_inv(2) by (cases "expire_lease g l now") (auto simp: plane_inv_def)
qed

text \<open>
  A target handed to \<open>mark_closed\<close> was read from the registry: where the record still holds it,
  the record has its spec.
\<close>

definition target_agrees :: "durable_target_record option \<Rightarrow> installed_target \<Rightarrow> bool" where
  "target_agrees ro t \<longleftrightarrow> (\<forall>r. ro = Some r \<longrightarrow> holds_target r t \<longrightarrow> dr_spec r = it_spec t)"

lemma installed_agrees: "installed r = Some t \<Longrightarrow> holds_target r t \<and> target_agrees (Some r) t"
  by (auto simp: installed_Some_iff holds_target_def target_agrees_def)

lemma mark_closed_held:
  assumes "registry_inv timely dg S g" and "mr_records g (it_key t) = Some r" and "holds_target r t"
    and "dr_spec r = it_spec t" and "valid_reason reason"
  shows "mark_closed g t d reason now =
      (Ok (), g\<lparr>mr_records := (mr_records g)(it_key t \<mapsto>
          r\<lparr>dr_state := Closed d reason now, dr_updated_at_ms := now\<rparr>),
        mr_reserved_mib := mr_reserved_mib g - ts_materialized_mib (it_spec t)\<rparr>)"
    and "registry_inv timely dg S (snd (mark_closed g t d reason now))"
proof -
  let ?r = "r\<lparr>dr_state := Closed d reason now, dr_updated_at_ms := now\<rparr>"
  have c: "charge r = ts_materialized_mib (it_spec t)"
    using assms(3,4) by (auto simp: holds_target_def split: durable_target_state.splits)
  have "charge ?r = 0" "dr_key ?r = it_key t" "dr_spec ?r \<in> S" "record_sound timely dg ?r"
    using registry_inv_record [OF assms(1,2)] assms(5) by (auto simp: record_sound_def)
  note cl = close_refunded [OF assms(1,2) c this]
  show eq: "mark_closed g t d reason now =
      (Ok (), g\<lparr>mr_records := (mr_records g)(it_key t \<mapsto> ?r),
        mr_reserved_mib := mr_reserved_mib g - ts_materialized_mib (it_spec t)\<rparr>)"
    using assms(2,3,5) cl(1) by (simp add: mark_closed_def transition_installed_def mat_validate_eq)
  show "registry_inv timely dg S (snd (mark_closed g t d reason now))" using cl(2) by (simp add: eq)
qed

lemma mark_closed_other:
  assumes "\<not> valid_reason reason \<or> (\<forall>r. mr_records g (it_key t) = Some r \<longrightarrow> \<not> holds_target r t)"
  shows "snd (mark_closed g t d reason now) = g"
  using assms
  by (auto simp: mark_closed_def transition_installed_def mat_validate_eq Let_def
      split: option.splits durable_target_state.splits)

lemma mark_closed_inv:
  assumes "registry_inv timely dg S g" and "target_agrees (mr_records g (it_key t)) t"
  shows "registry_inv timely dg S (snd (mark_closed g t d reason now))"
proof (cases "valid_reason reason \<and> (\<exists>r. mr_records g (it_key t) = Some r \<and> holds_target r t)")
  case True
  then show ?thesis using mark_closed_held(2) [OF assms(1)] assms(2) by (auto simp: target_agrees_def)
next
  case False
  then have "snd (mark_closed g t d reason now) = g" by (intro mark_closed_other) auto
  then show ?thesis using assms(1) by simp
qed

end
