(* ===== verification/Target_Plane.thy ===== *)
theory Target_Plane
  imports Memory_Registry
begin

section \<open>Properties of the target plane\<close>

text \<open>
  The materializer on the in-memory registry, with any number of interleaved workers and of
  administrative closes. The laws proved once over the port in \<open>Materializer\<close> reach the registry
  through its interpretation \<open>mem\<close>.
\<close>

subsection \<open>Steps of the plane\<close>

abbreviation memory_plane :: "memory_target_registry \<Rightarrow> memory_target_registry plane" where
  "memory_plane g \<equiv> \<lparr>pl_registry = g, pl_inflight = {}, pl_attempts = {}\<rparr>"

abbreviation mem_ok_when ::
    "bool \<Rightarrow> spec_digest_fn \<Rightarrow> target_spec set \<Rightarrow> memory_target_registry plane \<Rightarrow> bool" where
  "mem_ok_when timely dg S p \<equiv> plane_ok (plane_inv_when timely dg S) mr_records p"

abbreviation mem_ok ::
    "spec_digest_fn \<Rightarrow> target_spec set \<Rightarrow> memory_target_registry plane \<Rightarrow> bool" where
  "mem_ok \<equiv> mem_ok_when True"

inductive plane_step ::
    "spec_digest_fn \<Rightarrow> target_spec set \<Rightarrow> memory_target_registry plane \<Rightarrow> memory_target_registry plane \<Rightarrow> bool"
  for dg S where
  plane_worker: "worker_step (acquire dg) install expire_lease S p p' \<Longrightarrow> plane_step dg S p p'"
| plane_close: "target_agrees (mr_records (pl_registry p) (it_key t)) t \<Longrightarrow>
    plane_step dg S p (p\<lparr>pl_registry := snd (mark_closed (pl_registry p) t d reason now)\<rparr>)"

lemma with_capacity_inv:
  "with_capacity m = Some g \<Longrightarrow> digest_ok dg S \<Longrightarrow> mem_ok_when timely dg S (memory_plane g)"
  by (auto simp: plane_ok_def plane_inv_def registry_inv_def with_capacity_def split: if_splits)

lemma refund_same_records [simp]: "mr_records (snd (refund_capacity g mib)) = mr_records g"
  by (simp add: refund_capacity_def split: option.split)

lemma mark_closed_records:
  "mr_records (snd (mark_closed g t d reason now)) k = mr_records g k \<or>
    (\<exists>r. mr_records (snd (mark_closed g t d reason now)) k = Some r \<and> dr_state r = Closed d reason now)"
proof (cases "valid_reason reason \<and> (\<exists>r. mr_records g (it_key t) = Some r \<and> holds_target r t)")
  case True
  then show ?thesis by (auto simp: mark_closed_def transition_installed_def mat_validate_eq)
next
  case False
  then have "snd (mark_closed g t d reason now) = g" by (intro mark_closed_other) auto
  then show ?thesis by simp
qed

lemma mark_closed_agrees:
  assumes "agrees (mr_records g k) l"
  shows "agrees (mr_records (snd (mark_closed g t d reason now)) k) l"
  using mark_closed_records [of g t d reason now k] assms by (auto simp: agrees_def holds_attempt_def)

lemma plane_step_ok: "plane_step dg S p p' \<Longrightarrow> mem_ok dg S p \<Longrightarrow> mem_ok dg S p'"
proof (induction rule: plane_step.induct)
  case (plane_worker p p')
  then show ?case by (rule mem.worker_keeps_ok)
next
  case (plane_close p t d reason now)
  then show ?case
    using mark_closed_inv [of True dg S "pl_registry p" t d reason now] mark_closed_agrees
    by (auto simp: plane_ok_def plane_inv_def)
qed

lemma plane_reaches_ok: "(plane_step dg S)\<^sup>*\<^sup>* p p' \<Longrightarrow> mem_ok dg S p \<Longrightarrow> mem_ok dg S p'"
  by (induction rule: rtranclp_induct) (auto intro: plane_step_ok)

text \<open>The allocation limit, under specs that each fit the plane.\<close>

definition within_max :: "memory_target_registry \<Rightarrow> bool" where
  "within_max g \<longleftrightarrow> mr_reserved_mib g \<le> mr_max_mib g"

lemma acquire_within:
  assumes "acquire dg g q = (res, g')" and "plane_inv_when timely dg S g" and "aq_spec q \<in> S"
    and "ts_materialized_mib (aq_spec q) \<le> mr_max_mib g" and "within_max g"
  shows "within_max g' \<and> mr_max_mib g' = mr_max_mib g"
proof -
  from assms(2) have i: "registry_inv timely dg S g" "digest_ok dg S" by (simp_all add: plane_inv_def)
  from assms(1) i assms(3) show ?thesis
  proof (cases rule: acquire_cases)
    case (charged l)
    with leased_record(3) [OF charged(1) i(2) assms(3)] show ?thesis
      using assms(4) by (simp add: within_max_def put_record_def)
  qed (use assms(5) in \<open>simp_all add: within_max_def put_record_def\<close>)
qed

lemma install_same_capacity:
  assumes "install g l t now = (res, g')"
  shows "mr_reserved_mib g' = mr_reserved_mib g \<and> mr_max_mib g' = mr_max_mib g"
  using assms by (cases rule: install_cases) (simp_all add: put_record_def)

lemma refund_shrinks:
  "refund_capacity g mib = (res, g') \<Longrightarrow> mr_reserved_mib g' \<le> mr_reserved_mib g \<and> mr_max_mib g' = mr_max_mib g"
  by (auto simp: refund_capacity_def split: option.splits)

lemma expire_shrinks:
  "expire_lease g l now = (res, g') \<Longrightarrow> mr_reserved_mib g' \<le> mr_reserved_mib g \<and> mr_max_mib g' = mr_max_mib g"
  by (auto simp: expire_lease_def split: if_splits dest!: refund_shrinks)

lemma mark_closed_shrinks:
  "mr_reserved_mib (snd (mark_closed g t d reason now)) \<le> mr_reserved_mib g
    \<and> mr_max_mib (snd (mark_closed g t d reason now)) = mr_max_mib g"
proof -
  have "mr_reserved_mib (snd (refund_capacity (g\<lparr>mr_records := m\<rparr>) n)) \<le> mr_reserved_mib g
      \<and> mr_max_mib (snd (refund_capacity (g\<lparr>mr_records := m\<rparr>) n)) = mr_max_mib g" for m n
    using refund_shrinks [of "g\<lparr>mr_records := m\<rparr>" n] by (cases "refund_capacity (g\<lparr>mr_records := m\<rparr>) n") auto
  then show ?thesis by (simp add: mark_closed_def Let_def split: sum.split prod.split)
qed

lemma plane_step_within:
  assumes "plane_step dg S p p'" and "mem_ok dg S p" and "within_max (pl_registry p)"
    and "mr_max_mib (pl_registry p) = m" and "\<forall>s\<in>S. ts_materialized_mib s \<le> m"
  shows "within_max (pl_registry p') \<and> mr_max_mib (pl_registry p') = m"
  using assms(1)
proof cases
  case plane_worker
  from this assms(2-5) show ?thesis
  proof (induction rule: worker_step.induct)
    case (worker_answers p q res g')
    then obtain res' where "acquire dg (pl_registry p) q = (res', g')"
      by (auto simp: ensure_begin_def split: prod.splits sum.splits acquire_outcome.splits)
    from acquire_within [where timely = True, OF this _ worker_answers.hyps(2)] worker_answers show ?case
      by (simp add: plane_ok_def)
  next
    case (worker_launches p q l g')
    then obtain res' where "acquire dg (pl_registry p) q = (res', g')"
      by (auto simp: ensure_begin_def split: prod.splits sum.splits acquire_outcome.splits)
    from acquire_within [where timely = True, OF this _ worker_launches.hyps(2)] worker_launches show ?case
      by (simp add: plane_ok_def)
  next
    case (worker_settles q l p ts launched res g')
    from worker_settles.hyps(2) show ?case
      by (cases rule: mem.settle_cases)
        (use worker_settles install_same_capacity expire_shrinks in \<open>fastforce simp: within_max_def\<close>)+
  qed
next
  case (plane_close t d reason now)
  then show ?thesis
    using mark_closed_shrinks [of "pl_registry p" t d reason now] assms(3,4)
    by (auto simp: within_max_def)
qed

lemma plane_reaches_within:
  assumes "(plane_step dg S)\<^sup>*\<^sup>* p p'" and "mem_ok dg S p" and "within_max (pl_registry p)"
    and "mr_max_mib (pl_registry p) = m" and "\<forall>s\<in>S. ts_materialized_mib s \<le> m"
  shows "within_max (pl_registry p') \<and> mr_max_mib (pl_registry p') = m"
  using assms(1)
proof (induction rule: rtranclp_induct)
  case (step y z)
  from plane_step_within [OF step.hyps(2) plane_reaches_ok [OF step.hyps(1) assms(2)]] step.IH
  show ?case using assms(5) by blast
qed (use assms in simp)

lemma worker_reaches_installed:
  assumes "(worker_step (acquire dg) install expire_lease S)\<^sup>*\<^sup>* p p'" and "mem_ok dg S p"
    and "mr_records (pl_registry p) k = Some r" and "installed r = Some t"
  shows "mem_ok dg S p' \<and> mr_records (pl_registry p') k = Some r"
  using assms(1)
proof (induction rule: rtranclp_induct)
  case (step y z)
  then show ?case
    using mem.worker_keeps_ok mem.worker_keeps_installed assms(4) by blast
qed (use assms in simp)

subsection \<open>Ordered listings\<close>

lemma key_eta: "tk_root_id k = root \<Longrightarrow> \<lparr>tk_root_id = root, tk_target_key = tk_target_key k\<rparr> = k"
  by simp

lemma root_records_ordered:
  assumes "\<forall>k r. mr_records g k = Some r \<longrightarrow> dr_key r = k"
  shows "sorted_wrt (\<lambda>x y. record_cursor x < record_cursor y) (root_records g root)"
proof -
  let ?K = "tk_target_key ` Set.filter (\<lambda>k. tk_root_id k = root) (dom (mr_records g))"
  have cursor: "record_cursor (the (mr_records g \<lparr>tk_root_id = root, tk_target_key = tk\<rparr>)) = tk"
    if "tk \<in> ?K" for tk
  proof -
    from that obtain k r where "tk = tk_target_key k" "tk_root_id k = root" "mr_records g k = Some r"
      by auto
    then show ?thesis using assms by (auto simp: record_cursor_def key_eta)
  qed
  show ?thesis
  proof (cases "finite ?K")
    case True
    have "sorted_wrt (<) (sorted_list_of_set ?K)" by simp
    then have "sorted_wrt (\<lambda>x y. record_cursor (the (mr_records g \<lparr>tk_root_id = root, tk_target_key = x\<rparr>))
        < record_cursor (the (mr_records g \<lparr>tk_root_id = root, tk_target_key = y\<rparr>))) (sorted_list_of_set ?K)"
      by (rule sorted_wrt_mono_rel [rotated]) (use True cursor in simp)
    then show ?thesis by (simp add: root_records_def sorted_wrt_map)
  qed (simp add: root_records_def)
qed

text \<open>The listing of a registry whose records are stored under their own keys.\<close>

definition listing :: "memory_target_registry \<Rightarrow> string \<Rightarrow> durable_target_record list" where
  "listing g root =
     (if \<forall>k r. mr_records g k = Some r \<longrightarrow> dr_key r = k then root_records g root else [])"

interpretation lst: cursor_source record_cursor "listing g root" for g root
  by unfold_locales (simp add: listing_def root_records_ordered)

lemma root_records_set:
  assumes "registry_inv timely dg S g"
  shows "set (root_records g root) = {r. \<exists>k. mr_records g k = Some r \<and> tk_root_id k = root}"
proof -
  have "finite (tk_target_key ` Set.filter (\<lambda>k. tk_root_id k = root) (dom (mr_records g)))"
    using assms by (simp add: registry_inv_def)
  then have "set (root_records g root) = (\<lambda>k. the (mr_records g k)) ` Set.filter (\<lambda>k. tk_root_id k = root)
      (dom (mr_records g))"
    by (auto simp: root_records_def image_image key_eta intro!: image_cong)
  then show ?thesis by (force simp: image_iff dom_def)
qed

subsection \<open>Sample values\<close>

definition sample_key :: target_key where
  "sample_key = \<lparr>tk_root_id = ''root-1'', tk_target_key = DEFAULT_TARGET_KEY\<rparr>"

definition sample_spec :: target_spec where
  "sample_spec = \<lparr>ts_connector = ConnNone, ts_image_identity = ''image-1'', ts_resource_class = ''small'',
     ts_materialized_mib = 512, ts_resource_policy_digest = digest_a, ts_network_policy_digest = digest_b\<rparr>"

definition sample_request :: "string \<Rightarrow> nat \<Rightarrow> acquire_target" where
  "sample_request attempt now = \<lparr>aq_key = sample_key, aq_spec = sample_spec,
     aq_reservation_id = ''reservation-1'', aq_generation = ''generation-1'',
     aq_launch_request = DurableLaunchRequest ''launch'', aq_attempt_id = attempt,
     aq_attempt_duration_ms = 10, aq_generation_is_fenced = False, aq_now_ms = now,
     aq_lease_duration_ms = 200, aq_target_lifetime_ms = 100, aq_replace_after_loss = False\<rparr>"

definition sample_lease :: materialization_lease where
  "sample_lease = \<lparr>ml_key = sample_key, ml_spec = sample_spec, ml_spec_digest = digest_c,
     ml_reservation_id = ''reservation-1'', ml_generation = ''generation-1'',
     ml_launch_request = DurableLaunchRequest ''launch'', ml_attempt_id = ''attempt-1'',
     ml_attempt_expires_at_ms = 15, ml_target_expires_at_ms = 105, ml_lease_expires_at_ms = 205,
     ml_recovery_attempt = False\<rparr>"

definition sample_physical :: physical_target where
  "sample_physical = \<lparr>pt_target_ref = ''vm-1'', pt_generation = ''generation-1'',
     pt_control_token = ControlToken ''control-secret''\<rparr>"

definition empty_registry :: memory_target_registry where
  "empty_registry = \<lparr>mr_records = Map.empty, mr_max_mib = 1024, mr_reserved_mib = 0\<rparr>"

definition reserved_registry :: memory_target_registry where
  "reserved_registry = \<lparr>mr_records = [sample_key \<mapsto> record_from_lease sample_lease 5], mr_max_mib = 1024,
     mr_reserved_mib = 512\<rparr>"

abbreviation sample_dg :: spec_digest_fn where "sample_dg \<equiv> \<lambda>_. digest_c"

lemma sample_identifiers [simp]:
  "valid_identifier ''root-1''" "valid_identifier ''reservation-1''" "valid_identifier ''generation-1''"
  "valid_identifier ''attempt-1''" "valid_identifier ''attempt-2''" "valid_identifier ''vm-1''"
  by (simp_all add: valid_identifier_def identifier_char_def ascii_defs)

lemma sample_digest_ok [simp]: "digest_ok sample_dg {sample_spec}"
  by (simp add: digest_ok_def)

lemma sample_capacity: "with_capacity 1024 = Some empty_registry"
  by (simp add: with_capacity_def empty_registry_def)

lemma empty_registry_inv [simp]: "plane_inv sample_dg {sample_spec} empty_registry"
  by (simp add: plane_inv_def mem_inv_def empty_registry_def)

lemma sample_request_ok [simp]:
  "attempt \<in> {''attempt-1'', ''attempt-2''} \<Longrightarrow> acquire_ok (sample_request attempt now)"
  by (auto simp: acquire_ok_def sample_request_def sample_key_def valid_key_def key_validate_def
      is_default_def mat_validate_eq valid_launch_def MAX_DURABLE_LAUNCH_REQUEST_BYTES_def)

lemma sample_request_fields [simp]:
  "aq_key (sample_request a n) = sample_key" "aq_attempt_id (sample_request a n) = a"
  "aq_now_ms (sample_request a n) = n" "aq_spec (sample_request a n) = sample_spec"
  by (simp_all add: sample_request_def)

lemma sample_spec_in: "aq_spec (sample_request attempt now) \<in> {sample_spec}"
  by simp

lemma sample_lease_acquired:
  "acquire_lease sample_dg (sample_request ''attempt-1'' 5) = Ok sample_lease"
  by (simp add: acquire_lease_Ok) (simp add: sample_request_def sample_lease_def U64_MAX_def)

lemma sample_acquire:
  "acquire sample_dg empty_registry (sample_request ''attempt-1'' 5) =
     (Ok (AAcquired sample_lease), reserved_registry)"
  by (simp add: acquire_def sample_lease_acquired)
    (simp add: empty_registry_def reserved_registry_def sample_request_def reserve_capacity_def
      sample_lease_def sample_spec_def put_record_def)

lemma reserved_registry_inv [simp]: "plane_inv sample_dg {sample_spec} reserved_registry"
  by (rule mem.acq_inv [OF empty_registry_inv sample_spec_in sample_acquire])

definition installed_registry :: memory_target_registry where
  "installed_registry = snd (install reserved_registry sample_lease sample_physical 5)"

definition sample_target :: installed_target where
  "sample_target = \<lparr>it_key = sample_key, it_spec = sample_spec, it_spec_digest = digest_c,
     it_target_ref = ''vm-1'', it_generation = ''generation-1'',
     it_control_token = ControlToken ''control-secret'', it_installed_at_ms = 5, it_expires_at_ms = 105\<rparr>"

lemma sample_lease_fields [simp]:
  "ml_key sample_lease = sample_key" "ml_spec_digest sample_lease = digest_c"
  "ml_target_expires_at_ms sample_lease = 105" "\<not> ml_recovery_attempt sample_lease"
  "ml_spec sample_lease = sample_spec"
  by (simp_all add: sample_lease_def)

lemma sample_physical_fields [simp]:
  "pt_target_ref sample_physical = ''vm-1''" "pt_generation sample_physical = ''generation-1''"
  by (simp_all add: sample_physical_def)

lemma sample_install:
  "install reserved_registry sample_lease sample_physical 5 =
     (Ok (IInstalled sample_target), installed_registry)"
  by (simp add: installed_registry_def install_def install_existing_def reserved_registry_def mat_validate_eq
      record_from_lease_def installed_def sample_target_def)
    (simp add: sample_lease_def sample_physical_def)

lemma installed_registry_record:
  "\<exists>r. mr_records installed_registry sample_key = Some r \<and> installed r = Some sample_target"
  using mem.inst_installs [OF sample_install] by simp

lemma installed_registry_inv [simp]: "plane_inv sample_dg {sample_spec} installed_registry"
  by (rule mem.inst_inv [OF reserved_registry_inv _ _ sample_install]) simp_all

lemma sample_worker_step:
  "worker_step (acquire sample_dg) install expire_lease {sample_spec} (memory_plane empty_registry)
     \<lparr>pl_registry = reserved_registry, pl_inflight = {(sample_request ''attempt-1'' 5, sample_lease)},
      pl_attempts = {''attempt-1''}\<rparr>"
  using worker_launches [where acq = "acquire sample_dg" and S = "{sample_spec}" and inst = install
      and exp = expire_lease and p = "memory_plane empty_registry" and q = "sample_request ''attempt-1'' 5"
      and l = sample_lease and g' = reserved_registry]
  by (simp add: ensure_begin_def sample_acquire)

definition sample_plane2 :: "memory_target_registry plane" where
  "sample_plane2 = \<lparr>pl_registry = installed_registry, pl_inflight = {}, pl_attempts = {''attempt-1''}\<rparr>"

definition sample_plane3 :: "memory_target_registry plane" where
  "sample_plane3 =
     \<lparr>pl_registry = installed_registry, pl_inflight = {}, pl_attempts = {''attempt-2'', ''attempt-1''}\<rparr>"

lemma sample_worker_step2:
  "worker_step (acquire sample_dg) install expire_lease {sample_spec}
     \<lparr>pl_registry = reserved_registry, pl_inflight = {(sample_request ''attempt-1'' 5, sample_lease)},
      pl_attempts = {''attempt-1''}\<rparr> sample_plane2"
  using worker_settles [where acq = "acquire sample_dg" and S = "{sample_spec}" and inst = install
      and exp = expire_lease and q = "sample_request ''attempt-1'' 5" and l = sample_lease
      and launched = "Ok sample_physical" and terminate_stale = "\<lambda>_. Ok ()"
      and p = "\<lparr>pl_registry = reserved_registry, pl_inflight = {(sample_request ''attempt-1'' 5, sample_lease)},
      pl_attempts = {''attempt-1''}\<rparr>"]
  by (simp add: ensure_settle_def sample_install sample_plane2_def)

lemma sample_reaches: "(plane_step sample_dg {sample_spec})\<^sup>*\<^sup>* (memory_plane empty_registry) sample_plane2"
  using plane_worker [OF sample_worker_step] plane_worker [OF sample_worker_step2]
  by (meson r_into_rtranclp rtranclp_trans)

lemma sample_acquire_installed:
  "acquire sample_dg installed_registry (sample_request ''attempt-2'' 6) =
     (Ok (AInstalled sample_target), installed_registry)"
proof -
  obtain r where r: "mr_records installed_registry sample_key = Some r" "installed r = Some sample_target"
    using installed_registry_record by blast
  have "record_ok sample_dg r"
    using mem_inv_record [OF _ r(1)] installed_registry_inv by (auto simp: plane_inv_def)
  then have v: "record_validate sample_dg r = Ok ()" "dr_spec_digest r = digest_c"
    by (simp_all add: record_validate_Ok record_ok_def)
  have "\<exists>l. acquire_lease sample_dg (sample_request ''attempt-2'' 6) = Ok l \<and> ml_spec_digest l = digest_c"
    by (simp add: acquire_lease_Ok) (simp add: sample_request_def U64_MAX_def)
  then obtain l where l: "acquire_lease sample_dg (sample_request ''attempt-2'' 6) = Ok l"
      "ml_spec_digest l = digest_c" by blast
  show ?thesis using r v l
    by (auto simp: acquire_def acquire_existing_def installed_Some_iff) (simp_all add: sample_request_def installed_def)
qed

lemma sample_worker_step3:
  "worker_step (acquire sample_dg) install expire_lease {sample_spec} sample_plane2 sample_plane3"
  using worker_answers [where acq = "acquire sample_dg" and S = "{sample_spec}" and inst = install
      and exp = expire_lease and p = sample_plane2 and q = "sample_request ''attempt-2'' 6"]
  by (simp add: ensure_begin_def sample_acquire_installed sample_plane2_def sample_plane3_def)

subsection \<open>Properties\<close>

text \<open>
  However workers and administrative closes interleave on one plane, the reserved memory is
  exactly the sum of the memory of the targets that are reserved or installed: every charge of
  \<open>acquire\<close> is refunded exactly once, by \<open>expire_lease\<close> or by \<open>mark_closed\<close>. And every stored
  record passes the validation that later acquisitions apply to it.
\<close>

theorem plane_capacity_accounted:
  assumes "digest_ok dg S" and "with_capacity m = Some g"
    and "(plane_step dg S)\<^sup>*\<^sup>* (memory_plane g) p"
  shows "mr_reserved_mib (pl_registry p) = account charge (mr_records (pl_registry p))
    \<and> (\<forall>k r. mr_records (pl_registry p) k = Some r \<longrightarrow> record_validate dg r = Ok ())"
  using plane_reaches_ok [OF assms(3) with_capacity_inv [OF assms(2,1)]]
  by (auto simp: plane_ok_def plane_inv_def mem_inv_def record_validate_Ok)

theorem plane_capacity_accounted_witness:
  "mr_reserved_mib reserved_registry = account charge (mr_records reserved_registry)
    \<and> mr_reserved_mib reserved_registry = 512"
  using plane_capacity_accounted [OF sample_digest_ok sample_capacity,
      OF r_into_rtranclp [where r = "plane_step sample_dg {sample_spec}", OF plane_worker [OF sample_worker_step]]]
  by (simp add: reserved_registry_def)

text \<open>
  When no single target is larger than the plane, the reserved memory never exceeds the
  plane's capacity, whatever the interleaving.
\<close>

theorem plane_within_capacity:
  assumes "digest_ok dg S" and "with_capacity m = Some g" and "\<forall>s\<in>S. ts_materialized_mib s \<le> m"
    and "(plane_step dg S)\<^sup>*\<^sup>* (memory_plane g) p"
  shows "mr_reserved_mib (pl_registry p) \<le> m"
proof -
  have "within_max (pl_registry (memory_plane g))" "mr_max_mib (pl_registry (memory_plane g)) = m"
    using assms(2) by (auto simp: with_capacity_def within_max_def split: if_splits)
  from plane_reaches_within [OF assms(4) with_capacity_inv [OF assms(2,1)] this assms(3)]
  show ?thesis by (simp add: within_max_def)
qed

theorem plane_within_capacity_witness:
  "mr_reserved_mib reserved_registry \<le> 1024"
  using plane_within_capacity [OF sample_digest_ok sample_capacity,
      OF _ r_into_rtranclp [where r = "plane_step sample_dg {sample_spec}", OF plane_worker [OF sample_worker_step]]]
  by (simp add: sample_spec_def)

text \<open>
  The limit needs that each target fits the plane: the saturating subtraction of
  \<open>reserve_capacity\<close> lets an empty plane of 1 MiB admit a target of 512 MiB, after which more
  memory is reserved than the plane has.
\<close>

theorem oversized_target_admitted:
  "\<exists>g g'. with_capacity 1 = Some g
    \<and> acquire sample_dg g (sample_request ''attempt-1'' 5) = (Ok (AAcquired sample_lease), g')
    \<and> mr_max_mib g' = 1 \<and> mr_reserved_mib g' = 512"
  by (simp add: with_capacity_def acquire_def sample_lease_acquired reserve_capacity_def put_record_def)
    (simp add: sample_spec_def)

text \<open>
  C15. A target that is installed stays installed, with the same reference, token and generation,
  through any number of steps of concurrent workers on any keys: late launches, stale leases and
  recovery attempts never displace it.
\<close>

theorem installed_never_displaced:
  assumes "digest_ok dg S" and "with_capacity m = Some g"
    and "(plane_step dg S)\<^sup>*\<^sup>* (memory_plane g) p"
    and "(worker_step (acquire dg) install expire_lease S)\<^sup>*\<^sup>* p p'"
    and "mr_records (pl_registry p) k = Some r" and "installed r = Some t"
  shows "mr_records (pl_registry p') k = Some r"
  using worker_reaches_installed [OF assms(4) plane_reaches_ok [OF assms(3) with_capacity_inv] assms(5,6)]
    assms(1,2) by simp

theorem installed_never_displaced_witness:
  "\<exists>r. mr_records (pl_registry sample_plane3) sample_key = Some r \<and> installed r = Some sample_target"
proof -
  obtain r where r: "mr_records installed_registry sample_key = Some r" "installed r = Some sample_target"
    using installed_registry_record by blast
  from installed_never_displaced [OF sample_digest_ok sample_capacity sample_reaches
      r_into_rtranclp [where r = "worker_step _ _ _ _", OF sample_worker_step3], of sample_key r] r
  show ?thesis by (simp add: sample_plane2_def)
qed

text \<open>
  \<open>ensure\<close> returns a target only when the registry durably holds it as installed under the
  requested key, and it keeps the plane's accounts: no guest effect is dispatched before routing
  is installed.
\<close>

theorem ensure_returns_installed:
  assumes "plane_inv dg S g" and "aq_spec q \<in> S"
    and "ensure (acquire dg) install expire_lease launch terminate_stale g q = (Ok t, g')"
  shows "(\<exists>r. mr_records g' (aq_key q) = Some r \<and> installed r = Some t) \<and> plane_inv dg S g'"
  using mem.ensure_Ok [OF assms] mem.ensure_inv [OF assms] by blast

theorem ensure_returns_installed_witness:
  "\<exists>r. mr_records installed_registry sample_key = Some r \<and> installed r = Some sample_target"
  using ensure_returns_installed [OF empty_registry_inv sample_spec_in,
      of "\<lambda>_. Ok sample_physical" "\<lambda>_. Ok ()" "''attempt-1''" 5 sample_target installed_registry]
  by (simp add: ensure_def ensure_begin_def ensure_settle_def sample_acquire sample_install)

text \<open>
  When the provider launches a target with well-formed identifiers for a lease just acquired,
  \<open>ensure\<close> succeeds with that target's reference and control token.
\<close>

theorem launched_target_is_returned:
  assumes "plane_inv dg S g" and "aq_spec q \<in> S" and "acquire dg g q = (Ok (AAcquired l), g1)"
    and "launch l = Ok t" and "valid_identifier (pt_target_ref t)" and "valid_identifier (pt_generation t)"
  shows "\<exists>it g'. ensure (acquire dg) install expire_lease launch terminate_stale g q = (Ok it, g')
    \<and> it_target_ref it = pt_target_ref t \<and> it_control_token it = pt_control_token t"
  by (rule mem.ensure_installs [where launch = launch, OF assms])

theorem launched_target_is_returned_witness:
  "\<exists>it g'. ensure (acquire sample_dg) install expire_lease (\<lambda>_. Ok sample_physical) (\<lambda>_. Ok ())
      empty_registry (sample_request ''attempt-1'' 5) = (Ok it, g') \<and> it_target_ref it = ''vm-1''"
  using launched_target_is_returned [OF empty_registry_inv sample_spec_in sample_acquire,
      of "\<lambda>_. Ok sample_physical" sample_physical "\<lambda>_. Ok ()"] by auto

text \<open>
  C23. A first launch that the provider attests created no target releases the reservation and its
  memory; an unknown outcome, or any failure of a recovery attempt, leaves the reservation in
  place, charged and held by the same attempt, so that the exact request can be replayed.
\<close>

theorem failed_launch_fate:
  assumes "plane_inv dg S g" and "aq_spec q \<in> S" and "acquire dg g q = (Ok (AAcquired l), g1)"
    and "launch l = Err e"
  shows "\<exists>err g'. ensure (acquire dg) install expire_lease launch terminate_stale g q = (Err err, g')
    \<and> plane_inv dg S g'
    \<and> (if no_target e \<and> \<not> ml_recovery_attempt l then mr_records g' (aq_key q) = None
       else g' = g1 \<and> (\<exists>r. mr_records g1 (aq_key q) = Some r \<and> holds_attempt r l))"
proof (cases "no_target e \<and> \<not> ml_recovery_attempt l")
  case True
  with mem.ensure_known_no_target [where launch = launch, OF assms, of terminate_stale] show ?thesis by auto
next
  case False
  with mem.ensure_retains [where launch = launch, OF assms, of terminate_stale] mem.ensure_launched(2) [OF assms(1-3)]
  show ?thesis by auto
qed

theorem failed_launch_fate_witness:
  "\<exists>err g'. ensure (acquire sample_dg) install expire_lease (\<lambda>_. Err (LKnownNoTarget ''denied'')) (\<lambda>_. Ok ())
      empty_registry (sample_request ''attempt-1'' 5) = (Err err, g') \<and> mr_records g' sample_key = None"
  using failed_launch_fate [OF empty_registry_inv sample_spec_in sample_acquire,
      of "\<lambda>_. Err (LKnownNoTarget ''denied'')" "LKnownNoTarget ''denied''" "\<lambda>_. Ok ()"] by auto

text \<open>
  When an attempt has lapsed but the provider may still hold its target, the next acquisition
  is a recovery lease that replays the stored reservation exactly: same reservation id, generation,
  launch request and target lifetime, with the new attempt id, and the reserved memory unchanged.
\<close>

theorem recovery_replays_reservation:
  assumes "plane_inv dg S g" and "acquire dg g q = (Ok (AAcquired l), g')" and "aq_spec q \<in> S"
    and "mr_records g (aq_key q) = Some r"
    and "dr_state r = Materializing rid lr aid aexp texp lexp" and "aq_now_ms q < texp"
  shows "ml_reservation_id l = rid \<and> ml_launch_request l = lr \<and> ml_generation l = dr_generation r
    \<and> ml_target_expires_at_ms l = texp \<and> ml_spec l = dr_spec r \<and> ml_attempt_id l = aq_attempt_id q
    \<and> ml_recovery_attempt l \<and> mr_reserved_mib g' = mr_reserved_mib g \<and> aexp \<le> aq_now_ms q"
proof -
  have r: "record_ok dg r" "dr_key r = aq_key q"
    using mem_inv_record [OF _ assms(4)] assms(1) by (auto simp: plane_inv_def)
  then have "texp < lexp" using assms(5) by (simp add: record_ok_def)
  then have nl: "\<not> lexp \<le> aq_now_ms q" "\<not> texp \<le> aq_now_ms q" using assms(6) by simp_all
  obtain l0 where l0: "acquire_lease dg q = Ok l0"
    using assms(2) by (auto simp: acquire_def split: sum.splits)
  have v: "record_validate dg r = Ok ()" using r(1) by (simp add: record_validate_Ok)
  from assms(2) have "acquire_existing dg g q l0 r = (Ok (AAcquired l), g')"
    by (auto simp: acquire_def l0 v assms(4) split: if_splits)
  with assms(5) nl have a: "aexp \<le> aq_now_ms q"
    and t: "take_materialization_attempt dg r q = (Ok l, snd (take_materialization_attempt dg r q))"
    and g': "mr_reserved_mib g' = mr_reserved_mib g"
    by (auto simp: acquire_existing_def put_record_def split: if_splits prod.splits sum.splits)
  then show ?thesis using assms(5)
    by (auto simp: take_materialization_attempt_def lease_from_materializing_record_def Let_def
        and_then_Ok_iff split: option.splits)
qed

theorem recovery_replays_reservation_witness:
  "\<exists>l g'. acquire sample_dg reserved_registry (sample_request ''attempt-2'' 20) = (Ok (AAcquired l), g')
    \<and> ml_reservation_id l = ''reservation-1'' \<and> ml_attempt_id l = ''attempt-2'' \<and> ml_recovery_attempt l"
proof -
  obtain r where r: "mr_records reserved_registry sample_key = Some r" "r = record_from_lease sample_lease 5"
    by (simp add: reserved_registry_def)
  have ok: "record_ok sample_dg r"
    using mem_inv_record [OF _ r(1)] reserved_registry_inv by (auto simp: plane_inv_def)
  have st: "dr_state r = Materializing ''reservation-1'' (DurableLaunchRequest ''launch'') ''attempt-1'' 15 105 205"
    by (simp add: r(2) record_from_lease_def sample_lease_def)
  obtain l0 where l0: "acquire_lease sample_dg (sample_request ''attempt-2'' 20) = Ok l0"
      "ml_spec_digest l0 = digest_c" "ml_generation l0 = ''generation-1''"
    by (simp add: acquire_lease_Ok) (simp add: sample_request_def U64_MAX_def)
  obtain l r' where t: "take_materialization_attempt sample_dg r (sample_request ''attempt-2'' 20) = (Ok l, r')"
    using take_attempt_Ok [OF l0(1) ok st] by (auto simp: r(2))
  have v: "record_validate sample_dg r = Ok ()" using ok by (simp add: record_validate_Ok)
  have "acquire sample_dg reserved_registry (sample_request ''attempt-2'' 20) =
      (Ok (AAcquired l), put_record reserved_registry sample_key r')"
    using l0 r(1) v st t
    by (auto simp: acquire_def acquire_existing_def) (simp_all add: r(2) sample_lease_def)
  from recovery_replays_reservation [OF reserved_registry_inv this] this st r(1) show ?thesis by simp
qed

text \<open>
  Closing an installed target with an admissible reason succeeds and refunds exactly its
  memory; closing it again, with whatever disposition and reason, succeeds too and changes
  nothing: the charge is refunded once.
\<close>

theorem close_refunds_once:
  assumes "plane_inv dg S g" and "mr_records g k = Some r" and "installed r = Some t"
    and "validate_reason reason = Ok ()" and "mark_closed g t d reason now = (res, g')"
  shows "res = Ok () \<and> mr_reserved_mib g' + ts_materialized_mib (it_spec t) = mr_reserved_mib g
    \<and> plane_inv dg S g'
    \<and> (validate_reason reason2 = Ok () \<longrightarrow> mark_closed g' t d2 reason2 now2 = (Ok (), g'))"
proof -
  have m: "mem_inv dg S g" using assms(1) by (simp add: plane_inv_def)
  have k: "mr_records g (it_key t) = Some r" "dr_key r = k" "it_key t = k"
    using mem_inv_record [OF m assms(2)] assms(2,3) by (auto simp: installed_Some_iff)
  have h: "holds_target r t" "dr_spec r = it_spec t" "valid_reason reason"
    using assms(3,4) by (auto simp: installed_Some_iff holds_target_def mat_validate_eq split: if_splits)
  note c = mark_closed_held [OF m k(1) h, of d now]
  have le: "ts_materialized_mib (it_spec t) \<le> mr_reserved_mib g"
    using account_ge [of "mr_records g" k r charge] m assms(2,3) h(2)
    by (auto simp: mem_inv_def installed_Some_iff)
  have g': "res = Ok ()" "g' = snd (mark_closed g t d reason now)" using c(1) assms(5) by simp_all
  have "mark_closed g' t d2 reason2 now2 = (Ok (), g')" if "validate_reason reason2 = Ok ()"
    using c(1) g'(2) that by (simp add: mark_closed_def transition_installed_def holds_target_def)
  then show ?thesis using c le assms(1) g' by (simp add: plane_inv_def)
qed

theorem close_refunds_once_witness:
  "mr_reserved_mib (snd (mark_closed installed_registry sample_target Lost ''spot'' 9)) = 0"
proof -
  obtain r where r: "mr_records installed_registry sample_key = Some r" "installed r = Some sample_target"
    using installed_registry_record by blast
  have "validate_reason ''spot'' = Ok ()" by (simp add: validate_reason_def MAX_REASON_BYTES_def)
  from close_refunds_once [OF installed_registry_inv r this, of Lost 9] show ?thesis
    using install_same_capacity [OF sample_install]
    by (cases "mark_closed installed_registry sample_target Lost ''spot'' 9")
      (simp add: sample_target_def sample_spec_def reserved_registry_def)
qed

text \<open>
  C24. A client that follows the cursors of \<open>list_root\<close> from the start, with any limit, terminates
  and sees exactly the records of the root, each once, in the order of their target keys.
\<close>

theorem list_root_walk_complete:
  assumes "plane_inv dg S g" and "validate_identifier root ''root_id'' = Ok ()"
  shows "\<exists>xs. walks_to (\<lambda>c. case list_root g root c limit of Ok p \<Rightarrow> p | Err e \<Rightarrow> None) None xs
    \<and> set xs = {r. \<exists>k. mr_records g k = Some r \<and> tk_root_id k = root}
    \<and> sorted_wrt (\<lambda>x y. record_cursor x < record_cursor y) xs"
proof -
  have m: "mem_inv dg S g" using assms(1) by (simp add: plane_inv_def)
  have l: "listing g root = root_records g root"
    using mem_inv_record [OF m] by (simp add: listing_def)
  have "list_root g root c limit =
      Ok (fetch_page record_cursor (root_records g root) c (clamp 1 MAX_PAGE limit))" for c
    using assms(2) by (simp add: list_root_def mat_validate_eq)
  moreover have "0 < clamp 1 MAX_PAGE limit" using clamp_bounds [of 1 MAX_PAGE limit] by (simp add: MAX_PAGE_def)
  ultimately have "walks_to (\<lambda>c. case list_root g root c limit of Ok p \<Rightarrow> p | Err e \<Rightarrow> None) None
      (root_records g root)"
    using lst.walk_complete [of "clamp 1 MAX_PAGE limit" g root None]
    by (simp add: l after_cursor_def)
  moreover have "sorted_wrt (\<lambda>x y. record_cursor x < record_cursor y) (root_records g root)"
    using lst.ordered [of g root] by (simp add: l)
  ultimately show ?thesis
    using root_records_set [OF m, of root] by (intro exI [of _ "root_records g root"] conjI)
qed

theorem list_root_walk_complete_witness:
  "\<exists>xs. walks_to (\<lambda>c. case list_root installed_registry ''root-1'' c 1 of Ok p \<Rightarrow> p | Err e \<Rightarrow> None) None xs
    \<and> (\<exists>r\<in>set xs. installed r = Some sample_target)"
proof -
  have "validate_identifier ''root-1'' ''root_id'' = Ok ()" by (simp add: validate_eqs)
  from list_root_walk_complete [OF installed_registry_inv this, of 1] show ?thesis
    using installed_registry_record by (force simp: sample_key_def)
qed

end
