(* ===== verification/Connector.thy ===== *)
theory Connector
  imports Hand_Policy
begin

section \<open>Connector references and the gateway authority (\<open>hand-core/src/connector.rs\<close>)\<close>

text \<open>
  Parsing of opaque connector references, of the egress gateway's authority, and the catalog that
  maps every connector class to exactly one reference. The authority grammar admits neither URLs
  nor credentials; what it accepts prints and parses back to itself.
\<close>

datatype connector_error =
    InvalidReference
  | InvalidGatewayAuthority
  | MissingClass connector_class

datatype connector_ref = ConnectorRef (as_str: string)

definition connector_ref_parse :: "string \<Rightarrow> (connector_error, connector_ref) result" where
  "connector_ref_parse value =
     (if trim value \<noteq> value \<or> value = [] \<or> has_whitespace value then Err InvalidReference
      else Ok (ConnectorRef value))"

record gateway_authority =
  ga_host :: string
  ga_port :: nat

text \<open>\<open>str::contains\<close> of a string, and of one of a set of ASCII characters.\<close>

fun contains_str :: "string \<Rightarrow> string \<Rightarrow> bool" where
  "contains_str p [] = (p = [])"
| "contains_str p (c # s) = (starts_with p (c # s) \<or> contains_str p s)"

definition contains_any :: "string \<Rightarrow> string \<Rightarrow> bool" where
  "contains_any cs s = list_ex (\<lambda>c. c \<in> set cs) s"

definition valid_label :: "string \<Rightarrow> bool" where
  "valid_label label \<longleftrightarrow>
     label \<noteq> [] \<and> length label \<le> 63 \<and> \<not> starts_with ''-'' label \<and> \<not> ends_with ''-'' label
     \<and> list_all (\<lambda>c. ascii_alphanumeric c \<or> c = CHR ''-'') label"

definition valid_gateway_host :: "string \<Rightarrow> bool" where
  "valid_gateway_host host =
     (if parse_ipv4 host \<noteq> None then True
      else if list_all (\<lambda>c. ascii_digit c \<or> c = CHR ''.'') host then False
      else length host \<le> 253 \<and> list_all valid_label (split_on (CHR ''.'') host))"

text \<open>\<open>parse::<NonZeroU16>\<close>.\<close>

definition parse_nonzero_u16 :: "string \<Rightarrow> nat option" where
  "parse_nonzero_u16 s = (case parse_uint 65535 s of Some n \<Rightarrow> if n = 0 then None else Some n | None \<Rightarrow> None)"

definition gateway_authority_parse :: "string \<Rightarrow> (connector_error, gateway_authority) result" where
  "gateway_authority_parse value =
     (if trim value \<noteq> value \<or> value = [] \<or> has_whitespace value \<or> contains_str ''//'' value
         \<or> contains_any ''@/?#[]'' value
      then Err InvalidGatewayAuthority
      else and_then (ok_or (rsplit_once (CHR '':'') value) InvalidGatewayAuthority) (\<lambda>(host, port).
        if host = [] \<or> contains_any '':'' host \<or> \<not> valid_gateway_host host
        then Err InvalidGatewayAuthority
        else and_then (ok_or (parse_nonzero_u16 port) InvalidGatewayAuthority) (\<lambda>port.
          Ok \<lparr>ga_host = to_ascii_lowercase host, ga_port = port\<rparr>)))"

definition as_authority :: "gateway_authority \<Rightarrow> string" where
  "as_authority g = ga_host g @ '':'' @ show_nat (ga_port g)"

type_synonym connector_catalog = "connector_class \<rightharpoonup> connector_ref"

definition catalog_new :: "connector_ref \<Rightarrow> connector_ref \<Rightarrow> connector_ref \<Rightarrow> connector_catalog" where
  "catalog_new n p a = [ConnNone \<mapsto> n, ConnPublic \<mapsto> p, ConnAllowlist \<mapsto> a]"

text \<open>\<open>None\<close> is the panic of \<open>expect\<close> on a class the catalog lacks.\<close>

definition catalog_resolve :: "connector_catalog \<Rightarrow> connector_class \<Rightarrow> connector_ref option" where
  "catalog_resolve c k = c k"

definition catalog_get ::
    "(connector_class \<Rightarrow> string option) \<Rightarrow> connector_class \<Rightarrow> (connector_error, connector_ref) result" where
  "catalog_get lookup class = and_then (ok_or (lookup class) (MissingClass class)) connector_ref_parse"

definition catalog_from_lookup ::
    "(connector_class \<Rightarrow> string option) \<Rightarrow> (connector_error, connector_catalog) result" where
  "catalog_from_lookup lookup =
     and_then (catalog_get lookup ConnNone) (\<lambda>n.
     and_then (catalog_get lookup ConnPublic) (\<lambda>p.
     and_then (catalog_get lookup ConnAllowlist) (\<lambda>a. Ok (catalog_new n p a))))"

subsection \<open>Host names\<close>

lemma contains_any_iff: "contains_any cs s \<longleftrightarrow> (\<exists>c\<in>set s. c \<in> set cs)"
  by (auto simp: contains_any_def list_ex_iff)

lemma contains_str_iff: "contains_str p s \<longleftrightarrow> sublist p s"
  by (induction s) (auto simp: starts_with_iff sublist_Cons_right)

lemma parse_octet_digits: "parse_octet s = Some n \<Longrightarrow> list_all ascii_digit s"
  by (simp add: parse_octet_def split: if_splits)

text \<open>The characters of a host that the gateway accepts.\<close>

definition host_char :: "char \<Rightarrow> bool" where
  "host_char c \<longleftrightarrow> ascii_alphanumeric c \<or> c = CHR ''-'' \<or> c = CHR ''.''"

lemma join_on_elem: "c \<in> set (join_on d ps) \<Longrightarrow> c = d \<or> (\<exists>p\<in>set ps. c \<in> set p)"
  by (induction d ps rule: join_on.induct) auto

lemma split_elem: "c \<in> set s \<Longrightarrow> c = d \<or> (\<exists>p\<in>set (split_on d s). c \<in> set p)"
  using join_on_elem [of c d "split_on d s"] by simp

lemma parse_ipv4_parts:
  assumes "parse_ipv4 s = Some a" and "p \<in> set (split_on (CHR ''.'') s)"
  shows "parse_octet p \<noteq> None"
proof -
  obtain w x y z where "map parse_octet (split_on (CHR ''.'') s) = [Some w, Some x, Some y, Some z]"
    using assms(1) by (auto simp: parse_ipv4_def split: list.splits option.splits)
  then have "parse_octet ` set (split_on (CHR ''.'') s) = {Some w, Some x, Some y, Some z}"
    by (metis list.set_map list.simps(15) list.set(1))
  then show ?thesis using assms(2) by blast
qed

lemma parse_ipv4_chars: "parse_ipv4 s = Some a \<Longrightarrow> list_all (\<lambda>c. ascii_digit c \<or> c = CHR ''.'') s"
  using split_elem [of _ s "CHR ''.''"] parse_ipv4_parts parse_octet_digits
  by (fastforce simp: list_all_iff)

lemma valid_host_chars: "valid_gateway_host h \<Longrightarrow> list_all host_char h"
proof (cases "parse_ipv4 h")
  case (Some a)
  then show ?thesis using parse_ipv4_chars by (fastforce simp: host_char_def ascii_alphanumeric_def list_all_iff)
next
  case None
  assume "valid_gateway_host h"
  with None have "list_all valid_label (split_on (CHR ''.'') h)"
    by (simp add: valid_gateway_host_def split: if_splits)
  then show ?thesis
    using split_elem [of _ h "CHR ''.''"] by (fastforce simp: list_all_iff valid_label_def host_char_def)
qed

lemma lower_char_fixed: "c \<in> {CHR ''-'', CHR ''.''} \<Longrightarrow> lower_char d = c \<longleftrightarrow> d = c"
proof -
  assume c: "c \<in> {CHR ''-'', CHR ''.''}"
  then have "\<not> ascii_alphabetic c" "lower_char c = c" by (auto simp: ascii_defs)
  then show ?thesis using lower_char_inv by blast
qed

lemma lower_digits_id: "list_all (\<lambda>c. ascii_digit c \<or> c = CHR ''.'') s \<Longrightarrow> to_ascii_lowercase s = s"
  by (induction s) (auto simp: to_ascii_lowercase_def lower_char_def ascii_upper_def ascii_digit_def)

lemma split_lower:
  "split_on (CHR ''.'') (to_ascii_lowercase s) = map to_ascii_lowercase (split_on (CHR ''.'') s)"
  by (induction s) (auto simp: to_ascii_lowercase_def lower_char_fixed split: list.splits)

lemma valid_label_lower [simp]: "valid_label (to_ascii_lowercase l) = valid_label l"
proof -
  have f: "lower_char c = CHR ''-'' \<longleftrightarrow> c = CHR ''-''" for c by (simp add: lower_char_fixed)
  have "starts_with ''-'' (map lower_char l) = starts_with ''-'' l"
    by (cases l) (auto simp: starts_with_def f eq_commute [of "CHR ''-''"])
  moreover have "ends_with ''-'' (map lower_char l) = ends_with ''-'' l"
    by (cases l rule: rev_cases) (auto simp: ends_with_def starts_with_def f eq_commute [of "CHR ''-''"])
  ultimately show ?thesis
    by (auto simp: valid_label_def to_ascii_lowercase_def list_all_iff f)
qed

lemma valid_host_lower: "valid_gateway_host h \<Longrightarrow> valid_gateway_host (to_ascii_lowercase h)"
proof (cases "parse_ipv4 h")
  case (Some a)
  then show "valid_gateway_host h \<Longrightarrow> ?thesis" using lower_digits_id [OF parse_ipv4_chars [OF Some]] by simp
next
  case None
  assume v: "valid_gateway_host h"
  with None have nd: "\<not> list_all (\<lambda>c. ascii_digit c \<or> c = CHR ''.'') h" and
      l: "length h \<le> 253" "list_all valid_label (split_on (CHR ''.'') h)"
    by (simp_all add: valid_gateway_host_def split: if_splits)
  have "\<not> list_all (\<lambda>c. ascii_digit c \<or> c = CHR ''.'') (to_ascii_lowercase h)"
    using nd by (auto simp: list_all_iff to_ascii_lowercase_def lower_char_fixed)
  then show ?thesis using l
    by (auto simp: valid_gateway_host_def split_lower list_all_iff)
qed

subsection \<open>The printed authority parses back\<close>

lemma parse_Ok:
  assumes "gateway_authority_parse v = Ok g"
  obtains h where "valid_gateway_host h" "h \<noteq> []" "ga_host g = to_ascii_lowercase h"
    "0 < ga_port g" "ga_port g \<le> 65535"
  using assms parse_uint_bound
  by (fastforce simp: gateway_authority_parse_def parse_nonzero_u16_def result_iffs
      split: if_splits prod.splits option.splits)

lemma authority_chars:
  assumes "list_all host_char h"
  shows "is_ascii (h @ '':'' @ show_nat n)" and "\<not> has_whitespace (h @ '':'' @ show_nat n)"
    and "\<not> contains_any ''@/?#[]'' (h @ '':'' @ show_nat n)" and "\<not> contains_any '':'' h"
    and "CHR '':'' \<notin> set (show_nat n)"
proof -
  let ?s = "h @ '':'' @ show_nat n"
  have c: "host_char c \<or> c = CHR '':''" if "c \<in> set ?s" for c
    using that assms show_nat_digits [of n]
    by (auto simp: list_all_iff host_char_def ascii_alphanumeric_def)
  have bad: "\<not> host_char c \<and> c \<noteq> CHR '':''"
    if "c \<in> {CHR 0x09, CHR 0x0A, CHR 0x0B, CHR 0x0C, CHR 0x0D, CHR 0x20, CHR ''@'', CHR ''/'', CHR ''?'',
      CHR ''#'', CHR ''['', CHR '']''}" for c
    using that by (auto simp: host_char_def ascii_defs)
  show a: "is_ascii ?s"
  proof -
    have "code c < 128" if "c \<in> set ?s" for c
      using c [OF that] by (auto simp: host_char_def ascii_defs)
    then show ?thesis unfolding is_ascii_def list_all_iff by blast
  qed
  show "\<not> has_whitespace ?s"
    unfolding ascii_has_whitespace [OF a] using c bad by blast
  show "\<not> contains_any ''@/?#[]'' ?s"
    unfolding contains_any_iff using c bad by auto
  show "\<not> contains_any '':'' h"
    using assms by (auto simp: contains_any_iff list_all_iff host_char_def ascii_defs)
  show "CHR '':'' \<notin> set (show_nat n)"
    using show_nat_digits [of n] by (auto simp: list_all_iff ascii_digit_def)
qed

lemma slashes_need_slash: "contains_str ''//'' s \<Longrightarrow> contains_any ''@/?#[]'' s"
proof -
  assume "contains_str ''//'' s"
  then have "CHR ''/'' \<in> set s" by (auto simp: contains_str_iff sublist_def)
  then show ?thesis unfolding contains_any_iff by (rule bexI [rotated]) simp
qed

subsection \<open>Properties\<close>

text \<open>
  A gateway authority that parsing accepts prints to a text that parses back to the same
  authority: lower-casing and the canonical port make the printed form a normal form. The parsed
  port is between 1 and 65535.
\<close>

theorem gateway_authority_roundtrip:
  assumes "gateway_authority_parse v = Ok g"
  shows "gateway_authority_parse (as_authority g) = Ok g \<and> 0 < ga_port g \<and> ga_port g \<le> 65535"
proof -
  from assms obtain h where h: "valid_gateway_host h" "h \<noteq> []" "ga_host g = to_ascii_lowercase h"
      "0 < ga_port g" "ga_port g \<le> 65535"
    by (rule parse_Ok)
  let ?h = "to_ascii_lowercase h"
  have v: "valid_gateway_host ?h" using valid_host_lower [OF h(1)] .
  note hc = valid_host_chars [OF v]
  note ch = authority_chars(1-3) [OF hc, of "ga_port g"] authority_chars(4) [OF hc] authority_chars(5) [OF hc, of "ga_port g"]
  let ?s = "?h @ '':'' @ show_nat (ga_port g)"
  have r: "rsplit_once (CHR '':'') ?s = Some (?h, show_nat (ga_port g))"
    using ch(5) by (simp add: rsplit_once_Some_iff)
  have p: "parse_nonzero_u16 (show_nat (ga_port g)) = Some (ga_port g)"
    using h(4,5) by (simp add: parse_nonzero_u16_def parse_uint_show_nat)
  have ne: "?h \<noteq> []" using h(2) by (simp add: to_ascii_lowercase_def)
  have "\<not> (trim ?s \<noteq> ?s \<or> ?s = [] \<or> has_whitespace ?s \<or> contains_str ''//'' ?s \<or> contains_any ''@/?#[]'' ?s)"
    using ch(2,3) slashes_need_slash [of ?s] trim_no_whitespace [OF ch(2)] ne by blast
  then have "gateway_authority_parse ?s = Ok \<lparr>ga_host = to_ascii_lowercase ?h, ga_port = ga_port g\<rparr>"
    unfolding gateway_authority_parse_def using r p v ch(4) ne by (simp only: if_False) simp
  then show ?thesis using h by (simp add: as_authority_def)
qed

theorem gateway_authority_roundtrip_witness:
  "gateway_authority_parse (as_authority \<lparr>ga_host = ''a.b'', ga_port = 443\<rparr>) =
     Ok \<lparr>ga_host = ''a.b'', ga_port = 443\<rparr>"
proof -
  have "gateway_authority_parse ''a.b:443'' = Ok \<lparr>ga_host = ''a.b'', ga_port = 443\<rparr>"
    by (simp add: gateway_authority_parse_def std_defs contains_any_def valid_gateway_host_def
        valid_label_def parse_nonzero_u16_def)
  from gateway_authority_roundtrip [OF this] show ?thesis by simp
qed

text \<open>
  An accepted gateway authority carries no credential, path, query, fragment, bracket, white
  space or second colon, so no URL and no IPv6 literal passes for an authority.
\<close>

theorem gateway_authority_is_bare:
  assumes "gateway_authority_parse v = Ok g"
  shows "\<not> has_whitespace v \<and> \<not> contains_any ''@/?#[]'' v \<and>
    (\<exists>h p. v = h @ '':'' @ p \<and> CHR '':'' \<notin> set h \<and> CHR '':'' \<notin> set p \<and> list_all host_char h)"
  using assms valid_host_chars
  by (fastforce simp: gateway_authority_parse_def result_iffs rsplit_once_Some_iff contains_any_iff
      split: if_splits)

theorem gateway_authority_is_bare_witness:
  "\<not> contains_any ''@/?#[]'' ''a.b:443''"
proof -
  have "gateway_authority_parse ''a.b:443'' = Ok \<lparr>ga_host = ''a.b'', ga_port = 443\<rparr>"
    by (simp add: gateway_authority_parse_def std_defs contains_any_def valid_gateway_host_def
        valid_label_def parse_nonzero_u16_def)
  from gateway_authority_is_bare [OF this] show ?thesis by blast
qed

text \<open>
  A catalog built from a lookup resolves every connector class, to exactly the reference the
  lookup gave for that class, and never falls back from one class to another; it is built only
  if all three references are present and well formed.
\<close>

theorem catalog_has_no_fallback:
  "(\<exists>c. catalog_from_lookup lookup = Ok c \<and>
      (\<forall>k. \<exists>s. lookup k = Some s \<and> catalog_resolve c k = Some (ConnectorRef s)))
    \<longleftrightarrow> (\<forall>k. \<exists>s. lookup k = Some s \<and> connector_ref_parse s = Ok (ConnectorRef s))"
proof -
  have all: "(\<forall>k. P k) \<longleftrightarrow> P ConnNone \<and> P ConnPublic \<and> P ConnAllowlist" for P
    by (metis connector_class.exhaust)
  have g: "catalog_get lookup k = Ok r \<longleftrightarrow> (\<exists>s. lookup k = Some s \<and> connector_ref_parse s = Ok (ConnectorRef s)
      \<and> r = ConnectorRef s)" for k r
    by (auto simp: catalog_get_def result_iffs connector_ref_parse_def split: if_splits)
  show ?thesis
    by (auto simp: all catalog_from_lookup_def and_then_Ok_iff g catalog_new_def catalog_resolve_def)
qed

end
