(* ===== verification/Rust_Net.thy ===== *)
theory Rust_Net
  imports Rust_Strings
begin

section \<open>\<open>core::net\<close>: address literals\<close>

text \<open>
  The recogniser of \<open>IpAddr::from_str\<close>, after the parser of the standard library: an IPv4
  literal gives its address, an IPv6 literal is only recognised, since the gateway refuses it.
  Each reader consumes a prefix and returns the rest, or nothing.
\<close>

subsection \<open>Readers\<close>

definition hex_digit :: "char \<Rightarrow> bool" where
  "hex_digit c \<longleftrightarrow> ascii_digit c \<or> 97 \<le> code c \<and> code c \<le> 102 \<or> 65 \<le> code c \<and> code c \<le> 70"

definition read_octet :: "string \<Rightarrow> string option" where
  "read_octet s =
     (if parse_octet (takeWhile ascii_digit s) = None then None else Some (dropWhile ascii_digit s))"

definition read_ipv4 :: "string \<Rightarrow> string option" where
  "read_ipv4 s =
     Option.bind (read_octet s) (\<lambda>s. Option.bind (strip_prefix ''.'' s) (\<lambda>s.
     Option.bind (read_octet s) (\<lambda>s. Option.bind (strip_prefix ''.'' s) (\<lambda>s.
     Option.bind (read_octet s) (\<lambda>s. Option.bind (strip_prefix ''.'' s) read_octet)))))"

definition read_group :: "string \<Rightarrow> string option" where
  "read_group s =
     (let ds = takeWhile hex_digit s
      in if ds = [] \<or> length ds > 4 then None else Some (dropWhile hex_digit s))"

text \<open>
  \<open>read_groups i n s\<close> reads the groups \<open>i\<close>, \<open>i + 1\<close>, \<open>...\<close> into \<open>n\<close> remaining slots: how many
  groups are read in all, whether the last was an embedded IPv4 address, and the rest.
\<close>

fun read_groups :: "nat \<Rightarrow> nat \<Rightarrow> string \<Rightarrow> nat \<times> bool \<times> string" where
  "read_groups i 0 s = (i, False, s)"
| "read_groups i (Suc n) s =
     (let at = (if i = 0 then Some s else strip_prefix '':'' s)
      in case (if n > 0 then Option.bind at read_ipv4 else None) of
           Some r \<Rightarrow> (i + 2, True, r)
         | None \<Rightarrow>
             (case Option.bind at read_group of
                Some r \<Rightarrow> read_groups (Suc i) n r
              | None \<Rightarrow> (i, False, s)))"

definition ipv6_literal :: "string \<Rightarrow> bool" where
  "ipv6_literal s =
     (case read_groups 0 8 s of
        (hs, h4, r) \<Rightarrow>
          if hs = 8 then r = []
          else if h4 then False
          else (case strip_prefix ''::'' r of
                  None \<Rightarrow> False
                | Some r' \<Rightarrow> (case read_groups 0 (8 - (hs + 1)) r' of (_, _, r'') \<Rightarrow> r'' = [])))"

datatype ip_addr = V4 ipv4 | V6

definition parse_ip :: "string \<Rightarrow> ip_addr option" where
  "parse_ip s =
     (case parse_ipv4 s of Some a \<Rightarrow> Some (V4 a) | None \<Rightarrow> if ipv6_literal s then Some V6 else None)"

lemma parse_ip_V4: "parse_ip s = Some (V4 a) \<longleftrightarrow> parse_ipv4 s = Some a"
  by (auto simp: parse_ip_def split: option.splits)

lemmas net_defs [std_defs] = hex_digit_def read_octet_def read_ipv4_def read_group_def
  ipv6_literal_def parse_ip_def

lemma ipv6_examples:
  "ipv6_literal ''::''" "ipv6_literal ''fe80::1''" "ipv6_literal ''::ffff:1.2.3.4''"
  "ipv6_literal ''1:2:3:4:5:6:7:8''"
  "\<not> ipv6_literal ''example.com''" "\<not> ipv6_literal ''1:2:3''" "\<not> ipv6_literal ''1.2.3.4''"
  "\<not> ipv6_literal ''12345::''" "\<not> ipv6_literal ''''"
  by (simp_all add: std_defs numeral_eq_Suc)

end
