(* ===== verification/Egress_Policy.thy ===== *)
theory Egress_Policy
  imports Hand_Policy Rust_Net
begin

section \<open>The egress gateway's destination policy (\<open>hand-egress-gateway/src/policy.rs\<close>)\<close>

text \<open>
  Validation of a capability's destinations and authorization of one target against them and
  against the permanent denials of the deployment. IDNA mapping, the public-unicast classifier,
  the CIDR type and the DNS resolver are code outside the repository: they are the fields of
  \<open>egress_env\<close>. \<open>'c\<close> is the type of CIDR blocks, ports are \<open>u16\<close> values.
\<close>

subsection \<open>Data\<close>

datatype policy_error =
    MalformedPolicy | MalformedTarget | Ipv6Unsupported | PermanentDeny | Denied | ResolutionFailed

datatype destination_protocol = Tls | Tcp

record 'c capability_destination =
  cd_host :: "string option"
  cd_cidr :: "'c option"
  cd_ports :: "nat list"
  cd_protocol :: destination_protocol

datatype 'c validated_destination =
    DHost string nat
  | DCidr 'c nat

record 'c deny_policy =
  dp_hosts :: "string list"
  dp_cidrs :: "'c list"

record authorized_target =
  at_address :: ipv4
  at_port :: nat
  at_expected_sni :: "string option"

datatype dns_record = CNAME string | A ipv4 | AAAA | OtherRecord

record 'c egress_env =
  domain_to_ascii_strict :: "string \<Rightarrow> string option"
  is_public_unicast :: "ipv4 \<Rightarrow> bool"
  cidr_contains :: "'c \<Rightarrow> ipv4 \<Rightarrow> bool"
  lookup_ip :: "string \<Rightarrow> dns_record list option"

definition MAX_PORTS_PER_DESTINATION :: nat where
  "MAX_PORTS_PER_DESTINATION = 32"

subsection \<open>Host names\<close>

definition normalize_host :: "'c egress_env \<Rightarrow> string \<Rightarrow> (policy_error, string) result" where
  "normalize_host env value =
     (if value = [] \<or> length value > 253 \<or> starts_with ''.'' value \<or> ends_with ''.'' value
         \<or> CHR ''*'' \<in> set value \<or> has_whitespace value
      then Err MalformedTarget
      else and_then (ok_or (domain_to_ascii_strict env value) MalformedTarget) (\<lambda>ascii.
        let ascii = to_ascii_lowercase ascii in
        if ascii = [] \<or> list_ex (\<lambda>label. label = [] \<or> length label > 63) (split_on (CHR ''.'') ascii)
        then Err MalformedTarget
        else Ok ascii))"

definition normalize_host_pattern :: "'c egress_env \<Rightarrow> string \<Rightarrow> (policy_error, string) result" where
  "normalize_host_pattern env value =
     (case strip_prefix ''*.'' value of
        Some sfx \<Rightarrow>
          and_then (normalize_host env sfx) (\<lambda>sfx.
            if CHR ''.'' \<notin> set sfx then Err MalformedPolicy else Ok (''*.'' @ sfx))
      | None \<Rightarrow> normalize_host env value)"

definition host_matches :: "string \<Rightarrow> string \<Rightarrow> bool" where
  "host_matches pattern host =
     (case strip_prefix ''*.'' pattern of
        Some sfx \<Rightarrow>
          length host > length sfx + 1 \<and> ends_with sfx host
          \<and> host ! (length host - length sfx - 1) = CHR ''.''
      | None \<Rightarrow> pattern = host)"

definition trim_end_dots :: "string \<Rightarrow> string" where
  "trim_end_dots s = rev (dropWhile (\<lambda>c. c = CHR ''.'') (rev s))"

definition normalize_dns_name :: "'c egress_env \<Rightarrow> string \<Rightarrow> (policy_error, string) result" where
  "normalize_dns_name env value = normalize_host env (trim_end_dots value)"

subsection \<open>Policies\<close>

definition denies_host :: "'c deny_policy \<Rightarrow> string \<Rightarrow> bool" where
  "denies_host deny host = list_ex (\<lambda>pattern. host_matches pattern host) (dp_hosts deny)"

definition denies_ip :: "'c egress_env \<Rightarrow> 'c deny_policy \<Rightarrow> ipv4 \<Rightarrow> bool" where
  "denies_ip env deny address = list_ex (\<lambda>cidr. cidr_contains env cidr address) (dp_cidrs deny)"

definition check_ip :: "'c egress_env \<Rightarrow> 'c deny_policy \<Rightarrow> ipv4 \<Rightarrow> (policy_error, unit) result" where
  "check_ip env deny address =
     (if \<not> is_public_unicast env address \<or> denies_ip env deny address then Err PermanentDeny else Ok ())"

text \<open>One destination: ports sorted and deduplicated, then the arm that fits its shape.\<close>

definition validate_destination ::
    "'c egress_env \<Rightarrow> 'c capability_destination \<Rightarrow> (policy_error, 'c validated_destination list) result" where
  "validate_destination env d =
     (if cd_ports d = [] \<or> length (cd_ports d) > MAX_PORTS_PER_DESTINATION then Err MalformedPolicy
      else let ports = remdups_adj (sort (cd_ports d)) in
        if length ports \<noteq> length (cd_ports d) \<or> 0 \<in> set ports then Err MalformedPolicy
        else (case (cd_host d, cd_cidr d, cd_protocol d) of
                (Some host, None, Tls) \<Rightarrow>
                  if ports = [443]
                  then and_then (normalize_host_pattern env host) (\<lambda>pattern. Ok [DHost pattern 443])
                  else Err MalformedPolicy
              | (None, Some cidr, Tcp) \<Rightarrow> Ok (map (DCidr cidr) ports)
              | _ \<Rightarrow> Err MalformedPolicy))"

fun validated_policy_new ::
    "'c egress_env \<Rightarrow> 'c capability_destination list \<Rightarrow> (policy_error, 'c validated_destination list) result"
where
  "validated_policy_new env [] = Ok []"
| "validated_policy_new env (d # ds) =
     and_then (validate_destination env d) (\<lambda>xs.
     and_then (validated_policy_new env ds) (\<lambda>ys. Ok (xs @ ys)))"

subsection \<open>Authorization\<close>

definition cidr_allows ::
    "'c egress_env \<Rightarrow> 'c validated_destination list \<Rightarrow> nat \<Rightarrow> ipv4 \<Rightarrow> bool" where
  "cidr_allows env policy port address =
     list_ex (\<lambda>d. case d of DCidr cidr p \<Rightarrow> p = port \<and> cidr_contains env cidr address | _ \<Rightarrow> False) policy"

definition host_allows :: "'c validated_destination list \<Rightarrow> nat \<Rightarrow> string \<Rightarrow> bool" where
  "host_allows policy port host =
     list_ex (\<lambda>d. case d of DHost pattern p \<Rightarrow> p = port \<and> host_matches pattern host | _ \<Rightarrow> False) policy"

fun checked_ipv4_answers ::
    "'c egress_env \<Rightarrow> 'c deny_policy \<Rightarrow> dns_record list \<Rightarrow> (policy_error, ipv4 list) result" where
  "checked_ipv4_answers env deny [] = Ok []"
| "checked_ipv4_answers env deny (CNAME cname # rs) =
     and_then (normalize_dns_name env cname) (\<lambda>alias.
       if denies_host deny alias then Err PermanentDeny else checked_ipv4_answers env deny rs)"
| "checked_ipv4_answers env deny (A address # rs) =
     and_then (check_ip env deny address) (\<lambda>_.
     and_then (checked_ipv4_answers env deny rs) (\<lambda>addresses. Ok (address # addresses)))"
| "checked_ipv4_answers env deny (AAAA # rs) = Err Ipv6Unsupported"
| "checked_ipv4_answers env deny (OtherRecord # rs) = checked_ipv4_answers env deny rs"

text \<open>\<open>sort_unstable\<close> and \<open>dedup\<close> on IPv4 addresses, whose order is that of the 32-bit value.\<close>

definition sort_addresses :: "ipv4 list \<Rightarrow> ipv4 list" where
  "sort_addresses = (\<lambda>xs. remdups_adj (sort xs))"

definition authorize_host ::
    "'c egress_env \<Rightarrow> 'c validated_destination list \<Rightarrow> 'c deny_policy \<Rightarrow> string \<Rightarrow> nat
      \<Rightarrow> (policy_error, authorized_target) result" where
  "authorize_host env policy deny authority port =
     and_then (normalize_host env authority) (\<lambda>host.
       if denies_host deny host then Err PermanentDeny
       else
         let host_rule = host_allows policy port host in
         and_then (ok_or (lookup_ip env (host @ ''.'')) ResolutionFailed) (\<lambda>answers.
         and_then (checked_ipv4_answers env deny answers) (\<lambda>addresses.
           let addresses = sort_addresses addresses in
           if addresses = [] then Err ResolutionFailed
           else
             let cidr_rule = list_all (cidr_allows env policy port) addresses in
             if \<not> host_rule \<and> \<not> cidr_rule then Err Denied
             else Ok \<lparr>at_address = hd addresses, at_port = port,
                      at_expected_sni = (if host_rule then Some host else None)\<rparr>)))"

definition authorize ::
    "'c egress_env \<Rightarrow> 'c validated_destination list \<Rightarrow> 'c deny_policy \<Rightarrow> string \<Rightarrow> nat
      \<Rightarrow> (policy_error, authorized_target) result" where
  "authorize env policy deny authority port =
     (if port = 0 then Err MalformedTarget
      else (case parse_ip authority of
              Some V6 \<Rightarrow> Err Ipv6Unsupported
            | Some (V4 address) \<Rightarrow>
                and_then (check_ip env deny address) (\<lambda>_.
                  if \<not> cidr_allows env policy port address then Err Denied
                  else Ok \<lparr>at_address = address, at_port = port, at_expected_sni = None\<rparr>)
            | None \<Rightarrow> authorize_host env policy deny authority port))"

subsection \<open>Lemmas\<close>

lemma check_ip_Ok [simp]:
  "check_ip env deny a = Ok u \<longleftrightarrow> is_public_unicast env a \<and> \<not> denies_ip env deny a"
  by (auto simp: check_ip_def)

lemma host_matches_wildcard:
  "host_matches (''*.'' @ sfx) host \<longleftrightarrow> (\<exists>label. label \<noteq> [] \<and> host = label @ ''.'' @ sfx)"
proof -
  have "host_matches (''*.'' @ sfx) host \<longleftrightarrow>
      length host > length sfx + 1 \<and> (\<exists>p. host = p @ sfx)
        \<and> host ! (length host - length sfx - 1) = CHR ''.''"
    by (simp add: host_matches_def ends_with_iff suffix_def)
  also have "\<dots> \<longleftrightarrow> (\<exists>label. label \<noteq> [] \<and> host = label @ ''.'' @ sfx)"
  proof (intro iffI; elim conjE exE)
    fix p assume l: "length host > length sfx + 1" and h: "host = p @ sfx"
      and d: "host ! (length host - length sfx - 1) = CHR ''.''"
    then have lp: "length p > 1" by simp
    then obtain q where "p = q @ [last p]" "q \<noteq> []"
      by (cases p rule: rev_cases) auto
    moreover have "last p = CHR ''.''"
    proof -
      have "length p - Suc 0 < length p" "p \<noteq> []" using lp by auto
      then show ?thesis using d by (simp add: h nth_append last_conv_nth)
    qed
    ultimately show "\<exists>label. label \<noteq> [] \<and> host = label @ ''.'' @ sfx"
      using h by (metis append.assoc)
  qed auto
  finally show ?thesis .
qed

lemma cidr_allowsD:
  assumes "cidr_allows env policy port a"
  shows "\<exists>cidr. DCidr cidr port \<in> set policy \<and> cidr_contains env cidr a"
proof -
  from assms obtain d where "d \<in> set policy"
      "case d of DCidr cidr p \<Rightarrow> p = port \<and> cidr_contains env cidr a | _ \<Rightarrow> False"
    unfolding cidr_allows_def list_ex_iff by blast
  then show ?thesis by (cases d rule: validated_destination.exhaust) auto
qed

lemma host_allowsD:
  assumes "host_allows policy port host"
  shows "\<exists>pattern. DHost pattern port \<in> set policy \<and> host_matches pattern host"
proof -
  from assms obtain d where "d \<in> set policy"
      "case d of DHost pattern p \<Rightarrow> p = port \<and> host_matches pattern host | _ \<Rightarrow> False"
    unfolding host_allows_def list_ex_iff by blast
  then show ?thesis by (cases d rule: validated_destination.exhaust) auto
qed

lemma answers_checked:
  assumes "checked_ipv4_answers env deny rs = Ok xs"
  shows "set xs = {a. A a \<in> set rs}" and "AAAA \<notin> set rs"
    and "a \<in> set xs \<Longrightarrow> is_public_unicast env a \<and> \<not> denies_ip env deny a"
    and "CNAME c \<in> set rs \<Longrightarrow> \<exists>h. normalize_dns_name env c = Ok h \<and> \<not> denies_host deny h"
proof -
  have "set xs = {a. A a \<in> set rs} \<and> AAAA \<notin> set rs
      \<and> (\<forall>a\<in>set xs. is_public_unicast env a \<and> \<not> denies_ip env deny a)
      \<and> (\<forall>c. CNAME c \<in> set rs \<longrightarrow> (\<exists>h. normalize_dns_name env c = Ok h \<and> \<not> denies_host deny h))"
    using assms
  proof (induction rs arbitrary: xs)
    case (Cons r rs)
    then show ?case
      by (cases r) (fastforce simp: and_then_Ok_iff split: if_splits)+
  qed simp
  then show "set xs = {a. A a \<in> set rs}" and "AAAA \<notin> set rs"
    and "a \<in> set xs \<Longrightarrow> is_public_unicast env a \<and> \<not> denies_ip env deny a"
    and "CNAME c \<in> set rs \<Longrightarrow> \<exists>h. normalize_dns_name env c = Ok h \<and> \<not> denies_host deny h"
    by blast+
qed

lemma sort_addresses_set [simp]: "set (sort_addresses xs) = set xs" "sort_addresses xs = [] \<longleftrightarrow> xs = []"
  by (auto simp: sort_addresses_def) (metis set_empty set_sort remdups_adj_set)

lemma authorize_host_Ok:
  assumes "authorize_host env policy deny authority port = Ok t"
  obtains host answers addresses where "normalize_host env authority = Ok host" "\<not> denies_host deny host"
    "lookup_ip env (host @ ''.'') = Some answers" "checked_ipv4_answers env deny answers = Ok addresses"
    "at_address t \<in> set addresses" "at_port t = port"
    "at_expected_sni t = (if host_allows policy port host then Some host else None)"
    "\<not> host_allows policy port host \<Longrightarrow> \<forall>a\<in>set addresses. cidr_allows env policy port a"
proof -
  from assms obtain host answers addresses where
    h: "normalize_host env authority = Ok host" "\<not> denies_host deny host"
      "lookup_ip env (host @ ''.'') = Some answers" "checked_ipv4_answers env deny answers = Ok addresses"
    and ne: "sort_addresses addresses \<noteq> []"
    and ok: "host_allows policy port host \<or> list_all (cidr_allows env policy port) (sort_addresses addresses)"
    and t: "t = \<lparr>at_address = hd (sort_addresses addresses), at_port = port,
      at_expected_sni = (if host_allows policy port host then Some host else None)\<rparr>"
    by (auto simp: authorize_host_def Let_def and_then_Ok_iff split: if_splits)
  have "hd (sort_addresses addresses) \<in> set addresses"
    using hd_in_set [OF ne] by simp
  with h ok t show thesis by (intro that [of host answers addresses]) (auto simp: list_all_iff)
qed

lemma sorted_distinct_adj: "sorted (xs :: 'a :: linorder list) \<Longrightarrow> distinct_adj xs \<Longrightarrow> distinct xs"
proof (induction xs)
  case (Cons x xs)
  then have "distinct xs" by (cases xs) simp_all
  moreover have "x < y" if "y \<in> set xs" for y
  proof (cases xs)
    case (Cons z zs)
    then have "x < z" "z \<le> y" using Cons.prems that by auto
    then show ?thesis by simp
  qed (use that in simp)
  ultimately show ?case by auto
qed simp

lemma validate_destination_Ok:
  assumes "validate_destination env d = Ok xs"
  shows "(\<exists>host pattern. cd_host d = Some host \<and> cd_cidr d = None \<and> cd_protocol d = Tls \<and> cd_ports d = [443]
      \<and> normalize_host_pattern env host = Ok pattern \<and> xs = [DHost pattern 443])
    \<or> (\<exists>cidr. cd_host d = None \<and> cd_cidr d = Some cidr \<and> cd_protocol d = Tcp
      \<and> distinct (cd_ports d) \<and> 0 \<notin> set (cd_ports d) \<and> xs = map (DCidr cidr) (sort (cd_ports d)))"
proof -
  let ?ps = "remdups_adj (sort (cd_ports d))"
  from assms have len: "length ?ps = length (sort (cd_ports d))" and z: "0 \<notin> set (cd_ports d)"
    by (auto simp: validate_destination_def Let_def split: if_splits)
  then have da: "distinct_adj (sort (cd_ports d))" by (simp add: distinct_adj_conv_length_remdups_adj)
  then have eq: "?ps = sort (cd_ports d)" by (simp add: distinct_adj_altdef)
  have di: "distinct (cd_ports d)" using sorted_distinct_adj [OF _ da] by simp
  have one: "sort (cd_ports d) = [443] \<Longrightarrow> cd_ports d = [443]"
    using di by (metis length_0_conv length_Suc_conv length_sort list.set(1) list.simps(15) set_sort singleton_insert_inj_eq')
  show ?thesis
    using assms z di one unfolding validate_destination_def Let_def eq
    by (auto simp: and_then_Ok_iff split: if_splits option.splits destination_protocol.splits)
qed

text \<open>What a validated policy holds, destination by destination.\<close>

lemma validated_policy_elem:
  assumes "validated_policy_new env ds = Ok ys" and "y \<in> set ys"
  shows "\<exists>d\<in>set ds. \<exists>xs. validate_destination env d = Ok xs \<and> y \<in> set xs"
  using assms by (induction ds arbitrary: ys) (fastforce simp: and_then_Ok_iff)+

lemma normalize_host_Ok:
  "normalize_host env v = Ok h \<Longrightarrow>
     h \<noteq> [] \<and> (\<forall>label\<in>set (split_on (CHR ''.'') h). label \<noteq> [] \<and> length label \<le> 63) \<and> to_ascii_lowercase h = h"
  by (auto simp: normalize_host_def and_then_Ok_iff Let_def list_ex_iff not_less split: if_splits)

subsection \<open>Properties\<close>

text \<open>
  C20. Whatever the resolver answers, an authorized target is a public address outside every
  denied block, on the requested non-zero port, and the capability covers it: without an expected
  server name one of its CIDR rules holds the address and port; with one, the name is the
  normalized requested host, is not denied, and matches one of the capability's host patterns on
  that port.
\<close>

theorem authorize_sound:
  assumes "authorize env policy deny authority port = Ok t"
  shows "port \<noteq> 0 \<and> at_port t = port
    \<and> is_public_unicast env (at_address t) \<and> \<not> denies_ip env deny (at_address t)
    \<and> (case at_expected_sni t of
         None \<Rightarrow> \<exists>cidr. DCidr cidr port \<in> set policy \<and> cidr_contains env cidr (at_address t)
       | Some host \<Rightarrow> normalize_host env authority = Ok host \<and> \<not> denies_host deny host
           \<and> (\<exists>pattern. DHost pattern port \<in> set policy \<and> host_matches pattern host))"
proof -
  show ?thesis
  proof (cases "parse_ip authority")
    case (Some ip)
    then show ?thesis using assms cidr_allowsD
      by (cases ip) (auto simp: authorize_def and_then_Ok_iff split: if_splits)
  next
    case None
    then have p: "port \<noteq> 0" and "authorize_host env policy deny authority port = Ok t"
      using assms by (auto simp: authorize_def split: if_splits)
    from authorize_host_Ok [OF this(2)] obtain host answers addresses where
      h: "normalize_host env authority = Ok host" "\<not> denies_host deny host"
        "checked_ipv4_answers env deny answers = Ok addresses"
        "at_address t \<in> set addresses" "at_port t = port"
        "at_expected_sni t = (if host_allows policy port host then Some host else None)"
        "\<not> host_allows policy port host \<Longrightarrow> \<forall>a\<in>set addresses. cidr_allows env policy port a"
      by metis
    have "\<exists>cidr. DCidr cidr port \<in> set policy \<and> cidr_contains env cidr (at_address t)"
      if "\<not> host_allows policy port host"
      using h(4) h(7) [OF that] cidr_allowsD by blast
    then show ?thesis using p h(1,2,5,6) answers_checked(3) [OF h(3,4)]
        host_allowsD [of policy port host] by auto
  qed
qed

definition sample_env :: "ipv4 egress_env" where
  "sample_env = \<lparr>domain_to_ascii_strict = Some, is_public_unicast = (\<lambda>a. a \<noteq> 0),
     cidr_contains = (\<lambda>c a. c = a), lookup_ip = (\<lambda>_. Some [CNAME ''cdn.b.'', A 9])\<rparr>"

definition sample_deny :: "ipv4 deny_policy" where
  "sample_deny = \<lparr>dp_hosts = [''metadata.b''], dp_cidrs = [10]\<rparr>"

lemma sample_name: "parse_ip ''a.b'' = None"
  by (simp add: std_defs numeral_eq_Suc)

lemma sample_authorize:
  "authorize sample_env [DHost ''*.b'' 443] sample_deny ''a.b'' 443 =
     Ok \<lparr>at_address = 9, at_port = 443, at_expected_sni = Some ''a.b''\<rparr>"
  by (simp add: authorize_def sample_name authorize_host_def sample_env_def sample_deny_def normalize_host_def
      denies_host_def host_allows_def host_matches_def normalize_dns_name_def trim_end_dots_def
      check_ip_def denies_ip_def sort_addresses_def ascii_defs ws_defs prefix_defs)

theorem authorize_sound_witness:
  "\<not> denies_ip sample_env sample_deny 9 \<and> host_matches ''*.b'' ''a.b''"
  using authorize_sound [OF sample_authorize] by simp

text \<open>
  A target authorized by name was resolved through answers that were all checked: no answer is
  an IPv6 address, no alias in the chain is denied, every address in it is public and not denied,
  and when no host rule matched, every address is inside the capability's CIDR rules, not only the
  one connected to.
\<close>

theorem authorize_checks_every_answer:
  assumes "authorize env policy deny authority port = Ok t" and "parse_ip authority = None"
  shows "\<exists>host answers. normalize_host env authority = Ok host
    \<and> lookup_ip env (host @ ''.'') = Some answers \<and> A (at_address t) \<in> set answers
    \<and> AAAA \<notin> set answers
    \<and> (\<forall>c. CNAME c \<in> set answers \<longrightarrow> (\<exists>h. normalize_dns_name env c = Ok h \<and> \<not> denies_host deny h))
    \<and> (\<forall>a. A a \<in> set answers \<longrightarrow> is_public_unicast env a \<and> \<not> denies_ip env deny a)
    \<and> (at_expected_sni t = None \<longrightarrow> (\<forall>a. A a \<in> set answers \<longrightarrow> cidr_allows env policy port a))"
proof -
  from assms have "authorize_host env policy deny authority port = Ok t"
    by (simp add: authorize_def split: if_splits)
  from authorize_host_Ok [OF this] obtain host answers addresses where
    h: "normalize_host env authority = Ok host" "lookup_ip env (host @ ''.'') = Some answers"
      "checked_ipv4_answers env deny answers = Ok addresses" "at_address t \<in> set addresses"
      "at_expected_sni t = (if host_allows policy port host then Some host else None)"
      "\<not> host_allows policy port host \<Longrightarrow> \<forall>a\<in>set addresses. cidr_allows env policy port a"
    by metis
  note c = answers_checked [OF h(3)]
  show ?thesis using h c(1,2) c(3) c(4)
    by (intro exI [of _ host] exI [of _ answers]) (auto split: if_splits)
qed

theorem authorize_checks_every_answer_witness:
  "\<exists>answers. lookup_ip sample_env ''a.b.'' = Some answers \<and> A 9 \<in> set answers \<and> AAAA \<notin> set answers"
proof -
  have "normalize_host sample_env ''a.b'' = Ok ''a.b''"
    by (simp add: normalize_host_def sample_env_def std_defs)
  with authorize_checks_every_answer [OF sample_authorize sample_name] show ?thesis by auto
qed

text \<open>
  A wildcard pattern matches exactly the hosts with at least one more label in front of its
  suffix, at a label boundary, and any other pattern matches exactly itself.
\<close>

theorem host_matches_at_label_boundary:
  "host_matches pattern host \<longleftrightarrow>
     (case strip_prefix ''*.'' pattern of
        Some sfx \<Rightarrow> \<exists>label. label \<noteq> [] \<and> host = label @ ''.'' @ sfx
      | None \<Rightarrow> host = pattern)"
proof (cases "strip_prefix ''*.'' pattern")
  case None
  then show ?thesis by (auto simp: host_matches_def)
next
  case (Some sfx)
  then have "pattern = ''*.'' @ sfx" by simp
  with host_matches_wildcard [of sfx host] Some show ?thesis by simp
qed

text \<open>
  C25. A validated policy holds only host rules on port 443 that come from a TLS destination, with
  a wildcard only above a suffix of at least two labels, and CIDR rules on the non-zero ports of a
  TCP destination with that block: validation never widens what was signed.
\<close>

theorem validated_policy_never_widens:
  assumes "validated_policy_new env ds = Ok ys" and "y \<in> set ys"
  shows "\<exists>d\<in>set ds. case y of
      DHost pattern port \<Rightarrow> cd_protocol d = Tls \<and> port = 443 \<and> cd_ports d = [443]
        \<and> (\<exists>host. cd_host d = Some host \<and> normalize_host_pattern env host = Ok pattern
          \<and> (starts_with ''*.'' host \<longrightarrow> (\<exists>sfx. pattern = ''*.'' @ sfx \<and> CHR ''.'' \<in> set sfx)))
    | DCidr cidr port \<Rightarrow> cd_protocol d = Tcp \<and> cd_cidr d = Some cidr \<and> port \<in> set (cd_ports d) \<and> port \<noteq> 0"
proof -
  from validated_policy_elem [OF assms] obtain d xs where
    d: "d \<in> set ds" "validate_destination env d = Ok xs" "y \<in> set xs" by blast
  have wild: "\<exists>sfx. pattern = ''*.'' @ sfx \<and> CHR ''.'' \<in> set sfx"
    if "normalize_host_pattern env host = Ok pattern" "starts_with ''*.'' host" for host pattern
    using that by (auto simp: normalize_host_pattern_def starts_with_def and_then_Ok_iff
        split: option.splits if_splits)
  show ?thesis
  proof (rule bexI [OF _ d(1)])
    show "case y of
      DHost pattern port \<Rightarrow> cd_protocol d = Tls \<and> port = 443 \<and> cd_ports d = [443]
        \<and> (\<exists>host. cd_host d = Some host \<and> normalize_host_pattern env host = Ok pattern
          \<and> (starts_with ''*.'' host \<longrightarrow> (\<exists>sfx. pattern = ''*.'' @ sfx \<and> CHR ''.'' \<in> set sfx)))
    | DCidr cidr port \<Rightarrow> cd_protocol d = Tcp \<and> cd_cidr d = Some cidr \<and> port \<in> set (cd_ports d) \<and> port \<noteq> 0"
      using validate_destination_Ok [OF d(2)]
    proof (elim disjE exE conjE)
      fix host pattern assume "cd_host d = Some host" "cd_protocol d = Tls" "cd_ports d = [443]"
        "normalize_host_pattern env host = Ok pattern" "xs = [DHost pattern 443]"
      then show ?thesis using d(3) wild [of host pattern] by simp
    next
      fix cidr assume "cd_cidr d = Some cidr" "cd_protocol d = Tcp" "0 \<notin> set (cd_ports d)"
        "xs = map (DCidr cidr) (sort (cd_ports d))"
      then show ?thesis using d(3) by (auto intro: ccontr)
    qed
  qed
qed

theorem validated_policy_never_widens_witness:
  "\<exists>d\<in>set [\<lparr>cd_host = None, cd_cidr = Some (9 :: ipv4), cd_ports = [25], cd_protocol = Tcp\<rparr>]. 25 \<in> set (cd_ports d)"
  using validated_policy_never_widens [of sample_env
      "[\<lparr>cd_host = None, cd_cidr = Some 9, cd_ports = [25], cd_protocol = Tcp\<rparr>]" "[DCidr 9 25]" "DCidr 9 25"]
  by (simp add: validate_destination_def MAX_PORTS_PER_DESTINATION_def)

end
