(* ===== verification/Tls_Hello.thy ===== *)
theory Tls_Hello
  imports Egress_Policy
begin

section \<open>The ClientHello gate (\<open>hand-egress-gateway/src/tls.rs\<close>)\<close>

text \<open>
  The gateway reads one TLS ClientHello, checks the server name in it, and forwards the exact
  bytes. A \<open>Cursor\<close> is the part of its slice that is left; both operands of its \<open>checked_add\<close>
  are bounded by the slice, so that sum never overflows. The stream is the list of bytes the
  client sends; \<open>eof\<close> is the error the reader gives when they run out (a timeout or a closed
  connection).
\<close>

datatype tls_error =
    Timeout | Truncated | TooLarge | NotClientHello | Malformed | MissingSni | EchUnsupported
  | TlsPolicy policy_error

definition MAX_CLIENT_HELLO_BYTES :: nat where "MAX_CLIENT_HELLO_BYTES = 64 * 1024"
definition HANDSHAKE_CONTENT_TYPE :: nat where "HANDSHAKE_CONTENT_TYPE = 22"
definition CLIENT_HELLO_TYPE :: nat where "CLIENT_HELLO_TYPE = 1"
definition SERVER_NAME_EXTENSION :: nat where "SERVER_NAME_EXTENSION = 0"
definition ECH_EXTENSION :: nat where "ECH_EXTENSION = 0xfe0d"

lemmas tls_consts = MAX_CLIENT_HELLO_BYTES_def HANDSHAKE_CONTENT_TYPE_def CLIENT_HELLO_TYPE_def
  SERVER_NAME_EXTENSION_def ECH_EXTENSION_def

subsection \<open>Cursors\<close>

definition cur_take :: "nat \<Rightarrow> bytes \<Rightarrow> (tls_error, bytes \<times> bytes) result" where
  "cur_take n b = (if n \<le> length b then Ok (take n b, drop n b) else Err Truncated)"

definition cur_u8 :: "bytes \<Rightarrow> (tls_error, nat \<times> bytes) result" where
  "cur_u8 b = and_then (cur_take 1 b) (\<lambda>(v, r). Ok (code (v ! 0), r))"

definition cur_u16 :: "bytes \<Rightarrow> (tls_error, nat \<times> bytes) result" where
  "cur_u16 b = and_then (cur_take 2 b) (\<lambda>(v, r). Ok (code (v ! 0) * 256 + code (v ! 1), r))"

definition cur_u24 :: "bytes \<Rightarrow> (tls_error, nat \<times> bytes) result" where
  "cur_u24 b =
     and_then (cur_take 3 b)
       (\<lambda>(v, r). Ok (code (v ! 0) * 65536 + code (v ! 1) * 256 + code (v ! 2), r))"

lemmas cur_defs = cur_take_def cur_u8_def cur_u16_def cur_u24_def

text \<open>What reading leaves: the value's bytes are consumed from the front.\<close>

lemma cur_take_Ok [simp]: "cur_take n b = Ok (v, r) \<longleftrightarrow> b = v @ r \<and> length v = n"
  by (auto simp: cur_take_def)

lemma cur_u8_Ok: "cur_u8 b = Ok (n, r) \<longleftrightarrow> (\<exists>c. b = c # r \<and> n = code c)"
  by (auto simp: cur_u8_def and_then_Ok_iff length_Suc_conv)

lemma cur_u16_Ok: "cur_u16 b = Ok (n, r) \<longleftrightarrow> (\<exists>c d. b = c # d # r \<and> n = code c * 256 + code d)"
  by (auto simp: cur_u16_def and_then_Ok_iff length_Suc_conv numeral_2_eq_2)

lemma cur_u24_Ok:
  "cur_u24 b = Ok (n, r) \<longleftrightarrow>
     (\<exists>c d e. b = c # d # e # r \<and> n = code c * 65536 + code d * 256 + code e)"
  by (auto simp: cur_u24_def and_then_Ok_iff length_Suc_conv numeral_3_eq_3)

lemmas cur_Ok = cur_take_Ok cur_u8_Ok cur_u16_Ok cur_u24_Ok

subsection \<open>Server names\<close>

text \<open>
  One entry of a server name list, and one extension: kind, value, and the rest of the cursor.
\<close>

definition read_name :: "bytes \<Rightarrow> (tls_error, nat \<times> bytes \<times> bytes) result" where
  "read_name l =
     and_then (cur_u8 l) (\<lambda>(kind, r).
     and_then (cur_u16 r) (\<lambda>(len, r).
     and_then (cur_take len r) (\<lambda>(val, r). Ok (kind, val, r))))"

definition read_extension :: "bytes \<Rightarrow> (tls_error, nat \<times> bytes \<times> bytes) result" where
  "read_extension l =
     and_then (cur_u16 l) (\<lambda>(kind, r).
     and_then (cur_u16 r) (\<lambda>(len, r).
     and_then (cur_take len r) (\<lambda>(data, r). Ok (kind, data, r))))"

definition enc_u16 :: "nat \<Rightarrow> bytes" where
  "enc_u16 n = [char_of (n div 256), char_of (n mod 256)]"

definition enc_ext :: "nat \<times> bytes \<Rightarrow> bytes" where
  "enc_ext e = enc_u16 (fst e) @ enc_u16 (length (snd e)) @ snd e"

definition enc_name :: "nat \<times> bytes \<Rightarrow> bytes" where
  "enc_name e = char_of (fst e) # enc_u16 (length (snd e)) @ snd e"

lemma enc_u16_code [simp]: "enc_u16 (code c * 256 + code d) = [c, d]"
  by (simp add: enc_u16_def)

lemma cur_u16_enc: "n < 65536 \<Longrightarrow> cur_u16 (enc_u16 n @ r) = Ok (n, r)"
  by (simp add: cur_u16_Ok enc_u16_def of_char_of)

lemma read_name_Ok:
  "read_name l = Ok (k, v, r) \<longleftrightarrow> l = enc_name (k, v) @ r \<and> k < 256 \<and> length v < 65536"
proof
  assume "read_name l = Ok (k, v, r)"
  then obtain c d e where "l = c # d # e # v @ r" "k = code c" "length v = code d * 256 + code e"
    by (auto simp: read_name_def and_then_Ok_iff cur_Ok)
  then show "l = enc_name (k, v) @ r \<and> k < 256 \<and> length v < 65536"
    by (simp add: enc_name_def code_less code_pair_less)
next
  assume "l = enc_name (k, v) @ r \<and> k < 256 \<and> length v < 65536"
  then show "read_name l = Ok (k, v, r)"
    by (auto simp: read_name_def and_then_Ok_iff enc_name_def cur_u8_Ok of_char_of cur_u16_enc)
qed

lemma read_extension_Ok:
  "read_extension l = Ok (k, v, r) \<longleftrightarrow> l = enc_ext (k, v) @ r \<and> k < 65536 \<and> length v < 65536"
proof
  assume "read_extension l = Ok (k, v, r)"
  then obtain b c d e where l: "l = b # c # d # e # v @ r" "k = code b * 256 + code c"
      "length v = code d * 256 + code e"
    by (auto simp: read_extension_def and_then_Ok_iff cur_Ok)
  then show "l = enc_ext (k, v) @ r \<and> k < 65536 \<and> length v < 65536"
    by (simp add: enc_ext_def code_pair_less)
next
  assume "l = enc_ext (k, v) @ r \<and> k < 65536 \<and> length v < 65536"
  then show "read_extension l = Ok (k, v, r)"
    by (simp add: read_extension_def and_then_Ok_iff enc_ext_def cur_u16_enc)
qed

text \<open>The loops; the last argument is the name found so far.\<close>

function parse_sni_entries ::
    "'c egress_env \<Rightarrow> bytes \<Rightarrow> string option \<Rightarrow> (tls_error, string option) result" where
  "parse_sni_entries env list host =
     (if list = [] then Ok host
      else and_then (read_name list) (\<lambda>(kind, val, r).
        if kind = 0
        then (if host \<noteq> None then Err Malformed
              else if \<not> utf8_valid val then Err Malformed
              else and_then (map_err TlsPolicy (normalize_host env val))
                     (\<lambda>h. parse_sni_entries env r (Some h)))
        else parse_sni_entries env r host))"
  by pat_completeness auto
termination
  by (relation "measure (\<lambda>(env, list, host). length list)") (auto simp: read_name_Ok enc_name_def)

declare parse_sni_entries.simps [simp del]

definition parse_sni :: "'c egress_env \<Rightarrow> bytes \<Rightarrow> (tls_error, string) result" where
  "parse_sni env bytes =
     and_then (cur_u16 bytes) (\<lambda>(list_len, r1).
     and_then (cur_take list_len r1) (\<lambda>(list, r2).
       if r2 \<noteq> [] then Err Malformed
       else and_then (parse_sni_entries env list None) (\<lambda>host. ok_or host MissingSni)))"

function parse_extensions ::
    "'c egress_env \<Rightarrow> bytes \<Rightarrow> string option \<Rightarrow> (tls_error, string option) result" where
  "parse_extensions env extensions sni =
     (if extensions = [] then Ok sni
      else and_then (read_extension extensions) (\<lambda>(kind, data, r).
        if kind = ECH_EXTENSION then Err EchUnsupported
        else if kind = SERVER_NAME_EXTENSION
        then (if sni \<noteq> None then Err Malformed
              else and_then (parse_sni env data) (\<lambda>h. parse_extensions env r (Some h)))
        else parse_extensions env r sni))"
  by pat_completeness auto
termination
  by (relation "measure (\<lambda>(env, extensions, sni). length extensions)")
    (auto simp: read_extension_Ok enc_ext_def enc_u16_def)

declare parse_extensions.simps [simp del]

text \<open>The extension block at the end of a ClientHello, and the server name in it.\<close>

definition client_hello_extensions :: "bytes \<Rightarrow> (tls_error, bytes) result" where
  "client_hello_extensions bytes =
     and_then (cur_u8 bytes) (\<lambda>(type, r).
       if type \<noteq> CLIENT_HELLO_TYPE then Err NotClientHello
       else and_then (cur_u24 r) (\<lambda>(declared, r).
         if declared \<noteq> length r then Err Truncated
         else and_then (cur_take (2 + 32) r) (\<lambda>(_, r).
         and_then (cur_u8 r) (\<lambda>(session, r).
         and_then (cur_take session r) (\<lambda>(_, r).
         and_then (cur_u16 r) (\<lambda>(ciphers, r).
           if ciphers = 0 \<or> \<not> 2 dvd ciphers then Err Malformed
           else and_then (cur_take ciphers r) (\<lambda>(_, r).
           and_then (cur_u8 r) (\<lambda>(compression, r).
           and_then (cur_take compression r) (\<lambda>(_, r).
           and_then (cur_u16 r) (\<lambda>(extensions_len, r).
           and_then (cur_take extensions_len r) (\<lambda>(extensions, r).
             if r \<noteq> [] then Err Malformed else Ok extensions)))))))))))"

definition parse_client_hello :: "'c egress_env \<Rightarrow> bytes \<Rightarrow> (tls_error, string) result" where
  "parse_client_hello env bytes =
     and_then (client_hello_extensions bytes) (\<lambda>extensions.
     and_then (parse_extensions env extensions None) (\<lambda>sni. ok_or sni MissingSni))"

subsection \<open>Records\<close>

text \<open>
  The record loop of \<open>read_client_hello\<close>: the handshake length wanted, the handshake and raw
  bytes, and the unread rest of the stream.
\<close>

definition handshake_wanted :: "bytes \<Rightarrow> nat" where
  "handshake_wanted h = 4 + code (h ! 1) * 65536 + code (h ! 2) * 256 + code (h ! 3)"

function read_records ::
    "tls_error \<Rightarrow> bytes \<Rightarrow> bytes \<Rightarrow> bytes \<Rightarrow> (tls_error, nat \<times> bytes \<times> bytes \<times> bytes) result" where
  "read_records eof input raw handshake =
     (if length input < 5 then Err eof
      else let header = take 5 input; r = drop 5 input in
        if code (header ! 0) \<noteq> HANDSHAKE_CONTENT_TYPE then Err NotClientHello
        else let len = code (header ! 3) * 256 + code (header ! 4) in
          if len = 0 \<or> length raw + 5 + len > MAX_CLIENT_HELLO_BYTES then Err TooLarge
          else if length r < len then Err eof
          else
            let record = take len r; raw' = raw @ header @ record; handshake' = handshake @ record in
            if length handshake' \<ge> 4
            then (if code (handshake' ! 0) \<noteq> CLIENT_HELLO_TYPE then Err NotClientHello
                  else if handshake_wanted handshake' > MAX_CLIENT_HELLO_BYTES then Err TooLarge
                  else if length handshake' \<ge> handshake_wanted handshake'
                  then Ok (handshake_wanted handshake', handshake', raw', drop len r)
                  else read_records eof (drop len r) raw' handshake')
            else read_records eof (drop len r) raw' handshake')"
  by pat_completeness auto
termination
  by (relation "measure (\<lambda>(eof, input, raw, handshake). length input)") auto

declare read_records.simps [simp del]

text \<open>The result carries the unread rest, which the relay goes on to read.\<close>

definition read_client_hello ::
    "'c egress_env \<Rightarrow> tls_error \<Rightarrow> bytes \<Rightarrow> (tls_error, bytes \<times> string \<times> bytes) result" where
  "read_client_hello env eof input =
     and_then (read_records eof input [] []) (\<lambda>(wanted, handshake, raw, rest).
     and_then (parse_client_hello env (take wanted handshake)) (\<lambda>sni. Ok (raw, sni, rest)))"

subsection \<open>What the parsers accept\<close>

text \<open>The entries of kind zero: none, or exactly one whose value gives the name.\<close>

definition single_name :: "(bytes \<Rightarrow> string \<Rightarrow> bool) \<Rightarrow> (nat \<times> bytes) list \<Rightarrow> string option \<Rightarrow> string option \<Rightarrow> bool" where
  "single_name P es before after \<longleftrightarrow>
     (case before of
        Some h \<Rightarrow> after = Some h \<and> filter (\<lambda>e. fst e = 0) es = []
      | None \<Rightarrow>
          (case after of
             None \<Rightarrow> filter (\<lambda>e. fst e = 0) es = []
           | Some h \<Rightarrow> \<exists>d. filter (\<lambda>e. fst e = 0) es = [(0, d)] \<and> P d h))"

lemma single_name_skip: "fst e \<noteq> 0 \<Longrightarrow> single_name P (e # es) b a = single_name P es b a"
  by (simp add: single_name_def split: option.split)

lemma single_name_here: "fst e = 0 \<Longrightarrow> P (snd e) h \<Longrightarrow> single_name P es (Some h) a \<Longrightarrow> single_name P (e # es) None a"
  by (cases e) (simp add: single_name_def)

lemma parse_sni_entries_sound:
  "parse_sni_entries env l host = Ok r \<Longrightarrow>
     \<exists>es. l = concat (map enc_name es) \<and>
       single_name (\<lambda>d h. utf8_valid d \<and> normalize_host env d = Ok h) es host r"
proof (induction env l host rule: parse_sni_entries.induct)
  case (1 env l host)
  show ?case
  proof (cases "l = []")
    case True
    with 1(3) show ?thesis
      by (intro exI [of _ "[]"])
        (auto simp: single_name_def parse_sni_entries.simps [of env "[]"] split: option.splits)
  next
    case False
    from 1(3) False obtain k v r' where rn: "read_name l = Ok (k, v, r')"
      by (cases "read_name l") (auto simp: parse_sni_entries.simps [of env l])
    have l: "l = enc_name (k, v) @ r'" using rn by (simp add: read_name_Ok)
    note step = 1(3) [unfolded parse_sni_entries.simps [of env l] rn, simplified False, simplified]
    show ?thesis
    proof (cases "k = 0")
      case True
      with step obtain h where h: "host = None" "utf8_valid v" "normalize_host env v = Ok h"
          "parse_sni_entries env r' (Some h) = Ok r"
        by (auto simp: and_then_Ok_iff split: if_splits)
      with 1(1) [OF False rn refl refl True _ _ _ h(4)] obtain es where
        "r' = concat (map enc_name es)"
        "single_name (\<lambda>d h. utf8_valid d \<and> normalize_host env d = Ok h) es (Some h) r" by auto
      then show ?thesis using h l True
        by (intro exI [of _ "(k, v) # es"]) (auto intro: single_name_here)
    next
      case k: False
      with step have s: "parse_sni_entries env r' host = Ok r" by simp
      from 1(2) [OF False rn refl refl k s] obtain es where
        "r' = concat (map enc_name es)"
        "single_name (\<lambda>d h. utf8_valid d \<and> normalize_host env d = Ok h) es host r" by auto
      then show ?thesis using l k
        by (intro exI [of _ "(k, v) # es"]) (auto simp: single_name_skip)
    qed
  qed
qed

lemma parse_extensions_sound:
  "parse_extensions env l sni = Ok r \<Longrightarrow>
     \<exists>es. l = concat (map enc_ext es) \<and> ECH_EXTENSION \<notin> fst ` set es \<and>
       single_name (\<lambda>d h. parse_sni env d = Ok h) es sni r"
proof (induction env l sni rule: parse_extensions.induct)
  case (1 env l sni)
  show ?case
  proof (cases "l = []")
    case True
    with 1(3) show ?thesis
      by (intro exI [of _ "[]"])
        (auto simp: single_name_def parse_extensions.simps [of env "[]"] split: option.splits)
  next
    case False
    from 1(3) False obtain k v r' where rn: "read_extension l = Ok (k, v, r')"
      by (cases "read_extension l") (auto simp: parse_extensions.simps [of env l])
    have l: "l = enc_ext (k, v) @ r'" using rn by (simp add: read_extension_Ok)
    note step = 1(3) [unfolded parse_extensions.simps [of env l] rn, simplified False, simplified]
    then have ech: "k \<noteq> ECH_EXTENSION" by auto
    show ?thesis
    proof (cases "k = SERVER_NAME_EXTENSION")
      case True
      with step ech obtain h where h: "sni = None" "parse_sni env v = Ok h"
          "parse_extensions env r' (Some h) = Ok r"
        by (auto simp: and_then_Ok_iff split: if_splits)
      with 1(1) [OF False rn refl refl ech True _ _ h(3)] obtain es where
        "r' = concat (map enc_ext es)" "ECH_EXTENSION \<notin> fst ` set es"
        "single_name (\<lambda>d h. parse_sni env d = Ok h) es (Some h) r" by auto
      then show ?thesis using h l True ech
        by (intro exI [of _ "(k, v) # es"]) (auto simp: SERVER_NAME_EXTENSION_def intro: single_name_here)
    next
      case k: False
      with step ech have s: "parse_extensions env r' sni = Ok r" by simp
      from 1(2) [OF False rn refl refl ech k s] obtain es where
        "r' = concat (map enc_ext es)" "ECH_EXTENSION \<notin> fst ` set es"
        "single_name (\<lambda>d h. parse_sni env d = Ok h) es sni r" by auto
      then show ?thesis using l k ech
        by (intro exI [of _ "(k, v) # es"]) (auto simp: single_name_skip SERVER_NAME_EXTENSION_def)
    qed
  qed
qed

lemma parse_sni_sound:
  assumes "parse_sni env d = Ok sni"
  shows "\<exists>names host. d = enc_u16 (length (concat (map enc_name names))) @ concat (map enc_name names)
    \<and> filter (\<lambda>e. fst e = 0) names = [(0, host)] \<and> utf8_valid host \<and> normalize_host env host = Ok sni"
proof -
  from assms obtain c e l where d: "d = c # e # l" "length l = code c * 256 + code e"
      and p: "parse_sni_entries env l None = Ok (Some sni)"
    by (auto simp: parse_sni_def and_then_Ok_iff cur_Ok split: if_splits)
  from parse_sni_entries_sound [OF p] obtain names where
    n: "l = concat (map enc_name names)"
      "single_name (\<lambda>d h. utf8_valid d \<and> normalize_host env d = Ok h) names None (Some sni)" by blast
  then obtain host where "filter (\<lambda>e. fst e = 0) names = [(0, host)]" "utf8_valid host"
      "normalize_host env host = Ok sni"
    by (auto simp: single_name_def)
  moreover have "d = enc_u16 (length l) @ l" using d by simp
  ultimately show ?thesis using n(1) by blast
qed

lemma client_hello_extensions_Ok:
  assumes "client_hello_extensions b = Ok ext"
  shows "suffix (enc_u16 (length ext) @ ext) b" and "code (b ! 0) = CLIENT_HELLO_TYPE"
    and "length b = handshake_wanted b"
proof -
  from assms obtain t c1 c2 c3 v s ss ch1 ch2 ch cm cs c d where
    b: "b = t # c1 # c2 # c3 # v @ s # ss @ ch1 # ch2 # ch @ cm # cs @ c # d # ext"
    and "code t = CLIENT_HELLO_TYPE" "length ext = code c * 256 + code d"
    and "code c1 * 65536 + code c2 * 256 + code c3 = length (v @ s # ss @ ch1 # ch2 # ch @ cm # cs @ c # d # ext)"
    unfolding client_hello_extensions_def and_then_Ok_iff
    by (clarsimp simp: and_then_Ok_iff cur_Ok split: if_splits)
  moreover have "suffix ([c, d] @ ext) b"
    unfolding b by (simp add: suffix_Cons suffix_appendI)
  ultimately show "suffix (enc_u16 (length ext) @ ext) b" and "code (b ! 0) = CLIENT_HELLO_TYPE"
    and "length b = handshake_wanted b"
    by (simp_all add: handshake_wanted_def)
qed

text \<open>Records: five header bytes and a payload; the handshake is the concatenation of payloads.\<close>

definition tls_record :: "bytes \<times> bytes \<Rightarrow> bool" where
  "tls_record p \<longleftrightarrow> length (fst p) = 5 \<and> code (fst p ! 0) = HANDSHAKE_CONTENT_TYPE
     \<and> length (snd p) = code (fst p ! 3) * 256 + code (fst p ! 4) \<and> snd p \<noteq> []"

definition wire :: "(bytes \<times> bytes) list \<Rightarrow> bytes" where
  "wire ps = concat (map (\<lambda>p. fst p @ snd p) ps)"

definition payloads :: "(bytes \<times> bytes) list \<Rightarrow> bytes" where
  "payloads ps = concat (map snd ps)"

lemma wire_snoc [simp]: "wire (ps @ [(h, p)]) = wire ps @ h @ p" "payloads (ps @ [(h, p)]) = payloads ps @ p"
  by (simp_all add: wire_def payloads_def)

lemma read_records_Ok:
  assumes "read_records eof input (wire ps) (payloads ps) = Ok (w, h, raw, rest)" and "list_all tls_record ps"
  shows "\<exists>qs. list_all tls_record qs \<and> raw = wire qs \<and> h = payloads qs \<and> wire ps @ input = raw @ rest
    \<and> length raw \<le> MAX_CLIENT_HELLO_BYTES \<and> w \<le> length h \<and> w = handshake_wanted h"
  using assms
proof (induction "length input" arbitrary: input ps rule: less_induct)
  case less
  define hd5 where "hd5 = take 5 input"
  define n where "n = code (hd5 ! 3) * 256 + code (hd5 ! 4)"
  define rec where "rec = take n (drop 5 input)"
  define P where "P = payloads (ps @ [(hd5, rec)])"
  define W where "W = wire (ps @ [(hd5, rec)])"
  define R where "R = drop n (drop 5 input)"
  have eq: "read_records eof input (wire ps) (payloads ps) =
     (if length input < 5 then Err eof
      else if code (hd5 ! 0) \<noteq> HANDSHAKE_CONTENT_TYPE then Err NotClientHello
      else if n = 0 \<or> length (wire ps) + 5 + n > MAX_CLIENT_HELLO_BYTES then Err TooLarge
      else if length (drop 5 input) < n then Err eof
      else if length P \<ge> 4
      then (if code (P ! 0) \<noteq> CLIENT_HELLO_TYPE then Err NotClientHello
            else if handshake_wanted P > MAX_CLIENT_HELLO_BYTES then Err TooLarge
            else if length P \<ge> handshake_wanted P then Ok (handshake_wanted P, P, W, R)
            else read_records eof R W P)
      else read_records eof R W P)"
    by (subst read_records.simps) (simp only: Let_def hd5_def n_def rec_def wire_snoc P_def W_def R_def)
  from less.prems(1) have g: "5 \<le> length input" "code (hd5 ! 0) = HANDSHAKE_CONTENT_TYPE" "n \<noteq> 0"
      "length (wire ps) + 5 + n \<le> MAX_CLIENT_HELLO_BYTES" "n \<le> length (drop 5 input)"
    unfolding eq by (auto split: if_splits)
  have rec: "tls_record (hd5, rec)" "length W \<le> MAX_CLIENT_HELLO_BYTES"
    using g by (auto simp: tls_record_def rec_def n_def [symmetric] W_def) (simp_all add: hd5_def)
  have inp: "wire ps @ input = W @ R"
    by (simp add: hd5_def rec_def W_def R_def append_take_drop_id [of 5 input] del: drop_drop)
  have ok: "list_all tls_record (ps @ [(hd5, rec)])" using less.prems(2) rec by simp
  have lt: "length R < length input" using g by (simp add: R_def)
  have "(if length P \<ge> 4
      then (if code (P ! 0) \<noteq> CLIENT_HELLO_TYPE then Err NotClientHello
            else if handshake_wanted P > MAX_CLIENT_HELLO_BYTES then Err TooLarge
            else if length P \<ge> handshake_wanted P then Ok (handshake_wanted P, P, W, R)
            else read_records eof R W P)
      else read_records eof R W P) = Ok (w, h, raw, rest)"
    using less.prems(1) g unfolding eq by simp
  then consider (finished) "handshake_wanted P \<le> length P" "(handshake_wanted P, P, W, R) = (w, h, raw, rest)"
    | (more) "read_records eof R W P = Ok (w, h, raw, rest)"
    by (cases "4 \<le> length P"; cases "handshake_wanted P \<le> length P") (auto split: if_splits)
  then show ?case
  proof cases
    case finished
    then have "w = handshake_wanted h" "h = payloads (ps @ [(hd5, rec)])" "raw = wire (ps @ [(hd5, rec)])"
        "w \<le> length h" "rest = R" "raw = W"
      by (auto simp: P_def W_def)
    then show ?thesis using ok rec(2) inp by (intro exI [of _ "ps @ [(hd5, rec)]"]) simp
  next
    case more
    from less.hyps [OF lt _ ok] more inp show ?thesis by (auto simp: W_def P_def)
  qed
qed

subsection \<open>Properties\<close>

text \<open>A ClientHello for the server name \<open>a.b\<close>, in one record, as a client sends it.\<close>

definition sample_extensions :: bytes where
  "sample_extensions = [CHR 0x00, CHR 0x00, CHR 0x00, CHR 0x08, CHR 0x00, CHR 0x06, CHR 0x00, CHR 0x00, CHR 0x03] @ ''a.b''"

definition sample_hello :: bytes where
  "sample_hello = [CHR 0x01, CHR 0x00, CHR 0x00, CHR 0x37] @ replicate 35 (CHR 0x00)
     @ [CHR 0x00, CHR 0x02, CHR 0x13, CHR 0x01, CHR 0x01, CHR 0x00, CHR 0x00, CHR 0x0C] @ sample_extensions"

definition sample_stream :: bytes where
  "sample_stream = [CHR 0x16, CHR 0x03, CHR 0x01, CHR 0x00, CHR 0x3B] @ sample_hello @ ''rest''"

lemma cur_eval:
  "cur_u8 (c # r) = Ok (code c, r)" "cur_u16 (c # d # r) = Ok (code c * 256 + code d, r)"
  "cur_u24 (c # d # e # r) = Ok (code c * 65536 + code d * 256 + code e, r)"
  "cur_take 0 r = Ok ([], r)" "cur_take (Suc 0) (c # r) = Ok ([c], r)" "cur_take (Suc (Suc 0)) (c # d # r) = Ok ([c, d], r)"
  "cur_take n (replicate n c @ r) = Ok (replicate n c, r)"
  by (simp_all add: cur_defs)

lemma sample_hello_extensions: "client_hello_extensions sample_hello = Ok sample_extensions"
proof -
  have h: "sample_hello = CHR 0x01 # CHR 0x00 # CHR 0x00 # CHR 0x37 # replicate 34 (CHR 0x00) @
      CHR 0x00 # CHR 0x00 # CHR 0x02 # CHR 0x13 # CHR 0x01 # CHR 0x01 # CHR 0x00 # CHR 0x00 # CHR 0x0C # sample_extensions"
    by (simp add: sample_hello_def numeral_eq_Suc)
  have l: "length sample_extensions = 12" "cur_take 12 sample_extensions = Ok (sample_extensions, [])"
    by (simp_all add: sample_extensions_def cur_take_def)
  have c: "cur_take 34 (replicate 34 x @ r) = Ok (replicate 34 x, r)" for x r
    by (rule cur_eval(7))
  show ?thesis
    unfolding client_hello_extensions_def h using l
    by (simp add: cur_eval(1-6) c tls_consts del: cur_take_Ok)
qed

lemma sample_name_entries:
  "parse_sni_entries sample_env [CHR 0x00, CHR 0x00, CHR 0x03, CHR ''a'', CHR ''.'', CHR ''b''] None = Ok (Some ''a.b'')"
  by (simp add: parse_sni_entries.simps read_name_def cur_defs normalize_host_def sample_env_def ascii_defs ws_defs prefix_defs)

lemma sample_sni:
  "parse_sni sample_env [CHR 0x00, CHR 0x06, CHR 0x00, CHR 0x00, CHR 0x03, CHR ''a'', CHR ''.'', CHR ''b''] = Ok ''a.b''"
  by (simp add: parse_sni_def cur_defs sample_name_entries)

lemma sample_hello_parses: "parse_client_hello sample_env sample_hello = Ok ''a.b''"
proof -
  have "parse_extensions sample_env sample_extensions None = Ok (Some ''a.b'')"
    by (simp add: parse_extensions.simps read_extension_def cur_defs sample_extensions_def tls_consts sample_sni)
  then show ?thesis by (simp add: parse_client_hello_def sample_hello_extensions)
qed

lemma sample_hello_length: "length sample_hello = 59" "sample_hello \<noteq> []"
  "handshake_wanted sample_hello = 59" "code (sample_hello ! 0) = 1"
  by (simp_all add: sample_hello_def sample_extensions_def handshake_wanted_def)

lemma sample_stream_read:
  "read_client_hello sample_env Timeout sample_stream =
     Ok ([CHR 0x16, CHR 0x03, CHR 0x01, CHR 0x00, CHR 0x3B] @ sample_hello, ''a.b'', ''rest'')"
proof -
  have "read_records Timeout sample_stream [] [] =
      Ok (59, sample_hello, [CHR 0x16, CHR 0x03, CHR 0x01, CHR 0x00, CHR 0x3B] @ sample_hello, ''rest'')"
    by (subst read_records.simps)
      (simp add: sample_stream_def sample_hello_length tls_consts Let_def)
  then show ?thesis
    by (simp add: read_client_hello_def sample_hello_length sample_hello_parses)
qed

text \<open>
  Reading a ClientHello terminates on every stream, and when it succeeds the bytes kept for
  forwarding are exactly the bytes consumed, at most 64 KiB of them, they are a sequence of whole
  TLS handshake records, and the message that was inspected is the beginning of their payloads.
\<close>

theorem client_hello_bytes_preserved:
  assumes "read_client_hello env eof input = Ok (raw, sni, rest)"
  shows "input = raw @ rest \<and> length raw \<le> 65536 \<and>
    (\<exists>records. list_all tls_record records \<and> raw = wire records
      \<and> handshake_wanted (payloads records) \<le> length (payloads records)
      \<and> parse_client_hello env (take (handshake_wanted (payloads records)) (payloads records)) = Ok sni)"
proof -
  from assms obtain w h where r: "read_records eof input (wire []) (payloads []) = Ok (w, h, raw, rest)"
    and p: "parse_client_hello env (take w h) = Ok sni"
    by (auto simp: read_client_hello_def and_then_Ok_iff wire_def payloads_def)
  from read_records_Ok [OF r] p show ?thesis
    by (auto simp: MAX_CLIENT_HELLO_BYTES_def wire_def [of "[]"])
qed

theorem client_hello_bytes_preserved_witness:
  "sample_stream = ([CHR 0x16, CHR 0x03, CHR 0x01, CHR 0x00, CHR 0x3B] @ sample_hello) @ ''rest''"
  using client_hello_bytes_preserved [OF sample_stream_read] by blast

text \<open>
  C22. A ClientHello passes only if its extensions hold no encrypted ClientHello and exactly one
  server name extension, whose list holds exactly one host name; the name returned is the
  normalized form of that host name. No second name can hide behind the checked one.
\<close>

theorem client_hello_name_is_unique:
  assumes "parse_client_hello env b = Ok sni"
  shows "\<exists>extensions data names host.
    suffix (enc_u16 (length (concat (map enc_ext extensions))) @ concat (map enc_ext extensions)) b
    \<and> ECH_EXTENSION \<notin> fst ` set extensions
    \<and> filter (\<lambda>e. fst e = SERVER_NAME_EXTENSION) extensions = [(SERVER_NAME_EXTENSION, data)]
    \<and> data = enc_u16 (length (concat (map enc_name names))) @ concat (map enc_name names)
    \<and> filter (\<lambda>e. fst e = 0) names = [(0, host)] \<and> normalize_host env host = Ok sni"
proof -
  from assms obtain ext where e: "client_hello_extensions b = Ok ext"
      "parse_extensions env ext None = Ok (Some sni)"
    by (auto simp: parse_client_hello_def and_then_Ok_iff)
  from parse_extensions_sound [OF e(2)] obtain es d where es: "ext = concat (map enc_ext es)"
      "ECH_EXTENSION \<notin> fst ` set es" "filter (\<lambda>e. fst e = 0) es = [(0, d)]" "parse_sni env d = Ok sni"
    by (auto simp: single_name_def)
  from parse_sni_sound [OF es(4)] client_hello_extensions_Ok(1) [OF e(1)] es show ?thesis
    unfolding SERVER_NAME_EXTENSION_def by blast
qed

theorem client_hello_name_is_unique_witness:
  "\<exists>host. normalize_host sample_env host = Ok ''a.b''"
  using client_hello_name_is_unique [OF sample_hello_parses] by blast

end
