(* ===== verification/Capability.thy ===== *)
theory Capability
  imports Egress_Policy
begin

section \<open>Signed egress capabilities (\<open>hand-egress-gateway/src/capability.rs\<close>)\<close>

text \<open>
  Canonical encoding of a capability, minting of a token and its verification. JSON, base64, the
  DER parser and the signature check are code outside the repository: they are the fields of
  \<open>capability_codec\<close>, and \<open>codec_ok\<close> states what is relied on for the byte strings in use (decoding inverts encoding, the
  encoded alphabet has neither dots nor white space, four characters encode three bytes).
\<close>

subsection \<open>Data\<close>

datatype capability_error =
    CapTooLarge | MalformedToken | MalformedSignature | BadSignature | Json | NonCanonical
  | Invalid string | NotYetValid | Expired | Lifetime | CapPolicy policy_error

record 'c capability =
  cap_root_id :: string
  cap_session_id :: string
  cap_sandbox_id :: string
  cap_generation :: string
  cap_issued_at_ms :: nat
  cap_expires_at_ms :: nat
  cap_policy_digest :: string
  cap_destinations :: "'c capability_destination list"

record 'c verified_capability =
  vc_capability :: "'c capability"
  vc_policy :: "'c validated_destination list"

record 'c capability_codec =
  destination_json :: "'c capability_destination \<Rightarrow> string"
  to_json :: "'c capability \<Rightarrow> bytes option"
  from_json :: "bytes \<Rightarrow> 'c capability option"
  b64_encode :: "bytes \<Rightarrow> string"
  b64_decode :: "string \<Rightarrow> bytes option"
  der_ok :: "bytes \<Rightarrow> bool"
  signature_verifies :: "bytes \<Rightarrow> bytes \<Rightarrow> bool"

definition MAX_CAPABILITY_PAYLOAD_BYTES :: nat where "MAX_CAPABILITY_PAYLOAD_BYTES = 7607"
definition MAX_ENCODED_TOKEN_BYTES :: nat where "MAX_ENCODED_TOKEN_BYTES = 10 * 1024"
definition MAX_DER_SIGNATURE_BYTES :: nat where "MAX_DER_SIGNATURE_BYTES = 72"
definition MAX_DESTINATIONS :: nat where "MAX_DESTINATIONS = 128"
definition MAX_GENERATION_LIFETIME_MS :: nat where "MAX_GENERATION_LIFETIME_MS = 8 * 60 * 60 * 1000"
definition CLOCK_SKEW_MS :: nat where "CLOCK_SKEW_MS = 60000"

lemmas cap_consts = MAX_CAPABILITY_PAYLOAD_BYTES_def MAX_ENCODED_TOKEN_BYTES_def
  MAX_DER_SIGNATURE_BYTES_def MAX_DESTINATIONS_def MAX_GENERATION_LIFETIME_MS_def CLOCK_SKEW_MS_def

subsection \<open>Canonical bytes\<close>

definition cap_validate_identity :: "string \<Rightarrow> string \<Rightarrow> (capability_error, unit) result" where
  "cap_validate_identity v field =
     (case v of
        [] \<Rightarrow> Err (Invalid field)
      | first # rest \<Rightarrow>
          if length v > 128 \<or> \<not> is_ascii v \<or> \<not> ascii_alphanumeric first
             \<or> list_ex (\<lambda>c. \<not> (ascii_alphanumeric c \<or> c \<in> set ''._:-'')) rest
          then Err (Invalid field) else Ok ())"

definition cap_validate_digest :: "string \<Rightarrow> string \<Rightarrow> (capability_error, unit) result" where
  "cap_validate_digest v field =
     (if length v \<noteq> 64 \<or> \<not> list_all (\<lambda>c. ascii_digit c \<or> 97 \<le> code c \<and> code c \<le> 102) v
      then Err (Invalid field) else Ok ())"

definition lifetime_ok :: "'c capability \<Rightarrow> bool" where
  "lifetime_ok c \<longleftrightarrow>
     \<not> (cap_expires_at_ms c \<le> cap_issued_at_ms c
        \<or> cap_expires_at_ms c - cap_issued_at_ms c > MAX_GENERATION_LIFETIME_MS)"

definition canonical_destination ::
    "'c egress_env \<Rightarrow> 'c capability_destination \<Rightarrow> (capability_error, 'c capability_destination) result" where
  "canonical_destination env d =
     (case cd_host d of
        Some host \<Rightarrow>
          and_then (map_err CapPolicy (normalize_host_pattern env host)) (\<lambda>h.
            Ok (d\<lparr>cd_host := Some h, cd_ports := sort (cd_ports d)\<rparr>))
      | None \<Rightarrow> Ok (d\<lparr>cd_ports := sort (cd_ports d)\<rparr>))"

fun canonical_destinations ::
    "'c egress_env \<Rightarrow> 'c capability_destination list
      \<Rightarrow> (capability_error, 'c capability_destination list) result" where
  "canonical_destinations env [] = Ok []"
| "canonical_destinations env (d # ds) =
     and_then (canonical_destination env d) (\<lambda>x.
     and_then (canonical_destinations env ds) (\<lambda>xs. Ok (x # xs)))"

text \<open>The identity, digest, lifetime and size checks that come before canonicalization.\<close>

definition capability_checks :: "'c capability \<Rightarrow> (capability_error, unit) result" where
  "capability_checks c =
     and_then (cap_validate_identity (cap_root_id c) ''root_id'') (\<lambda>_.
     and_then (cap_validate_identity (cap_session_id c) ''session_id'') (\<lambda>_.
     and_then (cap_validate_identity (cap_sandbox_id c) ''sandbox_id'') (\<lambda>_.
     and_then (cap_validate_identity (cap_generation c) ''generation'') (\<lambda>_.
     and_then (cap_validate_digest (cap_policy_digest c) ''policy_digest'') (\<lambda>_.
     and_then (require (lifetime_ok c) Lifetime) (\<lambda>_.
       require (\<not> (cap_destinations c = [] \<or> length (cap_destinations c) > MAX_DESTINATIONS))
         (Invalid ''destinations must contain between 1 and 128 entries'')))))))"

definition canonicalize ::
    "'c egress_env \<Rightarrow> 'c capability_codec \<Rightarrow> 'c capability \<Rightarrow> (capability_error, 'c capability) result" where
  "canonicalize env k c =
     and_then (canonical_destinations env (cap_destinations c)) (\<lambda>ds.
       let ds = sort_key (destination_json k) ds in
       if length (remdups_adj ds) \<noteq> length ds then Err (Invalid ''duplicate destination'')
       else Ok (c\<lparr>cap_destinations := remdups_adj ds\<rparr>))"

definition unsigned_capability_bytes ::
    "'c egress_env \<Rightarrow> 'c capability_codec \<Rightarrow> 'c capability \<Rightarrow> (capability_error, bytes) result" where
  "unsigned_capability_bytes env k c =
     and_then (capability_checks c) (\<lambda>_.
     and_then (canonicalize env k c) (\<lambda>canonical.
     and_then (map_err CapPolicy (validated_policy_new env (cap_destinations canonical))) (\<lambda>_.
     and_then (ok_or (to_json k canonical) Json) (\<lambda>bytes.
       if length bytes > MAX_CAPABILITY_PAYLOAD_BYTES then Err CapTooLarge else Ok bytes))))"

subsection \<open>Tokens\<close>

definition encode_signed_token ::
    "'c capability_codec \<Rightarrow> bytes \<Rightarrow> bytes \<Rightarrow> (capability_error, string) result" where
  "encode_signed_token k payload der_signature =
     (if payload = [] \<or> length payload > MAX_CAPABILITY_PAYLOAD_BYTES
         \<or> length der_signature > MAX_DER_SIGNATURE_BYTES
      then Err CapTooLarge
      else if \<not> der_ok k der_signature then Err MalformedSignature
      else let token = b64_encode k payload @ ''.'' @ b64_encode k der_signature in
        if length token > MAX_ENCODED_TOKEN_BYTES then Err CapTooLarge else Ok token)"

definition verify_token ::
    "'c egress_env \<Rightarrow> 'c capability_codec \<Rightarrow> string \<Rightarrow> nat
      \<Rightarrow> (capability_error, 'c verified_capability) result" where
  "verify_token env k token now_ms =
     (if length token > MAX_ENCODED_TOKEN_BYTES \<or> has_whitespace token then Err CapTooLarge
      else and_then (ok_or (split_once (CHR ''.'') token) MalformedToken) (\<lambda>(payload, signature).
        if CHR ''.'' \<in> set signature then Err MalformedToken
        else and_then (ok_or (b64_decode k payload) MalformedToken) (\<lambda>payload.
        and_then (ok_or (b64_decode k signature) MalformedToken) (\<lambda>signature.
          if payload = [] \<or> length payload > MAX_CAPABILITY_PAYLOAD_BYTES
             \<or> length signature > MAX_DER_SIGNATURE_BYTES
          then Err CapTooLarge
          else if \<not> der_ok k signature then Err MalformedSignature
          else if \<not> signature_verifies k payload signature then Err BadSignature
          else and_then (ok_or (from_json k payload) Json) (\<lambda>capability.
          and_then (unsigned_capability_bytes env k capability) (\<lambda>bytes.
            if bytes \<noteq> payload then Err NonCanonical
            else if cap_issued_at_ms capability > saturating_add now_ms CLOCK_SKEW_MS
            then Err NotYetValid
            else if cap_expires_at_ms capability \<le> now_ms then Err Expired
            else if \<not> lifetime_ok capability then Err Lifetime
            else and_then (map_err CapPolicy (validated_policy_new env (cap_destinations capability)))
              (\<lambda>policy. Ok \<lparr>vc_capability = capability, vc_policy = policy\<rparr>)))))))"

subsection \<open>What is relied on\<close>

definition codec_ok :: "'c capability_codec \<Rightarrow> bytes set \<Rightarrow> bool" where
  "codec_ok k B \<longleftrightarrow>
     (\<forall>b\<in>B. b64_decode k (b64_encode k b) = Some b
        \<and> CHR ''.'' \<notin> set (b64_encode k b) \<and> is_ascii (b64_encode k b)
        \<and> \<not> has_whitespace (b64_encode k b)
        \<and> length (b64_encode k b) = (4 * length b + 2) div 3)
     \<and> (\<forall>c b. to_json k c = Some b \<longrightarrow> b \<noteq> [] \<and> from_json k b = Some c)"

text \<open>
  \<open>domain_to_ascii_strict\<close> answers within the DNS length and the STD3 alphabet and leaves its own
  lower-cased answers alone.
\<close>

definition idna_ok :: "'c egress_env \<Rightarrow> bool" where
  "idna_ok env \<longleftrightarrow>
     (\<forall>v a. domain_to_ascii_strict env v = Some a \<longrightarrow>
        domain_to_ascii_strict env (to_ascii_lowercase a) = Some (to_ascii_lowercase a)
        \<and> length a \<le> 253
        \<and> list_all (\<lambda>c. ascii_alphanumeric c \<or> c = CHR ''-'' \<or> c = CHR ''.'') a)"

subsection \<open>Normal forms\<close>

lemma split_on_snoc_sep: "split_on c (s @ [c]) = split_on c s @ [[]]"
  by (induction s) (auto split: list.splits)

lemma labels_no_edge_dots:
  assumes "\<forall>l\<in>set (split_on (CHR ''.'') h). l \<noteq> []"
  shows "\<not> starts_with ''.'' h" and "\<not> ends_with ''.'' h"
proof -
  show "\<not> starts_with ''.'' h" using assms by (cases h) (auto simp: starts_with_def)
  show "\<not> ends_with ''.'' h"
  proof
    assume "ends_with ''.'' h"
    then obtain s where "h = s @ [CHR ''.'']" by (auto simp: ends_with_iff suffix_def)
    then show False using assms by (simp add: split_on_snoc_sep)
  qed
qed

lemma host_alphabet:
  assumes "list_all (\<lambda>c. ascii_alphanumeric c \<or> c = CHR ''-'' \<or> c = CHR ''.'') a"
  shows "CHR ''*'' \<notin> set a" and "\<not> has_whitespace a"
proof -
  show "CHR ''*'' \<notin> set a" using assms by (auto simp: list_all_iff ascii_defs)
  have "is_ascii a" unfolding is_ascii_def using assms by (auto simp: list_all_iff ascii_defs)
  from ascii_has_whitespace [OF this] show "\<not> has_whitespace a"
    using assms by (auto simp: list_all_iff ascii_defs)
qed

lemma lower_alphabet:
  assumes "list_all (\<lambda>c. ascii_alphanumeric c \<or> c = CHR ''-'' \<or> c = CHR ''.'') a"
  shows "list_all (\<lambda>c. ascii_alphanumeric c \<or> c = CHR ''-'' \<or> c = CHR ''.'') (to_ascii_lowercase a)"
proof -
  have "lower_char c = c" if "c = CHR ''-'' \<or> c = CHR ''.''" for c
    using that by (auto simp: lower_char_def ascii_upper_def)
  then show ?thesis using assms by (auto simp: list_all_iff to_ascii_lowercase_def)
qed

lemma normalize_host_fixed:
  assumes "idna_ok env" and "normalize_host env v = Ok h"
  shows "normalize_host env h = Ok h" and "CHR ''*'' \<notin> set h"
proof -
  from assms(2) obtain a where a: "domain_to_ascii_strict env v = Some a" "h = to_ascii_lowercase a"
    by (auto simp: normalize_host_def and_then_Ok_iff Let_def split: if_splits)
  note n = normalize_host_Ok [OF assms(2)]
  have al: "list_all (\<lambda>c. ascii_alphanumeric c \<or> c = CHR ''-'' \<or> c = CHR ''.'') h"
    and len: "length h \<le> 253" and id: "domain_to_ascii_strict env h = Some h"
    using assms(1) a lower_alphabet by (auto simp: idna_ok_def)
  show "CHR ''*'' \<notin> set h" using host_alphabet(1) [OF al] .
  show "normalize_host env h = Ok h"
    using n host_alphabet [OF al] len id labels_no_edge_dots [of h]
    by (auto simp: normalize_host_def Let_def list_ex_iff)
qed

lemma normalize_pattern_fixed:
  assumes "idna_ok env" and "normalize_host_pattern env v = Ok p"
  shows "normalize_host_pattern env p = Ok p"
proof (cases "strip_prefix ''*.'' v")
  case None
  then have n: "normalize_host env v = Ok p" using assms(2) by (simp add: normalize_host_pattern_def)
  have "strip_prefix ''*.'' p = None"
    using normalize_host_fixed(2) [OF assms(1) n] by (cases p) auto
  then show ?thesis using normalize_host_fixed(1) [OF assms(1) n] by (simp add: normalize_host_pattern_def)
next
  case (Some sfx)
  then obtain h where h: "normalize_host env sfx = Ok h" "CHR ''.'' \<in> set h" "p = ''*.'' @ h"
    using assms(2) by (auto simp: normalize_host_pattern_def and_then_Ok_iff split: if_splits)
  then show ?thesis
    using normalize_host_fixed(1) [OF assms(1) h(1)] by (simp add: normalize_host_pattern_def)
qed

lemma canonical_destination_fixed:
  "idna_ok env \<Longrightarrow> canonical_destination env d = Ok x \<Longrightarrow> canonical_destination env x = Ok x"
  by (auto simp: canonical_destination_def and_then_Ok_iff sorted_sort_id split: option.splits
      intro!: exI dest: normalize_pattern_fixed)

lemma canonical_destinations_set:
  "canonical_destinations env ds = Ok xs \<Longrightarrow> x \<in> set xs \<Longrightarrow> \<exists>d\<in>set ds. canonical_destination env d = Ok x"
  by (induction ds arbitrary: xs) (fastforce simp: and_then_Ok_iff)+

lemma canonical_destinations_length: "canonical_destinations env ds = Ok xs \<Longrightarrow> length xs = length ds"
  by (induction ds arbitrary: xs) (auto simp: and_then_Ok_iff)

lemma canonical_destinations_id:
  "\<forall>x\<in>set xs. canonical_destination env x = Ok x \<Longrightarrow> canonical_destinations env xs = Ok xs"
  by (induction xs) auto

lemma canonicalize_Ok:
  assumes "canonicalize env k c = Ok c'"
  obtains ds where "canonical_destinations env (cap_destinations c) = Ok ds"
    "distinct_adj (sort_key (destination_json k) ds)"
    "c' = c\<lparr>cap_destinations := sort_key (destination_json k) ds\<rparr>"
  using assms
  by (auto simp: canonicalize_def and_then_Ok_iff Let_def distinct_adj_conv_length_remdups_adj [symmetric]
      distinct_adj_altdef split: if_splits)

lemma canonicalize_fixed:
  assumes "idna_ok env" and "canonicalize env k c = Ok c'"
  shows "canonicalize env k c' = Ok c'"
proof -
  obtain ds where d: "canonical_destinations env (cap_destinations c) = Ok ds"
    "distinct_adj (sort_key (destination_json k) ds)"
    "c' = c\<lparr>cap_destinations := sort_key (destination_json k) ds\<rparr>"
    using canonicalize_Ok [OF assms(2)] .
  let ?ss = "sort_key (destination_json k) ds"
  have "canonical_destinations env ?ss = Ok ?ss"
    using canonical_destinations_set [OF d(1)] canonical_destination_fixed [OF assms(1)]
    by (intro canonical_destinations_id) auto
  moreover have "sort_key (destination_json k) ?ss = ?ss"
    by (rule sort_key_id_if_sorted) simp
  ultimately show ?thesis
    using d(2,3) by (simp add: canonicalize_def distinct_adj_altdef)
qed

lemma capability_checks_canonical:
  assumes "canonicalize env k c = Ok c'"
  shows "capability_checks c' = capability_checks c" and "lifetime_ok c' = lifetime_ok c"
    and "cap_issued_at_ms c' = cap_issued_at_ms c" and "cap_expires_at_ms c' = cap_expires_at_ms c"
proof -
  obtain ds where d: "canonical_destinations env (cap_destinations c) = Ok ds"
    "c' = c\<lparr>cap_destinations := sort_key (destination_json k) ds\<rparr>"
    using canonicalize_Ok [OF assms] by metis
  have "sort_key (destination_json k) ds = [] \<longleftrightarrow> cap_destinations c = []"
    using canonical_destinations_length [OF d(1)] by (metis length_0_conv length_sort)
  with d canonical_destinations_length [OF d(1)]
  show "capability_checks c' = capability_checks c" "lifetime_ok c' = lifetime_ok c"
    "cap_issued_at_ms c' = cap_issued_at_ms c" "cap_expires_at_ms c' = cap_expires_at_ms c"
    by (simp_all add: capability_checks_def lifetime_ok_def)
qed

lemma unsigned_Ok:
  "unsigned_capability_bytes env k c = Ok b \<longleftrightarrow>
     capability_checks c = Ok () \<and>
     (\<exists>c' policy. canonicalize env k c = Ok c' \<and> validated_policy_new env (cap_destinations c') = Ok policy
        \<and> to_json k c' = Some b \<and> length b \<le> MAX_CAPABILITY_PAYLOAD_BYTES)"
  by (force simp: unsigned_capability_bytes_def and_then_Ok_iff)

lemma unsigned_fixed:
  assumes "idna_ok env" and "unsigned_capability_bytes env k c = Ok b" and "canonicalize env k c = Ok c'"
  shows "unsigned_capability_bytes env k c' = Ok b"
  using assms canonicalize_fixed [OF assms(1,3)] capability_checks_canonical(1) [OF assms(3)]
  by (auto simp: unsigned_Ok)

lemma ascii_append_whitespace:
  assumes "is_ascii s" and "is_ascii t"
  shows "has_whitespace (s @ t) \<longleftrightarrow> has_whitespace s \<or> has_whitespace t"
proof -
  have "is_ascii (s @ t)" using assms by (simp add: is_ascii_def)
  then show ?thesis
    unfolding assms [THEN ascii_has_whitespace] by (simp only: ascii_has_whitespace set_append bex_Un)
qed

lemma token_no_whitespace:
  assumes "codec_ok k {p, q}"
  shows "\<not> has_whitespace (b64_encode k p @ ''.'' @ b64_encode k q)"
proof -
  have "is_ascii ''.''" "\<not> has_whitespace ''.''" by (simp_all add: is_ascii_def ws_defs prefix_defs)
  then show ?thesis
    using assms ascii_append_whitespace [of "b64_encode k p" "''.'' @ b64_encode k q"]
      ascii_append_whitespace [of "''.''" "b64_encode k q"]
    by (auto simp: codec_ok_def is_ascii_def)
qed

lemma encode_Ok:
  "encode_signed_token k p q = Ok token \<Longrightarrow>
     token = b64_encode k p @ ''.'' @ b64_encode k q \<and> der_ok k q \<and> p \<noteq> []
     \<and> length p \<le> MAX_CAPABILITY_PAYLOAD_BYTES \<and> length q \<le> MAX_DER_SIGNATURE_BYTES
     \<and> length token \<le> MAX_ENCODED_TOKEN_BYTES"
  by (auto simp: encode_signed_token_def Let_def split: if_splits)

lemma mint_verifies:
  assumes "idna_ok env" and "codec_ok k {payload, sig}"
    and "unsigned_capability_bytes env k c = Ok payload"
    and "encode_signed_token k payload sig = Ok token" and "signature_verifies k payload sig"
    and "cap_issued_at_ms c \<le> saturating_add now CLOCK_SKEW_MS" and "now < cap_expires_at_ms c"
  shows "\<exists>c' policy. canonicalize env k c = Ok c'
    \<and> validated_policy_new env (cap_destinations c') = Ok policy
    \<and> verify_token env k token now = Ok \<lparr>vc_capability = c', vc_policy = policy\<rparr>"
proof -
  from assms(3) obtain c' policy where c: "canonicalize env k c = Ok c'"
      "validated_policy_new env (cap_destinations c') = Ok policy" "to_json k c' = Some payload"
    by (auto simp: unsigned_Ok)
  note t = encode_Ok [OF assms(4)]
  have k: "b64_decode k (b64_encode k payload) = Some payload" "b64_decode k (b64_encode k sig) = Some sig"
      "CHR ''.'' \<notin> set (b64_encode k payload)" "CHR ''.'' \<notin> set (b64_encode k sig)"
      "from_json k payload = Some c'"
    using assms(2) c(3) by (auto simp: codec_ok_def)
  have s: "split_once (CHR ''.'') token = Some (b64_encode k payload, b64_encode k sig)"
    using t k(3) by simp
  have l: "lifetime_ok c'"
    using assms(3) capability_checks_canonical(2) [OF c(1)]
    by (auto simp: unsigned_Ok capability_checks_def and_then_Ok_iff)
  have tok: "\<not> (length token > MAX_ENCODED_TOKEN_BYTES \<or> has_whitespace token)"
    using t token_no_whitespace [OF assms(2)] by (metis not_less)
  have sz: "\<not> (payload = [] \<or> length payload > MAX_CAPABILITY_PAYLOAD_BYTES \<or> length sig > MAX_DER_SIGNATURE_BYTES)"
      "der_ok k sig" using t by simp_all
  have "verify_token env k token now = Ok \<lparr>vc_capability = c', vc_policy = policy\<rparr>"
    unfolding verify_token_def if_not_P [OF tok] s
    using sz k l c assms(5-7) unsigned_fixed [OF assms(1,3) c(1)] capability_checks_canonical(3,4) [OF c(1)]
    by simp
  then show ?thesis using c by blast
qed

subsection \<open>Properties\<close>

text \<open>
  C17. A token that verifies is two base64url parts around one dot. The second part decodes to a
  DER signature which the gateway's key accepts over the decoded first part, and the first part
  decodes to exactly the canonical bytes of the capability returned. That capability is unexpired,
  was issued no more than a minute in the future, lives at most eight hours, names 1 to 128
  destinations, and the policy returned is the validated form of exactly those destinations.
\<close>

theorem verified_capability_is_sealed:
  assumes "verify_token env k token now = Ok v"
  shows "\<exists>p s payload sig. token = p @ CHR ''.'' # s \<and> CHR ''.'' \<notin> set p \<and> CHR ''.'' \<notin> set s
    \<and> b64_decode k p = Some payload \<and> b64_decode k s = Some sig
    \<and> signature_verifies k payload sig \<and> der_ok k sig
    \<and> from_json k payload = Some (vc_capability v)
    \<and> unsigned_capability_bytes env k (vc_capability v) = Ok payload
    \<and> validated_policy_new env (cap_destinations (vc_capability v)) = Ok (vc_policy v)
    \<and> now < cap_expires_at_ms (vc_capability v)
    \<and> cap_issued_at_ms (vc_capability v) \<le> now + 60000
    \<and> cap_issued_at_ms (vc_capability v) < cap_expires_at_ms (vc_capability v)
    \<and> cap_expires_at_ms (vc_capability v) - cap_issued_at_ms (vc_capability v) \<le> 28800000
    \<and> length (cap_destinations (vc_capability v)) \<in> {1..128}"
proof -
  from assms obtain p s payload sig where t: "split_once (CHR ''.'') token = Some (p, s)"
      "CHR ''.'' \<notin> set s" "b64_decode k p = Some payload" "b64_decode k s = Some sig"
    and q: "signature_verifies k payload sig" "der_ok k sig"
      "from_json k payload = Some (vc_capability v)"
      "unsigned_capability_bytes env k (vc_capability v) = Ok payload"
      "validated_policy_new env (cap_destinations (vc_capability v)) = Ok (vc_policy v)"
      "\<not> cap_expires_at_ms (vc_capability v) \<le> now"
      "\<not> cap_issued_at_ms (vc_capability v) > saturating_add now CLOCK_SKEW_MS"
      "lifetime_ok (vc_capability v)"
    unfolding verify_token_def
    by (clarsimp simp: and_then_Ok_iff split: if_splits)
  have "length (cap_destinations (vc_capability v)) \<in> {1..128}"
    using q(4) by (auto simp: unsigned_Ok capability_checks_def and_then_Ok_iff MAX_DESTINATIONS_def
        Suc_le_eq)
  moreover have "cap_issued_at_ms (vc_capability v) \<le> now + 60000"
    using q(7) saturating_add_le(1) [of now CLOCK_SKEW_MS] by (simp add: CLOCK_SKEW_MS_def)
  ultimately show ?thesis
    using t(2-) split_once_SomeD [OF t(1)] q(1-6,8)
    by (intro exI [of _ p] exI [of _ s] exI [of _ payload] exI [of _ sig])
      (auto simp: lifetime_ok_def MAX_GENERATION_LIFETIME_MS_def)
qed

text \<open>
  C26. What the control role mints, the gateway accepts: if canonical bytes were encoded with a
  signature that verifies, then during the capability's lifetime the token verifies and yields the
  canonical form of the capability with its validated policy.
\<close>

theorem minted_token_verifies:
  assumes "idna_ok env" and "codec_ok k {payload, sig}"
    and "unsigned_capability_bytes env k c = Ok payload"
    and "encode_signed_token k payload sig = Ok token" and "signature_verifies k payload sig"
    and "cap_issued_at_ms c \<le> saturating_add now CLOCK_SKEW_MS" and "now < cap_expires_at_ms c"
  shows "\<exists>c' policy. canonicalize env k c = Ok c'
    \<and> validated_policy_new env (cap_destinations c') = Ok policy
    \<and> verify_token env k token now = Ok \<lparr>vc_capability = c', vc_policy = policy\<rparr>"
  by (rule mint_verifies [OF assms])

text \<open>
  The bounds on payload and signature are tight enough for the token bound: a non-empty
  payload and a well-formed signature within their own bounds always encode, so the last size
  check never refuses a token.
\<close>

theorem bounded_parts_encode:
  assumes "codec_ok k {payload, sig}" and "payload \<noteq> []"
    and "length payload \<le> MAX_CAPABILITY_PAYLOAD_BYTES" and "length sig \<le> MAX_DER_SIGNATURE_BYTES"
    and "der_ok k sig"
  shows "encode_signed_token k payload sig = Ok (b64_encode k payload @ ''.'' @ b64_encode k sig)"
proof -
  have "length (b64_encode k payload) = (4 * length payload + 2) div 3"
      "length (b64_encode k sig) = (4 * length sig + 2) div 3"
    using assms(1) by (simp_all add: codec_ok_def)
  moreover have "(4 * length payload + 2) div 3 \<le> 10143" "(4 * length sig + 2) div 3 \<le> 96"
    using assms(3,4) unfolding cap_consts by presburger+
  ultimately have "length (b64_encode k payload @ ''.'' @ b64_encode k sig) \<le> MAX_ENCODED_TOKEN_BYTES"
    by (simp add: MAX_ENCODED_TOKEN_BYTES_def)
  then show ?thesis using assms(2-5) by (simp add: encode_signed_token_def Let_def)
qed

subsection \<open>A sample token\<close>

definition sample_capability :: "ipv4 capability" where
  "sample_capability = \<lparr>cap_root_id = ''r'', cap_session_id = ''s'', cap_sandbox_id = ''b'', cap_generation = ''g'',
     cap_issued_at_ms = 1000, cap_expires_at_ms = 2000, cap_policy_digest = digest_a,
     cap_destinations = [\<lparr>cd_host = None, cd_cidr = Some 9, cd_ports = [25], cd_protocol = Tcp\<rparr>]\<rparr>"

definition sample_codec :: "ipv4 capability_codec" where
  "sample_codec = \<lparr>destination_json = (\<lambda>_. ''{}''),
     to_json = (\<lambda>c. if c = sample_capability then Some ''cap'' else None),
     from_json = (\<lambda>b. if b = ''cap'' then Some sample_capability else None),
     b64_encode = (\<lambda>b. if b = ''cap'' then ''Y2Fw'' else ''cw''),
     b64_decode = (\<lambda>s. if s = ''Y2Fw'' then Some ''cap'' else if s = ''cw'' then Some ''s'' else None),
     der_ok = (\<lambda>s. s = ''s''), signature_verifies = (\<lambda>p s. p = ''cap'' \<and> s = ''s'')\<rparr>"

definition plain_env :: "ipv4 egress_env" where
  "plain_env = \<lparr>domain_to_ascii_strict = (\<lambda>v. if v = ''a.b'' then Some v else None),
     is_public_unicast = (\<lambda>a. a \<noteq> 0), cidr_contains = (\<lambda>c a. c = a), lookup_ip = (\<lambda>_. None)\<rparr>"

lemma sample_codec_ok: "codec_ok sample_codec {''cap'', ''s''}"
  by (auto simp: codec_ok_def sample_codec_def is_ascii_def split: if_splits)
    (simp_all add: ws_defs prefix_defs)

lemma plain_env_ok: "idna_ok plain_env"
  by (simp add: idna_ok_def plain_env_def ascii_defs)

lemma sample_canonical: "canonicalize plain_env sample_codec sample_capability = Ok sample_capability"
  by (simp add: canonicalize_def sample_capability_def canonical_destination_def)

lemma sample_payload: "unsigned_capability_bytes plain_env sample_codec sample_capability = Ok ''cap''"
proof -
  have "capability_checks sample_capability = Ok ()"
    by (simp add: capability_checks_def sample_capability_def cap_validate_identity_def cap_validate_digest_def
        lifetime_ok_def cap_consts ascii_defs list_all_iff)
  moreover have "validated_policy_new plain_env (cap_destinations sample_capability) = Ok [DCidr 9 25]"
    by (simp add: sample_capability_def validate_destination_def MAX_PORTS_PER_DESTINATION_def)
  ultimately show ?thesis
    by (simp add: unsigned_Ok sample_canonical) (simp add: sample_codec_def cap_consts)
qed

lemma sample_token: "encode_signed_token sample_codec ''cap'' ''s'' = Ok ''Y2Fw.cw''"
  by (simp add: encode_signed_token_def sample_codec_def cap_consts)

lemma sample_facts:
  "signature_verifies sample_codec ''cap'' ''s''"
  "cap_issued_at_ms sample_capability \<le> saturating_add 1500 CLOCK_SKEW_MS"
  "1500 < cap_expires_at_ms sample_capability"
  by (simp_all add: sample_codec_def sample_capability_def saturating_add_def CLOCK_SKEW_MS_def U64_MAX_def)

theorem minted_token_verifies_witness:
  "\<exists>v. verify_token plain_env sample_codec ''Y2Fw.cw'' 1500 = Ok v \<and> vc_capability v = sample_capability"
  using minted_token_verifies [OF plain_env_ok sample_codec_ok sample_payload sample_token sample_facts]
    sample_canonical by fastforce

theorem verified_capability_is_sealed_witness:
  "\<exists>v p s payload sig. verify_token plain_env sample_codec ''Y2Fw.cw'' 1500 = Ok v
     \<and> vc_capability v = sample_capability \<and> ''Y2Fw.cw'' = p @ CHR ''.'' # s
     \<and> b64_decode sample_codec p = Some payload \<and> b64_decode sample_codec s = Some sig
     \<and> signature_verifies sample_codec payload sig
     \<and> unsigned_capability_bytes plain_env sample_codec sample_capability = Ok payload"
proof -
  obtain v where v: "verify_token plain_env sample_codec ''Y2Fw.cw'' 1500 = Ok v"
      "vc_capability v = sample_capability"
    using mint_verifies [OF plain_env_ok sample_codec_ok sample_payload sample_token sample_facts]
      sample_canonical by fastforce
  from verified_capability_is_sealed [OF v(1)] v show ?thesis by metis
qed

theorem bounded_parts_encode_witness:
  "encode_signed_token sample_codec ''cap'' ''s'' = Ok (b64_encode sample_codec ''cap'' @ ''.'' @ b64_encode sample_codec ''s'')"
  using bounded_parts_encode [OF sample_codec_ok] by (simp add: cap_consts sample_codec_def)

end
