(* ===== verification/Egress_Proxy.thy ===== *)
theory Egress_Proxy
  imports Tls_Hello Capability "HOL-Library.Multiset"
begin

section \<open>The CONNECT proxy (\<open>hand-egress-gateway/src/proxy.rs\<close>)\<close>

text \<open>
  The request parser, the order of checks before a tunnel is established, the per-root quotas, the
  answers to rejected requests, and the byte budget of a tunnel. Sockets, clocks and permits of
  the runtime appear as arguments: what the client sends, whether the resolver answered in time,
  whether a tunnel slot was free, and what dialling gave.
\<close>

subsection \<open>Errors and answers\<close>

datatype proxy_error =
    Io | SetupTimeout | MalformedRequest | UnsupportedProtocol | RequestTooLarge | Authentication
  | CapacityExhausted | RootCapacity | RelayLimit | CapabilityExpired | Upstream | SniMismatch
  | PCapability capability_error | PPolicy policy_error | PTls tls_error

definition MAX_HTTP_HEADER_BYTES :: nat where "MAX_HTTP_HEADER_BYTES = 16 * 1024"
definition CONNECT_HEADER_HEADROOM_BYTES :: nat where "CONNECT_HEADER_HEADROOM_BYTES = 2 * 1024"

fun http_response :: "proxy_error \<Rightarrow> (nat \<times> string) option" where
  "http_response MalformedRequest = Some (400, ''Bad Request'')"
| "http_response Authentication = Some (407, ''Proxy Authentication Required'')"
| "http_response (PCapability _) = Some (403, ''Forbidden'')"
| "http_response (PPolicy _) = Some (403, ''Forbidden'')"
| "http_response RootCapacity = Some (429, ''Too Many Requests'')"
| "http_response RequestTooLarge = Some (431, ''Request Header Fields Too Large'')"
| "http_response Upstream = Some (502, ''Bad Gateway'')"
| "http_response CapacityExhausted = Some (503, ''Service Unavailable'')"
| "http_response SetupTimeout = Some (504, ''Gateway Timeout'')"
| "http_response Io = None"
| "http_response UnsupportedProtocol = None"
| "http_response RelayLimit = None"
| "http_response CapabilityExpired = None"
| "http_response SniMismatch = None"
| "http_response (PTls _) = None"

definition crlf :: string where "crlf = [CHR 0x0D, CHR 0x0A]"

definition write_http_error :: "nat \<Rightarrow> string \<Rightarrow> bytes" where
  "write_http_error status reason =
     ''HTTP/1.1 '' @ show_nat status @ '' '' @ reason @ crlf @ ''Content-Length: 0'' @ crlf
       @ ''Connection: close'' @ crlf @ crlf"

text \<open>What \<open>handle_http\<close> writes to the client of a rejected request.\<close>

definition rejection_bytes :: "proxy_error \<Rightarrow> bytes" where
  "rejection_bytes e =
     (case http_response e of
        None \<Rightarrow> []
      | Some (status, reason) \<Rightarrow>
          if status = 407
          then ''HTTP/1.1 407 Proxy Authentication Required'' @ crlf @ ''Content-Length: 0'' @ crlf
                 @ ''Connection: close'' @ crlf @ ''Proxy-Authenticate: Bearer'' @ crlf @ crlf
          else write_http_error status reason)"

subsection \<open>Reading the request\<close>

text \<open>
  \<open>read_http_header\<close>, one byte at a time until the blank line. \<open>eof\<close> is the error of reading
  past what the client sent; the result carries the unread rest.
\<close>

function read_header ::
    "proxy_error \<Rightarrow> bytes \<Rightarrow> bytes \<Rightarrow> (proxy_error, bytes \<times> bytes) result" where
  "read_header eof acc input =
     (if ends_with (crlf @ crlf) acc then Ok (acc, input)
      else if length acc \<ge> MAX_HTTP_HEADER_BYTES then Err RequestTooLarge
      else (case input of [] \<Rightarrow> Err eof | c # r \<Rightarrow> read_header eof (acc @ [c]) r))"
  by pat_completeness auto
termination
  by (relation "measure (\<lambda>(eof, acc, input). length input)") auto

declare read_header.simps [simp del]

definition read_http_header ::
    "proxy_error \<Rightarrow> char \<Rightarrow> bytes \<Rightarrow> (proxy_error, string \<times> bytes) result" where
  "read_http_header eof first input =
     and_then (read_header eof [first] input) (\<lambda>(bytes, rest).
       if utf8_valid bytes then Ok (bytes, rest) else Err MalformedRequest)"

subsection \<open>Parsing the request\<close>

text \<open>\<open>str::split\<close> by a two-character separator.\<close>

fun split_crlf :: "string \<Rightarrow> string list" where
  "split_crlf [] = [[]]"
| "split_crlf (a # s) =
     (if a = CHR 0x0D \<and> starts_with [CHR 0x0A] s then [] # split_crlf (tl s)
      else (case split_crlf s of [] \<Rightarrow> [[a]] | p # ps \<Rightarrow> (a # p) # ps))"

definition parse_proxy_authorization ::
    "(string \<Rightarrow> bytes option) \<Rightarrow> string \<Rightarrow> (proxy_error, string) result" where
  "parse_proxy_authorization standard_decode val =
     (if length val > MAX_HTTP_HEADER_BYTES - CONNECT_HEADER_HEADROOM_BYTES then Err Authentication
      else (case strip_prefix ''Bearer '' val of
              Some token \<Rightarrow>
                if token = [] \<or> length token > MAX_ENCODED_TOKEN_BYTES then Err Authentication
                else Ok token
            | None \<Rightarrow>
                and_then (ok_or (strip_prefix ''Basic '' val) Authentication) (\<lambda>encoded.
                and_then (ok_or (standard_decode encoded) Authentication) (\<lambda>decoded.
                  if \<not> utf8_valid decoded then Err Authentication
                  else and_then (ok_or (strip_prefix ''aex:'' decoded) Authentication) (\<lambda>token.
                    if token = [] \<or> length token > MAX_ENCODED_TOKEN_BYTES then Err Authentication
                    else Ok token)))))"

definition parse_authority :: "string \<Rightarrow> (proxy_error, string \<times> nat) result" where
  "parse_authority authority =
     (if starts_with ''['' authority then Err (PPolicy Ipv6Unsupported)
      else and_then (ok_or (rsplit_once (CHR '':'') authority) MalformedRequest) (\<lambda>(host, port).
        if host = [] \<or> CHR '':'' \<in> set host then Err MalformedRequest
        else and_then (ok_or (parse_uint 65535 port) MalformedRequest) (\<lambda>port. Ok (host, port))))"

fun connect_headers ::
    "(string \<Rightarrow> bytes option) \<Rightarrow> string list \<Rightarrow> string option \<Rightarrow> (proxy_error, string option) result" where
  "connect_headers sd [] token = Ok token"
| "connect_headers sd (line # lines) token =
     (if line = [] then Ok token
      else if starts_with '' '' line \<or> starts_with [CHR 0x09] line then Err MalformedRequest
      else and_then (ok_or (split_once (CHR '':'') line) MalformedRequest) (\<lambda>(name, val).
        if eq_ignore_ascii_case name ''proxy-authorization''
        then (if token \<noteq> None then Err MalformedRequest
              else and_then (parse_proxy_authorization sd (trim val))
                     (\<lambda>t. connect_headers sd lines (Some t)))
        else connect_headers sd lines token))"

record connect_request =
  cr_authority :: string
  cr_port :: nat
  cr_token :: "string option"

definition parse_connect ::
    "(string \<Rightarrow> bytes option) \<Rightarrow> string \<Rightarrow> (proxy_error, connect_request) result" where
  "parse_connect sd request =
     (case split_crlf request of
        [] \<Rightarrow> Err MalformedRequest
      | line # lines \<Rightarrow>
          (case split_on (CHR '' '') line of
             [verb, authority, version] \<Rightarrow>
               if verb \<noteq> ''CONNECT'' \<or> version \<noteq> ''HTTP/1.1'' then Err MalformedRequest
               else and_then (parse_authority authority) (\<lambda>(host, port).
                 and_then (connect_headers sd lines None) (\<lambda>token.
                   Ok \<lparr>cr_authority = host, cr_port = port, cr_token = token\<rparr>))
           | _ \<Rightarrow> Err MalformedRequest))"

subsection \<open>Quotas and budgets\<close>

record root_quotas =
  rq_max :: nat
  rq_active :: "string \<rightharpoonup> nat"

definition quotas_new :: "nat \<Rightarrow> root_quotas" where
  "quotas_new m = \<lparr>rq_max = m, rq_active = Map.empty\<rparr>"

definition quota_count :: "root_quotas \<Rightarrow> string \<Rightarrow> nat" where
  "quota_count q root = (case rq_active q root of None \<Rightarrow> 0 | Some n \<Rightarrow> n)"

text \<open>The entry is created with count zero before the limit is compared.\<close>

definition quota_acquire :: "root_quotas \<Rightarrow> string \<Rightarrow> bool \<times> root_quotas" where
  "quota_acquire q root =
     (let q' = q\<lparr>rq_active := (rq_active q)(root \<mapsto> quota_count q root)\<rparr> in
      if quota_count q root \<ge> rq_max q then (False, q')
      else (True, q\<lparr>rq_active := (rq_active q)(root \<mapsto> quota_count q root + 1)\<rparr>))"

definition permit_drop :: "root_quotas \<Rightarrow> string \<Rightarrow> root_quotas" where
  "permit_drop q root =
     (case rq_active q root of
        None \<Rightarrow> q
      | Some n \<Rightarrow>
          if n - 1 = 0 then q\<lparr>rq_active := (rq_active q)(root := None)\<rparr>
          else q\<lparr>rq_active := (rq_active q)(root \<mapsto> n - 1)\<rparr>)"

definition budget_consume :: "nat \<Rightarrow> nat \<Rightarrow> bool \<times> nat" where
  "budget_consume remaining n =
     (case checked_sub remaining n of Some r \<Rightarrow> (True, r) | None \<Rightarrow> (False, remaining))"

subsection \<open>Setup\<close>

record ('c, 'u) connect_world =
  cw_env :: "'c egress_env"
  cw_codec :: "'c capability_codec"
  cw_standard_decode :: "string \<Rightarrow> bytes option"
  cw_deny :: "'c deny_policy"
  cw_eof :: proxy_error
  cw_tls_eof :: tls_error
  cw_max_relay_bytes :: nat
  cw_now_ms :: nat
  cw_tunnel_now_ms :: nat
  cw_resolved_in_time :: bool
  cw_tunnel_slot :: bool
  cw_dial :: "ipv4 \<Rightarrow> nat \<Rightarrow> 'u option"

record 'u established_connect =
  ec_upstream :: 'u
  ec_target :: authorized_target
  ec_capability_expires_at_ms :: nat
  ec_root :: string

definition authenticate ::
    "('c, 'u) connect_world \<Rightarrow> string \<Rightarrow> (proxy_error, 'c verified_capability) result" where
  "authenticate w request =
     and_then (parse_connect (cw_standard_decode w) request) (\<lambda>parsed.
     and_then (ok_or (cr_token parsed) Authentication) (\<lambda>token.
       map_err PCapability (verify_token (cw_env w) (cw_codec w) token (cw_now_ms w))))"

text \<open>
  \<open>connect_setup\<close>: read, authenticate, take the root permit, authorise, take the tunnel slot, dial.
  The root permit is released on every later error, when its guard is dropped. Beside the
  established connection the result carries the client bytes not yet read.
\<close>

definition connect_authorized ::
    "('c, 'u) connect_world \<Rightarrow> 'c verified_capability \<Rightarrow> connect_request
      \<Rightarrow> (proxy_error, 'u established_connect) result" where
  "connect_authorized w capability parsed =
     (if \<not> cw_resolved_in_time w then Err SetupTimeout
      else and_then (map_err PPolicy (authorize (cw_env w) (vc_policy capability) (cw_deny w)
                       (cr_authority parsed) (cr_port parsed))) (\<lambda>target.
        if \<not> cw_tunnel_slot w then Err CapacityExhausted
        else and_then (ok_or (cw_dial w (at_address target) (at_port target)) Upstream) (\<lambda>upstream.
          Ok \<lparr>ec_upstream = upstream, ec_target = target,
              ec_capability_expires_at_ms = cap_expires_at_ms (vc_capability capability),
              ec_root = cap_root_id (vc_capability capability)\<rparr>)))"

definition connect_setup ::
    "('c, 'u) connect_world \<Rightarrow> root_quotas \<Rightarrow> char \<Rightarrow> bytes
      \<Rightarrow> (proxy_error, 'u established_connect \<times> bytes) result \<times> root_quotas" where
  "connect_setup w q first input =
     (case read_http_header (cw_eof w) first input of
        Err e \<Rightarrow> (Err e, q)
      | Ok (request, rest) \<Rightarrow>
          (case authenticate w request of
             Err e \<Rightarrow> (Err e, q)
           | Ok capability \<Rightarrow>
               (case parse_connect (cw_standard_decode w) request of
                  Err e \<Rightarrow> (Err e, q)
                | Ok parsed \<Rightarrow>
                    (case quota_acquire q (cap_root_id (vc_capability capability)) of
                       (False, q') \<Rightarrow> (Err RootCapacity, q')
                     | (True, q') \<Rightarrow>
                         (case connect_authorized w capability parsed of
                            Err e \<Rightarrow> (Err e, permit_drop q' (cap_root_id (vc_capability capability)))
                          | Ok established \<Rightarrow> (Ok (established, rest), q'))))))"

subsection \<open>Tunnels\<close>

text \<open>
  The ClientHello gate in front of the relay: the bytes written upstream first, the budget left
  and the unread client bytes.
\<close>

definition tunnel_gate ::
    "'c egress_env \<Rightarrow> tls_error \<Rightarrow> string option \<Rightarrow> nat \<Rightarrow> bytes
      \<Rightarrow> (proxy_error, bytes \<times> nat \<times> bytes) result" where
  "tunnel_gate env eof expected_sni max_relay_bytes input =
     (case expected_sni of
        None \<Rightarrow> Ok ([], max_relay_bytes, input)
      | Some expected \<Rightarrow>
          and_then (map_err PTls (read_client_hello env eof input)) (\<lambda>(hello, actual, rest).
            if actual \<noteq> expected then Err SniMismatch
            else (case budget_consume max_relay_bytes (length hello) of
                    (False, _) \<Rightarrow> Err RelayLimit
                  | (True, budget) \<Rightarrow> Ok (hello, budget, rest))))"

text \<open>
  What the two copy loops see, in the order in which it happens: a read on one side, of which
  the empty one is its end of file, a failed or idle socket, or the expiry of the capability.
\<close>

datatype side = Client | Upstream_side

datatype relay_event = Read side bytes | SocketFailed | Expired

record relay_state =
  rl_up :: bytes
  rl_down :: bytes
  rl_budget :: nat
  rl_open :: "side set"

definition deliver :: "side \<Rightarrow> bytes \<Rightarrow> relay_state \<Rightarrow> relay_state" where
  "deliver d b r =
     (case d of Client \<Rightarrow> r\<lparr>rl_up := rl_up r @ b\<rparr> | Upstream_side \<Rightarrow> r\<lparr>rl_down := rl_down r @ b\<rparr>)"

text \<open>
  One turn of \<open>copy_with_idle\<close> on side \<open>d\<close>: end of file closes that direction, a read is charged
  to the shared budget before any of it is written.
\<close>

definition copy_turn :: "side \<Rightarrow> bytes \<Rightarrow> relay_state \<Rightarrow> (proxy_error, relay_state) result" where
  "copy_turn d b r =
     (if b = [] then Ok (r\<lparr>rl_open := rl_open r - {d}\<rparr>)
      else (case budget_consume (rl_budget r) (length b) of
              (False, _) \<Rightarrow> Err Io
            | (True, budget) \<Rightarrow> Ok (deliver d b (r\<lparr>rl_budget := budget\<rparr>))))"

text \<open>
  \<open>relay\<close>: both loops run until each has ended, or one fails. A side that has ended reads nothing
  more. The result is the error, if any, and what was forwarded; a relay that has seen all the
  events and not ended is still open.
\<close>

fun relay :: "relay_state \<Rightarrow> relay_event list \<Rightarrow> proxy_error option \<times> relay_state" where
  "relay r [] = (None, r)"
| "relay r (Read d b # es) =
     (if rl_open r = {} then (None, r)
      else if d \<notin> rl_open r then relay r es
      else (case copy_turn d b r of Err e \<Rightarrow> (Some e, r) | Ok r' \<Rightarrow> relay r' es))"
| "relay r (SocketFailed # es) = (if rl_open r = {} then (None, r) else (Some Io, r))"
| "relay r (Expired # es) = (if rl_open r = {} then (None, r) else (Some CapabilityExpired, r))"

text \<open>
  The whole tunnel: gate, expiry, relay. \<open>reads\<close> gives the events of the relay from the client
  bytes the gate left unread.
\<close>

definition relay_start :: "bytes \<Rightarrow> nat \<Rightarrow> relay_state" where
  "relay_start hello budget =
     \<lparr>rl_up = hello, rl_down = [], rl_budget = budget, rl_open = {Client, Upstream_side}\<rparr>"

definition tunnel ::
    "'c egress_env \<Rightarrow> tls_error \<Rightarrow> string option \<Rightarrow> nat \<Rightarrow> nat \<Rightarrow> nat \<Rightarrow> bytes
      \<Rightarrow> (bytes \<Rightarrow> relay_event list) \<Rightarrow> proxy_error option \<times> bytes \<times> bytes" where
  "tunnel env eof expected_sni max_relay_bytes expires_at_ms now_ms input events =
     (case tunnel_gate env eof expected_sni max_relay_bytes input of
        Err e \<Rightarrow> (Some e, [], [])
      | Ok (hello, budget, rest) \<Rightarrow>
          if saturating_sub expires_at_ms now_ms = 0 then (Some CapabilityExpired, hello, [])
          else (case relay (relay_start hello budget) (events rest) of
                  (e, r) \<Rightarrow> (e, rl_up r, rl_down r)))"

subsection \<open>Connections\<close>

text \<open>\<open>str::lines\<close>: the first line, without its line feed and one carriage return before it.\<close>

definition first_line :: "string \<Rightarrow> string" where
  "first_line s =
     (let l = takeWhile (\<lambda>c. c \<noteq> CHR 0x0A) s in
      if length l < length s \<and> l \<noteq> [] \<and> last l = CHR 0x0D then butlast l else l)"

text \<open>What a connection was given: the outcome, the bytes sent to the client and upstream.\<close>

record connection_trace =
  ct_error :: "proxy_error option"
  ct_to_client :: bytes
  ct_to_upstream :: bytes

definition rejected :: "proxy_error \<Rightarrow> bytes \<Rightarrow> connection_trace" where
  "rejected e answer = \<lparr>ct_error = Some e, ct_to_client = answer, ct_to_upstream = []\<rparr>"

definition answered :: "bytes \<Rightarrow> connection_trace" where
  "answered b = \<lparr>ct_error = None, ct_to_client = b, ct_to_upstream = []\<rparr>"

definition handle_health :: "proxy_error \<Rightarrow> char \<Rightarrow> bytes \<Rightarrow> connection_trace" where
  "handle_health eof first input =
     (case read_http_header eof first input of
        Err e \<Rightarrow> rejected e []
      | Ok (request, _) \<Rightarrow>
          if first_line request \<noteq> ''GET /healthz HTTP/1.1''
             \<and> first_line request \<noteq> ''GET /healthz HTTP/1.0''
          then answered (write_http_error 404 ''Not Found'')
          else answered (''HTTP/1.1 200 OK'' @ crlf @ ''Content-Length: 2'' @ crlf
                           @ ''Connection: close'' @ crlf @ crlf @ ''ok''))"

definition handle_health_connection :: "proxy_error \<Rightarrow> bytes \<Rightarrow> connection_trace" where
  "handle_health_connection eof input =
     (case input of
        [] \<Rightarrow> rejected eof []
      | first # rest \<Rightarrow>
          if first \<noteq> CHR ''G'' then rejected MalformedRequest []
          else handle_health eof first rest)"

definition established_bytes :: bytes where
  "established_bytes = ''HTTP/1.1 200 Connection Established'' @ crlf @ crlf"

text \<open>\<open>handle_http\<close>: the answer to a rejection, or the 200 and the tunnel, after which its guards drop.\<close>

definition handle_http ::
    "('c, 'u) connect_world \<Rightarrow> root_quotas \<Rightarrow> char \<Rightarrow> bytes
      \<Rightarrow> ('u \<Rightarrow> bytes \<Rightarrow> relay_event list) \<Rightarrow> connection_trace \<times> root_quotas" where
  "handle_http w q first input events =
     (case connect_setup w q first input of
        (Err e, q') \<Rightarrow> (rejected e (rejection_bytes e), q')
      | (Ok (established, rest), q') \<Rightarrow>
          (case tunnel (cw_env w) (cw_tls_eof w) (at_expected_sni (ec_target established))
                  (cw_max_relay_bytes w) (ec_capability_expires_at_ms established)
                  (cw_tunnel_now_ms w) rest (events (ec_upstream established)) of
             (e, up, down) \<Rightarrow>
               (\<lparr>ct_error = e, ct_to_client = established_bytes @ down, ct_to_upstream = up\<rparr>,
                permit_drop q' (ec_root established))))"

definition handle ::
    "('c, 'u) connect_world \<Rightarrow> root_quotas \<Rightarrow> bytes
      \<Rightarrow> ('u \<Rightarrow> bytes \<Rightarrow> relay_event list) \<Rightarrow> connection_trace \<times> root_quotas" where
  "handle w q input events =
     (case input of
        [] \<Rightarrow> (rejected (cw_eof w) [], q)
      | first # rest \<Rightarrow>
          if first = CHR ''C'' then handle_http w q first rest events
          else if first = CHR ''G'' then (handle_health (cw_eof w) first rest, q)
          else if first = CHR 0x05 then (rejected UnsupportedProtocol [], q)
          else (rejected MalformedRequest [], q))"

section \<open>Lemmas\<close>

subsection \<open>Header\<close>

lemma crlf_length [simp]: "length crlf = 2"
  by (simp add: crlf_def)

lemma read_header_Ok:
  "read_header eof acc input = Ok (request, rest) \<Longrightarrow> length acc \<le> MAX_HTTP_HEADER_BYTES \<Longrightarrow>
     acc @ input = request @ rest \<and> suffix (crlf @ crlf) request
       \<and> length request \<le> MAX_HTTP_HEADER_BYTES"
proof (induction eof acc input rule: read_header.induct)
  case (1 eof acc input)
  show ?case
    using "1.prems" "1.IH" read_header.simps [of eof acc input]
    by (auto simp: ends_with_iff split: if_splits list.splits)
qed

lemma read_header_run:
  "\<forall>k < length r. \<not> suffix (crlf @ crlf) (acc @ take k r) \<Longrightarrow> suffix (crlf @ crlf) (acc @ r)
   \<Longrightarrow> length acc + length r \<le> MAX_HTTP_HEADER_BYTES
   \<Longrightarrow> read_header eof acc (r @ rest) = Ok (acc @ r, rest)"
proof (induction r arbitrary: acc)
  case Nil
  then show ?case by (subst read_header.simps) (simp add: ends_with_iff)
next
  case (Cons c r)
  have "read_header eof (acc @ [c]) (r @ rest) = Ok ((acc @ [c]) @ r, rest)"
  proof (rule Cons.IH)
    show "\<forall>k<length r. \<not> suffix (crlf @ crlf) ((acc @ [c]) @ take k r)"
      using Cons.prems(1) by (metis Suc_less_eq append_Cons append_Nil append_assoc length_Cons take_Suc_Cons)
  qed (use Cons.prems in auto)
  moreover have "\<not> suffix (crlf @ crlf) acc" using Cons.prems(1) by force
  ultimately show ?case using Cons.prems(3) by (subst read_header.simps) (simp add: ends_with_iff)
qed

lemma read_header_Err:
  "read_header eof acc input = Err e \<Longrightarrow> e \<in> {eof, RequestTooLarge}"
proof (induction eof acc input rule: read_header.induct)
  case (1 eof acc input)
  show ?case
    using "1.prems" "1.IH" read_header.simps [of eof acc input]
    by (auto split: if_splits list.splits)
qed

lemma read_http_header_Ok:
  assumes "read_http_header eof first input = Ok (request, rest)"
  shows "first # input = request @ rest" "suffix (crlf @ crlf) request"
        "length request \<le> MAX_HTTP_HEADER_BYTES"
  using assms read_header_Ok [of eof "[first]" input request rest]
  by (auto simp: read_http_header_def result_iffs MAX_HTTP_HEADER_BYTES_def split: if_splits)

lemma read_http_header_Err:
  "read_http_header eof first input = Err e \<Longrightarrow> e \<in> {eof, RequestTooLarge, MalformedRequest}"
  by (auto simp: read_http_header_def result_iffs split: if_splits dest: read_header_Err)

subsection \<open>Errors of the parser\<close>

definition answerable :: "proxy_error \<Rightarrow> bool" where
  "answerable e \<longleftrightarrow> http_response e \<noteq> None"

lemma answerable_simps [simp]:
  "answerable MalformedRequest" "answerable Authentication" "answerable (PCapability c)"
  "answerable (PPolicy p)" "answerable RootCapacity" "answerable RequestTooLarge"
  "answerable Upstream" "answerable CapacityExhausted" "answerable SetupTimeout" "\<not> answerable Io"
  by (simp_all add: answerable_def)

lemma show_407: "show_nat 407 = ''407''"
  by code_simp

lemma rejection_status:
  assumes "answerable e"
  shows "\<exists>status reason. http_response e = Some (status, reason)
           \<and> prefix (''HTTP/1.1 '' @ show_nat status) (rejection_bytes e)"
proof -
  obtain status reason where r: "http_response e = Some (status, reason)"
    using assms by (auto simp: answerable_def)
  then have "prefix (''HTTP/1.1 '' @ show_nat status) (rejection_bytes e)"
    by (simp add: rejection_bytes_def write_http_error_def show_407)
  with r show ?thesis by blast
qed

lemma parse_proxy_authorization_Err:
  "parse_proxy_authorization sd val = Err e \<Longrightarrow> e = Authentication"
  by (auto simp: parse_proxy_authorization_def result_iffs split: if_splits option.splits)

lemma parse_authority_Err: "parse_authority a = Err e \<Longrightarrow> answerable e"
  by (auto simp: parse_authority_def result_iffs split: if_splits)

lemma connect_headers_Err: "connect_headers sd ls t = Err e \<Longrightarrow> answerable e"
  by (induction ls arbitrary: t)
     (auto simp: result_iffs split: if_splits dest: parse_proxy_authorization_Err)

lemma parse_connect_Err: "parse_connect sd r = Err e \<Longrightarrow> answerable e"
  by (auto simp: parse_connect_def result_iffs split: list.splits if_splits
           dest: parse_authority_Err connect_headers_Err)

lemma authenticate_Err: "authenticate w r = Err e \<Longrightarrow> answerable e"
  by (auto simp: authenticate_def result_iffs dest: parse_connect_Err)

lemma connect_authorized_Err: "connect_authorized w c p = Err e \<Longrightarrow> answerable e"
  by (auto simp: connect_authorized_def result_iffs split: if_splits)

lemma connect_setup_Err:
  assumes "connect_setup w q first input = (Err e, q')"
  shows "e = cw_eof w \<or> answerable e"
  using assms unfolding connect_setup_def
  by (auto split: sum.splits prod.splits bool.splits
           dest: read_http_header_Err authenticate_Err parse_connect_Err connect_authorized_Err)

subsection \<open>Quotas\<close>

definition quotas_ok :: "root_quotas \<Rightarrow> bool" where
  "quotas_ok q \<longleftrightarrow> 0 < rq_max q \<and> (\<forall>root n. rq_active q root = Some n \<longrightarrow> 0 < n \<and> n \<le> rq_max q)"

lemma quota_acquire_cases:
  "quota_acquire q root = (ok, q') \<Longrightarrow>
     rq_max q' = rq_max q \<and>
     (ok \<longrightarrow> quota_count q root < rq_max q \<and> rq_active q' = (rq_active q)(root \<mapsto> quota_count q root + 1)) \<and>
     (\<not> ok \<longrightarrow> rq_max q \<le> quota_count q root \<and> rq_active q' = (rq_active q)(root \<mapsto> quota_count q root))"
  by (auto simp: quota_acquire_def Let_def split: if_splits)

lemma quota_acquire_fails:
  assumes "quota_acquire q root = (False, q')" "quotas_ok q"
  shows "q' = q"
proof -
  have "quota_count q root > 0"
    using assms quota_acquire_cases [OF assms(1)] by (simp add: quotas_ok_def)
  then have "rq_active q root = Some (quota_count q root)"
    by (simp add: quota_count_def split: option.splits)
  then show ?thesis
    using assms(1) by (auto simp: quota_acquire_def Let_def fun_upd_idem split: if_splits)
qed

lemma quota_acquire_drop:
  assumes "quota_acquire q root = (True, q')" "quotas_ok q"
  shows "permit_drop q' root = q"
proof (cases "rq_active q root")
  case None
  then show ?thesis
    using assms by (auto simp: quota_acquire_def permit_drop_def quota_count_def Let_def fun_upd_idem split: if_splits)
next
  case (Some n)
  then have "0 < n" using assms by (auto simp: quotas_ok_def)
  then show ?thesis
    using Some assms
    by (auto simp: quota_acquire_def permit_drop_def quota_count_def Let_def fun_upd_idem split: if_splits)
qed

lemma connect_setup_Err_quotas:
  "connect_setup w q first input = (Err e, q') \<Longrightarrow> quotas_ok q \<Longrightarrow> q' = q"
  unfolding connect_setup_def
  by (auto split: sum.splits prod.splits bool.splits dest: quota_acquire_fails quota_acquire_drop)

lemma connect_setup_Ok:
  assumes "connect_setup w q first input = (Ok (ec, rest), q')"
  obtains request parsed token capability where
    "read_http_header (cw_eof w) first input = Ok (request, rest)"
    "parse_connect (cw_standard_decode w) request = Ok parsed"
    "cr_token parsed = Some token"
    "verify_token (cw_env w) (cw_codec w) token (cw_now_ms w) = Ok capability"
    "quota_acquire q (cap_root_id (vc_capability capability)) = (True, q')"
    "connect_authorized w capability parsed = Ok ec"
  using assms unfolding connect_setup_def
  by (auto simp: authenticate_def result_iffs split: sum.splits prod.splits bool.splits)

lemma connect_authorized_Ok:
  "connect_authorized w capability parsed = Ok ec \<Longrightarrow>
     authorize (cw_env w) (vc_policy capability) (cw_deny w) (cr_authority parsed) (cr_port parsed)
       = Ok (ec_target ec)
     \<and> cw_dial w (at_address (ec_target ec)) (at_port (ec_target ec)) = Some (ec_upstream ec)
     \<and> ec_capability_expires_at_ms ec = cap_expires_at_ms (vc_capability capability)
     \<and> ec_root ec = cap_root_id (vc_capability capability) \<and> cw_tunnel_slot w"
  by (auto simp: connect_authorized_def result_iffs split: if_splits)

subsection \<open>Budget\<close>

lemma budget_consume_iff [simp]:
  "budget_consume m n = (True, r) \<longleftrightarrow> n \<le> m \<and> r = m - n"
  "budget_consume m n = (False, r) \<longleftrightarrow> m < n \<and> r = m"
  by (auto simp: budget_consume_def split: option.splits)

definition relayed :: "relay_state \<Rightarrow> nat" where
  "relayed r = length (rl_up r) + length (rl_down r)"

lemma copy_turn_Ok:
  "copy_turn d b r = Ok r' \<Longrightarrow>
     relayed r' + rl_budget r' = relayed r + rl_budget r
     \<and> prefix (rl_up r) (rl_up r') \<and> prefix (rl_down r) (rl_down r')"
  by (auto simp: copy_turn_def deliver_def relayed_def split: if_splits side.splits prod.splits bool.splits)

lemma relay_accounts:
  "relay r es = (e, r') \<Longrightarrow>
     relayed r' + rl_budget r' = relayed r + rl_budget r \<and> prefix (rl_up r) (rl_up r')"
  by (induction r es rule: relay.induct)
     (auto split: if_splits sum.splits dest!: copy_turn_Ok)

lemma tunnel_gate_Ok:
  "tunnel_gate env eof sni m input = Ok (hello, budget, rest) \<Longrightarrow>
     length hello + budget = m
     \<and> (\<forall>expected. sni = Some expected \<longrightarrow> read_client_hello env eof input = Ok (hello, expected, rest))
     \<and> (sni = None \<longrightarrow> hello = [] \<and> rest = input)"
  by (auto simp: tunnel_gate_def result_iffs split: option.splits if_splits prod.splits bool.splits)

subsection \<open>Concurrent connections\<close>

text \<open>
  The quotas as all connections share them: permits are taken and dropped in any order.
  \<open>live\<close> holds the permits in existence.
\<close>

inductive quota_run :: "nat \<Rightarrow> root_quotas \<times> string multiset \<Rightarrow> bool" for m where
  start: "quota_run m (quotas_new m, {#})"
| acquired: "quota_run m (q, live) \<Longrightarrow> quota_acquire q root = (True, q')
    \<Longrightarrow> quota_run m (q', add_mset root live)"
| refused: "quota_run m (q, live) \<Longrightarrow> quota_acquire q root = (False, q') \<Longrightarrow> quota_run m (q', live)"
| dropped: "quota_run m (q, live) \<Longrightarrow> root \<in># live
    \<Longrightarrow> quota_run m (permit_drop q root, live - {#root#})"

lemma quota_count_acquire:
  "quota_acquire q root = (ok, q') \<Longrightarrow>
     quota_count q' r = quota_count q r + (if ok \<and> r = root then 1 else 0)"
  using quota_acquire_cases [of q root ok q'] by (cases ok) (auto simp: quota_count_def)

lemma quota_count_drop:
  "quota_count (permit_drop q root) r = quota_count q r - (if r = root then 1 else 0)"
  by (auto simp: quota_count_def permit_drop_def split: option.splits)

lemma rq_max_drop [simp]: "rq_max (permit_drop q root) = rq_max q"
  by (simp add: permit_drop_def split: option.splits)

lemma quota_run_counts:
  "quota_run m s \<Longrightarrow> rq_max (fst s) = m \<and> (\<forall>r. quota_count (fst s) r = count (snd s) r \<and> count (snd s) r \<le> m)"
proof (induction rule: quota_run.induct)
  case start
  then show ?case by (simp add: quotas_new_def quota_count_def)
next
  case (acquired q live root q')
  then show ?case
    using quota_acquire_cases [of q root True q'] quota_count_acquire [of q root True q']
    by (auto simp: Suc_le_eq)
next
  case (refused q live root q')
  then show ?case
    using quota_acquire_cases [of q root False q'] quota_count_acquire [of q root False q'] by auto
next
  case (dropped q live root)
  then show ?case by (auto simp: quota_count_drop intro: le_trans [OF diff_le_self])
qed

section \<open>Properties\<close>

text \<open>
  C11. A tunnel is opened only for a request whose header was read completely, at most 16 KiB of
  it, whose token verifies, for a target the verified policy authorises; the address dialled is
  the authorised one, the capability's root had a free permit and has one more in use, and the
  unread bytes are exactly what followed the header.
\<close>

theorem established_connect_is_authorized:
  assumes "connect_setup w q first input = (Ok (ec, rest), q')"
  shows "\<exists>request parsed token v. first # input = request @ rest \<and> length request \<le> 16384
    \<and> parse_connect (cw_standard_decode w) request = Ok parsed \<and> cr_token parsed = Some token
    \<and> verify_token (cw_env w) (cw_codec w) token (cw_now_ms w) = Ok v
    \<and> authorize (cw_env w) (vc_policy v) (cw_deny w) (cr_authority parsed) (cr_port parsed) = Ok (ec_target ec)
    \<and> cw_dial w (at_address (ec_target ec)) (at_port (ec_target ec)) = Some (ec_upstream ec)
    \<and> ec_capability_expires_at_ms ec = cap_expires_at_ms (vc_capability v)
    \<and> quota_count q (cap_root_id (vc_capability v)) < rq_max q
    \<and> (\<forall>r. quota_count q' r = quota_count q r + (if r = cap_root_id (vc_capability v) then 1 else 0))"
proof -
  from assms obtain request parsed token v where
    h: "read_http_header (cw_eof w) first input = Ok (request, rest)" and
    p: "parse_connect (cw_standard_decode w) request = Ok parsed" "cr_token parsed = Some token"
       "verify_token (cw_env w) (cw_codec w) token (cw_now_ms w) = Ok v" and
    a: "quota_acquire q (cap_root_id (vc_capability v)) = (True, q')" and
    c: "connect_authorized w v parsed = Ok ec"
    by (rule connect_setup_Ok)
  show ?thesis
    using read_http_header_Ok [OF h] p quota_acquire_cases [OF a] quota_count_acquire [OF a]
      connect_authorized_Ok [OF c]
    by (intro exI [of _ request] exI [of _ parsed] exI [of _ token] exI [of _ v])
      (simp add: MAX_HTTP_HEADER_BYTES_def)
qed

text \<open>
  A request refused before its tunnel leaves the root quotas as they were, sends nothing
  upstream, and the client is answered with the status of the refusal, unless it was the client's
  own connection that failed.
\<close>

theorem refused_connect_is_answered:
  assumes "connect_setup w q first input = (Err e, q')" and "quotas_ok q"
    and "cw_eof w \<in> {Io, SetupTimeout}"
  shows "handle_http w q first input events =
           (\<lparr>ct_error = Some e, ct_to_client = rejection_bytes e, ct_to_upstream = []\<rparr>, q)
    \<and> (e = Io \<or> (\<exists>status reason. http_response e = Some (status, reason)
                    \<and> prefix (''HTTP/1.1 '' @ show_nat status) (rejection_bytes e)))"
proof -
  have "handle_http w q first input events =
      (\<lparr>ct_error = Some e, ct_to_client = rejection_bytes e, ct_to_upstream = []\<rparr>, q)"
    using assms(1) connect_setup_Err_quotas [OF assms(1,2)] by (simp add: handle_http_def rejected_def)
  moreover have "e = Io \<or> answerable e"
    using connect_setup_Err [OF assms(1)] assms(3) by auto
  ultimately show ?thesis using rejection_status by blast
qed

text \<open>
  C27. However connections interleave, the counter of a root is the number of its permits in
  existence, never above the configured maximum, and a new permit is granted exactly while the
  root holds fewer than that; dropping a permit never underflows.
\<close>

theorem root_quota_counts_live_permits:
  assumes "quota_run m (q, live)"
  shows "quota_count q root = count live root \<and> count live root \<le> m
    \<and> fst (quota_acquire q root) = (count live root < m)
    \<and> (root \<in># live \<longrightarrow> 0 < quota_count q root)"
  using quota_run_counts [OF assms] by (auto simp: quota_acquire_def Let_def)

text \<open>
  C21. A tunnel never carries more than the configured number of bytes, both directions and the
  inspected ClientHello together, whatever the peers send and in whatever order.
\<close>

theorem tunnel_within_byte_budget:
  "case tunnel env eof sni max_relay_bytes expires_at_ms now_ms input events of
     (e, up, down) \<Rightarrow> length up + length down \<le> max_relay_bytes"
  by (auto simp: tunnel_def relay_start_def relayed_def split: sum.splits prod.splits if_splits
           dest!: tunnel_gate_Ok relay_accounts)

text \<open>
  C28. For a target authorised by name nothing passes in either direction until a ClientHello for
  exactly that name was read, and what is sent upstream begins with that ClientHello unaltered.
\<close>

theorem tunnel_names_authorized_host:
  assumes "tunnel env eof (Some host) max_relay_bytes expires_at_ms now_ms input events = (e, up, down)"
    and "up \<noteq> [] \<or> down \<noteq> []"
  shows "\<exists>hello rest. read_client_hello env eof input = Ok (hello, host, rest) \<and> prefix hello up"
proof -
  from assms obtain hello budget rest where
    g: "tunnel_gate env eof (Some host) max_relay_bytes input = Ok (hello, budget, rest)"
    by (auto simp: tunnel_def split: sum.splits)
  then have "prefix hello up"
    using assms by (auto simp: tunnel_def relay_start_def split: if_splits prod.splits dest!: relay_accounts)
  then show ?thesis using tunnel_gate_Ok [OF g] by blast
qed

subsection \<open>A sample connection\<close>

definition sample_request :: string where
  "sample_request = ''CONNECT 0.0.0.9:25 HTTP/1.1'' @ crlf
     @ ''proxy-authorization: Bearer Y2Fw.cw'' @ crlf @ crlf"

definition sample_world :: "(ipv4, nat) connect_world" where
  "sample_world = \<lparr>cw_env = plain_env, cw_codec = sample_codec, cw_standard_decode = (\<lambda>_. None),
     cw_deny = sample_deny, cw_eof = Io, cw_tls_eof = Timeout, cw_max_relay_bytes = 100, cw_now_ms = 1500,
     cw_tunnel_now_ms = 1600, cw_resolved_in_time = True, cw_tunnel_slot = True,
     cw_dial = (\<lambda>a p. if a = 9 \<and> p = 25 then Some 7 else None)\<rparr>"

lemma sample_header_line:
  "list_all (\<lambda>k. \<not> ends_with (crlf @ crlf) (hd sample_request # take k (tl sample_request)))
     [0..<length (tl sample_request)]"
  by code_simp

lemma sample_header: "read_http_header Io (hd sample_request) (tl sample_request @ ''xy'') = Ok (sample_request, ''xy'')"
proof -
  have "\<forall>k < length (tl sample_request). \<not> suffix (crlf @ crlf) (hd sample_request # take k (tl sample_request))"
    using sample_header_line by (simp add: list_all_iff ends_with_iff)
  then have "read_header Io [hd sample_request] (tl sample_request @ ''xy'') = Ok (sample_request, ''xy'')"
    using read_header_run [of "tl sample_request" "[hd sample_request]" Io "''xy''"]
    by (simp add: sample_request_def MAX_HTTP_HEADER_BYTES_def crlf_def suffix_def)
  moreover have "utf8_valid sample_request"
    by (simp add: sample_request_def crlf_def)
  ultimately show ?thesis by (simp add: read_http_header_def)
qed

lemma sample_parse:
  "parse_connect (\<lambda>_. None) sample_request =
     Ok \<lparr>cr_authority = ''0.0.0.9'', cr_port = 25, cr_token = Some ''Y2Fw.cw''\<rparr>"
  by (simp add: parse_connect_def sample_request_def crlf_def parse_authority_def parse_proxy_authorization_def
      std_defs MAX_HTTP_HEADER_BYTES_def CONNECT_HEADER_HEADROOM_BYTES_def MAX_ENCODED_TOKEN_BYTES_def)

lemma sample_verified:
  "verify_token plain_env sample_codec ''Y2Fw.cw'' 1500 =
     Ok \<lparr>vc_capability = sample_capability, vc_policy = [DCidr 9 25]\<rparr>"
  using mint_verifies [OF plain_env_ok sample_codec_ok sample_payload sample_token sample_facts]
    sample_canonical
  by (auto simp: sample_capability_def validate_destination_def MAX_PORTS_PER_DESTINATION_def)

lemma sample_ip: "parse_ip ''0.0.0.9'' = Some (V4 9)"
  by (simp add: std_defs numeral_eq_Suc parse_ip_V4)

lemma sample_target:
  "authorize plain_env [DCidr 9 25] sample_deny ''0.0.0.9'' 25 =
     Ok \<lparr>at_address = 9, at_port = 25, at_expected_sni = None\<rparr>"
  by (simp add: authorize_def sample_ip plain_env_def sample_deny_def check_ip_def denies_ip_def cidr_allows_def)

lemma sample_established:
  "connect_setup sample_world (quotas_new 2) (hd sample_request) (tl sample_request @ ''xy'') =
     (Ok (\<lparr>ec_upstream = 7, ec_target = \<lparr>at_address = 9, at_port = 25, at_expected_sni = None\<rparr>,
           ec_capability_expires_at_ms = 2000, ec_root = ''r''\<rparr>, ''xy''),
      snd (quota_acquire (quotas_new 2) ''r''))"
proof -
  have "authenticate sample_world sample_request = Ok \<lparr>vc_capability = sample_capability, vc_policy = [DCidr 9 25]\<rparr>"
    by (simp add: authenticate_def sample_world_def sample_parse sample_verified)
  moreover have "cap_root_id sample_capability = ''r''" "cap_expires_at_ms sample_capability = 2000"
    by (simp_all add: sample_capability_def)
  ultimately show ?thesis
    by (simp add: connect_setup_def sample_world_def sample_header sample_parse connect_authorized_def
        sample_target quota_acquire_def quotas_new_def quota_count_def)
qed

theorem established_connect_is_authorized_witness:
  "\<exists>token v. verify_token plain_env sample_codec token 1500 = Ok v
     \<and> quota_count (quotas_new 2) (cap_root_id (vc_capability v)) < 2"
proof -
  from established_connect_is_authorized [OF sample_established] obtain token v where
    "verify_token (cw_env sample_world) (cw_codec sample_world) token (cw_now_ms sample_world) = Ok v"
    "quota_count (quotas_new 2) (cap_root_id (vc_capability v)) < rq_max (quotas_new 2)"
    by blast
  then show ?thesis by (simp add: sample_world_def quotas_new_def) blast
qed

lemma sample_refused:
  "connect_setup sample_world (quotas_new 2) (CHR ''C'') (crlf @ crlf) = (Err MalformedRequest, quotas_new 2)"
proof -
  have "list_all (\<lambda>k. \<not> ends_with (crlf @ crlf) (''C'' @ take k (crlf @ crlf))) [0..<length (crlf @ crlf)]"
    by code_simp
  then have "read_header Io ''C'' ((crlf @ crlf) @ []) = Ok (''C'' @ crlf @ crlf, [])"
    by (intro read_header_run) (simp_all add: list_all_iff ends_with_iff suffix_def MAX_HTTP_HEADER_BYTES_def)
  then have "read_http_header Io (CHR ''C'') (crlf @ crlf) = Ok (''C'' @ crlf @ crlf, [])"
    by (simp add: read_http_header_def crlf_def)
  moreover have "parse_connect (\<lambda>_. None) (''C'' @ crlf @ crlf) = Err MalformedRequest"
    by (simp add: parse_connect_def crlf_def starts_with_iff)
  ultimately show ?thesis by (simp add: connect_setup_def sample_world_def authenticate_def)
qed

theorem refused_connect_is_answered_witness:
  "snd (handle_http sample_world (quotas_new 2) (CHR ''C'') (crlf @ crlf) (\<lambda>_ _. [])) = quotas_new 2"
  using refused_connect_is_answered [OF sample_refused, of "\<lambda>_ _. []"]
  by (simp add: quotas_ok_def quotas_new_def sample_world_def)

lemma sample_quota_run: "quota_run 2 (snd (quota_acquire (quotas_new 2) ''r''), {#''r''#})"
  using quota_run.acquired [OF quota_run.start, of 2 "''r''" "snd (quota_acquire (quotas_new 2) ''r'')"]
  by (simp add: quota_acquire_def quotas_new_def quota_count_def)

theorem root_quota_counts_live_permits_witness:
  "quota_count (snd (quota_acquire (quotas_new 2) ''r'')) ''r'' = 1"
  using root_quota_counts_live_permits [OF sample_quota_run, of "''r''"] by simp

lemma sample_tunnel:
  "tunnel sample_env Timeout (Some ''a.b'') 100 2000 1600 sample_stream
     (\<lambda>rest. [Read Client rest, Read Upstream_side ''ok'', Read Client [], Read Upstream_side []]) =
     (None, ([CHR 0x16, CHR 0x03, CHR 0x01, CHR 0x00, CHR 0x3B] @ sample_hello) @ ''rest'', ''ok'')"
  by (simp add: tunnel_def tunnel_gate_def sample_stream_read sample_hello_length budget_consume_def
      checked_sub_def relay_start_def copy_turn_def deliver_def)

theorem tunnel_names_authorized_host_witness:
  "\<exists>hello rest. read_client_hello sample_env Timeout sample_stream = Ok (hello, ''a.b'', rest)"
  using tunnel_names_authorized_host [OF sample_tunnel] by blast

end
