(* ===== verification/Live_Files.thy ===== *)
theory Live_Files
  imports Paging Hand_Policy
begin

section \<open>Live files (\<open>hand-core/src/files.rs\<close>)\<close>

text \<open>
  The bounded file operations of one sandbox generation: logical paths and their confinement to
  \<open>/workspace\<close>, listing and searching with cursors, bounded reads, and writes staged outside the
  workspace and published by one link or rename.

  A relative \<open>PathBuf\<close> is the list of its components, so that the empty list is the directory
  itself (\<open>cap_path\<close>) and \<open>Path\<close>'s order is the lexicographic order on components. The capability
  directories of \<open>cap_std\<close>, the glob and regex engines and SHA-256 are arguments: a
  \<open>workspace_fs\<close> record of functions on a file-system state.
\<close>

subsection \<open>Data\<close>

definition LOGICAL_WORKSPACE :: string where "LOGICAL_WORKSPACE = ''/workspace''"
definition MAX_LIVE_FILE_BYTES :: nat where "MAX_LIVE_FILE_BYTES = 16 * 1024 * 1024"
definition MAX_LOGICAL_PATH_BYTES :: nat where "MAX_LOGICAL_PATH_BYTES = 4096"
definition MAX_SEARCH_ENTRIES :: nat where "MAX_SEARCH_ENTRIES = 100000"
definition MAX_SEARCH_PATH_BYTES :: nat where "MAX_SEARCH_PATH_BYTES = 16 * 1024 * 1024"
definition MAX_GREP_FILE_BYTES :: nat where "MAX_GREP_FILE_BYTES = 8 * 1024 * 1024"
definition MAX_GREP_TOTAL_BYTES :: nat where "MAX_GREP_TOTAL_BYTES = 64 * 1024 * 1024"

type_synonym path = "string list"

datatype live_file_kind = File | Directory | Symlink

record live_file_entry =
  lf_path :: string
  lf_kind :: live_file_kind
  lf_bytes :: nat
  lf_sha256 :: "string option"
  lf_modified_at_ms :: nat

record live_file_content =
  lc_entry :: live_file_entry
  lc_bytes :: bytes

datatype live_file_error =
    InvalidPath | OutsideScope | NotFound | NotFile | NotDirectory | AlreadyExists | TooLarge
  | UnsupportedFileType | SourceChanged | InvalidExpression string | SearchBoundExceeded
  | InvalidCursor | Io string | UnsafeStaging

text \<open>\<open>std::io::Error\<close>, as far as the code looks at it, and \<open>Metadata\<close>.\<close>

datatype io_kind = KNotFound | KNotADirectory | KAlreadyExists | KOther

record io_failure =
  io_kind :: io_kind
  io_text :: string

record file_metadata =
  md_is_symlink :: bool
  md_is_dir :: bool
  md_is_file :: bool
  md_len :: nat
  md_modified_ms :: "nat option"

text \<open>An open file: its metadata, and the outcome of reading at most \<open>n\<close> bytes to the end.\<close>

record open_file =
  of_metadata :: "(io_failure, file_metadata) result"
  of_read :: "nat \<Rightarrow> (io_failure, bytes) result"

record 's workspace_fs =
  fs_open_dir :: "'s \<Rightarrow> path \<Rightarrow> (io_failure, unit) result"
  fs_entries :: "'s \<Rightarrow> path \<Rightarrow> (io_failure, (io_failure, string) result list) result"
  fs_symlink_metadata :: "'s \<Rightarrow> path \<Rightarrow> (io_failure, file_metadata) result"
  fs_read_link :: "'s \<Rightarrow> path \<Rightarrow> (io_failure, bytes) result"
  fs_open :: "'s \<Rightarrow> path \<Rightarrow> (io_failure, open_file) result"
  fs_create_dir_all :: "'s \<Rightarrow> path \<Rightarrow> (io_failure, unit) result \<times> 's"
  st_create_new :: "'s \<Rightarrow> string \<Rightarrow> (io_failure, unit) result \<times> 's"
  st_write_all :: "'s \<Rightarrow> string \<Rightarrow> bytes \<Rightarrow> (io_failure, unit) result \<times> 's"
  st_sync_all :: "'s \<Rightarrow> string \<Rightarrow> (io_failure, unit) result \<times> 's"
  st_set_permissions :: "'s \<Rightarrow> string \<Rightarrow> nat \<Rightarrow> (io_failure, unit) result \<times> 's"
  st_hard_link :: "'s \<Rightarrow> string \<Rightarrow> path \<Rightarrow> (io_failure, unit) result \<times> 's"
  st_rename :: "'s \<Rightarrow> string \<Rightarrow> path \<Rightarrow> (io_failure, unit) result \<times> 's"
  st_remove_file :: "'s \<Rightarrow> string \<Rightarrow> (io_failure, unit) result \<times> 's"
  fs_sha256 :: "bytes \<Rightarrow> string"
  fs_to_string_lossy :: "string \<Rightarrow> string"

definition io_error :: "io_failure \<Rightarrow> live_file_error" where
  "io_error e = Io (io_text e)"

definition map_not_found :: "io_failure \<Rightarrow> live_file_error" where
  "map_not_found e = (if io_kind e = KNotFound then NotFound else io_error e)"

definition map_directory :: "io_failure \<Rightarrow> live_file_error" where
  "map_directory e =
     (case io_kind e of KNotFound \<Rightarrow> NotFound | KNotADirectory \<Rightarrow> NotDirectory | _ \<Rightarrow> io_error e)"

definition map_already_exists :: "io_failure \<Rightarrow> live_file_error" where
  "map_already_exists e = (if io_kind e = KAlreadyExists then AlreadyExists else io_error e)"

subsection \<open>Paths\<close>

text \<open>\<open>Path::new(segment).components()\<close> yields exactly one normal component, on Unix.\<close>

definition normal_component :: "string \<Rightarrow> bool" where
  "normal_component seg \<longleftrightarrow> seg \<noteq> [] \<and> CHR ''/'' \<notin> set seg \<and> seg \<notin> {''.'', ''..''}"

fun relative_segments :: "string list \<Rightarrow> path \<Rightarrow> (live_file_error, path) result" where
  "relative_segments [] candidate = Ok candidate"
| "relative_segments (seg # segs) candidate =
     (if CHR 0x5C \<in> set seg \<or> \<not> normal_component seg then Err OutsideScope
      else relative_segments segs (candidate @ [seg]))"

definition relative :: "string \<Rightarrow> (live_file_error, path) result" where
  "relative logical_path =
     (if logical_path = [] \<or> length logical_path > 4096 \<or> CHR 0x00 \<in> set logical_path
      then Err InvalidPath
      else and_then
        (if logical_path = LOGICAL_WORKSPACE then Ok []
         else ok_or (strip_prefix ''/workspace/'' logical_path) OutsideScope) (\<lambda>rel.
      and_then (relative_segments (filter (\<lambda>seg. seg \<noteq> []) (split_on (CHR ''/'') rel)) []) (\<lambda>candidate.
        if rel \<noteq> [] \<and> [] \<in> set (split_on (CHR ''/'') rel) then Err InvalidPath
        else Ok candidate)))"

text \<open>The text of a relative path, and its logical path; a relative \<open>PathBuf\<close> is never absolute.\<close>

definition path_text :: "path \<Rightarrow> string" where
  "path_text p = join_on (CHR ''/'') p"

definition project_logical_path :: "'s workspace_fs \<Rightarrow> path \<Rightarrow> string" where
  "project_logical_path W p =
     (let rel = map (\<lambda>c. if c = CHR 0x5C then CHR ''/'' else c) (fs_to_string_lossy W (path_text p)) in
      if rel = [] then LOGICAL_WORKSPACE else LOGICAL_WORKSPACE @ ''/'' @ rel)"

definition validate_cursor :: "string option \<Rightarrow> (live_file_error, unit) result" where
  "validate_cursor cursor =
     (case cursor of
        None \<Rightarrow> Ok ()
      | Some c \<Rightarrow>
          if length c > MAX_LOGICAL_PATH_BYTES
             \<or> \<not> (c = LOGICAL_WORKSPACE \<or> starts_with ''/workspace/'' c)
          then Err InvalidCursor else Ok ())"

definition temporary_path :: "path \<Rightarrow> nat \<Rightarrow> nat \<Rightarrow> string" where
  "temporary_path p pid nanos =
     (let name = (if p \<noteq> [] \<and> utf8_valid (last p) then last p else ''file'') in
      ''.'' @ name @ ''.hand-write-'' @ show_nat pid @ ''-'' @ show_nat nanos)"

subsection \<open>Entries\<close>

definition modified_at_ms :: "file_metadata \<Rightarrow> nat" where
  "modified_at_ms m = (case md_modified_ms m of None \<Rightarrow> 0 | Some t \<Rightarrow> t)"

definition regular_file_entry ::
    "string \<Rightarrow> file_metadata \<Rightarrow> (live_file_error, live_file_entry) result" where
  "regular_file_entry logical_path m =
     (if \<not> md_is_file m then Err NotFile
      else Ok \<lparr>lf_path = logical_path, lf_kind = File, lf_bytes = md_len m, lf_sha256 = None,
               lf_modified_at_ms = modified_at_ms m\<rparr>)"

definition entry_without_hash ::
    "'s workspace_fs \<Rightarrow> 's \<Rightarrow> path \<Rightarrow> string \<Rightarrow> (live_file_error, live_file_entry) result" where
  "entry_without_hash W s p logical_path =
     and_then (map_err map_not_found (fs_symlink_metadata W s p)) (\<lambda>m.
     and_then (if md_is_symlink m then Ok Symlink else if md_is_dir m then Ok Directory
               else if md_is_file m then Ok File else Err UnsupportedFileType) (\<lambda>kind.
     and_then (case kind of
                 File \<Rightarrow> Ok (md_len m)
               | Symlink \<Rightarrow> and_then (map_err io_error (fs_read_link W s p)) (\<lambda>t. Ok (length t))
               | Directory \<Rightarrow> Ok 0) (\<lambda>bytes.
       Ok \<lparr>lf_path = logical_path, lf_kind = kind, lf_bytes = bytes, lf_sha256 = None,
           lf_modified_at_ms = modified_at_ms m\<rparr>)))"

definition stat :: "'s workspace_fs \<Rightarrow> 's \<Rightarrow> string \<Rightarrow> (live_file_error, live_file_entry) result" where
  "stat W s logical_path =
     and_then (relative logical_path) (\<lambda>rel. entry_without_hash W s rel logical_path)"

definition read_file ::
    "'s workspace_fs \<Rightarrow> 's \<Rightarrow> string \<Rightarrow> nat \<Rightarrow> (live_file_error, live_file_content) result" where
  "read_file W s logical_path max_bytes =
     (let max_bytes = min max_bytes MAX_LIVE_FILE_BYTES in
      if max_bytes = 0 then Err TooLarge
      else and_then (relative logical_path) (\<lambda>rel.
      and_then (map_err map_not_found (fs_open W s rel)) (\<lambda>file.
      and_then (map_err map_not_found (of_metadata file)) (\<lambda>m.
        if \<not> md_is_file m then Err NotFile
        else if md_len m > max_bytes then Err TooLarge
        else and_then (map_err io_error (of_read file (saturating_add max_bytes 1))) (\<lambda>bytes.
          if length bytes > max_bytes then Err TooLarge
          else and_then (regular_file_entry logical_path m) (\<lambda>entry.
            Ok \<lparr>lc_entry = entry\<lparr>lf_sha256 := Some (fs_sha256 W bytes)\<rparr>, lc_bytes = bytes\<rparr>))))))"

definition open_reader ::
    "'s workspace_fs \<Rightarrow> 's \<Rightarrow> string \<Rightarrow> (live_file_error, live_file_entry \<times> open_file) result" where
  "open_reader W s logical_path =
     and_then (relative logical_path) (\<lambda>rel.
     and_then (map_err map_not_found (fs_open W s rel)) (\<lambda>file.
     and_then (map_err map_not_found (of_metadata file)) (\<lambda>m.
     and_then (regular_file_entry logical_path m) (\<lambda>entry. Ok (entry, file)))))"

definition open_directory :: "'s workspace_fs \<Rightarrow> 's \<Rightarrow> string \<Rightarrow> (live_file_error, path) result" where
  "open_directory W s logical_path =
     and_then (relative logical_path) (\<lambda>rel.
     and_then (map_err map_directory (fs_open_dir W s rel)) (\<lambda>_. Ok rel))"

subsection \<open>Listing\<close>

fun collect_entries ::
    "nat \<Rightarrow> (io_failure, string) result list \<Rightarrow> string list \<Rightarrow> (live_file_error, string list) result"
where
  "collect_entries m [] acc = Ok acc"
| "collect_entries m (e # es) acc =
     (if length acc \<ge> m then Err SearchBoundExceeded
      else and_then (map_err io_error e) (\<lambda>name. collect_entries m es (acc @ [name])))"

definition bounded_directory_entries ::
    "'s workspace_fs \<Rightarrow> 's \<Rightarrow> path \<Rightarrow> nat \<Rightarrow> (live_file_error, string list) result" where
  "bounded_directory_entries W s dir m =
     and_then (map_err io_error (fs_entries W s dir)) (\<lambda>es. collect_entries m es [])"

definition at_or_before :: "string option \<Rightarrow> string \<Rightarrow> bool" where
  "at_or_before cursor logical = (case cursor of None \<Rightarrow> False | Some c \<Rightarrow> logical \<le> c)"

fun project_entries ::
    "'s workspace_fs \<Rightarrow> 's \<Rightarrow> path \<Rightarrow> string option \<Rightarrow> nat \<Rightarrow> string list \<Rightarrow> live_file_entry list
      \<Rightarrow> (live_file_error, live_file_entry list) result" where
  "project_entries W s dir cursor limit [] projected = Ok projected"
| "project_entries W s dir cursor limit (name # names) projected =
     (let child = dir @ [name]; logical = project_logical_path W child in
      if at_or_before cursor logical then project_entries W s dir cursor limit names projected
      else and_then (entry_without_hash W s child logical) (\<lambda>entry.
        if length (projected @ [entry]) > limit then Ok (projected @ [entry])
        else project_entries W s dir cursor limit names (projected @ [entry])))"

type_synonym file_page = "live_file_entry page_result option"

definition list_files ::
    "'s workspace_fs \<Rightarrow> 's \<Rightarrow> string \<Rightarrow> string option \<Rightarrow> nat \<Rightarrow> (live_file_error, file_page) result" where
  "list_files W s logical_path cursor limit =
     and_then (relative logical_path) (\<lambda>rel.
     and_then (map_err map_directory (fs_open_dir W s rel)) (\<lambda>_.
     and_then (validate_cursor cursor) (\<lambda>_.
     and_then (bounded_directory_entries W s rel MAX_SEARCH_ENTRIES) (\<lambda>entries.
     and_then (project_entries W s rel cursor (clamp 1 MAX_PAGE limit) (sort entries) []) (\<lambda>projected.
       Ok (page lf_path projected (clamp 1 MAX_PAGE limit)))))))"

subsection \<open>Searching\<close>

text \<open>
  The walk of the tree. \<open>scan_entries\<close> is the inner loop over one directory; the pending
  directories are a stack.
\<close>

fun scan_entries ::
    "'s workspace_fs \<Rightarrow> 's \<Rightarrow> path \<Rightarrow> string list \<Rightarrow> path list \<Rightarrow> path list \<Rightarrow> nat
      \<Rightarrow> (live_file_error, path list \<times> path list \<times> nat) result" where
  "scan_entries W s dir [] pending paths path_bytes = Ok (pending, paths, path_bytes)"
| "scan_entries W s dir (name # names) pending paths path_bytes =
     (let child = dir @ [name] in
      and_then (ok_or (checked_add path_bytes (length (path_text child))) SearchBoundExceeded) (\<lambda>path_bytes.
        if path_bytes > MAX_SEARCH_PATH_BYTES then Err SearchBoundExceeded
        else and_then (map_err map_not_found (fs_symlink_metadata W s child)) (\<lambda>m.
          scan_entries W s dir names
            (if md_is_dir m \<and> \<not> md_is_symlink m then child # pending else pending)
            (paths @ [child]) path_bytes)))"

lemma collect_entries_length:
  "collect_entries m es acc = Ok xs \<Longrightarrow> length acc \<le> m \<Longrightarrow> length xs \<le> m"
  by (induction m es acc rule: collect_entries.induct) (auto simp: result_iffs split: if_splits)

lemma bounded_directory_entries_length: "bounded_directory_entries W s dir m = Ok xs \<Longrightarrow> length xs \<le> m"
  by (auto simp: bounded_directory_entries_def result_iffs dest: collect_entries_length)

lemma scan_entries_Ok:
  "scan_entries W s dir names pending paths pb = Ok (pending', paths', pb') \<Longrightarrow> pb \<le> MAX_SEARCH_PATH_BYTES \<Longrightarrow>
     paths' = paths @ map (\<lambda>n. dir @ [n]) names
     \<and> pb' = pb + (\<Sum>n\<leftarrow>names. length (path_text (dir @ [n]))) \<and> pb' \<le> MAX_SEARCH_PATH_BYTES
     \<and> (names = [] \<longrightarrow> pending' = pending)"
  by (induction names arbitrary: pending paths pb)
     (fastforce simp: Let_def result_iffs split: if_splits)+

lemma scan_entries_paths:
  "scan_entries W s dir names pending paths pb = Ok (pending', paths', pb') \<Longrightarrow>
     length paths' = length paths + length names \<and> (names = [] \<longrightarrow> pending' = pending)"
  by (induction names arbitrary: pending paths pb)
     (fastforce simp: Let_def result_iffs split: if_splits)+

function scan_dirs ::
    "'s workspace_fs \<Rightarrow> 's \<Rightarrow> path list \<Rightarrow> path list \<Rightarrow> nat \<Rightarrow> (live_file_error, path list) result" where
  "scan_dirs W s [] paths path_bytes = Ok paths"
| "scan_dirs W s (dir # pending) paths path_bytes =
     (if length paths \<ge> MAX_SEARCH_ENTRIES then Err SearchBoundExceeded
      else and_then (map_err map_directory (fs_open_dir W s dir)) (\<lambda>_.
      and_then (bounded_directory_entries W s dir (MAX_SEARCH_ENTRIES - length paths)) (\<lambda>entries.
      and_then (scan_entries W s dir (sort entries) pending paths path_bytes) (\<lambda>nxt.
        scan_dirs W s (fst nxt) (fst (snd nxt)) (snd (snd nxt))))))"
  by pat_completeness auto
termination
proof (relation "measures [\<lambda>(W, s, pending, paths, pb). MAX_SEARCH_ENTRIES - length paths,
                           \<lambda>(W, s, pending, paths, pb). length pending]", goal_cases)
  case (2 W s dir pending paths pb u entries nxt)
  obtain q p b where n: "nxt = (q, p, b)" by (cases nxt)
  with scan_entries_paths [of W s dir "sort entries" pending paths pb q p b] 2
  have "length p = length paths + length entries" "entries = [] \<Longrightarrow> q = pending" by auto
  then show ?case using 2 n by (cases entries) auto
qed simp

text \<open>The filter over the paths found; \<open>matches\<close> threads the state of its closure.\<close>

fun search_paths ::
    "'s workspace_fs \<Rightarrow> 's \<Rightarrow> path \<Rightarrow> string option \<Rightarrow> nat
      \<Rightarrow> ('m \<Rightarrow> path \<Rightarrow> path \<Rightarrow> file_metadata \<Rightarrow> (live_file_error, bool \<times> 'm) result)
      \<Rightarrow> path list \<Rightarrow> 'm \<Rightarrow> live_file_entry list \<Rightarrow> (live_file_error, live_file_entry list) result" where
  "search_paths W s base cursor limit matches [] st projected = Ok projected"
| "search_paths W s base cursor limit matches (child # paths) st projected =
     (let logical = project_logical_path W child in
      if at_or_before cursor logical then search_paths W s base cursor limit matches paths st projected
      else and_then (map_err map_not_found (fs_symlink_metadata W s child)) (\<lambda>m.
        let rel = (case strip_prefix base child of Some r \<Rightarrow> r | None \<Rightarrow> child) in
        and_then (matches st rel child m) (\<lambda>hit.
          if fst hit
          then and_then (entry_without_hash W s child logical) (\<lambda>entry.
                 if length (projected @ [entry]) > limit then Ok (projected @ [entry])
                 else search_paths W s base cursor limit matches paths (snd hit) (projected @ [entry]))
          else search_paths W s base cursor limit matches paths (snd hit) projected)))"

definition search ::
    "'s workspace_fs \<Rightarrow> 's \<Rightarrow> string \<Rightarrow> string option \<Rightarrow> nat
      \<Rightarrow> ('m \<Rightarrow> path \<Rightarrow> path \<Rightarrow> file_metadata \<Rightarrow> (live_file_error, bool \<times> 'm) result) \<Rightarrow> 'm
      \<Rightarrow> (live_file_error, file_page) result" where
  "search W s logical_path cursor limit matches st =
     and_then (relative logical_path) (\<lambda>base.
     and_then (map_err map_directory (fs_open_dir W s base)) (\<lambda>_.
     and_then (validate_cursor cursor) (\<lambda>_.
     and_then (scan_dirs W s [base] [] 0) (\<lambda>paths.
     and_then (search_paths W s base cursor (clamp 1 MAX_PAGE limit) matches (sort paths) st []) (\<lambda>projected.
       Ok (page lf_path projected (clamp 1 MAX_PAGE limit)))))))"

definition find_files ::
    "'s workspace_fs \<Rightarrow> (string \<Rightarrow> (string, path \<Rightarrow> bool) result) \<Rightarrow> 's \<Rightarrow> string \<Rightarrow> string
      \<Rightarrow> string option \<Rightarrow> nat \<Rightarrow> (live_file_error, file_page) result" where
  "find_files W glob s logical_path expression cursor limit =
     and_then (map_err InvalidExpression (glob expression)) (\<lambda>is_match.
       search W s logical_path cursor limit (\<lambda>(_ :: unit) rel _ _. Ok (is_match rel, ())) ())"

definition grep_matches ::
    "'s workspace_fs \<Rightarrow> 's \<Rightarrow> (bytes \<Rightarrow> bool)
      \<Rightarrow> nat \<Rightarrow> path \<Rightarrow> path \<Rightarrow> file_metadata \<Rightarrow> (live_file_error, bool \<times> nat) result" where
  "grep_matches W s is_match tot rel p m =
     (if \<not> md_is_file m \<or> md_len m > MAX_GREP_FILE_BYTES then Ok (False, tot)
      else let tot = saturating_add tot (md_len m) in
        if tot > MAX_GREP_TOTAL_BYTES then Err SearchBoundExceeded
        else and_then (map_err map_not_found (fs_open W s p)) (\<lambda>file.
          and_then (map_err io_error (of_read file (saturating_add (md_len m) 1))) (\<lambda>bytes.
            Ok (CHR 0x00 \<notin> set bytes \<and> is_match bytes, tot))))"

definition grep_files ::
    "'s workspace_fs \<Rightarrow> (string \<Rightarrow> (string, bytes \<Rightarrow> bool) result) \<Rightarrow> 's \<Rightarrow> string \<Rightarrow> string
      \<Rightarrow> string option \<Rightarrow> nat \<Rightarrow> (live_file_error, file_page) result" where
  "grep_files W regex s logical_path expression cursor limit =
     and_then (map_err InvalidExpression (regex expression)) (\<lambda>is_match.
       search W s logical_path cursor limit (grep_matches W s is_match) 0)"

subsection \<open>Writing\<close>

definition bind_io ::
    "('e, 'a) result \<times> 's \<Rightarrow> ('a \<Rightarrow> 's \<Rightarrow> ('e, 'b) result \<times> 's) \<Rightarrow> ('e, 'b) result \<times> 's" where
  "bind_io r f = (case r of (Err e, s) \<Rightarrow> (Err e, s) | (Ok x, s) \<Rightarrow> f x s)"

definition io_step :: "('d \<Rightarrow> 'e) \<Rightarrow> ('d, 'a) result \<times> 's \<Rightarrow> ('e, 'a) result \<times> 's" where
  "io_step f r = (map_err f (fst r), snd r)"

text \<open>
  The publication of a staged file (mode 0660, 432 in decimal, set before): a hard link, which never replaces, and the removal of the
  staged name, or a rename.
\<close>

definition publish ::
    "'s workspace_fs \<Rightarrow> string \<Rightarrow> path \<Rightarrow> bool \<Rightarrow> 's \<Rightarrow> (live_file_error, unit) result \<times> 's" where
  "publish W temporary p overwrite s =
     (if \<not> overwrite
      then bind_io (io_step map_already_exists (st_hard_link W s temporary p)) (\<lambda>_ s.
             io_step io_error (st_remove_file W s temporary))
      else io_step io_error (st_rename W s temporary p))"

definition seal ::
    "'s workspace_fs \<Rightarrow> string \<Rightarrow> path \<Rightarrow> bool \<Rightarrow> 's \<Rightarrow> (live_file_error, unit) result \<times> 's" where
  "seal W temporary p overwrite s =
     bind_io (io_step io_error (st_sync_all W s temporary)) (\<lambda>_ s.
     bind_io (io_step io_error (st_set_permissions W s temporary 432)) (\<lambda>_ s.
       publish W temporary p overwrite s))"

definition stage_bytes ::
    "'s workspace_fs \<Rightarrow> string \<Rightarrow> path \<Rightarrow> bytes \<Rightarrow> bool \<Rightarrow> 's \<Rightarrow> (live_file_error, unit) result \<times> 's" where
  "stage_bytes W temporary p bytes overwrite s =
     bind_io (io_step io_error (st_create_new W s temporary)) (\<lambda>_ s.
     bind_io (io_step io_error (st_write_all W s temporary bytes)) (\<lambda>_ s.
       seal W temporary p overwrite s))"

text \<open>\<open>source\<close> is the staged object: what opening it and reading all of it gives.\<close>

definition stage_file ::
    "'s workspace_fs \<Rightarrow> string \<Rightarrow> path \<Rightarrow> (io_failure, bytes) result \<Rightarrow> nat \<Rightarrow> bool \<Rightarrow> 's
      \<Rightarrow> (live_file_error, unit) result \<times> 's" where
  "stage_file W temporary p source expected_bytes overwrite s =
     bind_io (map_err io_error source, s) (\<lambda>content s.
     bind_io (io_step io_error (st_create_new W s temporary)) (\<lambda>_ s.
     let copied = take (saturating_add expected_bytes 1) content in
     bind_io (io_step io_error (st_write_all W s temporary copied)) (\<lambda>_ s.
       if length copied \<noteq> expected_bytes then (Err SourceChanged, s)
       else seal W temporary p overwrite s)))"

text \<open>The staged name is removed after a failure; that removal's own outcome is ignored.\<close>

definition cleanup ::
    "'s workspace_fs \<Rightarrow> string \<Rightarrow> (live_file_error, unit) result \<times> 's \<Rightarrow> (live_file_error, unit) result \<times> 's" where
  "cleanup W temporary r =
     (case r of (Err e, s) \<Rightarrow> (Err e, snd (st_remove_file W s temporary)) | (Ok u, s) \<Rightarrow> (Ok u, s))"

definition describe ::
    "'s workspace_fs \<Rightarrow> path \<Rightarrow> string \<Rightarrow> string \<Rightarrow> 's \<Rightarrow> (live_file_error, live_file_entry) result \<times> 's" where
  "describe W p logical_path sha s =
     (and_then (entry_without_hash W s p logical_path) (\<lambda>entry. Ok (entry\<lparr>lf_sha256 := Some sha\<rparr>)), s)"

definition write_file ::
    "'s workspace_fs \<Rightarrow> nat \<times> nat \<Rightarrow> 's \<Rightarrow> string \<Rightarrow> bytes \<Rightarrow> bool
      \<Rightarrow> (live_file_error, live_file_entry) result \<times> 's" where
  "write_file W stamp s logical_path bytes overwrite =
     (if length bytes > MAX_LIVE_FILE_BYTES then (Err TooLarge, s)
      else (case relative logical_path of
              Err e \<Rightarrow> (Err e, s)
            | Ok p \<Rightarrow>
                if p = [] then (Err NotFile, s)
                else
                  bind_io (io_step io_error (fs_create_dir_all W s (butlast p))) (\<lambda>_ s.
                  let temporary = temporary_path p (fst stamp) (snd stamp) in
                  bind_io (cleanup W temporary (stage_bytes W temporary p bytes overwrite s)) (\<lambda>_ s.
                    describe W p logical_path (fs_sha256 W bytes) s))))"

definition write_from_file ::
    "'s workspace_fs \<Rightarrow> nat \<times> nat \<Rightarrow> 's \<Rightarrow> string \<Rightarrow> (io_failure, bytes) result \<Rightarrow> nat \<Rightarrow> string \<Rightarrow> bool
      \<Rightarrow> (live_file_error, live_file_entry) result \<times> 's" where
  "write_from_file W stamp s logical_path source expected_bytes expected_sha256 overwrite =
     (if expected_bytes > MAX_OBJECT_BYTES then (Err TooLarge, s)
      else (case relative logical_path of
              Err e \<Rightarrow> (Err e, s)
            | Ok p \<Rightarrow>
                if p = [] then (Err NotFile, s)
                else
                  bind_io (io_step io_error (fs_create_dir_all W s (butlast p))) (\<lambda>_ s.
                  let temporary = temporary_path p (fst stamp) (snd stamp) in
                  bind_io (cleanup W temporary
                             (stage_file W temporary p source expected_bytes overwrite s)) (\<lambda>_ s.
                    describe W p logical_path expected_sha256 s))))"

section \<open>Lemmas\<close>

subsection \<open>Paths\<close>

definition plain_segment :: "string \<Rightarrow> bool" where
  "plain_segment seg \<longleftrightarrow> seg \<noteq> [] \<and> seg \<noteq> ''.'' \<and> seg \<noteq> ''..''
     \<and> CHR ''/'' \<notin> set seg \<and> CHR 0x5C \<notin> set seg \<and> CHR 0x00 \<notin> set seg"

definition logical_of :: "path \<Rightarrow> string" where
  "logical_of p = LOGICAL_WORKSPACE @ concat (map (\<lambda>seg. ''/'' @ seg) p)"

lemma relative_segments_Ok:
  "relative_segments segs acc = Ok p \<longleftrightarrow>
     p = acc @ segs \<and> (\<forall>seg\<in>set segs. CHR 0x5C \<notin> set seg \<and> normal_component seg)"
  by (induction segs arbitrary: acc) auto

lemma join_on_concat: "p \<noteq> [] \<Longrightarrow> c # join_on c p = concat (map (\<lambda>seg. c # seg) p)"
  by (induction c p rule: join_on.induct) auto

lemma logical_of_path: "logical_of p = LOGICAL_WORKSPACE @ (if p = [] then [] else ''/'' @ path_text p)"
  using join_on_concat [of p "CHR ''/''"] by (simp add: logical_of_def path_text_def)

lemma set_join_on: "set (join_on c p) \<subseteq> \<Union> (set ` set p) \<union> {c}"
  by (induction c p rule: join_on.induct) auto

lemma set_path_text: "seg \<in> set p \<Longrightarrow> set seg \<subseteq> set (path_text p)"
  unfolding path_text_def by (induction "CHR ''/''" p rule: join_on.induct) auto

lemma split_path_text:
  "p \<noteq> [] \<Longrightarrow> \<forall>seg\<in>set p. CHR ''/'' \<notin> set seg \<Longrightarrow> split_on (CHR ''/'') (path_text p) = p"
  unfolding path_text_def by (rule split_join) auto

lemma path_text_Nil: "\<forall>seg\<in>set p. seg \<noteq> [] \<Longrightarrow> path_text p = [] \<longleftrightarrow> p = []"
  unfolding path_text_def by (induction "CHR ''/''" p rule: join_on.induct) auto

lemma relative_logical_of:
  assumes "list_all plain_segment p" and "length (logical_of p) \<le> 4096"
  shows "relative (logical_of p) = Ok p"
proof (cases "p = []")
  case True
  then show ?thesis by (simp add: relative_def logical_of_def LOGICAL_WORKSPACE_def)
next
  case False
  have seg: "\<forall>seg\<in>set p. seg \<noteq> [] \<and> CHR ''/'' \<notin> set seg \<and> CHR 0x5C \<notin> set seg \<and> normal_component seg"
    using assms(1) by (auto simp: list_all_iff plain_segment_def normal_component_def)
  have l: "logical_of p = ''/workspace/'' @ path_text p"
    using False by (simp add: logical_of_path LOGICAL_WORKSPACE_def)
  have split: "split_on (CHR ''/'') (path_text p) = p"
    using seg by (intro split_path_text False) auto
  have nul: "CHR 0x00 \<notin> set (logical_of p)"
    using assms(1) set_join_on [of "CHR ''/''" p]
    by (auto simp: l path_text_def list_all_iff plain_segment_def)
  have f: "filter (\<lambda>seg. seg \<noteq> []) p = p" using seg by simp
  have n: "[] \<notin> set p" using seg by auto
  have "relative_segments p [] = Ok p" using seg by (simp add: relative_segments_Ok)
  moreover have "logical_of p \<noteq> LOGICAL_WORKSPACE" by (simp add: l LOGICAL_WORKSPACE_def)
  moreover have "strip_prefix ''/workspace/'' (logical_of p) = Some (path_text p)" by (simp only: strip_prefix_Some_iff l)
  ultimately show ?thesis
    using nul assms(2) l by (simp add: relative_def split f n)
qed

lemma relative_Ok:
  assumes "relative l = Ok p"
  shows "list_all plain_segment p" "length l \<le> 4096" "l = logical_of p \<or> l = ''/workspace/'' \<and> p = []"
proof -
  from assms obtain rel where
    nul: "CHR 0x00 \<notin> set l" and len: "length l \<le> 4096" and
    rel: "l = LOGICAL_WORKSPACE \<and> rel = [] \<or> l = ''/workspace/'' @ rel" and
    segs: "p = filter (\<lambda>seg. seg \<noteq> []) (split_on (CHR ''/'') rel)"
      "\<forall>seg\<in>set p. CHR 0x5C \<notin> set seg \<and> normal_component seg" and
    ne: "rel = [] \<or> [] \<notin> set (split_on (CHR ''/'') rel)"
    by (fastforce simp: relative_def and_then_Ok_iff relative_segments_Ok split: if_splits)
  have sub: "set seg \<subseteq> set l" if "seg \<in> set p" for seg
    using that rel segs(1) split_on_elem [of _ seg "CHR ''/''" rel] by auto
  show "list_all plain_segment p"
    using segs(2) sub nul by (auto simp: list_all_iff plain_segment_def normal_component_def)
  show "length l \<le> 4096" by (rule len)
  show "l = logical_of p \<or> l = ''/workspace/'' \<and> p = []"
  proof (cases "rel = []")
    case True
    then show ?thesis using rel segs(1) by (auto simp: logical_of_def LOGICAL_WORKSPACE_def)
  next
    case False
    then have "p = split_on (CHR ''/'') rel" using segs(1) ne by (auto intro!: filter_True)
    then have "path_text p = rel" "p \<noteq> []" by (simp_all add: path_text_def)
    then show ?thesis using rel False by (auto simp: logical_of_path LOGICAL_WORKSPACE_def)
  qed
qed

subsection \<open>Listing\<close>

text \<open>Names whose lossy conversion changes nothing: well-formed UTF-8 without separators.\<close>

definition lossless :: "'s workspace_fs \<Rightarrow> path \<Rightarrow> bool" where
  "lossless W p \<longleftrightarrow> fs_to_string_lossy W (path_text p) = path_text p"

lemma project_logical_of:
  assumes "list_all plain_segment p" and "lossless W p"
  shows "project_logical_path W p = logical_of p"
proof -
  have "CHR 0x5C \<notin> set (path_text p)"
    using assms(1) set_join_on [of "CHR ''/''" p] by (auto simp: path_text_def list_all_iff plain_segment_def)
  then have "map (\<lambda>c. if c = CHR 0x5C then CHR ''/'' else c) (path_text p) = path_text p"
    by (induction "path_text p") (auto intro!: map_idI)
  moreover have "path_text p = [] \<longleftrightarrow> p = []"
    using assms(1) by (intro path_text_Nil) (auto simp: list_all_iff plain_segment_def)
  ultimately show ?thesis
    using assms(2) by (simp add: project_logical_path_def lossless_def logical_of_path)
qed

lemma entry_path: "entry_without_hash W s p l = Ok e \<Longrightarrow> lf_path e = l"
  by (auto simp: entry_without_hash_def result_iffs)

lemma collect_all: "length acc + length names \<le> m \<Longrightarrow> collect_entries m (map Ok names) acc = Ok (acc @ names)"
  by (induction names arbitrary: acc) auto

text \<open>The entries of a directory that can be described, in the order of their names.\<close>

definition describable :: "'s workspace_fs \<Rightarrow> 's \<Rightarrow> path \<Rightarrow> string \<Rightarrow> bool" where
  "describable W s dir n \<longleftrightarrow> is_ok (entry_without_hash W s (dir @ [n]) (logical_of (dir @ [n])))"

definition dir_entry :: "'s workspace_fs \<Rightarrow> 's \<Rightarrow> path \<Rightarrow> string \<Rightarrow> live_file_entry" where
  "dir_entry W s dir n = projr (entry_without_hash W s (dir @ [n]) (logical_of (dir @ [n])))"

definition dir_listing :: "'s workspace_fs \<Rightarrow> 's \<Rightarrow> path \<Rightarrow> string list \<Rightarrow> live_file_entry list" where
  "dir_listing W s dir names =
     map (dir_entry W s dir) (filter (describable W s dir) (sorted_list_of_set (set names)))"

lemma dir_entry_path: "describable W s dir n \<Longrightarrow> lf_path (dir_entry W s dir n) = logical_of dir @ ''/'' @ n"
  using entry_path by (fastforce simp: describable_def dir_entry_def is_ok_iff logical_of_def)

lemma append_less_iff [simp]: "(xs @ ys :: string) < xs @ zs \<longleftrightarrow> ys < zs"
  by (induction xs) simp_all

interpretation dirs: cursor_source lf_path "dir_listing W s dir names" for W s dir names
proof
  have "sorted_wrt (<) (sorted_list_of_set (set names))"
    by (simp add: strict_sorted_list_of_set)
  then have "sorted_wrt (<) (filter (describable W s dir) (sorted_list_of_set (set names)))"
    by (rule sorted_wrt_filter)
  then show "sorted_wrt (\<lambda>x y. lf_path x < lf_path y) (dir_listing W s dir names)"
    unfolding dir_listing_def sorted_wrt_map
    by (rule sorted_wrt_mono_rel [rotated]) (simp add: dir_entry_path)
qed

lemma after_cursor_Cons:
  "after_cursor ident c (x # xs) =
     (if at_or_before c (ident x) then after_cursor ident c xs else x # after_cursor ident c xs)"
  by (auto simp: after_cursor_def at_or_before_def split: option.splits)

lemma project_entries_Ok:
  assumes "\<forall>n\<in>set names. plain_segment n \<and> lossless W (dir @ [n]) \<and> describable W s dir n"
    and "list_all plain_segment dir" and "length acc \<le> limit"
  shows "project_entries W s dir cursor limit names acc =
    Ok (acc @ take (Suc limit - length acc) (after_cursor lf_path cursor (map (dir_entry W s dir) names)))"
  using assms
proof (induction names arbitrary: acc)
  case Nil
  then show ?case by (simp add: after_cursor_def)
next
  case (Cons n names)
  define e where "e = dir_entry W s dir n"
  have n: "plain_segment n" "lossless W (dir @ [n])" "describable W s dir n" using Cons.prems(1) by auto
  have l: "project_logical_path W (dir @ [n]) = logical_of (dir @ [n])"
    using n Cons.prems(2) by (intro project_logical_of) auto
  have e: "entry_without_hash W s (dir @ [n]) (logical_of (dir @ [n])) = Ok e"
    using n(3) by (auto simp: describable_def is_ok_iff e_def dir_entry_def)
  have p: "lf_path e = logical_of (dir @ [n])" using entry_path [OF e] .
  show ?case
  proof (cases "at_or_before cursor (lf_path e) \<or> length acc = limit")
    case True
    then show ?thesis using Cons l e p
      by (auto simp: Let_def after_cursor_Cons e_def [symmetric])
  next
    case False
    then have "length (acc @ [e]) \<le> limit" using Cons.prems(3) by simp
    from Cons.IH [OF _ Cons.prems(2) this] False Cons.prems l e p show ?thesis
      by (simp add: Let_def after_cursor_Cons e_def [symmetric] Suc_diff_le)
  qed
qed

lemma clamp_page: "0 < clamp 1 MAX_PAGE limit"
  using clamp_bounds [of 1 MAX_PAGE limit] by (simp add: MAX_PAGE_def)

text \<open>A directory that can be listed: its names are plain and distinct, and each can be described.\<close>

definition listable :: "'s workspace_fs \<Rightarrow> 's \<Rightarrow> path \<Rightarrow> string list \<Rightarrow> bool" where
  "listable W s dir names \<longleftrightarrow>
     fs_open_dir W s dir = Ok () \<and> fs_entries W s dir = Ok (map Ok names)
     \<and> distinct names \<and> length names \<le> MAX_SEARCH_ENTRIES
     \<and> list_all (\<lambda>n. plain_segment n \<and> lossless W (dir @ [n]) \<and> describable W s dir n
                       \<and> length (logical_of (dir @ [n])) \<le> MAX_LOGICAL_PATH_BYTES) names"

lemma listable_listing:
  "listable W s dir names \<Longrightarrow> dir_listing W s dir names = map (dir_entry W s dir) (sort names)"
  by (auto simp: dir_listing_def listable_def list_all_iff sorted_list_of_set_sort_remdups distinct_remdups_id)

lemma list_files_page:
  assumes "relative l = Ok dir" and "listable W s dir names" and "validate_cursor cursor = Ok ()"
  shows "list_files W s l cursor limit =
    Ok (fetch_page lf_path (dir_listing W s dir names) cursor (clamp 1 MAX_PAGE limit))"
proof -
  have "project_entries W s dir cursor (clamp 1 MAX_PAGE limit) (sort names) [] =
      Ok (take (clamp 1 MAX_PAGE limit + 1) (after_cursor lf_path cursor (dir_listing W s dir names)))"
    using assms(2) relative_Ok(1) [OF assms(1)]
    by (subst project_entries_Ok) (auto simp: listable_def list_all_iff listable_listing [OF assms(2)])
  moreover have "bounded_directory_entries W s dir MAX_SEARCH_ENTRIES = Ok names"
    using assms(2) by (simp add: bounded_directory_entries_def listable_def collect_all)
  ultimately show ?thesis
    using assms by (simp add: list_files_def fetch_page_def listable_def)
qed

lemma fetch_page_cursor:
  assumes "fetch_page ident xs c limit = Some pg" and "next_cursor pg = Some d"
  shows "\<exists>x\<in>set xs. d = ident x"
proof -
  have "limit < length (after_cursor ident c xs)" and d: "d = ident (after_cursor ident c xs ! (limit - 1))"
    using assms by (auto simp: fetch_page_def page_def split: if_splits)
  then have "after_cursor ident c xs ! (limit - 1) \<in> set (after_cursor ident c xs)" by simp
  then show ?thesis using d unfolding after_cursor_def by auto
qed

lemma listing_cursor_valid:
  assumes "listable W s dir names" and "x \<in> set (dir_listing W s dir names)"
  shows "validate_cursor (Some (lf_path x)) = Ok ()"
proof -
  obtain n where n: "n \<in> set names" "x = dir_entry W s dir n"
    using assms by (auto simp: listable_listing)
  with assms(1) have d: "describable W s dir n" and len: "length (logical_of (dir @ [n])) \<le> MAX_LOGICAL_PATH_BYTES"
    by (auto simp: listable_def list_all_iff)
  have "lf_path x = logical_of (dir @ [n])" using dir_entry_path [OF d] n by (simp add: logical_of_def)
  moreover have "prefix ''/workspace/'' (logical_of (dir @ [n]))"
    by (cases dir) (simp_all add: logical_of_def LOGICAL_WORKSPACE_def)
  ultimately show ?thesis using len by (simp add: validate_cursor_def starts_with_iff)
qed

lemma list_walk:
  assumes "relative l = Ok dir" and "listable W s dir names"
  shows "walks_to (\<lambda>c. case list_files W s l c limit of Ok p \<Rightarrow> p | Err e \<Rightarrow> None) None
    (dir_listing W s dir names)"
proof -
  define f where "f = (\<lambda>c. fetch_page lf_path (dir_listing W s dir names) c (clamp 1 MAX_PAGE limit))"
  define P where "P = (\<lambda>c. c = None \<or> (\<exists>x\<in>set (dir_listing W s dir names). c = Some (lf_path x)))"
  have "walks_to f None (dir_listing W s dir names)"
    using dirs.walk_complete [OF clamp_page, of W s dir names limit None] by (simp add: f_def after_cursor_def)
  then show ?thesis
  proof (rule walks_to_cong [where P = P])
    show "P None" by (simp add: P_def)
    show "f c = (case list_files W s l c limit of Ok p \<Rightarrow> p | Err e \<Rightarrow> None)" if "P c" for c
    proof -
      have "validate_cursor c = Ok ()"
        using that listing_cursor_valid [OF assms(2)] by (auto simp: P_def validate_cursor_def)
      then show ?thesis by (simp add: list_files_page [OF assms] f_def)
    qed
    show "P (Some d)" if "P c" "f c = Some pg" "next_cursor pg = Some d" for c pg d
      using fetch_page_cursor that(2,3) unfolding f_def P_def by fastforce
  qed
qed

subsection \<open>Searching\<close>

lemma scan_entries_pending:
  "scan_entries W s dir names pending paths pb = Ok (pending', paths', pb') \<Longrightarrow>
     set pending' \<subseteq> set pending \<union> (\<lambda>n. dir @ [n]) ` set names"
  by (induction names arbitrary: pending paths pb)
     (fastforce simp: Let_def result_iffs split: if_splits)+

lemma scan_dirs_bounded:
  "scan_dirs W s pending paths pb = Ok found \<Longrightarrow> pb = (\<Sum>p\<leftarrow>paths. length (path_text p)) \<Longrightarrow>
     pb \<le> MAX_SEARCH_PATH_BYTES \<Longrightarrow> length paths \<le> MAX_SEARCH_ENTRIES \<Longrightarrow>
     \<forall>p\<in>set pending \<union> set paths. prefix base p \<Longrightarrow>
     length found \<le> MAX_SEARCH_ENTRIES \<and> (\<Sum>p\<leftarrow>found. length (path_text p)) \<le> MAX_SEARCH_PATH_BYTES
     \<and> (\<forall>p\<in>set found. prefix base p)"
proof (induction W s pending paths pb rule: scan_dirs.induct)
  case (2 W s dir pending paths pb)
  from "2.prems"(1) obtain u entries q p b where
    guard: "\<not> MAX_SEARCH_ENTRIES \<le> length paths" and
    dir: "map_err map_directory (fs_open_dir W s dir) = Ok u" and
    es: "bounded_directory_entries W s dir (MAX_SEARCH_ENTRIES - length paths) = Ok entries" and
    sc: "scan_entries W s dir (sort entries) pending paths pb = Ok (q, p, b)" and
    rest: "scan_dirs W s q p b = Ok found"
    by (auto simp: and_then_Ok_iff split: if_splits)
  note sum = scan_entries_Ok [OF sc "2.prems"(3)]
  have "length p \<le> MAX_SEARCH_ENTRIES"
    using bounded_directory_entries_length [OF es] sum guard by auto
  moreover have "b = (\<Sum>p\<leftarrow>p. length (path_text p))"
    using sum "2.prems"(2) by (simp add: comp_def)
  moreover have "\<forall>x\<in>set q \<union> set p. prefix base x"
    using scan_entries_pending [OF sc] sum "2.prems"(5) by (auto intro: prefix_prefix)
  ultimately show ?case
    using "2.IH" [OF guard dir es sc] rest sum by simp
qed auto

subsection \<open>Writing\<close>

text \<open>
  What a write relies on: the documented effect of each call on the regular files published in
  the workspace (by their path, where no component of a path is a symbolic link, so that no two
  paths name one file), on the staged ones, and on the directories of the workspace. The calls of
  one write are alone: the guest's own processes, which share the workspace, are not interleaved
  with them. A failing call may leave a staged file with any content and touches no published
  file. Creating the parent directories removes none, adds only directories on the way to the
  parent, also when it fails half-way, and has added all of them when it succeeds.
\<close>

definition staging_laws ::
    "'s workspace_fs \<Rightarrow> ('s \<Rightarrow> path \<Rightarrow> bytes option) \<Rightarrow> ('s \<Rightarrow> string \<Rightarrow> bytes option) \<Rightarrow> bool" where
  "staging_laws W P S \<longleftrightarrow>
     (\<forall>s d r s'. fs_create_dir_all W s d = (r, s') \<longrightarrow> P s' = P s \<and> S s' = S s)
     \<and> (\<forall>s n r s'. st_create_new W s n = (r, s') \<longrightarrow>
           P s' = P s \<and> S s' = (if is_ok r then (S s)(n \<mapsto> []) else S s) \<and> (is_ok r \<longrightarrow> S s n = None))
     \<and> (\<forall>s n b r s'. st_write_all W s n b = (r, s') \<longrightarrow> S s n = Some [] \<longrightarrow>
           P s' = P s \<and> (is_ok r \<longrightarrow> S s' = (S s)(n \<mapsto> b)) \<and> (\<exists>c. S s' = (S s)(n \<mapsto> c)))
     \<and> (\<forall>s n r s'. st_sync_all W s n = (r, s') \<longrightarrow> P s' = P s \<and> S s' = S s)
     \<and> (\<forall>s n m r s'. st_set_permissions W s n m = (r, s') \<longrightarrow> P s' = P s \<and> S s' = S s)
     \<and> (\<forall>s n p b r s'. st_hard_link W s n p = (r, s') \<longrightarrow> S s n = Some b \<longrightarrow>
           P s' = (if is_ok r then (P s)(p \<mapsto> b) else P s) \<and> S s' = S s \<and> (is_ok r \<longrightarrow> P s p = None))
     \<and> (\<forall>s n p b r s'. st_rename W s n p = (r, s') \<longrightarrow> S s n = Some b \<longrightarrow>
           P s' = (if is_ok r then (P s)(p \<mapsto> b) else P s)
           \<and> S s' = (if is_ok r then (S s)(n := None) else S s))
     \<and> (\<forall>s n r s'. st_remove_file W s n = (r, s') \<longrightarrow>
           P s' = P s \<and> S s' = (if is_ok r then (S s)(n := None) else S s))"

definition directory_laws :: "'s workspace_fs \<Rightarrow> ('s \<Rightarrow> path set) \<Rightarrow> bool" where
  "directory_laws W D \<longleftrightarrow>
     (\<forall>s d r s'. fs_create_dir_all W s d = (r, s') \<longrightarrow>
        D s \<subseteq> D s' \<and> D s' \<subseteq> D s \<union> {q. prefix q d} \<and> (is_ok r \<longrightarrow> {q. prefix q d} \<subseteq> D s'))
     \<and> (\<forall>s n. D (snd (st_create_new W s n)) = D s)
     \<and> (\<forall>s n b. D (snd (st_write_all W s n b)) = D s)
     \<and> (\<forall>s n. D (snd (st_sync_all W s n)) = D s)
     \<and> (\<forall>s n m. D (snd (st_set_permissions W s n m)) = D s)
     \<and> (\<forall>s n p. D (snd (st_hard_link W s n p)) = D s)
     \<and> (\<forall>s n p. D (snd (st_rename W s n p)) = D s)
     \<and> (\<forall>s n. D (snd (st_remove_file W s n)) = D s)"

lemma bind_io_simps [simp]:
  "bind_io (Err e, s) f = (Err e, s)" "bind_io (Ok x, s) f = f x s"
  by (simp_all add: bind_io_def)

lemma io_step_simps [simp]:
  "io_step g (Err e, s) = (Err (g e), s)" "io_step g (Ok x, s) = (Ok x, s)"
  by (simp_all add: io_step_def)

lemmas laws_conj = iffD1 [OF staging_laws_def]
lemmas staging_lawsD =
  laws_conj [THEN conjunct1, rule_format]
  laws_conj [THEN conjunct2, THEN conjunct1, rule_format]
  laws_conj [THEN conjunct2, THEN conjunct2, THEN conjunct1, rule_format]
  laws_conj [THEN conjunct2, THEN conjunct2, THEN conjunct2, THEN conjunct1, rule_format]
  laws_conj [THEN conjunct2, THEN conjunct2, THEN conjunct2, THEN conjunct2, THEN conjunct1, rule_format]
  laws_conj [THEN conjunct2, THEN conjunct2, THEN conjunct2, THEN conjunct2, THEN conjunct2, THEN conjunct1, rule_format]
  laws_conj [THEN conjunct2, THEN conjunct2, THEN conjunct2, THEN conjunct2, THEN conjunct2, THEN conjunct2, THEN conjunct1, rule_format]
  laws_conj [THEN conjunct2, THEN conjunct2, THEN conjunct2, THEN conjunct2, THEN conjunct2, THEN conjunct2, THEN conjunct2, rule_format]

text \<open>The outcome of a write of \<open>b\<close> at \<open>p\<close>: published whole, or not at all.\<close>

definition all_or_nothing ::
    "('s \<Rightarrow> path \<Rightarrow> bytes option) \<Rightarrow> path \<Rightarrow> bytes \<Rightarrow> bool \<Rightarrow> 's \<Rightarrow> (live_file_error, 'a) result \<Rightarrow> 's \<Rightarrow> bool" where
  "all_or_nothing published p b overwrite s r s' \<longleftrightarrow>
     (published s' = published s \<or>
        (overwrite \<or> published s p = None) \<and> published s' = (published s)(p \<mapsto> b))
     \<and> (is_ok r \<longrightarrow> published s' = (published s)(p \<mapsto> b))
     \<and> (r = Err AlreadyExists \<longrightarrow> published s' = published s)"

lemma publish_outcome:
  assumes "staging_laws W P S" and "S s n = Some b" and "publish W n p ow s = (r, s')"
  shows "all_or_nothing P p b ow s r s'" "is_ok r \<Longrightarrow> S s' = (S s)(n := None)"
proof -
  note D = staging_lawsD [OF assms(1)]
  have "all_or_nothing P p b ow s r s' \<and> (is_ok r \<longrightarrow> S s' = (S s)(n := None))"
  proof (cases ow)
    case True
    obtain r1 s1 where "st_rename W s n p = (r1, s1)" by fastforce
    with D(7) [OF this assms(2)] assms(3) True show ?thesis
      by (cases r1) (auto simp: publish_def all_or_nothing_def io_error_def)
  next
    case False
    obtain r1 s1 where l: "st_hard_link W s n p = (r1, s1)" by fastforce
    obtain r2 s2 where m: "st_remove_file W s1 n = (r2, s2)" by fastforce
    show ?thesis
      using D(6) [OF l assms(2)] D(8) [OF m] assms(3) False l m
      by (cases r1; cases r2) (auto simp: publish_def all_or_nothing_def io_error_def)
  qed
  then show "all_or_nothing P p b ow s r s'" "is_ok r \<Longrightarrow> S s' = (S s)(n := None)" by blast+
qed

lemma seal_outcome:
  assumes "staging_laws W P S" and "S s n = Some b" and "seal W n p ow s = (r, s')"
  shows "all_or_nothing P p b ow s r s'" "is_ok r \<Longrightarrow> S s' = (S s)(n := None)"
proof -
  note D = staging_lawsD [OF assms(1)]
  obtain r1 s1 where y: "st_sync_all W s n = (r1, s1)" by fastforce
  obtain r2 s2 where c: "st_set_permissions W s1 n 432 = (r2, s2)" by fastforce
  have k: "P s2 = P s" "S s2 = S s" "P s1 = P s" using D(4) [OF y] D(5) [OF c] by auto
  have "all_or_nothing P p b ow s r s' \<and> (is_ok r \<longrightarrow> S s' = (S s)(n := None))"
  proof (cases "is_ok r1 \<and> is_ok r2")
    case True
    then have "publish W n p ow s2 = (r, s')" using assms(3) y c by (auto simp: seal_def is_ok_iff)
    with publish_outcome [OF assms(1) _ this, of b] assms(2) k show ?thesis
      by (simp add: all_or_nothing_def)
  next
    case False
    then show ?thesis using assms(3) y c k
      by (cases r1; cases r2) (auto simp: seal_def all_or_nothing_def io_error_def)
  qed
  then show "all_or_nothing P p b ow s r s'" "is_ok r \<Longrightarrow> S s' = (S s)(n := None)" by blast+
qed

lemma stage_bytes_outcome:
  assumes "staging_laws W P S" and "stage_bytes W n p b ow s = (r, s')"
  shows "all_or_nothing P p b ow s r s'" "is_ok r \<Longrightarrow> S s' = S s"
proof -
  note D = staging_lawsD [OF assms(1)]
  obtain r1 s1 where c: "st_create_new W s n = (r1, s1)" by fastforce
  obtain r2 s2 where w: "st_write_all W s1 n b = (r2, s2)" by fastforce
  have "all_or_nothing P p b ow s r s' \<and> (is_ok r \<longrightarrow> S s' = S s)"
  proof (cases "is_ok r1 \<and> is_ok r2")
    case True
    then have e: "seal W n p ow s2 = (r, s')" using assms(2) c w by (auto simp: stage_bytes_def is_ok_iff)
    have k: "S s n = None" "P s2 = P s" "S s2 = (S s)(n \<mapsto> b)"
      using D(2) [OF c] D(3) [OF w] True by auto
    have "S s2 n = Some b" by (simp add: k)
    note seal_outcome [OF assms(1) this e]
    then show ?thesis using k by (auto simp: all_or_nothing_def fun_upd_idem)
  next
    case False
    then show ?thesis using assms(2) c w D(2) [OF c] D(3) [OF w]
      by (cases r1; cases r2) (auto simp: stage_bytes_def all_or_nothing_def io_error_def)
  qed
  then show "all_or_nothing P p b ow s r s'" "is_ok r \<Longrightarrow> S s' = S s" by blast+
qed

definition source_bytes :: "(io_failure, bytes) result \<Rightarrow> bytes" where
  "source_bytes source = (case source of Ok c \<Rightarrow> c | Err _ \<Rightarrow> [])"

lemma stage_file_outcome:
  assumes "staging_laws W P S" and "stage_file W n p source m ow s = (r, s')" and "m < U64_MAX"
  shows "all_or_nothing P p (source_bytes source) ow s r s'"
    "is_ok r \<Longrightarrow> S s' = S s \<and> source = Ok (source_bytes source) \<and> length (source_bytes source) = m"
proof -
  note D = staging_lawsD [OF assms(1)]
  have "all_or_nothing P p (source_bytes source) ow s r s'
      \<and> (is_ok r \<longrightarrow> S s' = S s \<and> source = Ok (source_bytes source) \<and> length (source_bytes source) = m)"
  proof (cases source)
    case (Inl e)
    then show ?thesis using assms(2) by (auto simp: stage_file_def all_or_nothing_def io_error_def)
  next
    case (Inr content)
    define b where "b = take (saturating_add m 1) content"
    obtain r1 s1 where c: "st_create_new W s n = (r1, s1)" by fastforce
    obtain r2 s2 where w: "st_write_all W s1 n b = (r2, s2)" by fastforce
    have step: "bind_io (io_step io_error (st_create_new W s n)) (\<lambda>_ s.
        bind_io (io_step io_error (st_write_all W s n b)) (\<lambda>_ s.
          if length b \<noteq> m then (Err SourceChanged, s) else seal W n p ow s)) = (r, s')"
      using assms(2) Inr by (simp add: stage_file_def Let_def b_def)
    show ?thesis
    proof (cases "is_ok r1 \<and> is_ok r2 \<and> length b = m")
      case True
      then have e: "seal W n p ow s2 = (r, s')" using step c w by (auto simp: is_ok_iff)
      have k: "S s n = None" "P s2 = P s" "S s2 = (S s)(n \<mapsto> b)"
        using D(2) [OF c] D(3) [OF w] True by auto
      have "S s2 n = Some b" by (simp add: k)
      note seal_outcome [OF assms(1) this e]
      moreover have "b = content"
        using True assms(3) by (auto simp: b_def saturating_add_def min_def split: if_splits)
      ultimately show ?thesis using k True Inr
        by (auto simp: all_or_nothing_def fun_upd_idem source_bytes_def)
    next
      case False
      then have "\<not> is_ok r \<and> r \<noteq> Err AlreadyExists \<and> P s' = P s"
        using step c w D(2) [OF c] D(3) [OF w]
        by (cases r1; cases r2) (auto simp: io_error_def split: if_splits)
      then show ?thesis by (auto simp: all_or_nothing_def)
    qed
  qed
  then show "all_or_nothing P p (source_bytes source) ow s r s'"
    "is_ok r \<Longrightarrow> S s' = S s \<and> source = Ok (source_bytes source) \<and> length (source_bytes source) = m" by blast+
qed

lemma cleanup_outcome:
  assumes "staging_laws W P S" and "cleanup W n (r, s) = (r', s')"
  shows "r' = r" "P s' = P s" "is_ok r \<Longrightarrow> s' = s"
proof -
  obtain r1 s1 where m: "st_remove_file W s n = (r1, s1)" by fastforce
  have "r' = r \<and> P s' = P s \<and> (is_ok r \<longrightarrow> s' = s)"
    using assms(2) m staging_lawsD(8) [OF assms(1) m] by (cases r) (auto simp: cleanup_def)
  then show "r' = r" "P s' = P s" "is_ok r \<Longrightarrow> s' = s" by blast+
qed

lemma entry_errors: "entry_without_hash W s p l \<noteq> Err AlreadyExists"
  by (auto simp: entry_without_hash_def and_then_def map_err_def map_not_found_def io_error_def
           split: sum.splits live_file_kind.splits)

lemma describe_outcome: "describe W p l sha s = (r, s') \<Longrightarrow> s' = s \<and> r \<noteq> Err AlreadyExists"
  using entry_errors [of W s p l] by (auto simp: describe_def and_then_Err_iff)

text \<open>Staging, publishing and cleaning up make and remove no directory; only the first call does.\<close>

definition keeps :: "('s \<Rightarrow> 'd) \<Rightarrow> ('s \<Rightarrow> ('e, 'a) result \<times> 's) \<Rightarrow> bool" where
  "keeps D f \<longleftrightarrow> (\<forall>s. D (snd (f s)) = D s)"

lemma keeps_bind: "keeps D f \<Longrightarrow> (\<And>x. keeps D (g x)) \<Longrightarrow> keeps D (\<lambda>s. bind_io (io_step h (f s)) g)"
  by (auto simp: keeps_def bind_io_def io_step_def map_err_def split: prod.splits sum.splits)

lemma keeps_step: "keeps D f \<Longrightarrow> keeps D (\<lambda>s. io_step h (f s))"
  by (simp add: keeps_def io_step_def)

lemmas directory_lawsD = iffD1 [OF directory_laws_def, THEN conjunct1, rule_format]

lemma directory_keeps:
  assumes "directory_laws W D"
  shows "keeps D (\<lambda>s. st_create_new W s n)" "keeps D (\<lambda>s. st_write_all W s n b)"
    "keeps D (\<lambda>s. st_sync_all W s n)" "keeps D (\<lambda>s. st_set_permissions W s n m)"
    "keeps D (\<lambda>s. st_hard_link W s n p)" "keeps D (\<lambda>s. st_rename W s n p)"
    "keeps D (\<lambda>s. st_remove_file W s n)"
  using assms by (simp_all add: directory_laws_def keeps_def)

lemma stage_keeps:
  assumes "directory_laws W D"
  shows "keeps D (stage_bytes W n p b ow)"
proof -
  note K = directory_keeps [OF assms]
  have "keeps D (publish W n p ow)"
    by (cases ow) (simp_all add: publish_def [abs_def] K keeps_bind keeps_step)
  then have "keeps D (seal W n p ow)"
    by (simp add: seal_def [abs_def] K keeps_bind)
  then show ?thesis
    by (simp add: stage_bytes_def [abs_def] K keeps_bind)
qed

lemma cleanup_keeps:
  assumes "directory_laws W D"
  shows "D (snd (cleanup W n r)) = D (snd r)"
  using directory_keeps(7) [OF assms]
  by (auto simp: keeps_def cleanup_def split: prod.splits sum.splits)

lemma write_file_directories:
  assumes "directory_laws W D" and "relative l = Ok p" and "write_file W stamp s l b ow = (r, s')"
  shows "D s \<subseteq> D s' \<and> D s' \<subseteq> D s \<union> {q. prefix q (butlast p)} \<and> (is_ok r \<longrightarrow> {q. prefix q (butlast p)} \<subseteq> D s')"
proof (cases "length b > MAX_LIVE_FILE_BYTES \<or> p = []")
  case True
  then show ?thesis using assms(2,3) by (auto simp: write_file_def split: if_splits)
next
  case False
  let ?n = "temporary_path p (fst stamp) (snd stamp)"
  obtain r1 s1 where c: "fs_create_dir_all W s (butlast p) = (r1, s1)" by fastforce
  have l: "D s \<subseteq> D s1" "D s1 \<subseteq> D s \<union> {q. prefix q (butlast p)}"
      "is_ok r1 \<Longrightarrow> {q. prefix q (butlast p)} \<subseteq> D s1"
    using directory_lawsD [OF assms(1) c] by simp_all
  obtain r2 s2 where u: "cleanup W ?n (stage_bytes W ?n p b ow s1) = (r2, s2)" by fastforce
  have "D s2 = D s1"
    using cleanup_keeps [OF assms(1), of ?n "stage_bytes W ?n p b ow s1"] u
      stage_keeps [OF assms(1), of ?n p b ow] by (simp add: keeps_def)
  moreover have "bind_io (io_step io_error (r1, s1)) (\<lambda>_ s.
      bind_io (cleanup W ?n (stage_bytes W ?n p b ow s)) (\<lambda>_ s. describe W p l (fs_sha256 W b) s)) = (r, s')"
    using assms(2,3) False c by (simp add: write_file_def Let_def)
  then have "(is_ok r \<longrightarrow> is_ok r1) \<and> (s' = s1 \<or> s' = s2)"
    using u by (cases r1; cases r2) (auto simp: describe_def)
  ultimately have "D s' = D s1" "is_ok r \<Longrightarrow> is_ok r1" by auto
  then show ?thesis using l by simp
qed

lemma write_outcome:
  assumes "staging_laws W P S" and "relative l = Ok p" and "p \<noteq> []"
    and "\<And>s r s'. stage s = (r, s') \<Longrightarrow> all_or_nothing P p b ow s r s' \<and> (is_ok r \<longrightarrow> S s' = S s)"
    and "bind_io (io_step io_error (fs_create_dir_all W s d)) (\<lambda>_ s.
           bind_io (cleanup W n (stage s)) (\<lambda>_ s. describe W p l sha s)) = (r, s')"
  shows "all_or_nothing P p b ow s r s'" "is_ok r \<Longrightarrow> S s' = S s"
proof -
  obtain r1 s1 where c: "fs_create_dir_all W s d = (r1, s1)" by fastforce
  obtain r2 s2 where t: "stage s1 = (r2, s2)" by fastforce
  obtain r3 s3 where u: "cleanup W n (r2, s2) = (r3, s3)" by fastforce
  note k = staging_lawsD(1) [OF assms(1) c] and a = assms(4) [OF t] and v = cleanup_outcome [OF assms(1) u]
  have "all_or_nothing P p b ow s r s' \<and> (is_ok r \<longrightarrow> S s' = S s)"
  proof (cases "is_ok r1 \<and> is_ok r3")
    case True
    then have "describe W p l sha s3 = (r, s')" using assms(5) c t u by (auto simp: is_ok_iff)
    from describe_outcome [OF this] True k a v show ?thesis
      by (auto simp: all_or_nothing_def)
  next
    case False
    then show ?thesis using assms(5) c t u k a v
      by (cases r1; cases r3) (auto simp: all_or_nothing_def io_error_def)
  qed
  then show "all_or_nothing P p b ow s r s'" "is_ok r \<Longrightarrow> S s' = S s" by blast+
qed

lemma write_file_outcome:
  assumes "staging_laws W P S" and "relative l = Ok p" and "write_file W stamp s l b ow = (r, s')"
  shows "all_or_nothing P p b ow s r s' \<and> (is_ok r \<longrightarrow> S s' = S s)"
proof (cases "length b > MAX_LIVE_FILE_BYTES \<or> p = []")
  case True
  then show ?thesis using assms(2,3) by (auto simp: write_file_def all_or_nothing_def split: if_splits)
next
  case False
  let ?n = "temporary_path p (fst stamp) (snd stamp)"
  have "bind_io (io_step io_error (fs_create_dir_all W s (butlast p))) (\<lambda>_ s.
      bind_io (cleanup W ?n (stage_bytes W ?n p b ow s)) (\<lambda>_ s. describe W p l (fs_sha256 W b) s)) = (r, s')"
    using False assms(2,3) by (simp add: write_file_def Let_def)
  with write_outcome [OF assms(1,2), of "stage_bytes W ?n p b ow" b ow s "butlast p" ?n "fs_sha256 W b" r s']
    stage_bytes_outcome [OF assms(1)] False show ?thesis by blast
qed

lemma write_from_file_outcome:
  assumes "staging_laws W P S" and "relative l = Ok p"
    and "write_from_file W stamp s l source m sha ow = (r, s')"
  shows "all_or_nothing P p (source_bytes source) ow s r s' \<and> (is_ok r \<longrightarrow> S s' = S s)"
proof (cases "m > MAX_OBJECT_BYTES \<or> p = []")
  case True
  then show ?thesis using assms(2,3) by (auto simp: write_from_file_def all_or_nothing_def split: if_splits)
next
  case False
  let ?n = "temporary_path p (fst stamp) (snd stamp)"
  have m: "m < U64_MAX" using False by (simp add: MAX_OBJECT_BYTES_def U64_MAX_def)
  have "bind_io (io_step io_error (fs_create_dir_all W s (butlast p))) (\<lambda>_ s.
      bind_io (cleanup W ?n (stage_file W ?n p source m ow s)) (\<lambda>_ s. describe W p l sha s)) = (r, s')"
    using False assms(2,3) by (simp add: write_from_file_def Let_def)
  with write_outcome [OF assms(1,2), of "stage_file W ?n p source m ow" "source_bytes source" ow s "butlast p" ?n sha r s']
    stage_file_outcome [OF assms(1) _ m] False show ?thesis by blast
qed

section \<open>Properties\<close>

text \<open>
  C29. A logical path is accepted exactly when it is \<open>/workspace\<close> followed by plain components,
  within 4096 bytes, none of them empty, a dot, a double dot or holding a separator or NUL; the
  relative path is those components, so no accepted path leads out of the workspace and every
  one of them names its own path again. The one alias is \<open>/workspace/\<close>.
\<close>

theorem relative_accepts_plain_paths:
  "relative l = Ok p \<longleftrightarrow>
     list_all plain_segment p \<and> length l \<le> 4096 \<and> (l = logical_of p \<or> l = ''/workspace/'' \<and> p = [])"
proof
  assume "relative l = Ok p"
  from relative_Ok [OF this] show
    "list_all plain_segment p \<and> length l \<le> 4096 \<and> (l = logical_of p \<or> l = ''/workspace/'' \<and> p = [])"
    by blast
next
  assume r: "list_all plain_segment p \<and> length l \<le> 4096 \<and> (l = logical_of p \<or> l = ''/workspace/'' \<and> p = [])"
  have "relative ''/workspace/'' = Ok []"
    by (simp add: relative_def LOGICAL_WORKSPACE_def)
  with r relative_logical_of [of p] show "relative l = Ok p" by blast
qed

text \<open>
  C18. A write is all or nothing for the files of the workspace: whatever fails on the way, every
  file is afterwards as it was, or the whole new content is at the written path and every other
  file is as it was. A reported success means the content is there and nothing is left in staging;
  without \<open>overwrite\<close> an existing file is never replaced, and its refusal changes no file. No
  directory disappears; directories on the way to the written path are created, and some of them
  may stay behind when the write fails, but no other directory appears. No path has a symbolic
  link on the way and nothing else changes the workspace during the write.
\<close>

theorem write_all_or_nothing:
  assumes "staging_laws W published staged" and "directory_laws W directories"
    and "relative l = Ok p" and "write_file W stamp s l b overwrite = (r, s')"
  shows "(published s' = published s \<or>
            (overwrite \<or> published s p = None) \<and> published s' = (published s)(p \<mapsto> b))
    \<and> (is_ok r \<longrightarrow> published s' = (published s)(p \<mapsto> b) \<and> staged s' = staged s
          \<and> directories s' = directories s \<union> {q. prefix q (butlast p)})
    \<and> (r = Err AlreadyExists \<longrightarrow> published s' = published s)
    \<and> directories s \<subseteq> directories s' \<and> directories s' \<subseteq> directories s \<union> {q. prefix q (butlast p)}"
proof -
  have "is_ok r \<Longrightarrow> directories s' = directories s \<union> {q. prefix q (butlast p)}"
    using write_file_directories [OF assms(2,3,4)] by (intro equalityI Un_least) simp_all
  then show ?thesis
    using write_file_outcome [OF assms(1,3,4)] write_file_directories [OF assms(2,3,4)]
    by (simp add: all_or_nothing_def)
qed

text \<open>
  A client that follows the cursors of a directory listing terminates and sees every entry of
  the directory once, in the order of the names, as long as the directory does not change, its
  names are plain and every entry can be described.
\<close>

theorem list_files_walk_complete:
  assumes "relative l = Ok dir" and "listable W s dir names"
  shows "\<exists>entries. walks_to (\<lambda>c. case list_files W s l c limit of Ok p \<Rightarrow> p | Err e \<Rightarrow> None) None entries
    \<and> map lf_path entries = map (\<lambda>n. logical_of (dir @ [n])) (sort names)"
proof -
  have "map lf_path (dir_listing W s dir names) = map (\<lambda>n. logical_of (dir @ [n])) (sort names)"
    using assms(2) by (auto simp: listable_listing listable_def list_all_iff dir_entry_path logical_of_def)
  with list_walk [OF assms] show ?thesis by blast
qed

text \<open>
  The walk of a search is bounded whatever the tree looks like: it always ends, and with a
  result only if it found at most 100,000 paths of at most 16 MiB together, all below the
  directory searched.
\<close>

theorem search_scan_bounded:
  assumes "scan_dirs W s [base] [] 0 = Ok found"
  shows "length found \<le> 100000 \<and> (\<Sum>p\<leftarrow>found. length (path_text p)) \<le> 16777216
    \<and> (\<forall>p\<in>set found. prefix base p)"
  using scan_dirs_bounded [OF assms, of base]
  by (simp add: MAX_SEARCH_ENTRIES_def MAX_SEARCH_PATH_BYTES_def)

subsection \<open>A sample workspace\<close>

text \<open>
  Two files, \<open>a.txt\<close> and \<open>a/b\<close>, in a directory tree; what is written is kept apart: the published
  files, the staged ones and the directories made.
\<close>

record map_fs =
  mf_published :: "path \<rightharpoonup> bytes"
  mf_staged :: "string \<rightharpoonup> bytes"
  mf_directories :: "path set"

definition empty_fs :: map_fs where
  "empty_fs = \<lparr>mf_published = Map.empty, mf_staged = Map.empty, mf_directories = {[]}\<rparr>"

definition file_meta :: "nat \<Rightarrow> file_metadata" where
  "file_meta n = \<lparr>md_is_symlink = False, md_is_dir = False, md_is_file = True, md_len = n, md_modified_ms = None\<rparr>"

definition dir_meta :: file_metadata where
  "dir_meta = \<lparr>md_is_symlink = False, md_is_dir = True, md_is_file = False, md_len = 0, md_modified_ms = None\<rparr>"

definition failure :: "io_kind \<Rightarrow> io_failure" where
  "failure k = \<lparr>io_kind = k, io_text = ''io''\<rparr>"

definition sample_fs :: "map_fs workspace_fs" where
  "sample_fs = \<lparr>
     fs_open_dir = (\<lambda>_ p. if p \<in> {[], [''a'']} then Ok () else Err (failure KNotADirectory)),
     fs_entries = (\<lambda>_ p. Ok (if p = [] then [Ok ''a.txt'', Ok ''a''] else [Ok ''b''])),
     fs_symlink_metadata = (\<lambda>_ p. if p \<in> {[], [''a'']} then Ok dir_meta else Ok (file_meta 2)),
     fs_read_link = (\<lambda>_ _. Err (failure KOther)),
     fs_open = (\<lambda>_ _. Err (failure KNotFound)),
     fs_create_dir_all = (\<lambda>s d. (Ok (), s\<lparr>mf_directories := mf_directories s \<union> {q. prefix q d}\<rparr>)),
     st_create_new = (\<lambda>s n. if mf_staged s n = None then (Ok (), s\<lparr>mf_staged := (mf_staged s)(n \<mapsto> [])\<rparr>)
                            else (Err (failure KAlreadyExists), s)),
     st_write_all = (\<lambda>s n b. (Ok (), s\<lparr>mf_staged := (mf_staged s)(n \<mapsto> b)\<rparr>)),
     st_sync_all = (\<lambda>s _. (Ok (), s)),
     st_set_permissions = (\<lambda>s _ _. (Ok (), s)),
     st_hard_link = (\<lambda>s n p. if mf_published s p = None
                             then (Ok (), s\<lparr>mf_published := (mf_published s)(p := mf_staged s n)\<rparr>)
                             else (Err (failure KAlreadyExists), s)),
     st_rename = (\<lambda>s n p. (Ok (), s\<lparr>mf_published := (mf_published s)(p := mf_staged s n),
                                     mf_staged := (mf_staged s)(n := None)\<rparr>)),
     st_remove_file = (\<lambda>s n. (Ok (), s\<lparr>mf_staged := (mf_staged s)(n := None)\<rparr>)),
     fs_sha256 = (\<lambda>_. digest_a), fs_to_string_lossy = (\<lambda>t. t)\<rparr>"

lemma sample_fs_simps [simp]:
  "fs_open_dir sample_fs s p = (if p \<in> {[], [''a'']} then Ok () else Err (failure KNotADirectory))"
  "fs_entries sample_fs s p = Ok (if p = [] then [Ok ''a.txt'', Ok ''a''] else [Ok ''b''])"
  "fs_symlink_metadata sample_fs s p = (if p \<in> {[], [''a'']} then Ok dir_meta else Ok (file_meta 2))"
  "fs_to_string_lossy sample_fs t = t"
  by (simp_all add: sample_fs_def)

lemma sample_fs_laws:
  "staging_laws sample_fs mf_published mf_staged" "directory_laws sample_fs mf_directories"
  by (auto simp: staging_laws_def directory_laws_def sample_fs_def)

lemma sample_relative: "relative ''/workspace/d/c'' = Ok [''d'', ''c'']"
  by (simp add: relative_def LOGICAL_WORKSPACE_def normal_component_def)

lemma sample_publishes:
  "\<exists>entry s'. write_file sample_fs (1, 2) empty_fs ''/workspace/d/c'' ''hi'' False = (Ok entry, s')"
  by (simp add: write_file_def sample_relative MAX_LIVE_FILE_BYTES_def Let_def cleanup_def
      stage_bytes_def seal_def publish_def)
    (simp add: sample_fs_def empty_fs_def file_meta_def describe_def entry_without_hash_def)

theorem write_all_or_nothing_witness:
  "\<exists>entry s'. write_file sample_fs (1, 2) empty_fs ''/workspace/d/c'' ''hi'' False = (Ok entry, s')
     \<and> mf_published s' = [[''d'', ''c''] \<mapsto> ''hi''] \<and> mf_staged s' = Map.empty
     \<and> mf_directories s' = {[], [''d'']}"
proof -
  obtain entry s' where w: "write_file sample_fs (1, 2) empty_fs ''/workspace/d/c'' ''hi'' False = (Ok entry, s')"
    using sample_publishes by blast
  have "{q. prefix q (butlast [''d'', ''c''])} = {[], [''d'']}"
    by (auto simp: prefix_Cons)
  with write_all_or_nothing [OF sample_fs_laws sample_relative w] w show ?thesis
    by (auto simp: empty_fs_def)
qed

lemma sample_root: "relative ''/workspace'' = Ok []"
  by (simp add: relative_def LOGICAL_WORKSPACE_def)

lemma sample_listable: "listable sample_fs s [] [''a.txt'', ''a'']"
  by (simp add: listable_def describable_def entry_without_hash_def file_meta_def dir_meta_def
      plain_segment_def lossless_def logical_of_def LOGICAL_WORKSPACE_def MAX_SEARCH_ENTRIES_def
      MAX_LOGICAL_PATH_BYTES_def)

theorem list_files_walk_complete_witness:
  "\<exists>entries. walks_to (\<lambda>c. case list_files sample_fs empty_fs ''/workspace'' c 1 of Ok p \<Rightarrow> p | Err e \<Rightarrow> None) None entries
     \<and> length entries = 2"
proof -
  from list_files_walk_complete [OF sample_root sample_listable, of empty_fs 1] obtain entries where
    w: "walks_to (\<lambda>c. case list_files sample_fs empty_fs ''/workspace'' c 1 of Ok p \<Rightarrow> p | Err e \<Rightarrow> None) None entries"
    and m: "map lf_path entries = map (\<lambda>n. logical_of ([] @ [n])) (sort [''a.txt'', ''a''])"
    by (elim exE conjE)
  from m have "length (map lf_path entries) = length (map (\<lambda>n. logical_of ([] @ [n])) (sort [''a.txt'', ''a'']))"
    by (rule arg_cong)
  then have "length entries = 2" by (simp only: length_map length_sort) simp
  with w show ?thesis by blast
qed

lemma sample_project:
  "project_logical_path sample_fs [''a''] = ''/workspace/a''"
  "project_logical_path sample_fs [''a.txt''] = ''/workspace/a.txt''"
  "project_logical_path sample_fs [''a'', ''b''] = ''/workspace/a/b''"
  by (simp_all add: project_logical_path_def path_text_def LOGICAL_WORKSPACE_def)

lemma sample_scan: "scan_dirs sample_fs s [[]] [] 0 = Ok [[''a''], [''a.txt''], [''a'', ''b'']]"
  by (simp add: bounded_directory_entries_def MAX_SEARCH_ENTRIES_def MAX_SEARCH_PATH_BYTES_def
      path_text_def dir_meta_def file_meta_def checked_add_def U64_MAX_def Let_def)

theorem search_scan_bounded_witness:
  "length [[''a''], [''a.txt''], [''a'', ''b'']] \<le> 100000"
  using search_scan_bounded [OF sample_scan] by blast

lemma sample_paths: "sort [[''a''], [''a.txt''], [''a'', ''b'']] = [[''a''], [''a'', ''b''], [''a.txt'']]"
  by (simp add: less_char_def)

text \<open>
  The pages of a search do not add up to the search: the paths are sorted component by
  component, the cursor compares whole strings, and \<open>a.txt\<close>, which sorts after \<open>a/b\<close> as a path
  and before it as a string, is on no page of a client that follows the cursors two at a time,
  though a page of ten shows it.
\<close>

theorem find_pages_lose_entries:
  "map_option (\<lambda>pg. (map lf_path (page_items pg), next_cursor pg))
     (projr (find_files sample_fs (\<lambda>_. Ok (\<lambda>_. True)) s ''/workspace'' ''**'' None 2)) =
     Some ([''/workspace/a'', ''/workspace/a/b''], Some ''/workspace/a/b'')
   \<and> map_option (\<lambda>pg. (map lf_path (page_items pg), next_cursor pg))
     (projr (find_files sample_fs (\<lambda>_. Ok (\<lambda>_. True)) s ''/workspace'' ''**'' (Some ''/workspace/a/b'') 2)) =
     Some ([], None)
   \<and> map_option (\<lambda>pg. (map lf_path (page_items pg), next_cursor pg))
     (projr (find_files sample_fs (\<lambda>_. Ok (\<lambda>_. True)) s ''/workspace'' ''**'' None 10)) =
     Some ([''/workspace/a'', ''/workspace/a/b'', ''/workspace/a.txt''], None)"
  by (simp add: find_files_def search_def sample_root sample_scan sample_paths clamp_def MAX_PAGE_def
      validate_cursor_def LOGICAL_WORKSPACE_def MAX_LOGICAL_PATH_BYTES_def starts_with_iff page_def sample_project
      at_or_before_def entry_without_hash_def dir_meta_def file_meta_def Let_def
      del: scan_dirs.simps sort_key_simps)

end
