(* ===== verification/Append_Log.thy ===== *)
theory Append_Log
  imports Rust_Strings
begin

section \<open>Append-only line logs\<close>

text \<open>
  What the two durable stores of the guest (\<open>acks.rs\<close>, \<open>file_effects.rs\<close>) share: a file of
  newline-terminated records, written at a known offset, synced, and cut back to its last complete
  line when it is opened. The outcome of every file call is an argument (\<open>log_io\<close>). A writer also
  carries, for the statements only, how many of its bytes are known to survive a loss of power.
\<close>

abbreviation newline :: char where "newline \<equiv> CHR 0x0A"

subsection \<open>Writers\<close>

text \<open>A failed \<open>write_all\<close> has written some of the bytes; the truncation after it may fail too.\<close>

datatype write_io = WriteOk | WriteFailed nat bool

record log_io =
  io_sync_before :: bool
  io_seek :: bool
  io_write :: write_io
  io_sync_after :: bool

record log_writer =
  lw_content :: bytes
  lw_bytes :: nat
  lw_dirty :: bool
  lw_max :: nat
  lw_durable :: nat

definition overwrite_at :: "nat \<Rightarrow> bytes \<Rightarrow> bytes \<Rightarrow> bytes" where
  "overwrite_at start b content = take start content @ b @ drop (start + length b) content"

definition log_write :: "log_io \<Rightarrow> bytes \<Rightarrow> nat \<Rightarrow> log_writer \<Rightarrow> bool \<times> log_writer" where
  "log_write io encoded next_bytes w =
     (if \<not> io_seek io then (False, w)
      else (case io_write io of
              WriteOk \<Rightarrow>
                (True, w\<lparr>lw_content := overwrite_at (lw_bytes w) encoded (lw_content w),
                         lw_bytes := next_bytes, lw_dirty := True\<rparr>)
            | WriteFailed k truncated \<Rightarrow>
                (let c = overwrite_at (lw_bytes w) (take k encoded) (lw_content w) in
                 (False, w\<lparr>lw_content := if truncated then take (lw_bytes w) c else c\<rparr>))))"

definition log_sync :: "bool \<Rightarrow> log_writer \<Rightarrow> bool \<times> log_writer" where
  "log_sync ok w =
     (if ok then (True, w\<lparr>lw_dirty := False, lw_durable := lw_bytes w\<rparr>) else (False, w))"

definition sync_if_dirty :: "log_io \<Rightarrow> log_writer \<Rightarrow> bool \<times> log_writer" where
  "sync_if_dirty io w = (if lw_dirty w then log_sync (io_sync_before io) w else (True, w))"

subsection \<open>Reading back\<close>

text \<open>The length of the part of the file that ends with a newline.\<close>

definition valid_len :: "bytes \<Rightarrow> nat" where
  "valid_len b =
     (if b \<noteq> [] \<and> last b = newline then length b
      else length b - length (takeWhile (\<lambda>c. c \<noteq> newline) (rev b)))"

definition log_lines :: "bytes \<Rightarrow> bytes list" where
  "log_lines b = filter (\<lambda>l. l \<noteq> []) (split_on newline b)"

subsection \<open>Lemmas\<close>

text \<open>A file that ends with a complete line, and one line of it.\<close>

definition complete :: "bytes \<Rightarrow> bool" where
  "complete b \<longleftrightarrow> b = [] \<or> last b = newline"

definition line_ok :: "bytes \<Rightarrow> bool" where
  "line_ok l \<longleftrightarrow> l \<noteq> [] \<and> newline \<notin> set l"

lemma complete_simps [simp]: "complete []" "complete (b @ [newline])"
  by (simp_all add: complete_def)

lemma complete_append: "complete a \<Longrightarrow> complete b \<Longrightarrow> complete (a @ b)"
  by (cases "b = []") (auto simp: complete_def)

lemma no_newline_last: "newline \<notin> set t \<Longrightarrow> t \<noteq> [] \<Longrightarrow> last t \<noteq> newline"
  by (metis last_in_set)

lemma takeWhile_tail:
  "newline \<notin> set t \<Longrightarrow> takeWhile (\<lambda>c. c \<noteq> newline) (rev t @ s) = rev t @ takeWhile (\<lambda>c. c \<noteq> newline) s"
  by (rule takeWhile_append2) auto

lemma valid_len_no_newline: "newline \<notin> set t \<Longrightarrow> valid_len t = 0"
proof -
  assume n: "newline \<notin> set t"
  have "takeWhile (\<lambda>c. c \<noteq> newline) (rev t) = rev t"
    using takeWhile_tail [OF n, of "[]"] by (simp only: append_Nil2 takeWhile.simps)
  from arg_cong [OF this, of length]
  have "length (takeWhile (\<lambda>c. c \<noteq> newline) (rev t)) = length t" by (simp only: length_rev)
  then show ?thesis using no_newline_last [OF n] by (cases "t = []") (simp_all add: valid_len_def)
qed

lemma valid_len_snoc: "newline \<notin> set t \<Longrightarrow> valid_len (b @ newline # t) = Suc (length b)"
  using no_newline_last [of t] takeWhile_tail [of t "newline # rev b"]
  by (cases "t = []") (simp_all add: valid_len_def)

lemma valid_len_le: "valid_len b \<le> length b"
  by (simp add: valid_len_def)

lemma valid_len_cases:
  obtains "newline \<notin> set b" "valid_len b = 0"
  | a t where "b = a @ newline # t" "newline \<notin> set t" "valid_len b = Suc (length a)"
proof (cases "newline \<in> set b")
  case True
  then obtain a t where "b = a @ newline # t" "newline \<notin> set t"
    by (meson split_list_last)
  then show ?thesis using that(2) valid_len_snoc by simp
next
  case False
  then show ?thesis using that(1) valid_len_no_newline by simp
qed

text \<open>The part kept when a file is opened is complete, and nothing complete is cut.\<close>

lemma valid_part_complete: "complete (take (valid_len b) b)"
  by (cases b rule: valid_len_cases) auto

lemma valid_len_append:
  assumes "complete a"
  shows "valid_len (a @ t) = length a + valid_len t"
proof (cases "a = []")
  case False
  with assms obtain b where b: "a = b @ [newline]"
    unfolding complete_def by (metis append_butlast_last_id)
  show ?thesis
  proof (cases t rule: valid_len_cases)
    case 1
    then show ?thesis using valid_len_snoc [of t b] by (simp add: b)
  next
    case (2 c u)
    then show ?thesis using valid_len_snoc [of u "a @ c"] by simp
  qed
qed simp

lemma valid_part_append: "complete a \<Longrightarrow> take (valid_len (a @ t)) (a @ t) = a @ take (valid_len t) t"
  by (simp add: valid_len_append)

lemma valid_len_complete: "complete b \<Longrightarrow> valid_len b = length b"
  using valid_len_append [of b "[]"] by (simp add: valid_len_def)

lemma split_on_app: "split_on c (a @ c # t) = split_on c a @ split_on c t"
  by (induction a) (auto split: list.splits)

lemma log_lines_append:
  assumes "complete a"
  shows "log_lines (a @ t) = log_lines a @ log_lines t"
proof (cases "a = []")
  case False
  with assms obtain b where "a = b @ [newline]"
    unfolding complete_def by (metis append_butlast_last_id)
  then show ?thesis
    using split_on_app [of newline b t] split_on_app [of newline b "[]"] by (simp add: log_lines_def)
qed (simp add: log_lines_def)

lemma log_lines_line: "line_ok l \<Longrightarrow> log_lines (l @ [newline]) = [l]"
  using split_on_app [of newline l "[]"] by (simp add: log_lines_def line_ok_def split_on_no_sep)

subsection \<open>Writers\<close>

text \<open>
  The shape every operation keeps: the bytes counted are in the file and complete, the durable
  ones are a complete part of them, and all of them when nothing is waiting for a sync.
\<close>

definition writer_ok :: "log_writer \<Rightarrow> bool" where
  "writer_ok w \<longleftrightarrow> lw_bytes w \<le> length (lw_content w) \<and> complete (take (lw_bytes w) (lw_content w))
     \<and> lw_durable w \<le> lw_bytes w \<and> complete (take (lw_durable w) (lw_content w))
     \<and> (\<not> lw_dirty w \<longrightarrow> lw_durable w = lw_bytes w) \<and> lw_bytes w \<le> lw_max w"

definition lw_text :: "log_writer \<Rightarrow> bytes" where
  "lw_text w = take (lw_bytes w) (lw_content w)"

definition lw_durable_text :: "log_writer \<Rightarrow> bytes" where
  "lw_durable_text w = take (lw_durable w) (lw_content w)"

lemma durable_prefix: "writer_ok w \<Longrightarrow> \<exists>t. lw_text w = lw_durable_text w @ t"
  unfolding lw_text_def lw_durable_text_def writer_ok_def
  by (metis le_add_diff_inverse take_add)

lemma clean_durable: "writer_ok w \<Longrightarrow> \<not> lw_dirty w \<Longrightarrow> lw_durable_text w = lw_text w"
  by (simp add: writer_ok_def lw_text_def lw_durable_text_def)

lemma log_sync_ok:
  assumes "log_sync ok w = (r, w')" and "writer_ok w"
  shows "writer_ok w'" "lw_text w' = lw_text w" "r = ok" "lw_max w' = lw_max w" "lw_bytes w' = lw_bytes w"
    "r \<Longrightarrow> \<not> lw_dirty w'" "\<exists>t. lw_durable_text w' = lw_durable_text w @ t"
proof -
  have "w' = (if ok then w\<lparr>lw_dirty := False, lw_durable := lw_bytes w\<rparr> else w)" "r = ok"
    using assms(1) by (simp_all add: log_sync_def split: if_splits)
  then show "writer_ok w'" "lw_text w' = lw_text w" "r = ok" "lw_max w' = lw_max w" "lw_bytes w' = lw_bytes w"
    "r \<Longrightarrow> \<not> lw_dirty w'"
    using assms(2) by (simp_all add: writer_ok_def lw_text_def)
  have "lw_durable_text (w\<lparr>lw_dirty := False, lw_durable := lw_bytes w\<rparr>) = lw_text w"
    by (simp add: lw_durable_text_def lw_text_def)
  then show "\<exists>t. lw_durable_text w' = lw_durable_text w @ t"
    using durable_prefix [OF assms(2)] \<open>w' = _\<close> by (cases ok) auto
qed

lemma sync_if_dirty_ok:
  assumes "sync_if_dirty io w = (r, w')" and "writer_ok w"
  shows "writer_ok w'" "lw_text w' = lw_text w" "lw_max w' = lw_max w" "lw_bytes w' = lw_bytes w"
    "r \<Longrightarrow> \<not> lw_dirty w'" "\<exists>t. lw_durable_text w' = lw_durable_text w @ t"
proof -
  have "writer_ok w' \<and> lw_text w' = lw_text w \<and> lw_max w' = lw_max w \<and> lw_bytes w' = lw_bytes w
      \<and> (r \<longrightarrow> \<not> lw_dirty w') \<and> (\<exists>t. lw_durable_text w' = lw_durable_text w @ t)"
  proof (cases "lw_dirty w")
    case True
    then have "log_sync (io_sync_before io) w = (r, w')" using assms(1) by (simp add: sync_if_dirty_def)
    from log_sync_ok [OF this assms(2)] show ?thesis by blast
  next
    case False
    then show ?thesis using assms by (simp add: sync_if_dirty_def)
  qed
  then show "writer_ok w'" "lw_text w' = lw_text w" "lw_max w' = lw_max w" "lw_bytes w' = lw_bytes w"
    "r \<Longrightarrow> \<not> lw_dirty w'" "\<exists>t. lw_durable_text w' = lw_durable_text w @ t" by blast+
qed

lemma log_write_ok:
  assumes "log_write io enc (lw_bytes w + length enc) w = (r, w')" and "writer_ok w"
    and "complete enc" and "lw_bytes w + length enc \<le> lw_max w"
  shows "writer_ok w'" "lw_durable_text w' = lw_durable_text w" "lw_max w' = lw_max w"
    "lw_text w' = (if r then lw_text w @ enc else lw_text w)" "\<not> r \<Longrightarrow> lw_dirty w' = lw_dirty w"
    "lw_bytes w' = (if r then lw_bytes w + length enc else lw_bytes w)"
proof -
  have "writer_ok w' \<and> lw_durable_text w' = lw_durable_text w \<and> lw_max w' = lw_max w
      \<and> lw_text w' = (if r then lw_text w @ enc else lw_text w) \<and> (\<not> r \<longrightarrow> lw_dirty w' = lw_dirty w)
      \<and> lw_bytes w' = (if r then lw_bytes w + length enc else lw_bytes w)"
    using assms
    by (auto simp: log_write_def overwrite_at_def writer_ok_def lw_text_def lw_durable_text_def Let_def
        complete_append min_def split: if_splits write_io.splits)
  then show "writer_ok w'" "lw_durable_text w' = lw_durable_text w" "lw_max w' = lw_max w"
    "lw_text w' = (if r then lw_text w @ enc else lw_text w)" "\<not> r \<Longrightarrow> lw_dirty w' = lw_dirty w"
    "lw_bytes w' = (if r then lw_bytes w + length enc else lw_bytes w)"
    by blast+
qed

subsection \<open>Loss of power\<close>

text \<open>What a loss of power may leave in the file: what was durable, whatever follows it.\<close>

definition survives :: "log_writer \<Rightarrow> bytes \<Rightarrow> bool" where
  "survives w content \<longleftrightarrow> take (lw_durable w) content = take (lw_durable w) (lw_content w)
     \<and> lw_durable w \<le> length content"

lemma durable_complete: "writer_ok w \<Longrightarrow> complete (lw_durable_text w)"
  by (simp add: writer_ok_def lw_durable_text_def)

lemma text_complete: "writer_ok w \<Longrightarrow> complete (lw_text w)"
  by (simp add: writer_ok_def lw_text_def)

lemma survives_split: "survives w content \<Longrightarrow> \<exists>t. content = lw_durable_text w @ t"
  unfolding survives_def lw_durable_text_def by (metis append_take_drop_id)

lemma survives_valid_part:
  assumes "survives w content" and "writer_ok w"
  shows "\<exists>t. take (valid_len content) content = lw_durable_text w @ t"
  using survives_split [OF assms(1)] valid_part_append [OF durable_complete [OF assms(2)]] by auto

subsection \<open>Facts a store never forgets\<close>

text \<open>
  A store as its clients see it: steps, which include a loss of power followed by reopening, an
  invariant, and a fact about the stored records. A fact each step keeps holds for ever after.
\<close>

locale durable_facts =
  fixes step :: "'s \<Rightarrow> 's \<Rightarrow> bool" and ok :: "'s \<Rightarrow> bool" and fact :: "'s \<Rightarrow> bool"
  assumes ok_step: "step s s' \<Longrightarrow> ok s \<Longrightarrow> ok s'"
    and fact_step: "step s s' \<Longrightarrow> ok s \<Longrightarrow> fact s \<Longrightarrow> fact s'"
begin

lemma ok_steps: "step\<^sup>*\<^sup>* s s' \<Longrightarrow> ok s \<Longrightarrow> ok s'"
  by (induction rule: rtranclp_induct) (auto intro: ok_step)

lemma fact_forever: "step\<^sup>*\<^sup>* s s' \<Longrightarrow> ok s \<Longrightarrow> fact s \<Longrightarrow> fact s'"
  by (induction rule: rtranclp_induct) (auto intro: fact_step ok_steps)

end

end
