(* ===== verification/Ack_Store.thy ===== *)
theory Ack_Store
  imports Append_Log Hand_Policy
begin

section \<open>The acknowledgement store (\<open>hand-guest/src/acks.rs\<close>)\<close>

text \<open>
  The durable fence of released terminal operations: opening the log, the submission fence, the
  test for an exact acknowledgement and the retention of a new one. Lock poisoning is not
  modelled. Brain's operation references, their canonical digest and the JSON form of a record
  are arguments (\<open>ack_codec\<close>).
\<close>

subsection \<open>Data\<close>

definition MAX_ACKNOWLEDGEMENT_LOG_BYTES :: nat where
  "MAX_ACKNOWLEDGEMENT_LOG_BYTES = 64 * 1024 * 1024"

record acknowledged_operation =
  ak_operation_id :: string
  ak_request_digest :: string
  ak_operation_ref_digest :: string
  ak_terminal_digest :: string

datatype submission_fence = Clear | Acknowledged
datatype ack_retention = New | Replay
datatype ack_store_error = Conflict | Capacity | Corrupt string | Invalid string | Io

record 'o ack_codec =
  op_operation_id :: "'o \<Rightarrow> string"
  op_request_digest :: "'o \<Rightarrow> string"
  op_canonical_digest :: "'o \<Rightarrow> string option"
  ack_to_json :: "acknowledged_operation \<Rightarrow> bytes option"
  ack_from_json :: "bytes \<Rightarrow> acknowledged_operation option"

record acknowledgement_store =
  as_records :: "string \<rightharpoonup> acknowledged_operation"
  as_writer :: log_writer

subsection \<open>Operations\<close>

definition ack_new ::
    "'o ack_codec \<Rightarrow> 'o \<Rightarrow> string \<Rightarrow> (ack_store_error, acknowledged_operation) result" where
  "ack_new k operation terminal_digest =
     and_then (ok_or (op_canonical_digest k operation)
                 (Invalid ''operation reference is not canonicalizable'')) (\<lambda>ref_digest.
       Ok \<lparr>ak_operation_id = op_operation_id k operation, ak_request_digest = op_request_digest k operation,
           ak_operation_ref_digest = ref_digest, ak_terminal_digest = terminal_digest\<rparr>)"

definition ack_validate_identifier :: "string \<Rightarrow> (ack_store_error, unit) result" where
  "ack_validate_identifier v =
     (case v of
        [] \<Rightarrow> Err (Invalid ''operation_id'')
      | first # chars \<Rightarrow>
          if length v > 128 \<or> \<not> is_ascii v \<or> \<not> ascii_alphanumeric first
             \<or> list_ex (\<lambda>ch. \<not> identifier_char ch) chars
          then Err (Invalid ''operation_id'') else Ok ())"

definition ack_validate_digest :: "string \<Rightarrow> (ack_store_error, unit) result" where
  "ack_validate_digest v =
     (if length v \<noteq> 64 \<or> \<not> list_all lower_hex v then Err (Invalid ''digest'') else Ok ())"

definition ack_validate :: "acknowledged_operation \<Rightarrow> (ack_store_error, unit) result" where
  "ack_validate r =
     and_then (ack_validate_identifier (ak_operation_id r)) (\<lambda>_.
     and_then (ack_validate_digest (ak_request_digest r)) (\<lambda>_.
     and_then (ack_validate_digest (ak_operation_ref_digest r)) (\<lambda>_.
       ack_validate_digest (ak_terminal_digest r))))"

fun ack_load ::
    "'o ack_codec \<Rightarrow> bytes list \<Rightarrow> (string \<rightharpoonup> acknowledged_operation)
      \<Rightarrow> (ack_store_error, string \<rightharpoonup> acknowledged_operation) result" where
  "ack_load k [] records = Ok records"
| "ack_load k (line # lines) records =
     and_then (ok_or (ack_from_json k line) (Corrupt ''invalid complete JSON record'')) (\<lambda>r.
     and_then (ack_validate r) (\<lambda>_.
       case records (ak_operation_id r) of
         Some existing \<Rightarrow>
           if existing = r then ack_load k lines records
           else Err (Corrupt ''one operation id has conflicting tombstones'')
       | None \<Rightarrow> ack_load k lines (records(ak_operation_id r \<mapsto> r))))"

text \<open>
  \<open>open_with_limit\<close> on a file with the given content, of which \<open>durable\<close> bytes are known to be on
  disk; \<open>cut_ok\<close> is the outcome of truncating and syncing a torn tail.
\<close>

definition ack_open ::
    "'o ack_codec \<Rightarrow> nat \<Rightarrow> bool \<Rightarrow> nat \<Rightarrow> bytes \<Rightarrow> (ack_store_error, acknowledgement_store) result" where
  "ack_open k max_bytes cut_ok durable content =
     (if length content > max_bytes then Err Capacity
      else if valid_len content \<noteq> length content \<and> \<not> cut_ok then Err Io
      else and_then (ack_load k (log_lines (take (valid_len content) content)) Map.empty) (\<lambda>records.
        Ok \<lparr>as_records = records,
            as_writer = \<lparr>lw_content = take (valid_len content) content, lw_bytes = valid_len content,
                         lw_dirty = False, lw_max = max_bytes,
                         lw_durable = if valid_len content \<noteq> length content then valid_len content
                                      else min durable (valid_len content)\<rparr>\<rparr>))"

definition fence_submission ::
    "acknowledgement_store \<Rightarrow> string \<Rightarrow> string \<Rightarrow> (ack_store_error, submission_fence) result" where
  "fence_submission st operation_id request_digest =
     (case as_records st operation_id of
        None \<Rightarrow> Ok Clear
      | Some r \<Rightarrow> if ak_request_digest r = request_digest then Ok Acknowledged else Err Conflict)"

definition acknowledgement_exists ::
    "'o ack_codec \<Rightarrow> log_io \<Rightarrow> acknowledgement_store \<Rightarrow> 'o \<Rightarrow> string
      \<Rightarrow> (ack_store_error, bool) result \<times> acknowledgement_store" where
  "acknowledgement_exists k io st operation terminal_digest =
     (case ack_new k operation terminal_digest of
        Err e \<Rightarrow> (Err e, st)
      | Ok candidate \<Rightarrow>
          (case sync_if_dirty io (as_writer st) of
             (False, w) \<Rightarrow> (Err Io, st\<lparr>as_writer := w\<rparr>)
           | (True, w) \<Rightarrow>
               (case as_records st (ak_operation_id candidate) of
                  None \<Rightarrow> Ok False
                | Some existing \<Rightarrow> if existing = candidate then Ok True else Err Conflict,
                st\<lparr>as_writer := w\<rparr>)))"

text \<open>The append of a new record: capacity, write, index, sync.\<close>

definition ack_append ::
    "'o ack_codec \<Rightarrow> log_io \<Rightarrow> acknowledgement_store \<Rightarrow> acknowledged_operation
      \<Rightarrow> (ack_store_error, ack_retention) result \<times> acknowledgement_store" where
  "ack_append k io st candidate =
     (case ack_to_json k candidate of
        None \<Rightarrow> (Err (Invalid ''acknowledgement is not serializable''), st)
      | Some json \<Rightarrow>
          (case checked_add (lw_bytes (as_writer st)) (length (json @ [newline])) of
             None \<Rightarrow> (Err Capacity, st)
           | Some next_bytes \<Rightarrow>
               if next_bytes > lw_max (as_writer st) then (Err Capacity, st)
               else (case log_write io (json @ [newline]) next_bytes (as_writer st) of
                       (False, w) \<Rightarrow> (Err Io, st\<lparr>as_writer := w\<rparr>)
                     | (True, w) \<Rightarrow>
                         (case log_sync (io_sync_after io) w of
                            (synced, w') \<Rightarrow>
                              (if synced then Ok New else Err Io,
                               \<lparr>as_records = (as_records st)(ak_operation_id candidate \<mapsto> candidate),
                                as_writer = w'\<rparr>)))))"

definition retain ::
    "'o ack_codec \<Rightarrow> log_io \<Rightarrow> acknowledgement_store \<Rightarrow> 'o \<Rightarrow> string
      \<Rightarrow> (ack_store_error, ack_retention) result \<times> acknowledgement_store" where
  "retain k io st operation terminal_digest =
     (case and_then (ack_new k operation terminal_digest) (\<lambda>c. and_then (ack_validate c) (\<lambda>_. Ok c)) of
        Err e \<Rightarrow> (Err e, st)
      | Ok candidate \<Rightarrow>
          (case sync_if_dirty io (as_writer st) of
             (False, w) \<Rightarrow> (Err Io, st\<lparr>as_writer := w\<rparr>)
           | (True, w) \<Rightarrow>
               (case as_records st (ak_operation_id candidate) of
                  Some existing \<Rightarrow>
                    (if existing = candidate then Ok Replay else Err Conflict, st\<lparr>as_writer := w\<rparr>)
                | None \<Rightarrow> ack_append k io (st\<lparr>as_writer := w\<rparr>) candidate)))"

subsection \<open>The life of a store\<close>

text \<open>
  Calls with any outcome of their file operations, and losses of power: afterwards the file begins
  with what was durable, whatever follows, and the store is opened again.
\<close>

inductive ack_step :: "'o ack_codec \<Rightarrow> acknowledgement_store \<Rightarrow> acknowledgement_store \<Rightarrow> bool" for k where
  ack_exists: "acknowledgement_exists k io st operation d = (r, st') \<Longrightarrow> ack_step k st st'"
| ack_retain: "retain k io st operation d = (r, st') \<Longrightarrow> ack_step k st st'"
| ack_power_loss: "survives (as_writer st) content
    \<Longrightarrow> ack_open k (lw_max (as_writer st)) cut_ok (length content) content = Ok st' \<Longrightarrow> ack_step k st st'"

text \<open>The JSON of a valid record is one line, and reads back.\<close>

definition ack_codec_ok :: "'o ack_codec \<Rightarrow> bool" where
  "ack_codec_ok k \<longleftrightarrow>
     (\<forall>r b. ack_to_json k r = Some b \<longrightarrow> line_ok b \<and> ack_from_json k b = Some r)"

section \<open>Lemmas\<close>

lemma ack_load_append:
  "ack_load k (ls @ ms) m = and_then (ack_load k ls m) (ack_load k ms)"
  by (induction ls arbitrary: m) (auto simp: and_then_def split: sum.splits option.splits)

lemma ack_load_mono: "ack_load k ls m = Ok m' \<Longrightarrow> m \<subseteq>\<^sub>m m'"
proof (induction ls arbitrary: m)
  case (Cons l ls)
  from Cons.prems obtain r where r: "(case m (ak_operation_id r) of
         Some e \<Rightarrow> if e = r then ack_load k ls m else Err (Corrupt ''one operation id has conflicting tombstones'')
       | None \<Rightarrow> ack_load k ls (m(ak_operation_id r \<mapsto> r))) = Ok m'"
    by (auto simp: and_then_Ok_iff)
  show ?case
  proof (cases "m (ak_operation_id r)")
    case None
    then have "m \<subseteq>\<^sub>m m(ak_operation_id r \<mapsto> r)" by (auto simp: map_le_def)
    with None r Cons show ?thesis by (metis map_le_trans option.case(1))
  next
    case (Some e)
    with r Cons show ?thesis by (auto split: if_splits)
  qed
qed simp

text \<open>
  The invariant: the index is what the counted part of the log says, and the durable part alone
  would load as well.
\<close>

definition ack_ok :: "'o ack_codec \<Rightarrow> acknowledgement_store \<Rightarrow> bool" where
  "ack_ok k st \<longleftrightarrow> ack_codec_ok k \<and> writer_ok (as_writer st)
     \<and> ack_load k (log_lines (lw_text (as_writer st))) Map.empty = Ok (as_records st)"

text \<open>A record that a loss of power cannot take away.\<close>

definition ack_durable :: "'o ack_codec \<Rightarrow> acknowledged_operation \<Rightarrow> acknowledgement_store \<Rightarrow> bool" where
  "ack_durable k r st \<longleftrightarrow>
     (\<exists>m. ack_load k (log_lines (lw_durable_text (as_writer st))) Map.empty = Ok m \<and> m (ak_operation_id r) = Some r)"

lemma ack_durable_indexed:
  assumes "ack_ok k st" and "ack_durable k r st"
  shows "as_records st (ak_operation_id r) = Some r"
proof -
  have w: "writer_ok (as_writer st)" using assms(1) by (simp add: ack_ok_def)
  obtain t where t: "lw_text (as_writer st) = lw_durable_text (as_writer st) @ t"
    using durable_prefix [OF w] by blast
  obtain m where m: "ack_load k (log_lines (lw_durable_text (as_writer st))) Map.empty = Ok m"
      "m (ak_operation_id r) = Some r"
    using assms(2) by (auto simp: ack_durable_def)
  have "ack_load k (log_lines t) m = Ok (as_records st)"
    using assms(1) m(1) by (simp add: ack_ok_def t log_lines_append [OF durable_complete [OF w]] ack_load_append)
  from ack_load_mono [OF this] m(2) show ?thesis by (auto simp: map_le_def dom_def)
qed

lemma ack_durable_extend:
  assumes "ack_ok k st'" and "ack_durable k r st" and "writer_ok (as_writer st)"
    and "lw_durable_text (as_writer st') = lw_durable_text (as_writer st) @ t"
  shows "ack_durable k r st'"
proof -
  have w: "writer_ok (as_writer st')" using assms(1) by (simp add: ack_ok_def)
  obtain u where u: "lw_text (as_writer st') = lw_durable_text (as_writer st') @ u"
    using durable_prefix [OF w] by blast
  obtain m where m: "ack_load k (log_lines (lw_durable_text (as_writer st))) Map.empty = Ok m"
      "m (ak_operation_id r) = Some r"
    using assms(2) by (auto simp: ack_durable_def)
  have "is_ok (ack_load k (log_lines (lw_durable_text (as_writer st'))) Map.empty)"
    using assms(1) by (auto simp: ack_ok_def u log_lines_append [OF durable_complete [OF w]] ack_load_append
        and_then_Ok_iff is_ok_iff)
  then obtain m' where m': "ack_load k (log_lines (lw_durable_text (as_writer st'))) Map.empty = Ok m'"
    by (auto simp: is_ok_iff)
  then have "ack_load k (log_lines t) m = Ok m'"
    using m(1) by (simp add: assms(4) log_lines_append [OF durable_complete [OF assms(3)]] ack_load_append)
  from ack_load_mono [OF this] m(2) have "m' (ak_operation_id r) = Some r" by (auto simp: map_le_def dom_def)
  with m' show ?thesis by (auto simp: ack_durable_def)
qed

lemma ack_clean_durable:
  assumes "ack_ok k st" and "\<not> lw_dirty (as_writer st)" and "as_records st (ak_operation_id r) = Some r"
  shows "ack_durable k r st"
  using assms clean_durable [of "as_writer st"] by (auto simp: ack_ok_def ack_durable_def)

lemma sync_store_ok:
  assumes "sync_if_dirty io (as_writer st) = (b, w)" and "ack_ok k st"
  shows "ack_ok k (st\<lparr>as_writer := w\<rparr>)" "ack_durable k r st \<Longrightarrow> ack_durable k r (st\<lparr>as_writer := w\<rparr>)"
proof -
  have w: "writer_ok (as_writer st)" using assms(2) by (simp add: ack_ok_def)
  note s = sync_if_dirty_ok [OF assms(1) w]
  show ok: "ack_ok k (st\<lparr>as_writer := w\<rparr>)" using s(1,2) assms(2) by (simp add: ack_ok_def)
  show "ack_durable k r (st\<lparr>as_writer := w\<rparr>)" if "ack_durable k r st"
    using s(6) ack_durable_extend [OF ok that w] by auto
qed

lemma ack_load_line:
  assumes "ack_codec_ok k" and "ack_to_json k r = Some j" and "ack_validate r = Ok ()"
    and "m (ak_operation_id r) = None"
  shows "ack_load k [j] m = Ok (m(ak_operation_id r \<mapsto> r))"
  using assms by (simp add: ack_codec_ok_def)

lemma ack_append_ok:
  assumes "ack_append k io st c = (res, st')" and "ack_ok k st" and "ack_validate c = Ok ()"
    and "as_records st (ak_operation_id c) = None"
  shows "ack_ok k st'" "ack_durable k r st \<Longrightarrow> ack_durable k r st'" "is_ok res \<Longrightarrow> ack_durable k c st'"
proof -
  have w: "writer_ok (as_writer st)" and k: "ack_codec_ok k"
    and load: "ack_load k (log_lines (lw_text (as_writer st))) Map.empty = Ok (as_records st)"
    using assms(2) by (simp_all add: ack_ok_def)
  have "ack_ok k st' \<and> (ack_durable k r st \<longrightarrow> ack_durable k r st') \<and> (is_ok res \<longrightarrow> ack_durable k c st')"
  proof (cases "\<exists>j. ack_to_json k c = Some j \<and> lw_bytes (as_writer st) + length (j @ [newline]) \<le> U64_MAX
      \<and> lw_bytes (as_writer st) + length (j @ [newline]) \<le> lw_max (as_writer st)")
    case False
    then show ?thesis using assms(1,2)
      by (auto simp: ack_append_def checked_add_def split: option.splits if_splits)
  next
    case True
    then obtain j where j: "ack_to_json k c = Some j"
      and fits: "lw_bytes (as_writer st) + length (j @ [newline]) \<le> U64_MAX"
        "lw_bytes (as_writer st) + length (j @ [newline]) \<le> lw_max (as_writer st)"
      by blast
    obtain b w1 where wr: "log_write io (j @ [newline]) (lw_bytes (as_writer st) + length (j @ [newline]))
        (as_writer st) = (b, w1)" by (rule prod.exhaust)
    note W = log_write_ok [OF wr w _ fits(2), simplified]
    obtain y w2 where sy: "log_sync (io_sync_after io) w1 = (y, w2)" by (rule prod.exhaust)
    show ?thesis
    proof (cases b)
      case False
      have st': "st' = st\<lparr>as_writer := w1\<rparr>" "\<not> is_ok res"
        using assms(1) j fits wr False by (auto simp: ack_append_def checked_add_def)
      moreover have ok: "ack_ok k st'" using W False k load st' by (simp add: ack_ok_def)
      ultimately show ?thesis
        using ack_durable_extend [OF ok _ w, of r "[]"] W(2) by auto
    next
      case True
      have st': "st' = \<lparr>as_records = (as_records st)(ak_operation_id c \<mapsto> c), as_writer = w2\<rparr>"
          "is_ok res \<longleftrightarrow> y"
        using assms(1) j fits wr sy True by (auto simp: ack_append_def checked_add_def split: if_splits)
      note S = log_sync_ok [OF sy W(1)]
      have line: "line_ok j" using k j by (simp add: ack_codec_ok_def)
      have "log_lines (lw_text w2) = log_lines (lw_text (as_writer st)) @ [j]"
        using S(2) W(4) True log_lines_append [OF text_complete [OF w]] log_lines_line [OF line] by simp
      then have ok: "ack_ok k st'"
        using st' S(1) k load ack_load_line [OF k j assms(3), of "as_records st"] assms(4) by (simp add: ack_ok_def ack_load_append)
      obtain t where t: "lw_durable_text w2 = lw_durable_text (as_writer st) @ t"
        using S(7) W(2) by auto
      have "ack_durable k r st'" if "ack_durable k r st"
        using ack_durable_extend [OF ok that w, of t] t st' by simp
      moreover have "ack_durable k c st'" if y
        using S(6) that ack_clean_durable [OF ok, of c] st' by simp
      ultimately show ?thesis using ok st'(2) by blast
    qed
  qed
  then show "ack_ok k st'" "ack_durable k r st \<Longrightarrow> ack_durable k r st'" "is_ok res \<Longrightarrow> ack_durable k c st'"
    by blast+
qed

lemma retain_ok:
  assumes "retain k io st op d = (res, st')" and "ack_ok k st"
  shows "ack_ok k st'" "ack_durable k r st \<Longrightarrow> ack_durable k r st'"
    "is_ok res \<Longrightarrow> \<exists>c. ack_new k op d = Ok c \<and> ack_durable k c st'"
proof -
  have "ack_ok k st' \<and> (ack_durable k r st \<longrightarrow> ack_durable k r st')
      \<and> (is_ok res \<longrightarrow> (\<exists>c. ack_new k op d = Ok c \<and> ack_durable k c st'))"
  proof (cases "\<exists>c. ack_new k op d = Ok c \<and> ack_validate c = Ok ()")
    case False
    then have "\<exists>e. and_then (ack_new k op d) (\<lambda>c. and_then (ack_validate c) (\<lambda>_. Ok c)) = Err e"
      by (cases "ack_new k op d") (auto simp: and_then_def split: sum.splits)
    then show ?thesis using assms by (auto simp: retain_def)
  next
    case True
    then obtain c where c: "ack_new k op d = Ok c" "ack_validate c = Ok ()" by blast
    obtain b w where s: "sync_if_dirty io (as_writer st) = (b, w)" by (rule prod.exhaust)
    note Y = sync_store_ok [OF s assms(2)]
    have w: "writer_ok (as_writer st)" using assms(2) by (simp add: ack_ok_def)
    show ?thesis
    proof (cases "b \<and> as_records st (ak_operation_id c) = None")
      case False
      then have "st' = st\<lparr>as_writer := w\<rparr>" "is_ok res \<longrightarrow> b \<and> as_records st (ak_operation_id c) = Some c"
        using assms(1) c s by (auto simp: retain_def split: option.splits if_splits bool.splits)
      with Y sync_if_dirty_ok(5) [OF s w] ack_clean_durable [OF Y(1), of c] c(1) show ?thesis by auto
    next
      case True
      then have "ack_append k io (st\<lparr>as_writer := w\<rparr>) c = (res, st')"
        using assms(1) c s by (simp add: retain_def)
      from ack_append_ok [OF this Y(1) c(2)] True Y(2) c(1) show ?thesis by auto
    qed
  qed
  then show "ack_ok k st'" "ack_durable k r st \<Longrightarrow> ack_durable k r st'"
    "is_ok res \<Longrightarrow> \<exists>c. ack_new k op d = Ok c \<and> ack_durable k c st'" by blast+
qed

lemma exists_ok:
  assumes "acknowledgement_exists k io st op d = (res, st')" and "ack_ok k st"
  shows "ack_ok k st'" "ack_durable k r st \<Longrightarrow> ack_durable k r st'"
    "res = Ok True \<Longrightarrow> \<exists>c. ack_new k op d = Ok c \<and> ack_durable k c st'"
proof -
  have "ack_ok k st' \<and> (ack_durable k r st \<longrightarrow> ack_durable k r st')
      \<and> (res = Ok True \<longrightarrow> (\<exists>c. ack_new k op d = Ok c \<and> ack_durable k c st'))"
  proof (cases "ack_new k op d")
    case (Inr c)
    obtain b w where s: "sync_if_dirty io (as_writer st) = (b, w)" by (rule prod.exhaust)
    have w: "writer_ok (as_writer st)" using assms(2) by (simp add: ack_ok_def)
    note Y = sync_store_ok [OF s assms(2)]
    have "st' = st\<lparr>as_writer := w\<rparr>" "res = Ok True \<longrightarrow> b \<and> as_records st (ak_operation_id c) = Some c"
      using assms(1) Inr s by (auto simp: acknowledgement_exists_def split: option.splits if_splits bool.splits)
    with Y sync_if_dirty_ok(5) [OF s w] ack_clean_durable [OF Y(1), of c] Inr show ?thesis by auto
  qed (use assms in \<open>auto simp: acknowledgement_exists_def\<close>)
  then show "ack_ok k st'" "ack_durable k r st \<Longrightarrow> ack_durable k r st'"
    "res = Ok True \<Longrightarrow> \<exists>c. ack_new k op d = Ok c \<and> ack_durable k c st'" by blast+
qed

lemma open_ok:
  assumes "ack_open k m cut_ok (length content) content = Ok st'" and "ack_codec_ok k"
  shows "ack_ok k st'" "lw_text (as_writer st') = take (valid_len content) content"
    "\<not> lw_dirty (as_writer st')" "lw_max (as_writer st') = m"
  using assms valid_len_le [of content] valid_part_complete [of content]
  by (auto simp: ack_open_def ack_ok_def writer_ok_def lw_text_def and_then_Ok_iff split: if_splits)

lemma power_loss_ok:
  assumes "ack_open k m cut_ok (length content) content = Ok st'" and "ack_ok k st"
    and "survives (as_writer st) content"
  shows "ack_ok k st'" "ack_durable k r st \<Longrightarrow> ack_durable k r st'"
proof -
  have k: "ack_codec_ok k" and w: "writer_ok (as_writer st)" using assms(2) by (simp_all add: ack_ok_def)
  note O = open_ok [OF assms(1) k]
  show ok: "ack_ok k st'" by (rule O(1))
  obtain t where "take (valid_len content) content = lw_durable_text (as_writer st) @ t"
    using survives_valid_part [OF assms(3) w] by blast
  then have "lw_durable_text (as_writer st') = lw_durable_text (as_writer st) @ t"
    using clean_durable [of "as_writer st'"] O(1,2,3) by (simp add: ack_ok_def)
  then show "ack_durable k r st'" if "ack_durable k r st"
    by (rule ack_durable_extend [OF ok that w])
qed

lemma ack_step_keeps:
  assumes "ack_step k st st'" and "ack_ok k st"
  shows "ack_ok k st'" "ack_durable k r st \<Longrightarrow> ack_durable k r st'"
proof -
  from assms have "ack_ok k st' \<and> (ack_durable k r st \<longrightarrow> ack_durable k r st')"
  proof (induction rule: ack_step.induct)
    case (ack_exists io st operation d res st')
    then show ?case using exists_ok(1,2) [OF ack_exists.hyps ack_exists.prems] by blast
  next
    case (ack_retain io st operation d res st')
    then show ?case using retain_ok(1,2) [OF ack_retain.hyps ack_retain.prems] by blast
  next
    case (ack_power_loss st content cut_ok st')
    then show ?case using power_loss_ok [OF ack_power_loss.hyps(2) ack_power_loss.prems ack_power_loss.hyps(1)] by blast
  qed
  then show "ack_ok k st'" "ack_durable k r st \<Longrightarrow> ack_durable k r st'" by blast+
qed

interpretation acks: durable_facts "ack_step k" "ack_ok k" "ack_durable k r" for k r
  by unfold_locales (use ack_step_keeps in blast)+

lemma ack_new_identity:
  "ack_new k op d = Ok c \<Longrightarrow>
     ak_operation_id c = op_operation_id k op \<and> ak_request_digest c = op_request_digest k op
     \<and> ak_terminal_digest c = d"
  by (auto simp: ack_new_def result_iffs)

section \<open>Properties\<close>

text \<open>
  C14. Once an acknowledgement was reported retained, new or replayed, the store fences that
  operation for ever: whatever calls follow with whatever outcome of their file operations, and
  however often power is lost and the log reopened, a resubmission with the same digest is
  answered as acknowledged and one with another digest is refused as a conflict.
\<close>

theorem acknowledgement_never_forgotten:
  assumes "ack_codec_ok k" and "ack_open k m cut_ok (length content) content = Ok st0"
    and "(ack_step k)\<^sup>*\<^sup>* st0 st" and "retain k io st operation terminal_digest = (Ok retention, st1)"
    and "(ack_step k)\<^sup>*\<^sup>* st1 st2"
  shows "fence_submission st2 (op_operation_id k operation) request_digest =
    (if request_digest = op_request_digest k operation then Ok Acknowledged else Err Conflict)"
proof -
  have "ack_ok k st" using acks.ok_steps [OF assms(3)] open_ok(1) [OF assms(2,1)] by blast
  then obtain c where c: "ack_new k operation terminal_digest = Ok c" "ack_durable k c st1" and ok1: "ack_ok k st1"
    using retain_ok [OF assms(4)] by auto
  have "as_records st2 (ak_operation_id c) = Some c"
    using ack_durable_indexed acks.ok_steps [OF assms(5) ok1] acks.fact_forever [OF assms(5) ok1 c(2)] by blast
  then show ?thesis using ack_new_identity [OF c(1)] by (auto simp: fence_submission_def)
qed

text \<open>
  A torn write never keeps the log from being opened: if the file ends anywhere between what
  was durable and what was written, the tail is cut and the log opens, with the records it had up
  to there.
\<close>

theorem torn_log_reopens:
  assumes "ack_codec_ok k" and "ack_open k m cut_ok (length content) content = Ok st0"
    and "(ack_step k)\<^sup>*\<^sup>* st0 st" and "n \<le> lw_bytes (as_writer st)"
  shows "\<exists>st'. ack_open k (lw_max (as_writer st)) True n (take n (lw_content (as_writer st))) = Ok st'
    \<and> as_records st' \<subseteq>\<^sub>m as_records st"
proof -
  define b where "b = take n (lw_content (as_writer st))"
  have ok: "ack_ok k st" using acks.ok_steps [OF assms(3)] open_ok(1) [OF assms(2,1)] by blast
  then have w: "writer_ok (as_writer st)"
    and load: "ack_load k (log_lines (lw_text (as_writer st))) Map.empty = Ok (as_records st)"
    by (simp_all add: ack_ok_def)
  have "prefix b (lw_text (as_writer st))"
    unfolding b_def lw_text_def using assms(4) by (metis take_is_prefix take_take min.absorb1)
  with take_is_prefix have "prefix (take (valid_len b) b) (lw_text (as_writer st))"
    by (rule prefix_order.trans)
  then obtain t where t: "lw_text (as_writer st) = take (valid_len b) b @ t"
    unfolding prefix_def by blast
  obtain m' where m': "ack_load k (log_lines (take (valid_len b) b)) Map.empty = Ok m'"
      "ack_load k (log_lines t) m' = Ok (as_records st)"
    using load by (auto simp: t log_lines_append [OF valid_part_complete] ack_load_append and_then_Ok_iff)
  have "length b \<le> lw_max (as_writer st)" using w assms(4) by (auto simp: b_def writer_ok_def)
  then show ?thesis
    using m' ack_load_mono [OF m'(2)] by (auto simp: ack_open_def b_def [symmetric])
qed

subsection \<open>A sample store\<close>

definition sample_ack :: acknowledged_operation where
  "sample_ack = \<lparr>ak_operation_id = ''o'', ak_request_digest = digest_a, ak_operation_ref_digest = digest_b,
     ak_terminal_digest = digest_c\<rparr>"

definition sample_ack_codec :: "string ack_codec" where
  "sample_ack_codec = \<lparr>op_operation_id = (\<lambda>x. x), op_request_digest = (\<lambda>_. digest_a),
     op_canonical_digest = (\<lambda>_. Some digest_b),
     ack_to_json = (\<lambda>r. if r = sample_ack then Some ''ack'' else None),
     ack_from_json = (\<lambda>b. if b = ''ack'' then Some sample_ack else None)\<rparr>"

definition good_io :: log_io where
  "good_io = \<lparr>io_sync_before = True, io_seek = True, io_write = WriteOk, io_sync_after = True\<rparr>"

definition empty_acks :: acknowledgement_store where
  "empty_acks = \<lparr>as_records = Map.empty, as_writer =
     \<lparr>lw_content = [], lw_bytes = 0, lw_dirty = False, lw_max = 100, lw_durable = 0\<rparr>\<rparr>"

definition one_ack :: "bool \<Rightarrow> acknowledgement_store" where
  "one_ack synced = \<lparr>as_records = [''o'' \<mapsto> sample_ack], as_writer =
     \<lparr>lw_content = ''ack'' @ [newline], lw_bytes = 4, lw_dirty = \<not> synced, lw_max = 100,
      lw_durable = if synced then 4 else 0\<rparr>\<rparr>"

lemma sample_ack_codec_ok: "ack_codec_ok sample_ack_codec"
  by (simp add: ack_codec_ok_def sample_ack_codec_def line_ok_def)

lemma sample_open: "ack_open sample_ack_codec 100 True n [] = Ok empty_acks"
  by (simp add: ack_open_def empty_acks_def valid_len_def log_lines_def)

lemma sample_new: "ack_new sample_ack_codec ''o'' digest_c = Ok sample_ack"
  by (simp add: ack_new_def sample_ack_codec_def sample_ack_def)

lemma sample_valid: "ack_validate sample_ack = Ok ()"
  by (simp add: ack_validate_def sample_ack_def ack_validate_identifier_def ack_validate_digest_def
      std_defs op_defs list_all_iff)

lemma sample_retain:
  "retain sample_ack_codec (good_io\<lparr>io_sync_after := y\<rparr>) empty_acks ''o'' digest_c =
     (if y then Ok New else Err Io, one_ack y)"
  by (simp add: retain_def sample_new sample_valid)
     (simp add: sync_if_dirty_def empty_acks_def ack_append_def sample_ack_codec_def checked_add_def U64_MAX_def
       log_write_def good_io_def overwrite_at_def log_sync_def one_ack_def sample_ack_def)

theorem acknowledgement_never_forgotten_witness:
  "fence_submission (one_ack True) ''o'' digest_a = Ok Acknowledged"
  using acknowledgement_never_forgotten [OF sample_ack_codec_ok sample_open [of "length []"], of empty_acks
      "good_io\<lparr>io_sync_after := True\<rparr>" "''o''" digest_c New "one_ack True" "one_ack True" digest_a]
    sample_retain [of True]
  by (simp add: sample_ack_codec_def sample_open)

theorem torn_log_reopens_witness:
  "\<exists>st'. ack_open sample_ack_codec 100 True 2 ''ac'' = Ok st'"
proof -
  have "ack_step sample_ack_codec empty_acks (one_ack True)"
    using ack_step.ack_retain [OF sample_retain [of True]] by simp
  from torn_log_reopens [OF sample_ack_codec_ok sample_open [of "length []"] r_into_rtranclp [of "ack_step sample_ack_codec", OF this], of 2]
  show ?thesis by (simp add: one_ack_def) blast
qed

text \<open>
  A restart of the process makes an unsynced acknowledgement trusted: after a retention whose
  sync failed, the log is opened again and, without another sync, reports the acknowledgement as
  retained, while a loss of power may still leave the log empty and the operation unfenced.
\<close>

theorem reopened_log_trusts_unsynced_record:
  "\<exists>st1 st2. retain sample_ack_codec (good_io\<lparr>io_sync_after := False\<rparr>) empty_acks ''o'' digest_c = (Err Io, st1)
     \<and> ack_open sample_ack_codec 100 True (lw_durable (as_writer st1)) (lw_content (as_writer st1)) = Ok st2
     \<and> acknowledgement_exists sample_ack_codec good_io st2 ''o'' digest_c = (Ok True, st2)
     \<and> survives (as_writer st2) []
     \<and> fence_submission (projr (ack_open sample_ack_codec 100 True 0 [])) ''o'' digest_a = Ok Clear"
proof -
  define st2 where "st2 = (one_ack False)\<lparr>as_writer := (as_writer (one_ack False))\<lparr>lw_dirty := False\<rparr>\<rparr>"
  have len: "valid_len (''ack'' @ [newline]) = 4" by (subst valid_len_complete) (simp_all add: complete_def)
  have "log_lines (''ack'' @ [newline]) = [''ack'']" by (rule log_lines_line) (simp add: line_ok_def)
  then have "ack_load sample_ack_codec (log_lines (''ack'' @ [newline])) Map.empty = Ok [''o'' \<mapsto> sample_ack]"
    using sample_valid by (simp add: sample_ack_codec_def) (simp add: sample_ack_def)
  then have "ack_open sample_ack_codec 100 True 0 (''ack'' @ [newline]) = Ok st2"
    using len by (simp add: ack_open_def st2_def one_ack_def)
  moreover have "acknowledgement_exists sample_ack_codec good_io st2 ''o'' digest_c = (Ok True, st2)"
    by (simp add: acknowledgement_exists_def sample_new sync_if_dirty_def st2_def one_ack_def)
       (simp add: sample_ack_def)
  moreover have "survives (as_writer st2) []" by (simp add: survives_def st2_def one_ack_def)
  ultimately show ?thesis
    using sample_retain [of False]
    by (intro exI [of _ "one_ack False"] exI [of _ st2])
       (simp add: sample_open fence_submission_def empty_acks_def, simp add: one_ack_def)
qed

end
