(* ===== verification/File_Effects.thy ===== *)
theory File_Effects
  imports Append_Log Hand_Policy
begin

section \<open>The file-effect store (\<open>hand-guest/src/file_effects.rs\<close>)\<close>

text \<open>
  The durable fence of effectful file operations: an intent is logged and synced before the
  effect, the right to begin it is consumed once, its result is logged and replayed. Lock poisoning
  is not modelled. Brain's identifier and digest parsers, JSON and the canonical form of a result
  are arguments (\<open>effect_codec\<close>); of a stored result only the fields the store reads are
  distinguished, the rest is one opaque component.
\<close>

subsection \<open>Data (\<open>hand-wire/src/lib.rs\<close>, \<open>file_effects.rs\<close>)\<close>

definition MAX_RETAINED_FILE_EFFECTS :: nat where "MAX_RETAINED_FILE_EFFECTS = 1024"
definition MAX_FILE_EFFECT_LOG_BYTES :: nat where "MAX_FILE_EFFECT_LOG_BYTES = 64 * 1024 * 1024"
definition RESULT_RESERVATION_BYTES :: nat where "RESULT_RESERVATION_BYTES = 32 * 1024"

datatype file_effect_kind = EWrite | CopyImport | CopyExport

record file_effect_identity =
  fe_kind :: file_effect_kind
  fe_operation_id :: string
  fe_request_digest :: string

record 'f effect_result =
  er_operation_id :: string
  er_request_digest :: string
  er_replayed :: bool
  er_body :: 'f

datatype 'f stored_result = WriteResult "'f effect_result" | CopyResult "'f effect_result"

datatype 'f effect_event = Intent file_effect_identity | Complete file_effect_identity "'f stored_result"

record 'f effect_record =
  ef_identity :: file_effect_identity
  ef_result :: "'f stored_result option"
  ef_claim_available :: bool

record 'f file_effect_store =
  es_records :: "string \<rightharpoonup> 'f effect_record"
  es_writer :: log_writer
  es_reserved_result_bytes :: nat
  es_max_effects :: nat

datatype 'f effect_reservation = NewEffect | ReplayEffect "'f stored_result"

datatype effect_error = Conflict | Ambiguous | Capacity | Corrupt string | Invalid string | Io

record 'f effect_codec =
  parses_identifier :: "string \<Rightarrow> bool"
  parses_digest :: "string \<Rightarrow> bool"
  event_to_json :: "'f effect_event \<Rightarrow> bytes option"
  event_from_json :: "bytes \<Rightarrow> 'f effect_event option"
  result_jcs :: "'f stored_result \<Rightarrow> bytes option"

subsection \<open>Validation\<close>

definition effect_validate_identity ::
    "'f effect_codec \<Rightarrow> file_effect_identity \<Rightarrow> (effect_error, unit) result" where
  "effect_validate_identity k i =
     (if \<not> parses_identifier k (fe_operation_id i) then Err (Invalid ''operation_id'')
      else if \<not> parses_digest k (fe_request_digest i) then Err (Invalid ''request_digest'')
      else Ok ())"

fun exact_result :: "file_effect_identity \<Rightarrow> 'f stored_result \<Rightarrow> bool" where
  "exact_result i (WriteResult r) \<longleftrightarrow>
     fe_kind i = EWrite \<and> er_operation_id r = fe_operation_id i \<and> er_request_digest r = fe_request_digest i"
| "exact_result i (CopyResult r) \<longleftrightarrow>
     fe_kind i \<in> {CopyImport, CopyExport} \<and> er_operation_id r = fe_operation_id i
     \<and> er_request_digest r = fe_request_digest i"

definition validate_result :: "file_effect_identity \<Rightarrow> 'f stored_result \<Rightarrow> (effect_error, unit) result" where
  "validate_result i r = (if exact_result i r then Ok () else Err (Invalid ''result identity''))"

definition canonical_bytes :: "'f effect_codec \<Rightarrow> 'f stored_result \<Rightarrow> (effect_error, bytes) result" where
  "canonical_bytes k r = ok_or (result_jcs k r) (Invalid ''result is not canonicalizable'')"

fun mark_replayed :: "'f stored_result \<Rightarrow> 'f stored_result" where
  "mark_replayed (WriteResult r) = WriteResult (r\<lparr>er_replayed := True\<rparr>)"
| "mark_replayed (CopyResult r) = CopyResult (r\<lparr>er_replayed := True\<rparr>)"

definition encode_event :: "'f effect_codec \<Rightarrow> 'f effect_event \<Rightarrow> (effect_error, bytes) result" where
  "encode_event k e =
     and_then (ok_or (event_to_json k e) (Invalid ''effect event is not serializable'')) (\<lambda>j.
       Ok (j @ [newline]))"

subsection \<open>Opening\<close>

fun apply_event ::
    "'f effect_codec \<Rightarrow> 'f effect_event \<Rightarrow> (string \<rightharpoonup> 'f effect_record)
      \<Rightarrow> (effect_error, string \<rightharpoonup> 'f effect_record) result" where
  "apply_event k (Intent i) records =
     and_then (effect_validate_identity k i) (\<lambda>_.
       if records (fe_operation_id i) \<noteq> None then Err (Corrupt ''one operation has multiple intents'')
       else Ok (records(fe_operation_id i \<mapsto>
              \<lparr>ef_identity = i, ef_result = None, ef_claim_available = False\<rparr>)))"
| "apply_event k (Complete i r) records =
     and_then (effect_validate_identity k i) (\<lambda>_.
     and_then (validate_result i r) (\<lambda>_.
     and_then (ok_or (records (fe_operation_id i)) (Corrupt ''completion has no durable intent'')) (\<lambda>rec.
       if ef_identity rec \<noteq> i \<or> ef_result rec \<noteq> None
       then Err (Corrupt ''completion conflicts with retained intent'')
       else Ok (records(fe_operation_id i \<mapsto> rec\<lparr>ef_result := Some r\<rparr>)))))"

fun load_events ::
    "'f effect_codec \<Rightarrow> bytes list \<Rightarrow> (string \<rightharpoonup> 'f effect_record)
      \<Rightarrow> (effect_error, string \<rightharpoonup> 'f effect_record) result" where
  "load_events k [] records = Ok records"
| "load_events k (line # lines) records =
     and_then (ok_or (event_from_json k line) (Corrupt ''invalid complete JSON record'')) (\<lambda>e.
     and_then (apply_event k e records) (\<lambda>records. load_events k lines records))"

definition incomplete :: "(string \<rightharpoonup> 'f effect_record) \<Rightarrow> nat" where
  "incomplete records = account (\<lambda>r. if ef_result r = None then 1 else 0) records"

definition effects_open ::
    "'f effect_codec \<Rightarrow> nat \<Rightarrow> nat \<Rightarrow> bool \<Rightarrow> nat \<Rightarrow> bytes \<Rightarrow> (effect_error, 'f file_effect_store) result" where
  "effects_open k max_effects max_bytes cut_ok durable content =
     (if length content > max_bytes then Err Capacity
      else if valid_len content \<noteq> length content \<and> \<not> cut_ok then Err Io
      else and_then (load_events k (log_lines (take (valid_len content) content)) Map.empty) (\<lambda>records.
        if card (dom records) > max_effects then Err Capacity
        else and_then (ok_or (checked_mul (incomplete records) RESULT_RESERVATION_BYTES) Capacity) (\<lambda>reserved.
          if (case checked_add (valid_len content) reserved of None \<Rightarrow> True | Some projected \<Rightarrow> projected > max_bytes)
          then Err Capacity
          else Ok \<lparr>es_records = records,
                   es_writer = \<lparr>lw_content = take (valid_len content) content, lw_bytes = valid_len content,
                                lw_dirty = False, lw_max = max_bytes,
                                lw_durable = if valid_len content \<noteq> length content then valid_len content
                                             else min durable (valid_len content)\<rparr>,
                   es_reserved_result_bytes = reserved, es_max_effects = max_effects\<rparr>)))"

subsection \<open>Operations\<close>

text \<open>\<open>writer\<close>: the writer is handed out only after a pending sync succeeded.\<close>

definition with_writer ::
    "log_io \<Rightarrow> 'f file_effect_store \<Rightarrow> ('f file_effect_store \<Rightarrow> (effect_error, 'a) result \<times> 'f file_effect_store)
      \<Rightarrow> (effect_error, 'a) result \<times> 'f file_effect_store" where
  "with_writer io st f =
     (case sync_if_dirty io (es_writer st) of
        (False, w) \<Rightarrow> (Err Io, st\<lparr>es_writer := w\<rparr>)
      | (True, w) \<Rightarrow> f (st\<lparr>es_writer := w\<rparr>))"

definition append_event ::
    "log_io \<Rightarrow> nat \<Rightarrow> bytes \<Rightarrow> log_writer \<Rightarrow> (effect_error, unit) result \<times> log_writer" where
  "append_event io reserved encoded w =
     (case checked_add (lw_bytes w) (length encoded) of
        None \<Rightarrow> (Err Capacity, w)
      | Some next_bytes \<Rightarrow>
          if (case checked_add next_bytes reserved of None \<Rightarrow> True | Some projected \<Rightarrow> projected > lw_max w)
          then (Err Capacity, w)
          else (case log_write io encoded next_bytes w of
                  (ok, w') \<Rightarrow> (if ok then Ok () else Err Io, w')))"

definition finish_sync ::
    "log_io \<Rightarrow> 'a \<Rightarrow> 'f file_effect_store \<Rightarrow> (effect_error, 'a) result \<times> 'f file_effect_store" where
  "finish_sync io v st =
     (case log_sync (io_sync_after io) (es_writer st) of
        (ok, w) \<Rightarrow> (if ok then Ok v else Err Io, st\<lparr>es_writer := w\<rparr>))"

definition projected_bytes :: "nat \<Rightarrow> nat \<Rightarrow> nat \<Rightarrow> nat option" where
  "projected_bytes bytes reserved len =
     Option.bind (checked_add bytes reserved) (\<lambda>b.
     Option.bind (checked_add b len) (\<lambda>b. checked_add b RESULT_RESERVATION_BYTES))"

definition reserve_new ::
    "'f effect_codec \<Rightarrow> log_io \<Rightarrow> file_effect_identity \<Rightarrow> 'f file_effect_store
      \<Rightarrow> (effect_error, 'f effect_reservation) result \<times> 'f file_effect_store" where
  "reserve_new k io i st =
     (if card (dom (es_records st)) \<ge> es_max_effects st then (Err Capacity, st)
      else (case encode_event k (Intent i) of
              Err e \<Rightarrow> (Err e, st)
            | Ok encoded \<Rightarrow>
                (case projected_bytes (lw_bytes (es_writer st)) (es_reserved_result_bytes st) (length encoded) of
                   None \<Rightarrow> (Err Capacity, st)
                 | Some projected \<Rightarrow>
                     if projected > lw_max (es_writer st) then (Err Capacity, st)
                     else (case append_event io (es_reserved_result_bytes st) encoded (es_writer st) of
                             (Err e, w) \<Rightarrow> (Err e, st\<lparr>es_writer := w\<rparr>)
                           | (Ok _, w) \<Rightarrow>
                               finish_sync io NewEffect (st\<lparr>es_writer := w,
                                 es_reserved_result_bytes := es_reserved_result_bytes st + RESULT_RESERVATION_BYTES,
                                 es_records := (es_records st)(fe_operation_id i \<mapsto>
                                   \<lparr>ef_identity = i, ef_result = None, ef_claim_available = True\<rparr>)\<rparr>)))))"

text \<open>The calls with the writer in hand.\<close>

definition reserve_indexed ::
    "'f effect_codec \<Rightarrow> log_io \<Rightarrow> file_effect_identity \<Rightarrow> 'f file_effect_store
      \<Rightarrow> (effect_error, 'f effect_reservation) result \<times> 'f file_effect_store" where
  "reserve_indexed k io i st =
     (case es_records st (fe_operation_id i) of
        Some rec \<Rightarrow>
          (if ef_identity rec \<noteq> i then Err Conflict
           else (case ef_result rec of
                   Some r \<Rightarrow> Ok (ReplayEffect (mark_replayed r))
                 | None \<Rightarrow> if ef_claim_available rec then Ok NewEffect else Err Ambiguous), st)
      | None \<Rightarrow> reserve_new k io i st)"

definition claim_indexed ::
    "file_effect_identity \<Rightarrow> 'f file_effect_store
      \<Rightarrow> (effect_error, 'f effect_reservation) result \<times> 'f file_effect_store" where
  "claim_indexed i st =
     (case es_records st (fe_operation_id i) of
        None \<Rightarrow> (Err Ambiguous, st)
      | Some rec \<Rightarrow>
          if ef_identity rec \<noteq> i then (Err Conflict, st)
          else (case ef_result rec of
                  Some r \<Rightarrow> (Ok (ReplayEffect (mark_replayed r)), st)
                | None \<Rightarrow>
                    if \<not> ef_claim_available rec then (Err Ambiguous, st)
                    else (Ok NewEffect, st\<lparr>es_records := (es_records st)(fe_operation_id i \<mapsto>
                            rec\<lparr>ef_claim_available := False\<rparr>)\<rparr>)))"

definition reserve_effect ::
    "'f effect_codec \<Rightarrow> log_io \<Rightarrow> 'f file_effect_store \<Rightarrow> file_effect_identity
      \<Rightarrow> (effect_error, 'f effect_reservation) result \<times> 'f file_effect_store" where
  "reserve_effect k io st i =
     (case effect_validate_identity k i of
        Err e \<Rightarrow> (Err e, st)
      | Ok _ \<Rightarrow> with_writer io st (reserve_indexed k io i))"

definition claim_effect ::
    "'f effect_codec \<Rightarrow> log_io \<Rightarrow> 'f file_effect_store \<Rightarrow> file_effect_identity
      \<Rightarrow> (effect_error, 'f effect_reservation) result \<times> 'f file_effect_store" where
  "claim_effect k io st i =
     (case effect_validate_identity k i of
        Err e \<Rightarrow> (Err e, st)
      | Ok _ \<Rightarrow> with_writer io st (claim_indexed i))"

definition complete_new ::
    "'f effect_codec \<Rightarrow> log_io \<Rightarrow> file_effect_identity \<Rightarrow> 'f stored_result \<Rightarrow> 'f effect_record
      \<Rightarrow> 'f file_effect_store \<Rightarrow> (effect_error, 'f stored_result) result \<times> 'f file_effect_store" where
  "complete_new k io i r rec st =
     (case encode_event k (Complete i r) of
        Err e \<Rightarrow> (Err e, st)
      | Ok encoded \<Rightarrow>
          if length encoded > RESULT_RESERVATION_BYTES then (Err Capacity, st)
          else (case checked_sub (es_reserved_result_bytes st) RESULT_RESERVATION_BYTES of
                  None \<Rightarrow> (Err (Corrupt ''completion has no result reservation''), st)
                | Some reserved \<Rightarrow>
                    (case append_event io reserved encoded (es_writer st) of
                       (Err e, w) \<Rightarrow> (Err e, st\<lparr>es_writer := w,
                                        es_reserved_result_bytes := reserved + RESULT_RESERVATION_BYTES\<rparr>)
                     | (Ok _, w) \<Rightarrow>
                         finish_sync io r (st\<lparr>es_writer := w, es_reserved_result_bytes := reserved,
                           es_records := (es_records st)(fe_operation_id i \<mapsto> rec\<lparr>ef_result := Some r\<rparr>)\<rparr>))))"

definition complete_indexed ::
    "'f effect_codec \<Rightarrow> log_io \<Rightarrow> file_effect_identity \<Rightarrow> 'f stored_result \<Rightarrow> 'f file_effect_store
      \<Rightarrow> (effect_error, 'f stored_result) result \<times> 'f file_effect_store" where
  "complete_indexed k io i r st =
     (case es_records st (fe_operation_id i) of
        None \<Rightarrow> (Err Ambiguous, st)
      | Some rec \<Rightarrow>
          if ef_identity rec \<noteq> i then (Err Conflict, st)
          else (case ef_result rec of
                  Some existing \<Rightarrow>
                    (and_then (canonical_bytes k existing) (\<lambda>a.
                     and_then (canonical_bytes k r) (\<lambda>b.
                       if a \<noteq> b then Err Conflict else Ok (mark_replayed existing))), st)
                | None \<Rightarrow>
                    if ef_claim_available rec
                    then (Err (Invalid ''effect completion has no consumed claim''), st)
                    else complete_new k io i r rec st))"

definition complete_effect ::
    "'f effect_codec \<Rightarrow> log_io \<Rightarrow> 'f file_effect_store \<Rightarrow> file_effect_identity \<Rightarrow> 'f stored_result
      \<Rightarrow> (effect_error, 'f stored_result) result \<times> 'f file_effect_store" where
  "complete_effect k io st i r =
     (case and_then (effect_validate_identity k i) (\<lambda>_. validate_result i r) of
        Err e \<Rightarrow> (Err e, st)
      | Ok _ \<Rightarrow> with_writer io st (complete_indexed k io i r))"

subsection \<open>The life of a store\<close>

inductive effect_step :: "'f effect_codec \<Rightarrow> 'f file_effect_store \<Rightarrow> 'f file_effect_store \<Rightarrow> bool" for k where
  reserve_step: "reserve_effect k io st i = (res, st') \<Longrightarrow> effect_step k st st'"
| claim_step: "claim_effect k io st i = (res, st') \<Longrightarrow> effect_step k st st'"
| complete_step: "complete_effect k io st i r = (res', st') \<Longrightarrow> effect_step k st st'"
| power_loss_step: "survives (es_writer st) content
    \<Longrightarrow> effects_open k (es_max_effects st) (lw_max (es_writer st)) cut_ok (length content) content = Ok st'
    \<Longrightarrow> effect_step k st st'"

definition effect_codec_ok :: "'f effect_codec \<Rightarrow> bool" where
  "effect_codec_ok k \<longleftrightarrow>
     (\<forall>e b. event_to_json k e = Some b \<longrightarrow> line_ok b \<and> event_from_json k b = Some e)"

section \<open>Lemmas\<close>

subsection \<open>Loading\<close>

lemma load_events_append:
  "load_events k (ls @ ms) m = and_then (load_events k ls m) (load_events k ms)"
  by (induction ls arbitrary: m) (auto simp: and_then_def split: sum.splits)

text \<open>A record keeps its identity, and its result once it has one.\<close>

definition extends :: "(string \<rightharpoonup> 'f effect_record) \<Rightarrow> (string \<rightharpoonup> 'f effect_record) \<Rightarrow> bool" where
  "extends m m' \<longleftrightarrow> (\<forall>x rec. m x = Some rec \<longrightarrow> (\<exists>rec'. m' x = Some rec' \<and> ef_identity rec' = ef_identity rec
     \<and> (ef_result rec \<noteq> None \<longrightarrow> ef_result rec' = ef_result rec)))"

lemma extends_refl: "extends m m"
  by (auto simp: extends_def)

lemma extends_trans: "extends m m' \<Longrightarrow> extends m' m'' \<Longrightarrow> extends m m''"
  unfolding extends_def by metis

lemma apply_Intent_Ok:
  "apply_event k (Intent i) m = Ok m' \<longleftrightarrow>
     effect_validate_identity k i = Ok () \<and> m (fe_operation_id i) = None
     \<and> m' = m(fe_operation_id i \<mapsto> \<lparr>ef_identity = i, ef_result = None, ef_claim_available = False\<rparr>)"
  by (auto simp: and_then_Ok_iff)

lemma apply_Complete_Ok:
  "apply_event k (Complete i r) m = Ok m' \<longleftrightarrow>
     effect_validate_identity k i = Ok () \<and> validate_result i r = Ok ()
     \<and> (\<exists>rec. m (fe_operation_id i) = Some rec \<and> ef_identity rec = i \<and> ef_result rec = None
              \<and> m' = m(fe_operation_id i \<mapsto> rec\<lparr>ef_result := Some r\<rparr>))"
  by (auto simp: and_then_Ok_iff)

declare apply_event.simps [simp del]

lemma extends_upd:
  "m x = None \<or> m x = Some rec \<and> ef_identity rec' = ef_identity rec \<and> ef_result rec = None
   \<Longrightarrow> extends m (m(x \<mapsto> rec'))"
  unfolding extends_def by force

lemma apply_event_extends: "apply_event k e m = Ok m' \<Longrightarrow> extends m m'"
  by (cases e) (auto simp: apply_Intent_Ok apply_Complete_Ok intro!: extends_upd)

lemma load_events_extends: "load_events k ls m = Ok m' \<Longrightarrow> extends m m'"
proof (induction ls arbitrary: m)
  case (Cons l ls)
  then obtain e m1 where "apply_event k e m = Ok m1" "load_events k ls m1 = Ok m'"
    by (auto simp: and_then_Ok_iff)
  then show ?case using Cons.IH apply_event_extends extends_trans by blast
qed (simp add: extends_refl)

text \<open>What loading makes of records: no claim is available, and identities are valid and in place.\<close>

definition record_ok :: "'f effect_codec \<Rightarrow> string \<Rightarrow> 'f effect_record \<Rightarrow> bool" where
  "record_ok k x rec \<longleftrightarrow> fe_operation_id (ef_identity rec) = x \<and> (ef_claim_available rec \<longrightarrow> ef_result rec = None)"

definition loaded_ok :: "'f effect_codec \<Rightarrow> (string \<rightharpoonup> 'f effect_record) \<Rightarrow> bool" where
  "loaded_ok k m \<longleftrightarrow> finite (dom m) \<and> (\<forall>x rec. m x = Some rec \<longrightarrow> record_ok k x rec \<and> \<not> ef_claim_available rec)"

lemma loaded_upd:
  "loaded_ok k m \<Longrightarrow> record_ok k x rec \<Longrightarrow> \<not> ef_claim_available rec \<Longrightarrow> loaded_ok k (m(x \<mapsto> rec))"
  by (simp add: loaded_ok_def)

lemma apply_event_loaded:
  assumes "apply_event k e m = Ok m'" and "loaded_ok k m"
  shows "loaded_ok k m'"
proof (cases e)
  case (Intent i)
  with assms show ?thesis by (auto simp: apply_Intent_Ok record_ok_def intro!: loaded_upd)
next
  case (Complete i r)
  with assms(1) obtain rec where rec: "m (fe_operation_id i) = Some rec" "ef_identity rec = i"
    and m': "m' = m(fe_operation_id i \<mapsto> rec\<lparr>ef_result := Some r\<rparr>)"
    by (auto simp: apply_Complete_Ok)
  from rec(1) assms(2) have "\<not> ef_claim_available rec" by (simp add: loaded_ok_def)
  with rec(2) m' loaded_upd [OF assms(2)] show ?thesis by (simp add: record_ok_def)
qed

lemma load_events_loaded: "load_events k ls m = Ok m' \<Longrightarrow> loaded_ok k m \<Longrightarrow> loaded_ok k m'"
proof (induction ls arbitrary: m)
  case (Cons l ls)
  then obtain e m1 where "apply_event k e m = Ok m1" "load_events k ls m1 = Ok m'"
    by (auto simp: and_then_Ok_iff)
  then show ?case using Cons.IH Cons.prems(2) apply_event_loaded by blast
qed simp

subsection \<open>The invariant\<close>

definition forget :: "'f effect_record \<Rightarrow> 'f effect_record" where
  "forget rec = rec\<lparr>ef_claim_available := False\<rparr>"

definition logged :: "(string \<rightharpoonup> 'f effect_record) \<Rightarrow> string \<rightharpoonup> 'f effect_record" where
  "logged m = (\<lambda>x. map_option forget (m x))"

lemma logged_simps [simp]:
  "logged Map.empty = Map.empty" "logged (m(x \<mapsto> rec)) = (logged m)(x \<mapsto> forget rec)"
  "logged m x = None \<longleftrightarrow> m x = None" "m x = Some rec \<Longrightarrow> logged m x = Some (forget rec)"
  by (auto simp: logged_def)

lemma forget_simps [simp]:
  "ef_identity (forget rec) = ef_identity rec" "ef_result (forget rec) = ef_result rec"
  "forget (rec\<lparr>ef_claim_available := b\<rparr>) = forget rec"
  "forget (rec\<lparr>ef_result := r\<rparr>) = (forget rec)\<lparr>ef_result := r\<rparr>"
  "forget \<lparr>ef_identity = i, ef_result = r, ef_claim_available = b\<rparr> =
     \<lparr>ef_identity = i, ef_result = r, ef_claim_available = False\<rparr>"
  by (simp_all add: forget_def)

definition effects_ok :: "'f effect_codec \<Rightarrow> 'f file_effect_store \<Rightarrow> bool" where
  "effects_ok k st \<longleftrightarrow> effect_codec_ok k \<and> writer_ok (es_writer st)
     \<and> load_events k (log_lines (lw_text (es_writer st))) Map.empty = Ok (logged (es_records st))
     \<and> finite (dom (es_records st)) \<and> (\<forall>x rec. es_records st x = Some rec \<longrightarrow> record_ok k x rec)
     \<and> es_reserved_result_bytes st = incomplete (es_records st) * RESULT_RESERVATION_BYTES
     \<and> lw_bytes (es_writer st) + es_reserved_result_bytes st \<le> min (lw_max (es_writer st)) U64_MAX"

text \<open>What every call keeps besides: the durable log only grows, and a spent claim stays spent.\<close>

definition grows :: "'f effect_codec \<Rightarrow> 'f file_effect_store \<Rightarrow> 'f file_effect_store \<Rightarrow> bool" where
  "grows k st st' \<longleftrightarrow> effects_ok k st'
     \<and> (\<exists>t. lw_durable_text (es_writer st') = lw_durable_text (es_writer st) @ t)
     \<and> (\<forall>x rec. es_records st x = Some rec \<longrightarrow> \<not> ef_claim_available rec
          \<longrightarrow> (\<exists>rec'. es_records st' x = Some rec' \<and> \<not> ef_claim_available rec'))"

lemma grows_refl: "effects_ok k st \<Longrightarrow> grows k st st"
  by (simp add: grows_def)

lemma grows_trans:
  assumes "grows k st st'" and "grows k st' st''"
  shows "grows k st st''"
proof -
  obtain t u where "lw_durable_text (es_writer st') = lw_durable_text (es_writer st) @ t"
      "lw_durable_text (es_writer st'') = lw_durable_text (es_writer st') @ u"
    using assms by (auto simp: grows_def)
  then have "lw_durable_text (es_writer st'') = lw_durable_text (es_writer st) @ t @ u" by simp
  then show ?thesis using assms unfolding grows_def by meson
qed

lemma with_writer_grows:
  assumes "with_writer io st f = (res, st')" and "effects_ok k st"
  shows "(\<exists>w. st' = st\<lparr>es_writer := w\<rparr> \<and> grows k st st' \<and> res = Err Io)
    \<or> (\<exists>w. grows k st (st\<lparr>es_writer := w\<rparr>) \<and> \<not> lw_dirty w \<and> f (st\<lparr>es_writer := w\<rparr>) = (res, st'))"
proof -
  obtain b w where s: "sync_if_dirty io (es_writer st) = (b, w)" by (rule prod.exhaust)
  have w: "writer_ok (es_writer st)" using assms(2) by (simp add: effects_ok_def)
  note Y = sync_if_dirty_ok [OF s w]
  have "grows k st (st\<lparr>es_writer := w\<rparr>)"
    using assms(2) Y by (auto simp: grows_def effects_ok_def)
  then show ?thesis using assms(1) s Y(5) by (cases b) (auto simp: with_writer_def)
qed

lemma append_event_ok:
  assumes "append_event io reserved enc w = (r, w')" and "writer_ok w" and "complete enc"
  shows "writer_ok w'" "lw_durable_text w' = lw_durable_text w" "lw_max w' = lw_max w"
    "lw_text w' = (if is_ok r then lw_text w @ enc else lw_text w)"
    "lw_bytes w' = (if is_ok r then lw_bytes w + length enc else lw_bytes w)"
    "is_ok r \<Longrightarrow> lw_bytes w + length enc + reserved \<le> min (lw_max w) U64_MAX"
proof -
  have "writer_ok w' \<and> lw_durable_text w' = lw_durable_text w \<and> lw_max w' = lw_max w
      \<and> lw_text w' = (if is_ok r then lw_text w @ enc else lw_text w)
      \<and> lw_bytes w' = (if is_ok r then lw_bytes w + length enc else lw_bytes w)
      \<and> (is_ok r \<longrightarrow> lw_bytes w + length enc + reserved \<le> min (lw_max w) U64_MAX)"
  proof (cases "lw_bytes w + length enc + reserved \<le> min (lw_max w) U64_MAX")
    case True
    obtain b w1 where wr: "log_write io enc (lw_bytes w + length enc) w = (b, w1)" by (rule prod.exhaust)
    have "lw_bytes w + length enc \<le> lw_max w" using True by simp
    note W = log_write_ok [OF wr assms(2,3) this]
    have "w' = w1" "is_ok r = b"
      using assms(1) True wr by (auto simp: append_event_def checked_add_def split: if_splits)
    then show ?thesis using W True by simp
  next
    case False
    then have "w' = w" "\<not> is_ok r"
      using assms(1) by (auto simp: append_event_def checked_add_def split: if_splits)
    then show ?thesis using assms(2) by simp
  qed
  then show "writer_ok w'" "lw_durable_text w' = lw_durable_text w" "lw_max w' = lw_max w"
    "lw_text w' = (if is_ok r then lw_text w @ enc else lw_text w)"
    "lw_bytes w' = (if is_ok r then lw_bytes w + length enc else lw_bytes w)"
    "is_ok r \<Longrightarrow> lw_bytes w + length enc + reserved \<le> min (lw_max w) U64_MAX"
    by blast+
qed

lemma finish_sync_grows:
  assumes "finish_sync io v st = (res, st')" and "effects_ok k st"
  shows "grows k st st'" "is_ok res \<Longrightarrow> \<not> lw_dirty (es_writer st')" "is_ok res \<Longrightarrow> res = Ok v"
    "es_records st' = es_records st"
proof -
  obtain b w where s: "log_sync (io_sync_after io) (es_writer st) = (b, w)" by (rule prod.exhaust)
  have w: "writer_ok (es_writer st)" using assms(2) by (simp add: effects_ok_def)
  note Y = log_sync_ok [OF s w]
  have st': "st' = st\<lparr>es_writer := w\<rparr>" "res = (if b then Ok v else Err Io)"
    using assms(1) s by (auto simp: finish_sync_def)
  show "grows k st st'" using assms(2) Y st' by (auto simp: grows_def effects_ok_def)
  show "is_ok res \<Longrightarrow> \<not> lw_dirty (es_writer st')" using Y(6) st' by (auto split: if_splits)
  show "is_ok res \<Longrightarrow> res = Ok v" using st' by (auto split: if_splits)
  show "es_records st' = es_records st" using st' by simp
qed

text \<open>One event more in the log and in the index.\<close>

lemma logged_event:
  assumes "effects_ok k st" and "encode_event k e = Ok enc"
    and "append_event io reserved enc (es_writer st) = (Ok u, w)"
    and "apply_event k e (logged (es_records st)) = Ok m"
  shows "load_events k (log_lines (lw_text w)) Map.empty = Ok m" "writer_ok w"
    "lw_durable_text w = lw_durable_text (es_writer st)" "lw_max w = lw_max (es_writer st)"
    "lw_bytes w + reserved \<le> min (lw_max w) U64_MAX"
proof -
  have k: "effect_codec_ok k" and w: "writer_ok (es_writer st)"
    and load: "load_events k (log_lines (lw_text (es_writer st))) Map.empty = Ok (logged (es_records st))"
    using assms(1) by (simp_all add: effects_ok_def)
  obtain j where j: "event_to_json k e = Some j" "enc = j @ [newline]"
    using assms(2) by (auto simp: encode_event_def result_iffs)
  have line: "line_ok j" and reads: "event_from_json k j = Some e"
    using k j(1) by (simp_all add: effect_codec_ok_def)
  note A = append_event_ok [OF assms(3) w, unfolded j(2), simplified]
  have "log_lines (lw_text w) = log_lines (lw_text (es_writer st)) @ [j]"
    using A(4) log_lines_append [OF text_complete [OF w]] log_lines_line [OF line] by simp
  then show "load_events k (log_lines (lw_text w)) Map.empty = Ok m"
    using load reads assms(4) by (simp add: load_events_append)
  show "writer_ok w" "lw_durable_text w = lw_durable_text (es_writer st)" "lw_max w = lw_max (es_writer st)"
    "lw_bytes w + reserved \<le> min (lw_max w) U64_MAX"
    using A by simp_all
qed

lemma append_failed_grows:
  assumes "append_event io reserved enc (es_writer st) = (Err e, w)" and "effects_ok k st"
    and "encode_event k ev = Ok enc"
  shows "grows k st (st\<lparr>es_writer := w\<rparr>)"
proof -
  have "complete enc" using assms(3) by (auto simp: encode_event_def result_iffs)
  note A = append_event_ok [OF assms(1) _ this]
  show ?thesis using A assms(2) by (auto simp: grows_def effects_ok_def)
qed

subsection \<open>Calls\<close>

lemma incomplete_new:
  "finite (dom m) \<Longrightarrow> m x = None \<Longrightarrow> ef_result rec = None \<Longrightarrow> incomplete (m(x \<mapsto> rec)) = Suc (incomplete m)"
  by (simp add: incomplete_def account_new)

lemma incomplete_same:
  "finite (dom m) \<Longrightarrow> m x = Some rec \<Longrightarrow> ef_result rec' = ef_result rec \<Longrightarrow> incomplete (m(x \<mapsto> rec')) = incomplete m"
  using account_upd [of m x rec "\<lambda>r. if ef_result r = None then 1 else 0" rec'] by (simp add: incomplete_def)

lemma incomplete_done:
  "finite (dom m) \<Longrightarrow> m x = Some rec \<Longrightarrow> ef_result rec = None \<Longrightarrow> ef_result rec' \<noteq> None
   \<Longrightarrow> Suc (incomplete (m(x \<mapsto> rec'))) = incomplete m"
  using account_upd [of m x rec "\<lambda>r. if ef_result r = None then 1 else 0" rec'] by (simp add: incomplete_def)

lemma projected_bytes_Some:
  "projected_bytes b r n = Some p \<longleftrightarrow> p = b + r + n + RESULT_RESERVATION_BYTES \<and> p \<le> U64_MAX"
  by (auto simp: projected_bytes_def checked_add_def)

lemma reserve_new_grows:
  assumes "reserve_new k io i st = (res, st')" and "effects_ok k st"
    and "effect_validate_identity k i = Ok ()" and "es_records st (fe_operation_id i) = None"
  shows "grows k st st'"
proof (cases "card (dom (es_records st)) \<ge> es_max_effects st \<or> \<not> is_ok (encode_event k (Intent i))")
  case True
  then have "st' = st" using assms(1)
    by (cases "encode_event k (Intent i)") (auto simp: reserve_new_def split: if_splits)
  then show ?thesis using grows_refl assms(2) by blast
next
  case False
  then obtain enc where enc: "encode_event k (Intent i) = Ok enc" by (auto simp: is_ok_iff)
  define p where "p = projected_bytes (lw_bytes (es_writer st)) (es_reserved_result_bytes st) (length enc)"
  obtain a w where ap: "append_event io (es_reserved_result_bytes st) enc (es_writer st) = (a, w)"
    by (rule prod.exhaust)
  consider "st' = st" | e where "a = Err e" "st' = st\<lparr>es_writer := w\<rparr>"
    | projected where "a = Ok ()" "p = Some projected" "projected \<le> lw_max (es_writer st)"
        "finish_sync io NewEffect (st\<lparr>es_writer := w,
           es_reserved_result_bytes := es_reserved_result_bytes st + RESULT_RESERVATION_BYTES,
           es_records := (es_records st)(fe_operation_id i \<mapsto>
             \<lparr>ef_identity = i, ef_result = None, ef_claim_available = True\<rparr>)\<rparr>) = (res, st')"
    using assms(1) False enc ap
    by (cases a) (auto simp: reserve_new_def p_def [symmetric] split: option.splits if_splits)
  then show ?thesis
  proof cases
    case 1
    then show ?thesis using grows_refl assms(2) by blast
  next
    case 2
    then show ?thesis using append_failed_grows [OF _ assms(2) enc] ap by simp
  next
    case (3 projected)
    let ?st1 = "st\<lparr>es_writer := w,
           es_reserved_result_bytes := es_reserved_result_bytes st + RESULT_RESERVATION_BYTES,
           es_records := (es_records st)(fe_operation_id i \<mapsto>
             \<lparr>ef_identity = i, ef_result = None, ef_claim_available = True\<rparr>)\<rparr>"
    have room: "lw_bytes (es_writer st) + es_reserved_result_bytes st + length enc + RESULT_RESERVATION_BYTES
        \<le> min (lw_max (es_writer st)) U64_MAX"
      using 3(2,3) by (auto simp: p_def projected_bytes_Some)
    have "apply_event k (Intent i) (logged (es_records st)) = Ok (logged (es_records ?st1))"
      using assms(3,4) by (simp add: apply_Intent_Ok)
    note L = logged_event [OF assms(2) enc ap [unfolded 3(1)] this]
    have w: "writer_ok (es_writer st)" using assms(2) by (simp add: effects_ok_def)
    have bytes: "lw_bytes w = lw_bytes (es_writer st) + length enc"
      using append_event_ok(5) [OF ap w] 3(1) enc by (auto simp: encode_event_def result_iffs)
    have "effects_ok k ?st1"
      using assms(2,4) L room bytes
      by (simp add: effects_ok_def record_ok_def incomplete_new)
    moreover have "grows k st ?st1" if "effects_ok k ?st1"
      using that L(3) assms(4) by (auto simp: grows_def)
    ultimately show ?thesis using finish_sync_grows(1) [OF 3(4)] grows_trans by blast
  qed
qed

lemma indexed_call_grows:
  assumes "with_writer io st f = (res, st')" and "effects_ok k st"
    and "\<And>st. effects_ok k st \<Longrightarrow> \<not> lw_dirty (es_writer st) \<Longrightarrow> f st = (res, st') \<Longrightarrow> grows k st st'"
  shows "grows k st st'"
proof -
  from with_writer_grows [OF assms(1,2)] show ?thesis
  proof (elim disjE exE conjE)
    fix w assume g: "grows k st (st\<lparr>es_writer := w\<rparr>)" "\<not> lw_dirty w" "f (st\<lparr>es_writer := w\<rparr>) = (res, st')"
    then have "grows k (st\<lparr>es_writer := w\<rparr>) st'"
      by (intro assms(3)) (simp_all add: grows_def)
    with g(1) show ?thesis by (rule grows_trans)
  qed simp
qed

lemma reserve_effect_grows:
  assumes "reserve_effect k io st i = (res, st')" and "effects_ok k st"
  shows "grows k st st'"
proof (cases "effect_validate_identity k i")
  case (Inl e)
  then show ?thesis using assms grows_refl by (auto simp: reserve_effect_def)
next
  case (Inr u)
  then have "with_writer io st (reserve_indexed k io i) = (res, st')"
    using assms(1) by (simp add: reserve_effect_def)
  then show ?thesis using assms(2)
  proof (rule indexed_call_grows)
    fix st assume ok: "effects_ok k st" and f: "reserve_indexed k io i st = (res, st')"
    show "grows k st st'"
    proof (cases "es_records st (fe_operation_id i)")
      case None
      then show ?thesis using f ok Inr by (intro reserve_new_grows) (simp_all add: reserve_indexed_def)
    next
      case (Some rec)
      then show ?thesis using f grows_refl [OF ok] by (simp add: reserve_indexed_def)
    qed
  qed
qed

lemma claim_indexed_grows:
  assumes "claim_indexed i st = (res, st')" and "effects_ok k st"
  shows "grows k st st'"
    "res = Ok NewEffect \<Longrightarrow> \<exists>rec. es_records st' (fe_operation_id i) = Some rec \<and> \<not> ef_claim_available rec"
    "es_writer st' = es_writer st"
proof -
  have "grows k st st' \<and> es_writer st' = es_writer st \<and>
      (res = Ok NewEffect \<longrightarrow> (\<exists>rec. es_records st' (fe_operation_id i) = Some rec \<and> \<not> ef_claim_available rec))"
  proof (cases "\<exists>rec. es_records st (fe_operation_id i) = Some rec \<and> ef_identity rec = i
      \<and> ef_result rec = None \<and> ef_claim_available rec")
    case False
    then have "st' = st" "res \<noteq> Ok NewEffect"
      using assms(1) by (auto simp: claim_indexed_def split: option.splits if_splits)
    then show ?thesis using grows_refl [OF assms(2)] by simp
  next
    case True
    then obtain rec where rec: "es_records st (fe_operation_id i) = Some rec" "ef_identity rec = i"
      "ef_result rec = None" "ef_claim_available rec" by blast
    let ?rec = "rec\<lparr>ef_claim_available := False\<rparr>"
    have st': "st' = st\<lparr>es_records := (es_records st)(fe_operation_id i \<mapsto> ?rec)\<rparr>"
      using assms(1) rec by (simp add: claim_indexed_def)
    have "logged ((es_records st)(fe_operation_id i \<mapsto> ?rec)) = logged (es_records st)"
      using rec(1) by (simp add: fun_upd_idem)
    moreover have "incomplete ((es_records st)(fe_operation_id i \<mapsto> ?rec)) = incomplete (es_records st)"
      using assms(2) incomplete_same [where m = "es_records st" and x = "fe_operation_id i" and rec = rec] rec(1)
      by (simp add: effects_ok_def)
    ultimately have "effects_ok k st'"
      using assms(2) rec st' by (auto simp: effects_ok_def record_ok_def)
    then show ?thesis using st' by (auto simp: grows_def)
  qed
  then show "grows k st st'" "es_writer st' = es_writer st"
    "res = Ok NewEffect \<Longrightarrow> \<exists>rec. es_records st' (fe_operation_id i) = Some rec \<and> \<not> ef_claim_available rec"
    by blast+
qed

lemma claim_effect_grows:
  assumes "claim_effect k io st i = (res, st')" and "effects_ok k st"
  shows "grows k st st'"
proof (cases "effect_validate_identity k i")
  case (Inl e)
  then show ?thesis using assms grows_refl by (auto simp: claim_effect_def)
next
  case (Inr u)
  then have "with_writer io st (claim_indexed i) = (res, st')"
    using assms(1) by (simp add: claim_effect_def)
  then show ?thesis using assms(2) by (rule indexed_call_grows) (rule claim_indexed_grows(1))
qed

lemma complete_new_grows:
  assumes "complete_new k io i r rec st = (res, st')" and "effects_ok k st"
    and v: "effect_validate_identity k i = Ok ()" "validate_result i r = Ok ()"
    and rec: "es_records st (fe_operation_id i) = Some rec" "ef_identity rec = i" "ef_result rec = None"
      "\<not> ef_claim_available rec"
  shows "grows k st st'"
    "is_ok res \<Longrightarrow> \<not> lw_dirty (es_writer st') \<and> res = Ok r
       \<and> es_records st' (fe_operation_id i) = Some (rec\<lparr>ef_result := Some r\<rparr>)"
proof -
  have fin: "finite (dom (es_records st))" and
    reserved: "es_reserved_result_bytes st = incomplete (es_records st) * RESULT_RESERVATION_BYTES"
    using assms(2) by (simp_all add: effects_ok_def)
  let ?records = "(es_records st)(fe_operation_id i \<mapsto> rec\<lparr>ef_result := Some r\<rparr>)"
  have one: "incomplete (es_records st) = Suc (incomplete ?records)"
    using incomplete_done [OF fin rec(1,3), of "rec\<lparr>ef_result := Some r\<rparr>"] by simp
  have sub: "checked_sub (es_reserved_result_bytes st) RESULT_RESERVATION_BYTES =
      Some (incomplete ?records * RESULT_RESERVATION_BYTES)"
    by (simp add: reserved one)
  have "grows k st st' \<and> (is_ok res \<longrightarrow> \<not> lw_dirty (es_writer st') \<and> res = Ok r
      \<and> es_records st' (fe_operation_id i) = Some (rec\<lparr>ef_result := Some r\<rparr>))"
  proof (cases "\<exists>enc. encode_event k (Complete i r) = Ok enc \<and> length enc \<le> RESULT_RESERVATION_BYTES")
    case False
    then have "st' = st" "\<not> is_ok res" using assms(1)
      by (cases "encode_event k (Complete i r)"; auto simp: complete_new_def)+
    then show ?thesis using grows_refl [OF assms(2)] by simp
  next
    case True
    then obtain enc where enc: "encode_event k (Complete i r) = Ok enc" "length enc \<le> RESULT_RESERVATION_BYTES"
      by blast
    obtain a w where ap: "append_event io (incomplete ?records * RESULT_RESERVATION_BYTES) enc (es_writer st) = (a, w)"
      by (rule prod.exhaust)
    show ?thesis
    proof (cases a)
      case (Inl e)
      have eq: "incomplete ?records * RESULT_RESERVATION_BYTES + RESULT_RESERVATION_BYTES = es_reserved_result_bytes st"
        by (simp add: reserved one)
      have "st' = st\<lparr>es_writer := w, es_reserved_result_bytes := es_reserved_result_bytes st\<rparr>" "\<not> is_ok res"
        using assms(1) enc sub ap Inl by (auto simp: complete_new_def eq)
      then have "st' = st\<lparr>es_writer := w\<rparr>" "\<not> is_ok res" by (cases st, simp)+
      then show ?thesis using append_failed_grows [OF _ assms(2) enc(1)] ap Inl by simp
    next
      case (Inr u)
      let ?st1 = "st\<lparr>es_writer := w, es_reserved_result_bytes := incomplete ?records * RESULT_RESERVATION_BYTES,
          es_records := ?records\<rparr>"
      have f: "finish_sync io r ?st1 = (res, st')"
        using assms(1) enc sub ap Inr by (simp add: complete_new_def)
      have "apply_event k (Complete i r) (logged (es_records st)) = Ok (logged (es_records ?st1))"
        using v rec by (simp add: apply_Complete_Ok)
      note L = logged_event [OF assms(2) enc(1) ap [unfolded Inr] this]
      have ok: "effects_ok k ?st1"
        using assms(2) L rec by (auto simp: effects_ok_def record_ok_def)
      then have "grows k st ?st1" using L(3) rec(4) by (auto simp: grows_def)
      with finish_sync_grows [OF f ok] show ?thesis using grows_trans by auto
    qed
  qed
  then show "grows k st st'" "is_ok res \<Longrightarrow> \<not> lw_dirty (es_writer st') \<and> res = Ok r
      \<and> es_records st' (fe_operation_id i) = Some (rec\<lparr>ef_result := Some r\<rparr>)" by blast+
qed

lemma complete_indexed_grows:
  assumes "complete_indexed k io i r st = (res, st')" and "effects_ok k st" and "\<not> lw_dirty (es_writer st)"
    and v: "effect_validate_identity k i = Ok ()" "validate_result i r = Ok ()"
  shows "grows k st st'"
    "res = Ok r' \<Longrightarrow> \<not> lw_dirty (es_writer st') \<and> (\<exists>rec s. es_records st' (fe_operation_id i) = Some rec
       \<and> ef_identity rec = i \<and> ef_result rec = Some s \<and> mark_replayed s = mark_replayed r')"
proof -
  have "grows k st st' \<and> (res = Ok r' \<longrightarrow> \<not> lw_dirty (es_writer st') \<and> (\<exists>rec s. es_records st' (fe_operation_id i) = Some rec
       \<and> ef_identity rec = i \<and> ef_result rec = Some s \<and> mark_replayed s = mark_replayed r'))"
  proof (cases "\<exists>rec. es_records st (fe_operation_id i) = Some rec \<and> ef_identity rec = i
      \<and> ef_result rec = None \<and> \<not> ef_claim_available rec")
    case True
    then obtain rec where rec: "es_records st (fe_operation_id i) = Some rec" "ef_identity rec = i"
      "ef_result rec = None" "\<not> ef_claim_available rec" by blast
    then have "complete_new k io i r rec st = (res, st')" using assms(1) by (simp add: complete_indexed_def)
    from complete_new_grows [OF this assms(2) v rec] rec show ?thesis by (auto simp: is_ok_def)
  next
    case False
    have "mark_replayed (mark_replayed s) = mark_replayed s" for s :: "'a stored_result" by (cases s) simp_all
    with False assms(1) have "st' = st" "res = Ok r' \<longrightarrow> (\<exists>rec s. es_records st (fe_operation_id i) = Some rec
       \<and> ef_identity rec = i \<and> ef_result rec = Some s \<and> mark_replayed s = mark_replayed r')"
      by (auto simp: complete_indexed_def and_then_Ok_iff split: option.splits if_splits)
    then show ?thesis using grows_refl [OF assms(2)] assms(3) by simp
  qed
  then show "grows k st st'" "res = Ok r' \<Longrightarrow> \<not> lw_dirty (es_writer st') \<and> (\<exists>rec s. es_records st' (fe_operation_id i) = Some rec
       \<and> ef_identity rec = i \<and> ef_result rec = Some s \<and> mark_replayed s = mark_replayed r')" by blast+
qed

lemma complete_effect_grows:
  assumes "complete_effect k io st i r = (res, st')" and "effects_ok k st"
  shows "grows k st st'"
proof (cases "and_then (effect_validate_identity k i) (\<lambda>_. validate_result i r)")
  case (Inl e)
  then show ?thesis using assms grows_refl by (auto simp: complete_effect_def)
next
  case (Inr u)
  then have v: "effect_validate_identity k i = Ok ()" "validate_result i r = Ok ()"
    by (auto simp: and_then_Ok_iff)
  have "with_writer io st (complete_indexed k io i r) = (res, st')"
    using assms(1) Inr by (simp add: complete_effect_def)
  then show ?thesis using assms(2)
    by (rule indexed_call_grows) (rule complete_indexed_grows(1) [OF _ _ _ v])
qed

subsection \<open>What a loss of power keeps\<close>

definition durable_map :: "'f effect_codec \<Rightarrow> 'f file_effect_store \<Rightarrow> (string \<rightharpoonup> 'f effect_record) \<Rightarrow> bool" where
  "durable_map k st m \<longleftrightarrow> load_events k (log_lines (lw_durable_text (es_writer st))) Map.empty = Ok m"

lemma durable_loads:
  assumes "effects_ok k st"
  shows "\<exists>m. durable_map k st m \<and> extends m (logged (es_records st))"
proof -
  have w: "writer_ok (es_writer st)" using assms by (simp add: effects_ok_def)
  obtain t where "lw_text (es_writer st) = lw_durable_text (es_writer st) @ t"
    using durable_prefix [OF w] by blast
  then have "log_lines (lw_text (es_writer st)) = log_lines (lw_durable_text (es_writer st)) @ log_lines t"
    using log_lines_append [OF durable_complete [OF w]] by simp
  then obtain m where "durable_map k st m" "load_events k (log_lines t) m = Ok (logged (es_records st))"
    using assms by (auto simp: effects_ok_def durable_map_def load_events_append and_then_Ok_iff)
  then show ?thesis using load_events_extends by blast
qed

lemma durable_grows:
  assumes "writer_ok (es_writer st)" and "effects_ok k st'" and "durable_map k st m"
    and "lw_durable_text (es_writer st') = lw_durable_text (es_writer st) @ t"
  shows "\<exists>m'. durable_map k st' m' \<and> extends m m'"
proof -
  obtain m' where m': "durable_map k st' m'" using durable_loads [OF assms(2)] by blast
  then have "load_events k (log_lines t) m = Ok m'"
    using assms(3,4) log_lines_append [OF durable_complete [OF assms(1)], of t]
    by (simp add: durable_map_def load_events_append)
  with m' show ?thesis using load_events_extends by blast
qed

lemma loaded_logged: "loaded_ok k m \<Longrightarrow> logged m = m"
  by (auto simp: loaded_ok_def logged_def forget_def fun_eq_iff map_option_case split: option.splits)

lemma effects_open_ok:
  assumes "effects_open k me mb cut_ok (length content) content = Ok st'" and "effect_codec_ok k"
  shows "effects_ok k st'" "lw_text (es_writer st') = take (valid_len content) content"
    "\<not> lw_dirty (es_writer st')" "loaded_ok k (es_records st')"
proof -
  from assms(1) obtain records where
    load: "load_events k (log_lines (take (valid_len content) content)) Map.empty = Ok records" and
    fits: "length content \<le> mb" "valid_len content + incomplete records * RESULT_RESERVATION_BYTES \<le> mb"
      "valid_len content + incomplete records * RESULT_RESERVATION_BYTES \<le> U64_MAX" and
    st': "es_records st' = records" "es_reserved_result_bytes st' = incomplete records * RESULT_RESERVATION_BYTES"
      "es_writer st' = \<lparr>lw_content = take (valid_len content) content, lw_bytes = valid_len content,
         lw_dirty = False, lw_max = mb, lw_durable = valid_len content\<rparr>"
    using valid_len_le [of content]
    by (auto simp: effects_open_def and_then_Ok_iff checked_mul_def checked_add_def split: if_splits option.splits)
  have l: "loaded_ok k records" by (rule load_events_loaded [OF load]) (simp add: loaded_ok_def)
  have "writer_ok (es_writer st')"
    using st'(3) fits(2) valid_len_le [of content] valid_part_complete [of content] by (simp add: writer_ok_def)
  then show "effects_ok k st'"
    using assms(2) st' load l fits loaded_logged [OF l]
    by (simp add: effects_ok_def lw_text_def loaded_ok_def)
  show "lw_text (es_writer st') = take (valid_len content) content" "\<not> lw_dirty (es_writer st')"
    "loaded_ok k (es_records st')"
    using st' l by (simp_all add: lw_text_def)
qed

text \<open>
  Two facts no step undoes: the claim of an operation is spent, and an operation has a result.
\<close>

definition effect_spent :: "'f effect_codec \<Rightarrow> string \<Rightarrow> 'f file_effect_store \<Rightarrow> bool" where
  "effect_spent k x st \<longleftrightarrow> (\<exists>m. durable_map k st m \<and> m x \<noteq> None)
     \<and> (\<exists>rec. es_records st x = Some rec \<and> \<not> ef_claim_available rec)"

definition effect_done ::
    "'f effect_codec \<Rightarrow> file_effect_identity \<Rightarrow> 'f stored_result \<Rightarrow> 'f file_effect_store \<Rightarrow> bool" where
  "effect_done k i s st \<longleftrightarrow> (\<exists>m rec. durable_map k st m \<and> m (fe_operation_id i) = Some rec
     \<and> ef_identity rec = i \<and> ef_result rec = Some s)"

lemma grows_keeps:
  assumes "grows k st st'" and "effects_ok k st"
  shows "effect_spent k x st \<Longrightarrow> effect_spent k x st'" "effect_done k i s st \<Longrightarrow> effect_done k i s st'"
proof -
  obtain t where t: "lw_durable_text (es_writer st') = lw_durable_text (es_writer st) @ t"
    and ok: "effects_ok k st'" and w: "writer_ok (es_writer st)"
    using assms by (auto simp: grows_def effects_ok_def)
  have ext: "\<exists>m'. durable_map k st' m' \<and> extends m m'" if "durable_map k st m" for m
    using durable_grows [OF w ok that t] .
  show "effect_spent k x st'" if h: "effect_spent k x st"
  proof -
    from h obtain m rec where m: "durable_map k st m" "m x \<noteq> None"
      and rec: "es_records st x = Some rec" "\<not> ef_claim_available rec"
      by (auto simp: effect_spent_def)
    have "\<exists>m'. durable_map k st' m' \<and> m' x \<noteq> None"
      using ext [OF m(1)] m(2) by (force simp: extends_def)
    then show ?thesis using assms(1) rec by (auto simp: grows_def effect_spent_def)
  qed
  show "effect_done k i s st'" if h: "effect_done k i s st"
  proof -
    from h obtain m rec where m: "durable_map k st m" "m (fe_operation_id i) = Some rec"
      "ef_identity rec = i" "ef_result rec = Some s" by (auto simp: effect_done_def)
    then show ?thesis using ext [OF m(1)] by (force simp: extends_def effect_done_def)
  qed
qed

lemma power_loss_keeps:
  assumes "effects_open k me mb cut_ok (length content) content = Ok st'" and "effects_ok k st"
    and "survives (es_writer st) content"
  shows "effects_ok k st'" "effect_spent k x st \<Longrightarrow> effect_spent k x st'"
    "effect_done k i s st \<Longrightarrow> effect_done k i s st'"
proof -
  have k: "effect_codec_ok k" and w: "writer_ok (es_writer st)" using assms(2) by (simp_all add: effects_ok_def)
  note O = effects_open_ok [OF assms(1) k]
  show ok: "effects_ok k st'" by (rule O(1))
  obtain t where "take (valid_len content) content = lw_durable_text (es_writer st) @ t"
    using survives_valid_part [OF assms(3) w] by blast
  then have t: "lw_durable_text (es_writer st') = lw_durable_text (es_writer st) @ t"
    using clean_durable [of "es_writer st'"] O(1,2,3) by (simp add: effects_ok_def)
  have ext: "\<exists>m'. durable_map k st' m' \<and> extends m m' \<and> extends m' (logged (es_records st'))"
    if "durable_map k st m" for m
    using durable_grows [OF w ok that t] durable_loads [OF ok] by (metis durable_map_def sum.inject(2))
  show "effect_spent k x st'" if h: "effect_spent k x st"
  proof -
    from h obtain m where m: "durable_map k st m" "m x \<noteq> None" by (auto simp: effect_spent_def)
    from ext [OF m(1)] obtain m' where m': "durable_map k st' m'" "extends m m'" "extends m' (logged (es_records st'))"
      by blast
    then have x: "m' x \<noteq> None" using m(2) by (force simp: extends_def)
    then have "logged (es_records st') x \<noteq> None" using m'(3) by (force simp: extends_def)
    then obtain rec where "es_records st' x = Some rec" by auto
    then show ?thesis using m'(1) x O(4) by (auto simp: effect_spent_def loaded_ok_def)
  qed
  show "effect_done k i s st'" if h: "effect_done k i s st"
  proof -
    from h obtain m rec where m: "durable_map k st m" "m (fe_operation_id i) = Some rec"
      "ef_identity rec = i" "ef_result rec = Some s" by (auto simp: effect_done_def)
    then show ?thesis using ext [OF m(1)] by (force simp: extends_def effect_done_def)
  qed
qed

lemma effect_step_keeps:
  assumes "effect_step k st st'" and "effects_ok k st"
  shows "effects_ok k st'" "effect_spent k x st \<Longrightarrow> effect_spent k x st'"
    "effect_done k i s st \<Longrightarrow> effect_done k i s st'"
proof -
  have "grows k st st' \<or> (\<exists>content cut_ok. survives (es_writer st) content
      \<and> effects_open k (es_max_effects st) (lw_max (es_writer st)) cut_ok (length content) content = Ok st')"
    using assms(1)
  proof cases
    case reserve_step
    then show ?thesis using reserve_effect_grows [OF _ assms(2)] by blast
  next
    case claim_step
    then show ?thesis using claim_effect_grows [OF _ assms(2)] by blast
  next
    case complete_step
    then show ?thesis using complete_effect_grows [OF _ assms(2)] by blast
  next
    case power_loss_step
    then show ?thesis by blast
  qed
  then have "effects_ok k st' \<and> (effect_spent k x st \<longrightarrow> effect_spent k x st')
      \<and> (effect_done k i s st \<longrightarrow> effect_done k i s st')"
  proof (elim disjE exE conjE)
    assume g: "grows k st st'"
    then show ?thesis using grows_keeps [OF g assms(2)] by (auto simp: grows_def)
  next
    fix content cut_ok
    assume "survives (es_writer st) content"
      "effects_open k (es_max_effects st) (lw_max (es_writer st)) cut_ok (length content) content = Ok st'"
    then show ?thesis using power_loss_keeps [OF _ assms(2)] by blast
  qed
  then show "effects_ok k st'" "effect_spent k x st \<Longrightarrow> effect_spent k x st'"
    "effect_done k i s st \<Longrightarrow> effect_done k i s st'" by blast+
qed

interpretation spent: durable_facts "effect_step k" "effects_ok k" "effect_spent k x" for k x
  by unfold_locales (use effect_step_keeps in blast)+

interpretation completed: durable_facts "effect_step k" "effects_ok k" "effect_done k i s" for k i s
  by unfold_locales (use effect_step_keeps in blast)+

subsection \<open>Claims and results\<close>

lemma clean_durable_map:
  "effects_ok k st \<Longrightarrow> \<not> lw_dirty (es_writer st) \<Longrightarrow> durable_map k st (logged (es_records st))"
  using clean_durable [of "es_writer st"] by (simp add: effects_ok_def durable_map_def)

lemma claim_new_spent:
  assumes "claim_effect k io st i = (Ok NewEffect, st1)" and "effects_ok k st"
  shows "effect_spent k (fe_operation_id i) st1" "effects_ok k st1"
proof -
  have v: "effect_validate_identity k i = Ok ()" using assms(1)
    by (cases "effect_validate_identity k i") (auto simp: claim_effect_def)
  then have "with_writer io st (claim_indexed i) = (Ok NewEffect, st1)"
    using assms(1) by (simp add: claim_effect_def)
  from with_writer_grows [OF this assms(2)] obtain w where
    g: "grows k st (st\<lparr>es_writer := w\<rparr>)" and clean: "\<not> lw_dirty w"
    and c: "claim_indexed i (st\<lparr>es_writer := w\<rparr>) = (Ok NewEffect, st1)"
    by auto
  have ok: "effects_ok k (st\<lparr>es_writer := w\<rparr>)" using g by (simp add: grows_def)
  note C = claim_indexed_grows [OF c ok]
  show ok1: "effects_ok k st1" using C(1) by (simp add: grows_def)
  have "durable_map k st1 (logged (es_records st1))"
    using clean_durable_map [OF ok1] C(3) clean by simp
  then show "effect_spent k (fe_operation_id i) st1"
    using C(2) by (auto simp: effect_spent_def)
qed

lemma spent_not_new:
  assumes "effect_spent k (fe_operation_id j) st"
  shows "fst (claim_effect k io st j) \<noteq> Ok NewEffect" "fst (reserve_effect k io st j) \<noteq> Ok NewEffect"
  using assms
  by (auto simp: effect_spent_def claim_effect_def reserve_effect_def with_writer_def claim_indexed_def
      reserve_indexed_def split: sum.splits prod.splits bool.splits option.splits)

lemma complete_done:
  assumes "complete_effect k io st i r = (Ok r', st1)" and "effects_ok k st"
  shows "\<exists>s. effect_done k i s st1 \<and> mark_replayed s = mark_replayed r'" "effects_ok k st1"
    "effect_validate_identity k i = Ok ()"
proof -
  show v: "effect_validate_identity k i = Ok ()" using assms(1)
    by (cases "effect_validate_identity k i") (auto simp: complete_effect_def)
  have v': "validate_result i r = Ok ()" using assms(1) v
    by (cases "validate_result i r") (auto simp: complete_effect_def)
  then have "with_writer io st (complete_indexed k io i r) = (Ok r', st1)"
    using assms(1) v by (simp add: complete_effect_def)
  from with_writer_grows [OF this assms(2)] obtain w where
    g: "grows k st (st\<lparr>es_writer := w\<rparr>)" and clean: "\<not> lw_dirty w"
    and c: "complete_indexed k io i r (st\<lparr>es_writer := w\<rparr>) = (Ok r', st1)"
    by auto
  have ok: "effects_ok k (st\<lparr>es_writer := w\<rparr>)" using g by (simp add: grows_def)
  have "\<not> lw_dirty (es_writer (st\<lparr>es_writer := w\<rparr>))" using clean by simp
  note C = complete_indexed_grows [OF c ok this v v']
  show ok1: "effects_ok k st1" using C(1) by (simp add: grows_def)
  from C(2) obtain rec s where d: "\<not> lw_dirty (es_writer st1)" "es_records st1 (fe_operation_id i) = Some rec"
      "ef_identity rec = i" "ef_result rec = Some s" "mark_replayed s = mark_replayed r'" by blast
  then show "\<exists>s. effect_done k i s st1 \<and> mark_replayed s = mark_replayed r'"
    using clean_durable_map [OF ok1 d(1)] by (auto simp: effect_done_def intro!: exI [of _ s])
qed

lemma done_indexed:
  assumes "effect_done k i s st" and "effects_ok k st"
  shows "\<exists>rec. es_records st (fe_operation_id i) = Some rec \<and> ef_identity rec = i \<and> ef_result rec = Some s"
proof -
  obtain m rec where m: "durable_map k st m" "m (fe_operation_id i) = Some rec" "ef_identity rec = i"
    "ef_result rec = Some s" using assms(1) by (auto simp: effect_done_def)
  obtain m' where "durable_map k st m'" "extends m' (logged (es_records st))"
    using durable_loads [OF assms(2)] by blast
  then have "extends m (logged (es_records st))" using m(1) by (simp add: durable_map_def)
  then show ?thesis using m by (force simp: extends_def logged_def)
qed

section \<open>Properties\<close>

text \<open>
  C10. An effect begins at most once: after a claim granted the right to begin the effect of an
  operation, no later claim or reservation of that operation id grants it again, whatever calls
  with whatever outcome of their file operations come between, and however often power is lost
  and the log reopened.
\<close>

theorem effect_begins_at_most_once:
  assumes "effect_codec_ok k" and "effects_open k me mb cut_ok (length content) content = Ok st0"
    and "(effect_step k)\<^sup>*\<^sup>* st0 st" and "claim_effect k io st i = (Ok NewEffect, st1)"
    and "(effect_step k)\<^sup>*\<^sup>* st1 st2" and "fe_operation_id j = fe_operation_id i"
  shows "fst (claim_effect k io' st2 j) \<noteq> Ok NewEffect \<and> fst (reserve_effect k io' st2 j) \<noteq> Ok NewEffect"
proof -
  have "effects_ok k st" using spent.ok_steps [OF assms(3)] effects_open_ok(1) [OF assms(2,1)] by blast
  note C = claim_new_spent [OF assms(4) this]
  have "effect_spent k (fe_operation_id j) st2"
    using spent.fact_forever [OF assms(5) C(2,1)] assms(6) by simp
  from spent_not_new [OF this] show ?thesis by blast
qed

text \<open>
  C16. A result reported as committed is replayed for ever: after any later calls and losses of
  power an exact retry of the reservation, once a pending sync succeeds, is answered with that
  result, marked as replayed.
\<close>

theorem completed_effect_is_replayed:
  assumes "effect_codec_ok k" and "effects_open k me mb cut_ok (length content) content = Ok st0"
    and "(effect_step k)\<^sup>*\<^sup>* st0 st" and "complete_effect k io st i r = (Ok r', st1)"
    and "(effect_step k)\<^sup>*\<^sup>* st1 st2" and "io_sync_before io'"
  shows "fst (reserve_effect k io' st2 i) = Ok (ReplayEffect (mark_replayed r'))"
proof -
  have "effects_ok k st" using spent.ok_steps [OF assms(3)] effects_open_ok(1) [OF assms(2,1)] by blast
  note C = complete_done [OF assms(4) this]
  from C(1) obtain s where s: "effect_done k i s st1" "mark_replayed s = mark_replayed r'" by blast
  have "effects_ok k st2" "effect_done k i s st2"
    using completed.ok_steps [OF assms(5) C(2)] completed.fact_forever [OF assms(5) C(2) s(1)] by blast+
  from done_indexed [OF this(2,1)] show ?thesis
    using C(3) s(2) assms(6)
    by (auto simp: reserve_effect_def with_writer_def sync_if_dirty_def log_sync_def reserve_indexed_def)
qed

text \<open>
  Room for the result was reserved with the intent: in every state a store reaches, an effect
  that was claimed and has no result can be completed with any result of its identity whose
  record is within the reservation, provided the file operations succeed; the log is never full.
\<close>

theorem claimed_effect_can_complete:
  assumes "effect_codec_ok k" and "effects_open k me mb cut_ok (length content) content = Ok st0"
    and "(effect_step k)\<^sup>*\<^sup>* st0 st" and "es_records st (fe_operation_id i) = Some rec"
    and "ef_identity rec = i" "ef_result rec = None" "\<not> ef_claim_available rec"
    and "effect_validate_identity k i = Ok ()" and "validate_result i r = Ok ()"
    and "encode_event k (Complete i r) = Ok encoded" and "length encoded \<le> RESULT_RESERVATION_BYTES"
    and "io_sync_before io" "io_seek io" "io_write io = WriteOk" "io_sync_after io"
  shows "fst (complete_effect k io st i r) = Ok r"
proof -
  have ok: "effects_ok k st" using spent.ok_steps [OF assms(3)] effects_open_ok(1) [OF assms(2,1)] by blast
  obtain w where w: "sync_if_dirty io (es_writer st) = (True, w)" "lw_bytes w = lw_bytes (es_writer st)"
      "lw_max w = lw_max (es_writer st)"
    using assms(12) by (cases "lw_dirty (es_writer st)") (auto simp: sync_if_dirty_def log_sync_def)
  have fin: "finite (dom (es_records st))" using ok by (simp add: effects_ok_def)
  have "1 \<le> incomplete (es_records st)"
    using account_ge [OF fin assms(4), of "\<lambda>r. if ef_result r = None then 1 else 0"] assms(6)
    by (simp add: incomplete_def)
  then have "RESULT_RESERVATION_BYTES \<le> es_reserved_result_bytes st"
    using ok by (simp add: effects_ok_def)
  moreover have "lw_bytes (es_writer st) + es_reserved_result_bytes st \<le> min (lw_max (es_writer st)) U64_MAX"
    using ok by (simp add: effects_ok_def)
  ultimately have
    "lw_bytes (es_writer st) + length encoded + es_reserved_result_bytes st - RESULT_RESERVATION_BYTES \<le> lw_max (es_writer st)"
    "lw_bytes (es_writer st) + length encoded + es_reserved_result_bytes st - RESULT_RESERVATION_BYTES \<le> U64_MAX"
    "lw_bytes (es_writer st) + length encoded \<le> U64_MAX" "RESULT_RESERVATION_BYTES \<le> es_reserved_result_bytes st"
    using assms(11) by linarith+
  then show ?thesis
    using assms(4-) w
    by (simp add: complete_effect_def with_writer_def complete_indexed_def complete_new_def checked_sub_def
        append_event_def checked_add_def log_write_def finish_sync_def log_sync_def)
qed

subsection \<open>A sample store\<close>

definition sample_identity :: file_effect_identity where
  "sample_identity = \<lparr>fe_kind = EWrite, fe_operation_id = ''o'', fe_request_digest = digest_a\<rparr>"

definition sample_result :: "unit stored_result" where
  "sample_result = WriteResult \<lparr>er_operation_id = ''o'', er_request_digest = digest_a, er_replayed = False, er_body = ()\<rparr>"

definition sample_effect_codec :: "unit effect_codec" where
  "sample_effect_codec = \<lparr>parses_identifier = valid_identifier, parses_digest = valid_digest,
     event_to_json = (\<lambda>e. if e = Intent sample_identity then Some ''i''
                          else if e = Complete sample_identity sample_result then Some ''c'' else None),
     event_from_json = (\<lambda>b. if b = ''i'' then Some (Intent sample_identity)
                            else if b = ''c'' then Some (Complete sample_identity sample_result) else None),
     result_jcs = (\<lambda>_. None)\<rparr>"

definition fine_io :: log_io where
  "fine_io = \<lparr>io_sync_before = True, io_seek = True, io_write = WriteOk, io_sync_after = True\<rparr>"

definition sample_effects :: "bytes \<Rightarrow> unit effect_record option \<Rightarrow> nat \<Rightarrow> unit file_effect_store" where
  "sample_effects content rec reserved = \<lparr>es_records = (\<lambda>x. if x = ''o'' then rec else None),
     es_writer = \<lparr>lw_content = content, lw_bytes = length content, lw_dirty = False, lw_max = 40000,
                  lw_durable = length content\<rparr>,
     es_reserved_result_bytes = reserved, es_max_effects = 8\<rparr>"

definition sample_record :: "bool \<Rightarrow> unit stored_result option \<Rightarrow> unit effect_record" where
  "sample_record c r = \<lparr>ef_identity = sample_identity, ef_result = r, ef_claim_available = c\<rparr>"

lemma sample_effect_codec_ok: "effect_codec_ok sample_effect_codec"
  by (simp add: effect_codec_ok_def sample_effect_codec_def line_ok_def)

lemma sample_effects_open:
  "effects_open sample_effect_codec 8 40000 True (length []) [] = Ok (sample_effects [] None 0)"
  by (simp add: effects_open_def valid_len_def log_lines_def incomplete_def checked_mul_def checked_add_def
      U64_MAX_def sample_effects_def)

lemma sample_identity_valid: "effect_validate_identity sample_effect_codec sample_identity = Ok ()"
  by (simp add: effect_validate_identity_def sample_effect_codec_def sample_identity_def valid_identifier_def
      identifier_char_def std_defs)

lemma sample_event: "encode_event sample_effect_codec (Intent sample_identity) = Ok (''i'' @ [newline])"
  "encode_event sample_effect_codec (Complete sample_identity sample_result) = Ok (''c'' @ [newline])"
  by (simp_all add: encode_event_def sample_effect_codec_def)

lemma sample_reserve:
  "reserve_effect sample_effect_codec fine_io (sample_effects [] None 0) sample_identity =
     (Ok NewEffect, sample_effects (''i'' @ [newline]) (Some (sample_record True None)) 32768)"
  by (simp add: reserve_effect_def sample_identity_valid with_writer_def sync_if_dirty_def reserve_indexed_def
      reserve_new_def sample_event sample_effects_def projected_bytes_def checked_add_def U64_MAX_def
      RESULT_RESERVATION_BYTES_def append_event_def log_write_def fine_io_def overwrite_at_def finish_sync_def
      log_sync_def sample_record_def)
    (simp add: sample_identity_def fun_eq_iff)

lemma sample_claim:
  "claim_effect sample_effect_codec fine_io (sample_effects (''i'' @ [newline]) (Some (sample_record True None)) 32768)
     sample_identity =
     (Ok NewEffect, sample_effects (''i'' @ [newline]) (Some (sample_record False None)) 32768)"
  by (simp add: claim_effect_def sample_identity_valid with_writer_def sync_if_dirty_def claim_indexed_def
      sample_effects_def sample_record_def)
    (simp add: sample_identity_def fun_eq_iff)

lemma sample_steps:
  "(effect_step sample_effect_codec)\<^sup>*\<^sup>* (sample_effects [] None 0)
     (sample_effects (''i'' @ [newline]) (Some (sample_record True None)) 32768)"
  by (rule r_into_rtranclp) (rule effect_step.reserve_step [OF sample_reserve])

theorem effect_begins_at_most_once_witness:
  "fst (claim_effect sample_effect_codec fine_io
     (sample_effects (''i'' @ [newline]) (Some (sample_record False None)) 32768) sample_identity) \<noteq> Ok NewEffect"
  using effect_begins_at_most_once [OF sample_effect_codec_ok sample_effects_open sample_steps sample_claim
      rtranclp.rtrancl_refl refl] by blast

lemma sample_result_valid: "validate_result sample_identity sample_result = Ok ()"
  by (simp add: validate_result_def sample_identity_def sample_result_def)

lemma sample_steps_claimed:
  "(effect_step sample_effect_codec)\<^sup>*\<^sup>* (sample_effects [] None 0)
     (sample_effects (''i'' @ [newline]) (Some (sample_record False None)) 32768)"
  using sample_steps effect_step.claim_step [OF sample_claim] by (rule rtranclp.rtrancl_into_rtrancl)

lemma sample_claimed:
  "es_records (sample_effects (''i'' @ [newline]) (Some (sample_record False None)) 32768)
     (fe_operation_id sample_identity) = Some (sample_record False None)"
  "ef_identity (sample_record False None) = sample_identity" "ef_result (sample_record False None) = None"
  "\<not> ef_claim_available (sample_record False None)"
  by (simp_all add: sample_effects_def sample_record_def sample_identity_def)

lemma fine_io_simps: "io_sync_before fine_io" "io_seek fine_io" "io_write fine_io = WriteOk" "io_sync_after fine_io"
  by (simp_all add: fine_io_def)

theorem claimed_effect_can_complete_witness:
  "fst (complete_effect sample_effect_codec fine_io
     (sample_effects (''i'' @ [newline]) (Some (sample_record False None)) 32768) sample_identity sample_result)
     = Ok sample_result"
  using claimed_effect_can_complete [OF sample_effect_codec_ok sample_effects_open sample_steps_claimed
      sample_claimed sample_identity_valid sample_result_valid sample_event(2) _ fine_io_simps]
  by (simp add: RESULT_RESERVATION_BYTES_def)

lemma sample_complete:
  "complete_effect sample_effect_codec fine_io
     (sample_effects (''i'' @ [newline]) (Some (sample_record False None)) 32768) sample_identity sample_result =
   (Ok sample_result, sample_effects (''i'' @ [newline] @ ''c'' @ [newline]) (Some (sample_record False (Some sample_result))) 0)"
  by (simp add: complete_effect_def sample_identity_valid sample_result_valid with_writer_def sync_if_dirty_def
      complete_indexed_def complete_new_def sample_event sample_effects_def checked_sub_def checked_add_def
      U64_MAX_def RESULT_RESERVATION_BYTES_def append_event_def log_write_def fine_io_def overwrite_at_def
      finish_sync_def log_sync_def sample_record_def)
    (simp add: sample_identity_def fun_eq_iff)

theorem completed_effect_is_replayed_witness:
  "fst (reserve_effect sample_effect_codec fine_io
     (sample_effects (''i'' @ [newline] @ ''c'' @ [newline]) (Some (sample_record False (Some sample_result))) 0)
     sample_identity) = Ok (ReplayEffect (mark_replayed sample_result))"
  by (rule completed_effect_is_replayed [OF sample_effect_codec_ok sample_effects_open sample_steps_claimed
      sample_complete rtranclp.rtrancl_refl fine_io_simps(1)])

end
