(* ===== verification/Dynamo_Table.thy ===== *)
theory Dynamo_Table
  imports Materialization
begin

section \<open>Tables, expressions and client programs (\<open>hand-brain-aws/src/dynamo.rs\<close>)\<close>

text \<open>
  The vocabulary of the stores on DynamoDB: attributes, condition and update expressions as the
  code writes them, the errors of the SDK, and a program as a tree of calls with a continuation for
  every reply, so that any number of programs can be interleaved between calls. The service is not
  part of the repository: it is the record \<open>dynamo\<close> of relations, and \<open>dynamo_ok\<close> states the
  documented behaviour that is relied on. A reply that is an error says nothing about the write: it
  may have been applied all the same.
\<close>

subsection \<open>Attributes\<close>

datatype attribute = AttrS string | AttrN string | AttrB bytes

type_synonym db_item = "string \<rightharpoonup> attribute"
type_synonym db_table = "target_key \<rightharpoonup> db_item"

definition attr_s :: "string \<Rightarrow> attribute" where "attr_s v = AttrS v"
definition attr_n :: "nat \<Rightarrow> attribute" where "attr_n v = AttrN (show_nat v)"

fun as_s :: "attribute \<Rightarrow> string option" where
  "as_s (AttrS v) = Some v"
| "as_s _ = None"

fun as_n :: "attribute \<Rightarrow> string option" where
  "as_n (AttrN v) = Some v"
| "as_n _ = None"

fun as_b :: "attribute \<Rightarrow> bytes option" where
  "as_b (AttrB v) = Some v"
| "as_b _ = None"

lemma attr_simps [simp]:
  "as_s (attr_s v) = Some v" "as_n (attr_n n) = Some (show_nat n)"
  "attr_s v = attr_s w \<longleftrightarrow> v = w" "attr_s v \<noteq> attr_n n" "attr_n n \<noteq> attr_s v"
  by (simp_all add: attr_s_def attr_n_def)

subsection \<open>Errors of the SDK\<close>

text \<open>A service error has an optional code and message; every other error only a text.\<close>

datatype sdk_error = ServiceError "string option" "string option" | SdkOther string

definition error_code :: "sdk_error \<Rightarrow> string option" where
  "error_code e = (case e of ServiceError ecode message \<Rightarrow> ecode | SdkOther s \<Rightarrow> None)"

definition conditional_failure :: "sdk_error \<Rightarrow> bool" where
  "conditional_failure e \<longleftrightarrow> error_code e = Some ''ConditionalCheckFailedException''"

definition transaction_cancelled :: "sdk_error \<Rightarrow> bool" where
  "transaction_cancelled e \<longleftrightarrow> error_code e = Some ''TransactionCanceledException''"

definition storage_detail :: "string \<Rightarrow> sdk_error \<Rightarrow> string" where
  "storage_detail operation e =
     operation @ '': '' @
     (case e of
        ServiceError ecode message \<Rightarrow>
          (case ecode of None \<Rightarrow> ''service error'' | Some c \<Rightarrow> c) @ '': '' @
          (case message of None \<Rightarrow> [] | Some m \<Rightarrow> m)
      | SdkOther s \<Rightarrow> s)"

subsection \<open>Expressions\<close>

text \<open>
  The operators that occur in the condition and update expressions of the code, with the
  placeholders filled in. Comparisons are numeric and false on a missing attribute; every number
  the code stores is a \<open>u64\<close>, so decimals and signs do not occur.
\<close>

datatype db_cond =
    NotExists string
  | Equals string attribute
  | AtMost string nat
  | AtLeast string nat
  | MoreThan string nat
  | CAnd db_cond db_cond
  | COr db_cond db_cond

datatype db_action =
    SetTo string attribute
  | SetPlus string nat
  | SetMinus string nat
  | Remove string

text \<open>\<open>SetPlus a v\<close> is \<open>SET a = if_not_exists(a, :zero) + v\<close>, \<open>SetMinus a v\<close> is \<open>SET a = a - v\<close>.\<close>

datatype db_write =
    Put db_item db_cond
  | Update target_key db_cond "db_action list"
  | Delete target_key db_cond

record db_query =
  qy_root_id :: string
  qy_prefix :: string
  qy_limit :: nat
  qy_exclusive_start :: "target_key option"

subsection \<open>Documented meaning of expressions and writes\<close>

definition num_of :: "db_item \<Rightarrow> string \<Rightarrow> nat option" where
  "num_of i a = (case i a of Some (AttrN s) \<Rightarrow> Some (dec_value s) | _ \<Rightarrow> None)"

definition num_test :: "(nat \<Rightarrow> bool) \<Rightarrow> db_item \<Rightarrow> string \<Rightarrow> bool" where
  "num_test P i a = (case num_of i a of None \<Rightarrow> False | Some v \<Rightarrow> P v)"

text \<open>A condition is evaluated on the stored item, an absent item having no attributes.\<close>

primrec cond_holds :: "db_item \<Rightarrow> db_cond \<Rightarrow> bool" where
  "cond_holds i (NotExists a) = (i a = None)"
| "cond_holds i (Equals a v) = (i a = Some v)"
| "cond_holds i (AtMost a v) = num_test (\<lambda>x. x \<le> v) i a"
| "cond_holds i (AtLeast a v) = num_test (\<lambda>x. v \<le> x) i a"
| "cond_holds i (MoreThan a v) = num_test (\<lambda>x. v < x) i a"
| "cond_holds i (CAnd c d) = (cond_holds i c \<and> cond_holds i d)"
| "cond_holds i (COr c d) = (cond_holds i c \<or> cond_holds i d)"

fun apply_action :: "db_action \<Rightarrow> db_item \<Rightarrow> db_item" where
  "apply_action (SetTo a v) i = i(a \<mapsto> v)"
| "apply_action (SetPlus a v) i = i(a \<mapsto> attr_n ((case num_of i a of None \<Rightarrow> 0 | Some x \<Rightarrow> x) + v))"
| "apply_action (SetMinus a v) i = i(a \<mapsto> attr_n ((case num_of i a of None \<Rightarrow> 0 | Some x \<Rightarrow> x) - v))"
| "apply_action (Remove a) i = i(a := None)"

definition apply_actions :: "db_action list \<Rightarrow> db_item \<Rightarrow> db_item" where
  "apply_actions acts i = fold apply_action acts i"

text \<open>The value of one attribute under a list of actions.\<close>

fun action_at :: "string \<Rightarrow> db_action \<Rightarrow> attribute option \<Rightarrow> attribute option" where
  "action_at a (SetTo b v) x = (if a = b then Some v else x)"
| "action_at a (SetPlus b v) x =
     (if a = b then Some (attr_n ((case x of Some (AttrN s) \<Rightarrow> dec_value s | _ \<Rightarrow> 0) + v)) else x)"
| "action_at a (SetMinus b v) x =
     (if a = b then Some (attr_n ((case x of Some (AttrN s) \<Rightarrow> dec_value s | _ \<Rightarrow> 0) - v)) else x)"
| "action_at a (Remove b) x = (if a = b then None else x)"

lemma apply_actions_at: "apply_actions acts i a = fold (action_at a) acts (i a)"
proof (induction acts arbitrary: i)
  case (Cons x acts)
  have "apply_action x i a = action_at a x (i a)"
    by (cases x) (auto simp: num_of_def split: option.split attribute.split)
  then show ?case using Cons by (simp add: apply_actions_def)
qed (simp add: apply_actions_def)

fun action_attr :: "db_action \<Rightarrow> string" where
  "action_attr (SetTo b v) = b"
| "action_attr (SetPlus b v) = b"
| "action_attr (SetMinus b v) = b"
| "action_attr (Remove b) = b"

lemma apply_actions_other: "a \<notin> set (map action_attr acts) \<Longrightarrow> apply_actions acts i a = i a"
  unfolding apply_actions_at
proof (induction acts arbitrary: i)
  case (Cons x acts)
  then show ?case by (cases x) auto
qed simp

definition key_item :: "target_key \<Rightarrow> db_item" where
  "key_item k = [''root_id'' \<mapsto> attr_s (tk_root_id k), ''target_key'' \<mapsto> attr_s (tk_target_key k)]"

definition item_key :: "db_item \<Rightarrow> target_key" where
  "item_key i =
     \<lparr>tk_root_id = (case i ''root_id'' of Some (AttrS v) \<Rightarrow> v | _ \<Rightarrow> []),
      tk_target_key = (case i ''target_key'' of Some (AttrS v) \<Rightarrow> v | _ \<Rightarrow> [])\<rparr>"

fun write_key :: "db_write \<Rightarrow> target_key" where
  "write_key (Put i c) = item_key i"
| "write_key (Update k c acts) = k"
| "write_key (Delete k c) = k"

fun write_cond :: "db_write \<Rightarrow> db_cond" where
  "write_cond (Put i c) = c"
| "write_cond (Update k c acts) = c"
| "write_cond (Delete k c) = c"

definition stored :: "db_table \<Rightarrow> target_key \<Rightarrow> db_item" where
  "stored t k = (case t k of None \<Rightarrow> Map.empty | Some i \<Rightarrow> i)"

fun apply_write :: "db_write \<Rightarrow> db_table \<Rightarrow> db_table" where
  "apply_write (Put i c) t = t(item_key i \<mapsto> i)"
| "apply_write (Update k c acts) t =
     t(k \<mapsto> apply_actions acts (case t k of None \<Rightarrow> key_item k | Some i \<Rightarrow> i))"
| "apply_write (Delete k c) t = t(k := None)"

text \<open>Writes commit together, when all their conditions hold, or not at all.\<close>

definition commits :: "db_table \<Rightarrow> db_write list \<Rightarrow> bool" where
  "commits t ws \<longleftrightarrow> list_all (\<lambda>w. cond_holds (stored t (write_key w)) (write_cond w)) ws"

definition commit :: "db_write list \<Rightarrow> db_table \<Rightarrow> db_table" where
  "commit ws t = fold apply_write ws t"

subsection \<open>The service\<close>

record dynamo =
  dy_get :: "db_table \<Rightarrow> target_key \<Rightarrow> (sdk_error, db_item option) result \<Rightarrow> bool"
  dy_write :: "db_table \<Rightarrow> db_write list \<Rightarrow> sdk_error option \<Rightarrow> db_table \<Rightarrow> bool"
  dy_query :: "db_table \<Rightarrow> db_query \<Rightarrow> (sdk_error, db_item list \<times> db_item option) result \<Rightarrow> bool"

text \<open>
  Strongly consistent reads, conditional writes and all-or-nothing transactions. A single write is
  a transaction of one.
\<close>

definition dynamo_ok :: "dynamo \<Rightarrow> bool" where
  "dynamo_ok dy \<longleftrightarrow>
     (\<forall>t k i. dy_get dy t k (Ok i) \<longrightarrow> i = t k)
     \<and> (\<forall>t ws t'. dy_write dy t ws None t' \<longrightarrow> commits t ws \<and> t' = commit ws t)
     \<and> (\<forall>t ws e t'. dy_write dy t ws (Some e) t' \<longrightarrow> t' = t \<or> commits t ws \<and> t' = commit ws t)"

lemma dynamo_get: "dynamo_ok dy \<Longrightarrow> dy_get dy t k (Ok i) \<Longrightarrow> i = t k"
  by (simp add: dynamo_ok_def)

lemma dynamo_write:
  "dynamo_ok dy \<Longrightarrow> dy_write dy t ws r t' \<Longrightarrow> t' = t \<and> r \<noteq> None \<or> commits t ws \<and> t' = commit ws t"
  by (cases r) (auto simp: dynamo_ok_def)

subsection \<open>Programs\<close>

text \<open>
  The reply to a write is \<open>None\<close> for success or the error; \<open>WriteItem\<close> also hands over the new
  item, for the call that asks for it.
\<close>

datatype 'a db_prog =
    Return 'a
  | GetItem target_key "(sdk_error, db_item option) result \<Rightarrow> 'a db_prog"
  | WriteItem db_write "(sdk_error, db_item option) result \<Rightarrow> 'a db_prog"
  | Transact "db_write list" "(sdk_error, unit) result \<Rightarrow> 'a db_prog"
  | Query db_query "(sdk_error, db_item list \<times> db_item option) result \<Rightarrow> 'a db_prog"

primrec prog_bind :: "'a db_prog \<Rightarrow> ('a \<Rightarrow> 'b db_prog) \<Rightarrow> 'b db_prog" where
  "prog_bind (Return x) f = f x"
| "prog_bind (GetItem k c) f = GetItem k (\<lambda>r. prog_bind (c r) f)"
| "prog_bind (WriteItem w c) f = WriteItem w (\<lambda>r. prog_bind (c r) f)"
| "prog_bind (Transact ws c) f = Transact ws (\<lambda>r. prog_bind (c r) f)"
| "prog_bind (Query q c) f = Query q (\<lambda>r. prog_bind (c r) f)"

text \<open>\<open>p.await?\<close> followed by the rest of the function.\<close>

definition try_then ::
    "('e, 'a) result db_prog \<Rightarrow> ('a \<Rightarrow> ('e, 'b) result db_prog) \<Rightarrow> ('e, 'b) result db_prog" where
  "try_then p f = prog_bind p (\<lambda>r. case r of Err e \<Rightarrow> Return (Err e) | Ok x \<Rightarrow> f x)"

definition try_value :: "('e, 'a) result \<Rightarrow> ('a \<Rightarrow> ('e, 'b) result db_prog) \<Rightarrow> ('e, 'b) result db_prog" where
  "try_value r f = (case r of Err e \<Rightarrow> Return (Err e) | Ok x \<Rightarrow> f x)"

lemma try_simps [simp]:
  "try_then (Return (Err e)) f = Return (Err e)" "try_then (Return (Ok x)) f = f x"
  "try_value (Err e) f = Return (Err e)" "try_value (Ok x) f = f x"
  by (simp_all add: try_then_def try_value_def)

subsection \<open>What a program may write\<close>

text \<open>Every write of the program satisfies \<open>W\<close>, whatever the service replies.\<close>

primrec all_writes :: "(db_write list \<Rightarrow> bool) \<Rightarrow> 'a db_prog \<Rightarrow> bool" where
  "all_writes W (Return x) = True"
| "all_writes W (GetItem k c) = (\<forall>r. all_writes W (c r))"
| "all_writes W (WriteItem w c) = (W [w] \<and> (\<forall>r. all_writes W (c r)))"
| "all_writes W (Transact ws c) = (W ws \<and> (\<forall>r. all_writes W (c r)))"
| "all_writes W (Query q c) = (\<forall>r. all_writes W (c r))"

lemma all_writes_bind:
  "all_writes W p \<Longrightarrow> (\<And>x. all_writes W (f x)) \<Longrightarrow> all_writes W (prog_bind p f)"
  by (induction p) auto

lemma all_writes_try:
  assumes "all_writes W p" and "\<And>x. all_writes W (f x)"
  shows "all_writes W (try_then p f)"
  unfolding try_then_def using assms by (intro all_writes_bind) (auto split: sum.split)

lemma all_writes_try_value:
  "(\<And>x. r = Ok x \<Longrightarrow> all_writes W (f x)) \<Longrightarrow> all_writes W (try_value r f)"
  by (cases r) simp_all

lemma all_writes_map [simp]: "all_writes W (map_db_prog f p) = all_writes W p"
  by (induction p) auto

lemma all_writes_mono: "all_writes W p \<Longrightarrow> (\<And>ws. W ws \<Longrightarrow> V ws) \<Longrightarrow> all_writes V p"
  by (induction p) auto

subsection \<open>Runs of one program\<close>

text \<open>
  One way a program can run: the writes it issued, each with whether the reply was a success, and
  its result. The replies are unconstrained.
\<close>

inductive runs :: "'a db_prog \<Rightarrow> (db_write list \<times> bool) list \<Rightarrow> 'a \<Rightarrow> bool" where
  runs_return: "runs (Return x) [] x"
| runs_get: "runs (c r) tr x \<Longrightarrow> runs (GetItem k c) tr x"
| runs_write: "runs (c r) tr x \<Longrightarrow> runs (WriteItem w c) (([w], is_ok r) # tr) x"
| runs_transact: "runs (c r) tr x \<Longrightarrow> runs (Transact ws c) ((ws, is_ok r) # tr) x"
| runs_query: "runs (c r) tr x \<Longrightarrow> runs (Query q c) tr x"

inductive_simps runs_simps [simp]:
  "runs (Return x) tr y"
  "runs (GetItem k c) tr y"
  "runs (WriteItem w c) tr y"
  "runs (Transact ws c) tr y"
  "runs (Query q c) tr y"

lemma runs_bind:
  assumes "runs (prog_bind p f) tr y"
  shows "\<exists>tr1 x tr2. runs p tr1 x \<and> runs (f x) tr2 y \<and> tr = tr1 @ tr2"
  using assms
proof (induction p arbitrary: tr)
  case (WriteItem w c)
  then obtain r tr' where tr: "tr = ([w], is_ok r) # tr'" and "runs (prog_bind (c r) f) tr' y" by auto
  with WriteItem.IH [of "c r" tr'] obtain tr1 x tr2 where "runs (c r) tr1 x" "runs (f x) tr2 y" "tr' = tr1 @ tr2"
    by auto
  with tr have "runs (WriteItem w c) (([w], is_ok r) # tr1) x" "tr = (([w], is_ok r) # tr1) @ tr2" by auto
  with \<open>runs (f x) tr2 y\<close> show ?case by blast
next
  case (Transact ws c)
  then obtain r tr' where tr: "tr = (ws, is_ok r) # tr'" and "runs (prog_bind (c r) f) tr' y" by auto
  with Transact.IH [of "c r" tr'] obtain tr1 x tr2 where "runs (c r) tr1 x" "runs (f x) tr2 y" "tr' = tr1 @ tr2"
    by auto
  with tr have "runs (Transact ws c) ((ws, is_ok r) # tr1) x" "tr = ((ws, is_ok r) # tr1) @ tr2" by auto
  with \<open>runs (f x) tr2 y\<close> show ?case by blast
next
  case (GetItem k c)
  then obtain r where "runs (prog_bind (c r) f) tr y" by auto
  with GetItem.IH [of "c r" tr] show ?case by auto
next
  case (Query q c)
  then obtain r where "runs (prog_bind (c r) f) tr y" by auto
  with Query.IH [of "c r" tr] show ?case by auto
qed simp

lemma runs_try:
  assumes "runs (try_then p f) tr y"
  obtains e where "y = Err e" "runs p tr (Err e)"
  | tr1 x tr2 where "runs p tr1 (Ok x)" "runs (f x) tr2 y" "tr = tr1 @ tr2"
proof -
  from runs_bind [OF assms [unfolded try_then_def]] obtain tr1 r tr2
    where r: "runs p tr1 r" "runs (case r of Err e \<Rightarrow> Return (Err e) | Ok x \<Rightarrow> f x) tr2 y" "tr = tr1 @ tr2"
    by blast
  then show thesis by (cases r) (auto intro: that)
qed

subsection \<open>Interleaved programs\<close>

record 'r db_world =
  dw_table :: db_table
  dw_clients :: "nat \<rightharpoonup> 'r db_prog"

text \<open>
  A step starts an admissible program as a new client or lets one client make its next call; other
  clients run in between.
\<close>

inductive world_step :: "dynamo \<Rightarrow> ('r db_prog \<Rightarrow> bool) \<Rightarrow> 'r db_world \<Rightarrow> 'r db_world \<Rightarrow> bool"
  for dy admissible where
  step_start: "admissible p \<Longrightarrow> dw_clients w i = None \<Longrightarrow>
    world_step dy admissible w (w\<lparr>dw_clients := (dw_clients w)(i \<mapsto> p)\<rparr>)"
| step_get: "dw_clients w i = Some (GetItem k c) \<Longrightarrow> dy_get dy (dw_table w) k r \<Longrightarrow>
    world_step dy admissible w (w\<lparr>dw_clients := (dw_clients w)(i \<mapsto> c r)\<rparr>)"
| step_write: "dw_clients w i = Some (WriteItem wr c) \<Longrightarrow> dy_write dy (dw_table w) [wr] None t \<Longrightarrow>
    world_step dy admissible w
      (w\<lparr>dw_table := t, dw_clients := (dw_clients w)(i \<mapsto> c (Ok (t (write_key wr))))\<rparr>)"
| step_write_failed: "dw_clients w i = Some (WriteItem wr c) \<Longrightarrow> dy_write dy (dw_table w) [wr] (Some e) t \<Longrightarrow>
    world_step dy admissible w (w\<lparr>dw_table := t, dw_clients := (dw_clients w)(i \<mapsto> c (Err e))\<rparr>)"
| step_transact: "dw_clients w i = Some (Transact ws c) \<Longrightarrow> dy_write dy (dw_table w) ws None t \<Longrightarrow>
    world_step dy admissible w (w\<lparr>dw_table := t, dw_clients := (dw_clients w)(i \<mapsto> c (Ok ()))\<rparr>)"
| step_transact_failed: "dw_clients w i = Some (Transact ws c) \<Longrightarrow> dy_write dy (dw_table w) ws (Some e) t \<Longrightarrow>
    world_step dy admissible w (w\<lparr>dw_table := t, dw_clients := (dw_clients w)(i \<mapsto> c (Err e))\<rparr>)"
| step_query: "dw_clients w i = Some (Query q c) \<Longrightarrow> dy_query dy (dw_table w) q r \<Longrightarrow>
    world_step dy admissible w (w\<lparr>dw_clients := (dw_clients w)(i \<mapsto> c r)\<rparr>)"
| step_leave: "world_step dy admissible w (w\<lparr>dw_clients := (dw_clients w)(i := None)\<rparr>)"

text \<open>\<open>step_leave\<close> is a client that returned, was cancelled, or crashed between two calls.\<close>

definition clients_ok :: "(db_write list \<Rightarrow> bool) \<Rightarrow> 'r db_world \<Rightarrow> bool" where
  "clients_ok W w \<longleftrightarrow> (\<forall>i p. dw_clients w i = Some p \<longrightarrow> all_writes W p)"

lemma clients_ok_upd:
  "clients_ok W w \<Longrightarrow> all_writes W p \<Longrightarrow> clients_ok W (w\<lparr>dw_clients := (dw_clients w)(i \<mapsto> p)\<rparr>)"
  by (simp add: clients_ok_def)

lemma world_step_ok:
  assumes "world_step dy admissible w w'" and "dynamo_ok dy" and "clients_ok W w"
    and "\<And>p. admissible p \<Longrightarrow> all_writes W p"
  shows "clients_ok W w' \<and> (dw_table w' = dw_table w \<or>
    (\<exists>ws. W ws \<and> commits (dw_table w) ws \<and> dw_table w' = commit ws (dw_table w)))"
proof -
  have ok: "all_writes W p" if "dw_clients w i = Some p" for i p
    using assms(3) that by (simp add: clients_ok_def)
  from assms(1) show ?thesis
  proof cases
    case (step_start p i)
    then show ?thesis using assms(3,4) by (auto simp: clients_ok_def)
  next
    case (step_get i k c r)
    then show ?thesis using ok [OF step_get(2)] assms(3) by (auto simp: clients_ok_def)
  next
    case (step_write i wr c t)
    then show ?thesis using ok [OF step_write(2)] assms(3) dynamo_write [OF assms(2) step_write(3)]
      by (auto simp: clients_ok_def)
  next
    case (step_write_failed i wr c e t)
    then show ?thesis using ok [OF step_write_failed(2)] assms(3) dynamo_write [OF assms(2) step_write_failed(3)]
      by (auto simp: clients_ok_def)
  next
    case (step_transact i ws c t)
    then show ?thesis using ok [OF step_transact(2)] assms(3) dynamo_write [OF assms(2) step_transact(3)]
      by (auto simp: clients_ok_def)
  next
    case (step_transact_failed i ws c e t)
    then show ?thesis using ok [OF step_transact_failed(2)] assms(3)
        dynamo_write [OF assms(2) step_transact_failed(3)]
      by (auto simp: clients_ok_def)
  next
    case (step_query i q c r)
    then show ?thesis using ok [OF step_query(2)] assms(3) by (auto simp: clients_ok_def)
  next
    case (step_leave i)
    then show ?thesis using assms(3) by (auto simp: clients_ok_def)
  qed
qed

text \<open>
  The contract of the stores: every write of every admissible program keeps an invariant of the
  table. Then every interleaving of any number of programs keeps it, whatever errors the service
  reports and wherever clients stop.
\<close>

locale db_store =
  fixes admissible :: "'r db_prog \<Rightarrow> bool" and W :: "db_write list \<Rightarrow> bool" and I :: "db_table \<Rightarrow> bool"
  assumes admissible_writes: "admissible p \<Longrightarrow> all_writes W p"
    and write_keeps: "W ws \<Longrightarrow> I t \<Longrightarrow> commits t ws \<Longrightarrow> I (commit ws t)"
begin

lemma step_keeps:
  assumes "world_step dy admissible w w'" and "dynamo_ok dy" and "clients_ok W w" and "I (dw_table w)"
  shows "clients_ok W w' \<and> I (dw_table w')"
  using world_step_ok [OF assms(1,2,3) admissible_writes] assms(4) write_keeps by metis

lemma reachable_keeps:
  assumes "(world_step dy admissible)\<^sup>*\<^sup>* w w'" and "dynamo_ok dy" and "clients_ok W w" and "I (dw_table w)"
  shows "clients_ok W w' \<and> I (dw_table w')"
  using assms(1)
proof (induction rule: rtranclp_induct)
  case (step y z)
  then show ?case using step_keeps [OF step.hyps(2) assms(2)] by blast
qed (use assms(3,4) in simp)

end

end
