(* ===== verification/Dynamo_Registry.thy ===== *)
theory Dynamo_Registry
  imports Dynamo_Table Memory_Registry
begin

section \<open>The DynamoDB target registry (\<open>hand-brain-aws/src/registry.rs\<close>)\<close>

text \<open>
  The provider of the registry ports on AWS. Every operation is a program over one table: target
  rows under their keys and one capacity row with the reserved memory of the plane. A target row
  and the capacity row change together, in transactions. The builders of the SDK fail only when a
  required field is missing, which the code always sets, so their errors are not modelled.
\<close>

subsection \<open>Rows\<close>

definition MATERIALIZING :: string where "MATERIALIZING = ''materializing''"
definition INSTALLED :: string where "INSTALLED = ''installed''"
definition CLOSED :: string where "CLOSED = ''closed''"
definition TARGET_KEY_PREFIX :: string where "TARGET_KEY_PREFIX = ''target:''"

definition capacity_key :: target_key where
  "capacity_key = \<lparr>tk_root_id = ''plane'', tk_target_key = ''capacity:materialized_mib''\<rparr>"

fun disposition_value :: "disposition \<Rightarrow> string" where
  "disposition_value Lost = ''lost''"
| "disposition_value Terminated = ''terminated''"

fun connector_value :: "connector_class \<Rightarrow> string" where
  "connector_value ConnNone = ''none''"
| "connector_value ConnPublic = ''public''"
| "connector_value ConnAllowlist = ''allowlist''"

definition materializing_item :: "materialization_lease \<Rightarrow> nat \<Rightarrow> db_item" where
  "materializing_item l now =
     map_of
     [(''root_id'', attr_s (tk_root_id (ml_key l))),
      (''target_key'', attr_s (tk_target_key (ml_key l))),
      (''state'', attr_s MATERIALIZING),
      (''spec_digest'', attr_s (ml_spec_digest l)),
      (''connector'', attr_s (connector_value (ts_connector (ml_spec l)))),
      (''image_identity'', attr_s (ts_image_identity (ml_spec l))),
      (''resource_class'', attr_s (ts_resource_class (ml_spec l))),
      (''materialized_mib'', attr_n (ts_materialized_mib (ml_spec l))),
      (''resource_policy_digest'', attr_s (ts_resource_policy_digest (ml_spec l))),
      (''network_policy_digest'', attr_s (ts_network_policy_digest (ml_spec l))),
      (''reservation_id'', attr_s (ml_reservation_id l)),
      (''generation'', attr_s (ml_generation l)),
      (''launch_request'', AttrB (lr_expose (ml_launch_request l))),
      (''attempt_id'', attr_s (ml_attempt_id l)),
      (''attempt_expires_at_ms'', attr_n (ml_attempt_expires_at_ms l)),
      (''expires_at_ms'', attr_n (ml_target_expires_at_ms l)),
      (''lease_expires_at_ms'', attr_n (ml_lease_expires_at_ms l)),
      (''updated_at_ms'', attr_n now)]"

definition item_string :: "db_item \<Rightarrow> string \<Rightarrow> (materialization_error, string) result" where
  "item_string i name = ok_or (Option.bind (i name) as_s) (MCorrupt (''missing string '' @ name))"

definition item_number :: "db_item \<Rightarrow> string \<Rightarrow> (materialization_error, nat) result" where
  "item_number i name =
     ok_or (Option.bind (Option.bind (i name) as_n) (parse_uint U64_MAX))
       (MCorrupt (''missing numeric '' @ name))"

text \<open>A binary attribute that has to be UTF-8.\<close>

definition item_text :: "db_item \<Rightarrow> string \<Rightarrow> (materialization_error, string) result" where
  "item_text i name =
     ok_or (Option.bind (Option.bind (i name) as_b) (\<lambda>b. if utf8_valid b then Some b else None))
       (MCorrupt (''missing binary '' @ name))"

definition parse_connector :: "string \<Rightarrow> (materialization_error, connector_class) result" where
  "parse_connector v =
     (if v = ''none'' then Ok ConnNone else if v = ''public'' then Ok ConnPublic
      else if v = ''allowlist'' then Ok ConnAllowlist
      else Err (MCorrupt (''unknown connector '' @ v)))"

definition parse_spec :: "db_item \<Rightarrow> (materialization_error, target_spec) result" where
  "parse_spec i =
     and_then (and_then (item_string i ''connector'') parse_connector) (\<lambda>connector.
     and_then (item_string i ''image_identity'') (\<lambda>img.
     and_then (item_string i ''resource_class'') (\<lambda>rclass.
     and_then (item_number i ''materialized_mib'') (\<lambda>mib.
     and_then (item_string i ''resource_policy_digest'') (\<lambda>rdigest.
     and_then (item_string i ''network_policy_digest'') (\<lambda>ndigest.
       spec_new connector img rclass mib rdigest ndigest))))))"

definition parse_materializing :: "db_item \<Rightarrow> (materialization_error, durable_target_state) result" where
  "parse_materializing i =
     and_then (item_string i ''reservation_id'') (\<lambda>rid.
     and_then (and_then (item_text i ''launch_request'')
                 (\<lambda>v. map_err from_secret_error (launch_request_new v))) (\<lambda>lr.
     and_then (item_string i ''attempt_id'') (\<lambda>aid.
     and_then (item_number i ''attempt_expires_at_ms'') (\<lambda>aexp.
     and_then (item_number i ''expires_at_ms'') (\<lambda>texp.
     and_then (item_number i ''lease_expires_at_ms'') (\<lambda>lexp.
       Ok (Materializing rid lr aid aexp texp lexp)))))))"

definition parse_installed :: "db_item \<Rightarrow> (materialization_error, durable_target_state) result" where
  "parse_installed i =
     and_then (item_string i ''target_ref'') (\<lambda>tref.
     and_then (and_then (item_text i ''control_token'')
                 (\<lambda>v. map_err from_secret_error (control_token_new v))) (\<lambda>ct.
     and_then (item_number i ''installed_at_ms'') (\<lambda>iat.
     and_then (item_number i ''expires_at_ms'') (\<lambda>ex.
       Ok (Installed tref ct iat ex)))))"

definition parse_disposition :: "string \<Rightarrow> (materialization_error, disposition) result" where
  "parse_disposition v =
     (if v = ''lost'' then Ok Lost else if v = ''terminated'' then Ok Terminated
      else Err (MCorrupt (''unknown disposition '' @ v)))"

definition parse_closed :: "db_item \<Rightarrow> (materialization_error, durable_target_state) result" where
  "parse_closed i =
     and_then (and_then (item_string i ''disposition'') parse_disposition) (\<lambda>d.
     and_then (item_string i ''reason'') (\<lambda>reason.
     and_then (item_number i ''at_ms'') (\<lambda>at. Ok (Closed d reason at))))"

definition parse_state :: "db_item \<Rightarrow> string \<Rightarrow> (materialization_error, durable_target_state) result" where
  "parse_state i st =
     (if st = MATERIALIZING then parse_materializing i
      else if st = INSTALLED then parse_installed i
      else if st = CLOSED then parse_closed i
      else Err (MCorrupt (''unknown state '' @ st)))"

definition parse_record ::
    "spec_digest_fn \<Rightarrow> db_item \<Rightarrow> (materialization_error, durable_target_record) result" where
  "parse_record dg i =
     and_then (item_string i ''root_id'') (\<lambda>root.
     and_then (item_string i ''target_key'') (\<lambda>tkey.
     and_then (parse_spec i) (\<lambda>spec.
     and_then (item_string i ''spec_digest'') (\<lambda>digest.
     and_then (item_string i ''generation'') (\<lambda>gen.
     and_then (and_then (item_string i ''state'') (parse_state i)) (\<lambda>st.
     and_then (item_number i ''updated_at_ms'') (\<lambda>updated.
       (let r = \<lparr>dr_key = \<lparr>tk_root_id = root, tk_target_key = tkey\<rparr>, dr_spec = spec,
                 dr_spec_digest = digest, dr_generation = gen, dr_state = st,
                 dr_updated_at_ms = updated\<rparr>
        in and_then (record_validate dg r) (\<lambda>_. Ok r)))))))))"

subsection \<open>Capacity\<close>

definition plane_scope :: string where "plane_scope = ''plane_materialized_memory_mib''"

definition plane_capacity_error :: "nat \<Rightarrow> nat \<Rightarrow> nat \<Rightarrow> materialization_error option" where
  "plane_capacity_error reserved requested max_mib =
     (let available = saturating_sub max_mib reserved
      in if requested > available
         then Some (MCapacity plane_scope 1000
                (show_nat requested @ '' MiB target exceeds remaining plane allocation of ''
                  @ show_nat available @ '' MiB''))
         else None)"

definition capacity_add_update :: "nat \<Rightarrow> nat \<Rightarrow> nat \<Rightarrow> (materialization_error, db_write) result" where
  "capacity_add_update mib max_mib now =
     and_then (ok_or (checked_sub max_mib mib)
                (MCapacity plane_scope 1000
                  (show_nat mib @ '' MiB target exceeds the '' @ show_nat max_mib
                    @ '' MiB plane allocation''))) (\<lambda>remaining.
       Ok (Update capacity_key
             (COr (NotExists ''reserved_mib'') (AtMost ''reserved_mib'' remaining))
             [SetPlus ''reserved_mib'' mib, SetTo ''updated_at_ms'' (attr_n now)]))"

definition capacity_subtract_update :: "nat \<Rightarrow> nat \<Rightarrow> db_write" where
  "capacity_subtract_update mib now =
     Update capacity_key (AtLeast ''reserved_mib'' mib)
       [SetMinus ''reserved_mib'' mib, SetTo ''updated_at_ms'' (attr_n now)]"

subsection \<open>Reads and results\<close>

definition storage_error :: "string \<Rightarrow> sdk_error \<Rightarrow> materialization_error" where
  "storage_error operation e = MStorage (storage_detail operation e)"

definition conditional_result ::
    "string \<Rightarrow> (sdk_error, 'a) result \<Rightarrow> (materialization_error, bool) result" where
  "conditional_result operation r =
     (case r of Ok _ \<Rightarrow> Ok True
      | Err e \<Rightarrow> if conditional_failure e then Ok False else Err (storage_error operation e))"

definition transaction_result ::
    "string \<Rightarrow> (sdk_error, 'a) result \<Rightarrow> (materialization_error, bool) result" where
  "transaction_result operation r =
     (case r of Ok _ \<Rightarrow> Ok True
      | Err e \<Rightarrow> if transaction_cancelled e then Ok False else Err (storage_error operation e))"

definition dynamo_read ::
    "spec_digest_fn \<Rightarrow> target_key
      \<Rightarrow> (materialization_error, durable_target_record option) result db_prog" where
  "dynamo_read dg k =
     GetItem k (\<lambda>r. Return
       (and_then (map_err (storage_error ''get target'') r) (\<lambda>item.
          case item of None \<Rightarrow> Ok None
          | Some i \<Rightarrow> and_then (parse_record dg i) (\<lambda>rec. Ok (Some rec)))))"

definition reserved_capacity :: "(materialization_error, nat) result db_prog" where
  "reserved_capacity =
     GetItem capacity_key (\<lambda>r. Return
       (and_then (map_err (storage_error ''get materialization capacity'') r) (\<lambda>item.
          case item of None \<Rightarrow> Ok 0
          | Some i \<Rightarrow>
              ok_or (Option.bind (Option.bind (i ''reserved_mib'') as_n) (parse_uint U64_MAX))
                (MCorrupt ''capacity row has no valid reserved_mib''))))"

definition materializing_reservation ::
    "durable_target_record \<Rightarrow> (materialization_error, string) result" where
  "materializing_reservation r =
     (case dr_state r of Materializing rid lr aid aexp texp lexp \<Rightarrow> Ok rid
      | _ \<Rightarrow> Err (MCorrupt ''expected materializing target''))"

subsection \<open>Replacing a row\<close>

text \<open>The update expression that makes a row the reservation of a lease.\<close>

definition lease_actions :: "materialization_lease \<Rightarrow> nat \<Rightarrow> db_action list" where
  "lease_actions l now =
     [SetTo ''state'' (attr_s MATERIALIZING),
      SetTo ''reservation_id'' (attr_s (ml_reservation_id l)),
      SetTo ''generation'' (attr_s (ml_generation l)),
      SetTo ''lease_expires_at_ms'' (attr_n (ml_lease_expires_at_ms l)),
      SetTo ''expires_at_ms'' (attr_n (ml_target_expires_at_ms l)),
      SetTo ''launch_request'' (AttrB (lr_expose (ml_launch_request l))),
      SetTo ''attempt_id'' (attr_s (ml_attempt_id l)),
      SetTo ''attempt_expires_at_ms'' (attr_n (ml_attempt_expires_at_ms l)),
      SetTo ''updated_at_ms'' (attr_n now),
      Remove ''target_ref'', Remove ''control_token'', Remove ''installed_at_ms'', Remove ''reason'',
      Remove ''disposition'', Remove ''at_ms'', Remove ''expires_at_s'']"

definition replace_expired_write ::
    "string \<Rightarrow> acquire_target \<Rightarrow> materialization_lease \<Rightarrow> db_write" where
  "replace_expired_write old q l =
     Update (aq_key q)
       (CAnd (Equals ''state'' (attr_s MATERIALIZING))
       (CAnd (Equals ''reservation_id'' (attr_s old))
       (CAnd (AtMost ''lease_expires_at_ms'' (aq_now_ms q))
             (Equals ''spec_digest'' (attr_s (ml_spec_digest l))))))
       (lease_actions l (aq_now_ms q))"

definition replace_expired_materialization ::
    "durable_target_record \<Rightarrow> acquire_target \<Rightarrow> materialization_lease
      \<Rightarrow> (materialization_error, bool) result db_prog" where
  "replace_expired_materialization current q l =
     try_value (materializing_reservation current) (\<lambda>old.
       WriteItem (replace_expired_write old q l)
         (\<lambda>r. Return (conditional_result ''replace expired materialization'' r)))"

definition take_attempt_write ::
    "durable_target_record \<Rightarrow> string \<Rightarrow> string \<Rightarrow> acquire_target \<Rightarrow> nat \<Rightarrow> db_write" where
  "take_attempt_write current rid aid q aexp =
     Update (aq_key q)
       (CAnd (Equals ''state'' (attr_s MATERIALIZING))
       (CAnd (Equals ''reservation_id'' (attr_s rid))
       (CAnd (Equals ''generation'' (attr_s (dr_generation current)))
       (CAnd (Equals ''attempt_id'' (attr_s aid))
       (CAnd (AtMost ''attempt_expires_at_ms'' (aq_now_ms q))
       (CAnd (MoreThan ''lease_expires_at_ms'' (aq_now_ms q))
       (CAnd (MoreThan ''expires_at_ms'' (aq_now_ms q))
             (Equals ''spec_digest'' (attr_s (dr_spec_digest current))))))))))
       [SetTo ''attempt_id'' (attr_s (aq_attempt_id q)),
        SetTo ''attempt_expires_at_ms'' (attr_n aexp),
        SetTo ''updated_at_ms'' (attr_n (aq_now_ms q))]"

definition take_expired_attempt ::
    "durable_target_record \<Rightarrow> acquire_target
      \<Rightarrow> (materialization_error, materialization_lease option) result db_prog" where
  "take_expired_attempt current q =
     (case dr_state current of
        Materializing rid lr aid aexp0 texp lexp \<Rightarrow>
          try_value (ok_or (checked_add (aq_now_ms q) (aq_attempt_duration_ms q)) MInvalidLease) (\<lambda>e.
            let aexp = min e lexp
            in if aexp \<le> aq_now_ms q then Return (Err MInvalidLease)
               else WriteItem (take_attempt_write current rid aid q aexp) (\<lambda>r. Return
                 (and_then (conditional_result ''take materialization attempt'' r) (\<lambda>taken. Ok
                    (if \<not> taken then None
                     else Some \<lparr>ml_key = dr_key current, ml_spec = dr_spec current,
                       ml_spec_digest = dr_spec_digest current, ml_reservation_id = rid,
                       ml_generation = dr_generation current, ml_launch_request = lr,
                       ml_attempt_id = aq_attempt_id q, ml_attempt_expires_at_ms = aexp,
                       ml_target_expires_at_ms = texp, ml_lease_expires_at_ms = lexp,
                       ml_recovery_attempt = True\<rparr>)))))
      | _ \<Rightarrow> Return (Err (MCorrupt ''expected materializing target'')))"

definition replace_gone_write ::
    "durable_target_record \<Rightarrow> acquire_target \<Rightarrow> materialization_lease \<Rightarrow> db_write" where
  "replace_gone_write current q l =
     Update (aq_key q)
       (CAnd (Equals ''state'' (attr_s CLOSED))
       (CAnd (Equals ''disposition'' (attr_s (disposition_value Lost)))
       (CAnd (Equals ''generation'' (attr_s (dr_generation current)))
             (Equals ''spec_digest'' (attr_s (ml_spec_digest l))))))
       (lease_actions l (aq_now_ms q))"

definition replace_gone_default ::
    "nat \<Rightarrow> durable_target_record \<Rightarrow> acquire_target \<Rightarrow> materialization_lease
      \<Rightarrow> (materialization_error, bool) result db_prog" where
  "replace_gone_default max_mib current q l =
     try_value (capacity_add_update (ts_materialized_mib (ml_spec l)) max_mib (aq_now_ms q)) (\<lambda>capacity.
       Transact [replace_gone_write current q l, capacity]
         (\<lambda>r. Return (transaction_result ''replace gone default'' r)))"

definition purge_terminal ::
    "spec_digest_fn \<Rightarrow> target_key \<Rightarrow> string \<Rightarrow> (materialization_error, unit) result db_prog" where
  "purge_terminal dg k gen =
     WriteItem (Delete k (CAnd (Equals ''generation'' (attr_s gen)) (Equals ''state'' (attr_s CLOSED))))
       (\<lambda>r. case r of
          Ok _ \<Rightarrow> Return (Ok ())
        | Err e \<Rightarrow>
            if conditional_failure e
            then try_then (dynamo_read dg k) (\<lambda>current. Return
                   (case current of None \<Rightarrow> Ok () | Some _ \<Rightarrow> Err (MReservationLost None)))
            else Return (Err (storage_error ''purge terminal target'' e)))"

subsection \<open>Reservations\<close>

text \<open>The capacity check after a transaction that did not commit.\<close>

definition rate_capacity ::
    "nat \<Rightarrow> materialization_lease \<Rightarrow> (materialization_error, 'a) result db_prog
      \<Rightarrow> (materialization_error, 'a) result db_prog" where
  "rate_capacity max_mib l otherwise =
     try_then reserved_capacity (\<lambda>reserved.
       case plane_capacity_error reserved (ts_materialized_mib (ml_spec l)) max_mib of
         Some e \<Rightarrow> Return (Err e) | None \<Rightarrow> otherwise)"

definition unchanged_gone :: "durable_target_record \<Rightarrow> durable_target_record option \<Rightarrow> bool" where
  "unchanged_gone current latest \<longleftrightarrow>
     (case latest of None \<Rightarrow> False
      | Some r \<Rightarrow> dr_generation r = dr_generation current \<and> dr_spec_digest r = dr_spec_digest current
                  \<and> closed_lost (dr_state r))"

text \<open>The branches on the state of the row; \<open>again\<close> is the rest of the bounded loop.\<close>

definition acquire_row ::
    "spec_digest_fn \<Rightarrow> nat \<Rightarrow> acquire_target \<Rightarrow> materialization_lease \<Rightarrow> durable_target_record
      \<Rightarrow> (materialization_error, acquire_outcome) result db_prog
      \<Rightarrow> (materialization_error, acquire_outcome) result db_prog" where
  "acquire_row dg max_mib q l current again =
     (case dr_state current of
        Installed tref ct iat ex \<Rightarrow> Return (Ok (AInstalled (the (installed current))))
      | Materializing rid lr aid aexp texp lexp \<Rightarrow>
          (if lexp \<le> aq_now_ms q
           then try_then (replace_expired_materialization current q l)
                  (\<lambda>replaced. if replaced then Return (Ok (AAcquired l)) else again)
           else if texp \<le> aq_now_ms q
           then Return (Ok (APending (dr_generation current) (materialization_poll_after lexp (aq_now_ms q))))
           else if aexp > aq_now_ms q
           then Return (Ok (APending (dr_generation current) (materialization_poll_after aexp (aq_now_ms q))))
           else try_then (take_expired_attempt current q)
                  (\<lambda>recovered. case recovered of Some l' \<Rightarrow> Return (Ok (AAcquired l')) | None \<Rightarrow> again))
      | Closed Lost reason at \<Rightarrow>
          (if aq_replace_after_loss q
           then try_then (replace_gone_default max_mib current q l) (\<lambda>replaced.
                  if replaced then Return (Ok (AAcquired l))
                  else try_then (dynamo_read dg (aq_key q)) (\<lambda>latest.
                    if unchanged_gone current latest then rate_capacity max_mib l again else again))
           else Return (Ok AGone))
      | Closed Terminated reason at \<Rightarrow> Return (Ok ATerminated))"

primrec acquire_loop ::
    "spec_digest_fn \<Rightarrow> nat \<Rightarrow> acquire_target \<Rightarrow> materialization_lease \<Rightarrow> nat
      \<Rightarrow> (materialization_error, acquire_outcome) result db_prog" where
  "acquire_loop dg max_mib q l 0 =
     Return (Err (MStorage ''target changed during bounded reservation attempts''))"
| "acquire_loop dg max_mib q l (Suc n) =
     try_then (dynamo_read dg (aq_key q)) (\<lambda>row.
       case row of
         None \<Rightarrow> rate_capacity max_mib l (Return (Err (MStorage
             ''target reservation transaction was cancelled despite available capacity'')))
       | Some current \<Rightarrow>
           try_value (record_validate dg current) (\<lambda>_.
             if dr_spec_digest current \<noteq> ml_spec_digest l then Return (Err MSpecConflict)
             else if aq_generation_is_fenced q \<and> dr_generation current \<noteq> ml_generation l
                     \<and> \<not> (aq_replace_after_loss q \<and> closed_lost (dr_state current))
             then Return (Err MSpecConflict)
             else acquire_row dg max_mib q l current (acquire_loop dg max_mib q l n)))"

definition reserve_write :: "materialization_lease \<Rightarrow> nat \<Rightarrow> db_write" where
  "reserve_write l now = Put (materializing_item l now) (NotExists ''root_id'')"

definition dynamo_acquire ::
    "spec_digest_fn \<Rightarrow> nat \<Rightarrow> acquire_target \<Rightarrow> (materialization_error, acquire_outcome) result db_prog" where
  "dynamo_acquire dg max_mib q =
     try_value (acquire_lease dg q) (\<lambda>l.
     try_value (capacity_add_update (ts_materialized_mib (ml_spec l)) max_mib (aq_now_ms q)) (\<lambda>capacity.
       Transact [reserve_write l (aq_now_ms q), capacity] (\<lambda>r.
         case r of
           Ok _ \<Rightarrow> Return (Ok (AAcquired l))
         | Err e \<Rightarrow>
             if \<not> transaction_cancelled e then Return (Err (storage_error ''reserve target'' e))
             else acquire_loop dg max_mib q l 4)))"

definition install_write :: "materialization_lease \<Rightarrow> physical_target \<Rightarrow> nat \<Rightarrow> db_write" where
  "install_write l t now =
     Update (ml_key l)
       (CAnd (Equals ''state'' (attr_s MATERIALIZING))
       (CAnd (Equals ''reservation_id'' (attr_s (ml_reservation_id l)))
       (CAnd (Equals ''generation'' (attr_s (ml_generation l)))
             (Equals ''spec_digest'' (attr_s (ml_spec_digest l))))))
       [SetTo ''state'' (attr_s INSTALLED),
        SetTo ''target_ref'' (attr_s (pt_target_ref t)),
        SetTo ''generation'' (attr_s (pt_generation t)),
        SetTo ''control_token'' (AttrB (ct_expose (pt_control_token t))),
        SetTo ''installed_at_ms'' (attr_n now),
        SetTo ''updated_at_ms'' (attr_n now),
        Remove ''reservation_id'', Remove ''lease_expires_at_ms'', Remove ''reason'',
        Remove ''disposition'', Remove ''at_ms'', Remove ''expires_at_s'', Remove ''launch_request'',
        Remove ''attempt_id'', Remove ''attempt_expires_at_ms'']"

definition exact_install :: "materialization_lease \<Rightarrow> physical_target \<Rightarrow> installed_target \<Rightarrow> bool" where
  "exact_install l t it \<longleftrightarrow>
     it_target_ref it = pt_target_ref t \<and> it_generation it = pt_generation t
     \<and> it_control_token it = pt_control_token t \<and> it_spec_digest it = ml_spec_digest l"

definition dynamo_install ::
    "spec_digest_fn \<Rightarrow> materialization_lease \<Rightarrow> physical_target \<Rightarrow> nat
      \<Rightarrow> (materialization_error, install_outcome) result db_prog" where
  "dynamo_install dg l t now =
     WriteItem (install_write l t now) (\<lambda>r.
       case r of
         Ok attrs \<Rightarrow> Return
           (and_then (ok_or attrs (MCorrupt ''install returned no target record'')) (\<lambda>i.
            and_then (parse_record dg i) (\<lambda>rec.
            and_then (ok_or (installed rec) (MCorrupt ''install returned a non-installed target''))
              (\<lambda>it. Ok (IInstalled it)))))
       | Err e \<Rightarrow>
           if conditional_failure e
           then try_then (dynamo_read dg (ml_key l)) (\<lambda>existing. Return (Ok
                  (case Option.bind existing installed of
                     None \<Rightarrow> IReservationLost
                   | Some it \<Rightarrow> if exact_install l t it then IInstalled it else IReservationLost)))
           else Return (Err (storage_error ''install target'' e)))"

definition release_write :: "materialization_lease \<Rightarrow> db_write" where
  "release_write l =
     Delete (ml_key l)
       (CAnd (Equals ''state'' (attr_s MATERIALIZING))
       (CAnd (Equals ''reservation_id'' (attr_s (ml_reservation_id l)))
       (CAnd (Equals ''generation'' (attr_s (ml_generation l)))
             (Equals ''attempt_id'' (attr_s (ml_attempt_id l))))))"

definition dynamo_expire_lease ::
    "spec_digest_fn \<Rightarrow> materialization_lease \<Rightarrow> nat \<Rightarrow> (materialization_error, unit) result db_prog" where
  "dynamo_expire_lease dg l now =
     Transact [release_write l, capacity_subtract_update (ts_materialized_mib (ml_spec l)) now] (\<lambda>r.
       case r of
         Ok _ \<Rightarrow> Return (Ok ())
       | Err e \<Rightarrow>
           if transaction_cancelled e
           then try_then (dynamo_read dg (ml_key l)) (\<lambda>current. Return
                  (case current of
                     None \<Rightarrow> Ok ()
                   | Some rec \<Rightarrow>
                       if \<not> holds_attempt rec l then Ok ()
                       else Err (MStorage ''exact materialization lease could not refund capacity'')))
           else Return (Err (storage_error ''expire target lease'' e)))"

subsection \<open>The directory\<close>

definition dynamo_get ::
    "spec_digest_fn \<Rightarrow> target_key
      \<Rightarrow> (materialization_error, durable_target_record option) result db_prog" where
  "dynamo_get dg k = try_value (key_validate k) (\<lambda>_. dynamo_read dg k)"

definition close_write :: "installed_target \<Rightarrow> disposition \<Rightarrow> string \<Rightarrow> nat \<Rightarrow> db_write" where
  "close_write t d reason now =
     Update (it_key t)
       (CAnd (Equals ''state'' (attr_s INSTALLED))
       (CAnd (Equals ''target_ref'' (attr_s (it_target_ref t)))
       (CAnd (Equals ''generation'' (attr_s (it_generation t)))
             (Equals ''spec_digest'' (attr_s (it_spec_digest t))))))
       [SetTo ''state'' (attr_s CLOSED),
        SetTo ''disposition'' (attr_s (disposition_value d)),
        SetTo ''reason'' (attr_s reason),
        SetTo ''at_ms'' (attr_n now),
        SetTo ''updated_at_ms'' (attr_n now),
        Remove ''target_ref'', Remove ''control_token'', Remove ''installed_at_ms'',
        Remove ''expires_at_ms'', Remove ''expires_at_s'']"

definition closed_as :: "installed_target \<Rightarrow> disposition \<Rightarrow> durable_target_record option \<Rightarrow> bool" where
  "closed_as t d current \<longleftrightarrow>
     (case current of None \<Rightarrow> False
      | Some r \<Rightarrow> dr_generation r = it_generation t
                  \<and> (case dr_state r of Closed old reason at \<Rightarrow> old = d | _ \<Rightarrow> False))"

definition transition_closed ::
    "spec_digest_fn \<Rightarrow> installed_target \<Rightarrow> disposition \<Rightarrow> string \<Rightarrow> nat
      \<Rightarrow> (materialization_error, unit) result db_prog" where
  "transition_closed dg t d reason now =
     try_value (installed_validate dg t) (\<lambda>_.
     try_value (validate_reason reason) (\<lambda>_.
       Transact [close_write t d reason now,
                 capacity_subtract_update (ts_materialized_mib (it_spec t)) now] (\<lambda>r.
         case r of
           Ok _ \<Rightarrow> Return (Ok ())
         | Err e \<Rightarrow>
             if transaction_cancelled e
             then try_then (dynamo_read dg (it_key t)) (\<lambda>current. Return
                    (if closed_as t d current then Ok () else Err (MReservationLost None)))
             else Return (Err (storage_error ''transition target'' e)))))"

definition dynamo_mark_closed ::
    "spec_digest_fn \<Rightarrow> installed_target \<Rightarrow> disposition \<Rightarrow> string \<Rightarrow> nat
      \<Rightarrow> (materialization_error, unit) result db_prog" where
  "dynamo_mark_closed dg t d reason now = transition_closed dg t d reason now"

fun collect_records ::
    "spec_digest_fn \<Rightarrow> db_item list \<Rightarrow> (materialization_error, durable_target_record list) result" where
  "collect_records dg [] = Ok []"
| "collect_records dg (i # is) =
     and_then (parse_record dg i) (\<lambda>r. and_then (collect_records dg is) (\<lambda>rs. Ok (r # rs)))"

definition dynamo_list_root ::
    "spec_digest_fn \<Rightarrow> string \<Rightarrow> string option \<Rightarrow> nat
      \<Rightarrow> (materialization_error, durable_target_record page_result) result db_prog" where
  "dynamo_list_root dg root cursor limit =
     try_value (and_then (for_default_target root) key_validate) (\<lambda>_.
       Query \<lparr>qy_root_id = root, qy_prefix = TARGET_KEY_PREFIX, qy_limit = clamp 1 MAX_PAGE limit,
              qy_exclusive_start = map_option (\<lambda>c. \<lparr>tk_root_id = root, tk_target_key = c\<rparr>) cursor\<rparr>
         (\<lambda>r. Return
            (and_then (map_err (storage_error ''list root targets'') r) (\<lambda>(items, last_key).
             and_then (collect_records dg items) (\<lambda>records.
               Ok \<lparr>page_items = records,
                   next_cursor = Option.bind (Option.bind last_key (\<lambda>i. i ''target_key'')) as_s\<rparr>)))))"

subsection \<open>Rows, evaluated\<close>

text \<open>The attributes of a fresh row.\<close>

lemma materializing_item_at [simp]:
  "materializing_item l now ''root_id'' = Some (attr_s (tk_root_id (ml_key l)))"
  "materializing_item l now ''target_key'' = Some (attr_s (tk_target_key (ml_key l)))"
  "materializing_item l now ''state'' = Some (attr_s MATERIALIZING)"
  "materializing_item l now ''spec_digest'' = Some (attr_s (ml_spec_digest l))"
  "materializing_item l now ''connector'' = Some (attr_s (connector_value (ts_connector (ml_spec l))))"
  "materializing_item l now ''image_identity'' = Some (attr_s (ts_image_identity (ml_spec l)))"
  "materializing_item l now ''resource_class'' = Some (attr_s (ts_resource_class (ml_spec l)))"
  "materializing_item l now ''materialized_mib'' = Some (attr_n (ts_materialized_mib (ml_spec l)))"
  "materializing_item l now ''resource_policy_digest'' = Some (attr_s (ts_resource_policy_digest (ml_spec l)))"
  "materializing_item l now ''network_policy_digest'' = Some (attr_s (ts_network_policy_digest (ml_spec l)))"
  "materializing_item l now ''reservation_id'' = Some (attr_s (ml_reservation_id l))"
  "materializing_item l now ''generation'' = Some (attr_s (ml_generation l))"
  "materializing_item l now ''launch_request'' = Some (AttrB (lr_expose (ml_launch_request l)))"
  "materializing_item l now ''attempt_id'' = Some (attr_s (ml_attempt_id l))"
  "materializing_item l now ''attempt_expires_at_ms'' = Some (attr_n (ml_attempt_expires_at_ms l))"
  "materializing_item l now ''expires_at_ms'' = Some (attr_n (ml_target_expires_at_ms l))"
  "materializing_item l now ''lease_expires_at_ms'' = Some (attr_n (ml_lease_expires_at_ms l))"
  "materializing_item l now ''updated_at_ms'' = Some (attr_n now)"
  by (simp_all add: materializing_item_def map_of_Cons_code del: map_of.simps)

end
