(* ===== verification/Dynamo_Plane.thy ===== *)
theory Dynamo_Plane
  imports Dynamo_Registry Target_Plane
begin

section \<open>The plane on DynamoDB under interleaving and failure\<close>

text \<open>
  Any number of registry clients share one table. Between two calls of a client every other client
  may run, a client may stop at any point, and a call may fail after it was applied. The capacity
  row still holds exactly the memory of the live target rows and stays within the plane, an
  installed target leaves that state only by being closed, and a lease is handed out only on a
  committed write that found its key free, lost or expired.
\<close>

subsection \<open>The invariant of the table\<close>

definition row_state :: "db_item \<Rightarrow> string \<Rightarrow> bool" where
  "row_state i st \<longleftrightarrow> i ''state'' = Some (attr_s st)"

definition row_charge :: "db_item \<Rightarrow> nat" where
  "row_charge i =
     (if row_state i CLOSED then 0 else case num_of i ''materialized_mib'' of None \<Rightarrow> 0 | Some n \<Rightarrow> n)"

text \<open>
  Requests in use: their specs are of \<open>S\<close>, and an attempt id, drawn at random by the caller,
  names one spec of its key.
\<close>

definition requests_ok :: "target_spec set \<Rightarrow> acquire_target set \<Rightarrow> bool" where
  "requests_ok S Q \<longleftrightarrow>
     (\<forall>q\<in>Q. aq_spec q \<in> S)
     \<and> (\<forall>q\<in>Q. \<forall>q'\<in>Q. aq_key q = aq_key q' \<longrightarrow> aq_attempt_id q = aq_attempt_id q' \<longrightarrow> aq_spec q = aq_spec q')"

definition attempt_of :: "acquire_target set \<Rightarrow> target_key \<Rightarrow> target_spec \<Rightarrow> attribute option \<Rightarrow> bool" where
  "attempt_of Q k spec a \<longleftrightarrow>
     (\<exists>q\<in>Q. aq_key q = k \<and> aq_spec q = spec \<and> a = Some (attr_s (aq_attempt_id q)))"

definition row_ok ::
    "spec_digest_fn \<Rightarrow> target_spec set \<Rightarrow> acquire_target set \<Rightarrow> target_key \<Rightarrow> db_item \<Rightarrow> bool" where
  "row_ok dg S Q k i \<longleftrightarrow>
     i ''root_id'' \<noteq> None \<and>
     (\<exists>spec\<in>S. i ''spec_digest'' = Some (attr_s (dg spec))
        \<and> i ''materialized_mib'' = Some (attr_n (ts_materialized_mib spec))
        \<and> (row_state i MATERIALIZING \<longrightarrow> attempt_of Q k spec (i ''attempt_id'')))"

lemma row_okI:
  "spec \<in> S \<Longrightarrow> i ''spec_digest'' = Some (attr_s (dg spec)) \<Longrightarrow>
    i ''materialized_mib'' = Some (attr_n (ts_materialized_mib spec)) \<Longrightarrow> i ''root_id'' \<noteq> None \<Longrightarrow>
    (row_state i MATERIALIZING \<Longrightarrow> attempt_of Q k spec (i ''attempt_id'')) \<Longrightarrow> row_ok dg S Q k i"
  by (auto simp: row_ok_def)

lemma requests_spec: "requests_ok S Q \<Longrightarrow> q \<in> Q \<Longrightarrow> aq_spec q \<in> S"
  unfolding requests_ok_def by blast

lemma requests_same:
  "requests_ok S Q \<Longrightarrow> q \<in> Q \<Longrightarrow> q' \<in> Q \<Longrightarrow> aq_key q = aq_key q' \<Longrightarrow> aq_attempt_id q = aq_attempt_id q' \<Longrightarrow>
    aq_spec q = aq_spec q'"
  unfolding requests_ok_def by blast

text \<open>The target rows and the memory they reserve, with the account of the plane.\<close>

definition sound ::
    "spec_digest_fn \<Rightarrow> target_spec set \<Rightarrow> acquire_target set \<Rightarrow> nat \<Rightarrow> db_table \<Rightarrow> nat \<Rightarrow> bool" where
  "sound dg S Q max_mib rows reserved \<longleftrightarrow>
     digest_ok dg S \<and> requests_ok S Q \<and> finite (dom rows)
     \<and> (\<forall>k i. rows k = Some i \<longrightarrow> row_ok dg S Q k i)
     \<and> reserved = account row_charge rows \<and> reserved \<le> max_mib"

definition target_rows :: "db_table \<Rightarrow> db_table" where
  "target_rows t = t(capacity_key := None)"

definition reserved_mib :: "db_table \<Rightarrow> nat" where
  "reserved_mib t = (case num_of (stored t capacity_key) ''reserved_mib'' of None \<Rightarrow> 0 | Some n \<Rightarrow> n)"

definition table_inv ::
    "spec_digest_fn \<Rightarrow> target_spec set \<Rightarrow> acquire_target set \<Rightarrow> nat \<Rightarrow> db_table \<Rightarrow> bool" where
  "table_inv dg S Q max_mib t \<longleftrightarrow>
     sound dg S Q max_mib (target_rows t) (reserved_mib t) \<and> stored t capacity_key ''state'' = None"

lemma state_names [simp]:
  "MATERIALIZING \<noteq> INSTALLED" "INSTALLED \<noteq> MATERIALIZING" "MATERIALIZING \<noteq> CLOSED"
  "CLOSED \<noteq> MATERIALIZING" "INSTALLED \<noteq> CLOSED" "CLOSED \<noteq> INSTALLED"
  by (simp_all add: MATERIALIZING_def INSTALLED_def CLOSED_def)

lemma num_of_attr_n [simp]: "i a = Some (attr_n n) \<Longrightarrow> num_of i a = Some n"
  by (simp add: num_of_def attr_n_def)

lemma row_charge_of:
  "i ''materialized_mib'' = Some (attr_n m) \<Longrightarrow> row_charge i = (if row_state i CLOSED then 0 else m)"
  by (simp add: row_charge_def)

subsection \<open>The four ways a target row changes\<close>

lemma sound_put:
  assumes "sound dg S Q m rows res" and "row_ok dg S Q k i"
    and "\<And>j. rows k = Some j \<Longrightarrow> row_charge j = 0" and "res + row_charge i \<le> m"
  shows "sound dg S Q m (rows(k \<mapsto> i)) (res + row_charge i)"
proof -
  have "account row_charge (rows(k \<mapsto> i)) = res + row_charge i"
    using assms(1,3) account_new [of rows k row_charge i] account_upd [of rows k _ row_charge i]
    by (cases "rows k") (auto simp: sound_def)
  then show ?thesis using assms by (auto simp: sound_def)
qed

lemma sound_keep:
  assumes "sound dg S Q m rows res" and "row_ok dg S Q k i" and "rows k = Some j"
    and "row_charge i = row_charge j"
  shows "sound dg S Q m (rows(k \<mapsto> i)) res"
  using assms account_upd [of rows k j row_charge i] by (auto simp: sound_def)

lemma sound_close:
  assumes "sound dg S Q m rows res" and "row_ok dg S Q k i" and "rows k = Some j"
    and "row_charge i = 0"
  shows "sound dg S Q m (rows(k \<mapsto> i)) (res - row_charge j)"
  using assms account_upd [of rows k j row_charge i] account_ge [of rows k j row_charge]
  by (auto simp: sound_def)

lemma sound_delete:
  assumes "sound dg S Q m rows res" and "rows k = Some j"
  shows "sound dg S Q m (rows(k := None)) (res - row_charge j)"
  using assms account_remove [of rows k j row_charge] by (auto simp: sound_def)

lemma sound_row: "sound dg S Q m rows res \<Longrightarrow> rows k = Some i \<Longrightarrow> row_ok dg S Q k i"
  by (simp add: sound_def)

text \<open>A digest of the table names one spec.\<close>

lemma row_spec:
  assumes "row_ok dg S Q k i" and "digest_ok dg S" and "spec \<in> S" and "i ''spec_digest'' = Some (attr_s (dg spec))"
  shows "i ''materialized_mib'' = Some (attr_n (ts_materialized_mib spec))"
    and "row_state i MATERIALIZING \<Longrightarrow> attempt_of Q k spec (i ''attempt_id'')"
  using assms by (auto simp: row_ok_def digest_ok_def inj_on_eq_iff)

subsection \<open>The two rows of a write\<close>

lemma target_rows_upd: "k \<noteq> capacity_key \<Longrightarrow> target_rows (t(k := x)) = (target_rows t)(k := x)"
  by (auto simp: target_rows_def fun_upd_twist)

lemma capacity_unchanged:
  "k \<noteq> capacity_key \<Longrightarrow> stored (t(k := x)) capacity_key = stored t capacity_key"
  "k \<noteq> capacity_key \<Longrightarrow> reserved_mib (t(k := x)) = reserved_mib t"
  by (simp_all add: stored_def reserved_mib_def)

lemma capacity_add_effect:
  assumes "capacity_add_update mib m now = Ok w"
  shows "write_key w = capacity_key" and "target_rows (apply_write w t) = target_rows t"
    and "reserved_mib (apply_write w t) = reserved_mib t + mib"
    and "stored t capacity_key ''state'' = None \<Longrightarrow> stored (apply_write w t) capacity_key ''state'' = None"
    and "cond_holds (stored t capacity_key) (write_cond w) \<Longrightarrow> reserved_mib t + mib \<le> m"
  using assms
  by (auto simp: capacity_add_update_def result_iffs target_rows_def reserved_mib_def stored_def
      apply_actions_def num_test_def num_of_def key_item_def attr_n_def attr_s_def
      split: option.splits attribute.splits)

lemma capacity_subtract_effect:
  assumes "w = capacity_subtract_update mib now"
  shows "write_key w = capacity_key" and "target_rows (apply_write w t) = target_rows t"
    and "cond_holds (stored t capacity_key) (write_cond w) \<Longrightarrow>
      reserved_mib (apply_write w t) = reserved_mib t - mib"
    and "stored t capacity_key ''state'' = None \<Longrightarrow> stored (apply_write w t) capacity_key ''state'' = None"
  using assms
  by (auto simp: capacity_subtract_update_def target_rows_def reserved_mib_def stored_def
      apply_actions_def num_test_def num_of_def key_item_def attr_n_def attr_s_def
      split: option.splits attribute.splits)

lemma stored_state:
  assumes "table_inv dg S Q m t" and "stored t k ''state'' = Some v"
  obtains i where "t k = Some i" "stored t k = i" "k \<noteq> capacity_key" "row_ok dg S Q k i"
    "target_rows t k = Some i"
proof -
  from assms have k: "k \<noteq> capacity_key" by (auto simp: table_inv_def)
  moreover from assms(2) obtain i where i: "t k = Some i" by (cases "t k") (auto simp: stored_def)
  moreover from k i have r: "target_rows t k = Some i" by (simp add: target_rows_def)
  moreover have "row_ok dg S Q k i" using assms(1) sound_row r by (auto simp: table_inv_def)
  ultimately show thesis using that by (simp add: stored_def)
qed

lemma table_inv_keep:
  assumes "table_inv dg S Q m t" and "k \<noteq> capacity_key" and "t k = Some j" and "row_ok dg S Q k i"
    and "row_charge i = row_charge j"
  shows "table_inv dg S Q m (t(k \<mapsto> i))"
  using assms sound_keep [of dg S Q m "target_rows t" "reserved_mib t" k i j]
  by (simp add: table_inv_def target_rows_upd capacity_unchanged) (simp add: target_rows_def)

lemma table_inv_add:
  assumes "table_inv dg S Q m t" and "capacity_add_update mib m now = Ok c"
    and "cond_holds (stored t capacity_key) (write_cond c)"
    and "k \<noteq> capacity_key" and "row_ok dg S Q k i" and "row_charge i = mib"
    and "\<And>j. t k = Some j \<Longrightarrow> row_charge j = 0"
  shows "table_inv dg S Q m (apply_write c (t(k \<mapsto> i)))"
proof -
  note e = capacity_add_effect [OF assms(2)]
  have "sound dg S Q m ((target_rows t)(k \<mapsto> i)) (reserved_mib t + row_charge i)"
    by (rule sound_put) (use assms e(5) [OF assms(3)] in \<open>auto simp: table_inv_def target_rows_def\<close>)
  then show ?thesis
    using assms(1,4,6) e(2,3,4) [of "t(k \<mapsto> i)"]
    by (simp add: table_inv_def target_rows_upd capacity_unchanged)
qed

lemma table_inv_subtract:
  assumes "table_inv dg S Q m t" and "cond_holds (stored t capacity_key) (write_cond (capacity_subtract_update mib now))"
    and "k \<noteq> capacity_key" and "t k = Some j" and "row_charge j = mib"
    and "\<And>i. x = Some i \<Longrightarrow> row_ok dg S Q k i \<and> row_charge i = 0"
  shows "table_inv dg S Q m (apply_write (capacity_subtract_update mib now) (t(k := x)))"
proof -
  note e = capacity_subtract_effect [OF refl [of "capacity_subtract_update mib now"]]
  from assms(3,4) have r: "target_rows t k = Some j" by (simp add: target_rows_def)
  from assms(1) have sd: "sound dg S Q m (target_rows t) (reserved_mib t)" by (simp add: table_inv_def)
  have "sound dg S Q m ((target_rows t)(k := x)) (reserved_mib t - mib)"
  proof (cases x)
    case None
    then show ?thesis using sound_delete [OF sd r] assms(5) by simp
  next
    case (Some i)
    then show ?thesis using sound_close [OF sd _ r, of i] assms(5,6) by auto
  qed
  moreover have "cond_holds (stored (t(k := x)) capacity_key) (write_cond (capacity_subtract_update mib now))"
    using assms(2,3) by (simp add: capacity_unchanged)
  ultimately show ?thesis
    using assms(1,3) e(2,3,4) [of "t(k := x)"]
    by (simp add: table_inv_def target_rows_upd capacity_unchanged)
qed

subsection \<open>Every write of the registry keeps the invariant\<close>

definition keeps_inv ::
    "spec_digest_fn \<Rightarrow> target_spec set \<Rightarrow> acquire_target set \<Rightarrow> nat \<Rightarrow> db_write list \<Rightarrow> bool" where
  "keeps_inv dg S Q m ws \<longleftrightarrow> (\<forall>t. table_inv dg S Q m t \<longrightarrow> commits t ws \<longrightarrow> table_inv dg S Q m (commit ws t))"

lemma table_inv_context:
  "table_inv dg S Q m t \<Longrightarrow> digest_ok dg S \<and> requests_ok S Q"
  by (simp add: table_inv_def sound_def)

lemma valid_key_not_capacity: "valid_key k \<Longrightarrow> k \<noteq> capacity_key"
  by (auto simp: valid_key_def key_validate_def sandbox_identity_def is_default_def DEFAULT_TARGET_KEY_def
      capacity_key_def result_iffs)

text \<open>The row a lease leaves, over any row of the same spec.\<close>

lemma lease_row:
  assumes "row_ok dg S Q k i" and "digest_ok dg S" and "spec \<in> S"
    and "i ''spec_digest'' = Some (attr_s (dg spec))" and "q \<in> Q" and "aq_key q = k" and "aq_spec q = spec"
    and "ml_attempt_id l = aq_attempt_id q"
  shows "row_ok dg S Q k (apply_actions (lease_actions l now) i)"
    and "row_charge (apply_actions (lease_actions l now) i) = ts_materialized_mib spec"
proof -
  let ?j = "apply_actions (lease_actions l now) i"
  have j: "?j ''spec_digest'' = Some (attr_s (dg spec))" "?j ''attempt_id'' = Some (attr_s (aq_attempt_id q))"
      "?j ''materialized_mib'' = i ''materialized_mib''" "?j ''state'' = Some (attr_s MATERIALIZING)"
      "?j ''root_id'' = i ''root_id''"
    using assms(4,8) by (simp_all add: apply_actions_at lease_actions_def)
  note m = row_spec(1) [OF assms(1-4)]
  show "row_ok dg S Q k ?j"
    using j m assms(1,3,5,6,7) by (auto simp: row_ok_def attempt_of_def)
  show "row_charge ?j = ts_materialized_mib spec"
    using j m by (simp add: row_charge_of row_state_def)
qed

text \<open>A request's own lease, and the spec and attempt it carries.\<close>

lemma acquire_lease_fields:
  assumes "acquire_lease dg q = Ok l"
  shows "ml_key l = aq_key q" "ml_spec l = aq_spec q" "ml_spec_digest l = dg (aq_spec q)"
    "ml_attempt_id l = aq_attempt_id q" "aq_key q \<noteq> capacity_key"
    "ml_reservation_id l = aq_reservation_id q" "ml_generation l = aq_generation q"
  using assms by (auto simp: acquire_lease_Ok acquire_ok_def valid_key_not_capacity)

lemma commits_simps [simp]:
  "commits t [w] \<longleftrightarrow> cond_holds (stored t (write_key w)) (write_cond w)"
  "commits t [w, v] \<longleftrightarrow> cond_holds (stored t (write_key w)) (write_cond w)
     \<and> cond_holds (stored t (write_key v)) (write_cond v)"
  "commit [w] t = apply_write w t" "commit [w, v] t = apply_write v (apply_write w t)"
  by (simp_all add: commits_def commit_def)

lemma reserve_keeps:
  assumes "acquire_lease dg q = Ok l" and "q \<in> Q"
    and "capacity_add_update (ts_materialized_mib (ml_spec l)) m now = Ok c"
  shows "keeps_inv dg S Q m [reserve_write l now', c]"
  unfolding keeps_inv_def
proof (intro allI impI)
  fix t assume t: "table_inv dg S Q m t" "commits t [reserve_write l now', c]"
  note l = acquire_lease_fields [OF assms(1)]
  let ?i = "materializing_item l now'"
  have k: "item_key ?i = aq_key q" by (simp add: item_key_def attr_s_def l)
  have i: "?i ''spec_digest'' = Some (attr_s (dg (aq_spec q)))" "?i ''state'' = Some (attr_s MATERIALIZING)"
      "?i ''materialized_mib'' = Some (attr_n (ts_materialized_mib (aq_spec q)))"
      "?i ''attempt_id'' = Some (attr_s (aq_attempt_id q))" "?i ''root_id'' \<noteq> None"
    by (simp_all add: l)
  have "row_ok dg S Q (aq_key q) ?i"
    by (rule row_okI [where spec = "aq_spec q"])
      (use i assms(2) requests_spec table_inv_context [OF t(1)] in \<open>auto simp: attempt_of_def\<close>)
  moreover have "row_charge ?i = ts_materialized_mib (ml_spec l)"
    using i l(2) by (simp add: row_charge_of row_state_def)
  moreover have "t (aq_key q) = None"
  proof (rule ccontr)
    assume "t (aq_key q) \<noteq> None"
    then obtain j where j: "t (aq_key q) = Some j" by blast
    then have "row_ok dg S Q (aq_key q) j"
      using t(1) l(5) sound_row [of dg S Q m "target_rows t"] by (auto simp: table_inv_def target_rows_def)
    then show False using t(2) j by (auto simp: reserve_write_def k stored_def row_ok_def)
  qed
  ultimately show "table_inv dg S Q m (commit [reserve_write l now', c] t)"
    using table_inv_add [OF t(1) assms(3) _ l(5), of ?i] t(2) capacity_add_effect(1) [OF assms(3)]
    by (simp add: reserve_write_def k)
qed

lemma replace_expired_keeps:
  assumes "acquire_lease dg q = Ok l" and "q \<in> Q"
  shows "keeps_inv dg S Q m [replace_expired_write old q l]"
  unfolding keeps_inv_def
proof (intro allI impI)
  fix t assume t: "table_inv dg S Q m t" "commits t [replace_expired_write old q l]"
  note l = acquire_lease_fields [OF assms(1)] and ctx = table_inv_context [OF t(1)]
  have c: "stored t (aq_key q) ''state'' = Some (attr_s MATERIALIZING)"
      "stored t (aq_key q) ''spec_digest'' = Some (attr_s (dg (aq_spec q)))"
    using t(2) l by (simp_all add: replace_expired_write_def)
  from stored_state [OF t(1) c(1)] obtain i where i: "t (aq_key q) = Some i" "stored t (aq_key q) = i"
      "row_ok dg S Q (aq_key q) i" by blast
  note sp = requests_spec [OF conjunct2 [OF ctx] assms(2)]
  note r = lease_row [OF i(3) conjunct1 [OF ctx] sp _ assms(2) refl refl l(4)]
  have "row_charge i = ts_materialized_mib (aq_spec q)"
    using row_spec(1) [OF i(3) conjunct1 [OF ctx] sp] c i(2) by (simp add: row_charge_of row_state_def)
  then show "table_inv dg S Q m (commit [replace_expired_write old q l] t)"
    using table_inv_keep [OF t(1) l(5) i(1) r(1)] r(2) c i by (simp add: replace_expired_write_def)
qed

lemma take_attempt_keeps:
  assumes "acquire_lease dg q = Ok l" and "q \<in> Q" and "dr_spec_digest current = ml_spec_digest l"
  shows "keeps_inv dg S Q m [take_attempt_write current rid aid q aexp]"
  unfolding keeps_inv_def
proof (intro allI impI)
  fix t assume t: "table_inv dg S Q m t" "commits t [take_attempt_write current rid aid q aexp]"
  note l = acquire_lease_fields [OF assms(1)] and ctx = table_inv_context [OF t(1)]
  have c: "stored t (aq_key q) ''state'' = Some (attr_s MATERIALIZING)"
      "stored t (aq_key q) ''spec_digest'' = Some (attr_s (dg (aq_spec q)))"
    using t(2) l assms(3) by (simp_all add: take_attempt_write_def)
  from stored_state [OF t(1) c(1)] obtain i where i: "t (aq_key q) = Some i" "stored t (aq_key q) = i"
      "row_ok dg S Q (aq_key q) i" by blast
  note sp = requests_spec [OF conjunct2 [OF ctx] assms(2)]
  let ?acts = "[SetTo ''attempt_id'' (attr_s (aq_attempt_id q)), SetTo ''attempt_expires_at_ms'' (attr_n aexp),
    SetTo ''updated_at_ms'' (attr_n (aq_now_ms q))]"
  have same: "apply_actions ?acts i a = i a" if "a \<in> {''state'', ''spec_digest'', ''materialized_mib'', ''root_id''}" for a
    using that by (auto simp: apply_actions_at)
  have at: "apply_actions ?acts i ''attempt_id'' = Some (attr_s (aq_attempt_id q))" by (simp add: apply_actions_at)
  note mib = row_spec(1) [OF i(3) conjunct1 [OF ctx] sp, folded i(2), OF c(2)]
  have "row_ok dg S Q (aq_key q) (apply_actions ?acts i)"
    by (rule row_okI [OF sp]) (use same at c i mib assms(2) in \<open>auto simp: attempt_of_def row_ok_def\<close>)
  moreover have "row_charge (apply_actions ?acts i) = row_charge i"
    using mib same i(2) by (simp add: row_charge_of row_state_def)
  ultimately show "table_inv dg S Q m (commit [take_attempt_write current rid aid q aexp] t)"
    using table_inv_keep [OF t(1) l(5) i(1)] i(1) by (simp add: take_attempt_write_def)
qed

lemma replace_gone_keeps:
  assumes "acquire_lease dg q = Ok l" and "q \<in> Q"
    and "capacity_add_update (ts_materialized_mib (ml_spec l)) m now = Ok c"
  shows "keeps_inv dg S Q m [replace_gone_write current q l, c]"
  unfolding keeps_inv_def
proof (intro allI impI)
  fix t assume t: "table_inv dg S Q m t" "commits t [replace_gone_write current q l, c]"
  note l = acquire_lease_fields [OF assms(1)] and ctx = table_inv_context [OF t(1)]
  have st: "stored t (aq_key q) ''state'' = Some (attr_s CLOSED)"
      "stored t (aq_key q) ''spec_digest'' = Some (attr_s (dg (aq_spec q)))"
    using t(2) l by (simp_all add: replace_gone_write_def)
  from stored_state [OF t(1) st(1)] obtain i where i: "t (aq_key q) = Some i" "stored t (aq_key q) = i"
      "row_ok dg S Q (aq_key q) i" by blast
  note sp = requests_spec [OF conjunct2 [OF ctx] assms(2)]
  note r = lease_row [OF i(3) conjunct1 [OF ctx] sp _ assms(2) refl refl l(4)]
  have "row_charge i = 0" using st i(2) by (simp add: row_charge_def row_state_def)
  then show "table_inv dg S Q m (commit [replace_gone_write current q l, c] t)"
    using table_inv_add [OF t(1) assms(3) _ l(5) r(1)] r(2) st i t(2) l(2) capacity_add_effect(1) [OF assms(3)]
    by (simp add: replace_gone_write_def)
qed

lemma purge_keeps:
  "keeps_inv dg S Q m [Delete k (CAnd (Equals ''generation'' g) (Equals ''state'' (attr_s CLOSED)))]"
  unfolding keeps_inv_def
proof (intro allI impI)
  fix t assume t: "table_inv dg S Q m t"
    "commits t [Delete k (CAnd (Equals ''generation'' g) (Equals ''state'' (attr_s CLOSED)))]"
  then have st: "stored t k ''state'' = Some (attr_s CLOSED)" by simp
  from stored_state [OF t(1) st] obtain i where i: "stored t k = i" "k \<noteq> capacity_key" "target_rows t k = Some i"
    by blast
  have "row_charge i = 0" using st i(1) by (simp add: row_charge_def row_state_def)
  then show "table_inv dg S Q m (commit [Delete k (CAnd (Equals ''generation'' g) (Equals ''state'' (attr_s CLOSED)))] t)"
    using t(1) i sound_delete [of dg S Q m "target_rows t" "reserved_mib t" k i]
    by (simp add: table_inv_def target_rows_upd capacity_unchanged)
qed

lemma install_keeps: "keeps_inv dg S Q m [install_write l p now]"
  unfolding keeps_inv_def
proof (intro allI impI)
  fix t assume t: "table_inv dg S Q m t" "commits t [install_write l p now]"
  then have st: "stored t (ml_key l) ''state'' = Some (attr_s MATERIALIZING)" by (simp add: install_write_def)
  from stored_state [OF t(1) st] obtain i where i: "t (ml_key l) = Some i" "stored t (ml_key l) = i"
      "ml_key l \<noteq> capacity_key" "row_ok dg S Q (ml_key l) i" by blast
  define j where "j = stored (apply_write (install_write l p now) t) (ml_key l)"
  have j: "j ''state'' = Some (attr_s INSTALLED)" "j ''spec_digest'' = i ''spec_digest''"
      "j ''materialized_mib'' = i ''materialized_mib''" "j ''root_id'' = i ''root_id''"
    using i(1) by (simp_all add: j_def install_write_def stored_def apply_actions_at)
  from i(4) obtain spec where s: "spec \<in> S" "i ''spec_digest'' = Some (attr_s (dg spec))"
      "i ''materialized_mib'' = Some (attr_n (ts_materialized_mib spec))" "i ''root_id'' \<noteq> None"
    by (auto simp: row_ok_def)
  have "row_ok dg S Q (ml_key l) j"
    by (rule row_okI [OF s(1)]) (use j s in \<open>simp_all add: row_state_def\<close>)
  moreover have "row_charge j = row_charge i"
    using j s(3) st i(2) by (simp add: row_charge_of row_state_def)
  moreover have "commit [install_write l p now] t = t(ml_key l \<mapsto> j)"
    by (simp add: j_def stored_def install_write_def)
  ultimately show "table_inv dg S Q m (commit [install_write l p now] t)"
    using table_inv_keep [OF t(1) i(3,1)] by simp
qed

text \<open>A lease that an acquisition of \<open>Q\<close> handed out.\<close>

definition lease_of :: "acquire_target set \<Rightarrow> materialization_lease \<Rightarrow> bool" where
  "lease_of Q l \<longleftrightarrow>
     (\<exists>q\<in>Q. aq_key q = ml_key l \<and> aq_attempt_id q = ml_attempt_id l \<and> aq_spec q = ml_spec l)"

lemma release_keeps:
  assumes "lease_of Q l"
  shows "keeps_inv dg S Q m [release_write l, capacity_subtract_update (ts_materialized_mib (ml_spec l)) now]"
  unfolding keeps_inv_def
proof (intro allI impI)
  let ?c = "capacity_subtract_update (ts_materialized_mib (ml_spec l)) now"
  fix t assume t: "table_inv dg S Q m t" "commits t [release_write l, ?c]"
  then have st: "stored t (ml_key l) ''state'' = Some (attr_s MATERIALIZING)"
      "stored t (ml_key l) ''attempt_id'' = Some (attr_s (ml_attempt_id l))" by (simp_all add: release_write_def)
  from stored_state [OF t(1) st(1)] obtain i where i: "t (ml_key l) = Some i" "stored t (ml_key l) = i"
      "ml_key l \<noteq> capacity_key" "row_ok dg S Q (ml_key l) i" by blast
  from i(4) st i(2) obtain spec q where s: "i ''materialized_mib'' = Some (attr_n (ts_materialized_mib spec))"
      "q \<in> Q" "aq_key q = ml_key l" "aq_spec q = spec" "aq_attempt_id q = ml_attempt_id l"
    by (auto simp: row_ok_def attempt_of_def row_state_def)
  obtain q' where q': "q' \<in> Q" "aq_key q' = ml_key l" "aq_attempt_id q' = ml_attempt_id l" "aq_spec q' = ml_spec l"
    using assms by (auto simp: lease_of_def)
  have "spec = ml_spec l"
    using requests_same [OF conjunct2 [OF table_inv_context [OF t(1)]] s(2) q'(1)] s q' by simp
  then have "row_charge i = ts_materialized_mib (ml_spec l)"
    using s(1) st(1) i(2) by (simp add: row_charge_of row_state_def)
  then show "table_inv dg S Q m (commit [release_write l, ?c] t)"
    using table_inv_subtract [OF t(1) _ i(3,1), of "ts_materialized_mib (ml_spec l)" now None] t(2)
      capacity_subtract_effect(1) [OF refl, of "ts_materialized_mib (ml_spec l)" now]
    by (simp add: release_write_def)
qed

lemma close_keeps:
  assumes "installed_validate dg it = Ok u" and "it_spec it \<in> S"
  shows "keeps_inv dg S Q m
    [close_write it d reason now, capacity_subtract_update (ts_materialized_mib (it_spec it)) now]"
  unfolding keeps_inv_def
proof (intro allI impI)
  let ?c = "capacity_subtract_update (ts_materialized_mib (it_spec it)) now"
  fix t assume t: "table_inv dg S Q m t" "commits t [close_write it d reason now, ?c]"
  have dig: "it_spec_digest it = dg (it_spec it)" using assms(1) by (simp add: installed_validate_def result_iffs)
  have st: "stored t (it_key it) ''state'' = Some (attr_s INSTALLED)"
      "stored t (it_key it) ''spec_digest'' = Some (attr_s (dg (it_spec it)))"
    using t(2) dig by (simp_all add: close_write_def)
  from stored_state [OF t(1) st(1)] obtain i where i: "t (it_key it) = Some i" "stored t (it_key it) = i"
      "it_key it \<noteq> capacity_key" "row_ok dg S Q (it_key it) i" by blast
  note mib = row_spec(1) [OF i(4) conjunct1 [OF table_inv_context [OF t(1)]] assms(2), folded i(2), OF st(2)]
  define j where "j = stored (apply_write (close_write it d reason now) t) (it_key it)"
  have j: "j ''state'' = Some (attr_s CLOSED)" "j ''spec_digest'' = i ''spec_digest''"
      "j ''materialized_mib'' = i ''materialized_mib''" "j ''root_id'' = i ''root_id''"
    using i(1) by (simp_all add: j_def close_write_def stored_def apply_actions_at)
  have "row_ok dg S Q (it_key it) j"
    by (rule row_okI [OF assms(2)]) (use j st i mib in \<open>auto simp: row_state_def row_ok_def\<close>)
  moreover have "row_charge j = 0" using j(1) by (simp add: row_charge_def row_state_def)
  moreover have "row_charge i = ts_materialized_mib (it_spec it)"
    using mib st(1) i(2) by (simp add: row_charge_of row_state_def)
  moreover have "apply_write (close_write it d reason now) t = t(it_key it \<mapsto> j)"
    by (simp add: j_def stored_def close_write_def)
  ultimately show "table_inv dg S Q m (commit [close_write it d reason now, ?c] t)"
    using table_inv_subtract [OF t(1) _ i(3,1), of "ts_materialized_mib (it_spec it)" now "Some j"] t(2)
      capacity_subtract_effect(1) [OF refl, of "ts_materialized_mib (it_spec it)" now]
    by simp
qed

subsection \<open>The writes of each operation\<close>

lemma read_writes [simp]: "all_writes W (dynamo_read dg k)"
  by (simp add: dynamo_read_def)

lemma rate_capacity_writes: "all_writes W p \<Longrightarrow> all_writes W (rate_capacity m l p)"
  unfolding rate_capacity_def
  by (intro all_writes_try) (auto simp: reserved_capacity_def split: option.split)

text \<open>The four writes an acquisition can make.\<close>

inductive acquire_write :: "spec_digest_fn \<Rightarrow> nat \<Rightarrow> acquire_target \<Rightarrow> db_write list \<Rightarrow> bool"
  for dg m q where
  aw_reserve: "acquire_lease dg q = Ok l \<Longrightarrow>
    capacity_add_update (ts_materialized_mib (ml_spec l)) m (aq_now_ms q) = Ok c \<Longrightarrow>
    acquire_write dg m q [reserve_write l (aq_now_ms q), c]"
| aw_expired: "acquire_lease dg q = Ok l \<Longrightarrow> acquire_write dg m q [replace_expired_write old q l]"
| aw_attempt: "acquire_lease dg q = Ok l \<Longrightarrow> dr_spec_digest current = ml_spec_digest l \<Longrightarrow>
    acquire_write dg m q [take_attempt_write current rid aid q aexp]"
| aw_gone: "acquire_lease dg q = Ok l \<Longrightarrow>
    capacity_add_update (ts_materialized_mib (ml_spec l)) m (aq_now_ms q) = Ok c \<Longrightarrow>
    acquire_write dg m q [replace_gone_write current q l, c]"

lemma acquire_row_writes:
  assumes "acquire_lease dg q = Ok l" and "dr_spec_digest current = ml_spec_digest l"
    and "all_writes (acquire_write dg m q) again"
  shows "all_writes (acquire_write dg m q) (acquire_row dg m q l current again)"
proof (cases "dr_state current")
  case (Materializing rid lr aid aexp texp lexp)
  have "all_writes (acquire_write dg m q) (replace_expired_materialization current q l)"
    unfolding replace_expired_materialization_def
    by (rule all_writes_try_value) (use aw_expired [OF assms(1)] in simp)
  moreover have "all_writes (acquire_write dg m q) (take_expired_attempt current q)"
    using aw_attempt [OF assms(1,2)]
    by (auto simp: take_expired_attempt_def Materializing Let_def intro: all_writes_try_value)
  ultimately show ?thesis
    using assms(3)
    by (auto simp: acquire_row_def Materializing split: option.split intro!: all_writes_try)
next
  case (Closed d reason at)
  have "all_writes (acquire_write dg m q) (replace_gone_default m current q l)"
    unfolding replace_gone_default_def
    by (rule all_writes_try_value) (use aw_gone [OF assms(1)] in simp)
  then show ?thesis
    using assms(3)
    by (cases d) (auto simp: acquire_row_def Closed intro!: all_writes_try rate_capacity_writes)
qed (simp add: acquire_row_def)

lemma acquire_loop_writes:
  assumes "acquire_lease dg q = Ok l"
  shows "all_writes (acquire_write dg m q) (acquire_loop dg m q l n)"
proof (induction n)
  case (Suc n)
  have "all_writes (acquire_write dg m q) (try_value (record_validate dg current) (\<lambda>_.
      if dr_spec_digest current \<noteq> ml_spec_digest l then Return (Err MSpecConflict)
      else if aq_generation_is_fenced q \<and> dr_generation current \<noteq> ml_generation l
              \<and> \<not> (aq_replace_after_loss q \<and> closed_lost (dr_state current))
      then Return (Err MSpecConflict)
      else acquire_row dg m q l current (acquire_loop dg m q l n)))" for current
    by (rule all_writes_try_value) (use acquire_row_writes [OF assms _ Suc.IH] in simp)
  then show ?case
    by (auto split: option.split intro!: all_writes_try rate_capacity_writes)
qed simp

lemma acquire_writes: "all_writes (acquire_write dg m q) (dynamo_acquire dg m q)"
  unfolding dynamo_acquire_def
  by (intro all_writes_try_value) (auto split: sum.split intro: aw_reserve acquire_loop_writes)

lemma acquire_write_keeps:
  assumes "acquire_write dg m q ws" and "q \<in> Q"
  shows "keeps_inv dg S Q m ws"
  using assms(1)
proof cases
  case aw_reserve
  then show ?thesis using reserve_keeps [OF _ assms(2)] by blast
next
  case aw_expired
  then show ?thesis using replace_expired_keeps [OF _ assms(2)] by blast
next
  case aw_attempt
  then show ?thesis using take_attempt_keeps [OF _ assms(2)] by blast
next
  case aw_gone
  then show ?thesis using replace_gone_keeps [OF _ assms(2)] by blast
qed

text \<open>All writes of the registry.\<close>

inductive registry_write ::
    "spec_digest_fn \<Rightarrow> nat \<Rightarrow> target_spec set \<Rightarrow> acquire_target set \<Rightarrow> db_write list \<Rightarrow> bool"
  for dg m S Q where
  rw_acquire: "q \<in> Q \<Longrightarrow> acquire_write dg m q ws \<Longrightarrow> registry_write dg m S Q ws"
| rw_install: "registry_write dg m S Q [install_write l p now]"
| rw_release: "lease_of Q l \<Longrightarrow>
    registry_write dg m S Q [release_write l, capacity_subtract_update (ts_materialized_mib (ml_spec l)) now]"
| rw_close: "installed_validate dg it = Ok () \<Longrightarrow> it_spec it \<in> S \<Longrightarrow>
    registry_write dg m S Q
      [close_write it d reason now, capacity_subtract_update (ts_materialized_mib (it_spec it)) now]"
| rw_purge: "registry_write dg m S Q
    [Delete k (CAnd (Equals ''generation'' g) (Equals ''state'' (attr_s CLOSED)))]"

lemma registry_write_keeps: "registry_write dg m S Q ws \<Longrightarrow> keeps_inv dg S Q m ws"
  by (induction rule: registry_write.induct)
    (auto intro: acquire_write_keeps install_keeps release_keeps close_keeps purge_keeps)

subsection \<open>Clients of the registry\<close>

datatype registry_reply =
    RAcquire "(materialization_error, acquire_outcome) result"
  | RInstall "(materialization_error, install_outcome) result"
  | RUnit "(materialization_error, unit) result"
  | RGet "(materialization_error, durable_target_record option) result"
  | RList "(materialization_error, durable_target_record page_result) result"

inductive registry_client ::
    "spec_digest_fn \<Rightarrow> nat \<Rightarrow> target_spec set \<Rightarrow> acquire_target set \<Rightarrow> registry_reply db_prog \<Rightarrow> bool"
  for dg m S Q where
  client_acquire: "q \<in> Q \<Longrightarrow> registry_client dg m S Q (map_db_prog RAcquire (dynamo_acquire dg m q))"
| client_install: "registry_client dg m S Q (map_db_prog RInstall (dynamo_install dg l p now))"
| client_expire: "lease_of Q l \<Longrightarrow> registry_client dg m S Q (map_db_prog RUnit (dynamo_expire_lease dg l now))"
| client_close: "it_spec it \<in> S \<Longrightarrow>
    registry_client dg m S Q (map_db_prog RUnit (dynamo_mark_closed dg it d reason now))"
| client_purge: "registry_client dg m S Q (map_db_prog RUnit (purge_terminal dg k g))"
| client_get: "registry_client dg m S Q (map_db_prog RGet (dynamo_get dg k))"
| client_list: "registry_client dg m S Q (map_db_prog RList (dynamo_list_root dg root cursor limit))"

lemma transition_writes:
  assumes "it_spec it \<in> S"
  shows "all_writes (registry_write dg m S Q) (transition_closed dg it d reason now)"
  unfolding transition_closed_def
  using assms
  by (auto intro!: all_writes_try_value all_writes_try rw_close split: sum.split)

lemma client_writes: "registry_client dg m S Q p \<Longrightarrow> all_writes (registry_write dg m S Q) p"
proof (induction rule: registry_client.induct)
  case (client_acquire q)
  then show ?case
    using all_writes_mono [OF acquire_writes, of dg m q "registry_write dg m S Q"] rw_acquire by simp
next
  case (client_install l p now)
  then show ?case
    by (auto simp: dynamo_install_def split: sum.split intro!: rw_install all_writes_try)
next
  case (client_expire l now)
  then show ?case
    by (auto simp: dynamo_expire_lease_def split: sum.split intro!: rw_release all_writes_try)
next
  case (client_close it d reason now)
  then show ?case using transition_writes by (simp add: dynamo_mark_closed_def)
next
  case (client_purge k g)
  then show ?case
    by (auto simp: purge_terminal_def split: sum.split intro!: rw_purge all_writes_try)
next
  case (client_get k)
  then show ?case by (simp add: dynamo_get_def all_writes_try_value)
next
  case (client_list root cursor limit)
  then show ?case by (simp add: dynamo_list_root_def all_writes_try_value)
qed

interpretation plane: db_store "registry_client dg m S Q" "registry_write dg m S Q" "table_inv dg S Q m"
  for dg m S Q
  by unfold_locales (use client_writes registry_write_keeps in \<open>auto simp: keeps_inv_def\<close>)

abbreviation empty_world :: "registry_reply db_world" where
  "empty_world \<equiv> \<lparr>dw_table = Map.empty, dw_clients = Map.empty\<rparr>"

lemma empty_world_ok:
  "digest_ok dg S \<Longrightarrow> requests_ok S Q \<Longrightarrow> table_inv dg S Q m (dw_table empty_world)"
  "clients_ok W empty_world"
  by (simp_all add: table_inv_def sound_def target_rows_def reserved_mib_def stored_def num_of_def
      clients_ok_def fun_upd_def)

subsection \<open>Installed rows\<close>

lemma apply_write_frame: "k \<noteq> write_key w \<Longrightarrow> apply_write w t k = t k"
  by (cases w) auto

lemma capacity_frame:
  "k \<noteq> capacity_key \<Longrightarrow> capacity_add_update mib m now = Ok c \<Longrightarrow> apply_write c t k = t k"
  "k \<noteq> capacity_key \<Longrightarrow> apply_write (capacity_subtract_update mib now) t k = t k"
  by (simp_all add: apply_write_frame capacity_add_effect(1) capacity_subtract_effect(1))

text \<open>Only a close touches an installed row.\<close>

lemma registry_write_frozen:
  assumes "registry_write dg m S Q ws" and "table_inv dg S Q m t" and "commits t ws"
    and "t k = Some i" and "row_state i INSTALLED"
  shows "commit ws t k = Some i \<or> (\<exists>j. commit ws t k = Some j \<and> row_state j CLOSED)"
proof -
  have st: "stored t k ''state'' = Some (attr_s INSTALLED)" using assms(4,5) by (simp add: stored_def row_state_def)
  from stored_state [OF assms(2) st] have k: "k \<noteq> capacity_key" and ro: "row_ok dg S Q k i"
    using assms(4) by auto
  have other: "commit [w] t k = Some i" if "commits t [w]" "write_cond w = CAnd (Equals ''state'' (attr_s s)) c"
      "s \<noteq> INSTALLED" for w s c
    using that st assms(4) apply_write_frame [of k w t] by (cases "k = write_key w") auto
  from assms(1) show ?thesis
  proof cases
    case (rw_acquire q)
    from rw_acquire(2) show ?thesis
    proof cases
      case (aw_reserve l c)
      have ik: "item_key (materializing_item l (aq_now_ms q)) = ml_key l" by (simp add: item_key_def attr_s_def)
      have "k \<noteq> write_key (reserve_write l (aq_now_ms q))"
        using assms(3) aw_reserve(1) ro assms(4) by (auto simp: reserve_write_def ik stored_def row_ok_def)
      then show ?thesis
        using aw_reserve k assms(4) by (simp add: capacity_frame apply_write_frame)
    next
      case (aw_expired l old)
      then show ?thesis using other [of "replace_expired_write old q l"] assms(3) by (simp add: replace_expired_write_def)
    next
      case (aw_attempt l current rid aid aexp)
      then show ?thesis using other [of "take_attempt_write current rid aid q aexp"] assms(3)
        by (simp add: take_attempt_write_def)
    next
      case (aw_gone l c current)
      then show ?thesis using other [of "replace_gone_write current q l"] assms(3) k
        by (simp add: replace_gone_write_def capacity_frame)
    qed
  next
    case (rw_install l p now)
    then show ?thesis using other [of "install_write l p now"] assms(3) by (simp add: install_write_def)
  next
    case (rw_release l now)
    then show ?thesis using other [of "release_write l"] assms(3) k by (simp add: release_write_def capacity_frame)
  next
    case (rw_close it d reason now)
    show ?thesis
    proof (cases "k = it_key it")
      case True
      then show ?thesis using rw_close k
        by (simp add: capacity_frame) (simp add: close_write_def row_state_def apply_actions_at)
    next
      case False
      then show ?thesis using rw_close k assms(4) by (simp add: capacity_frame apply_write_frame close_write_def)
    qed
  next
    case (rw_purge k' g)
    then show ?thesis using assms(3,4) st by (cases "k = k'") auto
  qed
qed

subsection \<open>Leases\<close>

text \<open>The service stores every item with the attributes of its key.\<close>

definition keyed :: "db_table \<Rightarrow> bool" where
  "keyed t \<longleftrightarrow> (\<forall>k i. t k = Some i \<longrightarrow> i ''root_id'' \<noteq> None)"

lemma keyedD: "keyed t \<Longrightarrow> t k = Some i \<Longrightarrow> i ''root_id'' \<noteq> None"
  unfolding keyed_def by blast

text \<open>
  A key a request may take at its instant: absent, lost, or reserved by a lease or an attempt that
  has expired.
\<close>

definition takeable :: "nat \<Rightarrow> db_item option \<Rightarrow> bool" where
  "takeable now row \<longleftrightarrow>
     (case row of None \<Rightarrow> True
      | Some i \<Rightarrow>
          row_state i CLOSED \<and> i ''disposition'' = Some (attr_s (disposition_value Lost))
          \<or> row_state i MATERIALIZING
             \<and> (num_test (\<lambda>x. x \<le> now) i ''lease_expires_at_ms''
                 \<or> num_test (\<lambda>x. x \<le> now) i ''attempt_expires_at_ms''))"

lemma takeable_None: "takeable now None"
  by (simp add: takeable_def)

definition row_holds :: "materialization_lease \<Rightarrow> db_item option \<Rightarrow> bool" where
  "row_holds l row \<longleftrightarrow>
     (\<exists>i. row = Some i \<and> row_state i MATERIALIZING
        \<and> i ''reservation_id'' = Some (attr_s (ml_reservation_id l))
        \<and> i ''generation'' = Some (attr_s (ml_generation l))
        \<and> i ''attempt_id'' = Some (attr_s (ml_attempt_id l)))"

definition grants :: "acquire_target \<Rightarrow> materialization_lease \<Rightarrow> db_write list \<Rightarrow> bool" where
  "grants q l ws \<longleftrightarrow>
     ml_attempt_id l = aq_attempt_id q \<and>
     (\<forall>t. keyed t \<longrightarrow> commits t ws \<longrightarrow>
        takeable (aq_now_ms q) (t (aq_key q)) \<and> row_holds l (commit ws t (aq_key q)))"

lemma lease_actions_hold: "row_holds l (Some (apply_actions (lease_actions l now) i))"
  by (simp add: row_holds_def row_state_def lease_actions_def apply_actions_at)

lemma stored_Some: "stored t k a = Some v \<Longrightarrow> \<exists>i. t k = Some i \<and> stored t k = i"
  by (cases "t k") (auto simp: stored_def)

lemma reserve_grants:
  assumes "acquire_lease dg q = Ok l"
    and "capacity_add_update (ts_materialized_mib (ml_spec l)) m (aq_now_ms q) = Ok c"
  shows "grants q l [reserve_write l (aq_now_ms q), c]"
proof -
  note l = acquire_lease_fields [OF assms(1)]
  have ik: "item_key (materializing_item l (aq_now_ms q)) = aq_key q" by (simp add: item_key_def attr_s_def l)
  have "t (aq_key q) = None" if "keyed t" "commits t [reserve_write l (aq_now_ms q), c]" for t
    using that keyedD [of t "aq_key q"] by (cases "t (aq_key q)") (auto simp: reserve_write_def ik stored_def)
  moreover have "row_holds l (commit [reserve_write l (aq_now_ms q), c] t (aq_key q))" for t
    using l ik assms(2) by (simp add: capacity_frame reserve_write_def row_holds_def row_state_def)
  ultimately show ?thesis using l(4) takeable_None unfolding grants_def by metis
qed

lemma row_write_grants:
  assumes "write_key w = aq_key q" and "ml_attempt_id l = aq_attempt_id q"
    and "\<And>i. cond_holds i (write_cond w) \<Longrightarrow> i ''state'' \<noteq> None \<and> takeable (aq_now_ms q) (Some i)"
    and "\<And>t i. t (aq_key q) = Some i \<Longrightarrow> cond_holds i (write_cond w) \<Longrightarrow> row_holds l (apply_write w t (aq_key q))"
    and "ws = [w] \<or> (\<exists>c mib m now. ws = [w, c] \<and> capacity_add_update mib m now = Ok c \<and> aq_key q \<noteq> capacity_key)"
  shows "grants q l ws"
  unfolding grants_def
proof (intro conjI allI impI)
  fix t assume "keyed t" and t: "commits t ws"
  then have c: "cond_holds (stored t (aq_key q)) (write_cond w)" using assms(1,5) by auto
  from assms(3) [OF this] obtain i where i: "t (aq_key q) = Some i" "stored t (aq_key q) = i"
    by (cases "t (aq_key q)") (auto simp: stored_def)
  show "takeable (aq_now_ms q) (t (aq_key q))" using assms(3) [OF c] i by simp
  have "row_holds l (apply_write w t (aq_key q))" using assms(4) i c by simp
  then show "row_holds l (commit ws t (aq_key q))" using assms(5) by (auto simp: capacity_frame)
qed (rule assms(2))

lemma expired_grants:
  assumes "acquire_lease dg q = Ok l"
  shows "grants q l [replace_expired_write old q l]"
  using acquire_lease_fields [OF assms]
  by (intro row_write_grants)
    (auto simp: replace_expired_write_def takeable_def row_state_def lease_actions_hold)

lemma gone_grants:
  assumes "acquire_lease dg q = Ok l" and "capacity_add_update mib m now = Ok c"
  shows "grants q l [replace_gone_write current q l, c]"
  using acquire_lease_fields [OF assms(1)] assms(2)
  by (intro row_write_grants [where w = "replace_gone_write current q l"])
    (auto simp: replace_gone_write_def takeable_def row_state_def lease_actions_hold)

lemma attempt_grants:
  assumes "ml_attempt_id l = aq_attempt_id q" and "ml_reservation_id l = rid" and "ml_generation l = dr_generation current"
  shows "grants q l [take_attempt_write current rid aid q aexp]"
  using assms
  by (intro row_write_grants)
    (auto simp: take_attempt_write_def takeable_def row_state_def row_holds_def apply_actions_at)

text \<open>A run that hands out a lease made one successful write, which grants it.\<close>

definition granted :: "acquire_target \<Rightarrow> materialization_lease \<Rightarrow> (db_write list \<times> bool) list \<Rightarrow> bool" where
  "granted q l tr \<longleftrightarrow> (\<exists>ws. (ws, True) \<in> set tr \<and> grants q l ws)"

lemma granted_append: "granted q l tr \<Longrightarrow> granted q l (tr1 @ tr)"
  by (auto simp: granted_def)

lemma conditional_result_True:
  "conditional_result x r = Ok True \<longleftrightarrow> is_ok r" "Ok True = conditional_result x r \<longleftrightarrow> is_ok r"
  "transaction_result x r = Ok True \<longleftrightarrow> is_ok r" "Ok True = transaction_result x r \<longleftrightarrow> is_ok r"
  by (cases r; auto simp: conditional_result_def transaction_result_def split: if_splits)+

lemma runs_try_value:
  "runs (try_value r f) tr y \<longleftrightarrow> (\<exists>e. r = Err e \<and> y = Err e \<and> tr = []) \<or> (\<exists>x. r = Ok x \<and> runs (f x) tr y)"
  by (cases r) auto

lemma expired_runs:
  assumes "acquire_lease dg q = Ok l" and "runs (replace_expired_materialization current q l) tr (Ok True)"
  shows "granted q l tr"
  using assms(2) expired_grants [OF assms(1)]
  by (auto simp: replace_expired_materialization_def runs_try_value granted_def conditional_result_True)

lemma gone_runs:
  assumes "acquire_lease dg q = Ok l" and "runs (replace_gone_default m current q l) tr (Ok True)"
  shows "granted q l tr"
  using assms(2) gone_grants [OF assms(1)]
  by (auto simp: replace_gone_default_def runs_try_value granted_def conditional_result_True)

lemma attempt_runs:
  assumes "runs (take_expired_attempt current q) tr (Ok (Some l))"
  shows "granted q l tr"
proof -
  from assms obtain rid lr aid aexp0 texp lexp where st: "dr_state current = Materializing rid lr aid aexp0 texp lexp"
    by (auto simp: take_expired_attempt_def split: durable_target_state.splits)
  let ?aexp = "min (aq_now_ms q + aq_attempt_duration_ms q) lexp"
  from assms obtain r :: "(sdk_error, db_item option) result" where tr: "tr = [([take_attempt_write current rid aid q ?aexp], is_ok r)]"
    and r: "and_then (conditional_result ''take materialization attempt'' r) (\<lambda>taken. Ok
        (if \<not> taken then None
         else Some \<lparr>ml_key = dr_key current, ml_spec = dr_spec current,
           ml_spec_digest = dr_spec_digest current, ml_reservation_id = rid,
           ml_generation = dr_generation current, ml_launch_request = lr,
           ml_attempt_id = aq_attempt_id q, ml_attempt_expires_at_ms = ?aexp,
           ml_target_expires_at_ms = texp, ml_lease_expires_at_ms = lexp,
           ml_recovery_attempt = True\<rparr>)) = Ok (Some l)"
    by (auto simp: take_expired_attempt_def st runs_try_value Let_def split: if_splits)
  from r have "is_ok r" "ml_attempt_id l = aq_attempt_id q" "ml_reservation_id l = rid"
      "ml_generation l = dr_generation current"
    by (auto simp: result_iffs conditional_result_True split: if_splits)
  then show ?thesis using attempt_grants tr by (auto simp: granted_def)
qed

lemma read_runs: "runs (dynamo_read dg k) tr r \<Longrightarrow> tr = []"
  by (auto simp: dynamo_read_def)

lemma rate_capacity_runs:
  assumes "runs (rate_capacity m l p) tr (Ok x)"
  obtains tr1 tr2 where "runs p tr2 (Ok x)" "tr = tr1 @ tr2"
  using assms unfolding rate_capacity_def by (elim runs_try) (auto split: option.splits)

lemma acquire_row_runs:
  assumes "acquire_lease dg q = Ok l" and "runs (acquire_row dg m q l current again) tr (Ok (AAcquired l'))"
    and "\<And>tr'. runs again tr' (Ok (AAcquired l')) \<Longrightarrow> granted q l' tr'"
  shows "granted q l' tr"
proof (cases "dr_state current")
  case (Materializing rid lr aid aexp texp lexp)
  show ?thesis
  proof (cases "lexp \<le> aq_now_ms q")
    case True
    with assms(2) Materializing have "runs (try_then (replace_expired_materialization current q l)
        (\<lambda>replaced. if replaced then Return (Ok (AAcquired l)) else again)) tr (Ok (AAcquired l'))"
      by (simp add: acquire_row_def)
    then show ?thesis
      by (elim runs_try) (use assms(3) expired_runs [OF assms(1)] in \<open>auto split: if_splits intro: granted_append\<close>)
  next
    case False
    with assms(2) Materializing have "runs (try_then (take_expired_attempt current q)
        (\<lambda>recovered. case recovered of Some l' \<Rightarrow> Return (Ok (AAcquired l')) | None \<Rightarrow> again)) tr (Ok (AAcquired l'))"
      by (auto simp: acquire_row_def split: if_splits)
    then show ?thesis
      by (elim runs_try) (use assms(3) attempt_runs in \<open>auto split: option.splits intro: granted_append\<close>)
  qed
next
  case (Closed d reason at)
  with assms(2) have "runs (try_then (replace_gone_default m current q l) (\<lambda>replaced.
      if replaced then Return (Ok (AAcquired l))
      else try_then (dynamo_read dg (aq_key q)) (\<lambda>latest.
        if unchanged_gone current latest then rate_capacity m l again else again))) tr (Ok (AAcquired l'))"
    by (auto simp: acquire_row_def split: disposition.splits if_splits)
  then show ?thesis
  proof (rule runs_try)
    fix tr1 replaced tr2
    assume r: "runs (replace_gone_default m current q l) tr1 (Ok replaced)" "tr = tr1 @ tr2"
      "runs (if replaced then Return (Ok (AAcquired l))
        else try_then (dynamo_read dg (aq_key q)) (\<lambda>latest.
          if unchanged_gone current latest then rate_capacity m l again else again)) tr2 (Ok (AAcquired l'))"
    show ?thesis
    proof (cases replaced)
      case True
      then show ?thesis using r gone_runs [OF assms(1)] by auto
    next
      case False
      from r(3) False have "\<exists>tr3 tr4. tr2 = tr3 @ tr4 \<and> runs again tr4 (Ok (AAcquired l'))"
        by (auto elim!: runs_try rate_capacity_runs split: if_splits) (metis append_assoc)+
      then show ?thesis using r(2) granted_append assms(3) by metis
    qed
  qed simp
qed (use assms(2) in \<open>simp add: acquire_row_def\<close>)

lemma acquire_loop_runs:
  assumes "acquire_lease dg q = Ok l"
  shows "runs (acquire_loop dg m q l n) tr (Ok (AAcquired l')) \<Longrightarrow> granted q l' tr"
proof (induction n arbitrary: tr)
  case (Suc n)
  from Suc.prems show ?case unfolding acquire_loop.simps
  proof (rule runs_try)
    fix tr1 row tr2
    assume "runs (dynamo_read dg (aq_key q)) tr1 (Ok row)" "tr = tr1 @ tr2" and rest: "runs (case row of
         None \<Rightarrow> rate_capacity m l (Return (Err (MStorage
             ''target reservation transaction was cancelled despite available capacity'')))
       | Some current \<Rightarrow>
           try_value (record_validate dg current) (\<lambda>_.
             if dr_spec_digest current \<noteq> ml_spec_digest l then Return (Err MSpecConflict)
             else if aq_generation_is_fenced q \<and> dr_generation current \<noteq> ml_generation l
                     \<and> \<not> (aq_replace_after_loss q \<and> closed_lost (dr_state current))
             then Return (Err MSpecConflict)
             else acquire_row dg m q l current (acquire_loop dg m q l n))) tr2 (Ok (AAcquired l'))"
    then have tr: "tr = tr2" using read_runs by auto
    from rest obtain current where "runs (acquire_row dg m q l current (acquire_loop dg m q l n)) tr2 (Ok (AAcquired l'))"
      by (cases row) (auto simp: runs_try_value split: if_splits elim!: rate_capacity_runs)
    from acquire_row_runs [OF assms this] Suc.IH tr show ?case by simp
  qed simp
qed simp

lemma acquire_runs:
  assumes "runs (dynamo_acquire dg m q) tr (Ok (AAcquired l))"
  shows "granted q l tr"
proof -
  from assms obtain l0 c tr' and r :: "(sdk_error, unit) result" where l0: "acquire_lease dg q = Ok l0"
      "capacity_add_update (ts_materialized_mib (ml_spec l0)) m (aq_now_ms q) = Ok c"
    and tr: "tr = ([reserve_write l0 (aq_now_ms q), c], is_ok r) # tr'"
      "runs (case r of Ok _ \<Rightarrow> Return (Ok (AAcquired l0))
         | Err e \<Rightarrow> if \<not> transaction_cancelled e then Return (Err (storage_error ''reserve target'' e))
             else acquire_loop dg m q l0 4) tr' (Ok (AAcquired l))"
    by (auto simp: dynamo_acquire_def runs_try_value)
  show ?thesis
  proof (cases r)
    case (Inl e)
    then have "runs (acquire_loop dg m q l0 4) tr' (Ok (AAcquired l))" using tr(2) by (auto split: if_splits)
    from acquire_loop_runs [OF l0(1) this] granted_append [of q l tr' "[hd tr]"] show ?thesis using tr(1) by simp
  next
    case (Inr u)
    then show ?thesis using tr reserve_grants [OF l0] by (auto simp: granted_def)
  qed
qed

subsection \<open>A sample plane\<close>

text \<open>A service that answers every call and applies every write whose conditions hold.\<close>

definition sample_dynamo :: dynamo where
  "sample_dynamo =
     \<lparr>dy_get = (\<lambda>t k r. r = Ok (t k)),
      dy_write = (\<lambda>t ws e t'. if commits t ws then e = None \<and> t' = commit ws t
        else e = Some (ServiceError (Some ''ConditionalCheckFailedException'') None) \<and> t' = t),
      dy_query = (\<lambda>t q r. r = Err (SdkOther ''unavailable''))\<rparr>"

lemma sample_dynamo_ok: "dynamo_ok sample_dynamo"
  by (auto simp: dynamo_ok_def sample_dynamo_def split: if_splits)

abbreviation sample_requests :: "acquire_target set" where
  "sample_requests \<equiv> {sample_request ''attempt-1'' 5}"

lemma sample_requests_ok: "requests_ok {sample_spec} sample_requests"
  by (simp add: requests_ok_def)

definition sample_capacity_write :: db_write where
  "sample_capacity_write =
     Update capacity_key (COr (NotExists ''reserved_mib'') (AtMost ''reserved_mib'' 512))
       [SetPlus ''reserved_mib'' 512, SetTo ''updated_at_ms'' (attr_n 5)]"

abbreviation sample_reserve :: "db_write list" where
  "sample_reserve \<equiv> [reserve_write sample_lease 5, sample_capacity_write]"

lemma sample_spec_mib [simp]: "ts_materialized_mib sample_spec = 512"
  by (simp add: sample_spec_def)

lemma sample_write: "commits t ws \<Longrightarrow> dy_write sample_dynamo t ws None (commit ws t)"
  by (simp add: sample_dynamo_def del: commits_simps)

lemma sample_capacity_added: "capacity_add_update 512 1024 5 = Ok sample_capacity_write"
  by (simp add: capacity_add_update_def sample_capacity_write_def checked_sub_def)

text \<open>What the sample acquisition does with the reply to its transaction.\<close>

definition sample_reply :: "(sdk_error, unit) result \<Rightarrow> (materialization_error, acquire_outcome) result db_prog" where
  "sample_reply r =
     (case r of
        Ok _ \<Rightarrow> Return (Ok (AAcquired sample_lease))
      | Err e \<Rightarrow>
          if \<not> transaction_cancelled e then Return (Err (storage_error ''reserve target'' e))
          else acquire_loop sample_dg 1024 (sample_request ''attempt-1'' 5) sample_lease 4)"

lemma sample_acquire_prog:
  "dynamo_acquire sample_dg 1024 (sample_request ''attempt-1'' 5) = Transact sample_reserve sample_reply"
  by (simp add: dynamo_acquire_def sample_lease_acquired sample_capacity_added fun_eq_iff sample_reply_def)

lemma sample_commits: "commits Map.empty sample_reserve"
  by (simp add: reserve_write_def sample_capacity_write_def stored_def)

definition sample_install_prog :: "registry_reply db_prog" where
  "sample_install_prog = map_db_prog RInstall (dynamo_install sample_dg sample_lease sample_physical 5)"

definition reserved_table :: db_table where
  "reserved_table = commit sample_reserve Map.empty"

definition reserved_world :: "registry_reply db_world" where
  "reserved_world = \<lparr>dw_table = reserved_table, dw_clients = [0 \<mapsto> Return (RAcquire (Ok (AAcquired sample_lease)))]\<rparr>"

abbreviation sample_step :: "registry_reply db_world \<Rightarrow> registry_reply db_world \<Rightarrow> bool" where
  "sample_step \<equiv> world_step sample_dynamo (registry_client sample_dg 1024 {sample_spec} sample_requests)"

lemma reserved_world_reached: "sample_step\<^sup>*\<^sup>* empty_world reserved_world"
proof -
  let ?p = "map_db_prog RAcquire (dynamo_acquire sample_dg 1024 (sample_request ''attempt-1'' 5))"
  let ?w = "\<lparr>dw_table = Map.empty, dw_clients = [0 \<mapsto> ?p]\<rparr>"
  have "sample_step empty_world ?w"
    using step_start [of _ ?p empty_world 0 sample_dynamo]
      client_acquire [of "sample_request ''attempt-1'' 5" sample_requests sample_dg 1024 "{sample_spec}"] by simp
  moreover have "sample_step ?w reserved_world"
    using step_transact [of ?w 0 sample_reserve "map_db_prog RAcquire \<circ> sample_reply" sample_dynamo reserved_table]
      sample_write [OF sample_commits]
    by (simp add: sample_acquire_prog reserved_table_def reserved_world_def sample_reply_def
        del: commits_simps)
  ultimately show ?thesis by (meson converse_rtranclp_into_rtranclp r_into_rtranclp)
qed

lemma sample_row: "reserved_table sample_key = Some (materializing_item sample_lease 5)"
proof -
  have ik: "item_key (materializing_item sample_lease 5) = sample_key"
    by (simp add: item_key_def attr_s_def)
  have "sample_key \<noteq> capacity_key" by (simp add: sample_key_def capacity_key_def)
  then show ?thesis using ik
    by (simp add: reserved_table_def reserve_write_def sample_capacity_write_def)
qed

abbreviation sample_install_write :: db_write where
  "sample_install_write \<equiv> install_write sample_lease sample_physical 5"

lemma sample_install_commits: "commits reserved_table [sample_install_write]"
  by (simp add: install_write_def stored_def sample_row)

lemma sample_installed_row:
  "\<exists>i. commit [sample_install_write] reserved_table sample_key = Some i \<and> row_state i INSTALLED"
  by (simp add: install_write_def sample_row row_state_def apply_actions_at)

lemma installed_world_reached:
  "\<exists>w. sample_step\<^sup>*\<^sup>* empty_world w \<and> dw_table w = commit [sample_install_write] reserved_table"
proof -
  let ?p = "map_db_prog RInstall (dynamo_install sample_dg sample_lease sample_physical 5)"
  obtain c where c: "?p = WriteItem sample_install_write c" by (simp add: dynamo_install_def)
  let ?w = "reserved_world\<lparr>dw_clients := (dw_clients reserved_world)(1 \<mapsto> ?p)\<rparr>"
  have "sample_step reserved_world ?w"
    by (rule step_start) (auto simp: reserved_world_def intro: client_install)
  then have "sample_step\<^sup>*\<^sup>* empty_world ?w" using reserved_world_reached by (rule rtranclp.rtrancl_into_rtrancl [rotated])
  moreover define w' where "w' = ?w\<lparr>dw_table := commit [sample_install_write] reserved_table,
      dw_clients := (dw_clients ?w)(1 \<mapsto> c (Ok (commit [sample_install_write] reserved_table (write_key sample_install_write))))\<rparr>"
  have "sample_step ?w w'" unfolding w'_def
    by (rule step_write) (use c sample_write [OF sample_install_commits] in \<open>simp_all add: reserved_world_def\<close>)
  ultimately have "sample_step\<^sup>*\<^sup>* empty_world w'" by (rule rtranclp.rtrancl_into_rtrancl)
  moreover have "dw_table w' = commit [sample_install_write] reserved_table" by (simp add: w'_def)
  ultimately show ?thesis by blast
qed

subsection \<open>Properties\<close>

text \<open>
  C9. However many registry clients run, interleaved between any two of their calls, with calls
  that fail after being applied and clients that stop anywhere, the capacity row of the plane holds
  exactly the memory of the target rows that are not closed, and never more than the plane's limit;
  no request can reserve more than the plane has.
\<close>

theorem dynamo_capacity_accounted:
  assumes "dynamo_ok dy" and "digest_ok dg S" and "requests_ok S Q"
    and "(world_step dy (registry_client dg m S Q))\<^sup>*\<^sup>* empty_world w"
  shows "reserved_mib (dw_table w) = account row_charge (target_rows (dw_table w)) \<and> reserved_mib (dw_table w) \<le> m"
  using plane.reachable_keeps [OF assms(4,1) empty_world_ok(2) empty_world_ok(1) [OF assms(2,3)]]
  by (auto simp: table_inv_def sound_def)

theorem dynamo_capacity_accounted_witness:
  "reserved_mib reserved_table = account row_charge (target_rows reserved_table) \<and> reserved_mib reserved_table \<le> 1024"
  using dynamo_capacity_accounted [OF sample_dynamo_ok sample_digest_ok sample_requests_ok reserved_world_reached]
  by (simp add: reserved_world_def)

text \<open>
  In every interleaving a row that holds an installed target is left as it is by every step,
  or becomes a closed row; no acquisition, installation, lease expiry or purge touches it.
\<close>

theorem installed_row_only_closes:
  assumes "dynamo_ok dy" and "digest_ok dg S" and "requests_ok S Q"
    and "(world_step dy (registry_client dg m S Q))\<^sup>*\<^sup>* empty_world w"
    and "world_step dy (registry_client dg m S Q) w w'"
    and "dw_table w k = Some i" and "row_state i INSTALLED"
  shows "dw_table w' k = Some i \<or> (\<exists>j. dw_table w' k = Some j \<and> row_state j CLOSED)"
proof -
  note inv = plane.reachable_keeps [OF assms(4,1) empty_world_ok(2) empty_world_ok(1) [OF assms(2,3)]]
  from world_step_ok [OF assms(5,1) conjunct1 [OF inv] client_writes] show ?thesis
    using registry_write_frozen [OF _ conjunct2 [OF inv]] assms(6,7) by metis
qed

theorem installed_row_only_closes_witness:
  "\<exists>w w' i. sample_step w w' \<and> dw_table w sample_key = Some i \<and> row_state i INSTALLED \<and>
     (dw_table w' sample_key = Some i \<or> (\<exists>j. dw_table w' sample_key = Some j \<and> row_state j CLOSED))"
proof -
  obtain w where w: "sample_step\<^sup>*\<^sup>* empty_world w" "dw_table w = commit [sample_install_write] reserved_table"
    using installed_world_reached by blast
  obtain i where i: "dw_table w sample_key = Some i" "row_state i INSTALLED"
    using sample_installed_row w(2) by auto
  have "sample_step w (w\<lparr>dw_clients := (dw_clients w)(0 := None)\<rparr>)" by (rule step_leave)
  with installed_row_only_closes [OF sample_dynamo_ok sample_digest_ok sample_requests_ok w(1) this i] i
  show ?thesis by blast
qed

text \<open>
  C13. Whatever the service replies, an acquisition that returns a lease has made a successful
  conditional write which, at the instant it was applied, found the key absent, lost, or held by an
  expired lease or attempt, and left it as the reservation of exactly that lease under the caller's
  attempt id.
\<close>

theorem lease_rests_on_committed_write:
  assumes "runs (dynamo_acquire dg m q) tr (Ok (AAcquired l))"
  shows "\<exists>ws. (ws, True) \<in> set tr \<and> ml_attempt_id l = aq_attempt_id q \<and>
    (\<forall>t. keyed t \<longrightarrow> commits t ws \<longrightarrow>
       takeable (aq_now_ms q) (t (aq_key q)) \<and> row_holds l (commit ws t (aq_key q)))"
  using acquire_runs [OF assms] by (auto simp: granted_def grants_def)

theorem lease_rests_on_committed_write_witness:
  "\<exists>ws. (ws, True) \<in> set [(sample_reserve, True)] \<and>
    (\<forall>t. keyed t \<longrightarrow> commits t ws \<longrightarrow> row_holds sample_lease (commit ws t sample_key))"
proof -
  have "runs (sample_reply (Ok ())) [] (Ok (AAcquired sample_lease))" by (simp add: sample_reply_def)
  from runs_transact [of sample_reply "Ok ()" "[]", OF this, of sample_reserve]
  have "runs (dynamo_acquire sample_dg 1024 (sample_request ''attempt-1'' 5)) [(sample_reserve, True)]
      (Ok (AAcquired sample_lease))"
    by (simp only: sample_acquire_prog is_ok_simps)
  from lease_rests_on_committed_write [OF this] show ?thesis by (simp del: commits_simps)
qed

end
