(* ===== verification/Dynamo_Rows.thy ===== *)
theory Dynamo_Rows
  imports Dynamo_Plane
begin

section \<open>Rows of the DynamoDB registry and the records of the in-memory registry\<close>

text \<open>
  A row is read back as a durable record by \<open>parse_record\<close>. A freshly reserved row reads back as
  the record of its lease, and the update expressions of an installation and of a close act on a
  row as the in-memory registry acts on the record it reads back as; the conditional delete of a purge is the
  effect of \<open>purge_row\<close>.
\<close>

subsection \<open>Reading attributes\<close>

lemma item_string_at [simp]: "i a = Some (attr_s v) \<Longrightarrow> item_string i a = Ok v"
  by (simp add: item_string_def)

lemma item_number_at [simp]: "i a = Some (attr_n n) \<Longrightarrow> n \<le> U64_MAX \<Longrightarrow> item_number i a = Ok n"
  by (simp add: item_number_def parse_uint_show_nat)

lemma item_text_at [simp]: "i a = Some (AttrB b) \<Longrightarrow> utf8_valid b \<Longrightarrow> item_text i a = Ok b"
  by (simp add: item_text_def)


lemma item_string_Ok: "item_string i a = Ok v \<longleftrightarrow> i a = Some (attr_s v)"
  by (auto simp: item_string_def bind_eq_Some_conv attr_s_def elim: as_s.elims)

lemma item_cong:
  "i a = j a \<Longrightarrow> item_string i a = item_string j a"
  "i a = j a \<Longrightarrow> item_number i a = item_number j a"
  by (simp_all add: item_string_def item_number_def)

lemma utf8_ascii: "is_ascii s \<Longrightarrow> utf8_valid s"
  by (induction s) (auto simp: is_ascii_def)

lemma parse_spec_cong:
  assumes "\<And>a. a \<in> {''connector'', ''image_identity'', ''resource_class'', ''materialized_mib'',
    ''resource_policy_digest'', ''network_policy_digest''} \<Longrightarrow> i a = j a"
  shows "parse_spec i = parse_spec j"
  using assms by (simp add: parse_spec_def item_cong [of i _ j])

text \<open>A spec that \<open>TargetSpec::new\<close> made.\<close>

definition spec_valid :: "target_spec \<Rightarrow> bool" where
  "spec_valid s \<longleftrightarrow>
     spec_new (ts_connector s) (ts_image_identity s) (ts_resource_class s) (ts_materialized_mib s)
       (ts_resource_policy_digest s) (ts_network_policy_digest s) = Ok s"

lemma connector_roundtrip: "parse_connector (connector_value c) = Ok c"
  by (cases c) (simp_all add: parse_connector_def)

lemma spec_valid_mib: "spec_valid s \<Longrightarrow> ts_materialized_mib s \<le> U64_MAX"
  by (auto simp: spec_valid_def spec_new_def result_iffs MAX_MATERIALIZED_MIB_def U64_MAX_def)

lemma parse_spec_item: "spec_valid (ml_spec l) \<Longrightarrow> parse_spec (materializing_item l now) = Ok (ml_spec l)"
  using spec_valid_mib [of "ml_spec l"]
  by (simp add: parse_spec_def connector_roundtrip) (simp add: spec_valid_def)

lemma parse_record_Ok:
  "parse_record dg i = Ok r \<longleftrightarrow>
     item_string i ''root_id'' = Ok (tk_root_id (dr_key r)) \<and> item_string i ''target_key'' = Ok (tk_target_key (dr_key r))
     \<and> parse_spec i = Ok (dr_spec r) \<and> item_string i ''spec_digest'' = Ok (dr_spec_digest r)
     \<and> item_string i ''generation'' = Ok (dr_generation r)
     \<and> (\<exists>st. item_string i ''state'' = Ok st \<and> parse_state i st = Ok (dr_state r))
     \<and> item_number i ''updated_at_ms'' = Ok (dr_updated_at_ms r) \<and> record_ok dg r"
  by (cases r) (auto simp: parse_record_def result_iffs Let_def record_validate_Ok key_eta [OF refl])

subsection \<open>Fresh rows\<close>

lemma parse_materializing_item:
  assumes "valid_launch (ml_launch_request l)" and "utf8_valid (lr_expose (ml_launch_request l))"
    and "ml_attempt_expires_at_ms l \<le> U64_MAX" "ml_target_expires_at_ms l \<le> U64_MAX" "ml_lease_expires_at_ms l \<le> U64_MAX"
  shows "parse_materializing (materializing_item l now) =
    Ok (Materializing (ml_reservation_id l) (ml_launch_request l) (ml_attempt_id l)
      (ml_attempt_expires_at_ms l) (ml_target_expires_at_ms l) (ml_lease_expires_at_ms l))"
  using assms
  by (cases "ml_launch_request l")
    (simp add: parse_materializing_def launch_request_new_def valid_launch_def)

lemma parse_reserved_row:
  assumes "acquire_lease dg q = Ok l" and "spec_valid (aq_spec q)" and "valid_digest (dg (aq_spec q))"
    and "utf8_valid (lr_expose (aq_launch_request q))"
  shows "parse_record dg (materializing_item l (aq_now_ms q)) = Ok (record_from_lease l (aq_now_ms q))"
proof -
  have l: "ml_spec l = aq_spec q" "valid_launch (ml_launch_request l)" "ml_launch_request l = aq_launch_request q"
      "ml_attempt_expires_at_ms l \<le> U64_MAX" "ml_target_expires_at_ms l \<le> U64_MAX" "ml_lease_expires_at_ms l \<le> U64_MAX"
      "aq_now_ms q \<le> U64_MAX"
    using assms(1) by (auto simp: acquire_lease_Ok acquire_ok_def)
  have "record_ok dg (record_from_lease l (aq_now_ms q))"
    using leased_record(1) [OF assms(1), of "{aq_spec q}"] assms(3) by (simp add: digest_ok_def)
  moreover have "parse_state (materializing_item l (aq_now_ms q)) MATERIALIZING =
      Ok (dr_state (record_from_lease l (aq_now_ms q)))"
    using parse_materializing_item [of l] l assms(4) by (simp add: parse_state_def record_from_lease_def)
  ultimately show ?thesis
    using l assms(2) by (simp add: parse_record_Ok parse_spec_item)
qed

text \<open>
  The row that an acquisition writes for its lease reads back, through the parser and its
  validation, as exactly the record of that lease.
\<close>

theorem reserved_row_roundtrip:
  assumes "acquire_lease dg q = Ok l" and "spec_valid (aq_spec q)" and "valid_digest (dg (aq_spec q))"
    and "utf8_valid (lr_expose (aq_launch_request q))"
  shows "parse_record dg (materializing_item l (aq_now_ms q)) = Ok (record_from_lease l (aq_now_ms q))"
  by (rule parse_reserved_row [OF assms])

lemma sample_spec_valid: "spec_valid sample_spec"
  by (simp add: spec_valid_def spec_new_def sample_spec_def mat_validate_bounded_token_def mat_validate_eq
      validate_bounded_token_def MAX_IMAGE_IDENTITY_BYTES_def MAX_MATERIALIZED_MIB_def valid_identifier_def
      identifier_char_def ascii_defs ws_at_def ws_encodings_def starts_with_def)

theorem reserved_row_roundtrip_witness:
  "parse_record sample_dg (materializing_item sample_lease 5) = Ok (record_from_lease sample_lease 5)"
  using reserved_row_roundtrip [OF sample_lease_acquired] sample_spec_valid
  by (simp add: sample_request_def)

subsection \<open>Transitions of a row\<close>

text \<open>An update that leaves key, spec and digest alone and sets the rest of the record.\<close>

lemma parse_updated:
  assumes "parse_record dg i = Ok r"
    and "\<And>a. a \<in> {''root_id'', ''target_key'', ''spec_digest'', ''connector'', ''image_identity'', ''resource_class'',
      ''materialized_mib'', ''resource_policy_digest'', ''network_policy_digest''} \<Longrightarrow> j a = i a"
    and "j ''generation'' = Some (attr_s gen)" and "j ''state'' = Some (attr_s st)" and "parse_state j st = Ok ds"
    and "j ''updated_at_ms'' = Some (attr_n now)" and "now \<le> U64_MAX"
    and "valid_identifier gen" and "state_ok now ds"
  shows "parse_record dg j = Ok (r\<lparr>dr_state := ds, dr_generation := gen, dr_updated_at_ms := now\<rparr>)"
proof -
  have "parse_spec j = parse_spec i" by (rule parse_spec_cong) (use assms(2) in auto)
  moreover have "item_string j a = item_string i a" if "a \<in> {''root_id'', ''target_key'', ''spec_digest''}" for a
    using that assms(2) [of a] by (intro item_cong) auto
  moreover have "record_ok dg (r\<lparr>dr_state := ds, dr_generation := gen, dr_updated_at_ms := now\<rparr>)"
    using assms(1,8,9) by (simp add: parse_record_Ok record_ok_def)
  ultimately show ?thesis using assms by (simp add: parse_record_Ok)
qed



lemma lower_hex_ascii: "lower_hex c \<Longrightarrow> code c < 128"
  by (auto simp: lower_hex_def ascii_defs)

lemma control_token_utf8:
  assumes "control_token_new v = Ok ct"
  shows "utf8_valid v"
proof (rule utf8_ascii)
  from assms obtain hex where v: "v = ''control-'' @ hex" and "\<forall>c\<in>set hex. lower_hex c"
    by (auto simp: control_token_new_Ok_iff valid_digest_def list_all_iff)
  then have "\<forall>c\<in>set hex. code c < 128" using lower_hex_ascii by blast
  then show "is_ascii v" by (simp add: v is_ascii_def list_all_iff)
qed







lemma sample_row_parses:
  "parse_record sample_dg (materializing_item sample_lease 5) = Ok (record_from_lease sample_lease 5)"
  using parse_reserved_row [OF sample_lease_acquired] sample_spec_valid by (simp add: sample_request_def)


lemma close_row_at:
  assumes "t (it_key it) = Some i" and "j = stored (apply_write (close_write it d reason now) t) (it_key it)"
  shows "j ''generation'' = i ''generation''" "j ''state'' = Some (attr_s CLOSED)"
    "j ''updated_at_ms'' = Some (attr_n now)" "j ''disposition'' = Some (attr_s (disposition_value d))"
    "j ''reason'' = Some (attr_s reason)" "j ''at_ms'' = Some (attr_n now)"
    "a \<in> {''root_id'', ''target_key'', ''spec_digest'', ''connector'', ''image_identity'',
      ''resource_class'', ''materialized_mib'', ''resource_policy_digest'', ''network_policy_digest''} \<Longrightarrow> j a = i a"
proof -
  let ?acts = "case close_write it d reason now of Update k co acts \<Rightarrow> acts"
  have j: "j = apply_actions ?acts i" using assms by (simp add: close_write_def stored_def)
  show "j a = i a" if "a \<in> {''root_id'', ''target_key'', ''spec_digest'', ''connector'', ''image_identity'',
      ''resource_class'', ''materialized_mib'', ''resource_policy_digest'', ''network_policy_digest''}"
    unfolding j by (rule apply_actions_other) (use that in \<open>elim insertE emptyE; simp add: close_write_def\<close>)
qed (unfold assms(2), insert assms(1), simp_all add: close_write_def stored_def apply_actions_at)

lemma disposition_roundtrip: "parse_disposition (disposition_value d) = Ok d"
  by (cases d) (simp_all add: parse_disposition_def)

lemma installed_row:
  assumes "parse_record dg i = Ok r" and "i ''state'' = Some (attr_s INSTALLED)" and "i ''target_ref'' = Some (attr_s tref)"
  shows "\<exists>ct iat ex. dr_state r = Installed tref ct iat ex"
proof -
  from assms(1) obtain st where "item_string i ''state'' = Ok st" "parse_state i st = Ok (dr_state r)"
    by (auto simp: parse_record_Ok)
  then show ?thesis using assms(2,3)
    by (auto simp: parse_state_def parse_installed_def result_iffs dest!: sym [of _ "dr_state r"])
qed

text \<open>
  Where a row reads back as a record of the in-memory registry, a committed close turns it into
  a row that reads back as the record the in-memory \<open>mark_closed\<close> leaves under that key.
\<close>

theorem close_row_refines_memory:
  assumes "t (it_key it) = Some i" and "parse_record dg i = Ok r" and "it_key it \<noteq> capacity_key"
    and "commits t [close_write it d reason now, capacity_subtract_update (ts_materialized_mib (it_spec it)) now]"
    and "valid_reason reason" and "now \<le> U64_MAX" and "mr_records g (it_key it) = Some r"
  shows "\<exists>j r'. commit [close_write it d reason now, capacity_subtract_update (ts_materialized_mib (it_spec it)) now] t
      (it_key it) = Some j
    \<and> parse_record dg j = Ok r' \<and> mr_records (snd (mark_closed g it d reason now)) (it_key it) = Some r'"
proof -
  let ?c = "capacity_subtract_update (ts_materialized_mib (it_spec it)) now"
  define j where "j = stored (apply_write (close_write it d reason now) t) (it_key it)"
  have jt: "commit [close_write it d reason now, ?c] t (it_key it) = Some j"
    using capacity_frame(2) [OF assms(3)] by (simp add: j_def stored_def close_write_def)
  have c: "i ''state'' = Some (attr_s INSTALLED)" "i ''target_ref'' = Some (attr_s (it_target_ref it))"
      "i ''generation'' = Some (attr_s (it_generation it))"
    using assms(1,4) by (simp_all add: close_write_def stored_def)
  note j = close_row_at [OF assms(1) j_def]
  have gen: "dr_generation r = it_generation it" "valid_identifier (dr_generation r)"
    using assms(2) c(3) by (auto simp: parse_record_Ok record_ok_def)
  have "parse_record dg j = Ok (r\<lparr>dr_state := Closed d reason now, dr_generation := dr_generation r, dr_updated_at_ms := now\<rparr>)"
    by (rule parse_updated [OF assms(2) j(7) _ j(2) _ j(3) assms(6) gen(2)])
      (use j c gen assms(5,6) in \<open>simp_all add: parse_state_def parse_closed_def disposition_roundtrip\<close>)
  moreover have "holds_target r it"
    using installed_row [OF assms(2) c(1,2)] gen(1) by (auto simp: holds_target_def)
  then have "mr_records (snd (mark_closed g it d reason now)) (it_key it) =
      Some (r\<lparr>dr_state := Closed d reason now, dr_updated_at_ms := now\<rparr>)"
    using assms(5,7) by (simp add: mark_closed_def transition_installed_def mat_validate_eq)
  ultimately show ?thesis using jt by auto
qed

definition sample_installed_item :: db_item where
  "sample_installed_item = (materializing_item sample_lease 5)
     (''state'' \<mapsto> attr_s INSTALLED, ''target_ref'' \<mapsto> attr_s ''vm-1'',
      ''control_token'' \<mapsto> AttrB (''control-'' @ digest_a), ''installed_at_ms'' \<mapsto> attr_n 5)"

definition sample_installed_record :: durable_target_record where
  "sample_installed_record = (record_from_lease sample_lease 5)
     \<lparr>dr_state := Installed ''vm-1'' (ControlToken (''control-'' @ digest_a)) 5 105,
      dr_generation := ''generation-1'', dr_updated_at_ms := 5\<rparr>"

lemma sample_installed_at:
  "sample_installed_item ''state'' = Some (attr_s INSTALLED)" "sample_installed_item ''target_ref'' = Some (attr_s ''vm-1'')"
  "sample_installed_item ''control_token'' = Some (AttrB (''control-'' @ digest_a))"
  "sample_installed_item ''installed_at_ms'' = Some (attr_n 5)" "sample_installed_item ''expires_at_ms'' = Some (attr_n 105)"
  "sample_installed_item ''generation'' = Some (attr_s ''generation-1'')" "sample_installed_item ''updated_at_ms'' = Some (attr_n 5)"
  "sample_installed_item ''spec_digest'' = Some (attr_s digest_c)"
  by (simp_all add: sample_installed_item_def) (simp_all add: sample_lease_def)

lemma sample_control_token: "control_token_new (''control-'' @ digest_a) = Ok (ControlToken (''control-'' @ digest_a))"
  unfolding control_token_new_Ok_iff using sample_digests(1) by blast

lemma sample_installed_parses: "parse_record sample_dg sample_installed_item = Ok sample_installed_record"
  unfolding sample_installed_record_def
proof (rule parse_updated [OF sample_row_parses _ sample_installed_at(6,1) _ sample_installed_at(7)])
  show "parse_state sample_installed_item INSTALLED = Ok (Installed ''vm-1'' (ControlToken (''control-'' @ digest_a)) 5 105)"
    using sample_control_token control_token_utf8 [OF sample_control_token]
    by (simp add: parse_state_def parse_installed_def sample_installed_at U64_MAX_def)
qed (auto simp: sample_installed_item_def U64_MAX_def)

theorem close_row_refines_memory_witness:
  "\<exists>j r'. commit [close_write sample_target Lost ''gone'' 9, capacity_subtract_update 512 9]
       [sample_key \<mapsto> sample_installed_item, capacity_key \<mapsto> [''reserved_mib'' \<mapsto> attr_n 512]] sample_key = Some j
     \<and> parse_record sample_dg j = Ok r'
     \<and> mr_records (snd (mark_closed (put_record reserved_registry sample_key sample_installed_record)
           sample_target Lost ''gone'' 9)) sample_key = Some r'"
proof -
  let ?t = "[sample_key \<mapsto> sample_installed_item, capacity_key \<mapsto> [''reserved_mib'' \<mapsto> attr_n 512]]"
  have t: "it_key sample_target = sample_key" "it_spec sample_target = sample_spec" by (simp_all add: sample_target_def)
  have k: "sample_key \<noteq> capacity_key" by (simp add: sample_key_def capacity_key_def)
  then have c: "commits ?t [close_write sample_target Lost ''gone'' 9, capacity_subtract_update 512 9]"
    by (simp add: close_write_def capacity_subtract_update_def stored_def sample_target_def sample_installed_at num_test_def)
  show ?thesis
    using close_row_refines_memory [of ?t sample_target sample_installed_item sample_dg sample_installed_record
        Lost "''gone''" 9 "put_record reserved_registry sample_key sample_installed_record"] c k sample_installed_parses
    by (simp add: t put_record_def valid_reason_def MAX_REASON_BYTES_def U64_MAX_def del: commits_simps)
qed

subsection \<open>Released and purged rows\<close>

lemma attempt_row:
  assumes "parse_record dg i = Ok r"
  shows "holds_attempt r l \<longleftrightarrow> i ''state'' = Some (attr_s MATERIALIZING) \<and> i ''reservation_id'' = Some (attr_s (ml_reservation_id l))
    \<and> i ''generation'' = Some (attr_s (ml_generation l)) \<and> i ''attempt_id'' = Some (attr_s (ml_attempt_id l))"
proof -
  from assms obtain st where st: "i ''state'' = Some (attr_s st)" "parse_state i st = Ok (dr_state r)"
      "i ''generation'' = Some (attr_s (dr_generation r))"
    by (auto simp: parse_record_Ok item_string_Ok)
  then show ?thesis
    by (auto simp: parse_state_def parse_materializing_def parse_installed_def parse_closed_def result_iffs attr_s_def
        holds_attempt_def item_string_Ok split: if_splits dest!: sym [of _ "dr_state r"])
qed

text \<open>
  The conditional delete with which \<open>expire_lease\<close> releases the row of an attempt has the condition and the effect of the in-memory one.
\<close>

theorem release_row_refines_memory:
  assumes "case t (ml_key l) of None \<Rightarrow> mr_records g (ml_key l) = None
      | Some i \<Rightarrow> (\<exists>r. parse_record dg i = Ok r \<and> mr_records g (ml_key l) = Some r)"
  shows "if commits t [release_write l]
    then commit [release_write l] t = t(ml_key l := None)
      \<and> mr_records (snd (expire_lease g l now)) = (mr_records g)(ml_key l := None)
    else snd (expire_lease g l now) = g"
proof (cases "t (ml_key l)")
  case None
  then show ?thesis using assms by (simp add: release_write_def expire_lease_def stored_def)
next
  case (Some i)
  then obtain r where r: "parse_record dg i = Ok r" "mr_records g (ml_key l) = Some r" using assms by auto
  then have "commits t [release_write l] = holds_attempt r l"
    using Some by (simp add: attempt_row release_write_def stored_def)
  then show ?thesis using r(2) by (simp add: release_write_def expire_lease_def)
qed

theorem release_row_refines_memory_witness:
  "commits [sample_key \<mapsto> materializing_item sample_lease 5] [release_write sample_lease]
   \<and> mr_records (snd (expire_lease reserved_registry sample_lease 9)) sample_key = None"
proof -
  have "commits [sample_key \<mapsto> materializing_item sample_lease 5] [release_write sample_lease]"
    by (simp add: release_write_def stored_def)
  then show ?thesis
    using release_row_refines_memory [where t = "[sample_key \<mapsto> materializing_item sample_lease 5]" and l = sample_lease
        and g = reserved_registry and dg = sample_dg and now = 9] sample_row_parses
    by (simp add: reserved_registry_def del: commits_simps)
qed

lemma closed_row:
  assumes "parse_record dg i = Ok r"
  shows "i ''state'' = Some (attr_s CLOSED) \<longleftrightarrow> (\<exists>d reason at. dr_state r = Closed d reason at)"
proof -
  from assms obtain st where st: "i ''state'' = Some (attr_s st)" "parse_state i st = Ok (dr_state r)"
    by (auto simp: parse_record_Ok item_string_Ok)
  then show ?thesis
    by (auto simp: parse_state_def parse_materializing_def parse_installed_def parse_closed_def result_iffs attr_s_def
        split: if_splits dest!: sym [of _ "dr_state r"])
qed

text \<open>
  The conditional delete of \<open>purge_terminal\<close> and the purge of a record agree: where a row reads back as a
  record, or both are absent, the delete commits exactly when the record is purged, and then the row is gone and no other row changes.
\<close>

theorem purge_row_refines_memory:
  assumes "case t k of None \<Rightarrow> mr_records g k = None | Some i \<Rightarrow> (\<exists>r. parse_record dg i = Ok r \<and> mr_records g k = Some r)"
    and "w = Delete k (CAnd (Equals ''generation'' (attr_s gen)) (Equals ''state'' (attr_s CLOSED)))"
  shows "if commits t [w] then commit [w] t = t(k := None) \<and> purge_row g k gen = g\<lparr>mr_records := (mr_records g)(k := None)\<rparr>
    else purge_row g k gen = g"
proof (cases "t k")
  case None
  then show ?thesis using assms by (simp add: purge_row_def stored_def)
next
  case (Some i)
  then obtain r where r: "parse_record dg i = Ok r" "mr_records g k = Some r" using assms(1) by auto
  then have "i ''generation'' = Some (attr_s (dr_generation r))" by (simp add: parse_record_Ok item_string_Ok)
  then show ?thesis
    using assms(2) Some r closed_row [OF r(1)]
    by (auto simp: purge_row_def stored_def attr_s_def split: durable_target_state.splits)
qed

definition sample_closed_item :: db_item where
  "sample_closed_item = (materializing_item sample_lease 5)
     (''state'' \<mapsto> attr_s CLOSED, ''disposition'' \<mapsto> attr_s (disposition_value Lost), ''reason'' \<mapsto> attr_s ''gone'', ''at_ms'' \<mapsto> attr_n 5)"

definition sample_closed_record :: durable_target_record where
  "sample_closed_record = (record_from_lease sample_lease 5)
     \<lparr>dr_state := Closed Lost ''gone'' 5, dr_generation := ''generation-1'', dr_updated_at_ms := 5\<rparr>"

lemma sample_closed_at:
  "sample_closed_item ''state'' = Some (attr_s CLOSED)" "sample_closed_item ''disposition'' = Some (attr_s (disposition_value Lost))"
  "sample_closed_item ''reason'' = Some (attr_s ''gone'')" "sample_closed_item ''at_ms'' = Some (attr_n 5)"
  "sample_closed_item ''generation'' = Some (attr_s ''generation-1'')" "sample_closed_item ''updated_at_ms'' = Some (attr_n 5)"
  by (simp_all add: sample_closed_item_def) (simp_all add: sample_lease_def)

lemma sample_closed_parses: "parse_record sample_dg sample_closed_item = Ok sample_closed_record"
  unfolding sample_closed_record_def
proof (rule parse_updated [OF sample_row_parses _ sample_closed_at(5,1) _ sample_closed_at(6)])
  show "parse_state sample_closed_item CLOSED = Ok (Closed Lost ''gone'' 5)"
    by (simp add: parse_state_def parse_closed_def sample_closed_at disposition_roundtrip [of Lost, simplified] U64_MAX_def)
qed (auto simp: sample_closed_item_def U64_MAX_def valid_reason_def MAX_REASON_BYTES_def)

theorem purge_row_refines_memory_witness:
  "\<exists>w. w = Delete sample_key (CAnd (Equals ''generation'' (attr_s ''generation-1'')) (Equals ''state'' (attr_s CLOSED)))
     \<and> commits [sample_key \<mapsto> sample_closed_item] [w]
     \<and> mr_records (purge_row (put_record reserved_registry sample_key sample_closed_record) sample_key ''generation-1'') sample_key = None"
proof -
  let ?w = "Delete sample_key (CAnd (Equals ''generation'' (attr_s ''generation-1'')) (Equals ''state'' (attr_s CLOSED)))"
  have "commits [sample_key \<mapsto> sample_closed_item] [?w]" by (simp add: stored_def sample_closed_at)
  then show ?thesis
    using purge_row_refines_memory [where t = "[sample_key \<mapsto> sample_closed_item]" and k = sample_key
        and g = "put_record reserved_registry sample_key sample_closed_record" and dg = sample_dg and w = ?w and gen = "''generation-1''"] sample_closed_parses
    by (simp add: put_record_def del: commits_simps)
qed

end
