(* ===== verification/Guest_Tasks.thy ===== *)
theory Guest_Tasks
  imports Hand_Prelude
begin

section \<open>Tasks that share state under locks\<close>

text \<open>
  The handlers of the guest are asynchronous functions over state behind locks. A task is what is
  left of such a function: it has returned, or its next locked region is to be run, as one change
  of the shared state followed by the rest of the function. What a region learns from outside (the
  clock, the outcome of a file operation, the result of a child process) is the input \<open>'i\<close> of that
  step. Between two regions any other task may run, so any interleaving of the handlers is a run of
  their tasks.

  \<open>sound I R G Q t s\<close> is what a task may be relied on for, whatever runs beside it within \<open>R\<close>: from any
  later state it keeps the invariant \<open>I\<close>, changes the state within its guarantee \<open>G\<close>, and returns a
  value for which \<open>Q\<close> holds.
\<close>

subsection \<open>Tasks\<close>

datatype ('i, 's, 'a) task =
    Return 'a
  | Atomic "'s \<Rightarrow> bool" "'i \<Rightarrow> 's \<Rightarrow> 's" "'i \<Rightarrow> 's \<Rightarrow> ('i, 's, 'a) task"

text \<open>A locked region; it is entered once its guard holds.\<close>

definition await_region :: "('s \<Rightarrow> bool) \<Rightarrow> ('i \<Rightarrow> 's \<Rightarrow> 'a \<times> 's) \<Rightarrow> ('i, 's, 'a) task" where
  "await_region g f = Atomic g (\<lambda>i s. snd (f i s)) (\<lambda>i s. Return (fst (f i s)))"

abbreviation region :: "('i \<Rightarrow> 's \<Rightarrow> 'a \<times> 's) \<Rightarrow> ('i, 's, 'a) task" where
  "region \<equiv> await_region (\<lambda>_. True)"

definition read_region :: "('i \<Rightarrow> 's \<Rightarrow> 'a) \<Rightarrow> ('i, 's, 'a) task" where
  "read_region f = region (\<lambda>i s. (f i s, s))"

primrec task_bind :: "('i, 's, 'a) task \<Rightarrow> ('a \<Rightarrow> ('i, 's, 'b) task) \<Rightarrow> ('i, 's, 'b) task" where
  "task_bind (Return a) f = f a"
| "task_bind (Atomic g u k) f = Atomic g u (\<lambda>i s. task_bind (k i s) f)"

text \<open>\<open>task_try t f\<close> is \<open>f(t.await?)\<close>: an error returns early.\<close>

definition task_try ::
    "('i, 's, ('e, 'a) result) task \<Rightarrow> ('a \<Rightarrow> ('i, 's, ('e, 'b) result) task) \<Rightarrow> ('i, 's, ('e, 'b) result) task"
where
  "task_try t f = task_bind t (\<lambda>r. case r of Inl e \<Rightarrow> Return (Inl e) | Inr x \<Rightarrow> f x)"

definition task_check ::
    "('e, 'a) result \<Rightarrow> ('a \<Rightarrow> ('i, 's, ('e, 'b) result) task) \<Rightarrow> ('i, 's, ('e, 'b) result) task" where
  "task_check r f = (case r of Inl e \<Rightarrow> Return (Inl e) | Inr x \<Rightarrow> f x)"

definition task_map :: "('a \<Rightarrow> 'b) \<Rightarrow> ('i, 's, 'a) task \<Rightarrow> ('i, 's, 'b) task" where
  "task_map f t = task_bind t (\<lambda>a. Return (f a))"

subsection \<open>Soundness of a task\<close>

primrec sound ::
    "('s \<Rightarrow> bool) \<Rightarrow> ('s \<Rightarrow> 's \<Rightarrow> bool) \<Rightarrow> ('s \<Rightarrow> 's \<Rightarrow> bool) \<Rightarrow> ('a \<Rightarrow> 's \<Rightarrow> bool)
      \<Rightarrow> ('i, 's, 'a) task \<Rightarrow> 's \<Rightarrow> bool" where
  "sound I R G Q (Return a) s = (\<forall>s'. R s s' \<longrightarrow> I s' \<longrightarrow> Q a s')"
| "sound I R G Q (Atomic g u k) s =
     (\<forall>s' i. R s s' \<longrightarrow> I s' \<longrightarrow> g s' \<longrightarrow>
        I (u i s') \<and> G s' (u i s') \<and> sound I R G Q (k i s') (u i s'))"

text \<open>What may happen between the steps of a task.\<close>

locale task_rely =
  fixes R :: "'s \<Rightarrow> 's \<Rightarrow> bool"
  assumes refl: "R s s" and trans: "R s s' \<Longrightarrow> R s' s'' \<Longrightarrow> R s s''"
begin

lemma sound_later: "sound I R G Q t s \<Longrightarrow> R s s' \<Longrightarrow> sound I R G Q t s'"
  by (cases t) (auto intro: trans)

text \<open>A task keeps a stronger invariant if its guarantee does.\<close>

lemma sound_stronger:
  assumes "sound I R G Q t s" and "\<And>s. J s \<Longrightarrow> I s"
    and "\<And>s s'. J s \<Longrightarrow> I s' \<Longrightarrow> G s s' \<Longrightarrow> J s' \<and> G' s s'"
  shows "sound J R G' Q t s"
  using assms(1)
proof (induction t arbitrary: s)
  case (Return a)
  then show ?case using assms(2) by simp
next
  case (Atomic g u k)
  have "J (u i s') \<and> G' s' (u i s') \<and> sound J R G' Q (k i s') (u i s')" if "R s s'" "J s'" "g s'" for s' i
    using Atomic.prems that assms(2) [OF that(2)] assms(3) [OF that(2)] Atomic.IH by simp blast
  then show ?case by simp
qed

end

text \<open>The contract of a component: \<open>I\<close> always holds, and its own steps are within \<open>G\<close>.\<close>

locale task_contract = task_rely R
  for R :: "'s \<Rightarrow> 's \<Rightarrow> bool" +
  fixes I :: "'s \<Rightarrow> bool" and G :: "'s \<Rightarrow> 's \<Rightarrow> bool"
  assumes guarantee: "G s s' \<Longrightarrow> R s s'" and idle: "G s s"
begin

lemma sound_mono:
  assumes "sound I R G Q t s" and "\<And>a s. I s \<Longrightarrow> Q a s \<Longrightarrow> Q' a s"
  shows "sound I R G Q' t s"
  using assms(1) by (induction t arbitrary: s) (simp add: assms(2), simp, blast)

lemma sound_from_later: "(\<And>s'. R s s' \<Longrightarrow> I s' \<Longrightarrow> sound I R G Q t s') \<Longrightarrow> sound I R G Q t s"
  by (cases t) (simp, metis refl)+

lemma sound_bind:
  assumes "sound I R G (\<lambda>a. sound I R G Q (f a)) t s"
  shows "sound I R G Q (task_bind t f) s"
  using assms by (induction t arbitrary: s) (simp add: sound_from_later, simp, blast)

lemma sound_strengthen: "sound I R G Q t s \<Longrightarrow> sound I R G (\<lambda>a s'. Q a s' \<and> R s s' \<and> I s') t s"
proof (induction t arbitrary: s)
  case (Atomic g u k)
  have "sound I R G (\<lambda>a s''. Q a s'' \<and> R s s'' \<and> I s'') (k i s') (u i s')"
    if "R s s'" "I s'" "g s'" for s' i
  proof -
    have now: "sound I R G Q (k i s') (u i s')" "G s' (u i s')" using Atomic.prems that by auto
    have "R s (u i s')" using that(1) guarantee [OF now(2)] by (rule trans)
    then show ?thesis
      by (intro sound_mono [OF Atomic.IH [OF rangeI rangeI now(1)]]) (use trans in blast)
  qed
  then show ?case using Atomic.prems by simp
qed simp

lemma sound_bindI:
  assumes "sound I R G P t s" and "\<And>a s'. R s s' \<Longrightarrow> I s' \<Longrightarrow> P a s' \<Longrightarrow> sound I R G Q (f a) s'"
  shows "sound I R G Q (task_bind t f) s"
  by (rule sound_bind, rule sound_mono [OF sound_strengthen [OF assms(1)]]) (use assms(2) in blast)

text \<open>Handlers return results; what they promise is about a value that is not an error.\<close>

lemma sound_tryI:
  assumes "sound I R G (case_sum (\<lambda>_ _. True) P) t s"
    and "\<And>x s'. R s s' \<Longrightarrow> I s' \<Longrightarrow> P x s' \<Longrightarrow> sound I R G (case_sum (\<lambda>_ _. True) Q) (f x) s'"
  shows "sound I R G (case_sum (\<lambda>_ _. True) Q) (task_try t f) s"
  unfolding task_try_def
  by (rule sound_bindI [OF assms(1)]) (use assms(2) in \<open>auto split: sum.splits\<close>)

lemma sound_checkI:
  "(\<And>x. r = Inr x \<Longrightarrow> sound I R G (case_sum (\<lambda>_ _. True) Q) (f x) s) \<Longrightarrow>
     sound I R G (case_sum (\<lambda>_ _. True) Q) (task_check r f) s"
  by (simp add: task_check_def split: sum.splits)

lemma sound_map: "sound I R G (\<lambda>a. Q (f a)) t s \<Longrightarrow> sound I R G Q (task_map f t) s"
  unfolding task_map_def
  by (induction t arbitrary: s) (simp, simp, blast)

lemma sound_region:
  assumes "\<And>s' i a s''. R s s' \<Longrightarrow> I s' \<Longrightarrow> g s' \<Longrightarrow> f i s' = (a, s'') \<Longrightarrow>
      I s'' \<and> G s' s'' \<and> (\<forall>t. R s'' t \<longrightarrow> I t \<longrightarrow> Q a t)"
  shows "sound I R G Q (await_region g f) s"
proof -
  have "I (snd (f i s')) \<and> G s' (snd (f i s')) \<and> (\<forall>t. R (snd (f i s')) t \<longrightarrow> I t \<longrightarrow> Q (fst (f i s')) t)"
    if "R s s'" "I s'" "g s'" for s' i
    using assms [OF that, of i "fst (f i s')" "snd (f i s')"] by simp
  then show ?thesis by (simp add: await_region_def)
qed

lemma sound_read:
  assumes "\<And>s' i t. R s s' \<Longrightarrow> I s' \<Longrightarrow> R s' t \<Longrightarrow> I t \<Longrightarrow> Q (f i s') t"
  shows "sound I R G Q (read_region f) s"
  unfolding read_region_def by (rule sound_region) (use assms idle in auto)

end

subsection \<open>Worlds of tasks\<close>

text \<open>
  A world is the shared state with the tasks in progress, each with the request it serves. A step
  runs one region of one task; a region may hand executions to the runtime, which become tasks
  (\<open>spawned\<close> names them by the request they serve); \<open>external\<close> requests arrive at any time; and the runtime
  may drop a task between two regions, as it does when a connection is closed.
\<close>

record ('q, 'i, 's, 'a) task_world =
  w_state :: 's
  w_tasks :: "('q \<times> ('i, 's, 'a) task) list"

inductive tasks_step ::
    "('q \<Rightarrow> ('i, 's, 'a) task) \<Rightarrow> ('s \<Rightarrow> 'q list) \<Rightarrow> ('q \<Rightarrow> bool)
      \<Rightarrow> ('q, 'i, 's, 'a) task_world \<Rightarrow> ('q, 'i, 's, 'a) task_world \<Rightarrow> bool"
  for serve spawned external where
  arrive: "external q \<Longrightarrow> tasks_step serve spawned external w (w\<lparr>w_tasks := w_tasks w @ [(q, serve q)]\<rparr>)"
| run: "n < length (w_tasks w) \<Longrightarrow> w_tasks w ! n = (q, Atomic g u k) \<Longrightarrow> g (w_state w) \<Longrightarrow>
    new = drop (length (spawned (w_state w))) (spawned (u i (w_state w))) \<Longrightarrow>
    tasks_step serve spawned external w
      \<lparr>w_state = u i (w_state w),
       w_tasks = (w_tasks w)[n := (q, k i (w_state w))] @ map (\<lambda>q. (q, serve q)) new\<rparr>"
| drop: "n < length (w_tasks w) \<Longrightarrow>
    tasks_step serve spawned external w (w\<lparr>w_tasks := take n (w_tasks w) @ drop (Suc n) (w_tasks w)\<rparr>)"

definition tasks_ok ::
    "('s \<Rightarrow> bool) \<Rightarrow> ('s \<Rightarrow> 's \<Rightarrow> bool) \<Rightarrow> ('q \<Rightarrow> 's \<Rightarrow> 's \<Rightarrow> bool) \<Rightarrow> ('q \<Rightarrow> 'a \<Rightarrow> 's \<Rightarrow> bool)
      \<Rightarrow> ('q, 'i, 's, 'a) task_world \<Rightarrow> bool" where
  "tasks_ok I R G Q w \<longleftrightarrow>
     I (w_state w) \<and> (\<forall>(q, t) \<in> set (w_tasks w). sound I R (G q) (Q q) t (w_state w))"

text \<open>Handlers that are sound from every state of the invariant, each with its own guarantee.\<close>

locale sound_handlers = task_rely R
  for R :: "'s \<Rightarrow> 's \<Rightarrow> bool" +
  fixes I :: "'s \<Rightarrow> bool" and G :: "'q \<Rightarrow> 's \<Rightarrow> 's \<Rightarrow> bool" and serve :: "'q \<Rightarrow> ('i, 's, 'a) task"
    and Q :: "'q \<Rightarrow> 'a \<Rightarrow> 's \<Rightarrow> bool" and spawned :: "'s \<Rightarrow> 'q list" and external :: "'q \<Rightarrow> bool"
  assumes guaranteed: "G q s s' \<Longrightarrow> R s s'" and serve_sound: "I s \<Longrightarrow> sound I R (G q) (Q q) (serve q) s"
begin

lemma tasks_step_sound:
  assumes "tasks_step serve spawned external w w'" and "tasks_ok I R G Q w"
  shows "tasks_ok I R G Q w' \<and> R (w_state w) (w_state w')"
  using assms
proof (induction rule: tasks_step.induct)
  case (arrive q w)
  then show ?case using serve_sound refl by (auto simp: tasks_ok_def)
next
  case (run n w q g u k new i)
  have I: "I (w_state w)" and all: "\<And>q t. (q, t) \<in> set (w_tasks w) \<Longrightarrow> sound I R (G q) (Q q) t (w_state w)"
    using run.prems by (auto simp: tasks_ok_def)
  have "(q, Atomic g u k) \<in> set (w_tasks w)" using run.hyps(1,2) by (metis nth_mem)
  from all [OF this] run.hyps(3) I refl
  have now: "I (u i (w_state w))" "G q (w_state w) (u i (w_state w))"
      "sound I R (G q) (Q q) (k i (w_state w)) (u i (w_state w))" by auto
  have later: "R (w_state w) (u i (w_state w))" using guaranteed [OF now(2)] .
  have "sound I R (G p) (Q p) t (u i (w_state w))"
    if "(p, t) \<in> set ((w_tasks w)[n := (q, k i (w_state w))])" for p t
    using that set_update_subset_insert [of "w_tasks w" n] now later all sound_later by blast
  then show ?case using now later serve_sound by (auto simp: tasks_ok_def)
next
  case (drop n w)
  then show ?case using refl by (auto simp: tasks_ok_def dest: in_set_takeD in_set_dropD)
qed

lemma tasks_run_sound:
  assumes "(tasks_step serve spawned external)\<^sup>*\<^sup>* w w'" and "tasks_ok I R G Q w"
  shows "tasks_ok I R G Q w' \<and> R (w_state w) (w_state w')"
  using assms
proof (induction rule: rtranclp_induct)
  case (step v w')
  then show ?case using tasks_step_sound [OF step.hyps(2)] trans by blast
qed (use refl in blast)

lemma run_invariant:
  "(tasks_step serve spawned external)\<^sup>*\<^sup>* w w' \<Longrightarrow> I (w_state w) \<Longrightarrow> w_tasks w = [] \<Longrightarrow>
     I (w_state w') \<and> R (w_state w) (w_state w')"
  using tasks_run_sound [of w w'] by (auto simp: tasks_ok_def)

lemma run_returns:
  assumes "(tasks_step serve spawned external)\<^sup>*\<^sup>* w w'" and "I (w_state w)" and "w_tasks w = []"
    and "(q, Return a) \<in> set (w_tasks w')"
  shows "Q q a (w_state w')"
  using tasks_run_sound [OF assms(1)] assms(2-4) refl by (fastforce simp: tasks_ok_def)

end

subsection \<open>Runs of one task\<close>

text \<open>
  \<open>drive\<close> runs a task alone through regions with the given inputs, and collects the requests its
  regions hand to the runtime. A world can always do that with one of its tasks.
\<close>

fun drive :: "('s \<Rightarrow> 'q list) \<Rightarrow> 'i list \<Rightarrow> ('i, 's, 'a) task \<Rightarrow> 's \<Rightarrow> (('i, 's, 'a) task \<times> 's \<times> 'q list) option" where
  "drive sp [] t s = Some (t, s, [])"
| "drive sp (i # inputs) (Return a) s = None"
| "drive sp (i # inputs) (Atomic g u k) s =
     (if g s
      then map_option (\<lambda>(t, s', qs). (t, s', drop (length (sp s)) (sp (u i s)) @ qs)) (drive sp inputs (k i s) (u i s))
      else None)"

lemma drive_region:
  "drive sp (i # inputs) (task_bind (await_region g f) k) s =
     (if g s
      then map_option (\<lambda>(t, s', qs). (t, s', drop (length (sp s)) (sp (snd (f i s))) @ qs))
             (drive sp inputs (k (fst (f i s))) (snd (f i s)))
      else None)"
  by (simp add: await_region_def)

lemma drive_read:
  "drive sp (i # inputs) (task_bind (read_region f) k) s = drive sp inputs (k (f i s)) s"
  by (simp add: read_region_def drive_region map_option.id [unfolded id_def] option.map_ident case_prod_unfold)

lemma drive_last:
  "drive sp (i # inputs) (await_region g f) s =
     (if g s
      then map_option (\<lambda>(t, s', qs). (t, s', drop (length (sp s)) (sp (snd (f i s))) @ qs))
             (drive sp inputs (Return (fst (f i s))) (snd (f i s)))
      else None)"
  by (simp add: await_region_def)

lemma drive_append:
  assumes "drive sp inputs t s = Some (t', s', qs)"
  shows "drive sp (inputs @ later_inputs) t s = map_option (\<lambda>(t'', s'', qs'). (t'', s'', qs @ qs')) (drive sp later_inputs t' s')"
  using assms
proof (induction inputs arbitrary: t s qs)
  case Nil
  then show ?case by (cases "drive sp later_inputs t' s'") auto
next
  case (Cons i inputs)
  then obtain g u k where t: "t = Atomic g u k" by (cases t) auto
  from Cons.prems t obtain qs' where g: "g s" and qs: "qs = drop (length (sp s)) (sp (u i s)) @ qs'"
    and rest: "drive sp inputs (k i s) (u i s) = Some (t', s', qs')"
    by (auto split: if_splits)
  show ?case using Cons.IH [OF rest] t g qs by (cases "drive sp later_inputs t' s'") auto
qed

lemma task_bind_assoc: "task_bind (task_bind t f) k = task_bind t (\<lambda>a. task_bind (f a) k)"
  by (induction t) (simp, simp add: fun_eq_iff, blast)

lemma task_bind_case_sum:
  "task_bind (case_sum f g r) k = case_sum (\<lambda>e. task_bind (f e) k) (\<lambda>x. task_bind (g x) k) r"
  by (cases r) simp_all

lemma drive_runs:
  assumes "drive sp inputs t (w_state w) = Some (t', s', qs)" and "n < length (w_tasks w)" and "w_tasks w ! n = (q, t)"
  shows "(tasks_step serve sp external)\<^sup>*\<^sup>* w
    \<lparr>w_state = s', w_tasks = (w_tasks w)[n := (q, t')] @ map (\<lambda>q. (q, serve q)) qs\<rparr>"
  using assms
proof (induction inputs arbitrary: t w qs)
  case Nil
  then have "\<lparr>w_state = s', w_tasks = (w_tasks w)[n := (q, t')] @ map (\<lambda>q. (q, serve q)) qs\<rparr> = w"
    by (cases w) (auto simp: list_update_same_conv)
  then show ?case by simp
next
  case (Cons i inputs)
  then obtain g u k where t: "t = Atomic g u k" by (cases t) auto
  let ?new = "drop (length (sp (w_state w))) (sp (u i (w_state w)))"
  let ?w1 = "\<lparr>w_state = u i (w_state w), w_tasks = (w_tasks w)[n := (q, k i (w_state w))] @ map (\<lambda>q. (q, serve q)) ?new\<rparr>"
  from Cons.prems t obtain qs' where g: "g (w_state w)" and qs: "qs = ?new @ qs'"
    and rest: "drive sp inputs (k i (w_state w)) (u i (w_state w)) = Some (t', s', qs')"
    by (auto split: if_splits)
  have "tasks_step serve sp external w ?w1"
    using run [of n w q g u k ?new sp i serve external] Cons.prems(2,3) t g by simp
  moreover have "(tasks_step serve sp external)\<^sup>*\<^sup>* ?w1
      \<lparr>w_state = s', w_tasks = (w_tasks ?w1)[n := (q, t')] @ map (\<lambda>q. (q, serve q)) qs'\<rparr>"
    by (rule Cons.IH) (use rest Cons.prems(2) in \<open>simp_all add: nth_append\<close>)
  ultimately show ?case
    using Cons.prems(2) qs by (simp add: list_update_append converse_rtranclp_into_rtranclp)
qed

end
