(* ===== verification/Guest_Protocol.thy ===== *)
theory Guest_Protocol
  imports Operation_Registry Ack_Store File_Effects Paging
begin

section \<open>Brain's protocol at the guest: values, errors, receipts\<close>

text \<open>
  The values of Brain's protocol crate that the guest builds and reads, the projection of errors
  (\<open>hand-guest/src/errors.rs\<close>) and the receipts with the validation of requests
  (\<open>hand-guest/src/hand/receipts.rs\<close>). The crate itself is not part of the repository: its digests,
  its parsers, the canonical JSON forms and its bounds are the fields of \<open>brain\<close>. A field of a
  protocol value that the guest only passes on is in \<open>bytes\<close>.
\<close>

subsection \<open>Protocol values\<close>

datatype hand_error_code =
    InvalidRequest | FileNotFound | OperationUnknown | BindingConflict | OperationConflict
  | GenerationConflict | SandboxNotMaterialized | SandboxGone | ResourceExhausted
  | CapabilityUnavailable | TemporarilyUnavailable

record hand_error =
  he_code :: hand_error_code
  he_message :: string
  he_retryable :: bool

text \<open>The code names one realm; any other is opaque to it. A destination of an allowlist is a host or a
  network with its ports.\<close>

datatype target_kind = DefaultKind | AdditionalKind
datatype execution_realm = AexManaged | OtherRealm string
datatype ceiling_destination = CeilingTls string | CeilingTcp string "nat list"
datatype network_ceiling = NetNone | NetPublic | NetAllowlist "ceiling_destination list"

record resource_ceiling =
  rc_timeout_ms :: nat
  rc_max_output_bytes :: nat
  rc_rest :: bytes

record sandbox_target =
  st_binding_ref :: string
  st_kind :: target_kind
  st_root_id :: string
  st_sandbox_id :: "string option"
  st_session_id :: string

record operation_ref =
  of_generation :: string
  of_operation_id :: string
  of_receipt_ref :: string
  of_request_digest :: string
  of_target :: sandbox_target
  of_target_ref :: string

record target_receipt =
  tr_expires_at_ms :: nat
  tr_generation :: string
  tr_target_ref :: string

datatype contract_state = ContractAccepted | ContractRunning | ContractTerminal
datatype terminal_outcome = Completed | Failed | Cancelled | DeadlineExceeded | Interrupted

record terminal_result =
  te_duration_ms :: "nat option"
  te_exit_code :: "int option"
  te_inline :: "bytes option"
  te_is_error :: bool
  te_object :: "bytes option"
  te_outcome :: terminal_outcome
  te_terminal_digest :: string

record operation_observation =
  ob_next_cursor :: string
  ob_operation :: operation_ref
  ob_output :: "bytes list"
  ob_state :: contract_state
  ob_target :: "target_receipt option"
  ob_terminal :: "terminal_result option"

record operation_envelope =
  oe_operation_id :: string
  oe_request_digest :: string
  oe_root_id :: string
  oe_session_id :: string
  oe_binding_ref :: string
  oe_capability :: string
  oe_generation :: "string option"
  oe_target_ref :: "string option"
  oe_resources :: resource_ceiling
  oe_network :: network_ceiling
  oe_rest :: bytes

record sandbox_execution_request =
  sx_execution_id :: string
  sx_request_digest :: string
  sx_target :: sandbox_target
  sx_expected_generation :: string
  sx_resources :: resource_ceiling
  sx_network :: network_ceiling
  sx_command :: string
  sx_cwd :: "string option"
  sx_interactive :: bool

record write_stdin_request =
  ws_operation_id :: string
  ws_request_digest :: string
  ws_execution_id :: string
  ws_target :: sandbox_target
  ws_expected_generation :: string
  ws_text :: string
  ws_eof :: bool

record submit_receipt =
  sr_observation :: operation_observation
  sr_operation :: operation_ref
  sr_replayed :: bool

record write_stdin_receipt =
  wr_accepted :: bool
  wr_observation :: operation_observation
  wr_operation_id :: string
  wr_replayed :: bool
  wr_request_digest :: string

record bundle_descriptor =
  bd_bundle_digest :: string
  bd_contract_digest :: string
  bd_required_env :: "string list"
  bd_bytes :: nat
  bd_object_bytes :: nat
  bd_object_sha256 :: string
  bd_node22 :: bool
  bd_rest :: bytes

record sealed_binding =
  sb_root_id :: string
  sb_session_id :: string
  sb_capability :: string
  sb_realm :: execution_realm
  sb_contract_digest :: string
  sb_bundle :: "bundle_descriptor option"
  sb_required_capabilities :: "string list"
  sb_rest :: bytes

subsection \<open>What the protocol crate provides\<close>

record brain =
  HAND_CONTRACT_DIGEST :: string
  MAX_TOOL_TERMINAL_INLINE_BYTES :: nat
  MAX_WRITE_STDIN_BYTES :: nat
  MAX_TOOL_BUNDLE_BYTES :: nat
  secret_limits :: secret_bounds
  parses_message :: "string \<Rightarrow> bool"
  parses_locator :: "string \<Rightarrow> bool"
  operation_request_digest :: "operation_envelope \<Rightarrow> string"
  sandbox_execution_request_digest :: "sandbox_execution_request \<Rightarrow> string"
  write_stdin_request_digest :: "write_stdin_request \<Rightarrow> string"
  terminal_result_digest :: "terminal_result \<Rightarrow> string"
  terminal_inline_fits :: "bytes \<Rightarrow> bool"
  network_ceiling_is_subset :: "network_ceiling \<Rightarrow> network_ceiling \<Rightarrow> bool"
  sha256_hex :: "bytes \<Rightarrow> string"
  sha256_prefix :: "bytes \<Rightarrow> nat"
  jcs_ref :: "operation_ref \<Rightarrow> bytes option"
  jcs_target :: "sandbox_target \<Rightarrow> bytes option"
  jcs_resources :: "resource_ceiling \<Rightarrow> bytes option"
  jcs_network :: "network_ceiling \<Rightarrow> bytes option"
  jcs_descriptor :: "bundle_descriptor \<Rightarrow> bytes option"
  jcs_binding :: "sealed_binding \<Rightarrow> bytes option"
  jcs_values :: "(string \<rightharpoonup> string) \<Rightarrow> bytes option"
  observation_to_json :: "operation_observation \<Rightarrow> bytes option"
  observation_from_json :: "bytes \<Rightarrow> operation_observation option"
  ref_canonical_digest :: "operation_ref \<Rightarrow> string option"
  tombstone_to_json :: "acknowledged_operation \<Rightarrow> bytes option"
  tombstone_from_json :: "bytes \<Rightarrow> acknowledged_operation option"

text \<open>
  \<open>parses_message\<close> and \<open>parses_locator\<close> are the parsers of the bounded message and of the
  identifiers and locators, which keep the text; \<open>sha256_hex\<close> is the lower-case hexadecimal SHA-256
  and \<open>sha256_prefix\<close> its first eight bytes as a big-endian number.
\<close>

definition ack_codec_of :: "brain \<Rightarrow> operation_ref ack_codec" where
  "ack_codec_of B =
     \<lparr>op_operation_id = of_operation_id, op_request_digest = of_request_digest,
      op_canonical_digest = ref_canonical_digest B, ack_to_json = tombstone_to_json B,
      ack_from_json = tombstone_from_json B\<rparr>"

section \<open>Errors (\<open>hand-guest/src/errors.rs\<close>)\<close>

fun status_for :: "hand_error_code \<Rightarrow> nat" where
  "status_for InvalidRequest = 400"
| "status_for FileNotFound = 404"
| "status_for OperationUnknown = 404"
| "status_for BindingConflict = 409"
| "status_for OperationConflict = 409"
| "status_for GenerationConflict = 409"
| "status_for SandboxNotMaterialized = 409"
| "status_for SandboxGone = 410"
| "status_for ResourceExhausted = 413"
| "status_for CapabilityUnavailable = 503"
| "status_for TemporarilyUnavailable = 503"

text \<open>\<open>str::is_char_boundary\<close> on the UTF-8 bytes of a string.\<close>

definition is_char_boundary :: "string \<Rightarrow> nat \<Rightarrow> bool" where
  "is_char_boundary v n \<longleftrightarrow> n = 0 \<or> n = length v \<or> n < length v \<and> \<not> cont (v ! n)"

fun char_boundary_at :: "string \<Rightarrow> nat \<Rightarrow> nat" where
  "char_boundary_at v 0 = 0"
| "char_boundary_at v (Suc n) = (if is_char_boundary v (Suc n) then Suc n else char_boundary_at v n)"

definition truncate_utf8 :: "string \<Rightarrow> nat \<Rightarrow> string" where
  "truncate_utf8 v max_bytes = (if length v \<le> max_bytes then v else take (char_boundary_at v max_bytes) v)"

definition hand_error :: "brain \<Rightarrow> hand_error_code \<Rightarrow> bool \<Rightarrow> string \<Rightarrow> hand_error" where
  "hand_error B ec retryable message =
     (let message = truncate_utf8 (if message = [] then ''Hand request failed'' else message) 4096
      in \<lparr>he_code = ec,
          he_message = if parses_message B message then message else ''Hand request failed'',
          he_retryable = retryable\<rparr>)"

definition invalid :: "brain \<Rightarrow> string \<Rightarrow> hand_error" where
  "invalid B message = hand_error B InvalidRequest False message"

definition unavailable :: "brain \<Rightarrow> string \<Rightarrow> hand_error" where
  "unavailable B message = hand_error B TemporarilyUnavailable True message"

fun operation_error_text :: "operation_error \<Rightarrow> string" where
  "operation_error_text (InvalidIdentity f) = f @ '' does not satisfy the canonical Hand identity or digest grammar''"
| "operation_error_text IdempotencyConflict = ''operation id is already reserved for a different request digest''"
| "operation_error_text operation_error.Capacity = ''operation retention capacity is full''"
| "operation_error_text Unknown = ''operation is unknown''"
| "operation_error_text AlreadyTerminal = ''operation is already terminal''"
| "operation_error_text TerminalConflict = ''a different terminal observation is already retained''"
| "operation_error_text TerminalCapacity = ''terminal observation exceeds retention capacity''"
| "operation_error_text NotTerminal = ''operation is not terminal''"
| "operation_error_text TerminalDigestMismatch = ''terminal digest does not match the retained observation''"

fun operation_error_code :: "operation_error \<Rightarrow> hand_error_code" where
  "operation_error_code IdempotencyConflict = OperationConflict"
| "operation_error_code TerminalConflict = OperationConflict"
| "operation_error_code Unknown = OperationUnknown"
| "operation_error_code operation_error.Capacity = ResourceExhausted"
| "operation_error_code TerminalCapacity = ResourceExhausted"
| "operation_error_code (InvalidIdentity f) = InvalidRequest"
| "operation_error_code AlreadyTerminal = InvalidRequest"
| "operation_error_code NotTerminal = InvalidRequest"
| "operation_error_code TerminalDigestMismatch = InvalidRequest"

definition operation_error :: "brain \<Rightarrow> operation_error \<Rightarrow> hand_error" where
  "operation_error B e = hand_error B (operation_error_code e) False (operation_error_text e)"

definition stdin_conflict :: "brain \<Rightarrow> hand_error" where
  "stdin_conflict B = hand_error B OperationConflict False
     ''stdin operation_id is already reserved for a different request digest''"

fun ack_error_text :: "ack_store_error \<Rightarrow> string" where
  "ack_error_text ack_store_error.Conflict = ''acknowledgement identity conflicts with the retained tombstone''"
| "ack_error_text ack_store_error.Capacity = ''acknowledgement tombstone capacity is exhausted''"
| "ack_error_text (ack_store_error.Corrupt m) = ''acknowledgement log is corrupt: '' @ m"
| "ack_error_text (ack_store_error.Invalid m) = ''invalid acknowledgement identity: '' @ m"
| "ack_error_text ack_store_error.Io = ''acknowledgement storage is unavailable''"

fun ack_error_code :: "ack_store_error \<Rightarrow> hand_error_code \<times> bool" where
  "ack_error_code ack_store_error.Conflict = (OperationConflict, False)"
| "ack_error_code ack_store_error.Capacity = (ResourceExhausted, False)"
| "ack_error_code (ack_store_error.Invalid m) = (InvalidRequest, False)"
| "ack_error_code ack_store_error.Io = (TemporarilyUnavailable, True)"
| "ack_error_code (ack_store_error.Corrupt m) = (TemporarilyUnavailable, False)"

definition ack_store_error :: "brain \<Rightarrow> ack_store_error \<Rightarrow> hand_error" where
  "ack_store_error B e = (case ack_error_code e of (ec, retryable) \<Rightarrow> hand_error B ec retryable (ack_error_text e))"

fun effect_error_text :: "effect_error \<Rightarrow> string" where
  "effect_error_text effect_error.Conflict = ''file effect identity conflicts with the retained operation''"
| "effect_error_text Ambiguous = ''file effect delivery is ambiguous and will not be repeated''"
| "effect_error_text effect_error.Capacity = ''file effect retention capacity is exhausted''"
| "effect_error_text (effect_error.Corrupt m) = ''file effect log is corrupt: '' @ m"
| "effect_error_text (effect_error.Invalid m) = ''invalid file effect identity: '' @ m"
| "effect_error_text effect_error.Io = ''file effect storage is unavailable''"

fun effect_error_code :: "effect_error \<Rightarrow> hand_error_code \<times> bool" where
  "effect_error_code effect_error.Conflict = (BindingConflict, False)"
| "effect_error_code Ambiguous = (OperationUnknown, False)"
| "effect_error_code effect_error.Capacity = (ResourceExhausted, False)"
| "effect_error_code (effect_error.Invalid m) = (InvalidRequest, False)"
| "effect_error_code effect_error.Io = (TemporarilyUnavailable, True)"
| "effect_error_code (effect_error.Corrupt m) = (CapabilityUnavailable, False)"

definition file_effect_store_error :: "brain \<Rightarrow> effect_error \<Rightarrow> hand_error" where
  "file_effect_store_error B e =
     (case effect_error_code e of (ec, retryable) \<Rightarrow> hand_error B ec retryable (effect_error_text e))"

definition generation_conflict :: "brain \<Rightarrow> hand_error" where
  "generation_conflict B = hand_error B GenerationConflict False ''request does not match the live physical generation''"

section \<open>Receipts and validation (\<open>hand-guest/src/hand/receipts.rs\<close>)\<close>

record target_snapshot =
  ts_target_ref :: string
  ts_generation :: string
  ts_expires_at_ms :: nat
  ts_root_id :: string
  ts_resources :: resource_ceiling
  ts_network :: network_ceiling
  ts_proxy_environment :: "string \<rightharpoonup> string"

definition MAX_TARGET_LIFETIME_MS :: nat where "MAX_TARGET_LIFETIME_MS = 8 * 60 * 60 * 1000"
definition MAX_OPERATION_TIMEOUT_MS :: nat where "MAX_OPERATION_TIMEOUT_MS = MAX_TARGET_LIFETIME_MS"
definition MAX_WAIT_MS :: nat where "MAX_WAIT_MS = 30000"

definition parse_locator :: "brain \<Rightarrow> string \<Rightarrow> string \<Rightarrow> (hand_error, string) result" where
  "parse_locator B v message = (if parses_locator B v then Ok v else Err (invalid B message))"

text \<open>\<open>(part.len() as u64).to_be_bytes()\<close>: the eight bytes of the length, most significant first.\<close>

definition be_bytes8 :: "nat \<Rightarrow> bytes" where
  "be_bytes8 n = map (\<lambda>k. char_of (n div 256 ^ k mod 256)) [7, 6, 5, 4, 3, 2, 1, 0]"

definition receipt_preimage :: "string list \<Rightarrow> bytes" where
  "receipt_preimage parts = concat (map (\<lambda>p. be_bytes8 (length p) @ p) parts)"

definition operation_receipt_ref ::
    "brain \<Rightarrow> string \<Rightarrow> string \<Rightarrow> string \<Rightarrow> string \<Rightarrow> (hand_error, string) result" where
  "operation_receipt_ref B operation_id request_digest target_ref generation =
     parse_locator B
       (''receipt:'' @ sha256_hex B (receipt_preimage [operation_id, request_digest, target_ref, generation]))
       ''operation receipt locator is invalid''"

definition operation_ref :: "brain \<Rightarrow> operation_envelope \<Rightarrow> target_snapshot \<Rightarrow> (hand_error, operation_ref) result" where
  "operation_ref B envelope physical =
     and_then (parse_locator B (ts_generation physical) ''generation is not a canonical operation locator'') (\<lambda>generation.
     and_then (operation_receipt_ref B (oe_operation_id envelope) (oe_request_digest envelope)
         (ts_target_ref physical) (ts_generation physical)) (\<lambda>receipt_ref.
     and_then (parse_locator B (ts_target_ref physical) ''target_ref is not a canonical operation locator'') (\<lambda>target_ref.
       Ok \<lparr>of_generation = generation, of_operation_id = oe_operation_id envelope,
           of_receipt_ref = receipt_ref, of_request_digest = oe_request_digest envelope,
           of_target = \<lparr>st_binding_ref = oe_binding_ref envelope, st_kind = DefaultKind,
                        st_root_id = oe_root_id envelope, st_sandbox_id = None,
                        st_session_id = oe_session_id envelope\<rparr>,
           of_target_ref = target_ref\<rparr>)))"

definition target_receipt :: "brain \<Rightarrow> target_snapshot \<Rightarrow> (hand_error, target_receipt) result" where
  "target_receipt B target =
     and_then (require (ts_expires_at_ms target \<noteq> 0) (invalid B ''target expiry is invalid'')) (\<lambda>_.
     and_then (parse_locator B (ts_generation target) ''generation is invalid'') (\<lambda>generation.
     and_then (parse_locator B (ts_target_ref target) ''target_ref is invalid'') (\<lambda>target_ref.
       Ok \<lparr>tr_expires_at_ms = ts_expires_at_ms target, tr_generation = generation, tr_target_ref = target_ref\<rparr>)))"

definition canonical_equal :: "brain \<Rightarrow> ('a \<Rightarrow> bytes option) \<Rightarrow> 'a \<Rightarrow> 'a \<Rightarrow> (hand_error, bool) result" where
  "canonical_equal B jcs l r =
     and_then (ok_or (jcs l) (invalid B ''sealed value is not canonicalizable'')) (\<lambda>a.
     and_then (ok_or (jcs r) (invalid B ''sealed value is not canonicalizable'')) (\<lambda>b. Ok (a = b)))"

definition validate_wait :: "brain \<Rightarrow> nat \<Rightarrow> (hand_error, unit) result" where
  "validate_wait B wait_ms =
     (if wait_ms > MAX_WAIT_MS then Err (invalid B (''wait exceeds the '' @ show_nat MAX_WAIT_MS @ '' ms bound''))
      else Ok ())"

definition connector_exact :: "connector_class \<Rightarrow> network_ceiling \<Rightarrow> bool \<Rightarrow> bool" where
  "connector_exact connector network has_proxy =
     (case (connector, network, has_proxy) of
        (ConnNone, NetNone, False) \<Rightarrow> True
      | (ConnPublic, NetPublic, False) \<Rightarrow> True
      | (ConnAllowlist, NetAllowlist _, True) \<Rightarrow> True
      | _ \<Rightarrow> False)"

definition validate_connector :: "brain \<Rightarrow> connector_class \<Rightarrow> network_ceiling \<Rightarrow> bool \<Rightarrow> (hand_error, unit) result" where
  "validate_connector B connector network has_proxy =
     (if connector_exact connector network has_proxy then Ok ()
      else Err (invalid B ''connector class does not exactly match the root network seal''))"

fun resource_error_text :: "resource_error \<Rightarrow> string" where
  "resource_error_text TimeoutUnsupported = ''the selected target cannot enforce the requested wall-clock ceiling''"
| "resource_error_text OutputUnsupported = ''the selected target cannot retain the requested output ceiling''"

definition validate_resource_subset ::
    "brain \<Rightarrow> resource_ceiling \<Rightarrow> resource_ceiling \<Rightarrow> (hand_error, unit) result" where
  "validate_resource_subset B request physical =
     and_then
       (map_err (\<lambda>e. invalid B (resource_error_text e))
         (resource_validate
           \<lparr>rs_max_timeout_ms = min (rc_timeout_ms physical) MAX_OPERATION_TIMEOUT_MS,
            rs_max_output_bytes = min (rc_max_output_bytes physical) (MAX_TOOL_TERMINAL_INLINE_BYTES B)\<rparr>
           \<lparr>rq_timeout_ms = rc_timeout_ms request, rq_max_output_bytes = rc_max_output_bytes request\<rparr>)) (\<lambda>_.
       if rc_timeout_ms request \<le> rc_timeout_ms physical
          \<and> rc_max_output_bytes request \<le> rc_max_output_bytes physical
       then Ok () else Err (invalid B ''operation resources widen the immutable root target seal''))"

end
