(* ===== verification/Guest_Target.thy ===== *)
theory Guest_Target
  imports Guest_Tasks Guest_Protocol
begin

section \<open>The guest's hand (\<open>hand-guest/src/hand/\<close>)\<close>

text \<open>
  One guest per physical sandbox generation: the armed target, the installed artifacts, the book of
  operations with its acknowledgement log, and the book of interactive writes. Every handler is a
  task whose regions are the code's locked regions, in the code's order; what happens between two
  of them without a lock and without an effect is part of the region before. A cancellation token
  and an interactive pipe are indices into lists of such objects, so that who shares one is visible.
  \<open>hd_spawned\<close> lists the executions handed to the runtime; child processes are not modelled, so
  what one returns is an input.
\<close>

subsection \<open>State\<close>

record operation_meta =
  om_operation :: operation_ref
  om_target :: target_receipt
  om_cancellation :: nat
  om_stdin :: "nat option"

record armed_target =
  at_target_ref :: string
  at_generation :: string
  at_expires_at_ms :: nat
  at_root_id :: string
  at_owner_session_id :: string
  at_connector :: connector_class
  at_resource_class :: string
  at_resources :: resource_ceiling
  at_network :: network_ceiling
  at_control_token :: control_token
  at_proxy_environment :: "string \<rightharpoonup> string"
  at_canary_exit :: "string option"

record allowlist_proxy =
  ap_capability :: string
  ap_authority :: string

record run_payload =
  rp_contract_digest :: string
  rp_generation :: string
  rp_expires_at_ms :: nat
  rp_root_id :: string
  rp_owner_session_id :: string
  rp_connector :: connector_class
  rp_resource_class :: string
  rp_resources :: resource_ceiling
  rp_network :: network_ceiling
  rp_control_token :: control_token
  rp_allowlist_proxy :: "allowlist_proxy option"
  rp_canary_exit :: "string option"

datatype stdin_record = InFlight string | CompleteWrite write_stdin_receipt

record tool_identity =
  ti_uid :: nat
  ti_gid :: nat
  ti_supervisor_uid :: nat

record installed_binding =
  ib_seal :: sealed_binding
  ib_bundle_path :: string
  ib_identity :: "tool_identity option"

record binding_identity_registry =
  ir_by_ref :: "string \<rightharpoonup> tool_identity option"
  ir_by_uid :: "nat \<rightharpoonup> string"
  ir_uid_min :: nat
  ir_uid_span :: nat
  ir_max_bindings :: nat

record session_secrets =
  ss_generation :: string
  ss_declared :: "string set"
  ss_values :: "string \<rightharpoonup> string"

record bundle_execution =
  bx_bundle_path :: string
  bx_descriptor :: bundle_descriptor
  bx_envelope :: operation_envelope
  bx_environment :: "string \<rightharpoonup> string"
  bx_proxy_environment :: "string \<rightharpoonup> string"
  bx_identity :: "tool_identity option"
  bx_target_expires_at_ms :: nat
  bx_cancellation :: nat

record shell_execution =
  sh_command :: string
  sh_cwd :: string
  sh_timeout_ms :: nat
  sh_max_output_bytes :: nat
  sh_interactive :: bool
  sh_proxy_environment :: "string \<rightharpoonup> string"
  sh_identity :: "tool_identity option"
  sh_target_expires_at_ms :: nat
  sh_cancellation :: nat
  sh_control :: "nat option"

datatype execution = BundleExecution bundle_execution | ShellExecution shell_execution

record execution_result =
  ex_outcome :: terminal_outcome
  ex_inline :: bytes
  ex_is_error :: bool
  ex_exit_code :: "int option"
  ex_duration_ms :: nat

record pipe_write =
  pw_operation_id :: string
  pw_text :: string
  pw_eof :: bool

record hand =
  hd_identity :: "tool_identity option"
  hd_armed :: "armed_target option"
  hd_bundles :: "string \<rightharpoonup> bundle_descriptor \<times> string"
  hd_bindings :: "string \<rightharpoonup> installed_binding"
  hd_identities :: binding_identity_registry
  hd_secrets :: "string \<rightharpoonup> session_secrets"
  hd_tool_files :: "string \<rightharpoonup> bytes"
  hd_registry :: operation_registry
  hd_metadata :: "string \<rightharpoonup> operation_meta"
  hd_acks :: acknowledgement_store
  hd_permits :: nat
  hd_slots_closed :: bool
  hd_stdin :: "string \<rightharpoonup> stdin_record"
  hd_tokens :: "bool list"
  hd_controls :: "pipe_write list list"
  hd_spawned :: "(string \<times> execution) list"

text \<open>
  \<open>hd_identity\<close> is \<open>cfg.sandboxing.identity()\<close>; the other configuration values of an execution (the
  workspace, the runner and the boundary library) are the same for every execution and left out.
  The inputs of a region: the wall clock, the file operations on a log, whether a blocking task was
  joined, the directory opened for a shell, what a child returned (\<open>None\<close> when its task panicked),
  whether a pipe took a write, whether a wait ended before its deadline, and the steps of staging a
  bundle.
\<close>

record input =
  in_now :: nat
  in_io :: log_io
  in_joined :: bool
  in_cwd :: "(hand_error, string) result"
  in_result :: "execution_result option"
  in_sent :: bool
  in_woken :: bool
  in_created :: bool
  in_written :: bool
  in_removed :: bool
  in_renamed :: bool

type_synonym ('a) handler = "(input, hand, (hand_error, 'a) result) task"

subsection \<open>The armed target (\<open>target.rs\<close>)\<close>

definition armed :: "(input, hand, bool) task" where
  "armed = read_region (\<lambda>i h. hd_armed h \<noteq> None)"

text \<open>
  The comparison of digests in constant time: \<open>sha\<close> is SHA-256 as a list of bytes.
\<close>

definition digests_differ :: "nat list \<Rightarrow> nat list \<Rightarrow> nat" where
  "digests_differ expected candidate =
     fold (\<lambda>(e, c) difference. Bit_Operations.or difference (Bit_Operations.xor e c)) (zip expected candidate) 0"

definition control_authorized :: "(string \<Rightarrow> nat list) \<Rightarrow> string option \<Rightarrow> hand \<Rightarrow> bool" where
  "control_authorized sha candidate h =
     (case candidate of
        None \<Rightarrow> False
      | Some candidate \<Rightarrow>
          (case map_option (\<lambda>t. ct_expose (at_control_token t)) (hd_armed h) of
             None \<Rightarrow> False
           | Some expected \<Rightarrow>
               digests_differ (sha expected) (sha candidate) = 0 \<and> length candidate = length expected))"

definition proxy_environment :: "allowlist_proxy option \<Rightarrow> (string \<rightharpoonup> string)" where
  "proxy_environment p =
     (case p of
        None \<Rightarrow> Map.empty
      | Some proxy \<Rightarrow>
          let proxy_url = ''http://aex:'' @ ap_capability proxy @ ''@'' @ ap_authority proxy
          in [''HTTPS_PROXY'' \<mapsto> proxy_url, ''https_proxy'' \<mapsto> proxy_url])"

definition arm_candidate :: "string \<Rightarrow> run_payload \<Rightarrow> armed_target" where
  "arm_candidate target_ref p =
     \<lparr>at_target_ref = target_ref, at_generation = rp_generation p, at_expires_at_ms = rp_expires_at_ms p,
      at_root_id = rp_root_id p, at_owner_session_id = rp_owner_session_id p, at_connector = rp_connector p,
      at_resource_class = rp_resource_class p, at_resources = rp_resources p, at_network = rp_network p,
      at_control_token = rp_control_token p, at_proxy_environment = proxy_environment (rp_allowlist_proxy p),
      at_canary_exit = rp_canary_exit p\<rparr>"

text \<open>The checks of a payload, in order, before the lock is taken.\<close>

definition arm_checks :: "brain \<Rightarrow> nat \<Rightarrow> run_payload \<Rightarrow> (hand_error, unit) result" where
  "arm_checks B now p =
     and_then (require (rp_contract_digest p = trim (HAND_CONTRACT_DIGEST B))
         (invalid B ''Hand contract digest does not match the image'')) (\<lambda>_.
     and_then (require (\<not> (rp_expires_at_ms p \<le> now \<or> rp_expires_at_ms p > saturating_add now MAX_TARGET_LIFETIME_MS))
         (invalid B ''physical target expiry is outside the supported lifetime'')) (\<lambda>_.
     and_then (validate_connector B (rp_connector p) (rp_network p) (rp_allowlist_proxy p \<noteq> None)) (\<lambda>_.
       require (\<not> (case rp_canary_exit p of None \<Rightarrow> False
                     | Some oid \<Rightarrow> \<not> starts_with ''image-canary-'' oid \<or> \<not> parses_locator B oid))
         (invalid B ''image canary operation id is invalid''))))"

text \<open>The chain of \<open>&&\<close>: a canonical form is only taken when everything before it agrees.\<close>

definition arm_exact :: "brain \<Rightarrow> armed_target \<Rightarrow> armed_target \<Rightarrow> (hand_error, bool) result" where
  "arm_exact B existing candidate =
     (if at_target_ref existing = at_target_ref candidate
         \<and> at_generation existing = at_generation candidate
         \<and> at_expires_at_ms existing = at_expires_at_ms candidate
         \<and> at_root_id existing = at_root_id candidate
         \<and> at_owner_session_id existing = at_owner_session_id candidate
         \<and> at_connector existing = at_connector candidate
         \<and> at_resource_class existing = at_resource_class candidate
      then and_then (canonical_equal B (jcs_resources B) (at_resources existing) (at_resources candidate)) (\<lambda>same.
             if \<not> same then Ok False
             else and_then (canonical_equal B (jcs_network B) (at_network existing) (at_network candidate)) (\<lambda>same.
               Ok (same \<and> at_control_token existing = at_control_token candidate
                   \<and> at_canary_exit existing = at_canary_exit candidate)))
      else Ok False)"

definition arm_locked :: "brain \<Rightarrow> armed_target \<Rightarrow> hand \<Rightarrow> (hand_error, bool) result \<times> hand" where
  "arm_locked B candidate h =
     (case hd_armed h of
        Some existing \<Rightarrow>
          (and_then (arm_exact B existing candidate) (\<lambda>exact.
             if exact then Ok True
             else Err (hand_error B GenerationConflict False
                         ''physical generation is already armed with a different immutable seal'')), h)
      | None \<Rightarrow> (Ok False, h\<lparr>hd_armed := Some candidate\<rparr>))"

definition arm :: "brain \<Rightarrow> string \<Rightarrow> run_payload \<Rightarrow> bool handler" where
  "arm B target_ref p =
     task_try (read_region (\<lambda>i h. arm_checks B (in_now i) p)) (\<lambda>_.
       region (\<lambda>i. arm_locked B (arm_candidate target_ref p)))"

record target_runtime_status =
  rt_target_ref :: string
  rt_generation :: string
  rt_root_id :: string
  rt_owner_session_id :: string
  rt_connector :: connector_class
  rt_resource_class :: string
  rt_armed :: bool

definition runtime_status :: "hand \<Rightarrow> target_runtime_status option" where
  "runtime_status h = map_option (\<lambda>t.
     \<lparr>rt_target_ref = at_target_ref t, rt_generation = at_generation t, rt_root_id = at_root_id t,
      rt_owner_session_id = at_owner_session_id t, rt_connector = at_connector t,
      rt_resource_class = at_resource_class t, rt_armed = True\<rparr>) (hd_armed h)"

definition should_exit_after_canary_receipt :: "string \<Rightarrow> hand \<Rightarrow> bool" where
  "should_exit_after_canary_receipt operation_id h \<longleftrightarrow>
     Option.bind (hd_armed h) at_canary_exit = Some operation_id"

definition snapshot_of :: "armed_target \<Rightarrow> target_snapshot" where
  "snapshot_of t =
     \<lparr>ts_target_ref = at_target_ref t, ts_generation = at_generation t, ts_expires_at_ms = at_expires_at_ms t,
      ts_root_id = at_root_id t, ts_resources = at_resources t, ts_network = at_network t,
      ts_proxy_environment = at_proxy_environment t\<rparr>"

definition live_target :: "brain \<Rightarrow> nat \<Rightarrow> hand \<Rightarrow> (hand_error, target_snapshot) result" where
  "live_target B now h =
     and_then (ok_or (map_option snapshot_of (hd_armed h))
         (hand_error B SandboxNotMaterialized False ''physical generation has not been armed'')) (\<lambda>target.
       if now \<ge> ts_expires_at_ms target
       then Err (hand_error B SandboxGone False ''physical sandbox generation reached its hard deadline'')
       else Ok target)"

definition require_target :: "brain \<Rightarrow> target_snapshot handler" where
  "require_target B = read_region (\<lambda>i. live_target B (in_now i))"

definition fence :: "brain \<Rightarrow> sandbox_target \<Rightarrow> string \<Rightarrow> target_snapshot handler" where
  "fence B target generation =
     task_try (require_target B) (\<lambda>physical. Return
       (if st_root_id target \<noteq> ts_root_id physical \<or> generation \<noteq> ts_generation physical
        then Err (generation_conflict B) else Ok physical))"

section \<open>Installed artifacts (\<open>install.rs\<close>)\<close>

definition MAX_PREPARED_BINDINGS :: nat where "MAX_PREPARED_BINDINGS = 4096"
definition MANAGED_BINDING_UID_MIN :: nat where "MANAGED_BINDING_UID_MIN = 65536"
definition MANAGED_BINDING_UID_SPAN :: nat where "MANAGED_BINDING_UID_SPAN = 2000000000 - MANAGED_BINDING_UID_MIN"

definition identities_with_bounds :: "nat \<Rightarrow> nat \<Rightarrow> nat \<Rightarrow> binding_identity_registry" where
  "identities_with_bounds uid_min uid_span max_bindings =
     \<lparr>ir_by_ref = Map.empty, ir_by_uid = Map.empty, ir_uid_min = uid_min, ir_uid_span = uid_span,
      ir_max_bindings = max_bindings\<rparr>"

definition identities_production :: binding_identity_registry where
  "identities_production =
     identities_with_bounds MANAGED_BINDING_UID_MIN MANAGED_BINDING_UID_SPAN MAX_PREPARED_BINDINGS"

text \<open>
  The sum \<open>uid_min + hash % uid_span\<close> is below 2000000000 for the production bounds, so it does not
  overflow a \<open>u32\<close> (lemma \<open>production_uids_fit\<close>).
\<close>

definition binding_uid :: "brain \<Rightarrow> binding_identity_registry \<Rightarrow> string \<Rightarrow> nat" where
  "binding_uid B g binding_ref = ir_uid_min g + sha256_prefix B binding_ref mod ir_uid_span g"

definition allocate ::
    "brain \<Rightarrow> binding_identity_registry \<Rightarrow> string \<Rightarrow> tool_identity option
      \<Rightarrow> (hand_error, tool_identity option) result \<times> binding_identity_registry" where
  "allocate B g binding_ref sandbox_identity =
     (case ir_by_ref g binding_ref of
        Some identity \<Rightarrow> (Ok identity, g)
      | None \<Rightarrow>
          if card (dom (ir_by_ref g)) \<ge> ir_max_bindings g
          then (Err (hand_error B ResourceExhausted False
                  ''physical generation has reached the prepared-binding limit''), g)
          else (case sandbox_identity of
            None \<Rightarrow> (Ok None, g\<lparr>ir_by_ref := (ir_by_ref g)(binding_ref \<mapsto> None)\<rparr>)
          | Some si \<Rightarrow>
              if ir_uid_span g = 0
              then (Err (hand_error B ResourceExhausted False ''managed-binding uid range is empty''), g)
              else if ir_by_uid g (binding_uid B g binding_ref) \<noteq> None
              then (Err (hand_error B BindingConflict False ''managed-binding uid collision''), g)
              else let identity = \<lparr>ti_uid = binding_uid B g binding_ref, ti_gid = ti_gid si,
                                   ti_supervisor_uid = ti_supervisor_uid si\<rparr>
                   in (Ok (Some identity),
                       g\<lparr>ir_by_uid := (ir_by_uid g)(ti_uid identity \<mapsto> binding_ref),
                         ir_by_ref := (ir_by_ref g)(binding_ref \<mapsto> Some identity)\<rparr>)))"

record install_receipt =
  ir_installed :: bool
  ir_replayed :: bool

definition installed :: "bool \<Rightarrow> install_receipt" where
  "installed replayed = \<lparr>ir_installed = True, ir_replayed = replayed\<rparr>"

definition bundle_checks :: "brain \<Rightarrow> bundle_descriptor \<Rightarrow> bytes \<Rightarrow> (hand_error, unit) result" where
  "bundle_checks B d content =
     and_then (require (bd_node22 d) (invalid B ''the default Hand supports only the Node22 Tool runtime'')) (\<lambda>_.
     and_then (require
         (\<not> (bd_bytes d > MAX_TOOL_BUNDLE_BYTES B \<or> bd_bytes d \<noteq> length content \<or> bd_object_bytes d \<noteq> length content
             \<or> bd_object_sha256 d \<noteq> bd_bundle_digest d \<or> sha256_hex B content \<noteq> bd_bundle_digest d))
         (invalid B ''bundle bytes do not match the immutable descriptor'')) (\<lambda>_.
       require
         (\<not> (length (bd_required_env d) > MAX_SESSION_SECRET_NAMES (secret_limits B)
             \<or> card (set (bd_required_env d)) \<noteq> length (bd_required_env d)
             \<or> list_ex (\<lambda>name. \<not> environment_name_is_valid (secret_limits B) name \<or> reserved_tool_environment name)
                 (bd_required_env d)))
         (invalid B ''bundle descriptor contains an invalid or reserved environment name'')))"

definition bundle_path :: "string \<Rightarrow> string" where "bundle_path digest = digest @ ''.mjs''"
definition bundle_temporary :: "string \<Rightarrow> string" where "bundle_temporary digest = ''.'' @ digest @ ''.install''"

text \<open>
  Staging under the write lock, on the files of the tool directory: \<open>create_new\<close> fails on an
  existing name; a failed write removes the staged file, when that succeeds; a failed rename leaves
  it.
\<close>

definition stage_bundle :: "brain \<Rightarrow> input \<Rightarrow> string \<Rightarrow> bytes \<Rightarrow> hand \<Rightarrow> (hand_error, string) result \<times> hand" where
  "stage_bundle B i digest content h =
     (let temporary = bundle_temporary digest; path = bundle_path digest in
      if \<not> in_created i \<or> hd_tool_files h temporary \<noteq> None
      then (Err (unavailable B ''could not stage the Tool bundle''), h)
      else if \<not> in_written i
      then (Err (unavailable B ''could not stage the Tool bundle''),
            if in_removed i then h else h\<lparr>hd_tool_files := (hd_tool_files h)(temporary \<mapsto> [])\<rparr>)
      else if \<not> in_renamed i
      then (Err (unavailable B ''could not install the Tool bundle''),
            h\<lparr>hd_tool_files := (hd_tool_files h)(temporary \<mapsto> content)\<rparr>)
      else (Ok path, h\<lparr>hd_tool_files := (hd_tool_files h)(path \<mapsto> content)\<rparr>))"

definition install_bundle_locked ::
    "brain \<Rightarrow> input \<Rightarrow> bundle_descriptor \<Rightarrow> bytes \<Rightarrow> hand \<Rightarrow> (hand_error, install_receipt) result \<times> hand" where
  "install_bundle_locked B i d content h =
     (case hd_bundles h (bd_bundle_digest d) of
        Some (existing, _) \<Rightarrow>
          (and_then (canonical_equal B (jcs_descriptor B) existing d) (\<lambda>same.
             if same then Ok (installed True)
             else Err (hand_error B BindingConflict False
                         ''bundle digest is already installed with a different descriptor'')), h)
      | None \<Rightarrow>
          (case stage_bundle B i (bd_bundle_digest d) content h of
             (Err e, h') \<Rightarrow> (Err e, h')
           | (Ok path, h') \<Rightarrow>
               (Ok (installed False),
                h'\<lparr>hd_bundles := (hd_bundles h')(bd_bundle_digest d \<mapsto> (d, path))\<rparr>)))"

definition install_bundle :: "brain \<Rightarrow> bundle_descriptor \<Rightarrow> bytes \<Rightarrow> install_receipt handler" where
  "install_bundle B d content =
     task_check (bundle_checks B d content) (\<lambda>_. region (\<lambda>i. install_bundle_locked B i d content))"

record install_binding_request =
  iq_binding_ref :: string
  iq_binding :: sealed_binding

definition binding_checks ::
    "brain \<Rightarrow> sealed_binding \<Rightarrow> target_snapshot \<Rightarrow> (hand_error, bundle_descriptor) result" where
  "binding_checks B b target =
     and_then (require (\<not> (sb_root_id b \<noteq> ts_root_id target \<or> sb_realm b \<noteq> AexManaged))
         (hand_error B BindingConflict False ''binding is outside this target root or execution realm'')) (\<lambda>_.
     and_then (ok_or (sb_bundle b)
         (hand_error B CapabilityUnavailable False ''managed execution requires an immutable Tool bundle'')) (\<lambda>d.
     and_then (require (bd_contract_digest d = sb_contract_digest b)
         (hand_error B BindingConflict False ''bundle and binding contract digests differ'')) (\<lambda>_.
       Ok d)))"

definition installed_bundle :: "brain \<Rightarrow> bundle_descriptor \<Rightarrow> hand \<Rightarrow> (hand_error, string) result" where
  "installed_bundle B d h =
     (case hd_bundles h (bd_bundle_digest d) of
        None \<Rightarrow> Err (invalid B ''binding references a bundle that is not installed'')
      | Some (existing, path) \<Rightarrow>
          and_then (canonical_equal B (jcs_descriptor B) existing d) (\<lambda>same.
            if same then Ok path else Err (invalid B ''binding references a bundle that is not installed'')))"

definition requires_undeclared_secret :: "string \<Rightarrow> bundle_descriptor \<Rightarrow> hand \<Rightarrow> bool" where
  "requires_undeclared_secret session_id d h \<longleftrightarrow>
     (case hd_secrets h session_id of
        None \<Rightarrow> False
      | Some secrets \<Rightarrow> list_ex (\<lambda>name. name \<notin> ss_declared secrets) (bd_required_env d))"

definition install_binding_locked ::
    "brain \<Rightarrow> install_binding_request \<Rightarrow> string \<Rightarrow> hand \<Rightarrow> (hand_error, install_receipt) result \<times> hand" where
  "install_binding_locked B q path h =
     (case hd_bindings h (iq_binding_ref q) of
        Some existing \<Rightarrow>
          (and_then (canonical_equal B (jcs_binding B) (ib_seal existing) (iq_binding q)) (\<lambda>same.
             if same then Ok (installed True)
             else Err (hand_error B BindingConflict False ''binding_ref is already installed with a different seal'')), h)
      | None \<Rightarrow>
          (case allocate B (hd_identities h) (iq_binding_ref q) (hd_identity h) of
             (Err e, g) \<Rightarrow> (Err e, h\<lparr>hd_identities := g\<rparr>)
           | (Ok identity, g) \<Rightarrow>
               (Ok (installed False),
                h\<lparr>hd_identities := g,
                  hd_bindings := (hd_bindings h)(iq_binding_ref q \<mapsto>
                    \<lparr>ib_seal = iq_binding q, ib_bundle_path = path, ib_identity = identity\<rparr>)\<rparr>)))"

definition install_binding :: "brain \<Rightarrow> install_binding_request \<Rightarrow> install_receipt handler" where
  "install_binding B q =
     task_try (require_target B) (\<lambda>target.
     task_check (binding_checks B (iq_binding q) target) (\<lambda>d.
     task_try (read_region (\<lambda>i. installed_bundle B d)) (\<lambda>path.
     task_try (read_region (\<lambda>i h. require (\<not> requires_undeclared_secret (sb_session_id (iq_binding q)) d h)
         (hand_error B BindingConflict False
           ''binding requires environment outside the prepared session secret union''))) (\<lambda>_.
       region (\<lambda>i. install_binding_locked B q path)))))"

record install_secrets_request =
  sq_session_id :: string
  sq_generation :: string
  sq_env_names :: "string list"
  sq_values :: "string \<rightharpoonup> string"

fun secret_refusal_text :: "secret_material_error \<Rightarrow> string" where
  "secret_refusal_text TooManyNames = ''secret document declares more names than Brain'' @ [CHR 0x27] @ ''s custody bound''"
| "secret_refusal_text NamesValuesMismatch = ''secret values do not match the declared names one-to-one''"
| "secret_refusal_text InvalidName = ''a declared secret name is not a valid environment variable name''"
| "secret_refusal_text InvalidValue = ''a secret value exceeds its byte bound or contains a NUL byte''"
| "secret_refusal_text DocumentTooLarge = ''the canonical secret document exceeds Brain'' @ [CHR 0x27] @ ''s custody byte bound''"

definition secrets_checks :: "brain \<Rightarrow> install_secrets_request \<Rightarrow> (hand_error, unit) result" where
  "secrets_checks B q =
     and_then (map_err (\<lambda>refusal. invalid B
           (''secret material is outside the canonical bounded environment union: '' @ secret_refusal_text refusal))
         (secret_material_fits (secret_limits B) (jcs_values B) (sq_env_names q) (sq_values q))) (\<lambda>_.
       require (\<not> list_ex reserved_tool_environment (sq_env_names q))
         (invalid B ''secret environment name conflicts with the trusted Tool runtime boundary''))"

definition requirements_declared :: "string \<Rightarrow> string set \<Rightarrow> hand \<Rightarrow> bool" where
  "requirements_declared session_id declared h \<longleftrightarrow>
     (\<forall>b\<in>ran (hd_bindings h). sb_session_id (ib_seal b) = session_id \<longrightarrow>
        (case sb_bundle (ib_seal b) of None \<Rightarrow> True | Some d \<Rightarrow> set (bd_required_env d) \<subseteq> declared))"

definition install_secrets_locked ::
    "brain \<Rightarrow> install_secrets_request \<Rightarrow> hand \<Rightarrow> (hand_error, install_receipt) result \<times> hand" where
  "install_secrets_locked B q h =
     (case hd_secrets h (sq_session_id q) of
        Some existing \<Rightarrow>
          (if ss_generation existing = sq_generation q \<and> ss_declared existing = set (sq_env_names q)
              \<and> ss_values existing = sq_values q
           then Ok (installed True)
           else Err (hand_error B GenerationConflict False
                       ''secret material conflicts with the installed generation''), h)
      | None \<Rightarrow>
          (Ok (installed False),
           h\<lparr>hd_secrets := (hd_secrets h)(sq_session_id q \<mapsto>
               \<lparr>ss_generation = sq_generation q, ss_declared = set (sq_env_names q), ss_values = sq_values q\<rparr>)\<rparr>))"

definition install_secrets :: "brain \<Rightarrow> install_secrets_request \<Rightarrow> install_receipt handler" where
  "install_secrets B q =
     task_try (require_target B) (\<lambda>target.
     task_check (require (sq_generation q = ts_generation target) (generation_conflict B)) (\<lambda>_.
     task_check (secrets_checks B q) (\<lambda>_.
     task_try (read_region (\<lambda>i h. require (requirements_declared (sq_session_id q) (set (sq_env_names q)) h)
         (invalid B ''prepared environment-name union omits an installed binding requirement''))) (\<lambda>_.
       region (\<lambda>i. install_secrets_locked B q)))))"

end
