(* ===== verification/Guest_Operations.thy ===== *)
theory Guest_Operations
  imports Guest_Target
begin

section \<open>Operations and interactive writes (\<open>operations.rs\<close>, \<open>stdin.rs\<close>)\<close>

text \<open>
  Admission, execution, completion, cancellation, observation and acknowledgement of operations,
  the idempotent writes to an interactive shell, and shutdown. Waking waiters changes no state and
  is left out; the time a handler waits lies between two of its regions.
\<close>

definition MAX_CONCURRENT_OPERATIONS :: nat where "MAX_CONCURRENT_OPERATIONS = 64"
definition MAX_RETAINED_OPERATIONS :: nat where "MAX_RETAINED_OPERATIONS = 1024"
definition MAX_RETAINED_STDIN_WRITES :: nat where "MAX_RETAINED_STDIN_WRITES = 4096"
definition MAX_RETAINED_TERMINAL_BYTES :: nat where "MAX_RETAINED_TERMINAL_BYTES = 64 * 1024 * 1024"

definition TERMINAL_ENVELOPE_BYTES :: "brain \<Rightarrow> nat" where
  "TERMINAL_ENVELOPE_BYTES B = MAX_TOOL_TERMINAL_INLINE_BYTES B + 4 * 1024"

text \<open>\<open>Hand::new\<close> with the opened acknowledgement log.\<close>

definition hand_new :: "tool_identity option \<Rightarrow> (string \<rightharpoonup> bytes) \<Rightarrow> acknowledgement_store \<Rightarrow> hand" where
  "hand_new identity tool_files acks =
     \<lparr>hd_identity = identity, hd_armed = None, hd_bundles = Map.empty, hd_bindings = Map.empty,
      hd_identities = identities_production, hd_secrets = Map.empty, hd_tool_files = tool_files,
      hd_registry = registry_new MAX_RETAINED_OPERATIONS MAX_RETAINED_TERMINAL_BYTES,
      hd_metadata = Map.empty, hd_acks = acks, hd_permits = MAX_CONCURRENT_OPERATIONS,
      hd_slots_closed = False, hd_stdin = Map.empty, hd_tokens = [], hd_controls = [], hd_spawned = []\<rparr>"

definition validate_operation_ref ::
    "brain \<Rightarrow> operation_meta option \<Rightarrow> operation_ref \<Rightarrow> (hand_error, unit) result" where
  "validate_operation_ref B m operation =
     (case m of
        None \<Rightarrow> Err (operation_error B Unknown)
      | Some meta \<Rightarrow>
          and_then (canonical_equal B (jcs_ref B) (om_operation meta) operation) (\<lambda>same.
            if same then Ok ()
            else Err (hand_error B OperationConflict False ''operation locator does not match the reserved receipt'')))"

subsection \<open>Validation of a submission\<close>

definition fence_acknowledged_submission :: "brain \<Rightarrow> string \<Rightarrow> string \<Rightarrow> hand \<Rightarrow> (hand_error, unit) result" where
  "fence_acknowledged_submission B operation_id request_digest h =
     and_then (map_err (ack_store_error B) (fence_submission (hd_acks h) operation_id request_digest)) (\<lambda>f.
       case f of
         Clear \<Rightarrow> Ok ()
       | Acknowledged \<Rightarrow>
           Err (hand_error B OperationUnknown False ''operation terminal was already committed and released''))"

record validated_execution =
  ve_bundle_path :: string
  ve_descriptor :: bundle_descriptor
  ve_environment :: "string \<rightharpoonup> string"
  ve_identity :: "tool_identity option"
  ve_target :: target_snapshot

fun collect_environment ::
    "brain \<Rightarrow> session_secrets option \<Rightarrow> string list \<Rightarrow> (string \<rightharpoonup> string) \<Rightarrow> (hand_error, string \<rightharpoonup> string) result" where
  "collect_environment B secrets [] environment = Ok environment"
| "collect_environment B secrets (name # names) environment =
     and_then (ok_or (Option.bind secrets (\<lambda>s. ss_values s name))
         (unavailable B ''required Tool environment has not been delivered'')) (\<lambda>v.
       collect_environment B secrets names (environment(name \<mapsto> v)))"

definition target_checks :: "brain \<Rightarrow> operation_envelope \<Rightarrow> target_snapshot \<Rightarrow> (hand_error, unit) result" where
  "target_checks B envelope target =
     and_then (require (\<not> (oe_root_id envelope \<noteq> ts_root_id target
         \<or> (case oe_generation envelope of None \<Rightarrow> False | Some g \<Rightarrow> g \<noteq> ts_generation target)
         \<or> (case oe_target_ref envelope of None \<Rightarrow> False | Some r \<Rightarrow> r \<noteq> ts_target_ref target)))
         (generation_conflict B)) (\<lambda>_.
     and_then (validate_resource_subset B (oe_resources envelope) (ts_resources target)) (\<lambda>_.
       require (network_ceiling_is_subset B (oe_network envelope) (ts_network target))
         (hand_error B GenerationConflict False ''operation network policy widens the immutable root target seal'')))"

text \<open>The part under the read locks of the bindings and the secrets.\<close>

definition bound_execution ::
    "brain \<Rightarrow> operation_envelope \<Rightarrow> target_snapshot \<Rightarrow> hand \<Rightarrow> (hand_error, validated_execution) result" where
  "bound_execution B envelope target h =
     and_then (ok_or (hd_bindings h (oe_binding_ref envelope))
         (hand_error B BindingConflict False ''binding_ref is not installed'')) (\<lambda>binding.
     and_then (require (\<not> (sb_root_id (ib_seal binding) \<noteq> oe_root_id envelope
         \<or> sb_session_id (ib_seal binding) \<noteq> oe_session_id envelope
         \<or> sb_capability (ib_seal binding) \<noteq> oe_capability envelope
         \<or> sb_realm (ib_seal binding) \<noteq> AexManaged))
         (hand_error B BindingConflict False ''operation does not match the immutable binding seal'')) (\<lambda>_.
     and_then (ok_or (sb_bundle (ib_seal binding))
         (hand_error B CapabilityUnavailable False ''managed binding has no Tool bundle'')) (\<lambda>descriptor.
     and_then (collect_environment B (hd_secrets h (oe_session_id envelope)) (bd_required_env descriptor) Map.empty)
         (\<lambda>environment.
       Ok \<lparr>ve_bundle_path = ib_bundle_path binding, ve_descriptor = descriptor,
           ve_environment = environment, ve_identity = ib_identity binding, ve_target = target\<rparr>))))"

definition validate_operation :: "brain \<Rightarrow> operation_envelope \<Rightarrow> validated_execution handler" where
  "validate_operation B envelope =
     task_try (require_target B) (\<lambda>target.
     task_check (target_checks B envelope target) (\<lambda>_.
       read_region (\<lambda>i. bound_execution B envelope target)))"

subsection \<open>Admission\<close>

text \<open>
  The token, and the pipe of an interactive execution, exist from before the lock; the model makes
  them when the operation is new, since otherwise nothing refers to them.
\<close>

definition admit_new ::
    "brain \<Rightarrow> string \<Rightarrow> operation_ref \<Rightarrow> target_receipt \<Rightarrow> bool \<Rightarrow> operation_registry \<Rightarrow> hand
      \<Rightarrow> (hand_error, reservation) result \<times> hand" where
  "admit_new B operation_id operation target interactive r h =
     (let h' = h\<lparr>hd_metadata := (hd_metadata h)(operation_id \<mapsto>
                   \<lparr>om_operation = operation, om_target = target, om_cancellation = length (hd_tokens h),
                    om_stdin = if interactive then Some (length (hd_controls h)) else None\<rparr>),
                 hd_tokens := hd_tokens h @ [False],
                 hd_controls := (if interactive then hd_controls h @ [[]] else hd_controls h)\<rparr>
      in case mark_running r operation_id of
           (Err e, r') \<Rightarrow> (Err (operation_error B e), h'\<lparr>hd_registry := r'\<rparr>)
         | (Ok _, r') \<Rightarrow> (Ok reservation.New, h'\<lparr>hd_registry := r'\<rparr>))"

definition admit_operation ::
    "brain \<Rightarrow> string \<Rightarrow> string \<Rightarrow> operation_ref \<Rightarrow> target_receipt \<Rightarrow> bool \<Rightarrow> hand
      \<Rightarrow> (hand_error, reservation) result \<times> hand" where
  "admit_operation B operation_id request_digest operation target interactive h =
     (case reserve (hd_registry h) operation_id request_digest (TERMINAL_ENVELOPE_BYTES B) of
        (Err e, r) \<Rightarrow> (Err (operation_error B e), h\<lparr>hd_registry := r\<rparr>)
      | (Ok reservation.New, r) \<Rightarrow> admit_new B operation_id operation target interactive r h
      | (Ok Existing, r) \<Rightarrow>
          (and_then (validate_operation_ref B (hd_metadata h operation_id) operation) (\<lambda>_. Ok Existing),
           h\<lparr>hd_registry := r\<rparr>))"

text \<open>
  No other await lies between the admission of a new operation and its \<open>tokio::spawn\<close>, so both are
  one region; \<open>execution\<close> is the execution for a token and a pipe.
\<close>

definition spawn_execution :: "string \<Rightarrow> execution \<Rightarrow> hand \<Rightarrow> hand" where
  "spawn_execution operation_id e h = h\<lparr>hd_spawned := hd_spawned h @ [(operation_id, e)]\<rparr>"

definition admit_and_spawn ::
    "brain \<Rightarrow> string \<Rightarrow> string \<Rightarrow> operation_ref \<Rightarrow> target_receipt \<Rightarrow> bool \<Rightarrow> (nat \<Rightarrow> nat option \<Rightarrow> execution)
      \<Rightarrow> hand \<Rightarrow> (hand_error, reservation) result \<times> hand" where
  "admit_and_spawn B operation_id request_digest operation target interactive execution h =
     (case admit_operation B operation_id request_digest operation target interactive h of
        (Ok reservation.New, h') \<Rightarrow>
          (Ok reservation.New,
           spawn_execution operation_id
             (execution (length (hd_tokens h)) (if interactive then Some (length (hd_controls h)) else None)) h')
      | (r, h') \<Rightarrow> (r, h'))"

subsection \<open>Observation\<close>

definition observe_checks :: "brain \<Rightarrow> operation_ref \<Rightarrow> hand \<Rightarrow> (hand_error, unit) result" where
  "observe_checks B operation h =
     and_then (validate_operation_ref B (hd_metadata h (of_operation_id operation)) operation) (\<lambda>_.
     and_then (ok_or (observe (hd_registry h) (of_operation_id operation)) (operation_error B Unknown)) (\<lambda>_.
     and_then (ok_or (hd_metadata h (of_operation_id operation)) (operation_error B Unknown)) (\<lambda>_. Ok ())))"

definition observed :: "brain \<Rightarrow> operation_ref \<Rightarrow> hand \<Rightarrow> (hand_error, operation_observation) result" where
  "observed B operation h =
     and_then (ok_or (observe (hd_registry h) (of_operation_id operation)) (operation_error B Unknown)) (\<lambda>rec.
     and_then (ok_or (hd_metadata h (of_operation_id operation)) (operation_error B Unknown)) (\<lambda>meta.
       case or_state rec of
         Terminal _ p \<Rightarrow>
           ok_or (observation_from_json B p) (unavailable B ''retained terminal observation is unavailable'')
       | st \<Rightarrow>
           Ok \<lparr>ob_next_cursor = ''0'', ob_operation = operation, ob_output = [],
               ob_state = if st = Accepted then ContractAccepted else ContractRunning,
               ob_target = Some (om_target meta), ob_terminal = None\<rparr>))"

definition observe_inner :: "brain \<Rightarrow> operation_ref \<Rightarrow> nat \<Rightarrow> operation_observation handler" where
  "observe_inner B operation wait_ms =
     task_try (read_region (\<lambda>i. observe_checks B operation)) (\<lambda>_.
     task_bind
       (if wait_ms > 0
        then read_region (\<lambda>i h. case observe (hd_registry h) (of_operation_id operation) of
                                   Some rec \<Rightarrow> is_terminal (or_state rec) | None \<Rightarrow> False)
        else Return True) (\<lambda>_.
       read_region (\<lambda>i. observed B operation)))"

definition observe_operation :: "brain \<Rightarrow> operation_ref \<Rightarrow> nat \<Rightarrow> operation_observation handler" where
  "observe_operation B operation wait_ms =
     task_check (validate_wait B wait_ms) (\<lambda>_. observe_inner B operation wait_ms)"

subsection \<open>Submission\<close>

definition bundle_execution_of :: "operation_envelope \<Rightarrow> validated_execution \<Rightarrow> nat \<Rightarrow> execution" where
  "bundle_execution_of envelope execution cancellation = BundleExecution
     \<lparr>bx_bundle_path = ve_bundle_path execution, bx_descriptor = ve_descriptor execution,
      bx_envelope = envelope, bx_environment = ve_environment execution,
      bx_proxy_environment = ts_proxy_environment (ve_target execution),
      bx_identity = ve_identity execution,
      bx_target_expires_at_ms = ts_expires_at_ms (ve_target execution),
      bx_cancellation = cancellation\<rparr>"

definition submit :: "brain \<Rightarrow> operation_envelope \<Rightarrow> nat \<Rightarrow> submit_receipt handler" where
  "submit B envelope wait_up_to_ms =
     task_check (validate_wait B wait_up_to_ms) (\<lambda>_.
     task_check (require (operation_request_digest B envelope = oe_request_digest envelope)
         (invalid B ''operation request_digest is not canonical'')) (\<lambda>_.
     task_try (read_region (\<lambda>i. fence_acknowledged_submission B (oe_operation_id envelope) (oe_request_digest envelope))) (\<lambda>_.
     task_try (validate_operation B envelope) (\<lambda>execution.
     task_check (operation_ref B envelope (ve_target execution)) (\<lambda>operation.
     task_check (target_receipt B (ve_target execution)) (\<lambda>target.
     task_try (region (\<lambda>i. admit_and_spawn B (oe_operation_id envelope) (oe_request_digest envelope) operation target
         False (\<lambda>cancellation control. bundle_execution_of envelope execution cancellation))) (\<lambda>reserved.
     task_try (observe_inner B operation wait_up_to_ms) (\<lambda>observation.
       Return (Ok \<lparr>sr_observation = observation, sr_operation = operation, sr_replayed = (reserved = Existing)\<rparr>)))))))))"

definition sandbox_ref ::
    "brain \<Rightarrow> sandbox_execution_request \<Rightarrow> target_snapshot \<Rightarrow> (hand_error, operation_ref) result" where
  "sandbox_ref B q target =
     and_then (parse_locator B (ts_generation target) ''generation is not a canonical operation locator'') (\<lambda>generation.
     and_then (operation_receipt_ref B (sx_execution_id q) (sx_request_digest q)
         (ts_target_ref target) (ts_generation target)) (\<lambda>receipt_ref.
     and_then (parse_locator B (ts_target_ref target) ''target_ref is not a canonical operation locator'') (\<lambda>target_ref.
       Ok \<lparr>of_generation = generation, of_operation_id = sx_execution_id q, of_receipt_ref = receipt_ref,
           of_request_digest = sx_request_digest q, of_target = sx_target q, of_target_ref = target_ref\<rparr>)))"

definition sandbox_checks :: "brain \<Rightarrow> sandbox_execution_request \<Rightarrow> target_snapshot \<Rightarrow> (hand_error, unit) result" where
  "sandbox_checks B q target =
     and_then (validate_resource_subset B (sx_resources q) (ts_resources target)) (\<lambda>_.
     and_then (require (network_ceiling_is_subset B (sx_network q) (ts_network target))
         (hand_error B GenerationConflict False
           ''sandbox execution network policy widens the immutable root target seal'')) (\<lambda>_.
       require (sx_cwd q \<noteq> Some []) (invalid B ''sandbox execution cwd must be /workspace or a child path'')))"

definition shell_execution_of ::
    "sandbox_execution_request \<Rightarrow> target_snapshot \<Rightarrow> string \<Rightarrow> hand \<Rightarrow> nat \<Rightarrow> nat option \<Rightarrow> execution" where
  "shell_execution_of q target cwd h cancellation control = ShellExecution
     \<lparr>sh_command = sx_command q, sh_cwd = cwd, sh_timeout_ms = rc_timeout_ms (sx_resources q),
      sh_max_output_bytes = rc_max_output_bytes (sx_resources q), sh_interactive = sx_interactive q,
      sh_proxy_environment = ts_proxy_environment target, sh_identity = hd_identity h,
      sh_target_expires_at_ms = ts_expires_at_ms target, sh_cancellation = cancellation,
      sh_control = control\<rparr>"

text \<open>The handler from the fence on, and the whole handler.\<close>

definition execute_fenced :: "brain \<Rightarrow> sandbox_execution_request \<Rightarrow> submit_receipt handler" where
  "execute_fenced B q =
     task_try (fence B (sx_target q) (sx_expected_generation q)) (\<lambda>target.
     task_check (sandbox_checks B q target) (\<lambda>_.
     task_try (read_region (\<lambda>i h. in_cwd i)) (\<lambda>cwd.
     task_check (sandbox_ref B q target) (\<lambda>operation.
     task_check (target_receipt B target) (\<lambda>receipt.
     task_try (region (\<lambda>i h. admit_and_spawn B (sx_execution_id q) (sx_request_digest q) operation receipt
         (sx_interactive q) (shell_execution_of q target cwd h) h)) (\<lambda>reserved.
     task_try (observe_inner B operation 0) (\<lambda>observation.
       Return (Ok \<lparr>sr_observation = observation, sr_operation = operation, sr_replayed = (reserved = Existing)\<rparr>))))))))"

definition execute_sandbox :: "brain \<Rightarrow> sandbox_execution_request \<Rightarrow> submit_receipt handler" where
  "execute_sandbox B q =
     task_check (require (sandbox_execution_request_digest B q = sx_request_digest q)
         (invalid B ''sandbox execution request_digest is not canonical'')) (\<lambda>_.
     task_try (read_region (\<lambda>i. fence_acknowledged_submission B (sx_execution_id q) (sx_request_digest q))) (\<lambda>_.
       execute_fenced B q))"

subsection \<open>Execution and completion\<close>

definition error_object :: "string \<Rightarrow> bytes" where
  "error_object message = ''{'' @ [CHR 0x22] @ ''error'' @ [CHR 0x22] @ '':'' @ [CHR 0x22] @ message @ [CHR 0x22] @ ''}''"

definition bounded_result :: "brain \<Rightarrow> execution_result \<Rightarrow> execution_result" where
  "bounded_result B r =
     (if terminal_inline_fits B (ex_inline r) then r
      else r\<lparr>ex_inline := error_object (''execution may have completed, but its inline result exceeded the Brain '' @
               ''terminal limit; store large data in session storage or the sandbox and return a key/path''),
             ex_is_error := True, ex_outcome := Failed\<rparr>)"

text \<open>The digest is taken with 64 zeros in its place.\<close>

definition sealed_terminal :: "brain \<Rightarrow> execution_result \<Rightarrow> terminal_result" where
  "sealed_terminal B r =
     (let t = \<lparr>te_duration_ms = Some (ex_duration_ms r), te_exit_code = ex_exit_code r, te_inline = Some (ex_inline r),
               te_is_error = ex_is_error r, te_object = None, te_outcome = ex_outcome r,
               te_terminal_digest = replicate 64 (CHR ''0'')\<rparr>
      in t\<lparr>te_terminal_digest := terminal_result_digest B t\<rparr>)"

definition fallback_result :: "execution_result \<Rightarrow> execution_result" where
  "fallback_result r =
     r\<lparr>ex_inline := error_object ''terminal result could not be retained within its reserved capacity'',
       ex_is_error := True, ex_outcome := Interrupted\<rparr>"

definition terminal_observation :: "operation_meta \<Rightarrow> terminal_result \<Rightarrow> operation_observation" where
  "terminal_observation meta t =
     \<lparr>ob_next_cursor = ''1'', ob_operation = om_operation meta, ob_output = [], ob_state = ContractTerminal,
      ob_target = Some (om_target meta), ob_terminal = Some t\<rparr>"

definition complete_with ::
    "brain \<Rightarrow> string \<Rightarrow> operation_meta \<Rightarrow> terminal_result \<Rightarrow> operation_registry \<Rightarrow> bool \<times> operation_registry" where
  "complete_with B operation_id meta t r =
     (case observation_to_json B (terminal_observation meta t) of
        None \<Rightarrow> (False, r)
      | Some p \<Rightarrow> (case Operation_Registry.complete r operation_id (te_terminal_digest t) p of (res, r') \<Rightarrow> (is_ok res, r')))"

definition finish :: "brain \<Rightarrow> string \<Rightarrow> execution_result \<Rightarrow> hand \<Rightarrow> hand" where
  "finish B operation_id result h =
     (case hd_metadata h operation_id of
        None \<Rightarrow> h
      | Some meta \<Rightarrow>
          (case complete_with B operation_id meta (sealed_terminal B (bounded_result B result)) (hd_registry h) of
             (True, r) \<Rightarrow> h\<lparr>hd_registry := r\<rparr>
           | (False, r) \<Rightarrow>
               h\<lparr>hd_registry :=
                  snd (complete_with B operation_id meta
                         (sealed_terminal B (fallback_result (bounded_result B result))) r)\<rparr>))"

definition interrupted_result :: execution_result where
  "interrupted_result =
     \<lparr>ex_outcome = Interrupted,
      ex_inline = error_object (''execution was interrupted by an internal fault before a terminal '' @
                    ''result was recorded''),
      ex_is_error = True, ex_exit_code = None, ex_duration_ms = 0\<rparr>"

text \<open>
  The supervised execution: it takes a slot once one is free, or gives up when the slots are
  closed; the slot is returned when the inner task ends, also by a panic, after which the
  supervisor records the interruption.
\<close>

definition return_slot :: "hand \<Rightarrow> hand" where
  "return_slot h = h\<lparr>hd_permits := hd_permits h + 1\<rparr>"

definition end_execution :: "brain \<Rightarrow> string \<Rightarrow> execution_result option \<Rightarrow> (input, hand, unit) task" where
  "end_execution B operation_id ended =
     (case ended of
        Some result \<Rightarrow>
          task_bind (region (\<lambda>i h. ((), finish B operation_id result h))) (\<lambda>_.
            region (\<lambda>i h. ((), return_slot h)))
      | None \<Rightarrow>
          task_bind (region (\<lambda>i h. ((), return_slot h))) (\<lambda>_.
            region (\<lambda>i h. ((), finish B operation_id interrupted_result h))))"

definition run_execution :: "brain \<Rightarrow> string \<Rightarrow> (input, hand, unit) task" where
  "run_execution B operation_id =
     task_bind (await_region (\<lambda>h. hd_slots_closed h \<or> hd_permits h > 0)
         (\<lambda>i h. if hd_slots_closed h then (False, h) else (True, h\<lparr>hd_permits := hd_permits h - 1\<rparr>))) (\<lambda>slot.
       if \<not> slot then Return ()
       else task_bind (read_region (\<lambda>i h. in_result i)) (end_execution B operation_id))"

subsection \<open>Cancellation\<close>

definition cancel_locked :: "brain \<Rightarrow> operation_ref \<Rightarrow> hand \<Rightarrow> (hand_error, bool \<times> nat option) result \<times> hand" where
  "cancel_locked B operation h =
     (let oid = of_operation_id operation in
      case validate_operation_ref B (hd_metadata h oid) operation of
        Err e \<Rightarrow> (Err e, h)
      | Ok _ \<Rightarrow>
          (case request_cancel (hd_registry h) oid of
             (Err e, r) \<Rightarrow> (Err (operation_error B e), h\<lparr>hd_registry := r\<rparr>)
           | (Ok accepted, r) \<Rightarrow>
               (Ok (accepted, map_option om_cancellation (hd_metadata h oid)), h\<lparr>hd_registry := r\<rparr>)))"

definition cancel_token :: "nat \<Rightarrow> hand \<Rightarrow> hand" where
  "cancel_token t h = h\<lparr>hd_tokens := (hd_tokens h)[t := True]\<rparr>"

record cancellation_receipt =
  cr_accepted :: bool
  cr_observation :: operation_observation
  cr_operation :: operation_ref

definition cancel :: "brain \<Rightarrow> operation_ref \<Rightarrow> cancellation_receipt handler" where
  "cancel B operation =
     task_try (region (\<lambda>i. cancel_locked B operation)) (\<lambda>(accepted, cancellation).
     task_bind
       (case cancellation of
          Some t \<Rightarrow> if accepted then region (\<lambda>i h. ((), cancel_token t h)) else Return ()
        | None \<Rightarrow> Return ()) (\<lambda>_.
     task_try (observe_inner B operation 0) (\<lambda>observation.
       Return (Ok \<lparr>cr_accepted = accepted, cr_observation = observation, cr_operation = operation\<rparr>))))"

subsection \<open>Acknowledgement\<close>

definition release_book :: "brain \<Rightarrow> operation_ref \<Rightarrow> string \<Rightarrow> hand \<Rightarrow> (hand_error, unit) result \<times> hand" where
  "release_book B operation digest h =
     (case acknowledge_terminal (hd_registry h) (of_operation_id operation) digest of
        (Ok _, r) \<Rightarrow>
          (Ok (), h\<lparr>hd_registry := r, hd_metadata := (hd_metadata h)(of_operation_id operation := None)\<rparr>)
      | (Err e, r) \<Rightarrow> (if e = Unknown then Ok () else Err (operation_error B e), h\<lparr>hd_registry := r\<rparr>))"

definition forget_writes :: "string \<Rightarrow> hand \<Rightarrow> hand" where
  "forget_writes operation_id h =
     h\<lparr>hd_stdin := (\<lambda>k. case hd_stdin h k of
                           Some (CompleteWrite receipt) \<Rightarrow>
                             if of_operation_id (ob_operation (wr_observation receipt)) = operation_id then None
                             else Some (CompleteWrite receipt)
                         | x \<Rightarrow> x)\<rparr>"

definition release_acknowledged_terminal :: "brain \<Rightarrow> operation_ref \<Rightarrow> string \<Rightarrow> unit handler" where
  "release_acknowledged_terminal B operation digest =
     task_try (region (\<lambda>i. release_book B operation digest)) (\<lambda>_.
       region (\<lambda>i h. (Ok (), forget_writes (of_operation_id operation) h)))"

text \<open>A call of the acknowledgement store on a blocking thread.\<close>

definition store_call ::
    "brain \<Rightarrow> (log_io \<Rightarrow> acknowledgement_store \<Rightarrow> (ack_store_error, 'a) result \<times> acknowledgement_store) \<Rightarrow> 'a handler"
where
  "store_call B call = region (\<lambda>i h.
     if \<not> in_joined i then (Err (unavailable B ''acknowledgement storage task failed''), h)
     else (case call (in_io i) (hd_acks h) of
             (r, st) \<Rightarrow> (map_err (ack_store_error B) r, h\<lparr>hd_acks := st\<rparr>)))"

definition acknowledge :: "brain \<Rightarrow> operation_ref \<Rightarrow> string \<Rightarrow> unit handler" where
  "acknowledge B operation digest =
     task_try (store_call B (\<lambda>io st. acknowledgement_exists (ack_codec_of B) io st operation digest)) (\<lambda>replayed.
       if replayed then release_acknowledged_terminal B operation digest
       else
         task_try (read_region (\<lambda>i h.
             and_then (validate_operation_ref B (hd_metadata h (of_operation_id operation)) operation) (\<lambda>_.
               map_err (operation_error B)
                 (validate_terminal_ack (hd_registry h) (of_operation_id operation) digest)))) (\<lambda>_.
         task_try (store_call B (\<lambda>io st. retain (ack_codec_of B) io st operation digest)) (\<lambda>_.
           release_acknowledged_terminal B operation digest)))"

subsection \<open>Interactive writes\<close>

definition stdin_target :: "brain \<Rightarrow> write_stdin_request \<Rightarrow> target_snapshot \<Rightarrow> hand
      \<Rightarrow> (hand_error, nat option \<times> operation_ref) result" where
  "stdin_target B q target h =
     and_then (ok_or (hd_metadata h (ws_execution_id q)) (operation_error B Unknown)) (\<lambda>meta.
     let refused = Err (hand_error B OperationConflict False
                          ''stdin target does not match the reserved sandbox execution'') in
       if of_operation_id (om_operation meta) \<noteq> ws_execution_id q then refused
       else and_then (canonical_equal B (jcs_target B) (of_target (om_operation meta)) (ws_target q)) (\<lambda>same.
         if \<not> same
            \<or> of_generation (om_operation meta) \<noteq> ts_generation target
            \<or> of_target_ref (om_operation meta) \<noteq> ts_target_ref target
            \<or> tr_target_ref (om_target meta) \<noteq> ts_target_ref target
            \<or> tr_generation (om_target meta) \<noteq> ts_generation target
         then refused
         else Ok (om_stdin meta, om_operation meta)))"

datatype stdin_entry = Reserved | Completed_before write_stdin_receipt | Wait | Refused hand_error

definition stdin_lookup :: "brain \<Rightarrow> write_stdin_request \<Rightarrow> hand \<Rightarrow> stdin_entry \<times> hand" where
  "stdin_lookup B q h =
     (case hd_stdin h (ws_operation_id q) of
        Some (CompleteWrite existing) \<Rightarrow>
          (if wr_request_digest existing = ws_request_digest q then Completed_before existing
           else Refused (stdin_conflict B), h)
      | Some (InFlight request_digest) \<Rightarrow>
          (if request_digest \<noteq> ws_request_digest q then Refused (stdin_conflict B) else Wait, h)
      | None \<Rightarrow>
          if card (dom (hd_stdin h)) \<ge> MAX_RETAINED_STDIN_WRITES
          then (Refused (hand_error B ResourceExhausted False
                  ''stdin idempotency retention is full for this sandbox generation''), h)
          else (Reserved, h\<lparr>hd_stdin := (hd_stdin h)(ws_operation_id q \<mapsto> InFlight (ws_request_digest q))\<rparr>))"

text \<open>
  The loop that waits for an exact write in flight: \<open>rounds\<close> is how often it is woken before its
  deadline; the wait after the last round times out, and any wait may.
\<close>

definition stdin_round ::
    "brain \<Rightarrow> write_stdin_request \<Rightarrow> write_stdin_receipt option handler \<Rightarrow> write_stdin_receipt option handler" where
  "stdin_round B q wait =
     task_bind (region (\<lambda>i. stdin_lookup B q)) (\<lambda>entry.
       case entry of
         Reserved \<Rightarrow> Return (Ok None)
       | Completed_before receipt \<Rightarrow> Return (Ok (Some receipt))
       | Refused e \<Rightarrow> Return (Err e)
       | Wait \<Rightarrow> wait)"

definition stdin_late :: "brain \<Rightarrow> write_stdin_receipt option handler" where
  "stdin_late B = Return (Err (unavailable B ''an exact stdin write is still completing; observe and retry''))"

primrec stdin_reserve :: "brain \<Rightarrow> write_stdin_request \<Rightarrow> nat \<Rightarrow> write_stdin_receipt option handler" where
  "stdin_reserve B q 0 = stdin_round B q (stdin_late B)"
| "stdin_reserve B q (Suc rounds) =
     stdin_round B q (task_bind (read_region (\<lambda>i h. in_woken i)) (\<lambda>woken.
       if woken then stdin_reserve B q rounds else stdin_late B))"

text \<open>One append to the pipe; a pipe that was closed by an end of file takes nothing more.\<close>

definition send_atomic :: "brain \<Rightarrow> input \<Rightarrow> nat \<Rightarrow> write_stdin_request \<Rightarrow> hand \<Rightarrow> bool \<times> hand" where
  "send_atomic B i control q h =
     (if length (ws_text q) > MAX_WRITE_STDIN_BYTES B \<or> \<not> in_sent i
         \<or> list_ex pw_eof (hd_controls h ! control)
      then (False, h)
      else (True, h\<lparr>hd_controls := (hd_controls h)[control := hd_controls h ! control @
              [\<lparr>pw_operation_id = ws_operation_id q, pw_text = ws_text q, pw_eof = ws_eof q\<rparr>]]\<rparr>))"

definition stdin_settle ::
    "brain \<Rightarrow> write_stdin_request \<Rightarrow> write_stdin_receipt \<Rightarrow> hand \<Rightarrow> (hand_error, write_stdin_receipt) result \<times> hand" where
  "stdin_settle B q receipt h =
     (if hd_stdin h (ws_operation_id q) = Some (InFlight (ws_request_digest q))
      then (Ok receipt, h\<lparr>hd_stdin := (hd_stdin h)(ws_operation_id q \<mapsto> CompleteWrite receipt)\<rparr>)
      else (Err (stdin_conflict B), h))"

definition write_stdin :: "brain \<Rightarrow> write_stdin_request \<Rightarrow> nat \<Rightarrow> write_stdin_receipt handler" where
  "write_stdin B q rounds =
     task_check (require (write_stdin_request_digest B q = ws_request_digest q)
         (invalid B ''write_stdin request_digest is not canonical'')) (\<lambda>_.
     task_check (require (\<not> length (ws_text q) > MAX_WRITE_STDIN_BYTES B)
         (invalid B ''stdin text exceeds the atomic 4096-byte pipe-write bound'')) (\<lambda>_.
     task_try (fence B (ws_target q) (ws_expected_generation q)) (\<lambda>target.
     task_try (read_region (\<lambda>i. stdin_target B q target)) (\<lambda>(control, operation).
     task_try (stdin_reserve B q rounds) (\<lambda>before.
       case before of
         Some receipt \<Rightarrow>
           task_try (observe_inner B operation 0) (\<lambda>observation.
             Return (Ok (receipt\<lparr>wr_replayed := True, wr_observation := observation\<rparr>)))
       | None \<Rightarrow>
           task_bind
             (if ws_text q = [] \<and> \<not> ws_eof q then Return False
              else (case control of
                      Some c \<Rightarrow> region (\<lambda>i. send_atomic B i c q)
                    | None \<Rightarrow> Return False)) (\<lambda>accepted.
           task_try (observe_inner B operation 0) (\<lambda>observation.
             region (\<lambda>i. stdin_settle B q
               \<lparr>wr_accepted = accepted, wr_observation = observation, wr_operation_id = ws_operation_id q,
                wr_replayed = False, wr_request_digest = ws_request_digest q\<rparr>)))))))) "

subsection \<open>Shutdown (\<open>mod.rs\<close>)\<close>

definition cancel_all :: "nat set \<Rightarrow> bool list \<Rightarrow> bool list" where
  "cancel_all ts tokens = map (\<lambda>n. tokens ! n \<or> n \<in> ts) [0..<length tokens]"

text \<open>The final wait for the slots only reads them.\<close>

definition shutdown :: "(input, hand, unit) task" where
  "shutdown =
     task_bind (region (\<lambda>i h. ((), h\<lparr>hd_slots_closed := True\<rparr>))) (\<lambda>_.
     task_bind (read_region (\<lambda>i h. om_cancellation ` ran (hd_metadata h))) (\<lambda>ts.
       region (\<lambda>i h. ((), h\<lparr>hd_tokens := cancel_all ts (hd_tokens h)\<rparr>))))"

section \<open>Requests\<close>

datatype hand_request =
    QArm string run_payload
  | QInstallBundle bundle_descriptor bytes
  | QInstallBinding install_binding_request
  | QInstallSecrets install_secrets_request
  | QSubmit operation_envelope nat
  | QExecuteSandbox sandbox_execution_request
  | QObserve operation_ref nat
  | QCancel operation_ref
  | QAcknowledge operation_ref string
  | QWriteStdin write_stdin_request nat
  | QShutdown
  | QExecution string execution

datatype hand_reply =
    RArm "(hand_error, bool) result"
  | RInstall "(hand_error, install_receipt) result"
  | RSubmit "(hand_error, submit_receipt) result"
  | RObserve "(hand_error, operation_observation) result"
  | RCancel "(hand_error, cancellation_receipt) result"
  | RAcknowledge "(hand_error, unit) result"
  | RWriteStdin "(hand_error, write_stdin_receipt) result"
  | RDone

fun serve :: "brain \<Rightarrow> hand_request \<Rightarrow> (input, hand, hand_reply) task" where
  "serve B (QArm target_ref p) = task_map RArm (arm B target_ref p)"
| "serve B (QInstallBundle d content) = task_map RInstall (install_bundle B d content)"
| "serve B (QInstallBinding q) = task_map RInstall (install_binding B q)"
| "serve B (QInstallSecrets q) = task_map RInstall (install_secrets B q)"
| "serve B (QSubmit envelope wait) = task_map RSubmit (submit B envelope wait)"
| "serve B (QExecuteSandbox q) = task_map RSubmit (execute_sandbox B q)"
| "serve B (QObserve operation wait) = task_map RObserve (observe_operation B operation wait)"
| "serve B (QCancel operation) = task_map RCancel (cancel B operation)"
| "serve B (QAcknowledge operation digest) = task_map RAcknowledge (acknowledge B operation digest)"
| "serve B (QWriteStdin q rounds) = task_map RWriteStdin (write_stdin B q rounds)"
| "serve B QShutdown = task_map (\<lambda>_. RDone) shutdown"
| "serve B (QExecution operation_id e) = task_map (\<lambda>_. RDone) (run_execution B operation_id)"

text \<open>The executions handed to the runtime are requests to themselves.\<close>

definition spawned :: "hand \<Rightarrow> hand_request list" where
  "spawned h = map (\<lambda>(operation_id, e). QExecution operation_id e) (hd_spawned h)"

fun external_request :: "hand_request \<Rightarrow> bool" where
  "external_request (QExecution operation_id e) = False"
| "external_request _ = True"

abbreviation hand_step :: "brain \<Rightarrow> (hand_request, input, hand, hand_reply) task_world
    \<Rightarrow> (hand_request, input, hand, hand_reply) task_world \<Rightarrow> bool" where
  "hand_step B \<equiv> tasks_step (serve B) spawned external_request"

text \<open>A guest that was just made, with no request yet.\<close>

definition fresh_guest :: "brain \<Rightarrow> (hand_request, input, hand, hand_reply) task_world \<Rightarrow> bool" where
  "fresh_guest B w \<longleftrightarrow>
     w_tasks w = []
     \<and> (\<exists>identity files limit cut_ok content acks.
          ack_open (ack_codec_of B) limit cut_ok (length content) content = Ok acks
          \<and> w_state w = hand_new identity files acks)"

end
