(* ===== verification/Guest_Contract.thy ===== *)
theory Guest_Contract
  imports Guest_Operations
begin

section \<open>From the locked regions to the handlers\<close>

text \<open>
  What the handlers keep, whatever runs beside them, follows from what their locked regions keep.
  The locale \<open>guest_regions\<close> lists the regions with what a handler knows when it enters one: that a
  submission of one of the ids \<open>Mine\<close> passed the fence (\<open>Fenced\<close>), that an acknowledgement was retained (\<open>Acked\<close>), that an
  execution was allowed (\<open>exec_ok\<close>). Under these laws every handler is sound.
\<close>

subsection \<open>Executions the guest may start\<close>

definition runs_under :: "armed_target \<Rightarrow> resource_ceiling \<Rightarrow> (string \<rightharpoonup> string) \<Rightarrow> nat \<Rightarrow> bool" where
  "runs_under t resources proxy expires_at_ms \<longleftrightarrow>
     proxy = at_proxy_environment t \<and> expires_at_ms = at_expires_at_ms t
     \<and> rc_timeout_ms resources \<le> rc_timeout_ms (at_resources t)
     \<and> rc_max_output_bytes resources \<le> rc_max_output_bytes (at_resources t)"

definition tool_environment_ok :: "hand \<Rightarrow> string \<Rightarrow> bundle_descriptor \<Rightarrow> (string \<rightharpoonup> string) \<Rightarrow> bool" where
  "tool_environment_ok h session_id d environment \<longleftrightarrow>
     dom environment = set (bd_required_env d)
     \<and> (\<forall>name v. environment name = Some v \<longrightarrow>
          (\<exists>s. hd_secrets h session_id = Some s \<and> ss_values s name = Some v))"

fun exec_ok :: "brain \<Rightarrow> hand \<Rightarrow> string \<Rightarrow> execution \<Rightarrow> bool" where
  "exec_ok B h operation_id (BundleExecution x) \<longleftrightarrow>
     (\<exists>t b. hd_armed h = Some t
        \<and> oe_operation_id (bx_envelope x) = operation_id
        \<and> oe_root_id (bx_envelope x) = at_root_id t
        \<and> network_ceiling_is_subset B (oe_network (bx_envelope x)) (at_network t)
        \<and> runs_under t (oe_resources (bx_envelope x)) (bx_proxy_environment x) (bx_target_expires_at_ms x)
        \<and> hd_bindings h (oe_binding_ref (bx_envelope x)) = Some b
        \<and> sb_session_id (ib_seal b) = oe_session_id (bx_envelope x)
        \<and> sb_bundle (ib_seal b) = Some (bx_descriptor x)
        \<and> bx_bundle_path x = ib_bundle_path b \<and> bx_identity x = ib_identity b
        \<and> tool_environment_ok h (oe_session_id (bx_envelope x)) (bx_descriptor x) (bx_environment x))"
| "exec_ok B h operation_id (ShellExecution y) \<longleftrightarrow>
     (\<exists>t resources. hd_armed h = Some t \<and> runs_under t resources (sh_proxy_environment y) (sh_target_expires_at_ms y)
        \<and> sh_timeout_ms y = rc_timeout_ms resources \<and> sh_max_output_bytes y = rc_max_output_bytes resources
        \<and> sh_identity y = hd_identity h)"

text \<open>What only grows: the armed target, the bindings, the secrets.\<close>

definition grown :: "hand \<Rightarrow> hand \<Rightarrow> bool" where
  "grown h h' \<longleftrightarrow>
     hd_identity h' = hd_identity h
     \<and> (\<forall>t. hd_armed h = Some t \<longrightarrow> hd_armed h' = Some t)
     \<and> hd_bindings h \<subseteq>\<^sub>m hd_bindings h' \<and> hd_secrets h \<subseteq>\<^sub>m hd_secrets h'"

lemma map_le_Some: "m \<subseteq>\<^sub>m m' \<Longrightarrow> m k = Some v \<Longrightarrow> m' k = Some v"
  by (auto simp: map_le_def dom_def)

lemma grown_refl: "grown h h"
  by (simp add: grown_def)

lemma grown_trans: "grown h h' \<Longrightarrow> grown h' h'' \<Longrightarrow> grown h h''"
  unfolding grown_def using map_le_trans by metis

lemma grownD:
  assumes "grown h h'"
  shows "hd_armed h = Some t \<Longrightarrow> hd_armed h' = Some t" "hd_bindings h k = Some b \<Longrightarrow> hd_bindings h' k = Some b"
    "hd_secrets h k = Some s \<Longrightarrow> hd_secrets h' k = Some s" "hd_identity h' = hd_identity h"
  using assms map_le_Some unfolding grown_def by metis+

lemma exec_ok_grown:
  assumes "exec_ok B h operation_id e" and "grown h h'"
  shows "exec_ok B h' operation_id e"
proof (cases e)
  case (BundleExecution x)
  then show ?thesis
    using assms(1) grownD [OF assms(2)] by (fastforce simp: tool_environment_ok_def)
next
  case (ShellExecution y)
  then show ?thesis using assms(1) grownD(1,4) [OF assms(2)] by auto
qed

lemma collect_environment_Ok:
  assumes "collect_environment B secrets names e = Ok e'"
  shows "dom e' = dom e \<union> set names"
    "\<And>n v. e' n = Some v \<Longrightarrow> e n = Some v \<or> (\<exists>s. secrets = Some s \<and> ss_values s n = Some v)"
proof -
  have "dom e' = dom e \<union> set names \<and>
      (\<forall>n v. e' n = Some v \<longrightarrow> e n = Some v \<or> (\<exists>s. secrets = Some s \<and> ss_values s n = Some v))"
    using assms
  proof (induction names arbitrary: e)
    case (Cons name names)
    then obtain v where v: "Option.bind secrets (\<lambda>s. ss_values s name) = Some v"
      and rest: "collect_environment B secrets names (e(name \<mapsto> v)) = Ok e'"
      by (auto simp: and_then_Ok_iff)
    from Cons.IH [OF rest] v show ?case
      by (auto simp: Option.bind_eq_Some_conv split: if_splits)
  qed simp
  then show "dom e' = dom e \<union> set names"
    "\<And>n v. e' n = Some v \<Longrightarrow> e n = Some v \<or> (\<exists>s. secrets = Some s \<and> ss_values s n = Some v)" by blast+
qed

lemma resource_subset_Ok:
  "validate_resource_subset B q p = Ok u \<Longrightarrow>
     rc_timeout_ms q \<le> rc_timeout_ms p \<and> rc_max_output_bytes q \<le> rc_max_output_bytes p"
  by (auto simp: validate_resource_subset_def and_then_Ok_iff split: if_splits)

lemma live_target_Ok:
  "live_target B now h = Ok t \<longleftrightarrow>
     (\<exists>a. hd_armed h = Some a \<and> t = snapshot_of a \<and> now < at_expires_at_ms a)"
  by (cases "hd_armed h") (auto simp: live_target_def snapshot_of_def)

lemma bundle_exec_ok:
  assumes "hd_armed h = Some a" and "target_checks B envelope (snapshot_of a) = Ok ()"
    and "bound_execution B envelope (snapshot_of a) h = Ok ve"
  shows "exec_ok B h (oe_operation_id envelope) (bundle_execution_of envelope ve c)"
proof -
  from assms(3) obtain b d environment where b: "hd_bindings h (oe_binding_ref envelope) = Some b"
      "sb_session_id (ib_seal b) = oe_session_id envelope" "sb_bundle (ib_seal b) = Some d"
    and env: "collect_environment B (hd_secrets h (oe_session_id envelope)) (bd_required_env d) Map.empty = Ok environment"
    and ve: "ve = \<lparr>ve_bundle_path = ib_bundle_path b, ve_descriptor = d, ve_environment = environment,
                  ve_identity = ib_identity b, ve_target = snapshot_of a\<rparr>"
    by (auto simp: bound_execution_def and_then_Ok_iff)
  have "tool_environment_ok h (oe_session_id envelope) d environment"
    using collect_environment_Ok [OF env] by (auto simp: tool_environment_ok_def)
  moreover have "oe_root_id envelope = at_root_id a" "network_ceiling_is_subset B (oe_network envelope) (at_network a)"
      "runs_under a (oe_resources envelope) (at_proxy_environment a) (at_expires_at_ms a)"
    using assms(2) resource_subset_Ok
    by (fastforce simp: target_checks_def and_then_Ok_iff snapshot_of_def runs_under_def)+
  ultimately show ?thesis using assms(1) b ve by (simp add: snapshot_of_def bundle_execution_of_def)
qed

lemma shell_exec_ok:
  assumes "hd_armed h = Some a" and "sandbox_checks B q (snapshot_of a) = Ok u"
  shows "exec_ok B h (sx_execution_id q) (shell_execution_of q (snapshot_of a) cwd h c p)"
proof -
  have "runs_under a (sx_resources q) (at_proxy_environment a) (at_expires_at_ms a)"
    using assms(2) resource_subset_Ok
    by (fastforce simp: sandbox_checks_def and_then_Ok_iff snapshot_of_def runs_under_def)
  with assms(1) show ?thesis by (auto simp: snapshot_of_def shell_execution_of_def)
qed

subsection \<open>The laws of the regions\<close>

text \<open>The operation id a request may start an execution for.\<close>

fun submits :: "hand_request \<Rightarrow> string option" where
  "submits (QSubmit envelope wait) = Some (oe_operation_id envelope)"
| "submits (QExecuteSandbox q) = Some (sx_execution_id q)"
| "submits _ = None"

locale guest_regions = task_contract R I G
  for R :: "hand \<Rightarrow> hand \<Rightarrow> bool" and I :: "hand \<Rightarrow> bool" and G :: "hand \<Rightarrow> hand \<Rightarrow> bool" +
  fixes B :: brain
    and Mine :: "string \<Rightarrow> bool"
    and Fenced :: "string \<Rightarrow> hand \<Rightarrow> bool"
    and Acked :: "operation_ref \<Rightarrow> string \<Rightarrow> hand \<Rightarrow> bool"
  assumes grows: "R h h' \<Longrightarrow> grown h h'"
    and fenced_later: "R h h' \<Longrightarrow> Fenced oid h \<Longrightarrow> Fenced oid h'"
    and acked_later: "R h h' \<Longrightarrow> Acked op td h \<Longrightarrow> Acked op td h'"
    and fence_keeps: "I h \<Longrightarrow> Mine oid \<Longrightarrow> fence_acknowledged_submission B oid rd h = Ok () \<Longrightarrow> Fenced oid h"
    and arm_keeps: "I h \<Longrightarrow> arm_locked B c h = (r1, h') \<Longrightarrow> I h' \<and> G h h'"
    and bundle_keeps: "I h \<Longrightarrow> bundle_checks B d content = Ok () \<Longrightarrow>
        install_bundle_locked B i d content h = (r2, h') \<Longrightarrow> I h' \<and> G h h'"
    and binding_keeps: "I h \<Longrightarrow> install_binding_locked B q path h = (r3, h') \<Longrightarrow> I h' \<and> G h h'"
    and secrets_keeps: "I h \<Longrightarrow> install_secrets_locked B sq h = (r4, h') \<Longrightarrow> I h' \<and> G h h'"
    and admit_keeps: "I h \<Longrightarrow> Fenced oid h \<Longrightarrow> of_operation_id op = oid \<Longrightarrow> (\<And>t c. exec_ok B h oid (ex t c)) \<Longrightarrow>
        admit_and_spawn B oid rd op tr interactive ex h = (r5, h') \<Longrightarrow> I h' \<and> G h h'"
    and finish_keeps: "I h \<Longrightarrow> I (finish B oid result h) \<and> G h (finish B oid result h)"
    and permits_keeps: "I h \<Longrightarrow> I (h\<lparr>hd_permits := n\<rparr>) \<and> G h (h\<lparr>hd_permits := n\<rparr>)"
    and close_keeps: "I h \<Longrightarrow> I (h\<lparr>hd_slots_closed := True\<rparr>) \<and> G h (h\<lparr>hd_slots_closed := True\<rparr>)"
    and cancel_keeps: "I h \<Longrightarrow> cancel_locked B op h = (r6, h') \<Longrightarrow> I h' \<and> G h h'"
    and token_keeps: "I h \<Longrightarrow> I (cancel_token t h) \<and> G h (cancel_token t h)"
    and tokens_keep: "I h \<Longrightarrow> I (h\<lparr>hd_tokens := cancel_all ts (hd_tokens h)\<rparr>) \<and> G h (h\<lparr>hd_tokens := cancel_all ts (hd_tokens h)\<rparr>)"
    and exists_keeps: "I h \<Longrightarrow> acknowledgement_exists (ack_codec_of B) io (hd_acks h) op td = (r7, st) \<Longrightarrow>
        I (h\<lparr>hd_acks := st\<rparr>) \<and> G h (h\<lparr>hd_acks := st\<rparr>) \<and> (r7 = Ok True \<longrightarrow> Acked op td (h\<lparr>hd_acks := st\<rparr>))"
    and retain_keeps: "I h \<Longrightarrow> retain (ack_codec_of B) io (hd_acks h) op td = (r8, st) \<Longrightarrow>
        I (h\<lparr>hd_acks := st\<rparr>) \<and> G h (h\<lparr>hd_acks := st\<rparr>) \<and> (is_ok r8 \<longrightarrow> Acked op td (h\<lparr>hd_acks := st\<rparr>))"
    and release_keeps: "I h \<Longrightarrow> Acked op td h \<Longrightarrow> release_book B op td h = (r9, h') \<Longrightarrow> I h' \<and> G h h'"
    and forget_keeps: "I h \<Longrightarrow> I (forget_writes oid h) \<and> G h (forget_writes oid h)"
    and lookup_keeps: "I h \<Longrightarrow> stdin_lookup B wq h = (r10, h') \<Longrightarrow> I h' \<and> G h h'"
    and send_keeps: "I h \<Longrightarrow> send_atomic B i n wq h = (r11, h') \<Longrightarrow> I h' \<and> G h h'"
    and settle_keeps: "I h \<Longrightarrow> stdin_settle B wq receipt h = (r12, h') \<Longrightarrow> I h' \<and> G h h'"
begin

abbreviation safe :: "(input, hand, 'a) task \<Rightarrow> hand \<Rightarrow> bool" where
  "safe \<equiv> sound I R G (\<lambda>_ _. True)"

abbreviation safe_result :: "('a \<Rightarrow> hand \<Rightarrow> bool) \<Rightarrow> 'a handler \<Rightarrow> hand \<Rightarrow> bool" where
  "safe_result Q \<equiv> sound I R G (case_sum (\<lambda>_ _. True) Q)"

abbreviation is_live :: "target_snapshot \<Rightarrow> hand \<Rightarrow> bool" where
  "is_live t h \<equiv> \<exists>a. hd_armed h = Some a \<and> t = snapshot_of a"

lemma safe_read: "sound I R G (\<lambda>_ _. True) (read_region f) h"
  by (rule sound_read) simp

lemma result_read: "safe_result (\<lambda>_ _. True) (read_region f) h"
  by (rule sound_read) (simp split: sum.splits)

lemma require_target_sound: "safe_result is_live (require_target B) h"
  unfolding require_target_def
proof (rule sound_read)
  fix s' i t
  assume "R s' t"
  then show "case_sum (\<lambda>_ _. True) is_live (live_target B (in_now i) s') t"
    using grownD(1) [OF grows] by (fastforce simp: live_target_Ok split: sum.splits)
qed

lemma fence_sound: "safe_result is_live (fence B target generation) h"
  unfolding fence_def
  by (rule sound_tryI [OF require_target_sound]) (auto dest: grownD(1) [OF grows])

lemma observe_sound: "safe_result (\<lambda>_ _. True) (observe_inner B op wait) h"
  unfolding observe_inner_def
  by (rule sound_tryI [OF result_read], rule sound_bindI [where P = "\<lambda>_ _. True"])
    (simp_all add: safe_read result_read)

lemma install_sound:
  "safe_result (\<lambda>_ _. True) (install_bundle B d content) h"
  "safe_result (\<lambda>_ _. True) (install_binding B q) h"
  "safe_result (\<lambda>_ _. True) (install_secrets B sq) h"
proof -
  have staged: "safe_result (\<lambda>_ _. True) (region (\<lambda>i. install_bundle_locked B i d content)) h"
    if "bundle_checks B d content = Ok x" for x
    by (rule sound_region) (use bundle_keeps that in \<open>auto split: sum.splits\<close>)
  then show "safe_result (\<lambda>_ _. True) (install_bundle B d content) h"
    unfolding install_bundle_def by (intro sound_checkI)
  have "safe_result (\<lambda>_ _. True) (region (\<lambda>i. install_binding_locked B q path)) h'" for path h'
    by (rule sound_region) (use binding_keeps in \<open>auto split: sum.splits\<close>)
  then show "safe_result (\<lambda>_ _. True) (install_binding B q) h"
    unfolding install_binding_def
    by (intro sound_tryI [OF require_target_sound] sound_checkI sound_tryI [OF result_read])
  have "safe_result (\<lambda>_ _. True) (region (\<lambda>i. install_secrets_locked B sq)) h'" for h'
    by (rule sound_region) (use secrets_keeps in \<open>auto split: sum.splits\<close>)
  then show "safe_result (\<lambda>_ _. True) (install_secrets B sq) h"
    unfolding install_secrets_def
    by (intro sound_tryI [OF require_target_sound] sound_checkI sound_tryI [OF result_read])
qed

lemma arm_sound: "safe_result (\<lambda>_ _. True) (arm B target_ref p) h"
proof -
  have "safe_result (\<lambda>_ _. True) (region (\<lambda>i. arm_locked B c)) h'" for c h'
    by (rule sound_region) (use arm_keeps in \<open>auto split: sum.splits\<close>)
  then show ?thesis unfolding arm_def by (intro sound_tryI [OF result_read])
qed

text \<open>Submissions.\<close>

lemma fence_read_sound:
  "Mine oid \<Longrightarrow> safe_result (\<lambda>_. Fenced oid) (read_region (\<lambda>i. fence_acknowledged_submission B oid rd)) h"
  by (rule sound_read) (use fence_keeps fenced_later in \<open>auto split: sum.splits\<close>)

lemma admit_sound:
  assumes "Fenced oid h" and "of_operation_id op = oid" and "\<And>h' t c. R h h' \<Longrightarrow> exec_ok B h' oid (ex h' t c)"
  shows "safe_result (\<lambda>_ _. True)
    (region (\<lambda>i h'. admit_and_spawn B oid rd op tr interactive (ex h') h')) h"
proof (rule sound_region)
  fix s' i a s''
  assume "R h s'" "I s'" and s'': "admit_and_spawn B oid rd op tr interactive (ex s') s' = (a, s'')"
  then have "I s'' \<and> G s' s''"
    using admit_keeps [OF _ _ assms(2) _ s''] assms(1,3) fenced_later by blast
  then show "I s'' \<and> G s' s'' \<and> (\<forall>t. R s'' t \<longrightarrow> I t \<longrightarrow> case_sum (\<lambda>_ _. True) (\<lambda>_ _. True) a t)"
    by (simp split: sum.splits)
qed

lemma admitted_sound:
  assumes "Fenced oid h" and "of_operation_id op = oid" and "\<And>h' t c. R h h' \<Longrightarrow> exec_ok B h' oid (ex h' t c)"
  shows "safe_result (\<lambda>_ _. True)
    (task_try (region (\<lambda>i h'. admit_and_spawn B oid rd op tr interactive (ex h') h')) (\<lambda>reserved.
     task_try (observe_inner B op wait) (\<lambda>observation. Return (Ok (rep reserved observation))))) h"
  by (intro sound_tryI [OF admit_sound [OF assms]] sound_tryI [OF observe_sound]) simp_all

lemma operation_ref_id:
  "operation_ref B envelope t = Ok op \<Longrightarrow> of_operation_id op = oe_operation_id envelope"
  "sandbox_ref B q t = Ok op \<Longrightarrow> of_operation_id op = sx_execution_id q"
  by (auto simp: operation_ref_def sandbox_ref_def and_then_Ok_iff)

lemma validate_operation_sound:
  "safe_result (\<lambda>ve h'. \<forall>c. exec_ok B h' (oe_operation_id envelope) (bundle_execution_of envelope ve c)) (validate_operation B envelope) h"
  unfolding validate_operation_def
proof (intro sound_tryI [OF require_target_sound] sound_checkI)
  fix t h' and x :: unit
  assume live: "is_live t h'" and checks: "target_checks B envelope t = Ok x"
  show "safe_result (\<lambda>ve h'. \<forall>c. exec_ok B h' (oe_operation_id envelope) (bundle_execution_of envelope ve c)) (read_region (\<lambda>i. bound_execution B envelope t)) h'"
  proof (rule sound_read)
    fix s' i s''
    assume "R h' s'" "R s' s''"
    then show "case_sum (\<lambda>_ _. True) (\<lambda>ve h'. \<forall>c. exec_ok B h' (oe_operation_id envelope) (bundle_execution_of envelope ve c)) (bound_execution B envelope t s') s''"
      using live checks grownD(1) [OF grows] bundle_exec_ok exec_ok_grown [OF _ grows]
      by (cases "bound_execution B envelope t s'") (simp, fastforce)
  qed
qed

lemma submit_sound:
  assumes mine: "Mine (oe_operation_id envelope)"
  shows "safe_result (\<lambda>_ _. True) (submit B envelope wait) h"
  unfolding submit_def
proof (intro sound_checkI sound_tryI [OF fence_read_sound [OF mine]] sound_tryI [OF validate_operation_sound], goal_cases)
  case (1 u v w h1 ve h2 op tr)
  show ?case
  proof (rule admitted_sound)
    show "Fenced (oe_operation_id envelope) h2" using 1 fenced_later by blast
    show "of_operation_id op = oe_operation_id envelope" using 1 operation_ref_id(1) by blast
    show "exec_ok B h' (oe_operation_id envelope) (bundle_execution_of envelope ve t)" if "R h2 h'" for h' t
      using 1 exec_ok_grown [OF _ grows [OF that]] by blast
  qed
qed

lemma execute_sandbox_sound:
  assumes mine: "Mine (sx_execution_id q)"
  shows "safe_result (\<lambda>_ _. True) (execute_sandbox B q) h"
  unfolding execute_sandbox_def execute_fenced_def
proof (intro sound_checkI sound_tryI [OF fence_read_sound [OF mine]] sound_tryI [OF fence_sound] sound_tryI [OF result_read],
    goal_cases)
  case (1 u v h1 t h2 w cwd h3 op tr)
  obtain a where a: "hd_armed h2 = Some a" "t = snapshot_of a" using 1 by blast
  show ?case
  proof (rule admitted_sound)
    show "Fenced (sx_execution_id q) h3" using 1 fenced_later by blast
    show "of_operation_id op = sx_execution_id q" using 1 operation_ref_id(2) by blast
    fix h' c p
    assume "R h3 h'"
    then have "hd_armed h' = Some a" using 1 a(1) grownD(1) [OF grows] by blast
    then show "exec_ok B h' (sx_execution_id q) (shell_execution_of q t cwd h' c p)"
      unfolding a(2) by (rule shell_exec_ok) (use 1 a(2) in auto)
  qed
qed

text \<open>Executions, cancellation, shutdown.\<close>

lemma change_sound:
  assumes "\<And>h. I h \<Longrightarrow> I (f h) \<and> G h (f h)"
  shows "safe (region (\<lambda>i h. ((), f h))) h"
  by (rule sound_region) (use assms in auto)

lemma finish_sound: "safe (region (\<lambda>i h. ((), finish B oid result h))) h"
  by (rule change_sound) (rule finish_keeps)

lemma slot_sound: "safe (region (\<lambda>i h. ((), return_slot h))) h"
  by (rule change_sound) (simp add: return_slot_def permits_keeps)

lemma end_execution_sound: "safe (end_execution B oid ended) h"
  unfolding end_execution_def
  by (cases ended)
    (simp_all only: option.case sound_bindI [OF slot_sound finish_sound] sound_bindI [OF finish_sound slot_sound])

lemma run_execution_sound: "safe (run_execution B oid) h"
  unfolding run_execution_def
proof (rule sound_bindI [where P = "\<lambda>_ _. True"])
  show "safe (await_region (\<lambda>h. hd_slots_closed h \<or> hd_permits h > 0)
      (\<lambda>i h. if hd_slots_closed h then (False, h) else (True, h\<lparr>hd_permits := hd_permits h - 1\<rparr>))) h"
    by (rule sound_region) (use permits_keeps idle in \<open>auto split: if_splits\<close>)
  show "safe (if \<not> slot then Return () else task_bind (read_region (\<lambda>i h. in_result i)) (end_execution B oid)) h'"
    for slot h'
    by (cases slot) (simp_all add: sound_bindI [OF safe_read end_execution_sound])
qed

lemma cancel_sound: "safe_result (\<lambda>_ _. True) (cancel B op) h"
proof -
  have locked: "safe_result (\<lambda>_ _. True) (region (\<lambda>i. cancel_locked B op)) h"
    by (rule sound_region) (use cancel_keeps in \<open>auto split: sum.splits\<close>)
  have token: "safe (region (\<lambda>i h. ((), cancel_token t h))) h'" for t h'
    by (rule change_sound) (rule token_keeps)
  have "safe (case cancellation of Some t \<Rightarrow> if accepted then region (\<lambda>i h. ((), cancel_token t h)) else Return ()
      | None \<Rightarrow> Return ()) h'" for cancellation accepted h'
    using token by (cases cancellation) auto
  then have "safe_result (\<lambda>_ _. True) (task_bind
       (case cancellation of Some t \<Rightarrow> if accepted then region (\<lambda>i h. ((), cancel_token t h)) else Return ()
        | None \<Rightarrow> Return ()) (\<lambda>_.
     task_try (observe_inner B op 0) (\<lambda>observation.
       Return (Ok \<lparr>cr_accepted = accepted, cr_observation = observation, cr_operation = op\<rparr>)))) h'"
    for cancellation accepted h'
    by (rule sound_bindI, intro sound_tryI [OF observe_sound]) simp_all
  then show ?thesis unfolding cancel_def by (intro sound_tryI [OF locked]) (simp split: prod.splits)
qed

lemma shutdown_sound: "safe shutdown h"
  unfolding shutdown_def
  by (intro sound_bindI [OF change_sound] sound_bindI [OF safe_read] change_sound close_keeps tokens_keep)

text \<open>Acknowledgement.\<close>

lemma store_call_sound:
  assumes "\<And>h io r st. I h \<Longrightarrow> call io (hd_acks h) = (r, st) \<Longrightarrow>
      I (h\<lparr>hd_acks := st\<rparr>) \<and> G h (h\<lparr>hd_acks := st\<rparr>) \<and> (\<forall>x. r = Ok x \<longrightarrow> K x \<longrightarrow> Acked op td (h\<lparr>hd_acks := st\<rparr>))"
  shows "safe_result (\<lambda>x h. K x \<longrightarrow> Acked op td h) (store_call B call) h"
  unfolding store_call_def
proof (rule sound_region)
  fix s' and i :: input and a s''
  assume "I s'" and a: "(if \<not> in_joined i then (Err (unavailable B ''acknowledgement storage task failed''), s')
      else case call (in_io i) (hd_acks s') of (r, st) \<Rightarrow> (map_err (ack_store_error B) r, s'\<lparr>hd_acks := st\<rparr>)) = (a, s'')"
  obtain r st where call: "call (in_io i) (hd_acks s') = (r, st)" by (rule prod.exhaust)
  then show "I s'' \<and> G s' s'' \<and> (\<forall>t. R s'' t \<longrightarrow> I t \<longrightarrow> case_sum (\<lambda>_ _. True) (\<lambda>x h. K x \<longrightarrow> Acked op td h) a t)"
    using assms [OF \<open>I s'\<close> call] a \<open>I s'\<close> idle acked_later by (cases "in_joined i"; cases r) auto
qed

lemma acked_region:
  assumes "Acked op td h" and "\<And>i s a s'. I s \<Longrightarrow> Acked op td s \<Longrightarrow> f i s = (a, s') \<Longrightarrow> I s' \<and> G s s'"
  shows "safe_result (\<lambda>_. Acked op td) (region f) h"
proof (rule sound_region)
  fix s' i a s''
  assume "R h s'" "I s'" and s'': "f i s' = (a, s'')"
  have acked: "Acked op td s'" using \<open>R h s'\<close> assms(1) by (rule acked_later)
  have ok: "I s'' \<and> G s' s''" using assms(2) [OF \<open>I s'\<close> acked s''] .
  then have "Acked op td s''" using acked_later [OF guarantee acked] by simp
  then show "I s'' \<and> G s' s'' \<and> (\<forall>t. R s'' t \<longrightarrow> I t \<longrightarrow> case_sum (\<lambda>_ _. True) (\<lambda>_. Acked op td) a t)"
    using ok acked_later [of s'' _ op td] by (cases a) auto
qed

lemma release_sound:
  assumes "Acked op td h"
  shows "safe_result (\<lambda>_. Acked op td) (release_acknowledged_terminal B op td) h"
  unfolding release_acknowledged_terminal_def
proof (rule sound_tryI)
  show "safe_result (\<lambda>_. Acked op td) (region (\<lambda>i. release_book B op td)) h"
    by (rule acked_region [OF assms]) (rule release_keeps)
  show "safe_result (\<lambda>_. Acked op td) (region (\<lambda>i h. (Ok (), forget_writes (of_operation_id op) h))) h'"
    if "Acked op td h'" for h'
    by (rule acked_region [OF that]) (use forget_keeps in auto)
qed

lemma acknowledge_sound: "safe_result (\<lambda>_. Acked op td) (acknowledge B op td) h"
proof -
  have ex: "safe_result (\<lambda>x h. x \<longrightarrow> Acked op td h)
      (store_call B (\<lambda>io st. acknowledgement_exists (ack_codec_of B) io st op td)) h"
    by (rule store_call_sound) (use exists_keeps in blast)
  have re: "safe_result (\<lambda>x h. True \<longrightarrow> Acked op td h)
      (store_call B (\<lambda>io st. retain (ack_codec_of B) io st op td)) h'" for h'
    by (rule store_call_sound) (use retain_keeps in \<open>fastforce simp: is_ok_iff\<close>)
  show ?thesis
    unfolding acknowledge_def
    by (auto intro!: sound_tryI [OF ex] sound_tryI [OF result_read] sound_tryI [OF re] release_sound)
qed

text \<open>Interactive writes.\<close>

lemma stdin_round_sound:
  assumes "\<And>h. safe wait h"
  shows "safe (stdin_round B q wait) h"
proof -
  have "safe (region (\<lambda>i. stdin_lookup B q)) h"
    by (rule sound_region) (use lookup_keeps in auto)
  then show ?thesis
    unfolding stdin_round_def
    by (rule sound_bindI) (use assms in \<open>auto split: stdin_entry.splits\<close>)
qed

lemma stdin_reserve_sound: "safe (stdin_reserve B q rounds) h"
proof (induction rounds arbitrary: h)
  case 0
  show ?case by (simp add: stdin_round_sound stdin_late_def)
next
  case (Suc rounds)
  have "safe (task_bind (read_region (\<lambda>i h. in_woken i)) (\<lambda>woken.
       if woken then stdin_reserve B q rounds else stdin_late B)) h'" for h'
    by (rule sound_bindI [OF safe_read]) (simp add: Suc.IH stdin_late_def)
  then show ?case by (simp add: stdin_round_sound)
qed

lemma write_stdin_sound: "safe_result (\<lambda>_ _. True) (write_stdin B q rounds) h"
proof -
  have reserve: "safe_result (\<lambda>_ _. True) (stdin_reserve B q rounds) h'" for h'
    by (rule sound_mono [OF stdin_reserve_sound]) (simp split: sum.splits)
  have settle: "safe_result (\<lambda>_ _. True) (region (\<lambda>i. stdin_settle B q receipt)) h'" for receipt h'
    by (rule sound_region) (use settle_keeps in \<open>auto split: sum.splits\<close>)
  have "safe (if ws_text q = [] \<and> \<not> ws_eof q then Return False
      else (case control of Some c \<Rightarrow> region (\<lambda>i. send_atomic B i c q) | None \<Rightarrow> Return False)) h'" for control h'
    by (auto intro!: sound_region dest: send_keeps split: option.splits)
  then have fresh: "safe_result (\<lambda>_ _. True) (task_bind
      (if ws_text q = [] \<and> \<not> ws_eof q then Return False
       else (case control of Some c \<Rightarrow> region (\<lambda>i. send_atomic B i c q) | None \<Rightarrow> Return False)) (\<lambda>accepted.
      task_try (observe_inner B op 0) (\<lambda>observation. region (\<lambda>i. stdin_settle B q (rcp accepted observation))))) h'"
    for control op rcp h'
    by (rule sound_bindI) (intro sound_tryI [OF observe_sound] settle)
  have again: "safe_result (\<lambda>_ _. True)
      (task_try (observe_inner B op 0) (\<lambda>observation. Return (Ok (rcp observation)))) h'" for op rcp h'
    by (intro sound_tryI [OF observe_sound]) simp
  show ?thesis
    unfolding write_stdin_def
  proof (intro sound_checkI sound_tryI [OF fence_sound] sound_tryI [OF result_read], goal_cases)
    case (1 u v target h1 found h2)
    obtain control op where found: "found = (control, op)" by (rule prod.exhaust)
    show ?case
      unfolding found prod.case
    proof (rule sound_tryI [OF reserve])
      fix before h3
      show "safe_result (\<lambda>_ _. True) (case before of
         Some receipt \<Rightarrow>
           task_try (observe_inner B op 0) (\<lambda>observation.
             Return (Ok (receipt\<lparr>wr_replayed := True, wr_observation := observation\<rparr>)))
       | None \<Rightarrow>
           task_bind
             (if ws_text q = [] \<and> \<not> ws_eof q then Return False
              else (case control of
                      Some c \<Rightarrow> region (\<lambda>i. send_atomic B i c q)
                    | None \<Rightarrow> Return False)) (\<lambda>accepted.
           task_try (observe_inner B op 0) (\<lambda>observation.
             region (\<lambda>i. stdin_settle B q
               \<lparr>wr_accepted = accepted, wr_observation = observation, wr_operation_id = ws_operation_id q,
                wr_replayed = False, wr_request_digest = ws_request_digest q\<rparr>)))) h3"
        by (cases before) (simp_all only: option.case fresh again)
    qed
  qed
qed

lemma observe_operation_sound: "safe_result (\<lambda>_ _. True) (observe_operation B op wait) h"
  unfolding observe_operation_def by (intro sound_checkI observe_sound)

text \<open>All handlers; an acknowledgement that is answered was retained.\<close>

definition reply_ok :: "hand_request \<Rightarrow> hand_reply \<Rightarrow> hand \<Rightarrow> bool" where
  "reply_ok q r h \<longleftrightarrow>
     (case q of QAcknowledge op td \<Rightarrow> r = RAcknowledge (Ok ()) \<longrightarrow> Acked op td h | _ \<Rightarrow> True)"

lemma result_safe: "safe_result (\<lambda>_ _. True) t h \<Longrightarrow> safe t h"
  by (erule sound_mono) simp

lemma map_safe: "safe t h \<Longrightarrow> safe (task_map f t) h"
  by (rule sound_map)

lemmas handlers_safe = arm_sound [THEN result_safe] install_sound [THEN result_safe]
  submit_sound [THEN result_safe] execute_sandbox_sound [THEN result_safe]
  observe_operation_sound [THEN result_safe] cancel_sound [THEN result_safe]
  write_stdin_sound [THEN result_safe] shutdown_sound run_execution_sound

lemma serve_all_sound:
  assumes "\<And>oid. submits q = Some oid \<Longrightarrow> Mine oid"
  shows "sound I R G (reply_ok q) (serve B q) h"
proof (cases "\<exists>op td. q = QAcknowledge op td")
  case True
  then obtain op td where q: "q = QAcknowledge op td" by blast
  show ?thesis
    unfolding q serve.simps
    by (rule sound_map, rule sound_mono [OF acknowledge_sound]) (simp add: reply_ok_def split: sum.splits)
next
  case False
  then have "safe (serve B q) h" using assms by (cases q) (simp_all add: map_safe handlers_safe)
  then show ?thesis by (rule sound_mono) (use False in \<open>simp add: reply_ok_def split: hand_request.split\<close>)
qed

end

end
