(* ===== verification/Guest_Invariant.thy ===== *)
theory Guest_Invariant
  imports Guest_Contract
begin

section \<open>The invariant of the guest\<close>

text \<open>
  \<open>hand_inv\<close> holds of the guest's state at every moment, and \<open>hand_later\<close> relates any two moments:
  the armed target, the bindings and the secrets stay; acknowledgements stay; a retained terminal
  result stays until an acknowledgement of it is durable; executions are only added. Both are
  discharged region by region; the interpretation of \<open>guest_regions\<close> turns that into a fact about
  all handlers, and the one of \<open>sound_handlers\<close> into a fact about all their interleavings.
\<close>

subsection \<open>Definitions\<close>

definition terminal_at :: "operation_registry \<Rightarrow> string \<Rightarrow> (string \<times> bytes) option" where
  "terminal_at r oid =
     (case records r oid of
        Some rec \<Rightarrow> (case or_state rec of Terminal td p \<Rightarrow> Some (td, p) | _ \<Rightarrow> None)
      | None \<Rightarrow> None)"

text \<open>An operation that is not terminal has the reservation of a full envelope.\<close>

definition pending_ok :: "nat \<Rightarrow> operation_registry \<Rightarrow> bool" where
  "pending_ok n r \<longleftrightarrow>
     (\<forall>oid rec. records r oid = Some rec \<longrightarrow> \<not> is_terminal (or_state rec) \<longrightarrow> or_reservation_bytes rec = n)"

definition book_ok :: "brain \<Rightarrow> hand \<Rightarrow> bool" where
  "book_ok B h \<longleftrightarrow>
     op_inv (hd_registry h) \<and> dom (hd_metadata h) = dom (records (hd_registry h))
     \<and> pending_ok (TERMINAL_ENVELOPE_BYTES B) (hd_registry h)"

definition spawned_ids :: "hand \<Rightarrow> string list" where
  "spawned_ids h = map fst (hd_spawned h)"

definition spawns_ok :: "hand \<Rightarrow> bool" where
  "spawns_ok h \<longleftrightarrow>
     (\<forall>oid\<in>set (spawned_ids h). oid \<in> dom (records (hd_registry h)) \<or> as_records (hd_acks h) oid \<noteq> None)
     \<and> (\<forall>oid. as_records (hd_acks h) oid = None \<longrightarrow> count_list (spawned_ids h) oid \<le> 1)"

definition execs_ok :: "brain \<Rightarrow> hand \<Rightarrow> bool" where
  "execs_ok B h \<longleftrightarrow> (\<forall>(oid, e) \<in> set (hd_spawned h). exec_ok B h oid e)"

text \<open>
  Every assigned uid is recorded with the binding that has it, and lies in the range; a binding has
  the identity that was assigned to its reference.
\<close>

definition identities_ok :: "hand \<Rightarrow> bool" where
  "identities_ok h \<longleftrightarrow>
     (let g = hd_identities h in
      finite (dom (ir_by_ref g)) \<and> card (dom (ir_by_ref g)) \<le> ir_max_bindings g
      \<and> (\<forall>k x. ir_by_ref g k = Some (Some x) \<longrightarrow>
           ir_by_uid g (ti_uid x) = Some k \<and> ir_uid_min g \<le> ti_uid x \<and> ti_uid x < ir_uid_min g + ir_uid_span g)
      \<and> (\<forall>k b. hd_bindings h k = Some b \<longrightarrow> ir_by_ref g k = Some (ib_identity b)))
     \<and> ir_uid_min (hd_identities h) = MANAGED_BINDING_UID_MIN
     \<and> ir_uid_span (hd_identities h) = MANAGED_BINDING_UID_SPAN
     \<and> ir_max_bindings (hd_identities h) = MAX_PREPARED_BINDINGS"

definition stdin_ok :: "hand \<Rightarrow> bool" where
  "stdin_ok h \<longleftrightarrow> finite (dom (hd_stdin h)) \<and> card (dom (hd_stdin h)) \<le> MAX_RETAINED_STDIN_WRITES"

definition hand_inv :: "brain \<Rightarrow> hand \<Rightarrow> bool" where
  "hand_inv B h \<longleftrightarrow>
     ack_ok (ack_codec_of B) (hd_acks h) \<and> book_ok B h \<and> spawns_ok h \<and> execs_ok B h
     \<and> identities_ok h \<and> stdin_ok h"

definition acked :: "brain \<Rightarrow> operation_ref \<Rightarrow> string \<Rightarrow> hand \<Rightarrow> bool" where
  "acked B op td h \<longleftrightarrow>
     (\<exists>c. ack_new (ack_codec_of B) op td = Ok c \<and> ack_durable (ack_codec_of B) c (hd_acks h))"

definition durable_ack :: "brain \<Rightarrow> string \<Rightarrow> string \<Rightarrow> hand \<Rightarrow> bool" where
  "durable_ack B oid td h \<longleftrightarrow>
     (\<exists>c. ak_operation_id c = oid \<and> ak_terminal_digest c = td \<and> ack_durable (ack_codec_of B) c (hd_acks h))"

definition acks_later :: "brain \<Rightarrow> acknowledgement_store \<Rightarrow> acknowledgement_store \<Rightarrow> bool" where
  "acks_later B st st' \<longleftrightarrow>
     as_records st \<subseteq>\<^sub>m as_records st'
     \<and> (\<forall>c. ack_durable (ack_codec_of B) c st \<longrightarrow> ack_durable (ack_codec_of B) c st')"

definition results_later :: "brain \<Rightarrow> hand \<Rightarrow> hand \<Rightarrow> bool" where
  "results_later B h h' \<longleftrightarrow>
     (\<forall>oid td p. terminal_at (hd_registry h) oid = Some (td, p) \<longrightarrow>
        terminal_at (hd_registry h') oid = Some (td, p) \<or> durable_ack B oid td h')"

definition hand_later :: "brain \<Rightarrow> hand \<Rightarrow> hand \<Rightarrow> bool" where
  "hand_later B h h' \<longleftrightarrow>
     grown h h' \<and> acks_later B (hd_acks h) (hd_acks h') \<and> results_later B h h'
     \<and> (\<exists>xs. hd_spawned h' = hd_spawned h @ xs)"

lemma hand_laterD:
  assumes "hand_later B h h'"
  shows "grown h h'" "acks_later B (hd_acks h) (hd_acks h')" "results_later B h h'"
    "\<exists>xs. hd_spawned h' = hd_spawned h @ xs"
  using assms by (simp_all add: hand_later_def)

lemma hand_invD:
  assumes "hand_inv B h"
  shows "ack_ok (ack_codec_of B) (hd_acks h)" "book_ok B h" "spawns_ok h" "execs_ok B h" "identities_ok h" "stdin_ok h"
  using assms by (simp_all add: hand_inv_def)

subsection \<open>The order\<close>

lemma acks_later_refl: "acks_later B st st"
  by (simp add: acks_later_def)

lemma acks_later_trans: "acks_later B st st' \<Longrightarrow> acks_later B st' st'' \<Longrightarrow> acks_later B st st''"
  unfolding acks_later_def using map_le_trans by blast

lemma durable_ack_later: "acks_later B (hd_acks h) (hd_acks h') \<Longrightarrow> durable_ack B oid td h \<Longrightarrow> durable_ack B oid td h'"
  unfolding acks_later_def durable_ack_def by blast

lemma hand_later_refl: "hand_later B h h"
  by (simp add: hand_later_def grown_refl acks_later_refl results_later_def)

lemma hand_later_trans:
  assumes "hand_later B h h'" and "hand_later B h' h''"
  shows "hand_later B h h''"
proof -
  note a = hand_laterD [OF assms(1)] and b = hand_laterD [OF assms(2)]
  have "results_later B h h''"
    using a(3) b(3) durable_ack_later [OF b(2)] unfolding results_later_def by blast
  moreover have "\<exists>xs. hd_spawned h'' = hd_spawned h @ xs" using a(4) b(4) by auto
  ultimately show ?thesis
    using grown_trans [OF a(1) b(1)] acks_later_trans [OF a(2) b(2)] by (simp add: hand_later_def)
qed

subsection \<open>What a change has to keep\<close>

text \<open>Every region but the admission of an operation also leaves the executions alone.\<close>

definition hand_same :: "brain \<Rightarrow> hand \<Rightarrow> hand \<Rightarrow> bool" where
  "hand_same B h h' \<longleftrightarrow> hand_later B h h' \<and> hd_spawned h' = hd_spawned h"

lemma hand_same_refl: "hand_same B h h"
  by (simp add: hand_same_def hand_later_refl)

lemma hand_step_ok:
  assumes inv: "hand_inv B h" and grown: "grown h h'" and spawned: "hd_spawned h' = hd_spawned h"
    and acks: "ack_ok (ack_codec_of B) (hd_acks h')" "acks_later B (hd_acks h) (hd_acks h')"
    and book: "book_ok B h'" and kept: "\<And>oid. oid \<in> dom (records (hd_registry h)) \<Longrightarrow>
      oid \<in> dom (records (hd_registry h')) \<or> as_records (hd_acks h') oid \<noteq> None"
    and results: "results_later B h h'" and others: "identities_ok h'" "stdin_ok h'"
  shows "hand_inv B h' \<and> hand_same B h h'"
proof -
  have "as_records (hd_acks h) oid = None" if "as_records (hd_acks h') oid = None" for oid
    using that acks(2) map_le_Some [of "as_records (hd_acks h)" "as_records (hd_acks h')"]
    by (cases "as_records (hd_acks h) oid") (auto simp: acks_later_def)
  then have "spawns_ok h'"
    using hand_invD(3) [OF inv] kept by (fastforce simp: spawns_ok_def spawned_ids_def spawned)
  moreover have "execs_ok B h'"
    using hand_invD(4) [OF inv] exec_ok_grown [OF _ grown] by (auto simp: execs_ok_def spawned)
  ultimately show ?thesis
    using assms by (simp add: hand_inv_def hand_later_def hand_same_def)
qed

text \<open>A change outside the book, the log and the executions.\<close>

lemma hand_frame_ok:
  assumes "hand_inv B h" and "grown h h'" and "hd_spawned h' = hd_spawned h"
    and "hd_acks h' = hd_acks h" and "hd_registry h' = hd_registry h" and "hd_metadata h' = hd_metadata h"
    and "identities_ok h'" and "stdin_ok h'"
  shows "hand_inv B h' \<and> hand_same B h h'"
  using assms hand_invD [OF assms(1)]
  by (intro hand_step_ok) (simp_all add: acks_later_refl results_later_def book_ok_def)

lemma unrelated_ok:
  assumes "hand_inv B h" and "hd_identity h' = hd_identity h" and "hd_armed h' = hd_armed h"
    and "hd_bindings h' = hd_bindings h" and "hd_secrets h' = hd_secrets h" and "hd_identities h' = hd_identities h"
    and "hd_spawned h' = hd_spawned h" and "hd_acks h' = hd_acks h" and "hd_registry h' = hd_registry h"
    and "hd_metadata h' = hd_metadata h" and "hd_stdin h' = hd_stdin h"
  shows "hand_inv B h' \<and> hand_same B h h'"
  by (rule hand_frame_ok) (use assms hand_invD(5,6) [OF assms(1)] in \<open>simp_all add: grown_def identities_ok_def stdin_ok_def\<close>)

subsection \<open>The target and the artifacts\<close>

lemma inv_arm:
  assumes "hand_inv B h" and "arm_locked B c h = (r, h')"
  shows "hand_inv B h' \<and> hand_same B h h'"
proof (cases "hd_armed h")
  case None
  then have "h' = h\<lparr>hd_armed := Some c\<rparr>" using assms(2) by (auto simp: arm_locked_def)
  then show ?thesis
    using None hand_invD(5,6) [OF assms(1)]
    by (intro hand_frame_ok [OF assms(1)]) (simp_all add: grown_def identities_ok_def stdin_ok_def)
next
  case (Some t)
  then show ?thesis using assms hand_same_refl by (auto simp: arm_locked_def)
qed

lemma inv_bundle:
  assumes "hand_inv B h" and "install_bundle_locked B i d content h = (r, h')"
  shows "hand_inv B h' \<and> hand_same B h h'"
  by (rule unrelated_ok [OF assms(1)])
    (use assms(2) in \<open>auto simp: install_bundle_locked_def stage_bundle_def Let_def
      split: option.splits sum.splits if_splits prod.splits\<close>)

lemma inv_secrets:
  assumes "hand_inv B h" and "install_secrets_locked B q h = (r, h')"
  shows "hand_inv B h' \<and> hand_same B h h'"
proof (cases "hd_secrets h (sq_session_id q)")
  case None
  then have "\<exists>s. h' = h\<lparr>hd_secrets := (hd_secrets h)(sq_session_id q \<mapsto> s)\<rparr>"
    using assms(2) by (auto simp: install_secrets_locked_def)
  then show ?thesis
    using None hand_invD(5,6) [OF assms(1)]
    by (intro hand_frame_ok [OF assms(1)])
      (auto simp: grown_def identities_ok_def stdin_ok_def map_le_def)
next
  case (Some s)
  then show ?thesis using assms hand_same_refl by (auto simp: install_secrets_locked_def)
qed

lemma allocate_cases:
  assumes "allocate B g k si = (r, g')"
  shows "g' = g \<and> (\<forall>identity. r = Ok identity \<longrightarrow> ir_by_ref g k = Some identity)
    \<or> ir_by_ref g k = None \<and> card (dom (ir_by_ref g)) < ir_max_bindings g
      \<and> (r = Ok None \<and> g' = g\<lparr>ir_by_ref := (ir_by_ref g)(k \<mapsto> None)\<rparr>
         \<or> (\<exists>x. r = Ok (Some x) \<and> ir_by_uid g (ti_uid x) = None \<and> ir_uid_span g \<noteq> 0 \<and> ti_uid x = binding_uid B g k
              \<and> g' = g\<lparr>ir_by_uid := (ir_by_uid g)(ti_uid x \<mapsto> k), ir_by_ref := (ir_by_ref g)(k \<mapsto> Some x)\<rparr>))"
  using assms by (auto simp: allocate_def Let_def not_le split: option.splits if_splits)

lemma binding_uid_range:
  "ir_uid_span g \<noteq> 0 \<Longrightarrow> ir_uid_min g \<le> binding_uid B g k \<and> binding_uid B g k < ir_uid_min g + ir_uid_span g"
  by (simp add: binding_uid_def)

lemma identities_ok_upd:
  assumes "identities_ok h" and "allocate B (hd_identities h) k si = (r, g)"
  shows "identities_ok (h\<lparr>hd_identities := g\<rparr>)"
    "r = Ok identity \<Longrightarrow> ir_by_ref g k = Some identity"
    "ir_by_ref (hd_identities h) j = Some y \<Longrightarrow> ir_by_ref g j = Some y"
proof -
  have range: "ir_uid_min (hd_identities h) \<le> binding_uid B (hd_identities h) k
      \<and> binding_uid B (hd_identities h) k < ir_uid_min (hd_identities h) + ir_uid_span (hd_identities h)"
    if "ir_uid_span (hd_identities h) \<noteq> 0" using binding_uid_range [OF that] .
  have bounds: "ir_uid_min g = ir_uid_min (hd_identities h)" "ir_uid_span g = ir_uid_span (hd_identities h)"
      "ir_max_bindings g = ir_max_bindings (hd_identities h)"
    using allocate_cases [OF assms(2)] by auto
  have mono: "ir_by_ref (hd_identities h) j = Some y \<Longrightarrow> ir_by_ref g j = Some y" for j y
    using allocate_cases [OF assms(2)] by auto
  have assigned: "r = Ok identity \<Longrightarrow> ir_by_ref g k = Some identity" for identity
    using allocate_cases [OF assms(2)] by auto
  show "ir_by_ref (hd_identities h) j = Some y \<Longrightarrow> ir_by_ref g j = Some y"
    "r = Ok identity \<Longrightarrow> ir_by_ref g k = Some identity" using mono assigned by blast+
  have "finite (dom (ir_by_ref g)) \<and> card (dom (ir_by_ref g)) \<le> ir_max_bindings g"
    using allocate_cases [OF assms(2)] assms(1) by (auto simp: identities_ok_def Let_def card_insert_if)
  moreover have "ir_by_uid g (ti_uid x) = Some j \<and> ir_uid_min g \<le> ti_uid x \<and> ti_uid x < ir_uid_min g + ir_uid_span g"
    if "ir_by_ref g j = Some (Some x)" for j x
    using allocate_cases [OF assms(2)] assms(1) that range
    by (auto simp: identities_ok_def Let_def split: if_splits) (metis option.distinct(1))
  ultimately show "identities_ok (h\<lparr>hd_identities := g\<rparr>)"
    using assms(1) mono bounds by (simp add: identities_ok_def Let_def)
qed

lemma inv_binding:
  assumes "hand_inv B h" and "install_binding_locked B q path h = (r, h')"
  shows "hand_inv B h' \<and> hand_same B h h'"
proof (cases "hd_bindings h (iq_binding_ref q)")
  case (Some b)
  then show ?thesis using assms hand_same_refl by (auto simp: install_binding_locked_def)
next
  case None
  obtain a g where a: "allocate B (hd_identities h) (iq_binding_ref q) (hd_identity h) = (a, g)" by (rule prod.exhaust)
  note A = identities_ok_upd [OF hand_invD(5) [OF assms(1)] a]
  show ?thesis
  proof (cases a)
    case (Inl e)
    then have "h' = h\<lparr>hd_identities := g\<rparr>" using assms(2) None a by (auto simp: install_binding_locked_def)
    then show ?thesis
      using A(1) hand_invD(6) [OF assms(1)]
      by (intro hand_frame_ok [OF assms(1)]) (simp_all add: grown_def stdin_ok_def)
  next
    case (Inr identity)
    then have h': "h' = h\<lparr>hd_identities := g, hd_bindings := (hd_bindings h)(iq_binding_ref q \<mapsto>
        \<lparr>ib_seal = iq_binding q, ib_bundle_path = path, ib_identity = identity\<rparr>)\<rparr>"
      using assms(2) None a by (auto simp: install_binding_locked_def)
    have "identities_ok h'" using A(1) A(2) [OF Inr] by (auto simp: h' identities_ok_def Let_def)
    then show ?thesis
      using None hand_invD(6) [OF assms(1)]
      by (intro hand_frame_ok [OF assms(1)]) (auto simp: h' grown_def stdin_ok_def map_le_def)
  qed
qed

subsection \<open>The book of operations\<close>

text \<open>Registry calls keep every record they do not release, and every terminal result.\<close>

definition registry_later :: "operation_registry \<Rightarrow> operation_registry \<Rightarrow> bool" where
  "registry_later r r' \<longleftrightarrow>
     dom (records r) \<subseteq> dom (records r')
     \<and> (\<forall>oid x. terminal_at r oid = Some x \<longrightarrow> terminal_at r' oid = Some x)"

lemma registry_later_refl: "registry_later r r"
  by (simp add: registry_later_def)

lemma registry_later_trans: "registry_later r r' \<Longrightarrow> registry_later r' r'' \<Longrightarrow> registry_later r r''"
  unfolding registry_later_def by blast

lemma registry_later_upd:
  assumes "records r' = (records r)(oid \<mapsto> rec')"
    and "\<And>rec td p. records r oid = Some rec \<Longrightarrow> or_state rec = Terminal td p \<Longrightarrow> or_state rec' = Terminal td p"
  shows "registry_later r r'"
  unfolding registry_later_def terminal_at_def
  using assms by (auto split: option.splits operation_state.splits)

lemma complete_later:
  assumes "Operation_Registry.complete r oid td p = (res, r')"
  shows "registry_later r r'" "dom (records r') = dom (records r)"
proof -
  have "records r' = records r \<or> (\<exists>rec rec'. records r oid = Some rec \<and> \<not> is_terminal (or_state rec)
      \<and> records r' = (records r)(oid \<mapsto> rec'))"
    using assms by (auto simp: Operation_Registry.complete_def Let_def
        split: sum.splits option.splits operation_state.splits if_splits)
  then consider (same) "records r' = records r"
    | (upd) rec rec' where "records r oid = Some rec" "\<not> is_terminal (or_state rec)"
        "records r' = (records r)(oid \<mapsto> rec')" by blast
  then have "registry_later r r' \<and> dom (records r') = dom (records r)"
  proof cases
    case same
    then show ?thesis by (simp add: registry_later_def terminal_at_def)
  next
    case (upd rec rec')
    have "registry_later r r'" by (rule registry_later_upd [OF upd(3)]) (use upd in auto)
    then show ?thesis using upd by auto
  qed
  then show "registry_later r r'" "dom (records r') = dom (records r)" by blast+
qed

lemma pending_ok_upd:
  "pending_ok n r \<Longrightarrow> records r' = (records r)(oid \<mapsto> rec) \<Longrightarrow>
     (\<not> is_terminal (or_state rec) \<Longrightarrow> or_reservation_bytes rec = n) \<Longrightarrow> pending_ok n r'"
  by (auto simp: pending_ok_def)

lemma complete_pending:
  assumes "Operation_Registry.complete r oid td p = (res, r')" and "pending_ok n r"
  shows "pending_ok n r'"
  using assms by (auto simp: Operation_Registry.complete_def Let_def intro: pending_ok_upd
      split: sum.splits option.splits operation_state.splits if_splits)
    (simp_all add: pending_ok_def)

lemma complete_with_later:
  assumes "complete_with B oid meta t r = (b, r')"
  shows "registry_later r r'" "dom (records r') = dom (records r)" "op_inv r \<Longrightarrow> op_inv r'"
    "pending_ok n r \<Longrightarrow> pending_ok n r'"
  using assms complete_later complete_inv complete_pending
  by (auto simp: complete_with_def registry_later_refl split: option.splits prod.splits)

lemma request_cancel_later:
  assumes "request_cancel r oid = (res, r')"
  shows "registry_later r r'" "dom (records r') = dom (records r)" "pending_ok n r \<Longrightarrow> pending_ok n r'"
  using assms registry_later_refl
  by (auto simp: request_cancel_def pending_ok_def intro: registry_later_upd split: option.splits if_splits)

lemma reserve_later:
  assumes "reserve r oid rd n = (res, r')"
  shows "registry_later r r'" "pending_ok n r \<Longrightarrow> pending_ok n r'"
  using assms registry_later_refl
  by (auto simp: reserve_def pending_ok_def intro!: registry_later_upd split: sum.splits option.splits if_splits)

lemma mark_running_later:
  assumes "mark_running r oid = (res, r')"
  shows "registry_later r r'" "dom (records r') = dom (records r)" "pending_ok n r \<Longrightarrow> pending_ok n r'"
  using assms registry_later_refl
  by (auto simp: mark_running_def pending_ok_def intro: registry_later_upd split: option.splits operation_state.splits if_splits)

lemma inv_registry:
  assumes "hand_inv B h" and "registry_later (hd_registry h) r" and "op_inv r"
    and "pending_ok (TERMINAL_ENVELOPE_BYTES B) r" and "dom (records r) = dom (records (hd_registry h))"
  shows "hand_inv B (h\<lparr>hd_registry := r\<rparr>) \<and> hand_same B h (h\<lparr>hd_registry := r\<rparr>)"
  using assms hand_invD [OF assms(1)]
  by (intro hand_step_ok [OF assms(1)])
    (auto simp: grown_def acks_later_refl book_ok_def results_later_def registry_later_def
      identities_ok_def stdin_ok_def)

lemma inv_finish: assumes "hand_inv B h" shows "hand_inv B (finish B oid result h) \<and> hand_same B h (finish B oid result h)"
proof (cases "hd_metadata h oid")
  case None
  then show ?thesis using assms hand_same_refl by (simp add: finish_def)
next
  case (Some meta)
  obtain b r where r: "complete_with B oid meta (sealed_terminal B (bounded_result B result)) (hd_registry h) = (b, r)"
    by (rule prod.exhaust)
  obtain b' r' where r': "complete_with B oid meta (sealed_terminal B (fallback_result (bounded_result B result))) r = (b', r')"
    by (rule prod.exhaust)
  have "finish B oid result h = h\<lparr>hd_registry := if b then r else r'\<rparr>"
    using Some r r' by (simp add: finish_def)
  moreover have "op_inv (hd_registry h)" "pending_ok (TERMINAL_ENVELOPE_BYTES B) (hd_registry h)"
    using hand_invD(2) [OF assms] by (simp_all add: book_ok_def)
  ultimately show ?thesis
    using inv_registry [OF assms, of "if b then r else r'"] complete_with_later [OF r] complete_with_later [OF r']
      registry_later_trans by (auto split: if_splits)
qed

lemma inv_cancel:
  assumes "hand_inv B h" and "cancel_locked B op h = (res, h')"
  shows "hand_inv B h' \<and> hand_same B h h'"
proof (cases "validate_operation_ref B (hd_metadata h (of_operation_id op)) op")
  case (Inl e)
  then show ?thesis using assms hand_same_refl by (auto simp: cancel_locked_def)
next
  case (Inr u)
  obtain x r where r: "request_cancel (hd_registry h) (of_operation_id op) = (x, r)" by (rule prod.exhaust)
  have "h' = h\<lparr>hd_registry := r\<rparr>" using assms(2) Inr r by (auto simp: cancel_locked_def split: sum.splits)
  then show ?thesis
    using inv_registry [OF assms(1)] request_cancel_later [OF r] request_cancel_inv [OF _ r] hand_invD(2) [OF assms(1)]
    by (simp add: book_ok_def)
qed

text \<open>Admission: a new operation has no record, so if it ran before, it is acknowledged.\<close>

lemma admit_operation_cases:
  assumes "admit_operation B oid rd op tr interactive h = (res, h')" and "op_inv (hd_registry h)"
    and "pending_ok (TERMINAL_ENVELOPE_BYTES B) (hd_registry h)"
  shows "res \<noteq> Ok reservation.New \<and> h' = h
    \<or> res = Ok reservation.New \<and> oid \<notin> dom (records (hd_registry h))
      \<and> (\<exists>r m ts cs. h' = h\<lparr>hd_metadata := (hd_metadata h)(oid \<mapsto> m), hd_tokens := ts, hd_controls := cs, hd_registry := r\<rparr>
           \<and> om_operation m = op \<and> registry_later (hd_registry h) r \<and> op_inv r
           \<and> pending_ok (TERMINAL_ENVELOPE_BYTES B) r \<and> dom (records r) = insert oid (dom (records (hd_registry h))))"
proof -
  obtain x r where x: "reserve (hd_registry h) oid rd (TERMINAL_ENVELOPE_BYTES B) = (x, r)" by (rule prod.exhaust)
  show ?thesis
  proof (cases "x = Ok reservation.New")
    case False
    then have "r = hd_registry h" using reserve_not_New [of "hd_registry h" oid rd "TERMINAL_ENVELOPE_BYTES B"] x by simp
    then show ?thesis
      using assms(1) x False
      by (cases x) (auto simp: admit_operation_def and_then_Ok_iff split: reservation.splits)
  next
    case True
    then have new: "records (hd_registry h) oid = None"
        "\<exists>rec. records r oid = Some rec \<and> or_state rec = Accepted"
        "dom (records r) = insert oid (dom (records (hd_registry h)))"
      using x by (auto simp: reserve_New_iff)
    obtain y r' where y: "mark_running r oid = (y, r')" by (rule prod.exhaust)
    have "y = Ok ()" using y new(2) by (auto simp: mark_running_def)
    moreover define m where "m = \<lparr>om_operation = op, om_target = tr, om_cancellation = length (hd_tokens h),
        om_stdin = if interactive then Some (length (hd_controls h)) else None\<rparr>"
    ultimately have "res = Ok reservation.New" and h': "h' = h\<lparr>hd_metadata := (hd_metadata h)(oid \<mapsto> m),
        hd_tokens := hd_tokens h @ [False],
        hd_controls := (if interactive then hd_controls h @ [[]] else hd_controls h), hd_registry := r'\<rparr>"
      using assms(1) x True y by (simp_all add: admit_operation_def admit_new_def Let_def)
    moreover have "registry_later (hd_registry h) r'" "op_inv r'" "pending_ok (TERMINAL_ENVELOPE_BYTES B) r'"
        "dom (records r') = insert oid (dom (records (hd_registry h)))"
      using new(3) mark_running_later [OF y] mark_running_inv [OF reserve_inv [OF assms(2) x] y]
        registry_later_trans [OF reserve_later(1) [OF x]]
        mark_running_later(3) [OF y reserve_later(2) [OF x assms(3)]] by auto
    moreover have "om_operation m = op" by (simp add: m_def)
    ultimately show ?thesis using new(1) by (intro disjI2) blast
  qed
qed

lemma spawns_ok_new:
  assumes "spawns_ok h" and "oid \<notin> dom (records (hd_registry h))"
    and "hd_spawned h' = hd_spawned h @ [(oid, e)]" and "hd_acks h' = hd_acks h"
    and "dom (records (hd_registry h')) = insert oid (dom (records (hd_registry h)))"
  shows "spawns_ok h'"
proof -
  have "count_list (spawned_ids h) oid = 0" if "as_records (hd_acks h) oid = None"
    using assms(1,2) that by (auto simp: spawns_ok_def count_list_0_iff)
  then show ?thesis
    using assms by (auto simp: spawns_ok_def spawned_ids_def count_list_append)
qed

lemma inv_admit:
  assumes "hand_inv B h" and "\<And>t c. exec_ok B h oid (ex t c)"
    and "admit_and_spawn B oid rd op tr interactive ex h = (res, h')"
  shows "hand_inv B h' \<and> hand_later B h h' \<and> (hd_spawned h' = hd_spawned h \<or> (\<exists>e. hd_spawned h' = hd_spawned h @ [(oid, e)]))"
proof -
  obtain x h1 where x: "admit_operation B oid rd op tr interactive h = (x, h1)" by (rule prod.exhaust)
  note D = hand_invD [OF assms(1)]
  have inv: "op_inv (hd_registry h)" "pending_ok (TERMINAL_ENVELOPE_BYTES B) (hd_registry h)"
    using D(2) by (simp_all add: book_ok_def)
  from admit_operation_cases [OF x inv] show ?thesis
  proof (elim disjE conjE exE, goal_cases)
    case 1
    then have "h' = h"
      using assms(3) x by (auto simp: admit_and_spawn_def split: sum.splits reservation.splits)
    then show ?thesis using assms(1) hand_later_refl by simp
  next
    case (2 r m ts cs)
    define e where "e = ex (length (hd_tokens h)) (if interactive then Some (length (hd_controls h)) else None)"
    have h': "h' = h1\<lparr>hd_spawned := hd_spawned h1 @ [(oid, e)]\<rparr>"
      using assms(3) x 2(1) by (simp add: admit_and_spawn_def spawn_execution_def e_def)
    have g: "grown h h'" by (simp add: h' 2(3) grown_def)
    have "spawns_ok h'" by (rule spawns_ok_new [OF D(3) 2(2)]) (simp_all add: h' 2(3,8))
    moreover have "execs_ok B h'"
      using D(4) exec_ok_grown [OF _ g] assms(2) by (auto simp: execs_ok_def h' 2(3) e_def)
    moreover have "book_ok B h'" using D(2) 2 by (auto simp: book_ok_def h')
    ultimately show ?thesis
      using D g 2 by (auto simp: hand_inv_def hand_later_def h' identities_ok_def stdin_ok_def
          acks_later_refl results_later_def registry_later_def)
  qed
qed

subsection \<open>Acknowledgements\<close>

lemma exists_records:
  assumes "acknowledgement_exists k io st op td = (res, st')"
  shows "as_records st' = as_records st"
  using assms by (auto simp: acknowledgement_exists_def split: sum.splits prod.splits bool.splits)

lemma ack_append_records:
  assumes "ack_append k io st c = (res, st')" and "as_records st (ak_operation_id c) = None"
  shows "as_records st \<subseteq>\<^sub>m as_records st'"
  using assms by (auto simp: ack_append_def map_le_def split: option.splits if_splits prod.splits bool.splits)

lemma retain_records:
  assumes "retain k io st op td = (res, st')"
  shows "as_records st \<subseteq>\<^sub>m as_records st'"
proof -
  obtain b w where w: "sync_if_dirty io (as_writer st) = (b, w)" by (rule prod.exhaust)
  show ?thesis
    using assms ack_append_records [of k io "st\<lparr>as_writer := w\<rparr>" _ res st']
    by (auto simp: retain_def w split: sum.splits bool.splits option.splits)
qed

lemma inv_acks:
  assumes "hand_inv B h" and "ack_ok (ack_codec_of B) st" and "acks_later B (hd_acks h) st"
  shows "hand_inv B (h\<lparr>hd_acks := st\<rparr>) \<and> hand_same B h (h\<lparr>hd_acks := st\<rparr>)"
  using assms hand_invD [OF assms(1)]
  by (intro hand_step_ok [OF assms(1)])
    (auto simp: grown_def book_ok_def results_later_def identities_ok_def stdin_ok_def)

lemma inv_exists:
  assumes "hand_inv B h" and "acknowledgement_exists (ack_codec_of B) io (hd_acks h) op td = (res, st)"
  shows "hand_inv B (h\<lparr>hd_acks := st\<rparr>) \<and> hand_same B h (h\<lparr>hd_acks := st\<rparr>)
    \<and> (res = Ok True \<longrightarrow> acked B op td (h\<lparr>hd_acks := st\<rparr>))"
  using inv_acks [OF assms(1)] exists_ok [OF assms(2) hand_invD(1) [OF assms(1)]] exists_records [OF assms(2)]
  by (auto simp: acks_later_def acked_def)

lemma inv_retain:
  assumes "hand_inv B h" and "retain (ack_codec_of B) io (hd_acks h) op td = (res, st)"
  shows "hand_inv B (h\<lparr>hd_acks := st\<rparr>) \<and> hand_same B h (h\<lparr>hd_acks := st\<rparr>)
    \<and> (is_ok res \<longrightarrow> acked B op td (h\<lparr>hd_acks := st\<rparr>))"
  using inv_acks [OF assms(1)] retain_ok [OF assms(2) hand_invD(1) [OF assms(1)]] retain_records [OF assms(2)]
  by (auto simp: acks_later_def acked_def)

lemma acked_facts:
  assumes "acked B op td h"
  shows "durable_ack B (of_operation_id op) td h"
    "ack_ok (ack_codec_of B) (hd_acks h) \<Longrightarrow> as_records (hd_acks h) (of_operation_id op) \<noteq> None"
proof -
  obtain c where c: "ack_new (ack_codec_of B) op td = Ok c" "ack_durable (ack_codec_of B) c (hd_acks h)"
    using assms by (auto simp: acked_def)
  have oid: "ak_operation_id c = of_operation_id op" "ak_terminal_digest c = td"
    using ack_new_identity [OF c(1)] by (simp_all add: ack_codec_of_def)
  show "durable_ack B (of_operation_id op) td h" using oid c(2) by (auto simp: durable_ack_def)
  show "as_records (hd_acks h) (of_operation_id op) \<noteq> None" if "ack_ok (ack_codec_of B) (hd_acks h)"
    using ack_durable_indexed [OF that c(2)] oid(1) by simp
qed

lemma inv_release:
  assumes "hand_inv B h" and "acked B op td h" and "release_book B op td h = (res, h')"
  shows "hand_inv B h' \<and> hand_same B h h'"
proof -
  let ?oid = "of_operation_id op"
  obtain x r where x: "acknowledge_terminal (hd_registry h) ?oid td = (x, r)" by (rule prod.exhaust)
  note D = hand_invD [OF assms(1)] and A = acked_facts [OF assms(2)]
  show ?thesis
  proof (cases x)
    case (Inl e)
    then have "r = hd_registry h" using acknowledge_Err x by blast
    then show ?thesis using assms(1,3) x Inl hand_same_refl by (auto simp: release_book_def split: if_splits)
  next
    case (Inr u)
    then have h': "h' = h\<lparr>hd_registry := r, hd_metadata := (hd_metadata h)(?oid := None)\<rparr>"
      using assms(3) x by (auto simp: release_book_def)
    have "acknowledge_terminal (hd_registry h) ?oid td = (Ok (), r)" using x Inr by simp
    then obtain rec p where rec: "records (hd_registry h) ?oid = Some rec" "or_state rec = Terminal td p"
      and r: "records r = (records (hd_registry h))(?oid := None)"
      unfolding acknowledge_Ok_iff by auto
    have "op_inv r" using acknowledge_inv [OF _ x] D(2) by (simp add: book_ok_def)
    then have "book_ok B h'" using D(2) by (auto simp: book_ok_def h' r pending_ok_def)
    moreover have "results_later B h h'"
      using A(1) rec by (auto simp: results_later_def terminal_at_def r h' durable_ack_def split: if_splits)
    ultimately show ?thesis
      using D A(2) by (intro hand_step_ok [OF assms(1)])
        (auto simp: h' r grown_def acks_later_refl identities_ok_def stdin_ok_def)
  qed
qed

subsection \<open>Interactive writes\<close>

lemma inv_stdin:
  assumes "hand_inv B h" and "finite (dom m)" and "card (dom m) \<le> MAX_RETAINED_STDIN_WRITES"
  shows "hand_inv B (h\<lparr>hd_stdin := m\<rparr>) \<and> hand_same B h (h\<lparr>hd_stdin := m\<rparr>)"
  using assms hand_invD(5) [OF assms(1)]
  by (intro hand_frame_ok [OF assms(1)]) (auto simp: grown_def identities_ok_def stdin_ok_def)

lemma inv_forget:
  assumes "hand_inv B h"
  shows "hand_inv B (forget_writes oid h) \<and> hand_same B h (forget_writes oid h)"
  unfolding forget_writes_def
proof (rule inv_stdin [OF assms])
  let ?m = "\<lambda>k. case hd_stdin h k of
      Some (CompleteWrite receipt) \<Rightarrow> if of_operation_id (ob_operation (wr_observation receipt)) = oid then None
                                      else Some (CompleteWrite receipt)
    | x \<Rightarrow> x"
  have sub: "dom ?m \<subseteq> dom (hd_stdin h)"
    by (auto split: option.splits stdin_record.splits if_splits)
  have D: "finite (dom (hd_stdin h))" "card (dom (hd_stdin h)) \<le> MAX_RETAINED_STDIN_WRITES"
    using hand_invD(6) [OF assms] by (simp_all add: stdin_ok_def)
  show "finite (dom ?m)" using finite_subset [OF sub D(1)] .
  show "card (dom ?m) \<le> MAX_RETAINED_STDIN_WRITES" using card_mono [OF D(1) sub] D(2) by simp
qed

lemma inv_lookup:
  assumes "hand_inv B h" and "stdin_lookup B q h = (r, h')"
  shows "hand_inv B h' \<and> hand_same B h h'"
proof (cases "h' = h")
  case True
  then show ?thesis using assms(1) hand_same_refl by simp
next
  case False
  then have "hd_stdin h (ws_operation_id q) = None" "card (dom (hd_stdin h)) < MAX_RETAINED_STDIN_WRITES"
      "h' = h\<lparr>hd_stdin := (hd_stdin h)(ws_operation_id q \<mapsto> InFlight (ws_request_digest q))\<rparr>"
    using assms(2) by (auto simp: stdin_lookup_def not_le split: option.splits stdin_record.splits if_splits)
  then show ?thesis
    using inv_stdin [OF assms(1)] hand_invD(6) [OF assms(1)] by (simp add: stdin_ok_def card_insert_if)
qed

lemma inv_settle:
  assumes "hand_inv B h" and "stdin_settle B q receipt h = (r, h')"
  shows "hand_inv B h' \<and> hand_same B h h'"
proof (cases "hd_stdin h (ws_operation_id q) = Some (InFlight (ws_request_digest q))")
  case True
  then have "h' = h\<lparr>hd_stdin := (hd_stdin h)(ws_operation_id q \<mapsto> CompleteWrite receipt)\<rparr>"
    using assms(2) by (simp add: stdin_settle_def)
  then show ?thesis
    using inv_stdin [OF assms(1), of "(hd_stdin h)(ws_operation_id q \<mapsto> CompleteWrite receipt)"]
      hand_invD(6) [OF assms(1)] card_dom_upd [of "hd_stdin h", OF True] by (simp add: stdin_ok_def)
next
  case False
  then show ?thesis using assms hand_same_refl by (auto simp: stdin_settle_def)
qed

lemma inv_send:
  assumes "hand_inv B h" and "send_atomic B i n q h = (r, h')"
  shows "hand_inv B h' \<and> hand_same B h h'"
  by (rule unrelated_ok [OF assms(1)]) (use assms(2) in \<open>auto simp: send_atomic_def split: if_splits\<close>)

subsection \<open>All handlers, in any interleaving\<close>

lemma acked_later: "hand_later B h h' \<Longrightarrow> acked B op td h \<Longrightarrow> acked B op td h'"
  unfolding hand_later_def acks_later_def acked_def by blast

lemma inv_unrelated:
  assumes "hand_inv B h"
  shows "hand_inv B (h\<lparr>hd_permits := n\<rparr>) \<and> hand_same B h (h\<lparr>hd_permits := n\<rparr>)"
    "hand_inv B (h\<lparr>hd_slots_closed := b\<rparr>) \<and> hand_same B h (h\<lparr>hd_slots_closed := b\<rparr>)"
    "hand_inv B (h\<lparr>hd_tokens := ts\<rparr>) \<and> hand_same B h (h\<lparr>hd_tokens := ts\<rparr>)"
    "hand_inv B (cancel_token t h) \<and> hand_same B h (cancel_token t h)"
  by (rule unrelated_ok [OF assms]; simp add: cancel_token_def)+

text \<open>Steps that start no execution for the ids \<open>S\<close>.\<close>

definition within :: "brain \<Rightarrow> (string \<Rightarrow> bool) \<Rightarrow> hand \<Rightarrow> hand \<Rightarrow> bool" where
  "within B S h h' \<longleftrightarrow>
     hand_later B h h' \<and> (\<forall>oid. S oid \<longrightarrow> count_list (spawned_ids h') oid = count_list (spawned_ids h) oid)"

lemma same_within: "hand_same B h h' \<Longrightarrow> within B S h h'"
  by (simp add: hand_same_def within_def spawned_ids_def)

lemma within_later: "within B S h h' \<Longrightarrow> hand_later B h h'"
  by (simp add: within_def)

lemma inv_within:
  "hand_inv B h' \<and> hand_same B h h' \<Longrightarrow> hand_inv B h' \<and> within B S h h'"
  "hand_inv B h' \<and> hand_same B h h' \<and> P \<Longrightarrow> hand_inv B h' \<and> within B S h h' \<and> P"
  by (simp_all add: same_within)

lemma admit_within:
  assumes "hand_inv B h" and "\<not> S oid" and "\<And>t c. exec_ok B h oid (ex t c)"
    and "admit_and_spawn B oid rd op tr interactive ex h = (res, h')"
  shows "hand_inv B h' \<and> within B S h h'"
proof -
  have "count_list (spawned_ids h') o' = count_list (spawned_ids h) o'" if "S o'" for o'
    using inv_admit [OF assms(1,3,4)] assms(2) that by (auto simp: spawned_ids_def)
  then show ?thesis using inv_admit [OF assms(1,3,4)] by (simp add: within_def)
qed

interpretation guest: guest_regions "hand_later B" "hand_inv B" "within B S" B "\<lambda>oid. \<not> S oid" "\<lambda>oid _. \<not> S oid" "acked B"
  for B S
proof (unfold_locales, goal_cases)
  case (13 h oid op ex rd tr interactive r5 h')
  then show ?case using admit_within [of B h S oid ex rd op tr interactive r5 h'] by blast
qed (rule hand_later_refl same_within hand_same_refl
    | assumption
    | erule (1) hand_later_trans acked_later inv_arm [THEN inv_within(1)] inv_bundle [THEN inv_within(1)]
        inv_binding [THEN inv_within(1)] inv_secrets [THEN inv_within(1)] inv_cancel [THEN inv_within(1)]
        inv_lookup [THEN inv_within(1)] inv_send [THEN inv_within(1)] inv_settle [THEN inv_within(1)]
        inv_exists [THEN inv_within(2)] inv_retain [THEN inv_within(2)]
    | erule (2) inv_release [THEN inv_within(1)]
    | erule within_later hand_laterD(1) inv_finish [THEN inv_within(1)] inv_unrelated [THEN inv_within(1)] inv_forget [THEN inv_within(1)])+

text \<open>A request other than a submission of \<open>oid\<close> starts no execution for \<open>oid\<close>.\<close>

definition guarantee_of :: "brain \<Rightarrow> string \<Rightarrow> hand_request \<Rightarrow> hand \<Rightarrow> hand \<Rightarrow> bool" where
  "guarantee_of B oid q = within B (\<lambda>o'. o' = oid \<and> submits q \<noteq> Some oid)"

abbreviation reply_kept :: "brain \<Rightarrow> hand_request \<Rightarrow> hand_reply \<Rightarrow> hand \<Rightarrow> bool" where
  "reply_kept B \<equiv> guest_regions.reply_ok (acked B)"

interpretation guest_world: sound_handlers "hand_later B" "hand_inv B" "guarantee_of B oid" "serve B" "reply_kept B" spawned external_request
  for B oid
proof (unfold_locales, goal_cases)
  case (1 q s s')
  then show ?case by (simp add: guarantee_of_def within_def)
next
  case (2 s q)
  show ?case unfolding guarantee_of_def by (rule guest.serve_all_sound) simp
qed

lemma fresh_inv:
  assumes "fresh_guest B w" and "ack_codec_ok (ack_codec_of B)"
  shows "hand_inv B (w_state w)" "w_tasks w = []"
proof -
  obtain identity files limit cut_ok content acks
    where acks: "ack_open (ack_codec_of B) limit cut_ok (length content) content = Ok acks"
      and w: "w_state w = hand_new identity files acks"
    using assms(1) by (auto simp: fresh_guest_def)
  have "op_inv (registry_new MAX_RETAINED_OPERATIONS MAX_RETAINED_TERMINAL_BYTES)"
    by (rule op_inv_new) (simp add: MAX_RETAINED_TERMINAL_BYTES_def U64_MAX_def)
  then show "hand_inv B (w_state w)"
    using open_ok(1) [OF acks assms(2)]
    by (simp add: w hand_new_def hand_inv_def book_ok_def spawns_ok_def spawned_ids_def execs_ok_def identities_ok_def
        identities_production_def identities_with_bounds_def stdin_ok_def registry_new_def pending_ok_def)
  show "w_tasks w = []" using assms(1) by (simp add: fresh_guest_def)
qed

text \<open>The two facts every property starts from.\<close>

lemma guest_runs:
  assumes "fresh_guest B w0" and "ack_codec_ok (ack_codec_of B)" and "(hand_step B)\<^sup>*\<^sup>* w0 w" and "(hand_step B)\<^sup>*\<^sup>* w w'"
  shows "hand_inv B (w_state w)" "hand_inv B (w_state w')" "hand_later B (w_state w) (w_state w')"
proof -
  have "tasks_ok (hand_inv B) (hand_later B) (guarantee_of B []) (reply_kept B) w0"
    using fresh_inv [OF assms(1,2)] by (simp add: tasks_ok_def)
  then have "tasks_ok (hand_inv B) (hand_later B) (guarantee_of B []) (reply_kept B) w"
    using guest_world.tasks_run_sound [OF assms(3)] by blast
  then show "hand_inv B (w_state w)" "hand_inv B (w_state w')" "hand_later B (w_state w) (w_state w')"
    using guest_world.tasks_run_sound [OF assms(4)] by (auto simp: tasks_ok_def)
qed

lemma acknowledgement_answered:
  assumes "fresh_guest B w0" and "ack_codec_ok (ack_codec_of B)" and "(hand_step B)\<^sup>*\<^sup>* w0 w"
    and "(QAcknowledge op td, Return (RAcknowledge (Ok ()))) \<in> set (w_tasks w)"
  shows "acked B op td (w_state w)"
  using guest_world.run_returns [OF assms(3) fresh_inv [OF assms(1,2)] assms(4)]
  by (simp add: guest.reply_ok_def)

end
