(* ===== verification/Guest_Safety.thy ===== *)
theory Guest_Safety
  imports Guest_Invariant
begin

section \<open>The guest after an acknowledgement\<close>

text \<open>
  What holds over every interleaving of the guest's handlers once an operation is acknowledged: the
  handlers keep a stronger invariant, in which nothing starts an execution of it again. And what a
  completed execution leaves in the registry.
\<close>

subsection \<open>Acknowledged operations\<close>

definition quiet :: "brain \<Rightarrow> string \<Rightarrow> nat \<Rightarrow> hand \<Rightarrow> bool" where
  "quiet B oid n h \<longleftrightarrow>
     hand_inv B h \<and> as_records (hd_acks h) oid \<noteq> None \<and> count_list (spawned_ids h) oid = n"

abbreviation settled :: "brain \<Rightarrow> string \<Rightarrow> hand \<Rightarrow> hand \<Rightarrow> bool" where
  "settled B oid \<equiv> within B (\<lambda>o'. o' = oid)"

lemma quiet_inv: "quiet B oid n h \<Longrightarrow> hand_inv B h"
  by (simp add: quiet_def)

lemma quiet_step:
  assumes "quiet B oid n h" and "hand_inv B h'" and "settled B oid h h'"
  shows "quiet B oid n h'"
proof -
  have "acks_later B (hd_acks h) (hd_acks h')" using assms(3) by (simp add: within_def hand_later_def)
  then have "as_records (hd_acks h') oid \<noteq> None"
    using assms(1) map_le_Some by (fastforce simp: quiet_def acks_later_def)
  then show ?thesis using assms by (simp add: quiet_def within_def)
qed

lemma quiet_keeps:
  "quiet B oid n h \<Longrightarrow> hand_inv B h' \<and> settled B oid h h' \<Longrightarrow> quiet B oid n h' \<and> settled B oid h h'"
  "quiet B oid n h \<Longrightarrow> hand_inv B h' \<and> settled B oid h h' \<and> P \<Longrightarrow> quiet B oid n h' \<and> settled B oid h h' \<and> P"
  using quiet_step by blast+

lemma quiet_fence:
  "quiet B oid n h \<Longrightarrow> fence_acknowledged_submission B o' rd h = Ok u \<Longrightarrow> o' \<noteq> oid"
  by (auto simp: quiet_def fence_acknowledged_submission_def fence_submission_def split: if_splits)

interpretation quiet: guest_regions "hand_later B" "quiet B oid n" "settled B oid" B "\<lambda>_. True" "\<lambda>o' _. o' \<noteq> oid" "acked B"
  for B oid n
proof (unfold_locales, goal_cases)
  case (4 h o' rd)
  then show ?case using quiet_fence by blast
next
  case (9 h o' op ex rd tr interactive r5 h')
  then show ?case
    using quiet_keeps(1) [OF 9(1)] guest.admit_keeps [OF quiet_inv [OF 9(1)], of "\<lambda>x. x = oid" o' op ex rd tr interactive r5 h']
    by blast
qed (rule guest.idle guest.grows
    | assumption
    | erule guest.grows within_later
    | erule (1) acked_later
    | (frule quiet_inv, erule quiet_keeps, erule (1) guest.arm_keeps guest.binding_keeps guest.secrets_keeps
        guest.cancel_keeps guest.lookup_keeps guest.send_keeps guest.settle_keeps guest.exists_keeps guest.retain_keeps)
    | (frule quiet_inv, erule quiet_keeps, erule (2) guest.bundle_keeps guest.release_keeps)
    | (frule quiet_inv, erule quiet_keeps, erule guest.finish_keeps guest.permits_keeps guest.close_keeps
        guest.token_keeps guest.tokens_keep guest.forget_keeps))+

interpretation quiet_world: sound_handlers "hand_later B" "quiet B oid n" "\<lambda>_. settled B oid" "serve B" "reply_kept B" spawned external_request
  for B oid n
proof (unfold_locales, goal_cases)
  case (2 s q)
  show ?case by (rule quiet.serve_all_sound) simp
qed (erule within_later)

text \<open>
  A world in which no submission of \<open>oid\<close> is in progress: whatever is running starts no execution
  for it.
\<close>

definition no_submission :: "string \<Rightarrow> (hand_request, input, hand, hand_reply) task_world \<Rightarrow> bool" where
  "no_submission oid w \<longleftrightarrow> (\<forall>(q, t) \<in> set (w_tasks w). submits q = Some oid \<longrightarrow> (\<exists>r. t = Return r))"

lemma quiet_tasks:
  assumes "tasks_ok (hand_inv B) (hand_later B) (guarantee_of B oid) (reply_kept B) w" and "no_submission oid w"
    and "quiet B oid n (w_state w)"
  shows "tasks_ok (quiet B oid n) (hand_later B) (\<lambda>_. settled B oid) (reply_kept B) w"
proof -
  have "sound (quiet B oid n) (hand_later B) (settled B oid) (reply_kept B q) t (w_state w)"
    if mem: "(q, t) \<in> set (w_tasks w)" for q t
  proof (cases "submits q = Some oid")
    case True
    then obtain r where "t = Return r" using assms(2) mem by (fastforce simp: no_submission_def)
    then show ?thesis using assms(1) mem quiet_inv by (fastforce simp: tasks_ok_def)
  next
    case False
    then have "sound (hand_inv B) (hand_later B) (settled B oid) (reply_kept B q) t (w_state w)"
      using assms(1) mem by (fastforce simp: tasks_ok_def guarantee_of_def)
    then show ?thesis by (rule guest.sound_stronger) (use quiet_inv quiet_step in blast)+
  qed
  then show ?thesis using assms(3) by (auto simp: tasks_ok_def)
qed

lemma guest_tasks_ok:
  assumes "fresh_guest B w0" and "ack_codec_ok (ack_codec_of B)" and "(hand_step B)\<^sup>*\<^sup>* w0 w"
  shows "tasks_ok (hand_inv B) (hand_later B) (guarantee_of B oid) (reply_kept B) w"
  using guest_world.tasks_run_sound [OF assms(3)] fresh_inv [OF assms(1,2)] by (simp add: tasks_ok_def)

lemma acknowledged_quiet:
  assumes "fresh_guest B w0" and "ack_codec_ok (ack_codec_of B)" and "(hand_step B)\<^sup>*\<^sup>* w0 w"
    and "as_records (hd_acks (w_state w)) oid \<noteq> None" and "no_submission oid w" and "(hand_step B)\<^sup>*\<^sup>* w w'"
  shows "count_list (spawned_ids (w_state w')) oid = count_list (spawned_ids (w_state w)) oid"
proof -
  define n where "n = count_list (spawned_ids (w_state w)) oid"
  note ok = guest_tasks_ok [OF assms(1-3), of oid]
  then have "quiet B oid n (w_state w)" using assms(4) by (simp add: quiet_def tasks_ok_def n_def)
  from quiet_world.tasks_run_sound [OF assms(6) quiet_tasks [OF ok assms(5) this]]
  show ?thesis by (simp add: tasks_ok_def quiet_def n_def)
qed

subsection \<open>Completion\<close>

lemma complete_with_terminal:
  assumes "complete_with B oid meta t r = (True, r')"
  shows "terminal_at r' oid \<noteq> None"
  using assms
  by (auto simp: complete_with_def Operation_Registry.complete_def terminal_at_def Let_def
      split: option.splits sum.splits prod.splits operation_state.splits if_splits)

lemma complete_with_succeeds:
  assumes "complete_with B oid meta t r = (b, r')" and "op_inv r" and "pending_ok (TERMINAL_ENVELOPE_BYTES B) r"
    and "records r oid = Some rec" and "observation_to_json B (terminal_observation meta t) = Some p"
    and "length p \<le> TERMINAL_ENVELOPE_BYTES B" and "valid_digest (te_terminal_digest t)"
  shows "terminal_at r' oid \<noteq> None"
proof (cases "is_terminal (or_state rec)")
  case True
  then have "terminal_at r oid \<noteq> None" using assms(4) by (cases "or_state rec") (auto simp: terminal_at_def)
  then show ?thesis using complete_with_later(1) [OF assms(1)] by (auto simp: registry_later_def)
next
  case False
  then have fits: "length p \<le> or_reservation_bytes rec" using assms(3,4,6) by (simp add: pending_ok_def)
  have "b"
    using assms(1,5) complete_changes [OF assms(4) False assms(7) fits op_inv_terminal_room(3) [OF assms(2,4) False fits]]
    by (simp add: complete_with_def)
  then show ?thesis using complete_with_terminal assms(1) by simp
qed

end
