(* ===== verification/Guest_Runs.thy ===== *)
theory Guest_Runs
  imports Guest_Safety
begin

section \<open>Runs of a sample guest\<close>

text \<open>
  A small instance of the protocol crate and a guest that arms, executes one shell, and has its
  result acknowledged while a retry of the same execution is under way. The run evaluates the
  handlers region by region; it serves the witnesses and shows what the race leads to.
\<close>

subsection \<open>The instance\<close>

definition tombstone :: acknowledged_operation where
  "tombstone = \<lparr>ak_operation_id = ''x'', ak_request_digest = digest_a, ak_operation_ref_digest = digest_b,
     ak_terminal_digest = digest_c\<rparr>"

definition small_brain :: brain where
  "small_brain =
     \<lparr>HAND_CONTRACT_DIGEST = [], MAX_TOOL_TERMINAL_INLINE_BYTES = 10, MAX_WRITE_STDIN_BYTES = 4096,
      MAX_TOOL_BUNDLE_BYTES = 10,
      secret_limits = \<lparr>MAX_SESSION_SECRET_NAME_BYTES = 8, MAX_SESSION_SECRET_NAMES = 8,
        MAX_SESSION_SECRET_VALUE_UTF8_BYTES = 8, MAX_SESSION_SECRET_DOCUMENT_BYTES = 64\<rparr>,
      parses_message = (\<lambda>_. True), parses_locator = (\<lambda>_. True), operation_request_digest = (\<lambda>_. digest_a),
      sandbox_execution_request_digest = (\<lambda>_. digest_a), write_stdin_request_digest = (\<lambda>_. digest_b),
      terminal_result_digest = (\<lambda>_. digest_c), terminal_inline_fits = (\<lambda>_. True),
      network_ceiling_is_subset = (\<lambda>_ _. True), sha256_hex = (\<lambda>_. digest_b), sha256_prefix = (\<lambda>_. 7),
      jcs_ref = (\<lambda>_. Some []), jcs_target = (\<lambda>_. Some []), jcs_resources = (\<lambda>_. Some []),
      jcs_network = (\<lambda>_. Some []), jcs_descriptor = (\<lambda>_. Some []), jcs_binding = (\<lambda>_. Some []),
      jcs_values = (\<lambda>_. Some []), observation_to_json = (\<lambda>_. Some ''done''), observation_from_json = (\<lambda>_. None),
      ref_canonical_digest = (\<lambda>_. Some digest_b),
      tombstone_to_json = (\<lambda>r. if r = tombstone then Some ''ack'' else None),
      tombstone_from_json = (\<lambda>b. if b = ''ack'' then Some tombstone else None)\<rparr>"

lemma small_brain_simps [simp]:
  "HAND_CONTRACT_DIGEST small_brain = []" "MAX_TOOL_TERMINAL_INLINE_BYTES small_brain = 10"
  "MAX_WRITE_STDIN_BYTES small_brain = 4096" "parses_message small_brain m" "parses_locator small_brain m"
  "sandbox_execution_request_digest small_brain q = digest_a" "write_stdin_request_digest small_brain wq = digest_b"
  "terminal_result_digest small_brain t = digest_c" "terminal_inline_fits small_brain m"
  "network_ceiling_is_subset small_brain n n'" "sha256_hex small_brain m = digest_b" "sha256_prefix small_brain m = 7"
  "jcs_ref small_brain r = Some []" "jcs_target small_brain st = Some []" "jcs_descriptor small_brain d = Some []"
  "observation_to_json small_brain ob = Some ''done''" "observation_from_json small_brain m = None"
  by (simp_all add: small_brain_def)

lemma small_brain_codec: "ack_codec_ok (ack_codec_of small_brain)"
  by (simp add: ack_codec_ok_def ack_codec_of_def small_brain_def line_ok_def)

definition ceiling :: resource_ceiling where
  "ceiling = \<lparr>rc_timeout_ms = 5, rc_max_output_bytes = 5, rc_rest = []\<rparr>"

definition small_payload :: run_payload where
  "small_payload =
     \<lparr>rp_contract_digest = [], rp_generation = ''g'', rp_expires_at_ms = 100, rp_root_id = ''r'',
      rp_owner_session_id = ''s'', rp_connector = ConnNone, rp_resource_class = ''c'', rp_resources = ceiling,
      rp_network = NetNone, rp_control_token = ControlToken [], rp_allowlist_proxy = None, rp_canary_exit = None\<rparr>"

definition shell_target :: sandbox_target where
  "shell_target = \<lparr>st_binding_ref = ''b'', st_kind = DefaultKind, st_root_id = ''r'', st_sandbox_id = None, st_session_id = ''s''\<rparr>"

definition shell_request :: sandbox_execution_request where
  "shell_request =
     \<lparr>sx_execution_id = ''x'', sx_request_digest = digest_a, sx_target = shell_target, sx_expected_generation = ''g'',
      sx_resources = ceiling, sx_network = NetNone, sx_command = ''ls'', sx_cwd = None, sx_interactive = False\<rparr>"

definition small_input :: input where
  "small_input =
     \<lparr>in_now = 1, in_io = good_io, in_joined = True, in_cwd = Ok ''/workspace'',
      in_result = Some \<lparr>ex_outcome = Completed, ex_inline = ''1'', ex_is_error = False, ex_exit_code = None, ex_duration_ms = 1\<rparr>,
      in_sent = True, in_woken = False, in_created = True, in_written = True, in_removed = True, in_renamed = True\<rparr>"

definition guest0 :: hand where
  "guest0 = hand_new None Map.empty empty_acks"

definition small_armed :: armed_target where
  "small_armed = arm_candidate ''t'' small_payload"

definition guest1 :: hand where
  "guest1 = guest0\<lparr>hd_armed := Some small_armed\<rparr>"

definition shell_ref :: operation_ref where
  "shell_ref = \<lparr>of_generation = ''g'', of_operation_id = ''x'', of_receipt_ref = ''receipt:'' @ digest_b,
     of_request_digest = digest_a, of_target = shell_target, of_target_ref = ''t''\<rparr>"

definition shell_receipt :: target_receipt where
  "shell_receipt = \<lparr>tr_expires_at_ms = 100, tr_generation = ''g'', tr_target_ref = ''t''\<rparr>"

definition shell_record :: "operation_state \<Rightarrow> operation_record" where
  "shell_record st = \<lparr>or_operation_id = ''x'', or_request_digest = digest_a,
     or_reservation_bytes = (if is_terminal st then length ''done'' else 4106), or_state = st, or_cancel_requested = False\<rparr>"

definition shell_book :: "operation_state \<Rightarrow> operation_registry" where
  "shell_book st = \<lparr>records = [''x'' \<mapsto> shell_record st], max_records = 1024, max_terminal_bytes = 67108864,
     terminal_bytes = (if is_terminal st then length ''done'' else 0), pending_reserved_bytes = (if is_terminal st then 0 else 4106)\<rparr>"

definition shell_meta :: "nat \<Rightarrow> operation_meta" where
  "shell_meta n = \<lparr>om_operation = shell_ref, om_target = shell_receipt, om_cancellation = n, om_stdin = None\<rparr>"

definition shell_exec :: "nat \<Rightarrow> execution" where
  "shell_exec n = shell_execution_of shell_request (snapshot_of small_armed) ''/workspace'' guest1 n None"

definition guest2 :: hand where
  "guest2 = guest1\<lparr>hd_registry := shell_book Running, hd_metadata := [''x'' \<mapsto> shell_meta 0], hd_tokens := [False],
     hd_spawned := [(''x'', shell_exec 0)]\<rparr>"

definition guest3 :: hand where
  "guest3 = guest2\<lparr>hd_registry := shell_book (Terminal digest_c ''done'')\<rparr>"

definition tombstones :: acknowledgement_store where
  "tombstones = \<lparr>as_records = [''x'' \<mapsto> tombstone], as_writer =
     \<lparr>lw_content = ''ack'' @ [newline], lw_bytes = 4, lw_dirty = False, lw_max = 100, lw_durable = 4\<rparr>\<rparr>"

definition guest4 :: hand where
  "guest4 = guest3\<lparr>hd_registry := registry_new MAX_RETAINED_OPERATIONS MAX_RETAINED_TERMINAL_BYTES,
     hd_metadata := Map.empty, hd_acks := tombstones\<rparr>"

definition guest5 :: hand where
  "guest5 = guest4\<lparr>hd_registry := shell_book Running, hd_metadata := [''x'' \<mapsto> shell_meta 1], hd_tokens := [False, False],
     hd_spawned := [(''x'', shell_exec 0), (''x'', shell_exec 1)]\<rparr>"

lemmas guest_defs = guest0_def guest1_def guest2_def guest3_def guest4_def guest5_def hand_new_def

lemma replicate_calls: "replicate 4 x = [x, x, x, x]" "replicate 5 x = [x, x, x, x, x]"
  by (simp_all add: numeral_eq_Suc)

lemmas drive_simps = task_try_def task_map_def task_bind_assoc task_bind_case_sum drive_region drive_read

subsection \<open>Arming\<close>

lemma trim_Nil: "trim [] = []"
proof -
  have "find (\<lambda>w. w \<noteq> [] \<and> starts_with w []) encs = None" for encs :: "string list"
    by (auto simp: find_None_iff starts_with_iff)
  then have "trim_front encs [] = []" for encs by (subst trim_front.simps) simp
  then show ?thesis by (simp add: trim_def)
qed

lemma small_arm_checks: "arm_checks small_brain (in_now small_input) small_payload = Ok ()"
  by (simp add: arm_checks_def small_payload_def small_input_def validate_connector_def trim_Nil
      connector_exact_def saturating_add_def U64_MAX_def MAX_TARGET_LIFETIME_MS_def)

lemma small_arm: "drive spawned [small_input, small_input] (serve small_brain (QArm ''t'' small_payload)) guest0 =
    Some (Return (RArm (Ok False)), guest1, [])"
  by (simp add: arm_def drive_simps small_arm_checks arm_locked_def spawned_def)
    (simp add: guest_defs small_armed_def)

subsection \<open>The execution and its retry\<close>

lemma shell_fields [simp]:
  "sx_execution_id shell_request = ''x''" "sx_request_digest shell_request = digest_a"
  "sx_interactive shell_request = False" "of_operation_id shell_ref = ''x''"
  by (simp_all add: shell_request_def shell_ref_def)

lemma shell_fence:
  assumes "hd_armed h = Some small_armed"
  shows "drive sp (small_input # inputs) (task_bind (fence small_brain (sx_target shell_request)
      (sx_expected_generation shell_request)) k) h = drive sp inputs (k (Ok (snapshot_of small_armed))) h"
  using assms
  by (simp add: fence_def require_target_def drive_simps live_target_def small_armed_def arm_candidate_def
      small_payload_def snapshot_of_def small_input_def shell_request_def shell_target_def)

lemma shell_values:
  "sandbox_checks small_brain shell_request (snapshot_of small_armed) = Ok ()"
  "sandbox_ref small_brain shell_request (snapshot_of small_armed) = Ok shell_ref"
  "target_receipt small_brain (snapshot_of small_armed) = Ok shell_receipt"
  by (simp_all add: sandbox_checks_def validate_resource_subset_def resource_validate_def shell_request_def ceiling_def
      snapshot_of_def small_armed_def arm_candidate_def small_payload_def MAX_OPERATION_TIMEOUT_MS_def
      MAX_TARGET_LIFETIME_MS_def sandbox_ref_def parse_locator_def operation_receipt_ref_def shell_ref_def
      target_receipt_def shell_receipt_def)

lemma shell_execution_same:
  "hd_identity h = None \<Longrightarrow>
     shell_execution_of shell_request (snapshot_of small_armed) ''/workspace'' h n None = shell_exec n"
  by (simp add: shell_exec_def shell_execution_of_def guest_defs)

lemma shell_drive:
  assumes "hd_armed h = Some small_armed"
    and "admit_and_spawn small_brain ''x'' digest_a shell_ref shell_receipt False
      (shell_execution_of shell_request (snapshot_of small_armed) ''/workspace'' h) h = (Ok reservation.New, h')"
  shows "\<exists>t. drive spawned [small_input, small_input, small_input]
      (task_map RSubmit (execute_fenced small_brain shell_request)) h =
    Some (t, h', drop (length (spawned h)) (spawned h'))"
proof -
  have "in_cwd small_input = Ok ''/workspace''" by (simp add: small_input_def)
  with assms show ?thesis
    by (simp add: execute_fenced_def drive_simps shell_fence task_check_def shell_values)
qed

lemma shell_passes_fence:
  assumes "as_records (hd_acks h) ''x'' = None"
  shows "drive spawned [small_input] (serve small_brain (QExecuteSandbox shell_request)) h =
    Some (task_map RSubmit (execute_fenced small_brain shell_request), h, [])"
  using assms
  by (simp add: execute_sandbox_def drive_simps task_check_def fence_acknowledged_submission_def fence_submission_def)

lemma shell_admitted:
  assumes "hd_registry h = registry_new MAX_RETAINED_OPERATIONS MAX_RETAINED_TERMINAL_BYTES" and "hd_identity h = None"
  shows "admit_and_spawn small_brain ''x'' digest_a shell_ref shell_receipt False
      (shell_execution_of shell_request (snapshot_of small_armed) ''/workspace'' h) h =
    (Ok reservation.New, h\<lparr>hd_registry := shell_book Running,
       hd_metadata := (hd_metadata h)(''x'' \<mapsto> shell_meta (length (hd_tokens h))), hd_tokens := hd_tokens h @ [False],
       hd_spawned := hd_spawned h @ [(''x'', shell_exec (length (hd_tokens h)))]\<rparr>)"
proof -
  have "valid_identifier ''x''" by (simp add: valid_identifier_def identifier_char_def std_defs)
  then have "reserve (hd_registry h) ''x'' digest_a (TERMINAL_ENVELOPE_BYTES small_brain) = (Ok reservation.New, shell_book Accepted)"
    unfolding reserve_New_iff
    by (simp add: assms registry_new_def TERMINAL_ENVELOPE_BYTES_def MAX_RETAINED_OPERATIONS_def
        MAX_RETAINED_TERMINAL_BYTES_def U64_MAX_def shell_book_def shell_record_def)
  moreover have "mark_running (shell_book Accepted) ''x'' = (Ok (), shell_book Running)"
    by (simp add: mark_running_def shell_book_def shell_record_def)
  ultimately show ?thesis
    by (simp add: admit_and_spawn_def admit_operation_def admit_new_def Let_def spawn_execution_def
        shell_execution_same [OF assms(2)] shell_meta_def)
qed

lemma shell_starts:
  "\<exists>t. drive spawned (replicate 4 small_input) (serve small_brain (QExecuteSandbox shell_request)) guest1 =
     Some (t, guest2, [QExecution ''x'' (shell_exec 0)])"
proof -
  have "hd_armed guest1 = Some small_armed" "hd_registry guest1 = registry_new MAX_RETAINED_OPERATIONS MAX_RETAINED_TERMINAL_BYTES"
      "hd_identity guest1 = None" "as_records (hd_acks guest1) ''x'' = None"
    by (simp_all add: guest_defs empty_acks_def)
  moreover have "guest1\<lparr>hd_registry := shell_book Running,
       hd_metadata := (hd_metadata guest1)(''x'' \<mapsto> shell_meta (length (hd_tokens guest1))), hd_tokens := hd_tokens guest1 @ [False],
       hd_spawned := hd_spawned guest1 @ [(''x'', shell_exec (length (hd_tokens guest1)))]\<rparr> = guest2"
    by (simp add: guest_defs)
  ultimately obtain t where t: "drive spawned [small_input, small_input, small_input]
      (task_map RSubmit (execute_fenced small_brain shell_request)) guest1 =
      Some (t, guest2, drop (length (spawned guest1)) (spawned guest2))"
    using shell_drive [OF _ shell_admitted, of guest1] by auto
  have "drop (length (spawned guest1)) (spawned guest2) = [QExecution ''x'' (shell_exec 0)]"
    by (simp add: spawned_def guest_defs)
  then show ?thesis
    using drive_append [OF shell_passes_fence [OF \<open>as_records (hd_acks guest1) ''x'' = None\<close>],
        of "[small_input, small_input, small_input]"] t
    by (simp add: replicate_calls)
qed

lemma shell_ends:
  "drive spawned (replicate 4 small_input) (serve small_brain (QExecution ''x'' e)) guest2 = Some (Return RDone, guest3, [])"
proof -
  define result where "result = \<lparr>ex_outcome = Completed, ex_inline = ''1'', ex_is_error = False, ex_exit_code = None, ex_duration_ms = 1\<rparr>"
  have ended: "in_result small_input = Some result" by (simp add: small_input_def result_def)
  have "Operation_Registry.complete (shell_book Running) ''x'' digest_c ''done'' =
      (Ok (), shell_book (Terminal digest_c ''done''))"
    by (subst complete_changes [where rec = "shell_record Running"])
      (simp_all add: shell_book_def shell_record_def U64_MAX_def)
  then have fin: "finish small_brain ''x'' result (guest2\<lparr>hd_permits := n\<rparr>) = guest3\<lparr>hd_permits := n\<rparr>" for n
    by (simp add: finish_def complete_with_def sealed_terminal_def Let_def guest_defs)
  have slots: "hd_permits guest2 = 64" "\<not> hd_slots_closed guest2" "hd_spawned guest3 = hd_spawned guest2"
      "guest3\<lparr>hd_permits := 64\<rparr> = guest3"
    by (simp_all add: guest_defs MAX_CONCURRENT_OPERATIONS_def)
  show ?thesis
    using slots by (simp add: replicate_calls run_execution_def end_execution_def drive_simps drive_last ended fin return_slot_def spawned_def)
qed

subsection \<open>The acknowledgement\<close>

lemma codec_simps [simp]:
  "op_operation_id (ack_codec_of small_brain) = of_operation_id"
  "op_request_digest (ack_codec_of small_brain) = of_request_digest"
  "op_canonical_digest (ack_codec_of small_brain) r = Some digest_b"
  "ack_to_json (ack_codec_of small_brain) tombstone = Some ''ack''"
  by (simp_all add: ack_codec_of_def small_brain_def)

lemma tombstone_new: "ack_new (ack_codec_of small_brain) shell_ref digest_c = Ok tombstone"
  by (simp add: ack_new_def tombstone_def shell_ref_def)

lemma tombstone_valid: "ack_validate tombstone = Ok ()"
  by (simp add: ack_validate_def tombstone_def ack_validate_identifier_def ack_validate_digest_def
      std_defs op_defs list_all_iff)

lemma store_calls:
  "acknowledgement_exists (ack_codec_of small_brain) good_io empty_acks shell_ref digest_c = (Ok False, empty_acks)"
  "retain (ack_codec_of small_brain) good_io empty_acks shell_ref digest_c = (Ok New, tombstones)"
proof -
  have id: "ak_operation_id tombstone = ''x''" by (simp add: tombstone_def)
  show "acknowledgement_exists (ack_codec_of small_brain) good_io empty_acks shell_ref digest_c = (Ok False, empty_acks)"
    by (simp add: acknowledgement_exists_def tombstone_new id sync_if_dirty_def empty_acks_def)
  show "retain (ack_codec_of small_brain) good_io empty_acks shell_ref digest_c = (Ok New, tombstones)"
    by (simp add: retain_def tombstone_new tombstone_valid id sync_if_dirty_def empty_acks_def ack_append_def checked_add_def
        U64_MAX_def log_write_def good_io_def overwrite_at_def log_sync_def tombstones_def)
qed

lemma shell_acknowledged:
  "drive spawned (replicate 5 small_input) (serve small_brain (QAcknowledge shell_ref digest_c)) guest3 =
     Some (Return (RAcknowledge (Ok ())), guest4, [])"
proof -
  let ?h = "guest3\<lparr>hd_acks := tombstones\<rparr>"
  have io: "in_joined small_input" "in_io small_input = good_io" by (simp_all add: small_input_def)
  have acks: "hd_acks guest3 = empty_acks" "guest3\<lparr>hd_acks := empty_acks\<rparr> = guest3" by (simp_all add: guest_defs)
  have x: "valid_identifier ''x''" by (simp add: valid_identifier_def identifier_char_def std_defs)
  have "validate_operation_ref small_brain (hd_metadata guest3 ''x'') shell_ref = Ok ()"
    by (simp add: guest_defs validate_operation_ref_def canonical_equal_def shell_meta_def)
  moreover have "validate_terminal_ack (hd_registry guest3) ''x'' digest_c = Ok ()"
    using x by (simp add: guest_defs validate_terminal_ack_def op_validate_eq shell_book_def shell_record_def)
  moreover have "release_book small_brain shell_ref digest_c ?h = (Ok (), guest4)"
    using x by (simp add: release_book_def acknowledge_eq guest_defs shell_book_def shell_record_def registry_new_def
        MAX_RETAINED_OPERATIONS_def MAX_RETAINED_TERMINAL_BYTES_def)
  moreover have "forget_writes ''x'' guest4 = guest4" by (simp add: forget_writes_def guest_defs)
  ultimately show ?thesis
    using io acks by (simp add: replicate_calls acknowledge_def store_call_def release_acknowledged_terminal_def drive_simps
        drive_last store_calls) (simp add: spawned_def guest_defs)
qed

lemma tombstone_line: "ack_load (ack_codec_of small_brain) (log_lines (''ack'' @ [newline])) Map.empty = Ok [''x'' \<mapsto> tombstone]"
proof -
  have "log_lines (''ack'' @ [newline]) = [''ack'']" by (simp add: log_lines_def)
  moreover have "ack_from_json (ack_codec_of small_brain) ''ack'' = Some tombstone"
    by (simp add: ack_codec_of_def small_brain_def)
  moreover have "ak_operation_id tombstone = ''x''" by (simp add: tombstone_def)
  ultimately show ?thesis by (simp add: tombstone_valid)
qed

lemma tombstones_reopen:
  "ack_open (ack_codec_of small_brain) 100 True (length (''ack'' @ [newline])) (''ack'' @ [newline]) = Ok tombstones"
  using tombstone_line valid_len_snoc [of "[]" "''ack''"] by (simp add: ack_open_def tombstones_def)

lemma tombstones_durable: "hd_acks h = tombstones \<Longrightarrow> durable_ack small_brain ''x'' digest_c h"
  unfolding durable_ack_def ack_durable_def
  by (rule exI [of _ tombstone]) (use tombstone_line in \<open>simp add: tombstones_def lw_durable_text_def tombstone_def\<close>)

subsection \<open>The run of the whole guest\<close>

lemma request_runs:
  assumes "drive spawned inputs (serve B q) s = Some (t, s', qs)" and "external_request q"
  shows "(hand_step B)\<^sup>*\<^sup>* \<lparr>w_state = s, w_tasks = ts\<rparr>
    \<lparr>w_state = s', w_tasks = ts @ (q, t) # map (\<lambda>q. (q, serve B q)) qs\<rparr>"
proof -
  have "hand_step B \<lparr>w_state = s, w_tasks = ts\<rparr> \<lparr>w_state = s, w_tasks = ts @ [(q, serve B q)]\<rparr>"
    using arrive [of external_request q "serve B" spawned "\<lparr>w_state = s, w_tasks = ts\<rparr>"] assms(2) by simp
  also have "(hand_step B)\<^sup>*\<^sup>* \<dots> \<lparr>w_state = s', w_tasks = ts @ (q, t) # map (\<lambda>q. (q, serve B q)) qs\<rparr>"
    using drive_runs [of spawned inputs "serve B q" "\<lparr>w_state = s, w_tasks = ts @ [(q, serve B q)]\<rparr>" t s' qs "length ts" q
        "serve B" external_request] assms(1)
    by simp
  finally show ?thesis .
qed

lemma task_continues:
  assumes "drive spawned inputs t s = Some (t', s', qs)"
  shows "(hand_step B)\<^sup>*\<^sup>* \<lparr>w_state = s, w_tasks = ts @ (q, t) # us\<rparr>
    \<lparr>w_state = s', w_tasks = ts @ (q, t') # us @ map (\<lambda>q. (q, serve B q)) qs\<rparr>"
  using drive_runs [of spawned inputs t "\<lparr>w_state = s, w_tasks = ts @ (q, t) # us\<rparr>" t' s' qs "length ts" q
      "serve B" external_request] assms
  by simp

type_synonym guest_world = "(hand_request, input, hand, hand_reply) task_world"

definition world0 :: guest_world where
  "world0 = \<lparr>w_state = guest0, w_tasks = []\<rparr>"

text \<open>The caller of the first execution goes away once the execution has started.\<close>

definition world3 :: guest_world where
  "world3 = \<lparr>w_state = guest3,
     w_tasks = [(QArm ''t'' small_payload, Return (RArm (Ok False))), (QExecution ''x'' (shell_exec 0), Return RDone)]\<rparr>"

definition acknowledged :: "hand_request \<times> (input, hand, hand_reply) task" where
  "acknowledged = (QAcknowledge shell_ref digest_c, Return (RAcknowledge (Ok ())))"

definition world4 :: guest_world where
  "world4 = \<lparr>w_state = guest4, w_tasks = w_tasks world3 @ [acknowledged]\<rparr>"

text \<open>As \<open>world4\<close>, with a retry of the execution that passed the fence before the acknowledgement.\<close>

definition world4_retry :: guest_world where
  "world4_retry = \<lparr>w_state = guest4, w_tasks = w_tasks world3
     @ (QExecuteSandbox shell_request, task_map RSubmit (execute_fenced small_brain shell_request)) # [acknowledged]\<rparr>"

lemma fresh_guest0: "fresh_guest small_brain world0"
  unfolding fresh_guest_def world0_def guest0_def
  by (simp, rule exI [of _ None], rule exI [of _ Map.empty], rule exI [of _ 100], rule exI [of _ True],
      rule exI [of _ "[]"], rule exI [of _ empty_acks])
    (simp add: ack_open_def empty_acks_def valid_len_def log_lines_def)

lemma shell_runs: "(hand_step small_brain)\<^sup>*\<^sup>* world0 world3"
proof -
  let ?arm = "(QArm ''t'' small_payload, Return (RArm (Ok False)))" and ?e = "QExecution ''x'' (shell_exec 0)"
  obtain t where t: "drive spawned (replicate 4 small_input) (serve small_brain (QExecuteSandbox shell_request)) guest1 =
     Some (t, guest2, [?e])"
    using shell_starts by blast
  let ?w = "\<lparr>w_state = guest2, w_tasks = [?arm, (QExecuteSandbox shell_request, t), (?e, serve small_brain ?e)]\<rparr>"
  have a: "(hand_step small_brain)\<^sup>*\<^sup>* world0 \<lparr>w_state = guest1, w_tasks = [?arm]\<rparr>"
    using request_runs [OF small_arm, of "[]"] by (simp add: world0_def)
  have b: "(hand_step small_brain)\<^sup>*\<^sup>* \<lparr>w_state = guest1, w_tasks = [?arm]\<rparr> ?w"
    using request_runs [OF t, of "[?arm]"] by simp
  have c: "hand_step small_brain ?w \<lparr>w_state = guest2, w_tasks = [?arm, (?e, serve small_brain ?e)]\<rparr>"
    using drop [of 1 ?w "serve small_brain" spawned external_request] by simp
  have d: "(hand_step small_brain)\<^sup>*\<^sup>* \<lparr>w_state = guest2, w_tasks = [?arm, (?e, serve small_brain ?e)]\<rparr> world3"
    using task_continues [OF shell_ends [of "shell_exec 0"], of small_brain "[?arm]" ?e "[]"] by (simp add: world3_def)
  show ?thesis by (rule rtranclp_trans [OF a rtranclp_trans [OF b converse_rtranclp_into_rtranclp [OF c d]]])
qed

lemma shell_running: "\<exists>w. (hand_step small_brain)\<^sup>*\<^sup>* world0 w \<and> w_state w = guest2"
proof -
  obtain t where "drive spawned (replicate 4 small_input) (serve small_brain (QExecuteSandbox shell_request)) guest1 =
      Some (t, guest2, [QExecution ''x'' (shell_exec 0)])"
    using shell_starts by blast
  note b = request_runs [OF this, of "[(QArm ''t'' small_payload, Return (RArm (Ok False)))]", simplified]
    and a = request_runs [OF small_arm, of "[]", simplified]
  show ?thesis using rtranclp_trans [OF a b] by (intro exI conjI) (simp add: world0_def, simp)
qed

lemma acknowledgement_runs: "(hand_step small_brain)\<^sup>*\<^sup>* world3 world4"
  using request_runs [OF shell_acknowledged, of "w_tasks world3"] by (simp add: world3_def world4_def acknowledged_def)

lemma retry_runs: "(hand_step small_brain)\<^sup>*\<^sup>* world3 world4_retry"
proof -
  have "as_records (hd_acks guest3) ''x'' = None" by (simp add: guest_defs empty_acks_def)
  note retry = request_runs [OF shell_passes_fence [OF this], of "w_tasks world3"]
  note ack = request_runs [OF shell_acknowledged, of "w_tasks world3 @ [(QExecuteSandbox shell_request, _)]"]
  from retry ack show ?thesis
    by (simp add: world3_def world4_retry_def acknowledged_def) (erule rtranclp_trans, assumption)
qed

lemma retry_executes: "\<exists>w. (hand_step small_brain)\<^sup>*\<^sup>* world4_retry w \<and> w_state w = guest5"
proof -
  have "hd_armed guest4 = Some small_armed" "hd_registry guest4 = registry_new MAX_RETAINED_OPERATIONS MAX_RETAINED_TERMINAL_BYTES"
      "hd_identity guest4 = None"
    by (simp_all add: guest_defs)
  moreover have "guest4\<lparr>hd_registry := shell_book Running,
       hd_metadata := (hd_metadata guest4)(''x'' \<mapsto> shell_meta (length (hd_tokens guest4))), hd_tokens := hd_tokens guest4 @ [False],
       hd_spawned := hd_spawned guest4 @ [(''x'', shell_exec (length (hd_tokens guest4)))]\<rparr> = guest5"
    by (simp add: guest_defs)
  ultimately obtain t qs where "drive spawned [small_input, small_input, small_input]
      (task_map RSubmit (execute_fenced small_brain shell_request)) guest4 = Some (t, guest5, qs)"
    using shell_drive [OF _ shell_admitted, of guest4] by auto
  from task_continues [OF this, of small_brain "w_tasks world3" "QExecuteSandbox shell_request" "[acknowledged]"]
  show ?thesis unfolding world4_retry_def by fastforce
qed

subsection \<open>Installing\<close>

definition node_bundle :: bundle_descriptor where
  "node_bundle = \<lparr>bd_bundle_digest = digest_b, bd_contract_digest = ''k'', bd_required_env = [''A''], bd_bytes = 0,
     bd_object_bytes = 0, bd_object_sha256 = digest_b, bd_node22 = True, bd_rest = []\<rparr>"

definition tool_binding :: sealed_binding where
  "tool_binding = \<lparr>sb_root_id = ''r'', sb_session_id = ''s'', sb_capability = [], sb_realm = AexManaged,
     sb_contract_digest = ''k'', sb_bundle = Some node_bundle, sb_required_capabilities = [], sb_rest = []\<rparr>"

definition binding_request :: install_binding_request where
  "binding_request = \<lparr>iq_binding_ref = ''b'', iq_binding = tool_binding\<rparr>"

definition no_secrets :: install_secrets_request where
  "no_secrets = \<lparr>sq_session_id = ''s'', sq_generation = ''g'', sq_env_names = [], sq_values = Map.empty\<rparr>"

definition tool_user :: tool_identity where
  "tool_user = \<lparr>ti_uid = 65543, ti_gid = 2, ti_supervisor_uid = 1\<rparr>"

definition sealed0 :: hand where
  "sealed0 = hand_new (Some \<lparr>ti_uid = 3, ti_gid = 2, ti_supervisor_uid = 1\<rparr>) Map.empty empty_acks"

definition sealed1 :: hand where
  "sealed1 = sealed0\<lparr>hd_armed := Some small_armed\<rparr>"

definition sealed2 :: hand where
  "sealed2 = sealed1\<lparr>hd_tool_files := [bundle_path digest_b \<mapsto> []],
     hd_bundles := [digest_b \<mapsto> (node_bundle, bundle_path digest_b)]\<rparr>"

definition sealed3 :: hand where
  "sealed3 = sealed2\<lparr>hd_secrets := [''s'' \<mapsto> \<lparr>ss_generation = ''g'', ss_declared = {}, ss_values = Map.empty\<rparr>]\<rparr>"

definition tool_installed :: installed_binding where
  "tool_installed = \<lparr>ib_seal = tool_binding, ib_bundle_path = bundle_path digest_b, ib_identity = Some tool_user\<rparr>"

definition sealed4 :: hand where
  "sealed4 = sealed3\<lparr>hd_identities := \<lparr>ir_by_ref = [''b'' \<mapsto> Some tool_user], ir_by_uid = [65543 \<mapsto> ''b''],
       ir_uid_min = 65536, ir_uid_span = 1999934464, ir_max_bindings = 4096\<rparr>,
     hd_bindings := [''b'' \<mapsto> tool_installed]\<rparr>"

lemmas sealed_defs = sealed0_def sealed1_def sealed2_def sealed3_def sealed4_def hand_new_def

lemma sealed_arms: "drive spawned [small_input, small_input] (serve small_brain (QArm ''t'' small_payload)) sealed0 =
    Some (Return (RArm (Ok False)), sealed1, [])"
  by (simp add: arm_def drive_simps small_arm_checks arm_locked_def spawned_def)
    (simp add: sealed_defs small_armed_def)

lemma bundle_installs: "drive spawned [small_input] (serve small_brain (QInstallBundle node_bundle [])) sealed1 =
    Some (Return (RInstall (Ok (installed False))), sealed2, [])"
proof -
  have "bundle_checks small_brain node_bundle [] = Ok ()"
    by (simp add: bundle_checks_def node_bundle_def environment_name_is_valid_def reserved_tool_environment_def)
      (simp add: small_brain_def std_defs reserved_names_def)
  moreover have "install_bundle_locked small_brain small_input node_bundle [] sealed1 = (Ok (installed False), sealed2)"
    by (simp add: install_bundle_locked_def stage_bundle_def small_input_def sealed_defs node_bundle_def Let_def)
  ultimately show ?thesis by (simp add: install_bundle_def task_check_def drive_simps drive_last spawned_def) (simp add: sealed_defs)
qed

lemma sealed_target:
  assumes "hd_armed h = Some small_armed"
  shows "live_target small_brain (in_now small_input) h = Ok (snapshot_of small_armed)"
  using assms by (simp add: live_target_def small_armed_def arm_candidate_def small_payload_def snapshot_of_def small_input_def)

lemma binding_checked:
  "drive spawned [small_input, small_input, small_input] (serve small_brain (QInstallBinding binding_request)) sealed2 =
    Some (task_map RInstall (region (\<lambda>i. install_binding_locked small_brain binding_request (bundle_path digest_b))), sealed2, [])"
proof -
  have t: "live_target small_brain (in_now small_input) sealed2 = Ok (snapshot_of small_armed)"
    by (rule sealed_target) (simp add: sealed_defs)
  have c: "binding_checks small_brain (iq_binding binding_request) (snapshot_of small_armed) = Ok node_bundle"
    by (simp add: binding_checks_def binding_request_def tool_binding_def snapshot_of_def small_armed_def arm_candidate_def
        small_payload_def node_bundle_def)
  have b: "installed_bundle small_brain node_bundle sealed2 = Ok (bundle_path digest_b)"
    by (simp add: installed_bundle_def canonical_equal_def sealed_defs) (simp add: node_bundle_def)
  have "\<not> requires_undeclared_secret (sb_session_id (iq_binding binding_request)) node_bundle sealed2"
    by (simp add: requires_undeclared_secret_def sealed_defs)
  with t c b show ?thesis by (simp add: install_binding_def require_target_def task_check_def drive_simps)
qed

lemma secrets_install:
  "drive spawned [small_input, small_input, small_input] (serve small_brain (QInstallSecrets no_secrets)) sealed2 =
    Some (Return (RInstall (Ok (installed False))), sealed3, [])"
proof -
  have t: "live_target small_brain (in_now small_input) sealed2 = Ok (snapshot_of small_armed)"
    by (rule sealed_target) (simp add: sealed_defs)
  have g: "sq_generation no_secrets = ts_generation (snapshot_of small_armed)"
    by (simp add: no_secrets_def snapshot_of_def small_armed_def arm_candidate_def small_payload_def)
  have c: "secrets_checks small_brain no_secrets = Ok ()"
    by (simp add: secrets_checks_def no_secrets_def secret_material_fits_def small_brain_def)
  have "requirements_declared (sq_session_id no_secrets) (set (sq_env_names no_secrets)) sealed2"
    by (simp add: requirements_declared_def sealed_defs)
  moreover have "install_secrets_locked small_brain no_secrets sealed2 = (Ok (installed False), sealed3)"
    by (simp add: install_secrets_locked_def no_secrets_def sealed_defs)
  ultimately show ?thesis
    using t g c by (simp add: install_secrets_def require_target_def task_check_def drive_simps spawned_def) (simp add: sealed_defs)
qed

lemma binding_installs:
  "drive spawned [small_input] (task_map RInstall
      (region (\<lambda>i. install_binding_locked small_brain binding_request (bundle_path digest_b)))) sealed3 =
    Some (Return (RInstall (Ok (installed False))), sealed4, [])"
proof -
  have "install_binding_locked small_brain binding_request (bundle_path digest_b) sealed3 = (Ok (installed False), sealed4)"
    by (simp add: install_binding_locked_def binding_request_def sealed_defs allocate_def identities_production_def
        identities_with_bounds_def MAX_PREPARED_BINDINGS_def binding_uid_def MANAGED_BINDING_UID_MIN_def
        MANAGED_BINDING_UID_SPAN_def tool_installed_def tool_user_def Let_def)
  then show ?thesis by (simp add: drive_simps spawned_def) (simp add: sealed_defs)
qed

subsection \<open>The run of a guest that installs\<close>

definition sealed_world0 :: guest_world where
  "sealed_world0 = \<lparr>w_state = sealed0, w_tasks = []\<rparr>"

lemma fresh_sealed0: "fresh_guest small_brain sealed_world0"
  unfolding fresh_guest_def sealed_world0_def sealed0_def
  by (simp, rule exI, rule exI [of _ Map.empty], rule exI [of _ 100], rule exI [of _ True],
      rule exI [of _ "[]"], rule exI [of _ empty_acks])
    (rule conjI [OF _ refl], simp add: ack_open_def empty_acks_def valid_len_def log_lines_def)

text \<open>The secrets are installed between the checks of the binding and its installation.\<close>

lemma install_runs: "\<exists>w. (hand_step small_brain)\<^sup>*\<^sup>* sealed_world0 w \<and> w_state w = sealed4"
proof -
  let ?arm = "(QArm ''t'' small_payload, Return (RArm (Ok False)))"
    and ?pre = "[(QArm ''t'' small_payload, Return (RArm (Ok False))),
      (QInstallBundle node_bundle [], Return (RInstall (Ok (installed False))))]"
    and ?wait = "task_map RInstall (region (\<lambda>i. install_binding_locked small_brain binding_request (bundle_path digest_b)))"
  note a = request_runs [OF sealed_arms, of "[]", simplified]
    and b = request_runs [OF bundle_installs, of "[?arm]", simplified]
    and c = request_runs [OF binding_checked, of ?pre, simplified]
    and d = request_runs [OF secrets_install, of "?pre @ [(QInstallBinding binding_request, ?wait)]", simplified]
    and e = task_continues [OF binding_installs, of small_brain ?pre "QInstallBinding binding_request"
      "[(QInstallSecrets no_secrets, Return (RInstall (Ok (installed False))))]", simplified]
  have "(hand_step small_brain)\<^sup>*\<^sup>* sealed_world0
      \<lparr>w_state = sealed4, w_tasks = ?pre @ [(QInstallBinding binding_request, Return (RInstall (Ok (installed False)))),
         (QInstallSecrets no_secrets, Return (RInstall (Ok (installed False))))]\<rparr>"
    using rtranclp_trans [OF a rtranclp_trans [OF b rtranclp_trans [OF c rtranclp_trans [OF d e]]]]
    by (simp add: sealed_world0_def)
  then show ?thesis by (intro exI conjI) (assumption, simp)
qed

end
