(* ===== verification/Guest_Promises.thy ===== *)
theory Guest_Promises
  imports Guest_Runs
begin

section \<open>What the guest promises\<close>

text \<open>
  Properties of the guest over every interleaving of its handlers: how often an operation is
  executed, how long its result is kept, what an execution runs under, and what an answered
  acknowledgement means across a restart; each with a witness on the sample run. Two runs show
  what the code's interleavings allow beyond that: a retry that passed the fence before the
  acknowledgement, and a binding and the session's secrets installed at the same time.
\<close>

text \<open>
  C2. As long as an operation is not acknowledged, the guest has started at most one execution for
  it, however its submissions, retries, cancellations, observations and acknowledgements interleave
  and whichever of them are dropped; and once started, its record is still there to be observed.
\<close>

theorem execution_starts_at_most_once:
  assumes "fresh_guest B w0" and "ack_codec_ok (ack_codec_of B)" and "(hand_step B)\<^sup>*\<^sup>* w0 w"
    and "as_records (hd_acks (w_state w)) oid = None"
  shows "count_list (spawned_ids (w_state w)) oid \<le> 1
    \<and> (oid \<in> set (spawned_ids (w_state w)) \<longrightarrow>
          observe (hd_registry (w_state w)) oid \<noteq> None \<and> hd_metadata (w_state w) oid \<noteq> None)"
proof -
  note inv = hand_invD(2,3) [OF guest_runs(1) [OF assms(1-3) rtranclp.rtrancl_refl]]
  have "dom (hd_metadata (w_state w)) = dom (records (hd_registry (w_state w)))" using inv(1) by (simp add: book_ok_def)
  then have "hd_metadata (w_state w) oid \<noteq> None \<longleftrightarrow> records (hd_registry (w_state w)) oid \<noteq> None" by blast
  then show ?thesis using inv(2) assms(4) by (auto simp: spawns_ok_def observe_def)
qed

theorem execution_starts_at_most_once_witness:
  "(hand_step small_brain)\<^sup>*\<^sup>* world0 world3 \<and> as_records (hd_acks (w_state world3)) ''x'' = None
   \<and> count_list (spawned_ids (w_state world3)) ''x'' = 1
   \<and> observe (hd_registry (w_state world3)) ''x'' \<noteq> None \<and> hd_metadata (w_state world3) ''x'' \<noteq> None"
proof -
  have none: "as_records (hd_acks (w_state world3)) ''x'' = None" by (simp add: world3_def guest_defs empty_acks_def)
  have "spawned_ids (w_state world3) = [''x'']" by (simp add: world3_def guest_defs spawned_ids_def)
  then show ?thesis
    using execution_starts_at_most_once [OF fresh_guest0 small_brain_codec shell_runs none] shell_runs none by simp
qed

text \<open>
  C7. Once an operation is acknowledged and no submission of it is in progress, the guest never
  starts another execution for it, whatever requests arrive.
\<close>

theorem acknowledged_operation_is_not_executed_again:
  assumes "fresh_guest B w0" and "ack_codec_ok (ack_codec_of B)" and "(hand_step B)\<^sup>*\<^sup>* w0 w"
    and "as_records (hd_acks (w_state w)) oid \<noteq> None" and "no_submission oid w" and "(hand_step B)\<^sup>*\<^sup>* w w'"
  shows "count_list (spawned_ids (w_state w')) oid = count_list (spawned_ids (w_state w)) oid"
  using acknowledged_quiet [OF assms] .

theorem acknowledged_operation_is_not_executed_again_witness:
  "(let w = world4\<lparr>w_tasks := w_tasks world4 @ [(QExecuteSandbox shell_request, serve small_brain (QExecuteSandbox shell_request))]\<rparr>
    in (hand_step small_brain)\<^sup>*\<^sup>* world4 w \<and> count_list (spawned_ids (w_state w)) ''x'' = 1)"
proof -
  let ?w = "world4\<lparr>w_tasks := w_tasks world4 @ [(QExecuteSandbox shell_request, serve small_brain (QExecuteSandbox shell_request))]\<rparr>"
  have run: "(hand_step small_brain)\<^sup>*\<^sup>* world4 ?w" by (rule r_into_rtranclp, rule arrive) simp
  have acked: "as_records (hd_acks (w_state world4)) ''x'' \<noteq> None" and one: "count_list (spawned_ids (w_state world4)) ''x'' = 1"
    by (simp_all add: world4_def guest_defs tombstones_def spawned_ids_def)
  have "no_submission ''x'' world4" by (simp add: no_submission_def world4_def world3_def acknowledged_def)
  from acknowledged_operation_is_not_executed_again [OF fresh_guest0 small_brain_codec
      rtranclp_trans [OF shell_runs acknowledgement_runs] acked this run] run one
  show ?thesis by (simp only: Let_def)
qed

text \<open>
  C6. An acknowledgement that was answered survives the guest: after a loss of power that leaves any
  file the log may leave, a guest made from the reopened log never executes the operation.
\<close>

theorem answered_acknowledgement_survives_restart:
  assumes "fresh_guest B w0" and "ack_codec_ok (ack_codec_of B)" and "(hand_step B)\<^sup>*\<^sup>* w0 w"
    and "(QAcknowledge op td, Return (RAcknowledge (Ok ()))) \<in> set (w_tasks w)"
    and "survives (as_writer (hd_acks (w_state w))) content"
    and "ack_open (ack_codec_of B) limit cut_ok (length content) content = Ok acks"
    and "(hand_step B)\<^sup>*\<^sup>* \<lparr>w_state = hand_new identity files acks, w_tasks = []\<rparr> w'"
  shows "of_operation_id op \<notin> set (spawned_ids (w_state w'))"
proof -
  let ?w1 = "\<lparr>w_state = hand_new identity files acks, w_tasks = []\<rparr>"
  have ok: "ack_ok (ack_codec_of B) (hd_acks (w_state w))"
    using hand_invD(1) [OF guest_runs(1) [OF assms(1-3) rtranclp.rtrancl_refl]] .
  obtain c where c: "ack_new (ack_codec_of B) op td = Ok c" "ack_durable (ack_codec_of B) c (hd_acks (w_state w))"
    using acknowledgement_answered [OF assms(1-4)] by (auto simp: acked_def)
  note P = power_loss_ok [OF assms(6) ok assms(5)]
  have "as_records acks (of_operation_id op) \<noteq> None"
    using ack_durable_indexed [OF P(1) P(2) [OF c(2)]] ack_new_identity [OF c(1)] by (simp add: ack_codec_of_def)
  moreover have "fresh_guest B ?w1" unfolding fresh_guest_def using assms(6) by simp blast
  ultimately have "count_list (spawned_ids (w_state w')) (of_operation_id op) = 0"
    using acknowledged_quiet [of B ?w1 ?w1 "of_operation_id op" w'] assms(2,7)
    by (simp add: hand_new_def no_submission_def spawned_ids_def)
  then show ?thesis by (simp add: count_list_0_iff)
qed

theorem answered_acknowledgement_survives_restart_witness:
  "''x'' \<notin> set (spawned_ids (hand_new None Map.empty tombstones))
   \<and> (QAcknowledge shell_ref digest_c, Return (RAcknowledge (Ok ()))) \<in> set (w_tasks world4)
   \<and> survives (as_writer (hd_acks (w_state world4))) (''ack'' @ [newline])"
proof -
  have answered: "(QAcknowledge shell_ref digest_c, Return (RAcknowledge (Ok ()))) \<in> set (w_tasks world4)"
    by (simp add: world4_def acknowledged_def)
  have kept: "survives (as_writer (hd_acks (w_state world4))) (''ack'' @ [newline])"
    by (simp add: world4_def guest_defs tombstones_def survives_def)
  have "ack_open (ack_codec_of small_brain) 100 True (length (''ack'' @ [newline])) (''ack'' @ [newline]) = Ok tombstones"
    by (rule tombstones_reopen)
  from answered_acknowledgement_survives_restart [OF fresh_guest0 small_brain_codec
      rtranclp_trans [OF shell_runs acknowledgement_runs] answered kept this rtranclp.rtrancl_refl] answered kept
  show ?thesis by simp
qed

text \<open>
  C5. A terminal result is kept until its acknowledgement is durable: as long as no acknowledgement
  of exactly this result is on disk, every later state of the guest still has it, byte for byte.
\<close>

theorem terminal_result_kept_until_acknowledged:
  assumes "fresh_guest B w0" and "ack_codec_ok (ack_codec_of B)" and "(hand_step B)\<^sup>*\<^sup>* w0 w" and "(hand_step B)\<^sup>*\<^sup>* w w'"
    and "terminal_at (hd_registry (w_state w)) oid = Some (td, p)" and "\<not> durable_ack B oid td (w_state w')"
  shows "terminal_at (hd_registry (w_state w')) oid = Some (td, p)"
  using guest_runs(3) [OF assms(1-4)] assms(5,6) by (auto simp: hand_later_def results_later_def)

theorem terminal_result_kept_until_acknowledged_witness:
  "terminal_at (hd_registry (w_state world3)) ''x'' = Some (digest_c, ''done'') \<and> \<not> durable_ack small_brain ''x'' digest_c (w_state world3)"
proof -
  have t: "terminal_at (hd_registry (w_state world3)) ''x'' = Some (digest_c, ''done'')"
    by (simp add: world3_def guest_defs shell_book_def shell_record_def terminal_at_def)
  have n: "\<not> durable_ack small_brain ''x'' digest_c (w_state world3)"
    by (simp add: world3_def guest_defs empty_acks_def durable_ack_def ack_durable_def lw_durable_text_def log_lines_def)
  show ?thesis
    using terminal_result_kept_until_acknowledged [OF fresh_guest0 small_brain_codec shell_runs rtranclp.rtrancl_refl t n] n by simp
qed

text \<open>
  C36. Every execution runs under the seal: the target that was armed, whose deadline, proxy and
  ceilings it has, and, for a tool, an installed binding of its session with the binding's identity
  and bundle, and exactly the environment its descriptor declares, with values delivered for its
  session; and a target once armed is never replaced.
\<close>

theorem execution_runs_under_the_seal:
  assumes "fresh_guest B w0" and "ack_codec_ok (ack_codec_of B)" and "(hand_step B)\<^sup>*\<^sup>* w0 w" and "(hand_step B)\<^sup>*\<^sup>* w w'"
  shows "(\<forall>(oid, e) \<in> set (hd_spawned (w_state w)). exec_ok B (w_state w') oid e)
    \<and> (hd_armed (w_state w) = Some t \<longrightarrow> hd_armed (w_state w') = Some t)"
proof -
  note runs = guest_runs [OF assms]
  have g: "grown (w_state w) (w_state w')" using hand_laterD(1) [OF runs(3)] .
  have "\<forall>(oid, e) \<in> set (hd_spawned (w_state w)). exec_ok B (w_state w') oid e"
    using hand_invD(4) [OF runs(1)] exec_ok_grown [OF _ g] by (fastforce simp: execs_ok_def)
  then show ?thesis using grownD(1) [OF g] by blast
qed

theorem execution_runs_under_the_seal_witness:
  "exec_ok small_brain (w_state world4) ''x'' (shell_exec 0) \<and> hd_armed (w_state world4) = Some small_armed"
proof -
  have "(''x'', shell_exec 0) \<in> set (hd_spawned (w_state world3))" "hd_armed (w_state world3) = Some small_armed"
    by (simp_all add: world3_def guest_defs)
  then show ?thesis
    using execution_runs_under_the_seal [OF fresh_guest0 small_brain_codec shell_runs acknowledgement_runs, of small_armed] by blast
qed

text \<open>
  C37. Two bindings never share a kernel identity: in every state of the guest, installed bindings
  with the same uid are the same binding, and every uid lies in the range kept for bindings.
\<close>

theorem binding_identities_are_distinct:
  assumes "fresh_guest B w0" and "ack_codec_ok (ack_codec_of B)" and "(hand_step B)\<^sup>*\<^sup>* w0 w"
    and "hd_bindings (w_state w) r1 = Some b1" and "ib_identity b1 = Some x1"
    and "hd_bindings (w_state w) r2 = Some b2" and "ib_identity b2 = Some x2"
  shows "(ti_uid x1 = ti_uid x2 \<longrightarrow> r1 = r2) \<and> 65536 \<le> ti_uid x1 \<and> ti_uid x1 < 2000000000"
proof -
  have ids: "identities_ok (w_state w)" using hand_invD(5) [OF guest_runs(1) [OF assms(1-3) rtranclp.rtrancl_refl]] .
  then have "ir_by_ref (hd_identities (w_state w)) r1 = Some (Some x1)" "ir_by_ref (hd_identities (w_state w)) r2 = Some (Some x2)"
    using assms(4-7) by (auto simp: identities_ok_def Let_def)
  then have "ir_by_uid (hd_identities (w_state w)) (ti_uid x1) = Some r1"
      "ir_by_uid (hd_identities (w_state w)) (ti_uid x2) = Some r2" "65536 \<le> ti_uid x1 \<and> ti_uid x1 < 2000000000"
    using ids by (auto simp: identities_ok_def Let_def MANAGED_BINDING_UID_MIN_def MANAGED_BINDING_UID_SPAN_def)
  then show ?thesis by auto
qed

theorem binding_identities_are_distinct_witness:
  "hd_bindings sealed4 ''b'' = Some tool_installed \<and> 65536 \<le> ti_uid tool_user \<and> ti_uid tool_user < 2000000000"
proof -
  obtain w where run: "(hand_step small_brain)\<^sup>*\<^sup>* sealed_world0 w" and w: "w_state w = sealed4" using install_runs by blast
  have b: "hd_bindings (w_state w) ''b'' = Some tool_installed" "ib_identity tool_installed = Some tool_user"
    by (simp_all add: w sealed_defs tool_installed_def)
  show ?thesis
    using binding_identities_are_distinct [OF fresh_sealed0 small_brain_codec run b b] b(1) w by simp
qed

text \<open>
  C38. An execution that ends leaves its operation terminal: whatever the result, even one that is too
  large to be retained, finishing stores a terminal observation, provided the digest of a terminal
  result is a digest and the short interruption notice fits the envelope that was reserved.
\<close>

theorem finished_execution_is_terminal:
  assumes "fresh_guest B w0" and "ack_codec_ok (ack_codec_of B)" and "(hand_step B)\<^sup>*\<^sup>* w0 w"
    and "\<And>t. valid_digest (terminal_result_digest B t)" and "hd_metadata (w_state w) oid = Some meta"
    and "observation_to_json B (terminal_observation meta
           (sealed_terminal B (fallback_result (bounded_result B result)))) = Some p"
    and "length p \<le> TERMINAL_ENVELOPE_BYTES B"
  shows "\<exists>td p. terminal_at (hd_registry (finish B oid result (w_state w))) oid = Some (td, p)"
proof -
  let ?h = "w_state w" and ?t = "sealed_terminal B (bounded_result B result)"
    and ?f = "sealed_terminal B (fallback_result (bounded_result B result))"
  note inv = hand_invD(2) [OF guest_runs(1) [OF assms(1-3) rtranclp.rtrancl_refl]]
  obtain rec where rec: "records (hd_registry ?h) oid = Some rec"
    using inv assms(5) by (auto simp: book_ok_def)
  obtain b r where r: "complete_with B oid meta ?t (hd_registry ?h) = (b, r)" by (rule prod.exhaust)
  obtain b' r' where r': "complete_with B oid meta ?f r = (b', r')" by (rule prod.exhaust)
  have fin: "hd_registry (finish B oid result ?h) = (if b then r else r')"
    using assms(5) r r' by (simp add: finish_def)
  have ok: "op_inv (hd_registry ?h)" "pending_ok (TERMINAL_ENVELOPE_BYTES B) (hd_registry ?h)"
    using inv by (simp_all add: book_ok_def)
  note L = complete_with_later [OF r] and L' = complete_with_later [OF r']
  obtain rec1 where rec1: "records r oid = Some rec1" using L(2) rec by blast
  have "terminal_at r' oid \<noteq> None" if "\<not> b"
    using complete_with_succeeds [OF r' L(3) [OF ok(1)] L(4) [OF ok(2)] rec1 assms(6,7)] assms(4)
    by (auto simp: sealed_terminal_def Let_def)
  moreover have "terminal_at r oid \<noteq> None" if b using complete_with_terminal [of B oid meta ?t "hd_registry ?h" r] r that by simp
  ultimately show ?thesis using fin by (auto split: if_splits)
qed

theorem finished_execution_is_terminal_witness:
  "\<exists>td p. terminal_at (hd_registry (finish small_brain ''x''
      \<lparr>ex_outcome = Failed, ex_inline = replicate 11 CHR ''a'', ex_is_error = True, ex_exit_code = Some 1, ex_duration_ms = 1\<rparr> guest2)) ''x''
    = Some (td, p)"
proof -
  obtain w where run: "(hand_step small_brain)\<^sup>*\<^sup>* world0 w" and w: "w_state w = guest2" using shell_running by blast
  have m: "hd_metadata (w_state w) ''x'' = Some (shell_meta 0)" by (simp add: w guest_defs)
  have d: "valid_digest (terminal_result_digest small_brain t)" for t by simp
  show ?thesis
    using finished_execution_is_terminal [OF fresh_guest0 small_brain_codec run d m, where p = "''done''"] w
    by (simp add: TERMINAL_ENVELOPE_BYTES_def)
qed

section \<open>What interleavings allow\<close>

text \<open>
  C39. A retry that passed the fence before the acknowledgement is executed again after it: the
  submission reads the acknowledgements first and admits the operation later, and by then the
  acknowledgement has removed the record that would have recognised the retry. The same operation
  runs twice although its acknowledgement was durable before the second execution started.
\<close>

theorem retry_racing_acknowledgement_executes_twice:
  "\<exists>w w'. fresh_guest small_brain world0 \<and> ack_codec_ok (ack_codec_of small_brain)
     \<and> (hand_step small_brain)\<^sup>*\<^sup>* world0 w \<and> durable_ack small_brain ''x'' digest_c (w_state w)
     \<and> spawned_ids (w_state w) = [''x'']
     \<and> (hand_step small_brain)\<^sup>*\<^sup>* w w' \<and> spawned_ids (w_state w') = [''x'', ''x'']"
proof -
  obtain w' where "(hand_step small_brain)\<^sup>*\<^sup>* world4_retry w'" and w': "w_state w' = guest5" using retry_executes by blast
  moreover have "durable_ack small_brain ''x'' digest_c (w_state world4_retry)"
    by (rule tombstones_durable) (simp add: world4_retry_def guest4_def)
  ultimately show ?thesis
    using fresh_guest0 small_brain_codec rtranclp_trans [OF shell_runs retry_runs]
    by (intro exI [of _ world4_retry] exI [of _ w']) (simp add: world4_retry_def guest_defs spawned_ids_def)
qed

text \<open>
  C40. Installing a binding and installing its session's secrets can pass each other: each checks the
  other's map before it takes its own lock. Both succeed, and the binding then requires an
  environment name that the session's secrets do not declare, which either order alone refuses.
\<close>

theorem concurrent_installs_leave_undeclared_requirement:
  "\<exists>w. fresh_guest small_brain sealed_world0 \<and> (hand_step small_brain)\<^sup>*\<^sup>* sealed_world0 w
     \<and> hd_bindings (w_state w) ''b'' = Some tool_installed \<and> sb_bundle (ib_seal tool_installed) = Some node_bundle
     \<and> requires_undeclared_secret (sb_session_id (ib_seal tool_installed)) node_bundle (w_state w)"
proof -
  obtain w where "(hand_step small_brain)\<^sup>*\<^sup>* sealed_world0 w" and w: "w_state w = sealed4" using install_runs by blast
  then show ?thesis
    using fresh_sealed0
    by (intro exI [of _ w]) (simp add: w requires_undeclared_secret_def sealed_defs tool_installed_def tool_binding_def node_bundle_def)
qed

end
