(* ===== verification/Aws_Requests.thy ===== *)
theory Aws_Requests
  imports Guest_Protocol Materialization Egress_Policy
begin

section \<open>Requests and errors of the production Hand (\<open>hand-brain-aws\<close>)\<close>

text \<open>
  The errors of the production implementation (\<open>errors.rs\<close>, \<open>client.rs\<close>), the validation of
  requests and seals (\<open>validate.rs\<close>) and the projection of keys and statuses (\<open>status.rs\<close>). What
  Brain's protocol crate provides beyond the guest's \<open>brain\<close> is in \<open>aws\<close>.
\<close>

subsection \<open>What the protocol crate provides\<close>

record secret_capability =
  sc_capability_ref :: string
  sc_env_names :: "string list"
  sc_rest :: bytes

record bundle_fetch =
  bf_bundle_digest :: string
  bf_expires_at_ms :: nat
  bf_max_bytes :: nat
  bf_rest :: bytes

record prepared_binding =
  pb_binding_ref :: string
  pb_bundle_digests :: "string list"

record prepare_request =
  pq_root_id :: string
  pq_session_id :: string
  pq_bindings :: "prepared_binding list"
  pq_bundles :: "bundle_fetch list"
  pq_network :: network_ceiling
  pq_resources :: resource_ceiling
  pq_secret_capability :: "secret_capability option"

record create_request =
  cq_target :: sandbox_target
  cq_resource_class :: string
  cq_resources :: resource_ceiling
  cq_network :: network_ceiling
  cq_generation_intent :: string

record aws =
  aw_brain :: brain
  MAX_MODEL_TOOLS :: nat
  MAX_MANAGED_TOOL_INPUT_BYTES :: nat
  input_is_inline :: "operation_envelope \<Rightarrow> bool"
  jcs_input :: "operation_envelope \<Rightarrow> bytes option"
  jcs_prepare :: "prepare_request \<Rightarrow> bytes option"
  resources_digest :: "resource_ceiling \<Rightarrow> string option"
  network_digest :: "network_ceiling \<Rightarrow> string option"
  descriptor_digest :: "bundle_descriptor \<Rightarrow> string option"

text \<open>The three digests are \<open>canonical_digest\<close>, SHA-256 of the canonical JSON.\<close>

subsection \<open>Errors\<close>

datatype detail = DetailText string | DetailNumber nat

record aws_error = hand_error +
  ae_details :: "string \<rightharpoonup> detail"

definition aws_error :: "aws \<Rightarrow> hand_error_code \<Rightarrow> bool \<Rightarrow> string \<Rightarrow> aws_error" where
  "aws_error V ec retryable message =
     \<lparr>he_code = ec, he_message = if parses_message (aw_brain V) message then message else ''Hand request failed'',
      he_retryable = retryable, ae_details = Map.empty\<rparr>"

definition temporary :: "aws \<Rightarrow> string \<Rightarrow> aws_error" where
  "temporary V message = aws_error V TemporarilyUnavailable True message"

definition capacity_error :: "aws \<Rightarrow> string \<Rightarrow> string \<Rightarrow> (string \<times> nat) list \<Rightarrow> aws_error" where
  "capacity_error V scope message limits =
     (aws_error V ResourceExhausted True message)\<lparr>ae_details :=
        [''scope'' \<mapsto> DetailText scope] ++ map_of (map (\<lambda>(k, n). (k, DetailNumber n)) limits)\<rparr>"

definition MIB :: nat where "MIB = 1024 * 1024"
definition MAX_CACHED_BUNDLES :: nat where "MAX_CACHED_BUNDLES = 4096"
definition MAX_CACHED_PREPARATIONS :: nat where "MAX_CACHED_PREPARATIONS = 16384"
definition MAX_CACHED_PREPARATION_BYTES :: nat where "MAX_CACHED_PREPARATION_BYTES = 64 * MIB"

definition preparation_cache_capacity_error :: "aws \<Rightarrow> nat \<Rightarrow> aws_error" where
  "preparation_cache_capacity_error V limit_bytes =
     capacity_error V ''hand_preparation_cache_bytes'' ''the in-process session preparation metadata budget is full''
       [(''limit_bytes'', limit_bytes), (''entry_limit'', MAX_CACHED_PREPARATIONS)]"

definition bundle_cache_capacity_error :: "aws \<Rightarrow> nat \<Rightarrow> aws_error" where
  "bundle_cache_capacity_error V limit_bytes =
     capacity_error V ''hand_bundle_cache_bytes'' ''the in-process verified bundle memory budget is full''
       [(''limit_bytes'', limit_bytes)]"

definition bundle_fetch_capacity_error :: "aws \<Rightarrow> nat \<Rightarrow> aws_error" where
  "bundle_fetch_capacity_error V limit_bytes =
     capacity_error V ''hand_bundle_fetch_bytes'' ''the in-process cold bundle fetch budget is full''
       [(''limit_bytes'', limit_bytes)]"

definition bundle_cache_entry_capacity_error :: "aws \<Rightarrow> aws_error" where
  "bundle_cache_entry_capacity_error V =
     capacity_error V ''hand_bundle_cache_entries'' ''the in-process verified bundle entry budget is full''
       [(''limit'', MAX_CACHED_BUNDLES)]"

definition aws_invalid :: "aws \<Rightarrow> string \<Rightarrow> aws_error" where
  "aws_invalid V message = aws_error V InvalidRequest False message"

definition wrong_reply :: "aws \<Rightarrow> string \<Rightarrow> aws_error" where
  "wrong_reply V context = aws_error V InvalidRequest False (''guest returned the wrong '' @ context @ '' reply'')"

definition binding_error :: "aws \<Rightarrow> string \<Rightarrow> aws_error" where
  "binding_error V message = aws_error V BindingConflict False message"

definition generation_error :: "aws \<Rightarrow> aws_error" where
  "generation_error V = aws_error V GenerationConflict False ''request does not match the live sandbox generation''"

definition classify_submit_delivery_error :: "aws \<Rightarrow> aws_error \<Rightarrow> aws_error" where
  "classify_submit_delivery_error V e =
     (if he_code e = SandboxGone
      then aws_error V OperationUnknown False
             ''managed operation delivery became unknown when its physical generation was lost''
      else e)"

text \<open>
  The texts of the materialization errors that reach a caller; the others are only logged and
  replaced by a fixed sentence.
\<close>

fun materialization_error_text :: "materialization_error \<Rightarrow> string" where
  "materialization_error_text (MInvalidIdentity f) = f @ '' does not satisfy the canonical Hand identifier grammar''"
| "materialization_error_text MInvalidLease = ''materialization lease must have a positive, representable duration''"
| "materialization_error_text MInvalidLaunchRequest =
     ''durable provider launch request is empty or exceeds its sealed byte bound''"
| "materialization_error_text MInvalidControlToken = ''generation control token is outside its exact secret boundary''"
| "materialization_error_text MInvalidReplacement = ''only the default target may be replaced after confirmed loss''"
| "materialization_error_text MInvalidCapacity = ''target materialized memory must be a positive bounded MiB value''"
| "materialization_error_text MSpecConflict =
     ''target is sealed to a different connector, image, resource, or network policy''"
| "materialization_error_text (MPending retry) =
     ''target materialization is in progress; retry after '' @ show_nat retry @ '' ms''"
| "materialization_error_text MGone = ''target generation is gone''"
| "materialization_error_text MTerminated = ''target was explicitly terminated''"
| "materialization_error_text (MLaunchRejected m) = ''launch was rejected before target creation: '' @ m"
| "materialization_error_text (MCorrupt m) = ''durable target registry contains an invalid record: '' @ m"
| "materialization_error_text _ = []"

fun materialization_error :: "aws \<Rightarrow> materialization_error \<Rightarrow> aws_error" where
  "materialization_error V (MCapacity scope retry message) =
     (aws_error V ResourceExhausted True message)
       \<lparr>ae_details := [''scope'' \<mapsto> DetailText scope, ''retry_after_ms'' \<mapsto> DetailNumber retry]\<rparr>"
| "materialization_error V (MPending retry) =
     (temporary V (materialization_error_text (MPending retry)))
       \<lparr>ae_details := [''retry_after_ms'' \<mapsto> DetailNumber retry]\<rparr>"
| "materialization_error V MGone = aws_error V SandboxGone False (materialization_error_text MGone)"
| "materialization_error V MTerminated = aws_error V SandboxGone False (materialization_error_text MTerminated)"
| "materialization_error V MSpecConflict =
     aws_error V GenerationConflict False (materialization_error_text MSpecConflict)"
| "materialization_error V (MStorage m) = temporary V ''target registry is temporarily unavailable''"
| "materialization_error V (MLaunchRetryable m) = temporary V ''sandbox launch dependency is temporarily unavailable''"
| "materialization_error V (MLaunchOutcomeUnknown m) =
     temporary V ''sandbox launch outcome is unknown; bounded recovery will reconcile''"
| "materialization_error V (MReservationLost c) =
     temporary V ''target reservation was superseded by a concurrent transition''"
| "materialization_error V (MLaunchRejected m) =
     aws_error V CapabilityUnavailable False (materialization_error_text (MLaunchRejected m))"
| "materialization_error V e = aws_invalid V (materialization_error_text e)"

text \<open>Errors of the provider's control plane (\<open>hand-lambda/src/control.rs\<close>).\<close>

datatype control_failure =
    CCapacity string nat string
  | CThrottled string
  | CRetryable string
  | CGone string
  | CUnknown string
  | CFatal string

fun control_error :: "aws \<Rightarrow> control_failure \<Rightarrow> aws_error" where
  "control_error V (CGone m) = aws_error V SandboxGone False ''sandbox is gone''"
| "control_error V (CCapacity scope retry m) =
     (aws_error V ResourceExhausted True ''sandbox provider capacity is exhausted'')
       \<lparr>ae_details := [''scope'' \<mapsto> DetailText scope, ''retry_after_ms'' \<mapsto> DetailNumber retry]\<rparr>"
| "control_error V (CFatal m) = aws_error V CapabilityUnavailable False ''sandbox provider configuration is invalid''"
| "control_error V _ = temporary V ''sandbox provider is temporarily unavailable''"

section \<open>Validation of requests and seals (\<open>validate.rs\<close>)\<close>

definition RESOURCE_CLASS :: string where "RESOURCE_CLASS = ''microvm-1gb''"
definition MAX_DURATION_SECONDS :: nat where "MAX_DURATION_SECONDS = 8 * 60 * 60"
definition TARGET_MEMORY_MIB :: nat where "TARGET_MEMORY_MIB = 1024"
definition TARGET_LIFETIME_MS :: nat where "TARGET_LIFETIME_MS = MAX_DURATION_SECONDS * 1000"
definition TARGET_LEASE_MS :: nat where "TARGET_LEASE_MS = MAX_DURATION_SECONDS * 1000 + 5 * 60 * 1000"
definition TARGET_ATTEMPT_MS :: nat where "TARGET_ATTEMPT_MS = 30000"
definition TARGET_DISPATCH_WINDOW_MS :: nat where "TARGET_DISPATCH_WINDOW_MS = 4 * 60 * 1000"

definition MAX_PREPARED_BUNDLES :: "aws \<Rightarrow> nat" where "MAX_PREPARED_BUNDLES V = MAX_MODEL_TOOLS V"

fun connector_class_of :: "network_ceiling \<Rightarrow> connector_class" where
  "connector_class_of NetNone = ConnNone"
| "connector_class_of NetPublic = ConnPublic"
| "connector_class_of (NetAllowlist ds) = ConnAllowlist"

definition target_spec_of ::
    "aws \<Rightarrow> string \<Rightarrow> string \<Rightarrow> resource_ceiling \<Rightarrow> network_ceiling \<Rightarrow> string \<Rightarrow> (aws_error, target_spec) result" where
  "target_spec_of V img version resources network resource_class =
     and_then (require (\<not> (rc_max_output_bytes resources > MAX_TOOL_TERMINAL_INLINE_BYTES (aw_brain V)
                           \<or> rc_timeout_ms resources > TARGET_LIFETIME_MS))
         (aws_error V CapabilityUnavailable False
           ''the selected target cannot enforce the requested resource ceiling'')) (\<lambda>_.
     and_then (ok_or (resources_digest V resources) (aws_invalid V ''resource seal cannot be canonicalized'')) (\<lambda>rdigest.
     and_then (ok_or (network_digest V network) (aws_invalid V ''network seal cannot be canonicalized'')) (\<lambda>ndigest.
       map_err (materialization_error V)
         (spec_new (connector_class_of network) (img @ ''@'' @ version) resource_class TARGET_MEMORY_MIB rdigest ndigest))))"

definition validate_resource_ceiling_subset ::
    "aws \<Rightarrow> resource_ceiling \<Rightarrow> resource_ceiling \<Rightarrow> (aws_error, unit) result" where
  "validate_resource_ceiling_subset V request physical =
     require (\<not> (rc_timeout_ms request > rc_timeout_ms physical
                 \<or> rc_max_output_bytes request > rc_max_output_bytes physical))
       (aws_error V GenerationConflict False ''sandbox resources widen the immutable root target seal'')"

definition validate_operation_root_seal ::
    "aws \<Rightarrow> operation_envelope \<Rightarrow> prepare_request \<Rightarrow> (aws_error, unit) result" where
  "validate_operation_root_seal V envelope preparation =
     and_then (validate_resource_ceiling_subset V (oe_resources envelope) (pq_resources preparation)) (\<lambda>_.
       require (network_ceiling_is_subset (aw_brain V) (oe_network envelope) (pq_network preparation))
         (aws_error V GenerationConflict False ''operation network policy widens the immutable root target seal''))"

definition require_exact_root_seal :: "aws \<Rightarrow> create_request \<Rightarrow> prepare_request \<Rightarrow> (aws_error, unit) result" where
  "require_exact_root_seal V q preparation =
     (let refused = aws_error V GenerationConflict False ''default sandbox must use the immutable prepared root seal'' in
      if cq_resource_class q \<noteq> RESOURCE_CLASS then Err refused
      else and_then (ok_or (resources_digest V (cq_resources q))
               (aws_invalid V ''resource seal cannot be canonicalized'')) (\<lambda>r.
           and_then (ok_or (resources_digest V (pq_resources preparation))
               (aws_invalid V ''prepared resource seal cannot be canonicalized'')) (\<lambda>r'.
             if r \<noteq> r' then Err refused
             else and_then (ok_or (network_digest V (cq_network q))
                      (aws_invalid V ''network seal cannot be canonicalized'')) (\<lambda>n.
                  and_then (ok_or (network_digest V (pq_network preparation))
                      (aws_invalid V ''prepared network seal cannot be canonicalized'')) (\<lambda>n'.
                    require (n = n') refused)))))"

definition validate_inline_input :: "aws \<Rightarrow> operation_envelope \<Rightarrow> (aws_error, unit) result" where
  "validate_inline_input V envelope =
     and_then (require (input_is_inline V envelope) (aws_invalid V ''managed Tool input kind must be inline'')) (\<lambda>_.
     and_then (ok_or (jcs_input V envelope) (aws_invalid V ''managed Tool input cannot be canonicalized'')) (\<lambda>encoded.
       require (\<not> length encoded > MAX_MANAGED_TOOL_INPUT_BYTES V)
         (aws_invalid V (''managed Tool input exceeds the '' @ show_nat (MAX_MANAGED_TOOL_INPUT_BYTES V)
            @ ''-byte canonical bound''))))"

text \<open>The environment names and capabilities are refused when one repeats.\<close>

definition validate_managed_binding :: "aws \<Rightarrow> sealed_binding \<Rightarrow> (aws_error, bundle_descriptor) result" where
  "validate_managed_binding V b =
     and_then (ok_or (sb_bundle b) (aws_error V CapabilityUnavailable False
         ''the AWS Hand accepts only Aex-managed immutable Node22 bundles'')) (\<lambda>d.
     and_then (require (\<not> (sb_realm b \<noteq> AexManaged \<or> \<not> bd_node22 d \<or> bd_contract_digest d \<noteq> sb_contract_digest b))
         (aws_error V CapabilityUnavailable False
           ''the AWS Hand accepts only Aex-managed immutable Node22 bundles with an exact contract seal'')) (\<lambda>_.
     and_then (require (\<not> (bd_bytes d > MAX_TOOL_BUNDLE_BYTES (aw_brain V) \<or> bd_object_bytes d \<noteq> bd_bytes d
                           \<or> bd_object_sha256 d \<noteq> bd_bundle_digest d))
         (binding_error V ''bundle descriptor size or object digest conflicts with its immutable bundle seal'')) (\<lambda>_.
     and_then (require (\<not> length (bd_required_env d) > MAX_SESSION_SECRET_NAMES (secret_limits (aw_brain V)))
         (binding_error V ''bundle descriptor exceeds the required environment-name bound'')) (\<lambda>_.
     and_then (require (\<not> (list_ex (\<lambda>name. \<not> environment_name_is_valid (secret_limits (aw_brain V)) name
                             \<or> reserved_tool_environment name) (bd_required_env d) \<or> \<not> distinct (bd_required_env d)))
         (binding_error V ''bundle descriptor has invalid, reserved, or repeated environment names'')) (\<lambda>_.
     and_then (require (distinct (sb_required_capabilities b))
         (binding_error V ''binding repeats a required capability'')) (\<lambda>_.
       Ok d))))))"

record validated_bundle =
  vb_bytes :: nat
  vb_descriptor_digest :: string
  vb_digest :: string

definition validate_prepared_binding_projection ::
    "aws \<Rightarrow> prepared_binding \<Rightarrow> sealed_binding \<Rightarrow> string \<Rightarrow> string \<Rightarrow> (aws_error, validated_bundle) result" where
  "validate_prepared_binding_projection V prepared b root_id session_id =
     and_then (require (\<not> (sb_root_id b \<noteq> root_id \<or> sb_session_id b \<noteq> session_id))
         (binding_error V ''prepared binding is outside the exact root/session scope'')) (\<lambda>_.
     and_then (validate_managed_binding V b) (\<lambda>d.
     and_then (require (pb_bundle_digests prepared = [bd_bundle_digest d])
         (binding_error V ''prepared bundle digests do not match the immutable binding descriptor'')) (\<lambda>_.
     and_then (ok_or (descriptor_digest V d) (binding_error V ''bundle descriptor cannot be canonicalized'')) (\<lambda>dd.
       Ok \<lparr>vb_bytes = bd_bytes d, vb_descriptor_digest = dd, vb_digest = bd_bundle_digest d\<rparr>))))"

definition merge_validated_prepared_bundle ::
    "aws \<Rightarrow> (string \<rightharpoonup> validated_bundle) \<Rightarrow> validated_bundle \<Rightarrow> (aws_error, string \<rightharpoonup> validated_bundle) result" where
  "merge_validated_prepared_bundle V required b =
     and_then (require (\<not> (case required (vb_digest b) of None \<Rightarrow> False
                             | Some existing \<Rightarrow> vb_descriptor_digest existing \<noteq> vb_descriptor_digest b))
         (binding_error V ''one bundle digest is sealed by conflicting immutable descriptors'')) (\<lambda>_.
       Ok (required(vb_digest b \<mapsto> b)))"

text \<open>The digests of a set, in the order in which they are first seen.\<close>

fun add_digests :: "aws \<Rightarrow> string list \<Rightarrow> string list \<Rightarrow> (aws_error, string list) result" where
  "add_digests V [] required = Ok required"
| "add_digests V (d # ds) required =
     (let required = List.insert d required in
      if length required > MAX_PREPARED_BUNDLES V
      then Err (aws_invalid V ''preparation exceeds the unique bundle bound'')
      else add_digests V ds required)"

definition required_bundle_digests :: "aws \<Rightarrow> prepare_request \<Rightarrow> (aws_error, string list) result" where
  "required_bundle_digests V q = add_digests V (concat (map pb_bundle_digests (pq_bindings q))) []"

text \<open>\<open>parse_net\<close> is the parser of an IPv4 network; a port is a \<open>u64\<close> that has to fit a \<open>u16\<close>.\<close>

fun capability_ports :: "aws \<Rightarrow> nat list \<Rightarrow> (aws_error, nat list) result" where
  "capability_ports V [] = Ok []"
| "capability_ports V (p # ps) =
     and_then (require (p < 65536) (aws_invalid V ''allowlist port is invalid'')) (\<lambda>_.
     and_then (capability_ports V ps) (\<lambda>ps. Ok (p # ps)))"

fun capability_destinations ::
    "aws \<Rightarrow> (string \<Rightarrow> 'c option) \<Rightarrow> ceiling_destination list \<Rightarrow> (aws_error, 'c capability_destination list) result" where
  "capability_destinations V parse_net [] = Ok []"
| "capability_destinations V parse_net (CeilingTls host # items) =
     and_then (capability_destinations V parse_net items) (\<lambda>ds.
       Ok (\<lparr>cd_host = Some host, cd_cidr = None, cd_ports = [443], cd_protocol = Tls\<rparr> # ds))"
| "capability_destinations V parse_net (CeilingTcp cidr ports # items) =
     and_then (ok_or (parse_net cidr) (aws_invalid V ''allowlist CIDR is invalid'')) (\<lambda>net.
     and_then (capability_ports V ports) (\<lambda>ps.
     and_then (capability_destinations V parse_net items) (\<lambda>ds.
       Ok (\<lparr>cd_host = None, cd_cidr = Some net, cd_ports = ps, cd_protocol = Tcp\<rparr> # ds))))"

section \<open>Keys and statuses (\<open>status.rs\<close>)\<close>

definition target_key_of :: "aws \<Rightarrow> sandbox_target \<Rightarrow> (aws_error, target_key) result" where
  "target_key_of V t =
     (case (st_kind t, st_sandbox_id t) of
        (DefaultKind, None) \<Rightarrow> map_err (materialization_error V) (for_default_target (st_root_id t))
      | (AdditionalKind, sandbox_id) \<Rightarrow>
          and_then (ok_or sandbox_id (aws_invalid V ''additional target requires sandbox_id'')) (\<lambda>sid.
            map_err (materialization_error V) (additional (st_root_id t) sid))
      | (DefaultKind, Some _) \<Rightarrow> Err (aws_invalid V ''default target cannot carry sandbox_id''))"

definition default_target :: "operation_envelope \<Rightarrow> sandbox_target" where
  "default_target envelope =
     \<lparr>st_binding_ref = oe_binding_ref envelope, st_kind = DefaultKind, st_root_id = oe_root_id envelope,
      st_sandbox_id = None, st_session_id = oe_session_id envelope\<rparr>"

datatype sandbox_state =
  NeverMaterialized | Creating | RunningSandbox | SuspendedSandbox | GoneSandbox | TerminatedSandbox

record sandbox_status =
  ss_changed_at_ms :: "nat option"
  ss_expires_at_ms :: "nat option"
  ss_status_generation :: "string option"
  ss_reason :: "string option"
  ss_state :: sandbox_state
  ss_target :: sandbox_target
  ss_target_ref :: "string option"

text \<open>\<open>NonZeroU64::new\<close>.\<close>

definition non_zero :: "nat \<Rightarrow> nat option" where
  "non_zero n = (if n = 0 then None else Some n)"

definition status_from_record :: "sandbox_target \<Rightarrow> durable_target_record option \<Rightarrow> sandbox_status" where
  "status_from_record t r =
     (case r of
        None \<Rightarrow> \<lparr>ss_changed_at_ms = None, ss_expires_at_ms = None, ss_status_generation = None, ss_reason = None,
                 ss_state = NeverMaterialized, ss_target = t, ss_target_ref = None\<rparr>
      | Some r \<Rightarrow>
          (case dr_state r of
             Materializing rid lr aid aexp texp lexp \<Rightarrow>
               \<lparr>ss_changed_at_ms = Some (dr_updated_at_ms r), ss_expires_at_ms = non_zero texp,
                ss_status_generation = Some (dr_generation r), ss_reason = None, ss_state = Creating, ss_target = t,
                ss_target_ref = None\<rparr>
           | Installed tref ct iat exp \<Rightarrow>
               \<lparr>ss_changed_at_ms = Some (dr_updated_at_ms r), ss_expires_at_ms = non_zero exp,
                ss_status_generation = Some (dr_generation r), ss_reason = None, ss_state = RunningSandbox, ss_target = t,
                ss_target_ref = Some tref\<rparr>
           | Closed d reason at \<Rightarrow>
               \<lparr>ss_changed_at_ms = Some (dr_updated_at_ms r), ss_expires_at_ms = None,
                ss_status_generation = Some (dr_generation r), ss_reason = Some reason,
                ss_state = (case d of Lost \<Rightarrow> GoneSandbox | Terminated \<Rightarrow> TerminatedSandbox), ss_target = t,
                ss_target_ref = None\<rparr>))"

datatype microvm_state =
  VmPending | VmRunning | VmSuspending | VmSuspended | VmTerminating | VmTerminated | VmOther string

fun sandbox_state_from_provider :: "aws \<Rightarrow> microvm_state \<Rightarrow> (aws_error, sandbox_state) result" where
  "sandbox_state_from_provider V VmRunning = Ok RunningSandbox"
| "sandbox_state_from_provider V VmPending = Ok Creating"
| "sandbox_state_from_provider V VmSuspended = Ok SuspendedSandbox"
| "sandbox_state_from_provider V VmSuspending = Err (temporary V ''sandbox suspension is still in progress'')"
| "sandbox_state_from_provider V VmTerminated =
     Err (aws_error V SandboxGone False ''provider reports physical generation gone'')"
| "sandbox_state_from_provider V VmTerminating = Err (temporary V ''sandbox termination is still in progress'')"
| "sandbox_state_from_provider V (VmOther s) = Err (temporary V ''sandbox provider returned an unsupported state'')"

definition running_status :: "sandbox_target \<Rightarrow> installed_target \<Rightarrow> sandbox_status" where
  "running_status t i =
     \<lparr>ss_changed_at_ms = Some (it_installed_at_ms i), ss_expires_at_ms = non_zero (it_expires_at_ms i),
      ss_status_generation = Some (it_generation i), ss_reason = None, ss_state = RunningSandbox, ss_target = t,
      ss_target_ref = Some (it_target_ref i)\<rparr>"

definition closed_status :: "sandbox_state \<Rightarrow> nat \<Rightarrow> sandbox_target \<Rightarrow> installed_target \<Rightarrow> string \<Rightarrow> sandbox_status" where
  "closed_status state now t i reason =
     \<lparr>ss_changed_at_ms = Some now, ss_expires_at_ms = None, ss_status_generation = Some (it_generation i),
      ss_reason = Some reason, ss_state = state, ss_target = t, ss_target_ref = None\<rparr>"

definition gone_status :: "nat \<Rightarrow> sandbox_target \<Rightarrow> installed_target \<Rightarrow> string \<Rightarrow> sandbox_status" where
  "gone_status = closed_status GoneSandbox"

definition terminated_status :: "nat \<Rightarrow> sandbox_target \<Rightarrow> installed_target \<Rightarrow> string \<Rightarrow> sandbox_status" where
  "terminated_status = closed_status TerminatedSandbox"

end
