(* ===== verification/Provider_Control.thy ===== *)
theory Provider_Control
  imports Aws_Requests
begin

section \<open>Lifecycle control of the provider (\<open>hand-lambda/src/control.rs\<close>)\<close>

text \<open>
  The classification of the provider's answers, the token buckets that pace its state-changing calls, the
  bounded retry of throttled calls, and the sealed request with its validation. An instant is the
  number of nanoseconds since an epoch; the provider's answers and the instants of the calls are inputs.
\<close>

subsection \<open>Classification\<close>

definition MAX_IDLE_SECONDS :: nat where "MAX_IDLE_SECONDS = 180"

definition is_gone :: "microvm_state \<Rightarrow> bool" where
  "is_gone s \<longleftrightarrow> s = VmTerminating \<or> s = VmTerminated"

definition is_terminated :: "microvm_state \<Rightarrow> bool" where
  "is_terminated s \<longleftrightarrow> s = VmTerminated"

text \<open>\<open>None\<close> is a transport failure; \<open>effect\<close> says whether the call changes state.\<close>

definition classify :: "string option \<Rightarrow> string \<Rightarrow> bool \<Rightarrow> control_failure" where
  "classify ec message effect =
     (case ec of
        None \<Rightarrow> if effect then CUnknown message else CRetryable message
      | Some ec \<Rightarrow>
          if ec = ''ResourceNotFoundException'' then CGone message
          else if ec \<in> {''ServiceQuotaExceededException'', ''ResourceLimitExceededException''} then CCapacity ec 5000 message
          else if ec \<in> {''InsufficientCapacityException'', ''InsufficientInstanceCapacity''} then CCapacity ec 1000 message
          else if ec \<in> {''ThrottlingException'', ''TooManyRequestsException''} then CThrottled message
          else if ec \<in> {''InternalServerException'', ''ServiceUnavailableException''}
          then (if effect then CUnknown message else CRetryable message)
          else if ec = ''ConflictException'' \<and> effect then CUnknown message
          else CFatal message)"

datatype sdk_failure =
    SdkService "string option" "string option"
  | SdkConstruction
  | SdkTransport string

fun sdk_error :: "sdk_failure \<Rightarrow> bool \<Rightarrow> control_failure" where
  "sdk_error (SdkService ec message) effect =
     classify ec (case message of None \<Rightarrow> ''service error'' | Some m \<Rightarrow> m) effect"
| "sdk_error SdkConstruction effect = CFatal ''request construction''"
| "sdk_error (SdkTransport m) effect = classify None m effect"

definition effect_error :: "sdk_failure \<Rightarrow> control_failure" where "effect_error e = sdk_error e True"
definition read_error :: "sdk_failure \<Rightarrow> control_failure" where "read_error e = sdk_error e False"

subsection \<open>Pacing\<close>

record control_pacing_config =
  run_rate_per_second :: nat
  run_burst :: nat
  resume_rate_per_second :: nat
  resume_burst :: nat
  suspend_rate_per_second :: nat
  suspend_burst :: nat
  terminate_rate_per_second :: nat
  terminate_burst :: nat

definition default_pacing :: control_pacing_config where
  "default_pacing =
     \<lparr>run_rate_per_second = 1, run_burst = 1, resume_rate_per_second = 5, resume_burst = 5,
      suspend_rate_per_second = 2, suspend_burst = 2, terminate_rate_per_second = 10, terminate_burst = 10\<rparr>"

definition pacing_value :: "(string \<Rightarrow> string option) \<Rightarrow> string \<Rightarrow> nat \<Rightarrow> nat \<Rightarrow> (string, nat) result" where
  "pacing_value lookup name preset maximum =
     (let raw = (case lookup name of None \<Rightarrow> show_nat preset | Some s \<Rightarrow> s) in
      and_then (ok_or (parse_uint 4294967295 raw) (name @ '' must be an integer from 1 through '' @ show_nat maximum)) (\<lambda>parsed.
      and_then (require (1 \<le> parsed \<and> parsed \<le> maximum) (name @ '' must be from 1 through '' @ show_nat maximum)) (\<lambda>_.
        Ok parsed)))"

definition pacing_from_lookup :: "(string \<Rightarrow> string option) \<Rightarrow> (string, control_pacing_config) result" where
  "pacing_from_lookup lookup =
     and_then (pacing_value lookup ''HAND_PROVIDER_RUN_RATE_PER_SECOND'' (run_rate_per_second default_pacing) 5) (\<lambda>rr.
     and_then (pacing_value lookup ''HAND_PROVIDER_RUN_BURST'' (run_burst default_pacing) 5) (\<lambda>rb.
     and_then (pacing_value lookup ''HAND_PROVIDER_RESUME_RATE_PER_SECOND'' (resume_rate_per_second default_pacing) 5) (\<lambda>er.
     and_then (pacing_value lookup ''HAND_PROVIDER_RESUME_BURST'' (resume_burst default_pacing) 5) (\<lambda>eb.
     and_then (pacing_value lookup ''HAND_PROVIDER_SUSPEND_RATE_PER_SECOND'' (suspend_rate_per_second default_pacing) 2) (\<lambda>sr.
     and_then (pacing_value lookup ''HAND_PROVIDER_SUSPEND_BURST'' (suspend_burst default_pacing) 2) (\<lambda>sb.
     and_then (pacing_value lookup ''HAND_PROVIDER_TERMINATE_RATE_PER_SECOND'' (terminate_rate_per_second default_pacing) 10) (\<lambda>tr.
     and_then (pacing_value lookup ''HAND_PROVIDER_TERMINATE_BURST'' (terminate_burst default_pacing) 10) (\<lambda>tb.
       Ok \<lparr>run_rate_per_second = rr, run_burst = rb, resume_rate_per_second = er, resume_burst = eb,
           suspend_rate_per_second = sr, suspend_burst = sb, terminate_rate_per_second = tr, terminate_burst = tb\<rparr>))))))))"

text \<open>A bucket: the interval of its rate, its burst, and the theoretical arrival of the next call.\<close>

record token_bucket =
  tb_interval :: nat
  tb_burst :: nat
  tb_arrival :: "nat option"

definition bucket_new :: "nat \<Rightarrow> nat \<Rightarrow> token_bucket" where
  "bucket_new rate burst = \<lparr>tb_interval = 1000000000 div rate, tb_burst = burst, tb_arrival = None\<rparr>"

definition bucket_reserve :: "token_bucket \<Rightarrow> nat \<Rightarrow> nat \<times> token_bucket" where
  "bucket_reserve b now =
     (let prior = (case tb_arrival b of None \<Rightarrow> now | Some a \<Rightarrow> a);
          tolerance = tb_interval b * (tb_burst b - 1);
          earliest = (case checked_sub prior tolerance of None \<Rightarrow> now | Some e \<Rightarrow> e);
          admitted_at = max earliest now
      in (admitted_at - now, b\<lparr>tb_arrival := Some (max prior admitted_at + tb_interval b)\<rparr>))"

text \<open>The instants at which calls that ask at the given instants are let through.\<close>

fun admissions :: "token_bucket \<Rightarrow> nat list \<Rightarrow> nat list" where
  "admissions b [] = []"
| "admissions b (t # ts) = (case bucket_reserve b t of (delay, b) \<Rightarrow> (t + delay) # admissions b ts)"

definition MAX_ATTEMPTS :: nat where "MAX_ATTEMPTS = 4"

definition jittered_throttle_backoff :: "nat \<Rightarrow> nat \<Rightarrow> nat" where
  "jittered_throttle_backoff attempt entropy = entropy mod (min (100 * 2 ^ min attempt 4) 2000 + 1)"

text \<open>
  The loop of \<open>paced\<close> from its attempt \<open>k\<close>: each attempt asks the bucket at an instant and gets an answer. The
  outcome is \<open>None\<close> while an answer is outstanding.
\<close>

fun paced ::
    "token_bucket \<Rightarrow> nat \<Rightarrow> (nat \<times> (control_failure, 'a) result) list
      \<Rightarrow> (control_failure, 'a) result option \<times> nat list \<times> token_bucket" where
  "paced b k [] = (None, [], b)"
| "paced b k ((t, r) # rest) =
     (case bucket_reserve b t of (delay, b) \<Rightarrow>
        if (\<exists>m. r = Err (CThrottled m)) \<and> k + 1 < MAX_ATTEMPTS
        then (case paced b (k + 1) rest of (out, sent, b) \<Rightarrow> (out, (t + delay) # sent, b))
        else (Some r, [t + delay], b))"

subsection \<open>The sealed request\<close>

record exact_run_request =
  er_image_identifier :: string
  er_image_version :: string
  er_ingress_network_connector :: string
  er_egress_network_connector :: string
  er_max_idle_duration_seconds :: nat
  er_suspended_duration_seconds :: nat
  er_auto_resume_enabled :: bool
  er_maximum_duration_seconds :: nat
  er_run_hook_payload :: string
  er_client_token :: string

definition ALL_INGRESS :: string where "ALL_INGRESS = ''ALL_INGRESS''"

definition connector_arn :: "string \<Rightarrow> string \<Rightarrow> string" where
  "connector_arn region name =
     (if take 4 name = ''arn:'' then name
      else ''arn:aws:lambda:'' @ region @ '':aws:network-connector:aws-network-connector:'' @ name)"

definition exact_run_request :: "string \<Rightarrow> string \<Rightarrow> string \<Rightarrow> string \<Rightarrow> string \<Rightarrow> string \<Rightarrow> exact_run_request" where
  "exact_run_request region image_arn image_version run_hook_payload client_token egress_connector =
     \<lparr>er_image_identifier = image_arn, er_image_version = image_version,
      er_ingress_network_connector = connector_arn region ALL_INGRESS,
      er_egress_network_connector = connector_arn region egress_connector,
      er_max_idle_duration_seconds = MAX_IDLE_SECONDS, er_suspended_duration_seconds = MAX_DURATION_SECONDS,
      er_auto_resume_enabled = True, er_maximum_duration_seconds = MAX_DURATION_SECONDS,
      er_run_hook_payload = run_hook_payload, er_client_token = client_token\<rparr>"

definition validate_exact_run_request :: "string \<Rightarrow> exact_run_request \<Rightarrow> (control_failure, unit) result" where
  "validate_exact_run_request region r =
     require (\<not> (er_image_identifier r = [] \<or> er_image_version r = []
       \<or> er_ingress_network_connector r \<noteq> connector_arn region ALL_INGRESS
       \<or> er_egress_network_connector r = [] \<or> er_run_hook_payload r = [] \<or> er_client_token r = []
       \<or> length (er_client_token r) > 128 \<or> er_max_idle_duration_seconds r = 0
       \<or> er_max_idle_duration_seconds r > er_maximum_duration_seconds r \<or> er_suspended_duration_seconds r = 0
       \<or> er_suspended_duration_seconds r > MAX_DURATION_SECONDS \<or> er_maximum_duration_seconds r = 0
       \<or> er_maximum_duration_seconds r > MAX_DURATION_SECONDS \<or> \<not> er_auto_resume_enabled r))
     (CFatal ''sealed RunMicrovm request is outside the supported boundary'')"

subsection \<open>The rate of a bucket\<close>

lemma bucket_reserve_laws:
  assumes "bucket_reserve b now = (delay, b')"
  shows "tb_interval b' = tb_interval b" and "tb_burst b' = tb_burst b"
    and "\<exists>a. tb_arrival b' = Some a \<and> now + delay + tb_interval b \<le> a
      \<and> (\<forall>p. tb_arrival b = Some p \<longrightarrow> p + tb_interval b \<le> a \<and> p \<le> now + delay + tb_interval b * (tb_burst b - 1))"
  using assms by (auto simp: bucket_reserve_def Let_def checked_sub_def split: option.splits if_splits)

text \<open>The call after \<open>j\<close> others is let through no earlier than \<open>j\<close> intervals after \<open>a\<close>, less the tolerance.\<close>

lemma admissions_after:
  assumes "tb_arrival b = Some a" and "j < length ts"
  shows "a + j * tb_interval b \<le> admissions b ts ! j + tb_interval b * (tb_burst b - 1)"
  using assms
proof (induction ts arbitrary: b a j)
  case (Cons t ts)
  obtain delay b' where r: "bucket_reserve b t = (delay, b')" by (rule prod.exhaust)
  note L = bucket_reserve_laws [OF r]
  obtain a' where a': "tb_arrival b' = Some a'" "a + tb_interval b \<le> a'" "a \<le> t + delay + tb_interval b * (tb_burst b - 1)"
    using L(3) Cons.prems(1) by auto
  show ?case
  proof (cases j)
    case 0
    then show ?thesis using a'(3) r by simp
  next
    case (Suc i)
    then have "a' + i * tb_interval b \<le> admissions b' ts ! i + tb_interval b * (tb_burst b - 1)"
      using Cons.IH [OF a'(1), of i] Cons.prems(2) L(1,2) by simp
    then show ?thesis using a'(2) Suc r by simp
  qed
qed simp

lemma admissions_length [simp]: "length (admissions b ts) = length ts"
  by (induction ts arbitrary: b) (simp_all split: prod.splits)

lemma admissions_not_early: "i < length ts \<Longrightarrow> ts ! i \<le> admissions b ts ! i"
  by (induction ts arbitrary: b i) (auto simp: nth_Cons split: prod.splits nat.splits)

lemma admissions_spaced:
  assumes "i < j" and "j < length ts"
  shows "admissions b ts ! i + (j - i) * tb_interval b \<le> admissions b ts ! j + tb_interval b * (tb_burst b - 1)"
  using assms
proof (induction ts arbitrary: b i j)
  case (Cons t ts)
  obtain delay b' where r: "bucket_reserve b t = (delay, b')" by (rule prod.exhaust)
  note L = bucket_reserve_laws [OF r]
  obtain k where k: "j = Suc k" "k < length ts" using Cons.prems by (cases j) auto
  show ?case
  proof (cases i)
    case 0
    obtain a where a: "tb_arrival b' = Some a" "t + delay + tb_interval b \<le> a" using L(3) by blast
    have "a + k * tb_interval b \<le> admissions b' ts ! k + tb_interval b * (tb_burst b - 1)"
      using admissions_after [OF a(1) k(2)] L(1,2) by simp
    then show ?thesis using a(2) 0 k r by simp
  next
    case (Suc i')
    then show ?thesis using Cons.IH [of i' k b'] Cons.prems k r L(1,2) by simp
  qed
qed simp

subsection \<open>Retries\<close>

lemma paced_laws:
  assumes "paced b k answers = (out, sent, b')" and "k < MAX_ATTEMPTS"
  shows "k + length sent \<le> MAX_ATTEMPTS \<and> length sent \<le> length answers
    \<and> (\<forall>i. Suc i < length sent \<longrightarrow> (\<exists>m. snd (answers ! i) = Err (CThrottled m)))
    \<and> (\<forall>r. out = Some r \<longrightarrow> sent \<noteq> [] \<and> r = snd (answers ! (length sent - 1))
         \<and> ((\<exists>m. r = Err (CThrottled m)) \<longrightarrow> k + length sent = MAX_ATTEMPTS))"
  using assms
proof (induction answers arbitrary: b k out sent b')
  case (Cons x rest)
  obtain t r where x: "x = (t, r)" by (rule prod.exhaust)
  obtain delay b1 where b1: "bucket_reserve b t = (delay, b1)" by (rule prod.exhaust)
  show ?case
  proof (cases "(\<exists>m. r = Err (CThrottled m)) \<and> k + 1 < MAX_ATTEMPTS")
    case True
    obtain out' sent' b2 where p: "paced b1 (k + 1) rest = (out', sent', b2)" by (metis prod_cases3)
    then have eq: "out = out'" "sent = (t + delay) # sent'" using Cons.prems(1) x b1 True by auto
    have IH: "k + 1 + length sent' \<le> MAX_ATTEMPTS" "length sent' \<le> length rest"
        "\<forall>i. Suc i < length sent' \<longrightarrow> (\<exists>m. snd (rest ! i) = Err (CThrottled m))"
        "\<forall>r. out' = Some r \<longrightarrow> sent' \<noteq> [] \<and> r = snd (rest ! (length sent' - 1))
         \<and> ((\<exists>m. r = Err (CThrottled m)) \<longrightarrow> k + 1 + length sent' = MAX_ATTEMPTS)"
      using Cons.IH [OF p] True by blast+
    have "\<forall>i. Suc i < length sent \<longrightarrow> (\<exists>m. snd ((x # rest) ! i) = Err (CThrottled m))"
      using IH(3) True x eq(2) by (auto simp: nth_Cons split: nat.splits)
    moreover have "(x # rest) ! (length sent - 1) = rest ! (length sent' - 1)" if "sent' \<noteq> []"
      using that eq(2) by (cases sent') simp_all
    ultimately show ?thesis using IH eq by auto
  next
    case False
    then have "out = Some r" "sent = [t + delay]" using Cons.prems(1) x b1 by auto
    then show ?thesis using False Cons.prems(2) x by (auto simp: MAX_ATTEMPTS_def)
  qed
qed simp

end
