(* ===== verification/Provider_Launch.thy ===== *)
theory Provider_Launch
  imports Provider_Control Guest_Target Capability Connector Memory_Registry
begin

section \<open>Sealed launches (\<open>hand-brain-aws/src/launcher.rs\<close>)\<close>

text \<open>
  The request to the provider is built, sealed into the reservation and replayed exactly, by the attempt that
  reserved and by every attempt that recovers. \<open>launch_codec\<close> has what \<open>serde\<close> derives for the two
  documents; the clock, the random control token, the image and the signature of the key service are
  inputs.
\<close>

record sealed_launch =
  sl_image_identity :: string
  sl_dispatch_deadline_at_ms :: nat
  sl_request :: exact_run_request

record launch_codec =
  sealed_to_json :: "sealed_launch \<Rightarrow> bytes option"
  sealed_from_json :: "string \<Rightarrow> sealed_launch option"
  payload_to_json :: "run_payload \<Rightarrow> string option"
  payload_from_json :: "string \<Rightarrow> run_payload option"

record generation_launcher =
  gl_key :: target_key
  gl_owner_session_id :: string
  gl_resources :: resource_ceiling
  gl_network :: network_ceiling
  gl_resource_class :: string

definition from_durable :: "launch_codec \<Rightarrow> materialization_lease \<Rightarrow> (materialization_error, generation_launcher) result" where
  "from_durable K lease =
     and_then (ok_or (sealed_from_json K (lr_expose (ml_launch_request lease)))
         (MLaunchOutcomeUnknown ''durable provider launch request is corrupt'')) (\<lambda>sealed.
     and_then (ok_or (payload_from_json K (er_run_hook_payload (sl_request sealed)))
         (MLaunchOutcomeUnknown ''durable run payload is corrupt'')) (\<lambda>payload.
       Ok \<lparr>gl_key = ml_key lease, gl_owner_session_id = rp_owner_session_id payload, gl_resources = rp_resources payload,
           gl_network = rp_network payload, gl_resource_class = rp_resource_class payload\<rparr>))"

subsection \<open>The dispatch window\<close>

definition launch_dispatch_deadline :: "materialization_lease \<Rightarrow> (materialization_error, nat) result" where
  "launch_dispatch_deadline lease =
     and_then (ok_or (checked_sub (ml_target_expires_at_ms lease) TARGET_LIFETIME_MS) MInvalidLease) (\<lambda>reserved_at.
     and_then (ok_or (checked_add reserved_at TARGET_DISPATCH_WINDOW_MS) MInvalidLease) (\<lambda>deadline.
     and_then (require (\<not> (deadline \<ge> ml_lease_expires_at_ms lease
                 \<or> saturating_sub (ml_lease_expires_at_ms lease) deadline < TARGET_LIFETIME_MS)) MInvalidLease) (\<lambda>_.
       Ok deadline)))"

definition admit_provider_dispatch :: "materialization_lease \<Rightarrow> nat \<Rightarrow> nat \<Rightarrow> (launch_error, unit) result" where
  "admit_provider_dispatch lease deadline now =
     (if now \<le> deadline then Ok ()
      else if ml_recovery_attempt lease
      then Err (LOutcomeUnknown ''exact launch recovery window elapsed; possible target remains capacity-fenced'')
      else Err (LKnownNoTarget ''provider dispatch deadline elapsed before the first RunMicrovm call''))"

subsection \<open>Sealing\<close>

definition random_identifier :: "string \<Rightarrow> string \<Rightarrow> string" where
  "random_identifier tag hex = tag @ ''-'' @ hex"

definition launch_sandbox_identity :: "aws \<Rightarrow> target_key \<Rightarrow> (aws_error, string) result" where
  "launch_sandbox_identity V k =
     map_err (\<lambda>_. aws_invalid V ''target key has an unrecognized shape'') (sandbox_identity k)"

text \<open>The capability of a target with an allowlist; it expires with the target.\<close>

definition launch_capability ::
    "aws \<Rightarrow> (string \<Rightarrow> 'c option) \<Rightarrow> generation_launcher \<Rightarrow> materialization_lease \<Rightarrow> ceiling_destination list \<Rightarrow> nat
      \<Rightarrow> (aws_error, 'c capability) result" where
  "launch_capability V parse_net L lease destinations issued_at =
     and_then (launch_sandbox_identity V (gl_key L)) (\<lambda>sid.
     and_then (capability_destinations V parse_net destinations) (\<lambda>ds.
       Ok \<lparr>cap_root_id = tk_root_id (gl_key L), cap_session_id = gl_owner_session_id L, cap_sandbox_id = sid,
           cap_generation = ml_generation lease, cap_issued_at_ms = issued_at,
           cap_expires_at_ms = ml_target_expires_at_ms lease,
           cap_policy_digest = the (network_digest V (gl_network L)), cap_destinations = ds\<rparr>))"

text \<open>\<open>sign_capability\<close>: \<open>signature\<close> is the answer of the key service for the payload.\<close>

definition sign_capability ::
    "aws \<Rightarrow> 'c egress_env \<Rightarrow> 'c capability_codec \<Rightarrow> (bytes \<Rightarrow> (aws_error, bytes) result) \<Rightarrow> 'c capability
      \<Rightarrow> (aws_error, string) result" where
  "sign_capability V env k signature c =
     and_then (map_err (\<lambda>_. aws_invalid V ''network capability is invalid'') (unsigned_capability_bytes env k c)) (\<lambda>payload.
     and_then (signature payload) (\<lambda>s.
       map_err (\<lambda>_. aws_invalid V ''sealed network policy cannot fit the gateway transport bound'')
         (encode_signed_token k payload s)))"

definition launch_payload ::
    "aws \<Rightarrow> generation_launcher \<Rightarrow> materialization_lease \<Rightarrow> control_token \<Rightarrow> allowlist_proxy option \<Rightarrow> run_payload" where
  "launch_payload V L lease token proxy =
     \<lparr>rp_contract_digest = trim (HAND_CONTRACT_DIGEST (aw_brain V)), rp_generation = ml_generation lease,
      rp_expires_at_ms = ml_target_expires_at_ms lease, rp_root_id = tk_root_id (gl_key L),
      rp_owner_session_id = gl_owner_session_id L, rp_connector = connector_class_of (gl_network L),
      rp_resource_class = gl_resource_class L, rp_resources = gl_resources L, rp_network = gl_network L,
      rp_control_token = token, rp_allowlist_proxy = proxy, rp_canary_exit = None\<rparr>"

text \<open>What a deployment and one call provide: \<open>li_proxy\<close> is the signed token of an allowlist.\<close>

record launch_inputs =
  li_region :: string
  li_image_arn :: "(aws_error, string) result"
  li_image_version :: string
  li_connectors :: "connector_class \<Rightarrow> string"
  li_authority :: gateway_authority
  li_signed :: "generation_launcher \<Rightarrow> materialization_lease \<Rightarrow> ceiling_destination list \<Rightarrow> (aws_error, string) result"
  li_token :: control_token

definition launch_proxy ::
    "launch_inputs \<Rightarrow> generation_launcher \<Rightarrow> materialization_lease \<Rightarrow> (aws_error, allowlist_proxy option) result" where
  "launch_proxy I L lease =
     (case gl_network L of
        NetAllowlist destinations \<Rightarrow>
          and_then (li_signed I L lease destinations) (\<lambda>token.
            Ok (Some \<lparr>ap_capability = token, ap_authority = as_authority (li_authority I)\<rparr>))
      | _ \<Rightarrow> Ok None)"

definition sealed_request ::
    "launch_inputs \<Rightarrow> materialization_lease \<Rightarrow> run_payload \<Rightarrow> string \<Rightarrow> string \<Rightarrow> nat \<Rightarrow> sealed_launch" where
  "sealed_request I lease pay image_arn encoded deadline =
     \<lparr>sl_image_identity = ts_image_identity (ml_spec lease), sl_dispatch_deadline_at_ms = deadline,
      sl_request = exact_run_request (li_region I) image_arn (li_image_version I) encoded (ml_reservation_id lease)
        (li_connectors I (rp_connector pay))\<rparr>"

definition seal_launch ::
    "aws \<Rightarrow> launch_codec \<Rightarrow> launch_inputs \<Rightarrow> generation_launcher \<Rightarrow> materialization_lease \<Rightarrow> (aws_error, launch_request) result" where
  "seal_launch V K I L lease =
     and_then (launch_proxy I L lease) (\<lambda>proxy.
     (let payload = launch_payload V L lease (li_token I) proxy in
     and_then (li_image_arn I) (\<lambda>image_arn.
     and_then (ok_or (payload_to_json K payload) (aws_invalid V ''provider launch payload cannot be encoded'')) (\<lambda>encoded.
     and_then (map_err (Aws_Requests.materialization_error V) (launch_dispatch_deadline lease)) (\<lambda>deadline.
     and_then (ok_or (sealed_to_json K (sealed_request I lease payload image_arn encoded deadline))
         (aws_invalid V ''provider launch request cannot be sealed'')) (\<lambda>bytes.
     and_then (require (utf8_valid bytes) (aws_invalid V ''provider launch request is not UTF-8'')) (\<lambda>_.
       map_err (\<lambda>e. Aws_Requests.materialization_error V (from_secret_error e)) (launch_request_new bytes))))))))"

subsection \<open>Replay\<close>

definition decode_launch ::
    "aws \<Rightarrow> launch_codec \<Rightarrow> string \<Rightarrow> materialization_lease \<Rightarrow> (launch_error, sealed_launch) result" where
  "decode_launch V K zone lease =
     and_then (ok_or (sealed_from_json K (lr_expose (ml_launch_request lease)))
         (LOutcomeUnknown ''durable launch request is corrupt'')) (\<lambda>sealed.
     and_then (ok_or (payload_from_json K (er_run_hook_payload (sl_request sealed)))
         (LOutcomeUnknown ''durable run payload is corrupt'')) (\<lambda>payload.
     and_then (ok_or (resources_digest V (rp_resources payload)) (LOutcomeUnknown ''durable resource seal is corrupt'')) (\<lambda>rdigest.
     and_then (ok_or (network_digest V (rp_network payload)) (LOutcomeUnknown ''durable network seal is corrupt'')) (\<lambda>ndigest.
     and_then (map_err (\<lambda>e. LOutcomeUnknown (materialization_error_text e)) (launch_dispatch_deadline lease)) (\<lambda>expected.
     and_then (require (\<not> (rp_contract_digest payload \<noteq> trim (HAND_CONTRACT_DIGEST (aw_brain V))
           \<or> rp_generation payload \<noteq> ml_generation lease \<or> rp_expires_at_ms payload \<noteq> ml_target_expires_at_ms lease
           \<or> rp_root_id payload \<noteq> tk_root_id (ml_key lease) \<or> rp_connector payload \<noteq> ts_connector (ml_spec lease)
           \<or> rp_resource_class payload \<noteq> ts_resource_class (ml_spec lease)
           \<or> sl_image_identity sealed \<noteq> ts_image_identity (ml_spec lease)
           \<or> sl_dispatch_deadline_at_ms sealed \<noteq> expected
           \<or> rdigest \<noteq> ts_resource_policy_digest (ml_spec lease) \<or> ndigest \<noteq> ts_network_policy_digest (ml_spec lease)
           \<or> rp_canary_exit payload \<noteq> None \<or> er_image_identifier (sl_request sealed) = []
           \<or> er_client_token (sl_request sealed) \<noteq> ml_reservation_id lease))
         (LOutcomeUnknown ''durable provider launch request conflicts with the target seal'')) (\<lambda>_.
     and_then (map_err (\<lambda>_. LOutcomeUnknown ''durable provider request is outside the sealed exact RunMicrovm boundary'')
         (validate_exact_run_request zone (sl_request sealed))) (\<lambda>_.
       Ok sealed)))))))"

fun launch_failure :: "control_failure \<Rightarrow> launch_error" where
  "launch_failure (CCapacity scope retry m) = LCapacity scope retry m"
| "launch_failure (CUnknown m) = LOutcomeUnknown m"
| "launch_failure (CRetryable m) = LRetryableKnownNoTarget m"
| "launch_failure (CThrottled m) = LRetryableKnownNoTarget m"
| "launch_failure (CFatal m) = LKnownNoTarget m"
| "launch_failure (CGone m) = LKnownNoTarget m"

text \<open>The checks before the provider is called; what is called with is the request and the token of its payload.\<close>

definition launch_admit ::
    "aws \<Rightarrow> launch_codec \<Rightarrow> string \<Rightarrow> materialization_lease \<Rightarrow> nat \<Rightarrow> (launch_error, exact_run_request \<times> control_token) result" where
  "launch_admit V K zone lease now =
     and_then (decode_launch V K zone lease) (\<lambda>sealed.
     and_then (ok_or (payload_from_json K (er_run_hook_payload (sl_request sealed)))
         (LOutcomeUnknown ''durable run payload is corrupt'')) (\<lambda>payload.
     and_then (admit_provider_dispatch lease (sl_dispatch_deadline_at_ms sealed) now) (\<lambda>_.
       Ok (sl_request sealed, rp_control_token payload))))"

text \<open>\<open>answer\<close> is the identity of the machine that the provider returned.\<close>

definition launch_answer ::
    "materialization_lease \<Rightarrow> control_token \<Rightarrow> (control_failure, string) result \<Rightarrow> (launch_error, physical_target) result" where
  "launch_answer lease token answer =
     and_then (map_err launch_failure answer) (\<lambda>microvm_id.
       map_err (\<lambda>e. LOutcomeUnknown (materialization_error_text e)) (physical_new microvm_id (ml_generation lease) token))"

definition launch ::
    "aws \<Rightarrow> launch_codec \<Rightarrow> string \<Rightarrow> materialization_lease \<Rightarrow> nat \<Rightarrow> (exact_run_request \<Rightarrow> (control_failure, string) result)
      \<Rightarrow> (launch_error, physical_target) result" where
  "launch V K zone lease now provider =
     and_then (launch_admit V K zone lease now) (\<lambda>(request, token). launch_answer lease token (provider request))"

text \<open>
  The same launch with the pacing of its provider call and the bucket of that pacing: the window is checked once, at
  \<open>now\<close>, and only then the call asks the bucket and waits, before each of its attempts. \<open>answers\<close> has for every attempt
  the instant at which it asks, in nanoseconds, and what the provider then answers; the result has the instants at which the call is sent.
\<close>

definition run_exact ::
    "string \<Rightarrow> token_bucket \<Rightarrow> exact_run_request \<Rightarrow> (nat \<times> (control_failure, string) result) list
      \<Rightarrow> (control_failure, string) result option \<times> nat list \<times> token_bucket" where
  "run_exact zone b request answers =
     (case validate_exact_run_request zone request of
        Err e \<Rightarrow> (Some (Err e), [], b)
      | Ok _ \<Rightarrow> paced b 0 answers)"

definition launch_paced ::
    "aws \<Rightarrow> launch_codec \<Rightarrow> string \<Rightarrow> token_bucket \<Rightarrow> materialization_lease \<Rightarrow> nat
      \<Rightarrow> (nat \<times> (control_failure, string) result) list
      \<Rightarrow> (launch_error, physical_target) result option \<times> nat list \<times> token_bucket" where
  "launch_paced V K zone b lease now answers =
     (case launch_admit V K zone lease now of
        Err e \<Rightarrow> (Some (Err e), [], b)
      | Ok (request, token) \<Rightarrow>
          (case run_exact zone b request answers of (out, sent, b) \<Rightarrow>
             (map_option (launch_answer lease token) out, sent, b)))"

text \<open>Launches of one process, in the order in which they ask its bucket: each one's outcome and the instants of its sends.\<close>

fun launch_queue ::
    "aws \<Rightarrow> launch_codec \<Rightarrow> string \<Rightarrow> token_bucket
      \<Rightarrow> (materialization_lease \<times> nat \<times> (nat \<times> (control_failure, string) result) list) list
      \<Rightarrow> ((launch_error, physical_target) result option \<times> nat list) list" where
  "launch_queue V K zone b [] = []"
| "launch_queue V K zone b ((lease, now, answers) # rest) =
     (case launch_paced V K zone b lease now answers of (out, sent, b) \<Rightarrow> (out, sent) # launch_queue V K zone b rest)"

definition recovery_request :: "materialization_lease \<Rightarrow> string \<Rightarrow> nat \<Rightarrow> acquire_target" where
  "recovery_request lease hex now =
     \<lparr>aq_key = ml_key lease, aq_spec = ml_spec lease, aq_reservation_id = ml_reservation_id lease,
      aq_generation = ml_generation lease, aq_launch_request = ml_launch_request lease,
      aq_attempt_id = random_identifier ''purge-attempt'' hex, aq_attempt_duration_ms = TARGET_ATTEMPT_MS,
      aq_generation_is_fenced = True, aq_now_ms = now, aq_lease_duration_ms = TARGET_LEASE_MS,
      aq_target_lifetime_ms = TARGET_LIFETIME_MS, aq_replace_after_loss = False\<rparr>"

fun recovery_launch_error :: "launch_error \<Rightarrow> materialization_error" where
  "recovery_launch_error (LCapacity scope retry m) = MCapacity scope retry m"
| "recovery_launch_error (LKnownNoTarget m) =
     MLaunchOutcomeUnknown (''exact launch recovery returned no target; reservation remains fenced: '' @ m)"
| "recovery_launch_error (LRetryableKnownNoTarget m) = MLaunchRetryable m"
| "recovery_launch_error (LOutcomeUnknown m) = MLaunchOutcomeUnknown m"

subsection \<open>Materializing a target (\<open>hand.rs\<close>)\<close>

definition materialize_request ::
    "target_key \<Rightarrow> target_spec \<Rightarrow> string option \<Rightarrow> bool \<Rightarrow> string \<Rightarrow> string \<Rightarrow> string \<Rightarrow> nat \<Rightarrow> acquire_target" where
  "materialize_request key spec intent replace hex hex' hex'' now =
     \<lparr>aq_key = key, aq_spec = spec, aq_reservation_id = random_identifier ''reservation'' hex,
      aq_generation = (case intent of None \<Rightarrow> random_identifier ''generation'' hex' | Some g \<Rightarrow> g),
      aq_launch_request = DurableLaunchRequest ''unsealed'', aq_attempt_id = random_identifier ''attempt'' hex'',
      aq_attempt_duration_ms = TARGET_ATTEMPT_MS, aq_generation_is_fenced = (intent \<noteq> None), aq_now_ms = now,
      aq_lease_duration_ms = TARGET_LEASE_MS, aq_target_lifetime_ms = TARGET_LIFETIME_MS, aq_replace_after_loss = replace\<rparr>"

text \<open>Up to the reservation: the request with its launch sealed into it.\<close>

definition sealed_acquisition ::
    "aws \<Rightarrow> launch_codec \<Rightarrow> launch_inputs \<Rightarrow> spec_digest_fn \<Rightarrow> generation_launcher \<Rightarrow> acquire_target \<Rightarrow> (aws_error, acquire_target) result" where
  "sealed_acquisition V K I dg L q =
     and_then (map_err (Aws_Requests.materialization_error V) (acquire_lease dg q)) (\<lambda>preview.
     and_then (seal_launch V K I L preview) (\<lambda>lr.
       Ok (q\<lparr>aq_launch_request := lr\<rparr>)))"

definition materialize ::
    "aws \<Rightarrow> launch_codec \<Rightarrow> launch_inputs \<Rightarrow> spec_digest_fn \<Rightarrow> string \<Rightarrow> target_key \<Rightarrow> string \<Rightarrow> resource_ceiling \<Rightarrow> network_ceiling
      \<Rightarrow> string \<Rightarrow> string option \<Rightarrow> bool \<Rightarrow> string \<Rightarrow> string \<Rightarrow> string \<Rightarrow> nat
      \<Rightarrow> 'g acquire_fn \<Rightarrow> 'g install_fn \<Rightarrow> 'g expire_fn \<Rightarrow> nat \<Rightarrow> (exact_run_request \<Rightarrow> (control_failure, string) result)
      \<Rightarrow> (physical_target \<Rightarrow> (string, unit) result) \<Rightarrow> 'g \<Rightarrow> (aws_error, installed_target) result \<times> 'g" where
  "materialize V K I dg img key owner_session_id resources network resource_class intent replace hex hex' hex'' now
      acq inst exp dispatched provider terminate_stale g =
     (if resource_class \<noteq> RESOURCE_CLASS
      then (Err (aws_error V CapabilityUnavailable False ''the MVP plane exposes only the microvm-1gb resource class''), g)
      else case target_spec_of V img (li_image_version I) resources network resource_class of
        Err e \<Rightarrow> (Err e, g)
      | Ok spec \<Rightarrow>
          (case sealed_acquisition V K I dg
                  \<lparr>gl_key = key, gl_owner_session_id = owner_session_id, gl_resources = resources, gl_network = network,
                   gl_resource_class = resource_class\<rparr>
                  (materialize_request key spec intent replace hex hex' hex'' now) of
             Err e \<Rightarrow> (Err e, g)
           | Ok q \<Rightarrow>
               (case ensure acq inst exp (\<lambda>l. launch V K (li_region I) l dispatched provider) terminate_stale g q of
                  (r, g) \<Rightarrow> (map_err (Aws_Requests.materialization_error V) r, g))))"

subsection \<open>What the window gives\<close>

lemmas target_times = TARGET_LIFETIME_MS_def TARGET_LEASE_MS_def TARGET_DISPATCH_WINDOW_MS_def TARGET_ATTEMPT_MS_def
  MAX_DURATION_SECONDS_def

lemma dispatch_deadline_Ok:
  assumes "launch_dispatch_deadline l = Ok d"
  shows "d + TARGET_LIFETIME_MS \<le> ml_lease_expires_at_ms l"
    and "d + TARGET_LIFETIME_MS = ml_target_expires_at_ms l + TARGET_DISPATCH_WINDOW_MS"
  using assms by (auto simp: launch_dispatch_deadline_def result_iffs saturating_sub_def split: if_splits)

lemma decode_launch_Ok:
  assumes "decode_launch V K zone l = Ok sealed"
  shows "launch_dispatch_deadline l = Ok (sl_dispatch_deadline_at_ms sealed)"
    and "er_client_token (sl_request sealed) = ml_reservation_id l"
    and "validate_exact_run_request zone (sl_request sealed) = Ok ()"
    and "\<exists>payload. payload_from_json K (er_run_hook_payload (sl_request sealed)) = Some payload"
  using assms by (auto simp: decode_launch_def result_iffs)

lemma launch_admit_Ok:
  assumes "launch_admit V K zone l now = Ok (request, token)"
  shows "er_client_token request = ml_reservation_id l"
    and "now + TARGET_LIFETIME_MS \<le> ml_target_expires_at_ms l + TARGET_DISPATCH_WINDOW_MS"
    and "now + TARGET_LIFETIME_MS \<le> ml_lease_expires_at_ms l"
proof -
  from assms obtain sealed where d: "decode_launch V K zone l = Ok sealed" and r: "request = sl_request sealed"
    and a: "now \<le> sl_dispatch_deadline_at_ms sealed"
    by (auto simp: launch_admit_def result_iffs admit_provider_dispatch_def split: if_splits)
  note D = decode_launch_Ok [OF d]
  show "er_client_token request = ml_reservation_id l" using D(2) r by simp
  show "now + TARGET_LIFETIME_MS \<le> ml_target_expires_at_ms l + TARGET_DISPATCH_WINDOW_MS"
    and "now + TARGET_LIFETIME_MS \<le> ml_lease_expires_at_ms l"
    using dispatch_deadline_Ok [OF D(1)] a by linarith+
qed

lemma launch_admit_iff:
  assumes "decode_launch V K zone l = Ok sealed" and "now \<le> sl_dispatch_deadline_at_ms sealed"
  shows "\<exists>token. launch_admit V K zone l now = Ok (sl_request sealed, token)"
  using assms decode_launch_Ok(4) [OF assms(1)] by (auto simp: launch_admit_def admit_provider_dispatch_def)

text \<open>When every launch of a queue is admitted and answered at its first attempt, the launches are sent when the bucket lets them through.\<close>

lemma launch_queue_sent:
  assumes "i < length ls" and "\<forall>l\<in>set ls. \<exists>sealed. decode_launch V K zone l = Ok sealed \<and> now \<le> sl_dispatch_deadline_at_ms sealed"
  shows "\<exists>request token. launch_admit V K zone (ls ! i) now = Ok (request, token)
    \<and> launch_queue V K zone b (map (\<lambda>l. (l, now, [(t, Ok vm)])) ls) ! i
      = (Some (launch_answer (ls ! i) token (Ok vm)), [admissions b (replicate (length ls) t) ! i])"
  using assms
proof (induction ls arbitrary: b i)
  case (Cons l ls)
  obtain sealed where d: "decode_launch V K zone l = Ok sealed" "now \<le> sl_dispatch_deadline_at_ms sealed"
    using Cons.prems(2) by auto
  obtain token where a: "launch_admit V K zone l now = Ok (sl_request sealed, token)" using launch_admit_iff [OF d] by blast
  obtain delay b' where r: "bucket_reserve b t = (delay, b')" by (rule prod.exhaust)
  have p: "launch_paced V K zone b l now [(t, Ok vm)] = (Some (launch_answer l token (Ok vm)), [t + delay], b')"
    using a r decode_launch_Ok(3) [OF d(1)] by (simp add: launch_paced_def run_exact_def)
  show ?case
  proof (cases i)
    case 0
    then show ?thesis using a p r by simp
  next
    case (Suc j)
    then show ?thesis using Cons.IH [of j b'] Cons.prems p r by simp
  qed
qed simp

lemma own_lease_deadline:
  assumes "acquire_lease dg q = Ok l" and "aq_lease_duration_ms q = TARGET_LEASE_MS" and "aq_target_lifetime_ms q = TARGET_LIFETIME_MS"
  shows "launch_dispatch_deadline l = Ok (aq_now_ms q + TARGET_DISPATCH_WINDOW_MS)"
  using assms
  by (auto simp: acquire_lease_Ok launch_dispatch_deadline_def target_times ok_or_def checked_sub_def checked_add_def
      saturating_sub_def require_def)

subsection \<open>Replays are exact\<close>

definition launch_codec_ok :: "launch_codec \<Rightarrow> bool" where
  "launch_codec_ok K \<longleftrightarrow>
     (\<forall>s b. sealed_to_json K s = Some b \<longrightarrow> sealed_from_json K b = Some s)
     \<and> (\<forall>p e. payload_to_json K p = Some e \<longrightarrow> payload_from_json K e = Some p \<and> e \<noteq> [])"

definition deployed :: "launch_inputs \<Rightarrow> bool" where
  "deployed I \<longleftrightarrow> li_image_arn I \<noteq> Ok [] \<and> li_image_version I \<noteq> [] \<and> (\<forall>c. li_connectors I c \<noteq> [])"

text \<open>The lease of an attempt on the reservation of \<open>l\<close>: the first, or one that recovers.\<close>

abbreviation attempt_on :: "materialization_lease \<Rightarrow> string \<Rightarrow> nat \<Rightarrow> bool \<Rightarrow> materialization_lease" where
  "attempt_on l a e recovery \<equiv>
     l\<lparr>ml_attempt_id := a, ml_attempt_expires_at_ms := e, ml_recovery_attempt := recovery\<rparr>"

lemma deadline_same_times:
  "ml_target_expires_at_ms l' = ml_target_expires_at_ms l \<Longrightarrow> ml_lease_expires_at_ms l' = ml_lease_expires_at_ms l \<Longrightarrow>
    launch_dispatch_deadline l' = launch_dispatch_deadline l"
  by (simp add: launch_dispatch_deadline_def)

lemma seal_launch_Ok:
  assumes "seal_launch V K I L lease = Ok lr"
  obtains proxy image_arn encoded deadline where
    "li_image_arn I = Ok image_arn" "payload_to_json K (launch_payload V L lease (li_token I) proxy) = Some encoded"
    "launch_dispatch_deadline lease = Ok deadline"
    "sealed_to_json K (sealed_request I lease (launch_payload V L lease (li_token I) proxy) image_arn encoded deadline)
      = Some (lr_expose lr)"
  using assms
  by (auto simp: seal_launch_def Let_def result_iffs launch_request_new_def split: if_splits)

lemma spec_of_seals:
  assumes "target_spec_of V img version resources network rclass = Ok spec"
  shows "ts_connector spec = connector_class_of network" "ts_resource_class spec = rclass"
    "resources_digest V resources = Some (ts_resource_policy_digest spec)"
    "network_digest V network = Some (ts_network_policy_digest spec)"
  using assms by (auto simp: target_spec_of_def spec_new_def result_iffs)

lemma sealed_acquisition_Ok:
  assumes "sealed_acquisition V K I dg L q = Ok q'"
  obtains preview lr where "acquire_lease dg q = Ok preview" "seal_launch V K I L preview = Ok lr"
    "q' = q\<lparr>aq_launch_request := lr\<rparr>"
  using assms by (auto simp: sealed_acquisition_def result_iffs)

lemma exact_request_valid:
  assumes "image_arn \<noteq> []" and "version \<noteq> []" and "encoded \<noteq> []" and "connector \<noteq> []" and "valid_identifier rid"
  shows "validate_exact_run_request zone (exact_run_request zone image_arn version encoded rid connector) = Ok ()"
  using assms
  by (auto simp: validate_exact_run_request_def exact_run_request_def connector_arn_def require_def valid_identifier_def
      MAX_IDLE_SECONDS_def MAX_DURATION_SECONDS_def)

end
