(* ===== verification/Bundle_Cache.thy ===== *)
theory Bundle_Cache
  imports Aws_Requests
begin

section \<open>Preparation and bundle caches (\<open>hand-brain-aws/src/cache.rs\<close>)\<close>

text \<open>
  Two least-recently-used caches behind one lock: the metadata of prepared sessions, bounded by
  bytes and entries, with an index of the sessions of a root, and the bytes of tool bundles,
  bounded likewise. A bundle that is borrowed (its \<open>Arc\<close> is shared) is never evicted;
  \<open>cb_borrows\<close> is the number of its owners besides the cache. The order in which a hash map is
  walked is an argument (\<open>order\<close>) of the operations that walk one; the access clocks wrap at 64 bits.
\<close>

subsection \<open>State\<close>

record preparation =
  pr_request :: prepare_request
  pr_public_digest :: string
  pr_metadata_bytes :: nat
  pr_last_access :: nat

record cached_bundle =
  cb_bytes :: bytes
  cb_last_access :: nat
  cb_borrows :: nat

record preparation_store =
  ps_sessions :: "string \<rightharpoonup> preparation"
  ps_root_sessions :: "string \<rightharpoonup> string set"
  ps_preparation_bytes :: nat
  ps_max_preparation_bytes :: nat
  ps_max_preparations :: nat
  ps_access_clock :: nat

record bundle_cache =
  bc_bundles :: "string \<rightharpoonup> cached_bundle"
  bc_bundle_bytes :: nat
  bc_max_bundle_bytes :: nat
  bc_max_bundles :: nat
  bc_access_clock :: nat

record preparation_cache =
  pc_store :: preparation_store
  pc_bundles :: bundle_cache

definition with_limits :: "nat \<Rightarrow> nat \<Rightarrow> nat \<Rightarrow> preparation_cache" where
  "with_limits max_bundle_bytes max_preparation_bytes max_preparations =
     \<lparr>pc_store = \<lparr>ps_sessions = Map.empty, ps_root_sessions = Map.empty, ps_preparation_bytes = 0,
        ps_max_preparation_bytes = max_preparation_bytes, ps_max_preparations = max_preparations, ps_access_clock = 0\<rparr>,
      pc_bundles = \<lparr>bc_bundles = Map.empty, bc_bundle_bytes = 0, bc_max_bundle_bytes = max_bundle_bytes,
        bc_max_bundles = MAX_CACHED_BUNDLES, bc_access_clock = 0\<rparr>\<rparr>"

definition with_limit :: "nat \<Rightarrow> preparation_cache" where
  "with_limit max_bundle_bytes =
     with_limits max_bundle_bytes MAX_CACHED_PREPARATION_BYTES MAX_CACHED_PREPARATIONS"

text \<open>\<open>fetch_add\<close> wraps, the value handed out saturates.\<close>

definition next_access :: "nat \<Rightarrow> nat \<times> nat" where
  "next_access clock = (saturating_add clock 1, (clock + 1) mod (U64_MAX + 1))"

text \<open>\<open>Iterator::min_by_key\<close>: the first of the least.\<close>

fun min_by_key :: "('a \<Rightarrow> nat) \<Rightarrow> 'a list \<Rightarrow> 'a option" where
  "min_by_key f [] = None"
| "min_by_key f (x # xs) =
     (case min_by_key f xs of None \<Rightarrow> Some x | Some y \<Rightarrow> if f x \<le> f y then Some x else Some y)"

lemma min_by_key_None [simp]: "min_by_key f xs = None \<longleftrightarrow> xs = []"
  by (cases xs) (simp_all split: option.splits)

lemma min_by_key_Some:
  assumes "min_by_key f xs = Some x"
  shows "x \<in> set xs" and "y \<in> set xs \<Longrightarrow> f x \<le> f y"
proof -
  have "x \<in> set xs \<and> (\<forall>y\<in>set xs. f x \<le> f y)"
    using assms by (induction xs arbitrary: x) (auto split: option.splits if_splits intro: le_trans less_imp_le)
  then show "x \<in> set xs" and "y \<in> set xs \<Longrightarrow> f x \<le> f y" by blast+
qed

subsection \<open>The metadata of sessions\<close>

definition store_get :: "preparation_store \<Rightarrow> string \<Rightarrow> preparation option \<times> preparation_store" where
  "store_get st session_id =
     (let (access, clock) = next_access (ps_access_clock st); st = st\<lparr>ps_access_clock := clock\<rparr> in
      case ps_sessions st session_id of
        None \<Rightarrow> (None, st)
      | Some p \<Rightarrow>
          let p = p\<lparr>pr_last_access := access\<rparr>
          in (Some p, st\<lparr>ps_sessions := (ps_sessions st)(session_id \<mapsto> p)\<rparr>))"

definition forget_root_session :: "string \<Rightarrow> string \<Rightarrow> (string \<rightharpoonup> string set) \<Rightarrow> (string \<rightharpoonup> string set)" where
  "forget_root_session root_id session_id roots =
     (case roots root_id of
        None \<Rightarrow> roots
      | Some sessions \<Rightarrow>
          let sessions = sessions - {session_id}
          in if sessions = {} then roots(root_id := None) else roots(root_id \<mapsto> sessions))"

definition remove_session :: "preparation_store \<Rightarrow> string \<Rightarrow> preparation option \<times> preparation_store" where
  "remove_session st session_id =
     (case ps_sessions st session_id of
        None \<Rightarrow> (None, st)
      | Some removed \<Rightarrow>
          (Some removed,
           st\<lparr>ps_sessions := (ps_sessions st)(session_id := None),
              ps_preparation_bytes := saturating_sub (ps_preparation_bytes st) (pr_metadata_bytes removed),
              ps_root_sessions :=
                forget_root_session (pq_root_id (pr_request removed)) session_id (ps_root_sessions st)\<rparr>))"

definition fits :: "nat \<Rightarrow> nat \<Rightarrow> nat \<Rightarrow> bool" where
  "fits used added limit \<longleftrightarrow> (case checked_add used added of None \<Rightarrow> False | Some n \<Rightarrow> n \<le> limit)"

definition preparation_candidate :: "preparation_store \<Rightarrow> string \<Rightarrow> string list \<Rightarrow> string option" where
  "preparation_candidate st protected order =
     min_by_key (\<lambda>k. case ps_sessions st k of None \<Rightarrow> 0 | Some p \<Rightarrow> pr_last_access p)
       (filter (\<lambda>k. k \<noteq> protected \<and> ps_sessions st k \<noteq> None) order)"

function evict_preparations_to_fit ::
    "aws \<Rightarrow> preparation_store \<Rightarrow> nat \<Rightarrow> nat \<Rightarrow> string \<Rightarrow> string list \<Rightarrow> (aws_error, unit) result \<times> preparation_store" where
  "evict_preparations_to_fit V st additional_bytes additional_entries protected order =
     (if fits (ps_preparation_bytes st) additional_bytes (ps_max_preparation_bytes st)
         \<and> fits (card (dom (ps_sessions st))) additional_entries (ps_max_preparations st)
      then (Ok (), st)
      else case preparation_candidate st protected order of
        None \<Rightarrow> (Err (preparation_cache_capacity_error V (ps_max_preparation_bytes st)), st)
      | Some c \<Rightarrow>
          evict_preparations_to_fit V (snd (remove_session st c)) additional_bytes additional_entries protected
            (remove1 c order))"
  by pat_completeness auto

lemma candidate_in_order: "preparation_candidate st protected order = Some c \<Longrightarrow> c \<in> set order \<and> c \<noteq> protected \<and> ps_sessions st c \<noteq> None"
  unfolding preparation_candidate_def by (drule min_by_key_Some(1)) simp

termination evict_preparations_to_fit
proof (relation "measure (\<lambda>(V, st, b, n, p, order). length order)", goal_cases)
  case (2 V st b n p order c)
  then have "c \<in> set order" using candidate_in_order by blast
  then show ?case using length_pos_if_in_set [of c order] by (simp add: length_remove1)
qed simp

declare evict_preparations_to_fit.simps [simp del]

subsection \<open>The bytes of bundles\<close>

text \<open>A lookup hands out a shared pointer, so it borrows the bundle.\<close>

definition bundle_get :: "bundle_cache \<Rightarrow> string \<Rightarrow> bytes option \<times> bundle_cache" where
  "bundle_get c digest =
     (let (access, clock) = next_access (bc_access_clock c); c = c\<lparr>bc_access_clock := clock\<rparr> in
      case bc_bundles c digest of
        None \<Rightarrow> (None, c)
      | Some b \<Rightarrow>
          (Some (cb_bytes b),
           c\<lparr>bc_bundles := (bc_bundles c)(digest \<mapsto> b\<lparr>cb_last_access := access, cb_borrows := cb_borrows b + 1\<rparr>)\<rparr>))"

text \<open>The pointer of a lookup is dropped.\<close>

definition bundle_return :: "bundle_cache \<Rightarrow> string \<Rightarrow> bundle_cache" where
  "bundle_return c digest =
     (case bc_bundles c digest of
        None \<Rightarrow> c
      | Some b \<Rightarrow> c\<lparr>bc_bundles := (bc_bundles c)(digest \<mapsto> b\<lparr>cb_borrows := cb_borrows b - 1\<rparr>)\<rparr>)"

definition bundle_candidate :: "bundle_cache \<Rightarrow> string set \<Rightarrow> string list \<Rightarrow> string option" where
  "bundle_candidate c protected order =
     min_by_key (\<lambda>k. case bc_bundles c k of None \<Rightarrow> 0 | Some b \<Rightarrow> cb_last_access b)
       (filter (\<lambda>k. k \<notin> protected \<and> (case bc_bundles c k of None \<Rightarrow> False | Some b \<Rightarrow> cb_borrows b = 0)) order)"

definition remove_bundle :: "bundle_cache \<Rightarrow> string \<Rightarrow> bundle_cache" where
  "remove_bundle c digest =
     (case bc_bundles c digest of
        None \<Rightarrow> c
      | Some b \<Rightarrow>
          c\<lparr>bc_bundles := (bc_bundles c)(digest := None),
            bc_bundle_bytes := saturating_sub (bc_bundle_bytes c) (length (cb_bytes b))\<rparr>)"

function evict_idle_to_fit ::
    "aws \<Rightarrow> bundle_cache \<Rightarrow> nat \<Rightarrow> nat \<Rightarrow> string set \<Rightarrow> string list \<Rightarrow> (aws_error, unit) result \<times> bundle_cache" where
  "evict_idle_to_fit V c additional_bytes additional_entries protected order =
     (let bytes_fit = fits (bc_bundle_bytes c) additional_bytes (bc_max_bundle_bytes c);
          entries_fit = fits (card (dom (bc_bundles c))) additional_entries (bc_max_bundles c)
      in if bytes_fit \<and> entries_fit then (Ok (), c)
         else case bundle_candidate c protected order of
           None \<Rightarrow>
             (Err (if \<not> entries_fit \<and> bytes_fit then bundle_cache_entry_capacity_error V
                   else bundle_cache_capacity_error V (bc_max_bundle_bytes c)), c)
         | Some d \<Rightarrow>
             evict_idle_to_fit V (remove_bundle c d) additional_bytes additional_entries protected (remove1 d order))"
  by pat_completeness auto

lemma bundle_candidate_in_order:
  "bundle_candidate c protected order = Some d \<Longrightarrow>
     d \<in> set order \<and> d \<notin> protected \<and> (\<exists>b. bc_bundles c d = Some b \<and> cb_borrows b = 0)"
  unfolding bundle_candidate_def by (drule min_by_key_Some(1)) (auto split: option.splits)

termination evict_idle_to_fit
proof (relation "measure (\<lambda>(V, c, b, n, p, order). length order)", goal_cases)
  case (2 V c b n p order bytes_fit entries_fit d)
  then have "d \<in> set order" using bundle_candidate_in_order by blast
  then show ?case using length_pos_if_in_set [of d order] by (simp add: length_remove1)
qed simp

declare evict_idle_to_fit.simps [simp del]

definition bundle_insert :: "bundle_cache \<Rightarrow> string \<Rightarrow> bytes \<Rightarrow> bundle_cache" where
  "bundle_insert c digest content =
     (let (access, clock) = next_access (bc_access_clock c)
      in c\<lparr>bc_bundle_bytes := bc_bundle_bytes c + length content, bc_access_clock := clock,
           bc_bundles := (bc_bundles c)(digest \<mapsto>
             \<lparr>cb_bytes = content, cb_last_access = access, cb_borrows = 0\<rparr>)\<rparr>)"

subsection \<open>Installing a preparation\<close>

text \<open>The checks before anything is evicted; they return the digests the preparation requires.\<close>

definition install_checks ::
    "aws \<Rightarrow> preparation_cache \<Rightarrow> prepare_request \<Rightarrow> string \<Rightarrow> (string \<rightharpoonup> bytes) \<Rightarrow> (aws_error, string list) result" where
  "install_checks V pc q public_digest fetched =
     (let old = ps_sessions (pc_store pc) (pq_session_id q) in
      and_then (require (\<not> (case old of None \<Rightarrow> False | Some p \<Rightarrow> pq_root_id (pr_request p) \<noteq> pq_root_id q))
          (binding_error V ''prepared session cannot move to a different root'')) (\<lambda>_.
      and_then (require (\<not> (case old of None \<Rightarrow> False | Some p \<Rightarrow> pr_public_digest p \<noteq> public_digest))
          (binding_error V ''prepared session immutable routing or bundle seal changed'')) (\<lambda>_.
      and_then (required_bundle_digests V q) (\<lambda>required.
      and_then (require (dom fetched \<subseteq> set required)
          (aws_invalid V ''preparation contains a fetch for an unreferenced bundle'')) (\<lambda>_.
      and_then (require (list_all (\<lambda>d. fetched d \<noteq> None \<or> bc_bundles (pc_bundles pc) d \<noteq> None) required)
          (aws_error V CapabilityUnavailable False ''bundle cache recovery requires a fresh preparation fetch'')) (\<lambda>_.
        Ok required))))))"

definition metadata_size :: "aws \<Rightarrow> preparation_store \<Rightarrow> prepare_request \<Rightarrow> (aws_error, nat) result" where
  "metadata_size V st q =
     and_then (ok_or (jcs_prepare V q) (aws_invalid V ''preparation metadata cannot be bounded'')) (\<lambda>encoded.
     and_then (require (\<not> (length encoded > ps_max_preparation_bytes st \<or> ps_max_preparations st = 0))
         (preparation_cache_capacity_error V (ps_max_preparation_bytes st))) (\<lambda>_.
       Ok (length encoded)))"

fun fetched_bytes :: "aws \<Rightarrow> nat \<Rightarrow> (string \<rightharpoonup> bytes) \<Rightarrow> string list \<Rightarrow> nat \<Rightarrow> (aws_error, nat) result" where
  "fetched_bytes V limit fetched [] acc = Ok acc"
| "fetched_bytes V limit fetched (d # ds) acc =
     and_then (ok_or (checked_add acc (length (the (fetched d)))) (bundle_cache_capacity_error V limit)) (\<lambda>acc.
       fetched_bytes V limit fetched ds acc)"

fun insert_required :: "(string \<rightharpoonup> bytes) \<Rightarrow> string list \<Rightarrow> bundle_cache \<Rightarrow> bundle_cache" where
  "insert_required fetched [] c = c"
| "insert_required fetched (d # ds) c =
     (let c = (if bc_bundles c d = None then bundle_insert c d (the (fetched d)) else c)
      in insert_required fetched ds (bundle_return (snd (bundle_get c d)) d))"

definition put_session ::
    "aws \<Rightarrow> preparation_store \<Rightarrow> prepare_request \<Rightarrow> string \<Rightarrow> nat \<Rightarrow> (aws_error, unit) result \<times> preparation_store" where
  "put_session V st q public_digest metadata_bytes =
     (let st = snd (remove_session st (pq_session_id q));
          (access, clock) = next_access (ps_access_clock st);
          st = st\<lparr>ps_access_clock := clock\<rparr>
      in case checked_add (ps_preparation_bytes st) metadata_bytes of
           None \<Rightarrow> (Err (preparation_cache_capacity_error V (ps_max_preparation_bytes st)), st)
         | Some n \<Rightarrow>
             (Ok (),
              st\<lparr>ps_preparation_bytes := n,
                 ps_sessions := (ps_sessions st)(pq_session_id q \<mapsto>
                   \<lparr>pr_request = q, pr_public_digest = public_digest, pr_metadata_bytes = metadata_bytes,
                    pr_last_access = access\<rparr>),
                 ps_root_sessions := (ps_root_sessions st)(pq_root_id q \<mapsto>
                   insert (pq_session_id q) (case ps_root_sessions st (pq_root_id q) of None \<Rightarrow> {} | Some ss \<Rightarrow> ss))\<rparr>))"

text \<open>
  \<open>expect("required fetch checked")\<close> is \<open>the (fetched d)\<close>: the checks and the protection of the
  required digests leave no other case (lemma \<open>missing_is_fetched\<close>).
\<close>

definition cache_install ::
    "aws \<Rightarrow> preparation_cache \<Rightarrow> prepare_request \<Rightarrow> string \<Rightarrow> (string \<rightharpoonup> bytes) \<Rightarrow> string list \<Rightarrow> string list
      \<Rightarrow> (aws_error, unit) result \<times> preparation_cache" where
  "cache_install V pc q public_digest fetched session_order bundle_order =
     (case install_checks V pc q public_digest fetched of Err e \<Rightarrow> (Err e, pc)
      | Ok required \<Rightarrow>
     (case metadata_size V (pc_store pc) q of Err e \<Rightarrow> (Err e, pc)
      | Ok metadata_bytes \<Rightarrow>
     (let old = ps_sessions (pc_store pc) (pq_session_id q);
          prior = (case old of None \<Rightarrow> 0 | Some p \<Rightarrow> pr_metadata_bytes p)
      in case evict_preparations_to_fit V (pc_store pc) (saturating_sub metadata_bytes prior)
                (if old = None then 1 else 0) (pq_session_id q) session_order of
           (Err e, st) \<Rightarrow> (Err e, pc\<lparr>pc_store := st\<rparr>)
         | (Ok _, st) \<Rightarrow>
     (let missing = filter (\<lambda>d. bc_bundles (pc_bundles pc) d = None) required
      in case fetched_bytes V (bc_max_bundle_bytes (pc_bundles pc)) fetched missing 0 of
           Err e \<Rightarrow> (Err e, pc\<lparr>pc_store := st\<rparr>)
         | Ok added \<Rightarrow>
     (case evict_idle_to_fit V (pc_bundles pc) added (length missing) (set required) bundle_order of
        (Err e, c) \<Rightarrow> (Err e, \<lparr>pc_store = st, pc_bundles = c\<rparr>)
      | (Ok _, c) \<Rightarrow>
          (case put_session V st q public_digest metadata_bytes of
             (r, st) \<Rightarrow> (r, \<lparr>pc_store = st, pc_bundles = insert_required fetched required c\<rparr>)))))))"

text \<open>At most \<open>limit\<close> sessions of a root, in the order in which its set is walked.\<close>

definition purge_root_page :: "preparation_store \<Rightarrow> string \<Rightarrow> nat \<Rightarrow> string list \<Rightarrow> bool \<times> preparation_store" where
  "purge_root_page st root_id limit order =
     (let page = take limit (filter (\<lambda>s. case ps_root_sessions st root_id of None \<Rightarrow> False | Some ss \<Rightarrow> s \<in> ss) order);
          st = fold (\<lambda>s st. snd (remove_session st s)) page st;
          done_all = (case ps_root_sessions st root_id of None \<Rightarrow> True | Some ss \<Rightarrow> ss = {})
      in (done_all, if done_all then st\<lparr>ps_root_sessions := (ps_root_sessions st)(root_id := None)\<rparr> else st))"

text \<open>Fetch authorities are not cached.\<close>

definition cacheable_preparation :: "prepare_request \<Rightarrow> prepare_request" where
  "cacheable_preparation q = q\<lparr>pq_bundles := []\<rparr>"

text \<open>The check of the declared names before the public projection is built.\<close>

definition secret_env_names :: "prepare_request \<Rightarrow> string list" where
  "secret_env_names q = sort (case pq_secret_capability q of None \<Rightarrow> [] | Some c \<Rightarrow> sc_env_names c)"

definition projection_names :: "aws \<Rightarrow> prepare_request \<Rightarrow> (aws_error, string list) result" where
  "projection_names V q =
     and_then (require
         (\<not> (length (secret_env_names q) > MAX_SESSION_SECRET_NAMES (secret_limits (aw_brain V))
             \<or> list_ex (\<lambda>n. \<not> environment_name_is_valid (secret_limits (aw_brain V)) n \<or> reserved_tool_environment n)
                 (secret_env_names q)
             \<or> \<not> distinct_adj (secret_env_names q)))
         (aws_invalid V ''secret capability has invalid, reserved, or repeated environment names'')) (\<lambda>_.
       Ok (secret_env_names q))"

datatype materialization_mode = LazyDefault | ExplicitDefault string | AdditionalMode string

fun generation_intent :: "materialization_mode \<Rightarrow> string option" where
  "generation_intent LazyDefault = None"
| "generation_intent (ExplicitDefault g) = Some g"
| "generation_intent (AdditionalMode g) = Some g"

fun replace_after_loss :: "materialization_mode \<Rightarrow> bool" where
  "replace_after_loss LazyDefault = True"
| "replace_after_loss (ExplicitDefault g) = True"
| "replace_after_loss (AdditionalMode g) = False"

subsection \<open>Fetches in flight\<close>

record fetch_in_flight =
  fl_bytes :: nat
  fl_entries :: nat

record fetch_reservation =
  fr_bytes :: nat
  fr_entries :: nat

definition fetch_admit ::
    "aws \<Rightarrow> fetch_in_flight \<Rightarrow> nat \<Rightarrow> nat \<Rightarrow> nat \<Rightarrow> nat \<Rightarrow> nat \<Rightarrow> nat
      \<Rightarrow> (aws_error, fetch_reservation) result \<times> fetch_in_flight" where
  "fetch_admit V fl cached_bytes cached_entries fetch_bytes fetch_entries cache_limit fetch_limit =
     (case and_then (ok_or (checked_add (fl_bytes fl) fetch_bytes) (bundle_fetch_capacity_error V fetch_limit)) (\<lambda>projected.
        and_then (require (\<not> projected > fetch_limit) (bundle_fetch_capacity_error V fetch_limit)) (\<lambda>_.
        and_then (ok_or (Option.bind (checked_add cached_bytes (fl_bytes fl)) (\<lambda>n. checked_add n fetch_bytes))
            (bundle_cache_capacity_error V cache_limit)) (\<lambda>admitted.
        and_then (require (\<not> admitted > cache_limit) (bundle_cache_capacity_error V cache_limit)) (\<lambda>_.
        and_then (ok_or (Option.bind (checked_add cached_entries (fl_entries fl)) (\<lambda>n. checked_add n fetch_entries))
            (bundle_cache_capacity_error V cache_limit)) (\<lambda>entries.
        and_then (require (\<not> entries > MAX_CACHED_BUNDLES) (bundle_cache_entry_capacity_error V)) (\<lambda>_.
          Ok projected)))))) of
        Err e \<Rightarrow> (Err e, fl)
      | Ok projected \<Rightarrow>
          (Ok \<lparr>fr_bytes = fetch_bytes, fr_entries = fetch_entries\<rparr>,
           \<lparr>fl_bytes = projected, fl_entries = fl_entries fl + fetch_entries\<rparr>))"

definition fetch_release :: "fetch_in_flight \<Rightarrow> fetch_reservation \<Rightarrow> fetch_in_flight" where
  "fetch_release fl r =
     \<lparr>fl_bytes = saturating_sub (fl_bytes fl) (fr_bytes r), fl_entries = saturating_sub (fl_entries fl) (fr_entries r)\<rparr>"

end
