(* ===== verification/Bundle_Cache_Laws.thy ===== *)
theory Bundle_Cache_Laws
  imports Bundle_Cache
begin

section \<open>The laws of the caches\<close>

text \<open>
  The accounts of both caches, stated once for anything that keeps a byte count beside a map
  (\<open>byte_account\<close>) and interpreted on the two stores; the invariants of the stores and that every
  operation keeps them; what an eviction loop may remove.
\<close>

subsection \<open>Byte accounts\<close>

locale byte_account =
  fixes entries :: "'s \<Rightarrow> (string \<rightharpoonup> 'v)" and weight :: "'v \<Rightarrow> nat" and used :: "'s \<Rightarrow> nat" and remove :: "'s \<Rightarrow> string \<Rightarrow> 's"
  assumes remove_entries: "entries (remove s k) = (entries s)(k := None)"
    and remove_used: "used (remove s k) = (case entries s k of None \<Rightarrow> used s | Some v \<Rightarrow> used s - weight v)"
begin

definition accounted :: "'s \<Rightarrow> bool" where
  "accounted s \<longleftrightarrow> finite (dom (entries s)) \<and> used s = account weight (entries s)"

lemma remove_accounted: "accounted s \<Longrightarrow> accounted (remove s k)"
  using account_remove [of "entries s" k _ weight]
  by (cases "entries s k") (auto simp: accounted_def remove_entries remove_used fun_upd_idem)

lemma removed:
  assumes "accounted s" and "entries s k = Some v"
  shows "used (remove s k) + weight v = used s" and "Suc (card (dom (entries (remove s k)))) = card (dom (entries s))"
  using assms account_remove [of "entries s" k v weight] card_dom_del [of "entries s" k v]
  by (auto simp: accounted_def remove_entries remove_used)

lemma remove_le: "accounted s \<Longrightarrow> used (remove s k) \<le> used s \<and> card (dom (entries (remove s k))) \<le> card (dom (entries s))"
  using removed [of s k] by (cases "entries s k") (force simp: remove_entries remove_used fun_upd_idem)+

end

abbreviation drop_session :: "preparation_store \<Rightarrow> string \<Rightarrow> preparation_store" where
  "drop_session st s \<equiv> snd (remove_session st s)"

interpretation sessions: byte_account ps_sessions pr_metadata_bytes ps_preparation_bytes drop_session
  by unfold_locales (auto simp: remove_session_def fun_upd_idem split: option.splits)

interpretation bundles: byte_account bc_bundles "\<lambda>b. length (cb_bytes b)" bc_bundle_bytes remove_bundle
  by unfold_locales (auto simp: remove_bundle_def fun_upd_idem split: option.splits)

lemma fits_iff: "fits u a l \<longleftrightarrow> u + a \<le> l \<and> u + a \<le> U64_MAX"
  by (auto simp: fits_def split: option.splits)

lemma account_single [simp]: "account w [k \<mapsto> v] = w v"
  using account_new [of Map.empty k w v] by simp

lemma dom_remove1: "dom m \<subseteq> set order \<Longrightarrow> dom (m(k := None)) \<subseteq> set (remove1 k order)"
proof
  fix x
  assume "dom m \<subseteq> set order" and "x \<in> dom (m(k := None))"
  then have "x \<noteq> k" and "x \<in> set order" by (auto split: if_splits)
  then show "x \<in> set (remove1 k order)" by (simp add: in_set_remove1)
qed

lemma map_le_del: "m \<subseteq>\<^sub>m m'(k := None) \<Longrightarrow> m \<subseteq>\<^sub>m m'"
  by (fastforce simp: map_le_def split: if_splits)

subsection \<open>The store of sessions\<close>

definition sessions_of :: "(string \<rightharpoonup> preparation) \<Rightarrow> string \<Rightarrow> string set" where
  "sessions_of m root = {s. \<exists>p. m s = Some p \<and> pq_root_id (pr_request p) = root}"

definition indexed :: "preparation_store \<Rightarrow> bool" where
  "indexed st \<longleftrightarrow> (\<forall>root. ps_root_sessions st root =
     (if sessions_of (ps_sessions st) root = {} then None else Some (sessions_of (ps_sessions st) root)))"

definition store_ok :: "preparation_store \<Rightarrow> bool" where
  "store_ok st \<longleftrightarrow>
     sessions.accounted st \<and> indexed st
     \<and> ps_preparation_bytes st \<le> ps_max_preparation_bytes st \<and> card (dom (ps_sessions st)) \<le> ps_max_preparations st
     \<and> (\<forall>s p. ps_sessions st s = Some p \<longrightarrow> pq_session_id (pr_request p) = s)"

lemma store_okD:
  assumes "store_ok st"
  shows "sessions.accounted st" "indexed st" "finite (dom (ps_sessions st))"
    "ps_preparation_bytes st = account pr_metadata_bytes (ps_sessions st)"
    "ps_preparation_bytes st \<le> ps_max_preparation_bytes st" "card (dom (ps_sessions st)) \<le> ps_max_preparations st"
    "ps_sessions st s = Some p \<Longrightarrow> pq_session_id (pr_request p) = s"
  using assms by (simp_all add: store_ok_def sessions.accounted_def)

definition same_limits :: "preparation_store \<Rightarrow> preparation_store \<Rightarrow> bool" where
  "same_limits st st' \<longleftrightarrow>
     ps_max_preparation_bytes st' = ps_max_preparation_bytes st \<and> ps_max_preparations st' = ps_max_preparations st"

lemma drop_session_fields [simp]:
  "ps_max_preparation_bytes (drop_session st s) = ps_max_preparation_bytes st"
  "ps_max_preparations (drop_session st s) = ps_max_preparations st"
  "ps_access_clock (drop_session st s) = ps_access_clock st"
  "ps_sessions (drop_session st s) = (ps_sessions st)(s := None)"
  by (auto simp: remove_session_def fun_upd_idem split: option.splits)

lemma sessions_of_del: "sessions_of (m(s := None)) root = sessions_of m root - {s}"
  by (auto simp: sessions_of_def)

lemma sessions_of_upd:
  "sessions_of (m(s \<mapsto> p)) root =
     (if pq_root_id (pr_request p) = root then insert s (sessions_of m root) else sessions_of m root - {s})"
  by (auto simp: sessions_of_def)

lemma drop_indexed:
  assumes "indexed st"
  shows "indexed (drop_session st s)"
proof (cases "ps_sessions st s")
  case None
  then show ?thesis using assms by (simp add: remove_session_def)
next
  case (Some p)
  let ?r = "pq_root_id (pr_request p)"
  have "s \<in> sessions_of (ps_sessions st) ?r" using Some by (auto simp: sessions_of_def)
  then have at: "ps_root_sessions st ?r = Some (sessions_of (ps_sessions st) ?r)" using assms by (auto simp: indexed_def)
  have away: "s \<notin> sessions_of (ps_sessions st) root" if "root \<noteq> ?r" for root using Some that by (auto simp: sessions_of_def)
  have "ps_root_sessions (drop_session st s) = forget_root_session ?r s (ps_root_sessions st)"
    using Some by (simp add: remove_session_def)
  then show ?thesis
    using assms at away by (auto simp: indexed_def sessions_of_del forget_root_session_def Let_def)
qed

lemma drop_session_ok: "store_ok st \<Longrightarrow> store_ok (drop_session st s)"
  using sessions.remove_accounted [of st s] sessions.remove_le [of st s] drop_indexed [of st s] drop_session_fields(4) [of st s]
  by (auto simp: store_ok_def simp del: drop_session_fields(4) split: if_splits)

lemma store_ok_clock: "store_ok (st\<lparr>ps_access_clock := n\<rparr>) = store_ok st"
  by (simp add: store_ok_def indexed_def sessions.accounted_def)

lemma store_get_ok: "store_ok st \<Longrightarrow> store_ok (snd (store_get st s))"
proof (cases "ps_sessions st s")
  case None
  assume "store_ok st"
  with None show ?thesis by (simp add: store_get_def next_access_def store_ok_def indexed_def sessions.accounted_def)
next
  case (Some p)
  assume ok: "store_ok st"
  let ?p = "p\<lparr>pr_last_access := saturating_add (ps_access_clock st) 1\<rparr>"
  have same: "sessions_of ((ps_sessions st)(s \<mapsto> ?p)) root = sessions_of (ps_sessions st) root" for root
    using Some by (auto simp: sessions_of_def)
  have "account pr_metadata_bytes ((ps_sessions st)(s \<mapsto> ?p)) = account pr_metadata_bytes (ps_sessions st)"
    using account_upd [OF store_okD(3) [OF ok] Some, of pr_metadata_bytes ?p] by simp
  then show ?thesis
    using ok Some same card_dom_upd [of "ps_sessions st" s p]
    by (auto simp: store_get_def next_access_def store_ok_def indexed_def sessions.accounted_def Let_def)
qed

subsection \<open>Eviction of sessions\<close>

lemma same_limits_trans: "same_limits st st' \<Longrightarrow> same_limits st' st'' \<Longrightarrow> same_limits st st''"
  by (simp add: same_limits_def)

lemma evict_preparations_laws:
  assumes "evict_preparations_to_fit V st b n protected order = (r, st')" and "store_ok st"
  shows "store_ok st' \<and> same_limits st st' \<and> ps_sessions st' \<subseteq>\<^sub>m ps_sessions st
    \<and> ps_sessions st' protected = ps_sessions st protected
    \<and> (r = Ok () \<longrightarrow> ps_preparation_bytes st' + b \<le> ps_max_preparation_bytes st
         \<and> card (dom (ps_sessions st')) + n \<le> ps_max_preparations st)"
  using assms
proof (induction V st b n protected order rule: evict_preparations_to_fit.induct)
  case (1 V st b n protected order)
  note def = evict_preparations_to_fit.simps [of V st b n protected order]
  show ?case
  proof (cases "fits (ps_preparation_bytes st) b (ps_max_preparation_bytes st)
      \<and> fits (card (dom (ps_sessions st))) n (ps_max_preparations st)")
    case True
    then show ?thesis using "1.prems" def by (auto simp: fits_iff same_limits_def)
  next
    case no: False
    show ?thesis
    proof (cases "preparation_candidate st protected order")
      case None
      then show ?thesis using "1.prems" def no by (auto simp: same_limits_def)
    next
      case (Some c)
      have "store_ok (drop_session st c)" using "1.prems" drop_session_ok by blast
      moreover have "evict_preparations_to_fit V (drop_session st c) b n protected (remove1 c order) = (r, st')"
        using "1.prems" def no Some by simp
      moreover have "protected \<noteq> c" using candidate_in_order [OF Some] by blast
      ultimately have IH: "store_ok st' \<and> same_limits (drop_session st c) st' \<and> ps_sessions st' \<subseteq>\<^sub>m ps_sessions (drop_session st c)
          \<and> ps_sessions st' protected = ps_sessions (drop_session st c) protected
          \<and> (r = Ok () \<longrightarrow> ps_preparation_bytes st' + b \<le> ps_max_preparation_bytes (drop_session st c)
               \<and> card (dom (ps_sessions st')) + n \<le> ps_max_preparations (drop_session st c))"
        using "1.IH" [OF no Some] by blast
      then have "ps_sessions st' \<subseteq>\<^sub>m ps_sessions st" using map_le_del [of _ _ c] drop_session_fields(4) [of st c] by metis
      with IH show ?thesis using \<open>protected \<noteq> c\<close> by (simp add: same_limits_def)
    qed
  qed
qed

lemma evict_preparations_succeeds:
  assumes "store_ok st" and "dom (ps_sessions st) \<subseteq> set order" and "ps_max_preparation_bytes st \<le> U64_MAX"
    and "ps_max_preparations st \<le> U64_MAX"
    and "(case ps_sessions st protected of None \<Rightarrow> 0 | Some p \<Rightarrow> pr_metadata_bytes p) + b \<le> ps_max_preparation_bytes st"
    and "(if ps_sessions st protected = None then 0 else 1) + n \<le> ps_max_preparations st"
  shows "fst (evict_preparations_to_fit V st b n protected order) = Ok ()"
  using assms
proof (induction V st b n protected order rule: evict_preparations_to_fit.induct)
  case (1 V st b n protected order)
  note def = evict_preparations_to_fit.simps [of V st b n protected order]
  show ?case
  proof (cases "fits (ps_preparation_bytes st) b (ps_max_preparation_bytes st)
      \<and> fits (card (dom (ps_sessions st))) n (ps_max_preparations st)")
    case True
    then show ?thesis using def by simp
  next
    case no: False
    show ?thesis
    proof (cases "preparation_candidate st protected order")
      case None
      then have "dom (ps_sessions st) \<subseteq> {protected}"
        using "1.prems"(2) by (fastforce simp: preparation_candidate_def filter_empty_conv)
      then have "ps_sessions st = [protected \<mapsto> p]" if "ps_sessions st protected = Some p" for p
        using that by (auto intro!: ext split: if_splits simp: domIff)
      moreover have "ps_sessions st = Map.empty" if "ps_sessions st protected = None"
        using that \<open>dom (ps_sessions st) \<subseteq> {protected}\<close> by (auto simp: domIff)
      ultimately have False
        using no "1.prems"(3-6) store_okD(4) [OF "1.prems"(1)]
        by (cases "ps_sessions st protected") (auto simp: fits_iff)
      then show ?thesis ..
    next
      case (Some c)
      have c: "protected \<noteq> c" using candidate_in_order [OF Some] by blast
      have "fst (evict_preparations_to_fit V (drop_session st c) b n protected (remove1 c order)) = Ok ()"
      proof (rule "1.IH" [OF no Some])
        show "dom (ps_sessions (drop_session st c)) \<subseteq> set (remove1 c order)"
          using dom_remove1 [OF "1.prems"(2)] by simp
      qed (use "1.prems" c drop_session_ok in simp_all)
      then show ?thesis using def no Some by simp
    qed
  qed
qed

lemma put_session_laws:
  assumes "store_ok st" and "put_session V st q pd n = (r, st')"
    and "(case ps_sessions st (pq_session_id q) of None \<Rightarrow> 0 | Some p \<Rightarrow> pr_metadata_bytes p) \<le> n
      \<Longrightarrow> ps_preparation_bytes st + (n - (case ps_sessions st (pq_session_id q) of None \<Rightarrow> 0 | Some p \<Rightarrow> pr_metadata_bytes p))
        \<le> ps_max_preparation_bytes st"
    and "card (dom (ps_sessions st)) + (if ps_sessions st (pq_session_id q) = None then 1 else 0) \<le> ps_max_preparations st"
  shows "store_ok st' \<and> same_limits st st'"
proof -
  let ?d = "drop_session st (pq_session_id q)" and ?s = "pq_session_id q"
  let ?prior = "case ps_sessions st ?s of None \<Rightarrow> 0 | Some p \<Rightarrow> pr_metadata_bytes p"
  obtain access clock where a: "next_access (ps_access_clock ?d) = (access, clock)" by (rule prod.exhaust)
  let ?p = "\<lparr>pr_request = q, pr_public_digest = pd, pr_metadata_bytes = n, pr_last_access = access\<rparr>"
  note ok = drop_session_ok [OF assms(1), of ?s]
  have less: "ps_preparation_bytes ?d + ?prior = ps_preparation_bytes st
      \<and> card (dom (ps_sessions ?d)) + (if ps_sessions st ?s = None then 0 else 1) = card (dom (ps_sessions st))"
  proof (cases "ps_sessions st ?s")
    case None
    then have "?d = st" by (simp add: remove_session_def)
    then show ?thesis using None by simp
  next
    case (Some p)
    then show ?thesis using sessions.removed [OF store_okD(1) [OF assms(1)] Some] by simp
  qed
  show ?thesis
  proof (cases "checked_add (ps_preparation_bytes ?d) n")
    case None
    then have "st' = ?d\<lparr>ps_access_clock := clock\<rparr>"
      using assms(2) a by (simp add: put_session_def Let_def del: checked_add_None_iff)
    then show ?thesis using ok by (simp add: same_limits_def store_ok_clock)
  next
    case (Some m)
    then have m: "m = ps_preparation_bytes ?d + n" by simp
    have fin: "finite (dom (ps_sessions ?d))" using store_okD(3) [OF ok] .
    have new: "ps_sessions ?d ?s = None" by simp
    have le: "m \<le> ps_max_preparation_bytes st"
      using assms(3) conjunct1 [OF less] m store_okD(5) [OF assms(1)] by (cases "?prior \<le> n") simp_all
    have idx: "indexed (st'::preparation_store)"
      if "ps_sessions st' = (ps_sessions ?d)(?s \<mapsto> ?p)"
        and "ps_root_sessions st' = (ps_root_sessions ?d)(pq_root_id q \<mapsto>
          insert ?s (case ps_root_sessions ?d (pq_root_id q) of None \<Rightarrow> {} | Some ss \<Rightarrow> ss))" for st'
    proof -
      have "?s \<notin> sessions_of (ps_sessions ?d) root" for root by (simp add: sessions_of_def)
      then show ?thesis
        using store_okD(2) [OF ok] that by (auto simp: indexed_def sessions_of_upd simp del: drop_session_fields(4))
    qed
    have "st' = ?d\<lparr>ps_access_clock := clock, ps_preparation_bytes := m, ps_sessions := (ps_sessions ?d)(?s \<mapsto> ?p),
        ps_root_sessions := (ps_root_sessions ?d)(pq_root_id q \<mapsto>
          insert ?s (case ps_root_sessions ?d (pq_root_id q) of None \<Rightarrow> {} | Some ss \<Rightarrow> ss))\<rparr>"
      using assms(2) a Some by (simp add: put_session_def Let_def del: checked_add_Some_iff)
    then show ?thesis
      using ok idx [of st'] le conjunct2 [OF less] assms(4) m account_new [OF fin new, of pr_metadata_bytes ?p]
        card_dom_new [OF fin new, of ?p] store_okD(4) [OF ok]
      by (auto simp: store_ok_def same_limits_def sessions.accounted_def simp del: drop_session_fields(4) split: if_splits)
  qed
qed

lemma fold_drop_ok: "store_ok st \<Longrightarrow> store_ok (fold (\<lambda>s st. drop_session st s) ss st)"
  by (induction ss arbitrary: st) (simp_all add: drop_session_ok)

lemma purge_ok:
  assumes "store_ok st" and "purge_root_page st root limit order = (b, st')"
  shows "store_ok st'"
proof -
  obtain ss where st': "st' = fold (\<lambda>s st. drop_session st s) ss st
      \<or> st' = (fold (\<lambda>s st. drop_session st s) ss st)\<lparr>ps_root_sessions :=
          (ps_root_sessions (fold (\<lambda>s st. drop_session st s) ss st))(root := None)\<rparr>
        \<and> (case ps_root_sessions (fold (\<lambda>s st. drop_session st s) ss st) root of None \<Rightarrow> True | Some x \<Rightarrow> x = {})"
    using assms(2) by (auto simp: purge_root_page_def Let_def split: if_splits)
  have ok: "store_ok (fold (\<lambda>s st. drop_session st s) ss st)" using fold_drop_ok assms(1) by blast
  then have "ps_root_sessions (fold (\<lambda>s st. drop_session st s) ss st) root \<noteq> Some {}"
    using store_okD(2) [OF ok] by (simp add: indexed_def)
  then show ?thesis using st' ok by (auto simp: fun_upd_idem split: option.splits)
qed

subsection \<open>The cache of bundles\<close>

text \<open>What a cache holds, and how often each bundle is borrowed.\<close>

definition contents :: "bundle_cache \<Rightarrow> (string \<rightharpoonup> bytes)" where
  "contents c d = map_option cb_bytes (bc_bundles c d)"

definition borrows :: "bundle_cache \<Rightarrow> string \<Rightarrow> nat" where
  "borrows c d = (case bc_bundles c d of None \<Rightarrow> 0 | Some b \<Rightarrow> cb_borrows b)"

lemma dom_contents: "dom (contents c) = dom (bc_bundles c)"
  by (auto simp: contents_def dom_def)

lemma contents_None: "contents c d = None \<longleftrightarrow> bc_bundles c d = None"
  by (simp add: contents_def)

lemma borrowed_present: "0 < borrows c d \<Longrightarrow> contents c d \<noteq> None"
  by (simp add: borrows_def contents_def split: option.splits)

lemma contents_account: "account (\<lambda>b. length (cb_bytes b)) (bc_bundles c) = account length (contents c)"
proof -
  have "(\<Sum>k\<in>dom (bc_bundles c). length (cb_bytes (the (bc_bundles c k)))) =
      (\<Sum>k\<in>dom (bc_bundles c). length (the (contents c k)))"
    by (rule sum.cong) (auto simp: contents_def)
  then show ?thesis by (simp add: account_def dom_contents)
qed

definition bundles_ok :: "bundle_cache \<Rightarrow> bool" where
  "bundles_ok c \<longleftrightarrow> finite (dom (contents c)) \<and> bc_bundle_bytes c = account length (contents c)"

lemma bundles_ok_iff: "bundles_ok c \<longleftrightarrow> bundles.accounted c"
  by (simp add: bundles_ok_def bundles.accounted_def dom_contents contents_account)

definition same_bounds :: "bundle_cache \<Rightarrow> bundle_cache \<Rightarrow> bool" where
  "same_bounds c c' \<longleftrightarrow> bc_max_bundle_bytes c' = bc_max_bundle_bytes c \<and> bc_max_bundles c' = bc_max_bundles c"

lemma same_bounds_refl [simp]: "same_bounds c c" and same_bounds_trans: "same_bounds c c' \<Longrightarrow> same_bounds c' c'' \<Longrightarrow> same_bounds c c''"
  by (simp_all add: same_bounds_def)

lemma bundle_get_laws:
  assumes "bundle_get c d = (r, c')"
  shows "r = contents c d" and "contents c' = contents c" and "bc_bundle_bytes c' = bc_bundle_bytes c" and "same_bounds c c'"
    and "borrows c' = (borrows c)(d := borrows c d + (if contents c d = None then 0 else 1))"
  using assms
  by (auto simp: bundle_get_def next_access_def contents_def borrows_def same_bounds_def fun_eq_iff Let_def split: option.splits)

lemma bundle_return_laws:
  shows "contents (bundle_return c d) = contents c" and "bc_bundle_bytes (bundle_return c d) = bc_bundle_bytes c"
    and "same_bounds c (bundle_return c d)" and "borrows (bundle_return c d) = (borrows c)(d := borrows c d - 1)"
  by (auto simp: bundle_return_def contents_def borrows_def same_bounds_def fun_eq_iff split: option.splits)

lemma return_get:
  "contents (bundle_return (snd (bundle_get c d)) d) = contents c"
  "bc_bundle_bytes (bundle_return (snd (bundle_get c d)) d) = bc_bundle_bytes c"
  "same_bounds c (bundle_return (snd (bundle_get c d)) d)"
  "contents c d \<noteq> None \<Longrightarrow> borrows (bundle_return (snd (bundle_get c d)) d) = borrows c"
proof -
  obtain r c' where g: "bundle_get c d = (r, c')" by (rule prod.exhaust)
  note L = bundle_get_laws [OF g] and R = bundle_return_laws [of c' d]
  show "contents (bundle_return (snd (bundle_get c d)) d) = contents c"
    "bc_bundle_bytes (bundle_return (snd (bundle_get c d)) d) = bc_bundle_bytes c"
    "same_bounds c (bundle_return (snd (bundle_get c d)) d)"
    "contents c d \<noteq> None \<Longrightarrow> borrows (bundle_return (snd (bundle_get c d)) d) = borrows c"
    using L R g by (auto simp: same_bounds_def fun_eq_iff)
qed

lemma bundle_insert_laws:
  assumes "contents c d = None"
  shows "contents (bundle_insert c d x) = (contents c)(d \<mapsto> x)" and "borrows (bundle_insert c d x) = borrows c"
    and "bc_bundle_bytes (bundle_insert c d x) = bc_bundle_bytes c + length x" and "same_bounds c (bundle_insert c d x)"
  using assms
  by (auto simp: bundle_insert_def next_access_def contents_def borrows_def same_bounds_def fun_eq_iff)

lemma remove_bundle_laws:
  assumes "borrows c d = 0"
  shows "contents (remove_bundle c d) = (contents c)(d := None)" and "borrows (remove_bundle c d) = borrows c"
    and "same_bounds c (remove_bundle c d)"
  using assms by (auto simp: remove_bundle_def contents_def borrows_def same_bounds_def fun_eq_iff split: option.splits)

lemma bundles_ok_same: "bundles_ok c \<Longrightarrow> contents c' = contents c \<Longrightarrow> bc_bundle_bytes c' = bc_bundle_bytes c \<Longrightarrow> bundles_ok c'"
  by (simp add: bundles_ok_def)

lemma evict_idle_laws:
  assumes "evict_idle_to_fit V c b n protected order = (r, c')" and "bundles_ok c"
  shows "bundles_ok c' \<and> same_bounds c c' \<and> contents c' \<subseteq>\<^sub>m contents c \<and> borrows c' = borrows c
    \<and> bc_bundle_bytes c' \<le> bc_bundle_bytes c \<and> card (dom (contents c')) \<le> card (dom (contents c))
    \<and> (\<forall>d. d \<in> protected \<or> 0 < borrows c d \<longrightarrow> contents c' d = contents c d)
    \<and> (r = Ok () \<longrightarrow> bc_bundle_bytes c' + b \<le> bc_max_bundle_bytes c \<and> card (dom (contents c')) + n \<le> bc_max_bundles c)"
  using assms
proof (induction V c b n protected order rule: evict_idle_to_fit.induct)
  case (1 V c b n protected order)
  note def = evict_idle_to_fit.simps [of V c b n protected order]
  let ?fit = "fits (bc_bundle_bytes c) b (bc_max_bundle_bytes c) \<and> fits (card (dom (bc_bundles c))) n (bc_max_bundles c)"
  show ?case
  proof (cases ?fit)
    case True
    then show ?thesis using "1.prems" def by (auto simp: fits_iff dom_contents)
  next
    case no: False
    show ?thesis
    proof (cases "bundle_candidate c protected order")
      case None
      then show ?thesis using "1.prems" def no by (auto simp: Let_def)
    next
      case (Some d)
      let ?c = "remove_bundle c d"
      from bundle_candidate_in_order [OF Some] have d: "d \<notin> protected" "borrows c d = 0" by (auto simp: borrows_def)
      note R = remove_bundle_laws [OF d(2)]
      have ok: "bundles_ok ?c" using "1.prems"(2) bundles.remove_accounted by (simp add: bundles_ok_iff)
      have run: "evict_idle_to_fit V ?c b n protected (remove1 d order) = (r, c')"
        using "1.prems"(1) def no Some by (auto simp: Let_def)
      note IH = "1.IH" [OF refl refl no Some run ok]
      have le: "bc_bundle_bytes ?c \<le> bc_bundle_bytes c" "card (dom (contents ?c)) \<le> card (dom (contents c))"
        using bundles.remove_le [of c d] "1.prems"(2) by (simp_all add: bundles_ok_iff dom_contents)
      have "contents c' \<subseteq>\<^sub>m contents ?c" using IH by blast
      then have sub: "contents c' \<subseteq>\<^sub>m contents c" using R(1) map_le_del [of "contents c'" "contents c" d] by metis
      have "card (dom (contents c')) \<le> card (dom (contents c))" using IH le(2) by linarith
      then show ?thesis
        using IH R le(1) sub d by (auto simp: same_bounds_def)
    qed
  qed
qed

lemma evict_idle_fits:
  assumes "bc_bundle_bytes c + b \<le> bc_max_bundle_bytes c" and "card (dom (contents c)) + n \<le> bc_max_bundles c"
    and "bc_max_bundle_bytes c \<le> U64_MAX" and "bc_max_bundles c \<le> U64_MAX"
  shows "evict_idle_to_fit V c b n protected order = (Ok (), c)"
  using assms by (subst evict_idle_to_fit.simps) (auto simp: fits_iff dom_contents Let_def)

subsection \<open>Installation\<close>

abbreviation bytes_of :: "(string \<rightharpoonup> bytes) \<Rightarrow> string list \<Rightarrow> nat" where
  "bytes_of m ds \<equiv> sum_list (map (\<lambda>d. length (the (m d))) ds)"

lemma fetched_bytes_Ok: "fetched_bytes V l m ds acc = Ok n \<Longrightarrow> n = acc + bytes_of m ds"
  by (induction ds arbitrary: acc) (fastforce simp: result_iffs)+

lemma fetched_bytes_fits: "acc + bytes_of m ds \<le> U64_MAX \<Longrightarrow> fetched_bytes V l m ds acc = Ok (acc + bytes_of m ds)"
  by (induction ds arbitrary: acc) (auto simp: result_iffs add.assoc)

lemma bytes_of_account:
  assumes "distinct ds" and "set ds \<subseteq> dom m" and "finite (dom m)"
  shows "bytes_of m ds \<le> account length m"
proof -
  have "bytes_of m ds = (\<Sum>d\<in>set ds. length (the (m d)))" using assms(1) by (simp add: sum_list_distinct_conv_sum_set)
  also have "\<dots> \<le> account length m" unfolding account_def using assms(2,3) by (intro sum_mono2) auto
  finally show ?thesis .
qed

lemma add_digests_Ok:
  assumes "add_digests V ds acc = Ok required" and "distinct acc"
  shows "distinct required \<and> set required = set ds \<union> set acc"
  using assms by (induction ds arbitrary: acc) (auto simp: Let_def split: if_splits)

lemma required_Ok:
  assumes "required_bundle_digests V q = Ok required"
  shows "distinct required" and "set required = set (concat (map pb_bundle_digests (pq_bindings q)))"
  using add_digests_Ok [of V "concat (map pb_bundle_digests (pq_bindings q))" "[]" required] assms
  by (simp_all add: required_bundle_digests_def)

lemma insert_required_laws:
  assumes "distinct ds" and "\<forall>d\<in>set ds. contents c d \<noteq> None \<or> m d \<noteq> None" and "bundles_ok c"
  shows "contents (insert_required m ds c) = (\<lambda>d. if d \<in> set ds \<and> contents c d = None then m d else contents c d)
    \<and> bc_bundle_bytes (insert_required m ds c) = bc_bundle_bytes c + bytes_of m (filter (\<lambda>d. contents c d = None) ds)
    \<and> borrows (insert_required m ds c) = borrows c \<and> same_bounds c (insert_required m ds c)
    \<and> bundles_ok (insert_required m ds c)
    \<and> card (dom (contents (insert_required m ds c))) = card (dom (contents c)) + length (filter (\<lambda>d. contents c d = None) ds)"
  using assms
proof (induction ds arbitrary: c)
  case Nil
  then show ?case by simp
next
  case (Cons d ds)
  let ?c = "if bc_bundles c d = None then bundle_insert c d (the (m d)) else c"
  let ?c' = "bundle_return (snd (bundle_get ?c d)) d"
  have fin: "finite (dom (contents c))" using Cons.prems(3) by (simp add: bundles_ok_def)
  have C: "contents ?c = (if contents c d = None then (contents c)(d \<mapsto> the (m d)) else contents c)"
      "borrows ?c = borrows c" "same_bounds c ?c"
      "bc_bundle_bytes ?c = bc_bundle_bytes c + (if contents c d = None then length (the (m d)) else 0)"
    using bundle_insert_laws [of c d "the (m d)"] by (simp_all add: contents_None)
  have "contents ?c d \<noteq> None" by (simp add: C)
  then have R: "contents ?c' = contents ?c" "bc_bundle_bytes ?c' = bc_bundle_bytes ?c" "same_bounds ?c ?c'" "borrows ?c' = borrows ?c"
    using return_get by blast+
  have ok: "bundles_ok ?c'"
    using Cons.prems(3) R C account_new [OF fin, of d length "the (m d)"] by (auto simp: bundles_ok_def)
  have same: "filter (\<lambda>d. contents ?c' d = None) ds = filter (\<lambda>d. contents c d = None) ds"
    using Cons.prems(1) by (intro filter_cong) (auto simp: R C)
  have "\<forall>x\<in>set ds. contents ?c' x \<noteq> None \<or> m x \<noteq> None"
    using Cons.prems(2) unfolding R(1) C(1) by simp
  note IH = Cons.IH [OF _ this ok, unfolded same]
  have step: "insert_required m (d # ds) c = insert_required m ds ?c'" by (simp only: insert_required.simps Let_def)
  have d: "d \<notin> set ds" and dist: "distinct ds" using Cons.prems(1) by simp_all
  have card: "card (dom (contents ?c')) = card (dom (contents c)) + (if contents c d = None then 1 else 0)"
    using card_dom_new [OF fin, of d "the (m d)"] unfolding R(1) C(1) by simp
  have map: "(\<lambda>x. if x \<in> set ds \<and> contents ?c' x = None then m x else contents ?c' x) =
      (\<lambda>x. if x \<in> set (d # ds) \<and> contents c x = None then m x else contents c x)"
    unfolding R(1) C(1) using d Cons.prems(2) by (auto simp: fun_eq_iff)
  have bounds: "same_bounds c ?c'" by (rule same_bounds_trans [OF C(3) R(3)])
  show ?case
    unfolding step
    using IH [OF dist] unfolding map R(2,4) C(2,4) card
    by (auto intro: same_bounds_trans [OF bounds])
qed

lemma install_checks_Ok:
  assumes "install_checks V pc q pd m = Ok required"
  shows "required_bundle_digests V q = Ok required" and "distinct required" and "dom m \<subseteq> set required"
    and "\<forall>d\<in>set required. contents (pc_bundles pc) d \<noteq> None \<or> m d \<noteq> None"
proof -
  show req: "required_bundle_digests V q = Ok required" and "dom m \<subseteq> set required"
    using assms by (auto simp: install_checks_def Let_def result_iffs)
  show "distinct required" by (rule required_Ok(1) [OF req])
  show "\<forall>d\<in>set required. contents (pc_bundles pc) d \<noteq> None \<or> m d \<noteq> None"
    using assms by (auto simp: install_checks_def Let_def result_iffs contents_None list_all_iff)
qed

text \<open>A required bundle that is missing when the installation inserts it was fetched.\<close>

lemma missing_is_fetched:
  assumes "install_checks V pc q pd m = Ok required" and "bundles_ok (pc_bundles pc)"
    and "evict_idle_to_fit V (pc_bundles pc) b n (set required) order = (r, c)"
  shows "\<forall>d\<in>set required. contents c d \<noteq> None \<or> m d \<noteq> None"
    and "filter (\<lambda>d. contents c d = None) required = filter (\<lambda>d. bc_bundles (pc_bundles pc) d = None) required"
  using install_checks_Ok(4) [OF assms(1)] evict_idle_laws [OF assms(3,2)]
  by (auto simp: contents_None cong: filter_cong)

lemma install_store_laws:
  assumes "store_ok st" and "old = ps_sessions st (pq_session_id q)"
    and "evict_preparations_to_fit V st (saturating_sub n (case old of None \<Rightarrow> 0 | Some p \<Rightarrow> pr_metadata_bytes p))
      (if old = None then 1 else 0) (pq_session_id q) order = (Ok (), st')"
    and "put_session V st' q pd n = (r, st'')"
  shows "store_ok st'' \<and> same_limits st st''"
proof -
  note E = evict_preparations_laws [OF assms(3,1)]
  have "store_ok st'' \<and> same_limits st' st''"
    using E by (intro put_session_laws [OF _ assms(4)]) (auto simp: assms(2) saturating_sub_def same_limits_def)
  with E show ?thesis using same_limits_trans by blast
qed

definition kept_bundles :: "bundle_cache \<Rightarrow> bundle_cache \<Rightarrow> bool" where
  "kept_bundles c c' \<longleftrightarrow> bundles_ok c' \<and> same_bounds c c' \<and> borrows c' = borrows c
     \<and> (\<forall>d. 0 < borrows c d \<longrightarrow> contents c' d = contents c d)"

lemma kept_bundlesI:
  assumes "evict_idle_to_fit V c b n protected order = (r, c')" and "bundles_ok c"
  shows "kept_bundles c c'"
  using evict_idle_laws [OF assms] by (simp add: kept_bundles_def)

lemma install_bundles_laws:
  assumes "install_checks V pc q pd m = Ok required" and "bundles_ok (pc_bundles pc)" and "finite (dom m)"
    and "missing = filter (\<lambda>d. bc_bundles (pc_bundles pc) d = None) required"
    and "fetched_bytes V l m missing 0 = Ok b"
    and "evict_idle_to_fit V (pc_bundles pc) b (length missing) (set required) order = (Ok (), c)"
  shows "kept_bundles (pc_bundles pc) (insert_required m required c)"
    and "bc_bundle_bytes (insert_required m required c) \<le> bc_bundle_bytes (pc_bundles pc) + account length m"
    and "card (dom (contents (insert_required m required c))) \<le> card (dom (contents (pc_bundles pc))) + card (dom m)"
    and "bc_bundle_bytes (insert_required m required c) \<le> bc_max_bundle_bytes (pc_bundles pc)"
    and "card (dom (contents (insert_required m required c))) \<le> bc_max_bundles (pc_bundles pc)"
    and "contents (insert_required m required c) d = Some x \<Longrightarrow> contents (pc_bundles pc) d = Some x \<or> m d = Some x"
    and "\<forall>d\<in>set required. contents (insert_required m required c) d \<noteq> None"
proof -
  note E = evict_idle_laws [OF assms(6,2)] and K = install_checks_Ok [OF assms(1)]
    and F = missing_is_fetched [OF assms(1,2,6)]
  note I = insert_required_laws [OF K(2) F(1), unfolded F(2), folded assms(4)]
  have b: "b = bytes_of m missing" using fetched_bytes_Ok [OF assms(5)] by simp
  have sub: "distinct missing" "set missing \<subseteq> dom m" using K(2,4) by (auto simp: assms(4) contents_None)
  have len: "length missing \<le> card (dom m)" using distinct_card [OF sub(1)] card_mono [OF assms(3) sub(2)] by simp
  have I': "bc_bundle_bytes (insert_required m required c) = bc_bundle_bytes c + b"
      "card (dom (contents (insert_required m required c))) = card (dom (contents c)) + length missing"
      "bundles_ok (insert_required m required c)" "same_bounds c (insert_required m required c)"
      "borrows (insert_required m required c) = borrows c"
      "contents (insert_required m required c) = (\<lambda>d. if d \<in> set required \<and> contents c d = None then m d else contents c d)"
    using I E unfolding b by blast+
  show "kept_bundles (pc_bundles pc) (insert_required m required c)"
    unfolding kept_bundles_def I'(5,6)
  proof (intro conjI allI impI)
    show "same_bounds (pc_bundles pc) (insert_required m required c)" using same_bounds_trans E I'(4) by blast
    show "(if d \<in> set required \<and> contents c d = None then m d else contents c d) = contents (pc_bundles pc) d"
      if "0 < borrows (pc_bundles pc) d" for d
      using E that borrowed_present [OF that] by auto
  qed (use E I'(3) in simp_all)
  show "bc_bundle_bytes (insert_required m required c) \<le> bc_bundle_bytes (pc_bundles pc) + account length m"
    using I'(1) E b bytes_of_account [OF sub assms(3)] by linarith
  show "card (dom (contents (insert_required m required c))) \<le> card (dom (contents (pc_bundles pc))) + card (dom m)"
    using I'(2) E len by linarith
  show "bc_bundle_bytes (insert_required m required c) \<le> bc_max_bundle_bytes (pc_bundles pc)"
    and "card (dom (contents (insert_required m required c))) \<le> bc_max_bundles (pc_bundles pc)"
    using I'(1,2) E by auto
  show "contents (pc_bundles pc) d = Some x \<or> m d = Some x" if "contents (insert_required m required c) d = Some x"
    using that E by (auto simp: I'(6) map_le_def dom_def split: if_splits)
  show "\<forall>d\<in>set required. contents (insert_required m required c) d \<noteq> None" using F(1) by (auto simp: I'(6))
qed

lemma cache_install_cases:
  assumes "cache_install V pc q pd m session_order bundle_order = (r, pc')"
  obtains (unchanged) e where "r = Err e" "pc' = pc"
  | (evicted) e b k s st where "r = Err e" "pc' = pc\<lparr>pc_store := st\<rparr>"
      "evict_preparations_to_fit V (pc_store pc) b k (pq_session_id q) session_order = (s, st)"
  | (refused) e b k s st b' k' ds c where "r = Err e" "pc' = \<lparr>pc_store = st, pc_bundles = c\<rparr>"
      "evict_preparations_to_fit V (pc_store pc) b k (pq_session_id q) session_order = (s, st)"
      "evict_idle_to_fit V (pc_bundles pc) b' k' ds bundle_order = (Err e, c)"
  | (through) required n st b missing c st' where
      "install_checks V pc q pd m = Ok required" "metadata_size V (pc_store pc) q = Ok n"
      "evict_preparations_to_fit V (pc_store pc)
        (saturating_sub n (case ps_sessions (pc_store pc) (pq_session_id q) of None \<Rightarrow> 0 | Some p \<Rightarrow> pr_metadata_bytes p))
        (if ps_sessions (pc_store pc) (pq_session_id q) = None then 1 else 0) (pq_session_id q) session_order = (Ok (), st)"
      "missing = filter (\<lambda>d. bc_bundles (pc_bundles pc) d = None) required"
      "fetched_bytes V (bc_max_bundle_bytes (pc_bundles pc)) m missing 0 = Ok b"
      "evict_idle_to_fit V (pc_bundles pc) b (length missing) (set required) bundle_order = (Ok (), c)"
      "put_session V st q pd n = (r, st')" "pc' = \<lparr>pc_store = st', pc_bundles = insert_required m required c\<rparr>"
  using assms unfolding cache_install_def Let_def
  by (auto split: sum.splits prod.splits)

text \<open>What an installation keeps, whether it succeeds or not, and how much it may add to the cache.\<close>

lemma cache_install_laws:
  assumes "cache_install V pc q pd m session_order bundle_order = (r, pc')"
    and "store_ok (pc_store pc)" and "bundles_ok (pc_bundles pc)" and "finite (dom m)"
    and "bc_bundle_bytes (pc_bundles pc) \<le> bc_max_bundle_bytes (pc_bundles pc)"
    and "card (dom (contents (pc_bundles pc))) \<le> bc_max_bundles (pc_bundles pc)"
  shows "store_ok (pc_store pc') \<and> same_limits (pc_store pc) (pc_store pc') \<and> kept_bundles (pc_bundles pc) (pc_bundles pc')
    \<and> bc_bundle_bytes (pc_bundles pc') \<le> bc_bundle_bytes (pc_bundles pc) + account length m
    \<and> card (dom (contents (pc_bundles pc'))) \<le> card (dom (contents (pc_bundles pc))) + card (dom m)
    \<and> bc_bundle_bytes (pc_bundles pc') \<le> bc_max_bundle_bytes (pc_bundles pc)
    \<and> card (dom (contents (pc_bundles pc'))) \<le> bc_max_bundles (pc_bundles pc)
    \<and> (\<forall>d x. contents (pc_bundles pc') d = Some x \<longrightarrow> contents (pc_bundles pc) d = Some x \<or> m d = Some x)"
  using assms(1)
proof (cases rule: cache_install_cases)
  case unchanged
  then show ?thesis using assms(2-6) by (simp add: same_limits_def kept_bundles_def)
next
  case evicted
  then show ?thesis using assms(3-6) evict_preparations_laws [OF evicted(3) assms(2)] by (simp add: kept_bundles_def)
next
  case refused
  then show ?thesis
    using assms(5,6) evict_preparations_laws [OF refused(3) assms(2)] evict_idle_laws [OF refused(4) assms(3)]
      kept_bundlesI [OF refused(4) assms(3)] by (auto simp: map_le_def dom_def)
next
  case through
  show ?thesis
    using install_store_laws [OF assms(2) refl through(3,7)]
      install_bundles_laws(1-6) [OF through(1) assms(3,4) through(4-6)] by (simp add: through(8))
qed

lemma installed_provides:
  assumes "cache_install V pc q pd m session_order bundle_order = (Ok (), pc')"
    and "bundles_ok (pc_bundles pc)" and "finite (dom m)" and "required_bundle_digests V q = Ok ds"
  shows "\<forall>d\<in>set ds. contents (pc_bundles pc') d \<noteq> None"
  using assms(1)
proof (cases rule: cache_install_cases)
  case (through required n st b missing c st')
  have "required = ds" using install_checks_Ok(1) [OF through(1)] assms(4) by simp
  then show ?thesis using install_bundles_laws(7) [OF through(1) assms(2,3) through(4-6)] by (simp add: through(8))
qed simp_all

text \<open>An installation for which there is room, and that contradicts no earlier one, succeeds.\<close>

lemma put_session_succeeds:
  assumes "store_ok st" and "ps_max_preparation_bytes st \<le> U64_MAX"
    and "ps_preparation_bytes st + (n - (case ps_sessions st (pq_session_id q) of None \<Rightarrow> 0 | Some p \<Rightarrow> pr_metadata_bytes p))
      \<le> ps_max_preparation_bytes st"
  shows "fst (put_session V st q pd n) = Ok ()"
proof -
  have "ps_preparation_bytes (drop_session st (pq_session_id q)) + n \<le> ps_max_preparation_bytes st"
    using sessions.removed(1) [OF store_okD(1) [OF assms(1)]] store_okD(5) [OF assms(1)] assms(3)
    by (cases "ps_sessions st (pq_session_id q)") (auto simp: sessions.remove_used, fastforce)
  then show ?thesis using assms(2) by (simp add: put_session_def Let_def next_access_def checked_add_def)
qed

definition no_conflict :: "preparation_store \<Rightarrow> prepare_request \<Rightarrow> string \<Rightarrow> bool" where
  "no_conflict st q pd \<longleftrightarrow> (\<forall>p. ps_sessions st (pq_session_id q) = Some p \<longrightarrow>
     pq_root_id (pr_request p) = pq_root_id q \<and> pr_public_digest p = pd)"

lemma cache_install_succeeds:
  assumes store: "store_ok (pc_store pc)" "dom (ps_sessions (pc_store pc)) \<subseteq> set session_order"
      "ps_max_preparation_bytes (pc_store pc) \<le> U64_MAX" "ps_max_preparations (pc_store pc) \<le> U64_MAX"
    and req: "required_bundle_digests V q = Ok required" "dom m \<subseteq> set required" "no_conflict (pc_store pc) q pd"
      "\<forall>d\<in>set required. contents (pc_bundles pc) d \<noteq> None \<or> m d \<noteq> None"
    and size: "metadata_size V (pc_store pc) q = Ok n"
    and room: "finite (dom m)" "bc_max_bundle_bytes (pc_bundles pc) \<le> U64_MAX" "bc_max_bundles (pc_bundles pc) \<le> U64_MAX"
      "bc_bundle_bytes (pc_bundles pc) + account length m \<le> bc_max_bundle_bytes (pc_bundles pc)"
      "card (dom (contents (pc_bundles pc))) + card (dom m) \<le> bc_max_bundles (pc_bundles pc)"
  shows "fst (cache_install V pc q pd m session_order bundle_order) = Ok ()"
proof -
  let ?st = "pc_store pc" and ?c = "pc_bundles pc"
  let ?old = "ps_sessions ?st (pq_session_id q)"
  let ?prior = "case ?old of None \<Rightarrow> 0 | Some p \<Rightarrow> pr_metadata_bytes p"
  let ?missing = "filter (\<lambda>d. bc_bundles ?c d = None) required"
  have checks: "install_checks V pc q pd m = Ok required"
    using req by (auto simp: install_checks_def Let_def result_iffs no_conflict_def contents_None list_all_iff split: option.splits)
  have n: "n \<le> ps_max_preparation_bytes ?st" "0 < ps_max_preparations ?st"
    using size by (auto simp: metadata_size_def result_iffs)
  have "?prior \<le> ps_preparation_bytes ?st"
    using sessions.removed(1) [OF store_okD(1) [OF store(1)]] by (cases ?old) (auto, fastforce)
  then have prior: "?prior \<le> ps_max_preparation_bytes ?st" using store_okD(5) [OF store(1)] by linarith
  obtain st where E: "evict_preparations_to_fit V ?st (saturating_sub n ?prior) (if ?old = None then 1 else 0)
      (pq_session_id q) session_order = (Ok (), st)"
    using evict_preparations_succeeds [OF store, of "pq_session_id q" "saturating_sub n ?prior" "if ?old = None then 1 else 0" V] n prior
    by (auto simp: prod_eq_iff saturating_sub_def)
  have sub: "distinct ?missing" "set ?missing \<subseteq> dom m" using required_Ok(1) [OF req(1)] req(4) by (auto simp: contents_None)
  have bytes: "bytes_of m ?missing \<le> account length m" by (rule bytes_of_account [OF sub room(1)])
  have len: "length ?missing \<le> card (dom m)" using distinct_card [OF sub(1)] card_mono [OF room(1) sub(2)] by simp
  have F: "fetched_bytes V (bc_max_bundle_bytes ?c) m ?missing 0 = Ok (bytes_of m ?missing)"
    using fetched_bytes_fits [of 0 m ?missing] bytes room(2,4) by simp
  have I: "evict_idle_to_fit V ?c (bytes_of m ?missing) (length ?missing) (set required) bundle_order = (Ok (), ?c)"
    using room bytes len by (intro evict_idle_fits) linarith+
  have "fst (put_session V st q pd n) = Ok ()"
    using evict_preparations_laws [OF E store(1)] store(3)
    by (intro put_session_succeeds) (auto simp: same_limits_def saturating_sub_def)
  then show ?thesis
    unfolding cache_install_def Let_def checks size sum.case E prod.case F I by (simp add: split_beta)
qed

end
