(* ===== verification/Prepare_Plane.thy ===== *)
theory Prepare_Plane
  imports Bundle_Cache_Laws
begin

section \<open>Preparing sessions (\<open>ports/preparation.rs\<close>, \<open>hand.rs\<close>)\<close>

text \<open>
  \<open>prepare\<close> validates a request, admits the fetches of the bundles that are not cached, fetches
  them, and installs the preparation. It holds two kinds of guards from its admission to its end:
  a reservation of the bytes it may fetch, and borrows of the cached bundles it relies on. Any number
  of preparations run at once; between its suspension points one runs under the lock of the cache,
  and one that is dropped or fails releases its guards. Reads of definitions and the network are
  inputs: a fetch that succeeds returned as many bytes as the sealed descriptor says, which its
  authority bounds.
\<close>

subsection \<open>Validation\<close>

fun merge_validations ::
    "aws \<Rightarrow> (aws_error, validated_bundle) result list \<Rightarrow> (string \<rightharpoonup> validated_bundle)
      \<Rightarrow> (aws_error, string \<rightharpoonup> validated_bundle) result" where
  "merge_validations V [] required = Ok required"
| "merge_validations V (v # vs) required =
     and_then v (\<lambda>b.
     and_then (merge_validated_prepared_bundle V required b) (\<lambda>required.
       merge_validations V vs required))"

text \<open>\<open>arrived\<close> lists the bindings in the order in which their validations ended.\<close>

definition validate_prepared_bindings ::
    "aws \<Rightarrow> (string \<Rightarrow> (aws_error, sealed_binding) result) \<Rightarrow> prepare_request \<Rightarrow> prepared_binding list
      \<Rightarrow> (aws_error, string \<rightharpoonup> validated_bundle) result" where
  "validate_prepared_bindings V lookup q arrived =
     and_then (require (distinct (map pb_binding_ref (pq_bindings q)))
         (binding_error V ''preparation repeats a binding_ref'')) (\<lambda>_.
       merge_validations V (map (\<lambda>p. and_then (lookup (pb_binding_ref p)) (\<lambda>b.
         validate_prepared_binding_projection V p b (pq_root_id q) (pq_session_id q))) arrived) Map.empty)"

fun supply_fetches ::
    "aws \<Rightarrow> (string \<rightharpoonup> validated_bundle) \<Rightarrow> bundle_fetch list \<Rightarrow> (string \<rightharpoonup> bundle_fetch)
      \<Rightarrow> (aws_error, string \<rightharpoonup> bundle_fetch) result" where
  "supply_fetches V required [] supplied = Ok supplied"
| "supply_fetches V required (f # fs) supplied =
     and_then (require (required (bf_bundle_digest f) \<noteq> None)
         (aws_invalid V ''preparation contains a fetch for an unreferenced bundle'')) (\<lambda>_.
     and_then (require (supplied (bf_bundle_digest f) = None)
         (aws_invalid V ''preparation repeats a bundle fetch'')) (\<lambda>_.
       supply_fetches V required fs (supplied(bf_bundle_digest f \<mapsto> f))))"

definition validate_prepare_request ::
    "aws \<Rightarrow> string \<Rightarrow> string \<Rightarrow> (string \<Rightarrow> (aws_error, sealed_binding) result) \<Rightarrow> prepare_request \<Rightarrow> prepared_binding list
      \<Rightarrow> (aws_error, (string \<rightharpoonup> validated_bundle) \<times> (string \<rightharpoonup> bundle_fetch)) result" where
  "validate_prepare_request V img version lookup q arrived =
     and_then (require (\<not> (length (pq_bundles q) > MAX_PREPARED_BUNDLES V \<or> length (pq_bindings q) > MAX_PREPARED_BUNDLES V))
         (aws_invalid V ''preparation exceeds the bundle/binding bound'')) (\<lambda>_.
     and_then (projection_names V q) (\<lambda>_.
     and_then (target_spec_of V img version (pq_resources q) (pq_network q) RESOURCE_CLASS) (\<lambda>_.
     and_then (validate_prepared_bindings V lookup q arrived) (\<lambda>required.
     and_then (supply_fetches V required (pq_bundles q) Map.empty) (\<lambda>supplied.
       Ok (required, supplied))))))"

subsection \<open>Admission of fetches\<close>

text \<open>The walk over the required bundles: what is missing, what was borrowed, and the bytes to fetch.\<close>

record fetch_plan =
  fp_missing :: "bundle_fetch list"
  fp_borrowed :: "string list"
  fp_bytes :: nat

fun plan_fetches ::
    "aws \<Rightarrow> nat \<Rightarrow> nat \<Rightarrow> (string \<rightharpoonup> validated_bundle) \<Rightarrow> (string \<rightharpoonup> bundle_fetch) \<Rightarrow> string list \<Rightarrow> bundle_cache \<Rightarrow> fetch_plan
      \<Rightarrow> (aws_error, unit) result \<times> bundle_cache \<times> fetch_plan" where
  "plan_fetches V now fetch_max required supplied [] c plan = (Ok (), c, plan)"
| "plan_fetches V now fetch_max required supplied (d # ds) c plan =
     (case bundle_get c d of
        (Some _, c) \<Rightarrow>
          plan_fetches V now fetch_max required supplied ds c (plan\<lparr>fp_borrowed := d # fp_borrowed plan\<rparr>)
      | (None, c) \<Rightarrow>
          (case supplied d of
             None \<Rightarrow>
               (Err (aws_error V CapabilityUnavailable False ''bundle cache recovery requires a fresh preparation fetch''),
                c, plan)
           | Some f \<Rightarrow>
               if bf_expires_at_ms f \<le> now \<or> bf_max_bytes f > MAX_TOOL_BUNDLE_BYTES (aw_brain V)
                  \<or> bf_max_bytes f < vb_bytes (the (required d))
               then (Err (aws_invalid V ''bundle fetch authority is expired or exceeds the bundle bound''), c, plan)
               else (case checked_add (fp_bytes plan) (bf_max_bytes f) of
                       None \<Rightarrow> (Err (bundle_fetch_capacity_error V fetch_max), c, plan)
                     | Some n \<Rightarrow>
                         plan_fetches V now fetch_max required supplied ds c
                           (plan\<lparr>fp_missing := f # fp_missing plan, fp_bytes := n\<rparr>))))"

definition return_all :: "string list \<Rightarrow> bundle_cache \<Rightarrow> bundle_cache" where
  "return_all ds c = fold (\<lambda>d c. bundle_return c d) ds c"

text \<open>
  What happens under the lock of the cache, in \<open>admit_and_fetch_bundles\<close>. The count in flight is read
  once for the eviction and once for the admission; a reservation that is released in between only
  lowers the second. An error drops the borrows taken so far.
\<close>

definition admit_fetches ::
    "aws \<Rightarrow> nat \<Rightarrow> nat \<Rightarrow> (string \<rightharpoonup> validated_bundle) \<Rightarrow> (string \<rightharpoonup> bundle_fetch) \<Rightarrow> string list \<Rightarrow> string list
      \<Rightarrow> bundle_cache \<Rightarrow> fetch_in_flight
      \<Rightarrow> (aws_error, fetch_plan \<times> fetch_reservation) result \<times> bundle_cache \<times> fetch_in_flight" where
  "admit_fetches V now fetch_max required supplied required_order bundle_order c fl =
     (case plan_fetches V now fetch_max required supplied required_order c
             \<lparr>fp_missing = [], fp_borrowed = [], fp_bytes = 0\<rparr> of
        (Err e, c, plan) \<Rightarrow> (Err e, return_all (fp_borrowed plan) c, fl)
      | (Ok _, c, plan) \<Rightarrow>
          (case (checked_add (fl_bytes fl) (fp_bytes plan), checked_add (fl_entries fl) (length (fp_missing plan))) of
             (None, _) \<Rightarrow> (Err (bundle_fetch_capacity_error V fetch_max), return_all (fp_borrowed plan) c, fl)
           | (Some _, None) \<Rightarrow>
               (Err (bundle_cache_capacity_error V (bc_max_bundle_bytes c)), return_all (fp_borrowed plan) c, fl)
           | (Some bytes, Some entries) \<Rightarrow>
               (case evict_idle_to_fit V c bytes entries (dom required) bundle_order of
                  (Err e, c) \<Rightarrow> (Err e, return_all (fp_borrowed plan) c, fl)
                | (Ok _, c) \<Rightarrow>
                    (case fetch_admit V fl (bc_bundle_bytes c) (card (dom (bc_bundles c))) (fp_bytes plan)
                            (length (fp_missing plan)) (bc_max_bundle_bytes c) fetch_max of
                       (Err e, fl) \<Rightarrow> (Err e, return_all (fp_borrowed plan) c, fl)
                     | (Ok r, fl) \<Rightarrow> (Ok (plan, r), c, fl)))))"

text \<open>\<open>fetch_bundle\<close> and the check of the length, for one fetch whose transfer gave \<open>content\<close>.\<close>

definition fetched_ok :: "aws \<Rightarrow> (string \<rightharpoonup> validated_bundle) \<Rightarrow> bundle_fetch \<Rightarrow> bytes \<Rightarrow> bool" where
  "fetched_ok V required f content \<longleftrightarrow>
     length content \<le> bf_max_bytes f \<and> sha256_hex (aw_brain V) content = bf_bundle_digest f
     \<and> length content = vb_bytes (the (required (bf_bundle_digest f)))"

subsection \<open>Preparations at once\<close>

text \<open>
  A worker is a preparation at one of its suspension points, or an installation into a guest, which
  borrows one bundle while it posts the bytes.
\<close>

datatype worker =
    Validated prepare_request string "string \<rightharpoonup> validated_bundle" "string \<rightharpoonup> bundle_fetch"
  | Fetching prepare_request string "string \<rightharpoonup> validated_bundle" fetch_plan fetch_reservation
  | Fetched prepare_request string "string \<rightharpoonup> bytes" "string list" fetch_reservation
  | Settling "(aws_error, unit) result" "string list" fetch_reservation
  | Posting string

fun guards :: "worker \<Rightarrow> string list \<times> fetch_reservation" where
  "guards (Validated q pd required supplied) = ([], \<lparr>fr_bytes = 0, fr_entries = 0\<rparr>)"
| "guards (Fetching q pd required plan r) = (fp_borrowed plan, r)"
| "guards (Fetched q pd fetched borrowed r) = (borrowed, r)"
| "guards (Settling res borrowed r) = (borrowed, r)"
| "guards (Posting d) = ([d], \<lparr>fr_bytes = 0, fr_entries = 0\<rparr>)"

record prepare_plane =
  pl_cache :: preparation_cache
  pl_in_flight :: fetch_in_flight
  pl_fetch_max :: nat
  pl_workers :: "worker list"

abbreviation pl_bundles :: "prepare_plane \<Rightarrow> bundle_cache" where
  "pl_bundles s \<equiv> pc_bundles (pl_cache s)"

definition with_plane :: "nat \<Rightarrow> nat \<Rightarrow> prepare_plane" where
  "with_plane cache_max fetch_max =
     \<lparr>pl_cache = with_limit cache_max, pl_in_flight = \<lparr>fl_bytes = 0, fl_entries = 0\<rparr>, pl_fetch_max = fetch_max, pl_workers = []\<rparr>"

text \<open>A worker ends or is dropped: its guards are released.\<close>

definition release :: "nat \<Rightarrow> prepare_plane \<Rightarrow> prepare_plane" where
  "release n s =
     (let (borrowed, r) = guards (pl_workers s ! n) in
      s\<lparr>pl_cache := (pl_cache s)\<lparr>pc_bundles := return_all borrowed (pl_bundles s)\<rparr>,
        pl_in_flight := fetch_release (pl_in_flight s) r,
        pl_workers := take n (pl_workers s) @ drop (Suc n) (pl_workers s)\<rparr>)"

definition consume_secret_capability :: "preparation_store \<Rightarrow> string \<Rightarrow> string \<Rightarrow> preparation_store" where
  "consume_secret_capability st session_id capability_ref =
     (case ps_sessions st session_id of
        None \<Rightarrow> st
      | Some p \<Rightarrow>
          if map_option sc_capability_ref (pq_secret_capability (pr_request p)) = Some capability_ref
          then st\<lparr>ps_sessions := (ps_sessions st)(session_id \<mapsto>
                 p\<lparr>pr_request := (pr_request p)\<lparr>pq_secret_capability := None\<rparr>\<rparr>)\<rparr>
          else st)"

inductive prepare_step :: "aws \<Rightarrow> prepare_plane \<Rightarrow> prepare_plane \<Rightarrow> bool" for V where
  start: "validate_prepare_request V img version lookup q arrived = Ok (required, supplied) \<Longrightarrow>
    set arrived = set (pq_bindings q) \<Longrightarrow>
    prepare_step V s (s\<lparr>pl_workers := pl_workers s @ [Validated q pd required supplied]\<rparr>)"
| admit: "n < length (pl_workers s) \<Longrightarrow> pl_workers s ! n = Validated q pd required supplied \<Longrightarrow>
    distinct order \<Longrightarrow> set order = dom required \<Longrightarrow>
    admit_fetches V now (pl_fetch_max s) required supplied order bundle_order (pl_bundles s) (pl_in_flight s)
      = (Ok (plan, r), c, fl) \<Longrightarrow>
    prepare_step V s (s\<lparr>pl_cache := (pl_cache s)\<lparr>pc_bundles := c\<rparr>, pl_in_flight := fl,
      pl_workers := (pl_workers s)[n := Fetching q pd required plan r]\<rparr>)"
| refuse: "n < length (pl_workers s) \<Longrightarrow> pl_workers s ! n = Validated q pd required supplied \<Longrightarrow>
    distinct order \<Longrightarrow> set order = dom required \<Longrightarrow>
    admit_fetches V now (pl_fetch_max s) required supplied order bundle_order (pl_bundles s) (pl_in_flight s)
      = (Err e, c, fl) \<Longrightarrow>
    prepare_step V s (s\<lparr>pl_cache := (pl_cache s)\<lparr>pc_bundles := c\<rparr>, pl_in_flight := fl,
      pl_workers := take n (pl_workers s) @ drop (Suc n) (pl_workers s)\<rparr>)"
| fetch: "n < length (pl_workers s) \<Longrightarrow> pl_workers s ! n = Fetching q pd required plan r \<Longrightarrow>
    fetched = map_of (map (\<lambda>f. (bf_bundle_digest f, content f)) (fp_missing plan)) \<Longrightarrow>
    (\<And>f. f \<in> set (fp_missing plan) \<Longrightarrow> fetched_ok V required f (content f)) \<Longrightarrow>
    prepare_step V s (s\<lparr>pl_workers := (pl_workers s)[n := Fetched q pd fetched (fp_borrowed plan) r]\<rparr>)"
| install: "n < length (pl_workers s) \<Longrightarrow> pl_workers s ! n = Fetched q pd fetched borrowed r \<Longrightarrow>
    dom (ps_sessions (pc_store (pl_cache s))) \<subseteq> set session_order \<Longrightarrow>
    cache_install V (pl_cache s) (cacheable_preparation q) pd fetched session_order bundle_order = (res, pc) \<Longrightarrow>
    prepare_step V s (s\<lparr>pl_cache := pc, pl_workers := (pl_workers s)[n := Settling res borrowed r]\<rparr>)"
| leave: "n < length (pl_workers s) \<Longrightarrow> prepare_step V s (release n s)"
| post: "bundle_get (pl_bundles s) d = (Some content, c) \<Longrightarrow>
    prepare_step V s (s\<lparr>pl_cache := (pl_cache s)\<lparr>pc_bundles := c\<rparr>, pl_workers := pl_workers s @ [Posting d]\<rparr>)"
| look: "store_get (pc_store (pl_cache s)) session_id = (p, st) \<Longrightarrow>
    prepare_step V s (s\<lparr>pl_cache := (pl_cache s)\<lparr>pc_store := st\<rparr>\<rparr>)"
| purge: "purge_root_page (pc_store (pl_cache s)) root_id limit order = (done_all, st) \<Longrightarrow>
    prepare_step V s (s\<lparr>pl_cache := (pl_cache s)\<lparr>pc_store := st\<rparr>\<rparr>)"
| consume: "prepare_step V s (s\<lparr>pl_cache := (pl_cache s)\<lparr>pc_store :=
    consume_secret_capability (pc_store (pl_cache s)) session_id capability_ref\<rparr>\<rparr>)"

end
