(* ===== verification/Hand_Programs.thy ===== *)
theory Hand_Programs
  imports Provider_Launch Prepare_Plane Memory_Registry
begin

section \<open>Programs of the production Hand (\<open>hand-brain-aws\<close>)\<close>

text \<open>
  The messages of the ports and of the guest's wire, and programs: trees of calls to the registry, the provider, the
  guest, the definition table, the storage service and the state of the process, with a continuation for every answer.
\<close>

subsection \<open>Requests and messages\<close>

record file_request =
  fq_target :: sandbox_target
  fq_expected_generation :: string
  fq_path :: string
  fq_rest :: bytes

record object_reference =
  or_bytes :: nat
  or_media_type :: "string option"
  or_object_id :: string
  or_sha256 :: string

record transfer_authority =
  ta_put :: bool
  ta_expires_at_ms :: nat
  ta_max_bytes :: nat
  ta_object_id :: string
  ta_url :: string
  ta_headers :: "(string \<times> string) list"

record staged_object =
  so_bytes :: nat
  so_sha256 :: string

datatype file_source = InlineSource string | ObjectSource object_reference transfer_authority

record file_write_request =
  fw_operation_id :: string
  fw_request_digest :: string
  fw_target :: sandbox_target
  fw_expected_generation :: string
  fw_overwrite :: bool
  fw_path :: string
  fw_source :: file_source

record copy_request =
  cp_operation_id :: string
  cp_request_digest :: string
  cp_target :: sandbox_target
  cp_expected_generation :: string
  cp_overwrite :: bool
  cp_path :: string
  cp_import :: bool
  cp_object :: "object_reference option"
  cp_transfer :: transfer_authority

text \<open>The entry of a file as Brain's protocol has it; the rest is opaque.\<close>

record port_file =
  pf_bytes :: nat
  pf_sha256 :: "string option"
  pf_rest :: bytes

record copy_body =
  cb_file :: port_file
  cb_object :: "object_reference option"

type_synonym port_result = "copy_body stored_result"
type_synonym port_reservation = "copy_body effect_reservation"

datatype guest_source = GuestInline string | InstalledObject object_reference

record guest_file_write =
  gw_effect :: file_effect_identity
  gw_expected_generation :: string
  gw_overwrite :: bool
  gw_path :: string
  gw_source :: guest_source
  gw_target :: sandbox_target

datatype request_call =
    CallSubmit operation_envelope
  | CallObserve operation_ref bytes
  | CallCancel operation_ref
  | CallAcknowledgeTerminal operation_ref string
  | CallListFiles file_request
  | CallStatFile file_request
  | CallReadFile file_request
  | CallWriteFile guest_file_write
  | CallReserveFileEffect file_effect_identity
  | CallClaimFileEffect file_effect_identity
  | CallCompleteFileEffect port_result
  | CallFindFiles file_request
  | CallGrepFiles file_request
  | CallExecuteSandbox sandbox_execution_request
  | CallWriteStdin write_stdin_request

datatype response_reply =
    ReplySubmit submit_receipt
  | ReplyObserve operation_observation
  | ReplyCancel bytes
  | ReplyAcknowledgeTerminal bytes
  | ReplyListFiles bytes
  | ReplyStatFile port_file
  | ReplyReadFile bytes
  | ReplyWriteFile port_result
  | ReplyReserveFileEffect port_reservation
  | ReplyClaimFileEffect port_reservation
  | ReplyCompleteFileEffect port_result
  | ReplyFindFiles bytes
  | ReplyGrepFiles bytes
  | ReplyExecuteSandbox submit_receipt
  | ReplyWriteStdin write_stdin_receipt

datatype guest_post =
    PostBundle bundle_descriptor bytes
  | PostBinding string sealed_binding
  | PostSecrets install_secrets_request
  | PostObject object_reference staged_object

datatype installed_artifact = ArtifactBundle string string | ArtifactSecrets string

record secret_delivery_request =
  sd_capability_ref :: string
  sd_generation_intent :: string
  sd_root_id :: string
  sd_session_id :: string
  sd_target :: sandbox_target

subsection \<open>Programs\<close>

text \<open>
  Calls that neither the registry nor the provider sees: the guest, the definition table, the storage service, the
  caches and the secret callback, and the wait for the token bucket of \<open>RunMicrovm\<close> in \<open>Control::paced\<close>, which takes as long as it
  takes. An answer has a field for each kind of answer, of which the caller reads its own.
\<close>

datatype ask =
    AskRpc installed_target request_call
  | AskPost installed_target guest_post
  | AskExport installed_target file_request
  | AskForget string
  | AskBinding string string
  | AskPurgeDefinitions string nat
  | AskPreparation string
  | AskBundle string
  | AskConsumeSecret string string
  | AskPurgeSessions string nat
  | AskIsInstalled string installed_artifact
  | AskSetInstalled string installed_artifact
  | AskForgetInstalled string
  | AskSecretPort
  | AskRedeem secret_delivery_request
  | AskFetchObject transfer_authority object_reference
  | AskStageExport nat nat
  | AskPutObject transfer_authority staged_object
  | AskRunPacing

record answer =
  an_reply :: "(aws_error, response_reply) result"
  an_unit :: "(aws_error, unit) result"
  an_file :: "(aws_error, port_file) result"
  an_binding :: "(aws_error, sealed_binding) result"
  an_purged :: "(aws_error, bool) result"
  an_preparation :: "preparation option"
  an_bundle :: "bytes option"
  an_flag :: bool
  an_values :: "(aws_error, string \<rightharpoonup> string) result"
  an_staged :: "(aws_error, staged_object) result"

datatype 'a hand_prog =
    Finished 'a
  | Clock "nat \<Rightarrow> 'a hand_prog"
  | Draw "string \<Rightarrow> 'a hand_prog"
  | RegGet target_key "(materialization_error, durable_target_record option) result \<Rightarrow> 'a hand_prog"
  | RegList string nat "(materialization_error, durable_target_record list) result \<Rightarrow> 'a hand_prog"
  | RegAcquire acquire_target "(materialization_error, acquire_outcome) result \<Rightarrow> 'a hand_prog"
  | RegInstall materialization_lease physical_target nat "(materialization_error, install_outcome) result \<Rightarrow> 'a hand_prog"
  | RegExpire materialization_lease nat "(materialization_error, unit) result \<Rightarrow> 'a hand_prog"
  | RegClose installed_target disposition string nat "(materialization_error, unit) result \<Rightarrow> 'a hand_prog"
  | RegPurge target_key string "(materialization_error, unit) result \<Rightarrow> 'a hand_prog"
  | VmGet string "(control_failure, microvm_state) result \<Rightarrow> 'a hand_prog"
  | VmTerminate string "(control_failure, unit) result \<Rightarrow> 'a hand_prog"
  | VmRun materialization_lease nat exact_run_request "(control_failure, string) result \<Rightarrow> 'a hand_prog"
  | Ask ask "answer \<Rightarrow> 'a hand_prog"

text \<open>
  \<open>VmRun\<close> is the call with the attempts that follow a throttled one. It carries, beside the request, the lease on which it is made and the instant at which its
  dispatch was admitted; the provider sees the request only.
\<close>

primrec hp_bind :: "'a hand_prog \<Rightarrow> ('a \<Rightarrow> 'b hand_prog) \<Rightarrow> 'b hand_prog" where
  "hp_bind (Finished x) f = f x"
| "hp_bind (Clock c) f = Clock (\<lambda>r. hp_bind (c r) f)"
| "hp_bind (Draw c) f = Draw (\<lambda>r. hp_bind (c r) f)"
| "hp_bind (RegGet k c) f = RegGet k (\<lambda>r. hp_bind (c r) f)"
| "hp_bind (RegList root limit c) f = RegList root limit (\<lambda>r. hp_bind (c r) f)"
| "hp_bind (RegAcquire q c) f = RegAcquire q (\<lambda>r. hp_bind (c r) f)"
| "hp_bind (RegInstall l p n c) f = RegInstall l p n (\<lambda>r. hp_bind (c r) f)"
| "hp_bind (RegExpire l n c) f = RegExpire l n (\<lambda>r. hp_bind (c r) f)"
| "hp_bind (RegClose t d reason n c) f = RegClose t d reason n (\<lambda>r. hp_bind (c r) f)"
| "hp_bind (RegPurge k gen c) f = RegPurge k gen (\<lambda>r. hp_bind (c r) f)"
| "hp_bind (VmGet i c) f = VmGet i (\<lambda>r. hp_bind (c r) f)"
| "hp_bind (VmTerminate i c) f = VmTerminate i (\<lambda>r. hp_bind (c r) f)"
| "hp_bind (VmRun l t request c) f = VmRun l t request (\<lambda>r. hp_bind (c r) f)"
| "hp_bind (Ask q c) f = Ask q (\<lambda>r. hp_bind (c r) f)"

lemma hp_bind_assoc: "hp_bind (hp_bind p f) g = hp_bind p (\<lambda>x. hp_bind (f x) g)"
  by (induction p) simp_all

text \<open>The operator \<open>?\<close> on a program and on a value.\<close>

definition hp_value :: "('e, 'a) result \<Rightarrow> ('a \<Rightarrow> ('e, 'b) result hand_prog) \<Rightarrow> ('e, 'b) result hand_prog" where
  "hp_value r f = (case r of Err e \<Rightarrow> Finished (Err e) | Ok x \<Rightarrow> f x)"

definition hp_try ::
    "('e, 'a) result hand_prog \<Rightarrow> ('a \<Rightarrow> ('e, 'b) result hand_prog) \<Rightarrow> ('e, 'b) result hand_prog" where
  "hp_try p f = hp_bind p (\<lambda>r. hp_value r f)"

record hand_env =
  en_aws :: aws
  en_codec :: launch_codec
  en_digest :: spec_digest_fn
  en_image :: string
  file_write_digest :: "file_write_request \<Rightarrow> string"
  copy_digest :: "copy_request \<Rightarrow> string"
  parses_path :: "string \<Rightarrow> bool"
  https_url :: "string \<Rightarrow> bool option"

text \<open>
  \<open>parses_path\<close> is the parser of a path of Brain's protocol; \<open>https_url\<close> says of a URL that parses whether it is HTTPS with a
  host, without credentials and fragment.
\<close>

text \<open>An answer of the registry, with its error as Brain sees it.\<close>

abbreviation reg :: "hand_env \<Rightarrow> (materialization_error, 'a) result \<Rightarrow> (aws_error, 'a) result" where
  "reg E r \<equiv> map_err (Aws_Requests.materialization_error (en_aws E)) r"

end
