(* ===== verification/Hand_Ports.thy ===== *)
theory Hand_Ports
  imports Hand_Programs
begin

section \<open>The handlers of the production Hand (\<open>hand.rs\<close>, \<open>ports/*.rs\<close>)\<close>

text \<open>
  The handlers as programs. What a call does is the world's business (\<open>Port_World\<close>); here any answer may
  come. Locks and permits of the process only take interleavings away and are left out.
\<close>

subsection \<open>Terminations (\<open>hand.rs\<close>)\<close>

datatype provider_liveness = AbsentMachine | TerminatingMachine | LiveMachine

definition liveness_of :: "hand_env \<Rightarrow> (control_failure, microvm_state) result \<Rightarrow> (aws_error, provider_liveness) result" where
  "liveness_of E answer =
     (case answer of
        Err (CGone m) \<Rightarrow> Ok AbsentMachine
      | Ok st \<Rightarrow> if is_terminated st then Ok AbsentMachine
                else if st = VmTerminating then Ok TerminatingMachine else Ok LiveMachine
      | Err e \<Rightarrow> Err (control_error (en_aws E) e))"

definition provider_liveness :: "hand_env \<Rightarrow> string \<Rightarrow> (aws_error, provider_liveness) result hand_prog" where
  "provider_liveness E target_ref = VmGet target_ref (\<lambda>answer. Finished (liveness_of E answer))"

definition confirm_provider_termination :: "hand_env \<Rightarrow> installed_target \<Rightarrow> (aws_error, unit) result hand_prog" where
  "confirm_provider_termination E t =
     hp_try (provider_liveness E (it_target_ref t)) (\<lambda>liveness.
       case liveness of
         AbsentMachine \<Rightarrow> Finished (Ok ())
       | TerminatingMachine \<Rightarrow> Finished (Err (temporary (en_aws E) ''sandbox termination is still in progress''))
       | LiveMachine \<Rightarrow>
           VmTerminate (it_target_ref t) (\<lambda>terminated.
             let reread = hp_try (provider_liveness E (it_target_ref t)) (\<lambda>liveness.
               case liveness of
                 AbsentMachine \<Rightarrow> Finished (Ok ())
               | _ \<Rightarrow> Finished (Err (temporary (en_aws E) ''sandbox termination outcome is not yet confirmed'')))
             in case terminated of
                  Ok _ \<Rightarrow> reread
                | Err (CUnknown m) \<Rightarrow> reread
                | Err (CGone m) \<Rightarrow> Finished (Ok ())
                | Err e \<Rightarrow> Finished (Err (control_error (en_aws E) e))))"

definition forget_target :: "installed_target \<Rightarrow> ('e, unit) result hand_prog" where
  "forget_target t =
     Ask (AskForget (it_target_ref t)) (\<lambda>_. Ask (AskForgetInstalled (it_target_ref t)) (\<lambda>_. Finished (Ok ())))"

definition terminate_target :: "hand_env \<Rightarrow> installed_target \<Rightarrow> string \<Rightarrow> (aws_error, unit) result hand_prog" where
  "terminate_target E t reason =
     hp_try (confirm_provider_termination E t) (\<lambda>_.
     Clock (\<lambda>now. RegClose t Terminated reason now (\<lambda>closed.
     hp_value (reg E closed) (\<lambda>_. forget_target t))))"

definition record_gone :: "hand_env \<Rightarrow> installed_target \<Rightarrow> string \<Rightarrow> (aws_error, unit) result hand_prog" where
  "record_gone E t reason =
     Clock (\<lambda>now. RegClose t Lost reason now (\<lambda>closed.
     hp_value (reg E closed) (\<lambda>_. forget_target t)))"

definition retire_endpoint_lost_target :: "hand_env \<Rightarrow> installed_target \<Rightarrow> (aws_error, unit) result hand_prog" where
  "retire_endpoint_lost_target E t =
     hp_try (confirm_provider_termination E t) (\<lambda>_.
       record_gone E t ''guest supervisor endpoint is permanently unavailable'')"

definition settle_guest_result ::
    "hand_env \<Rightarrow> installed_target \<Rightarrow> (aws_error, 'a) result \<Rightarrow> (aws_error, 'a) result hand_prog" where
  "settle_guest_result E t result =
     (case result of
        Err e \<Rightarrow>
          if he_code e = SandboxGone
          then hp_try (retire_endpoint_lost_target E t) (\<lambda>_. Finished (Err e))
          else Finished (Err e)
      | Ok x \<Rightarrow> Finished (Ok x))"

definition guest_rpc ::
    "hand_env \<Rightarrow> installed_target \<Rightarrow> request_call \<Rightarrow> (aws_error, response_reply) result hand_prog" where
  "guest_rpc E t call = Ask (AskRpc t call) (\<lambda>a. settle_guest_result E t (an_reply a))"

definition guest_submit_rpc ::
    "hand_env \<Rightarrow> installed_target \<Rightarrow> operation_envelope \<Rightarrow> (aws_error, response_reply) result hand_prog" where
  "guest_submit_rpc E t envelope =
     Ask (AskRpc t (CallSubmit envelope)) (\<lambda>a.
       Finished (map_err (classify_submit_delivery_error (en_aws E)) (an_reply a)))"

definition reserve_file_effect ::
    "hand_env \<Rightarrow> installed_target \<Rightarrow> file_effect_identity \<Rightarrow> (aws_error, port_reservation) result hand_prog" where
  "reserve_file_effect E t identity =
     hp_try (guest_rpc E t (CallReserveFileEffect identity)) (\<lambda>reply.
       case reply of ReplyReserveFileEffect r \<Rightarrow> Finished (Ok r)
       | _ \<Rightarrow> Finished (Err (wrong_reply (en_aws E) ''file reservation'')))"

definition claim_file_effect ::
    "hand_env \<Rightarrow> installed_target \<Rightarrow> file_effect_identity \<Rightarrow> (aws_error, port_reservation) result hand_prog" where
  "claim_file_effect E t identity =
     hp_try (guest_rpc E t (CallClaimFileEffect identity)) (\<lambda>reply.
       case reply of ReplyClaimFileEffect r \<Rightarrow> Finished (Ok r)
       | _ \<Rightarrow> Finished (Err (wrong_reply (en_aws E) ''file claim'')))"

subsection \<open>Resolving a target\<close>

definition resolve_target ::
    "hand_env \<Rightarrow> sandbox_target \<Rightarrow> string option \<Rightarrow> (aws_error, installed_target) result hand_prog" where
  "resolve_target E target expected =
     hp_value (target_key_of (en_aws E) target) (\<lambda>key.
     RegGet key (\<lambda>got.
     hp_value (reg E got) (\<lambda>found.
     hp_value (ok_or found (aws_error (en_aws E) SandboxNotMaterialized False ''sandbox has never been materialized'')) (\<lambda>r.
     case Materialization.installed r of
       None \<Rightarrow>
         Finished (Err (case dr_state r of
             Closed d reason at \<Rightarrow> aws_error (en_aws E) SandboxGone False ''sandbox is gone''
           | _ \<Rightarrow> temporary (en_aws E) ''sandbox materialization is in progress''))
     | Some t \<Rightarrow>
         if (case expected of None \<Rightarrow> False | Some g \<Rightarrow> g \<noteq> it_generation t)
         then Finished (Err (generation_error (en_aws E)))
         else Clock (\<lambda>now.
           if it_expires_at_ms t \<le> now
           then hp_try (confirm_provider_termination E t) (\<lambda>_.
                hp_try (record_gone E t ''physical target hard deadline reached'') (\<lambda>_.
                  Finished (Err (aws_error (en_aws E) SandboxGone False ''sandbox physical generation has expired''))))
           else Finished (Ok t))))))"

definition resolve_operation_target :: "hand_env \<Rightarrow> operation_ref \<Rightarrow> (aws_error, installed_target) result hand_prog" where
  "resolve_operation_target E operation =
     hp_try (resolve_target E (of_target operation) (Some (of_generation operation))) (\<lambda>t.
       if it_target_ref t \<noteq> of_target_ref operation then Finished (Err (generation_error (en_aws E)))
       else Finished (Ok t))"

subsection \<open>Materialization\<close>

text \<open>
  \<open>launch\<close> of the launcher and \<open>ensure\<close> of the materializer, call by call. The window is checked once; then the call waits for its
  token bucket, for any time, before it is sent.
\<close>

definition launch_target ::
    "hand_env \<Rightarrow> launch_inputs \<Rightarrow> materialization_lease \<Rightarrow> (launch_error, physical_target) result hand_prog" where
  "launch_target E I l =
     Clock (\<lambda>now.
     hp_value (launch_admit (en_aws E) (en_codec E) (li_region I) l now) (\<lambda>(request, token).
     Ask AskRunPacing (\<lambda>_.
     VmRun l now request (\<lambda>answer. Finished (launch_answer l token answer)))))"

definition expire_answer ::
    "materialization_lease \<Rightarrow> nat \<Rightarrow> materialization_error \<Rightarrow> (materialization_error, 'a) result hand_prog" where
  "expire_answer l now e = RegExpire l now (\<lambda>expired. hp_value expired (\<lambda>_. Finished (Err e)))"

fun control_failure_text :: "control_failure \<Rightarrow> string" where
  "control_failure_text (CCapacity scope retry m) =
     ''capacity exhausted ('' @ scope @ ''); retry after '' @ show_nat retry @ '' ms: '' @ m"
| "control_failure_text (CThrottled m) = ''provider throttle: '' @ m"
| "control_failure_text (CRetryable m) = ''retryable: '' @ m"
| "control_failure_text (CGone m) = ''microvm gone: '' @ m"
| "control_failure_text (CUnknown m) = ''outcome unknown: '' @ m"
| "control_failure_text (CFatal m) = ''fatal: '' @ m"

text \<open>\<open>terminate_stale\<close> of the launcher.\<close>

definition terminate_stale :: "physical_target \<Rightarrow> (string, unit) result hand_prog" where
  "terminate_stale physical =
     VmTerminate (pt_target_ref physical) (\<lambda>terminated. Finished (map_err control_failure_text terminated))"

definition install_launched ::
    "acquire_target \<Rightarrow> materialization_lease \<Rightarrow> physical_target \<Rightarrow> (materialization_error, installed_target) result hand_prog" where
  "install_launched q l physical =
     RegInstall l physical (aq_now_ms q) (\<lambda>outcome. hp_value outcome (\<lambda>outcome.
       case outcome of
         IInstalled t \<Rightarrow> Finished (Ok t)
       | IReservationLost \<Rightarrow>
           hp_bind (terminate_stale physical) (\<lambda>cleanup.
             Finished (Err (MReservationLost (case cleanup of Err m \<Rightarrow> Some m | Ok _ \<Rightarrow> None))))))"

definition launch_refused ::
    "acquire_target \<Rightarrow> materialization_lease \<Rightarrow> launch_error \<Rightarrow> (materialization_error, installed_target) result hand_prog" where
  "launch_refused q l e =
     (case e of
        LCapacity scope retry message \<Rightarrow>
          (if \<not> ml_recovery_attempt l then expire_answer l (aq_now_ms q) (MCapacity scope retry message)
           else Finished (Err (MCapacity scope retry message)))
      | LKnownNoTarget message \<Rightarrow>
          (if ml_recovery_attempt l
           then Finished (Err (MLaunchOutcomeUnknown
                  (''exact launch recovery returned no target; reservation remains fenced: '' @ message)))
           else expire_answer l (aq_now_ms q) (MLaunchRejected message))
      | LRetryableKnownNoTarget message \<Rightarrow>
          (if \<not> ml_recovery_attempt l then expire_answer l (aq_now_ms q) (MLaunchRetryable message)
           else Finished (Err (MLaunchRetryable message)))
      | LOutcomeUnknown message \<Rightarrow> Finished (Err (MLaunchOutcomeUnknown message)))"

definition ensure_target ::
    "hand_env \<Rightarrow> launch_inputs \<Rightarrow> acquire_target \<Rightarrow> (materialization_error, installed_target) result hand_prog" where
  "ensure_target E I q =
     RegAcquire q (\<lambda>outcome. hp_value outcome (\<lambda>outcome.
       case outcome of
         AInstalled t \<Rightarrow> Finished (Ok t)
       | APending gen retry \<Rightarrow> Finished (Err (MPending retry))
       | AGone \<Rightarrow> Finished (Err MGone)
       | ATerminated \<Rightarrow> Finished (Err MTerminated)
       | AAcquired l \<Rightarrow>
           hp_bind (launch_target E I l) (\<lambda>launched.
             case launched of Ok physical \<Rightarrow> install_launched q l physical | Err e \<Rightarrow> launch_refused q l e)))"

definition materialize_target ::
    "hand_env \<Rightarrow> launch_inputs \<Rightarrow> target_key \<Rightarrow> string \<Rightarrow> resource_ceiling \<Rightarrow> network_ceiling \<Rightarrow> string \<Rightarrow> materialization_mode
      \<Rightarrow> (aws_error, installed_target) result hand_prog" where
  "materialize_target E I key owner_session_id resources network resource_class mode =
     (if resource_class \<noteq> RESOURCE_CLASS
      then Finished (Err (aws_error (en_aws E) CapabilityUnavailable False
             ''the MVP plane exposes only the microvm-1gb resource class''))
      else hp_value (target_spec_of (en_aws E) (en_image E) (li_image_version I) resources network resource_class) (\<lambda>spec.
        Clock (\<lambda>now. Draw (\<lambda>hex. Draw (\<lambda>hex'. Draw (\<lambda>hex''.
        hp_value (sealed_acquisition (en_aws E) (en_codec E) I (en_digest E)
            \<lparr>gl_key = key, gl_owner_session_id = owner_session_id, gl_resources = resources, gl_network = network,
             gl_resource_class = resource_class\<rparr>
            (materialize_request key spec (generation_intent mode) (replace_after_loss mode) hex hex' hex'' now)) (\<lambda>q.
        hp_bind (ensure_target E I q) (\<lambda>r. Finished (reg E r)))))))))"

subsection \<open>Routing an operation\<close>

datatype submit_route = Established string string | Lazy

definition submit_route :: "hand_env \<Rightarrow> operation_envelope \<Rightarrow> (aws_error, submit_route) result" where
  "submit_route E envelope =
     (case (oe_target_ref envelope, oe_generation envelope) of
        (Some target_ref, Some generation) \<Rightarrow> Ok (Established target_ref generation)
      | (None, None) \<Rightarrow> Ok Lazy
      | _ \<Rightarrow> Err (aws_invalid (en_aws E)
            ''target_ref and generation must either both be absent or both be present''))"

definition preparation_of :: "hand_env \<Rightarrow> string \<Rightarrow> (aws_error, preparation) result hand_prog" where
  "preparation_of E session_id =
     Ask (AskPreparation session_id) (\<lambda>a. Finished (ok_or (an_preparation a)
       (aws_error (en_aws E) CapabilityUnavailable False
         ''session must be prepared again after Hand control-process recovery'')))"

definition preparation_for_root :: "hand_env \<Rightarrow> string \<Rightarrow> string \<Rightarrow> (aws_error, preparation) result hand_prog" where
  "preparation_for_root E session_id root_id =
     hp_try (preparation_of E session_id) (\<lambda>prep.
       if pq_root_id (pr_request prep) \<noteq> root_id
       then Finished (Err (binding_error (en_aws E) ''prepared session does not belong to the operation root''))
       else Finished (Ok prep))"

definition route_for_submit ::
    "hand_env \<Rightarrow> launch_inputs \<Rightarrow> operation_envelope \<Rightarrow> (aws_error, installed_target) result hand_prog" where
  "route_for_submit E I envelope =
     hp_value (submit_route E envelope) (\<lambda>route.
     hp_try (preparation_for_root E (oe_session_id envelope) (oe_root_id envelope)) (\<lambda>prep.
     hp_value (validate_operation_root_seal (en_aws E) envelope (pr_request prep)) (\<lambda>_.
     case route of
       Established target_ref generation \<Rightarrow>
         hp_value (target_spec_of (en_aws E) (en_image E) (li_image_version I) (pq_resources (pr_request prep))
             (pq_network (pr_request prep)) RESOURCE_CLASS) (\<lambda>spec.
         hp_try (resolve_target E (default_target envelope) (Some generation)) (\<lambda>t.
           if it_target_ref t \<noteq> target_ref \<or> it_spec_digest t \<noteq> en_digest E spec
           then Finished (Err (generation_error (en_aws E)))
           else Finished (Ok t)))
     | Lazy \<Rightarrow>
         hp_value (reg E (for_default_target (oe_root_id envelope))) (\<lambda>key.
           materialize_target E I key (oe_session_id envelope) (pq_resources (pr_request prep))
             (pq_network (pr_request prep)) RESOURCE_CLASS LazyDefault))))"

text \<open>
  The secrets of a session are redeemed once: the capability is consumed before the callback is called.
\<close>

definition redeem_secrets ::
    "hand_env \<Rightarrow> installed_target \<Rightarrow> operation_envelope \<Rightarrow> secret_capability \<Rightarrow> (aws_error, unit) result hand_prog" where
  "redeem_secrets E route envelope capability =
     Ask (AskConsumeSecret (oe_session_id envelope) (sc_capability_ref capability)) (\<lambda>_.
     hp_value (require (parses_locator (aw_brain (en_aws E)) (it_generation route)) (generation_error (en_aws E))) (\<lambda>_.
     Ask (AskRedeem \<lparr>sd_capability_ref = sc_capability_ref capability, sd_generation_intent = it_generation route,
         sd_root_id = oe_root_id envelope, sd_session_id = oe_session_id envelope, sd_target = default_target envelope\<rparr>) (\<lambda>a.
     hp_value (an_values a) (\<lambda>values.
     case secret_material_fits (secret_limits (aw_brain (en_aws E))) (jcs_values (aw_brain (en_aws E)))
            (sc_env_names capability) values of
       Err refusal \<Rightarrow> Finished (Err (aws_error (en_aws E) CapabilityUnavailable False
         (''secret delivery returned material outside the declared bounded environment: '' @ secret_refusal_text refusal)))
     | Ok _ \<Rightarrow>
         Ask (AskPost route (PostSecrets \<lparr>sq_session_id = oe_session_id envelope, sq_generation = it_generation route,
             sq_env_names = sc_env_names capability, sq_values = values\<rparr>)) (\<lambda>a.
         hp_value (an_unit a) (\<lambda>_.
         Ask (AskSetInstalled (it_target_ref route) (ArtifactSecrets (oe_session_id envelope))) (\<lambda>_. Finished (Ok ()))))))))"

definition install_secrets_for ::
    "hand_env \<Rightarrow> installed_target \<Rightarrow> operation_envelope \<Rightarrow> sealed_binding \<Rightarrow> (aws_error, unit) result hand_prog" where
  "install_secrets_for E route envelope b =
     (if \<not> (case sb_bundle b of None \<Rightarrow> False | Some d \<Rightarrow> bd_required_env d \<noteq> []) then Finished (Ok ())
      else Ask (AskIsInstalled (it_target_ref route) (ArtifactSecrets (oe_session_id envelope))) (\<lambda>a.
        if an_flag a then Finished (Ok ())
        else Ask (AskIsInstalled (it_target_ref route) (ArtifactSecrets (oe_session_id envelope))) (\<lambda>a.
          if an_flag a then Finished (Ok ())
          else hp_try (preparation_of E (oe_session_id envelope)) (\<lambda>prep.
            hp_value (ok_or (pq_secret_capability (pr_request prep))
                (aws_error (en_aws E) CapabilityUnavailable False
                  ''declared Tool environment requires a fresh preparation capability'')) (\<lambda>capability.
            Ask AskSecretPort (\<lambda>a.
              if \<not> an_flag a
              then Finished (Err (aws_error (en_aws E) CapabilityUnavailable False ''secret delivery port is not attached''))
              else redeem_secrets E route envelope capability))))))"

definition install_bundle_for ::
    "hand_env \<Rightarrow> installed_target \<Rightarrow> operation_envelope \<Rightarrow> sealed_binding \<Rightarrow> bundle_descriptor \<Rightarrow> (aws_error, unit) result hand_prog" where
  "install_bundle_for E route envelope b d =
     Ask (AskIsInstalled (it_target_ref route) (ArtifactBundle (oe_binding_ref envelope) (bd_bundle_digest d))) (\<lambda>a.
       if an_flag a then Finished (Ok ())
       else Ask (AskBundle (bd_bundle_digest d)) (\<lambda>a.
         hp_value (ok_or (an_bundle a) (aws_error (en_aws E) CapabilityUnavailable False
             ''bundle bytes are not cached; Brain must prepare the session again'')) (\<lambda>content.
         Ask (AskPost route (PostBundle d content)) (\<lambda>a.
         hp_value (an_unit a) (\<lambda>_.
         Ask (AskPost route (PostBinding (oe_binding_ref envelope) b)) (\<lambda>a.
         hp_value (an_unit a) (\<lambda>_.
         Ask (AskSetInstalled (it_target_ref route) (ArtifactBundle (oe_binding_ref envelope) (bd_bundle_digest d))) (\<lambda>_.
           Finished (Ok ())))))))))"

definition install_for_operation ::
    "hand_env \<Rightarrow> installed_target \<Rightarrow> operation_envelope \<Rightarrow> (aws_error, unit) result hand_prog" where
  "install_for_operation E route envelope =
     Ask (AskBinding (oe_root_id envelope) (oe_binding_ref envelope)) (\<lambda>a.
     hp_value (an_binding a) (\<lambda>b.
     hp_value (ok_or (sb_bundle b)
         (aws_error (en_aws E) CapabilityUnavailable False ''managed binding has no immutable bundle'')) (\<lambda>d.
     hp_try (install_bundle_for E route envelope b d) (\<lambda>_.
       install_secrets_for E route envelope b))))"

subsection \<open>Operations (\<open>ports/execution.rs\<close>)\<close>

definition port_submit :: "hand_env \<Rightarrow> launch_inputs \<Rightarrow> operation_envelope \<Rightarrow> (aws_error, submit_receipt) result hand_prog" where
  "port_submit E I envelope =
     hp_value (validate_inline_input (en_aws E) envelope) (\<lambda>_.
     hp_value (require (operation_request_digest (aw_brain (en_aws E)) envelope = oe_request_digest envelope)
         (aws_invalid (en_aws E) ''operation request_digest is not canonical'')) (\<lambda>_.
     hp_try (route_for_submit E I envelope) (\<lambda>route.
     hp_bind (install_for_operation E route envelope) (\<lambda>outcome.
     hp_try (settle_guest_result E route outcome) (\<lambda>_.
     hp_try (guest_submit_rpc E route envelope) (\<lambda>reply.
       case reply of ReplySubmit receipt \<Rightarrow> Finished (Ok receipt)
       | _ \<Rightarrow> Finished (Err (wrong_reply (en_aws E) ''submit''))))))))"

definition port_observe ::
    "hand_env \<Rightarrow> operation_ref \<Rightarrow> bytes \<Rightarrow> (aws_error, operation_observation) result hand_prog" where
  "port_observe E operation rest =
     hp_try (resolve_operation_target E operation) (\<lambda>t.
     hp_try (guest_rpc E t (CallObserve operation rest)) (\<lambda>reply.
       case reply of ReplyObserve v \<Rightarrow> Finished (Ok v) | _ \<Rightarrow> Finished (Err (wrong_reply (en_aws E) ''observe''))))"

definition port_cancel :: "hand_env \<Rightarrow> operation_ref \<Rightarrow> (aws_error, bytes) result hand_prog" where
  "port_cancel E operation =
     hp_try (resolve_operation_target E operation) (\<lambda>t.
     hp_try (guest_rpc E t (CallCancel operation)) (\<lambda>reply.
       case reply of ReplyCancel v \<Rightarrow> Finished (Ok v) | _ \<Rightarrow> Finished (Err (wrong_reply (en_aws E) ''cancel''))))"

definition port_acknowledge_terminal :: "hand_env \<Rightarrow> operation_ref \<Rightarrow> string \<Rightarrow> (aws_error, bytes) result hand_prog" where
  "port_acknowledge_terminal E operation digest =
     hp_try (resolve_operation_target E operation) (\<lambda>t.
     hp_try (guest_rpc E t (CallAcknowledgeTerminal operation digest)) (\<lambda>reply.
       case reply of ReplyAcknowledgeTerminal v \<Rightarrow> Finished (Ok v)
       | _ \<Rightarrow> Finished (Err (wrong_reply (en_aws E) ''acknowledgement''))))"

subsection \<open>Sandboxes (\<open>ports/control.rs\<close>)\<close>

definition require_additional_target :: "hand_env \<Rightarrow> sandbox_target \<Rightarrow> (aws_error, unit) result" where
  "require_additional_target E target =
     require (\<not> (st_kind target \<noteq> AdditionalKind \<or> st_sandbox_id target = None))
       (aws_invalid (en_aws E) ''additional sandbox target is required'')"

definition port_create :: "hand_env \<Rightarrow> launch_inputs \<Rightarrow> create_request \<Rightarrow> (aws_error, sandbox_status) result hand_prog" where
  "port_create E I q =
     hp_value (require_additional_target E (cq_target q)) (\<lambda>_.
     hp_try (preparation_of E (st_session_id (cq_target q))) (\<lambda>prep.
     hp_value (require (pq_root_id (pr_request prep) = st_root_id (cq_target q))
         (binding_error (en_aws E) ''additional sandbox target does not belong to the prepared root'')) (\<lambda>_.
     hp_value (validate_resource_ceiling_subset (en_aws E) (cq_resources q) (pq_resources (pr_request prep))) (\<lambda>_.
     hp_value (require (network_ceiling_is_subset (aw_brain (en_aws E)) (cq_network q) (pq_network (pr_request prep)))
         (aws_error (en_aws E) GenerationConflict False
           ''additional sandbox network policy widens the immutable root seal'')) (\<lambda>_.
     hp_value (target_key_of (en_aws E) (cq_target q)) (\<lambda>key.
     hp_try (materialize_target E I key (st_session_id (cq_target q)) (cq_resources q) (cq_network q) (cq_resource_class q)
         (AdditionalMode (cq_generation_intent q))) (\<lambda>t.
       Finished (Ok (running_status (cq_target q) t)))))))))"

definition port_execute ::
    "hand_env \<Rightarrow> sandbox_execution_request \<Rightarrow> (aws_error, submit_receipt) result hand_prog" where
  "port_execute E q =
     hp_value (require_additional_target E (sx_target q)) (\<lambda>_.
     hp_value (require (sandbox_execution_request_digest (aw_brain (en_aws E)) q = sx_request_digest q)
         (aws_invalid (en_aws E) ''sandbox execution request_digest is not canonical'')) (\<lambda>_.
     hp_try (resolve_target E (sx_target q) (Some (sx_expected_generation q))) (\<lambda>t.
     hp_try (guest_rpc E t (CallExecuteSandbox q)) (\<lambda>reply.
       case reply of ReplyExecuteSandbox receipt \<Rightarrow> Finished (Ok receipt)
       | _ \<Rightarrow> Finished (Err (wrong_reply (en_aws E) ''execute''))))))"

definition port_write_stdin :: "hand_env \<Rightarrow> write_stdin_request \<Rightarrow> (aws_error, write_stdin_receipt) result hand_prog" where
  "port_write_stdin E q =
     hp_value (require_additional_target E (ws_target q)) (\<lambda>_.
     hp_value (require (write_stdin_request_digest (aw_brain (en_aws E)) q = ws_request_digest q)
         (aws_invalid (en_aws E) ''write_stdin request_digest is not canonical'')) (\<lambda>_.
     hp_value (require (\<not> length (ws_text q) > MAX_WRITE_STDIN_BYTES (aw_brain (en_aws E)))
         (aws_invalid (en_aws E) (''write_stdin text exceeds the ''
           @ show_nat (MAX_WRITE_STDIN_BYTES (aw_brain (en_aws E))) @ ''-byte atomic bound''))) (\<lambda>_.
     hp_try (resolve_target E (ws_target q) (Some (ws_expected_generation q))) (\<lambda>t.
     hp_try (guest_rpc E t (CallWriteStdin q)) (\<lambda>reply.
       case reply of ReplyWriteStdin receipt \<Rightarrow> Finished (Ok receipt)
       | _ \<Rightarrow> Finished (Err (wrong_reply (en_aws E) ''stdin'')))))))"

text \<open>The lifecycle of both kinds of targets: resolve, terminate, report.\<close>

definition terminate_resolved ::
    "hand_env \<Rightarrow> sandbox_target \<Rightarrow> string \<Rightarrow> (aws_error, sandbox_status) result hand_prog" where
  "terminate_resolved E target reason =
     hp_try (resolve_target E target None) (\<lambda>t.
     hp_try (terminate_target E t reason) (\<lambda>_.
     Clock (\<lambda>now. Finished (Ok (terminated_status now target t reason)))))"

definition port_terminate :: "hand_env \<Rightarrow> sandbox_target \<Rightarrow> (aws_error, sandbox_status) result hand_prog" where
  "port_terminate E target =
     hp_value (require_additional_target E target) (\<lambda>_.
       terminate_resolved E target ''explicit additional lifecycle operation'')"

subsection \<open>Files (\<open>ports/files.rs\<close>)\<close>

definition gone_by_provider ::
    "hand_env \<Rightarrow> sandbox_target \<Rightarrow> installed_target \<Rightarrow> (aws_error, sandbox_status) result hand_prog" where
  "gone_by_provider E target t =
     hp_try (record_gone E t ''provider reports physical generation gone'') (\<lambda>_.
     Clock (\<lambda>now. Finished (Ok (gone_status now target t ''provider reports physical generation gone''))))"

definition port_status :: "hand_env \<Rightarrow> sandbox_target \<Rightarrow> (aws_error, sandbox_status) result hand_prog" where
  "port_status E target =
     hp_value (target_key_of (en_aws E) target) (\<lambda>key.
     RegGet key (\<lambda>got.
     hp_value (reg E got) (\<lambda>found.
     case found of
       None \<Rightarrow> Finished (Ok (status_from_record target None))
     | Some r \<Rightarrow>
         (case Materialization.installed r of
            None \<Rightarrow> Finished (Ok (status_from_record target (Some r)))
          | Some t \<Rightarrow>
              Clock (\<lambda>now.
                if it_expires_at_ms t \<le> now
                then hp_try (confirm_provider_termination E t) (\<lambda>_.
                     hp_try (record_gone E t ''physical target hard deadline reached'') (\<lambda>_.
                     Clock (\<lambda>now. Finished (Ok (gone_status now target t ''physical target hard deadline reached'')))))
                else VmGet (it_target_ref t) (\<lambda>answer.
                  case answer of
                    Ok st \<Rightarrow>
                      if is_terminated st then gone_by_provider E target t
                      else hp_value (sandbox_state_from_provider (en_aws E) st) (\<lambda>state.
                        Finished (Ok ((status_from_record target (Some r))\<lparr>ss_state := state\<rparr>)))
                  | Err (CGone m) \<Rightarrow> gone_by_provider E target t
                  | Err e \<Rightarrow> Finished (Err (control_error (en_aws E) e))))))))"

definition port_inspect :: "hand_env \<Rightarrow> sandbox_target \<Rightarrow> (aws_error, sandbox_status) result hand_prog" where
  "port_inspect E target = hp_value (require_additional_target E target) (\<lambda>_. port_status E target)"

text \<open>
  \<open>list\<close>, \<open>stat\<close>, \<open>read\<close>, \<open>find\<close> and \<open>grep\<close> have one shape: \<open>call\<close> is sent to the resolved target and \<open>pick\<close>
  takes the reply of that method.
\<close>

definition file_call ::
    "hand_env \<Rightarrow> file_request \<Rightarrow> request_call \<Rightarrow> (response_reply \<Rightarrow> 'a option) \<Rightarrow> string \<Rightarrow> (aws_error, 'a) result hand_prog" where
  "file_call E q call pick context =
     hp_try (resolve_target E (fq_target q) (Some (fq_expected_generation q))) (\<lambda>t.
     hp_try (guest_rpc E t call) (\<lambda>reply.
       Finished (ok_or (pick reply) (wrong_reply (en_aws E) context))))"

definition port_list :: "hand_env \<Rightarrow> file_request \<Rightarrow> (aws_error, bytes) result hand_prog" where
  "port_list E q =
     file_call E q (CallListFiles q) (\<lambda>r. case r of ReplyListFiles v \<Rightarrow> Some v | _ \<Rightarrow> None) ''list''"

definition port_stat :: "hand_env \<Rightarrow> file_request \<Rightarrow> (aws_error, port_file) result hand_prog" where
  "port_stat E q =
     file_call E q (CallStatFile q) (\<lambda>r. case r of ReplyStatFile v \<Rightarrow> Some v | _ \<Rightarrow> None) ''stat''"

definition port_read :: "hand_env \<Rightarrow> file_request \<Rightarrow> (aws_error, bytes) result hand_prog" where
  "port_read E q =
     file_call E q (CallReadFile q) (\<lambda>r. case r of ReplyReadFile v \<Rightarrow> Some v | _ \<Rightarrow> None) ''read''"

definition port_find :: "hand_env \<Rightarrow> file_request \<Rightarrow> (aws_error, bytes) result hand_prog" where
  "port_find E q =
     file_call E q (CallFindFiles q) (\<lambda>r. case r of ReplyFindFiles v \<Rightarrow> Some v | _ \<Rightarrow> None) ''find''"

definition port_grep :: "hand_env \<Rightarrow> file_request \<Rightarrow> (aws_error, bytes) result hand_prog" where
  "port_grep E q =
     file_call E q (CallGrepFiles q) (\<lambda>r. case r of ReplyGrepFiles v \<Rightarrow> Some v | _ \<Rightarrow> None) ''grep''"

definition write_identity :: "file_write_request \<Rightarrow> file_effect_identity" where
  "write_identity q = \<lparr>fe_kind = EWrite, fe_operation_id = fw_operation_id q, fe_request_digest = fw_request_digest q\<rparr>"

definition project_guest_file_write :: "file_write_request \<Rightarrow> guest_file_write" where
  "project_guest_file_write q =
     \<lparr>gw_effect = write_identity q, gw_expected_generation = fw_expected_generation q, gw_overwrite = fw_overwrite q,
      gw_path = fw_path q,
      gw_source = (case fw_source q of InlineSource text \<Rightarrow> GuestInline text | ObjectSource x a \<Rightarrow> InstalledObject x),
      gw_target = fw_target q\<rparr>"

definition install_object ::
    "hand_env \<Rightarrow> installed_target \<Rightarrow> object_reference \<Rightarrow> staged_object \<Rightarrow> (aws_error, unit) result hand_prog" where
  "install_object E t x staged =
     (if so_bytes staged \<noteq> or_bytes x \<or> so_sha256 staged \<noteq> or_sha256 x
      then Finished (Err (aws_invalid (en_aws E) ''staged object does not match its immutable reference''))
      else Ask (AskPost t (PostObject x staged)) (\<lambda>a. Finished (an_unit a)))"

definition stage_object ::
    "hand_env \<Rightarrow> installed_target \<Rightarrow> object_reference \<Rightarrow> transfer_authority \<Rightarrow> (aws_error, unit) result hand_prog" where
  "stage_object E t x a =
     Ask (AskFetchObject a x) (\<lambda>r.
     hp_value (an_staged r) (\<lambda>staged.
     hp_bind (install_object E t x staged) (\<lambda>outcome. settle_guest_result E t outcome)))"

definition port_write ::
    "hand_env \<Rightarrow> file_write_request \<Rightarrow> (aws_error, copy_body effect_result) result hand_prog" where
  "port_write E q =
     hp_value (require (file_write_digest E q = fw_request_digest q)
         (aws_invalid (en_aws E) ''sandbox file write request_digest is not canonical'')) (\<lambda>_.
     hp_try (resolve_target E (fw_target q) (Some (fw_expected_generation q))) (\<lambda>t.
     hp_try (reserve_file_effect E t (write_identity q)) (\<lambda>reservation.
     case reservation of
       ReplayEffect (WriteResult r) \<Rightarrow> Finished (Ok r)
     | ReplayEffect (CopyResult r) \<Rightarrow> Finished (Err (temporary (en_aws E) ''guest replayed the wrong file effect kind''))
     | NewEffect \<Rightarrow>
         hp_try (case fw_source q of
             InlineSource text \<Rightarrow> Finished (Ok ())
           | ObjectSource x a \<Rightarrow> stage_object E t x a) (\<lambda>_.
         hp_try (guest_rpc E t (CallWriteFile (project_guest_file_write q))) (\<lambda>reply.
           case reply of
             ReplyWriteFile (WriteResult r) \<Rightarrow> Finished (Ok r)
           | _ \<Rightarrow> Finished (Err (wrong_reply (en_aws E) ''write'')))))))"

definition copy_identity :: "copy_request \<Rightarrow> file_effect_kind \<Rightarrow> file_effect_identity" where
  "copy_identity q kind = \<lparr>fe_kind = kind, fe_operation_id = cp_operation_id q, fe_request_digest = cp_request_digest q\<rparr>"

definition transfer_import ::
    "hand_env \<Rightarrow> copy_request \<Rightarrow> installed_target \<Rightarrow> file_effect_identity \<Rightarrow> (aws_error, copy_body effect_result) result hand_prog" where
  "transfer_import E q t identity =
     hp_value (ok_or (cp_object q) (aws_invalid (en_aws E) ''import requires an object reference'')) (\<lambda>x.
     hp_try (stage_object E t x (cp_transfer q)) (\<lambda>_.
     hp_try (guest_rpc E t (CallWriteFile
         \<lparr>gw_effect = identity, gw_expected_generation = cp_expected_generation q, gw_overwrite = cp_overwrite q,
          gw_path = cp_path q, gw_source = InstalledObject x, gw_target = cp_target q\<rparr>)) (\<lambda>reply.
       case reply of
         ReplyWriteFile (CopyResult r) \<Rightarrow> Finished (Ok r)
       | _ \<Rightarrow> Finished (Err (wrong_reply (en_aws E) ''import'')))))"

definition validate_transfer_authority ::
    "hand_env \<Rightarrow> transfer_authority \<Rightarrow> bool \<Rightarrow> nat \<Rightarrow> nat \<Rightarrow> (aws_error, unit) result" where
  "validate_transfer_authority E a put required_bytes now =
     and_then (require (\<not> (ta_put a \<noteq> put \<or> ta_expires_at_ms a \<le> now \<or> ta_max_bytes a < required_bytes
           \<or> ta_max_bytes a > MAX_OBJECT_BYTES \<or> required_bytes > MAX_OBJECT_BYTES))
         (aws_invalid (en_aws E) ''object authority does not cover the bounded transfer'')) (\<lambda>_.
     and_then (ok_or (https_url E (ta_url a)) (aws_invalid (en_aws E) ''transfer authority URL is invalid'')) (\<lambda>sealed.
       require sealed (aws_invalid (en_aws E) ''transfer authority must be a sealed HTTPS URL without credentials'')))"

definition transfer_export ::
    "hand_env \<Rightarrow> copy_request \<Rightarrow> installed_target \<Rightarrow> file_effect_identity
      \<Rightarrow> (aws_error, copy_body effect_result) result hand_prog" where
  "transfer_export E q t identity =
     hp_value (require (parses_path E (cp_path q)) (aws_invalid (en_aws E) ''export path cannot be projected'')) (\<lambda>_.
     Clock (\<lambda>now.
     hp_value (validate_transfer_authority E (cp_transfer q) True 0 now) (\<lambda>_.
     Ask (AskExport t \<lparr>fq_target = cp_target q, fq_expected_generation = cp_expected_generation q, fq_path = cp_path q,
         fq_rest = []\<rparr>) (\<lambda>a.
     hp_try (settle_guest_result E t (an_file a)) (\<lambda>file.
     Ask (AskStageExport (min (ta_max_bytes (cp_transfer q)) MAX_OBJECT_BYTES) (ta_expires_at_ms (cp_transfer q))) (\<lambda>a.
     hp_value (an_staged a) (\<lambda>staged.
     hp_try (claim_file_effect E t identity) (\<lambda>claim.
     case claim of
       ReplayEffect (CopyResult r) \<Rightarrow> Finished (Ok r)
     | ReplayEffect (WriteResult r) \<Rightarrow> Finished (Err (temporary (en_aws E) ''guest replayed the wrong copy claim kind''))
     | NewEffect \<Rightarrow>
         Ask (AskPutObject (cp_transfer q) staged) (\<lambda>a.
         hp_value (an_unit a) (\<lambda>_.
         hp_try (guest_rpc E t (CallCompleteFileEffect (CopyResult
             \<lparr>er_operation_id = cp_operation_id q, er_request_digest = cp_request_digest q, er_replayed = False,
              er_body = \<lparr>cb_file = file\<lparr>pf_bytes := so_bytes staged, pf_sha256 := Some (so_sha256 staged)\<rparr>,
                cb_object = Some \<lparr>or_bytes = so_bytes staged, or_media_type = None, or_object_id = ta_object_id (cp_transfer q),
                  or_sha256 = so_sha256 staged\<rparr>\<rparr>\<rparr>))) (\<lambda>reply.
           case reply of
             ReplyCompleteFileEffect (CopyResult r) \<Rightarrow> Finished (Ok r)
           | _ \<Rightarrow> Finished (Err (wrong_reply (en_aws E) ''copy completion'')))))))))))))"

definition port_transfer ::
    "hand_env \<Rightarrow> copy_request \<Rightarrow> (aws_error, copy_body effect_result) result hand_prog" where
  "port_transfer E q =
     hp_value (require (copy_digest E q = cp_request_digest q)
         (aws_invalid (en_aws E) ''sandbox copy request_digest is not canonical'')) (\<lambda>_.
     hp_try (resolve_target E (cp_target q) (Some (cp_expected_generation q))) (\<lambda>t.
     let identity = copy_identity q (if cp_import q then CopyImport else CopyExport) in
     hp_try (reserve_file_effect E t identity) (\<lambda>reservation.
     case reservation of
       ReplayEffect (CopyResult r) \<Rightarrow> Finished (Ok r)
     | ReplayEffect (WriteResult r) \<Rightarrow> Finished (Err (temporary (en_aws E) ''guest replayed the wrong copy effect kind''))
     | NewEffect \<Rightarrow>
         if cp_import q then transfer_import E q t identity else transfer_export E q t identity)))"

subsection \<open>Sessions and roots (\<open>ports/preparation.rs\<close>)\<close>

definition require_default_target :: "hand_env \<Rightarrow> sandbox_target \<Rightarrow> (aws_error, unit) result" where
  "require_default_target E target =
     require (\<not> (st_kind target \<noteq> DefaultKind \<or> st_sandbox_id target \<noteq> None))
       (aws_invalid (en_aws E) ''default sandbox target is required'')"

definition port_materialize_default ::
    "hand_env \<Rightarrow> launch_inputs \<Rightarrow> create_request \<Rightarrow> (aws_error, sandbox_status) result hand_prog" where
  "port_materialize_default E I q =
     hp_value (require_default_target E (cq_target q)) (\<lambda>_.
     hp_try (preparation_for_root E (st_session_id (cq_target q)) (st_root_id (cq_target q))) (\<lambda>prep.
     hp_value (require_exact_root_seal (en_aws E) q (pr_request prep)) (\<lambda>_.
     hp_value (target_key_of (en_aws E) (cq_target q)) (\<lambda>key.
     hp_try (materialize_target E I key (st_session_id (cq_target q)) (pq_resources (pr_request prep))
         (pq_network (pr_request prep)) (cq_resource_class q) (ExplicitDefault (cq_generation_intent q))) (\<lambda>t.
       Finished (Ok (running_status (cq_target q) t)))))))"

definition port_dematerialize_default :: "hand_env \<Rightarrow> sandbox_target \<Rightarrow> (aws_error, sandbox_status) result hand_prog" where
  "port_dematerialize_default E target =
     hp_value (require_default_target E target) (\<lambda>_.
       terminate_resolved E target ''explicit default lifecycle operation'')"

datatype purge_step = Purged | Unresolved

definition purge_installed :: "hand_env \<Rightarrow> installed_target \<Rightarrow> string \<Rightarrow> (aws_error, purge_step) result hand_prog" where
  "purge_installed E t generation =
     hp_try (terminate_target E t ''root purge'') (\<lambda>_.
     RegPurge (it_key t) generation (\<lambda>r. hp_value (reg E r) (\<lambda>_. Finished (Ok Purged))))"

text \<open>The exact launch is replayed; what it resolves to is installed and terminated.\<close>

definition install_recovered ::
    "hand_env \<Rightarrow> materialization_lease \<Rightarrow> physical_target \<Rightarrow> (aws_error, purge_step) result hand_prog" where
  "install_recovered E l physical =
     Clock (\<lambda>now.
     RegInstall l physical now (\<lambda>outcome.
     hp_value (reg E outcome) (\<lambda>outcome.
     case outcome of
       IInstalled t \<Rightarrow> purge_installed E t (it_generation t)
     | IReservationLost \<Rightarrow>
         hp_bind (terminate_stale physical) (\<lambda>stale.
         hp_value (map_err (temporary (en_aws E)) stale) (\<lambda>_. Finished (Ok Unresolved))))))"

definition replay_launch ::
    "hand_env \<Rightarrow> launch_inputs \<Rightarrow> materialization_lease \<Rightarrow> (aws_error, purge_step) result hand_prog" where
  "replay_launch E I l =
     hp_value (reg E (from_durable (en_codec E) l)) (\<lambda>_.
     hp_bind (launch_target E I l) (\<lambda>launched.
     hp_value (reg E (map_err recovery_launch_error launched)) (install_recovered E l)))"

definition recover_acquired ::
    "hand_env \<Rightarrow> launch_inputs \<Rightarrow> nat \<Rightarrow> acquire_outcome \<Rightarrow> (aws_error, purge_step) result hand_prog" where
  "recover_acquired E I now outcome =
     (case outcome of
        AAcquired fresh \<Rightarrow>
          if ml_recovery_attempt fresh then replay_launch E I fresh
          else RegExpire fresh now (\<lambda>expired. hp_value (reg E expired) (\<lambda>_. Finished (Ok Unresolved)))
      | AInstalled t \<Rightarrow> purge_installed E t (it_generation t)
      | _ \<Rightarrow> Finished (Ok Unresolved))"

definition recover_materializing ::
    "hand_env \<Rightarrow> launch_inputs \<Rightarrow> durable_target_record \<Rightarrow> (aws_error, purge_step) result hand_prog" where
  "recover_materializing E I r =
     Clock (\<lambda>now.
     hp_value (reg E (recovery_lease r)) (\<lambda>l.
     if ml_lease_expires_at_ms l \<le> now
     then RegExpire l now (\<lambda>expired. hp_value (reg E expired) (\<lambda>_. Finished (Ok Unresolved)))
     else if ml_target_expires_at_ms l \<le> now \<or> ml_attempt_expires_at_ms l > now then Finished (Ok Unresolved)
     else Draw (\<lambda>hex. RegAcquire (recovery_request l hex now) (\<lambda>outcome.
       hp_value (reg E outcome) (recover_acquired E I now)))))"

definition purge_one_target ::
    "hand_env \<Rightarrow> launch_inputs \<Rightarrow> durable_target_record \<Rightarrow> (aws_error, purge_step) result hand_prog" where
  "purge_one_target E I r =
     (case Materialization.installed r of
        Some t \<Rightarrow>
          hp_try (terminate_target E t ''root purge'') (\<lambda>_.
          RegPurge (dr_key r) (dr_generation r) (\<lambda>p. hp_value (reg E p) (\<lambda>_. Finished (Ok Purged))))
      | None \<Rightarrow>
          (case dr_state r of
             Closed d reason at \<Rightarrow>
               RegPurge (dr_key r) (dr_generation r) (\<lambda>p. hp_value (reg E p) (\<lambda>_. Finished (Ok Purged)))
           | _ \<Rightarrow> recover_materializing E I r))"

fun purge_targets ::
    "hand_env \<Rightarrow> launch_inputs \<Rightarrow> bool \<Rightarrow> durable_target_record list \<Rightarrow> (aws_error, bool) result hand_prog" where
  "purge_targets E I unresolved [] = Finished (Ok unresolved)"
| "purge_targets E I unresolved (r # rs) =
     hp_try (purge_one_target E I r) (\<lambda>verdict. purge_targets E I (unresolved \<or> verdict = Unresolved) rs)"

definition MAX_TARGETS_PER_PURGE_ATTEMPT :: nat where "MAX_TARGETS_PER_PURGE_ATTEMPT = 25"

definition port_purge_tree :: "hand_env \<Rightarrow> launch_inputs \<Rightarrow> string \<Rightarrow> (aws_error, unit) result hand_prog" where
  "port_purge_tree E I root_id =
     RegList root_id MAX_TARGETS_PER_PURGE_ATTEMPT (\<lambda>page.
     hp_value (reg E page) (\<lambda>records.
     hp_try (purge_targets E I False records) (\<lambda>unresolved.
     RegList root_id 1 (\<lambda>rest.
     hp_value (reg E rest) (\<lambda>rest.
     if unresolved \<or> rest \<noteq> []
     then Finished (Err (temporary (en_aws E) ''sandbox tree cleanup is incomplete; bounded purge will retry''))
     else Ask (AskPurgeDefinitions root_id MAX_TARGETS_PER_PURGE_ATTEMPT) (\<lambda>a.
       hp_value (an_purged a) (\<lambda>purged.
       if \<not> purged
       then Finished (Err (temporary (en_aws E) ''sandbox definition cleanup is incomplete; bounded purge will retry''))
       else Ask (AskPurgeSessions root_id MAX_TARGETS_PER_PURGE_ATTEMPT) (\<lambda>a.
         if \<not> an_flag a
         then Finished (Err (temporary (en_aws E) ''session preparation cleanup is incomplete; bounded purge will retry''))
         else Finished (Ok ())))))))))"

subsection \<open>Requests\<close>

datatype port_request =
    PortSubmit operation_envelope
  | PortObserve operation_ref bytes
  | PortCancel operation_ref
  | PortAcknowledge operation_ref string
  | PortCreate create_request
  | PortInspect sandbox_target
  | PortExecute sandbox_execution_request
  | PortWriteStdin write_stdin_request
  | PortTerminate sandbox_target
  | PortStatus sandbox_target
  | PortList file_request
  | PortStat file_request
  | PortRead file_request
  | PortWrite file_write_request
  | PortFind file_request
  | PortGrep file_request
  | PortTransfer copy_request
  | PortMaterializeDefault create_request
  | PortDematerializeDefault sandbox_target
  | PortPurgeTree string

definition answered :: "('e, 'a) result hand_prog \<Rightarrow> ('e, unit) result hand_prog" where
  "answered p = hp_try p (\<lambda>_. Finished (Ok ()))"

text \<open>What a request runs; the answer itself is dropped.\<close>

fun serve_port :: "hand_env \<Rightarrow> launch_inputs \<Rightarrow> port_request \<Rightarrow> (aws_error, unit) result hand_prog" where
  "serve_port E I (PortSubmit q) = answered (port_submit E I q)"
| "serve_port E I (PortObserve q rest) = answered (port_observe E q rest)"
| "serve_port E I (PortCancel q) = answered (port_cancel E q)"
| "serve_port E I (PortAcknowledge q digest) = answered (port_acknowledge_terminal E q digest)"
| "serve_port E I (PortCreate q) = answered (port_create E I q)"
| "serve_port E I (PortInspect t) = answered (port_inspect E t)"
| "serve_port E I (PortExecute q) = answered (port_execute E q)"
| "serve_port E I (PortWriteStdin q) = answered (port_write_stdin E q)"
| "serve_port E I (PortTerminate t) = answered (port_terminate E t)"
| "serve_port E I (PortStatus t) = answered (port_status E t)"
| "serve_port E I (PortList q) = answered (port_list E q)"
| "serve_port E I (PortStat q) = answered (port_stat E q)"
| "serve_port E I (PortRead q) = answered (port_read E q)"
| "serve_port E I (PortWrite q) = answered (port_write E q)"
| "serve_port E I (PortFind q) = answered (port_find E q)"
| "serve_port E I (PortGrep q) = answered (port_grep E q)"
| "serve_port E I (PortTransfer q) = answered (port_transfer E q)"
| "serve_port E I (PortMaterializeDefault q) = answered (port_materialize_default E I q)"
| "serve_port E I (PortDematerializeDefault t) = answered (port_dematerialize_default E t)"
| "serve_port E I (PortPurgeTree root) = answered (port_purge_tree E I root)"

end
