(* ===== verification/Fleet.thy ===== *)
theory Fleet
  imports Provider_Launch Target_Plane
begin

section \<open>The fleet: what a plane may do to its registry and its machines\<close>

text \<open>
  A specification of the plane: the registry of targets together with the machines
  that the provider runs. The registry is the in-memory one of \<open>Memory_Registry\<close>, the reference
  implementation of the ports, in the place of the DynamoDB one. A step is a single effect on either, with the condition under which the plane may have it;
  \<open>Port_World\<close> and \<open>Port_Refinement\<close> show that the handlers of \<open>hand-brain-aws\<close> have no others. Assumed of the
  provider: a client token creates at most one machine,
  the identity of a machine is not used again, a machine ends by itself after the lifetime of its request. There is no bound
  on the delay between the admission of a launch and its effect, nor on the instant of an installation.
\<close>

subsection \<open>The world\<close>

text \<open>A machine: the client token that created it, when, and the instant at which its launch had been admitted.\<close>

record machine =
  mc_token :: string
  mc_born :: nat
  mc_admitted :: nat

text \<open>
  \<open>ft_open\<close> are the leases whose launcher may still have a machine created, \<open>ft_sent\<close> those whose call was sent and
  when; \<open>ft_created\<close> is the provider's memory of client tokens, with the attempt whose call created the machine;
  \<open>ft_reservations\<close> the reservation ids that were drawn, with their key and spec; \<open>ft_listed\<close> the leases a purge read;
  \<open>ft_confirmed\<close> the targets whose termination was confirmed.
\<close>

record fleet =
  ft_plane :: "memory_target_registry plane"
  ft_now :: nat
  ft_machines :: "string \<rightharpoonup> machine"
  ft_ids :: "string set"
  ft_created :: "string \<rightharpoonup> string \<times> string"
  ft_open :: "materialization_lease set"
  ft_sent :: "(materialization_lease \<times> nat) set"
  ft_reservations :: "string \<rightharpoonup> target_key \<times> target_spec"
  ft_listed :: "materialization_lease set"
  ft_confirmed :: "installed_target set"

abbreviation ft_registry :: "fleet \<Rightarrow> memory_target_registry" where
  "ft_registry s \<equiv> pl_registry (ft_plane s)"

abbreviation ft_rows :: "fleet \<Rightarrow> target_key \<rightharpoonup> durable_target_record" where
  "ft_rows s \<equiv> mr_records (ft_registry s)"

text \<open>
  The lease of a target outlasts its dispatch window and its lifetime by a minute. A machine is punctual
  when it was created within that minute of the admission of its launch; the code checks the window before the call waits for
  the pacing, so it does not ensure this.
\<close>

definition DISPATCH_SLACK_MS :: nat where "DISPATCH_SLACK_MS = 60000"

definition punctual :: "machine \<Rightarrow> bool" where
  "punctual m \<longleftrightarrow> mc_born m \<le> mc_admitted m + DISPATCH_SLACK_MS"

definition fleet_start :: "memory_target_registry \<Rightarrow> fleet" where
  "fleet_start g =
     \<lparr>ft_plane = memory_plane g, ft_now = 0, ft_machines = Map.empty, ft_ids = {}, ft_created = Map.empty, ft_open = {},
      ft_sent = {}, ft_reservations = Map.empty, ft_listed = {}, ft_confirmed = {}\<rparr>"

text \<open>The requests of \<open>materialize\<close> and of a purge use the durations of the deployment.\<close>

definition deployment_times :: "acquire_target \<Rightarrow> bool" where
  "deployment_times q \<longleftrightarrow> aq_lease_duration_ms q = TARGET_LEASE_MS \<and> aq_target_lifetime_ms q = TARGET_LIFETIME_MS"

inductive fleet_step :: "aws \<Rightarrow> launch_codec \<Rightarrow> string \<Rightarrow> spec_digest_fn \<Rightarrow> target_spec set \<Rightarrow> fleet \<Rightarrow> fleet \<Rightarrow> bool"
  for V K zone dg S where
  tick: "ft_now s \<le> n \<Longrightarrow>
    fleet_step V K zone dg S s
      (s\<lparr>ft_now := n, ft_machines := (\<lambda>i. case ft_machines s i of None \<Rightarrow> None
         | Some m \<Rightarrow> if n < mc_born m + TARGET_LIFETIME_MS then Some m else None)\<rparr>)"
| ends: "fleet_step V K zone dg S s (s\<lparr>ft_machines := (ft_machines s)(i := None)\<rparr>)"
| reserves: "acquire dg (ft_registry s) q = (Ok (AAcquired l), g) \<Longrightarrow> aq_spec q \<in> S \<Longrightarrow>
    aq_attempt_id q \<notin> pl_attempts (ft_plane s) \<Longrightarrow> deployment_times q \<Longrightarrow> aq_now_ms q \<le> ft_now s \<Longrightarrow>
    ft_reservations s (aq_reservation_id q) = None \<Longrightarrow>
    fleet_step V K zone dg S s
      (s\<lparr>ft_plane := (ft_plane s)\<lparr>pl_registry := g, pl_inflight := insert (q, l) (pl_inflight (ft_plane s)),
           pl_attempts := insert (aq_attempt_id q) (pl_attempts (ft_plane s))\<rparr>,
         ft_open := insert l (ft_open s), ft_reservations := (ft_reservations s)(aq_reservation_id q \<mapsto> (aq_key q, aq_spec q))\<rparr>)"
| dispatches: "(q, l) \<in> pl_inflight (ft_plane s) \<Longrightarrow> l \<in> ft_open s \<Longrightarrow>
    launch_admit V K zone l t = Ok (request, token) \<Longrightarrow>
    fleet_step V K zone dg S s (s\<lparr>ft_sent := insert (l, t) (ft_sent s)\<rparr>)"
| creates: "(l, t) \<in> ft_sent s \<Longrightarrow> ft_created s (ml_reservation_id l) = None \<Longrightarrow> i \<notin> ft_ids s \<Longrightarrow>
    fleet_step V K zone dg S s
      (s\<lparr>ft_machines := (ft_machines s)(i \<mapsto> \<lparr>mc_token = ml_reservation_id l, mc_born = ft_now s, mc_admitted = t\<rparr>),
         ft_ids := insert i (ft_ids s),
         ft_created := (ft_created s)(ml_reservation_id l \<mapsto> (i, ml_attempt_id l))\<rparr>)"
| refuses: "(q, l) \<in> pl_inflight (ft_plane s) \<Longrightarrow> \<not> ml_recovery_attempt l \<Longrightarrow>
    (\<And>m. ft_created s (ml_reservation_id l) \<noteq> Some (m, ml_attempt_id l)) \<Longrightarrow>
    fleet_step V K zone dg S s (s\<lparr>ft_open := ft_open s - {l}, ft_sent := {(l', t) \<in> ft_sent s. l' \<noteq> l}\<rparr>)"
| installs: "(q, l) \<in> pl_inflight (ft_plane s) \<Longrightarrow> ft_created s (ml_reservation_id l) = Some (pt_target_ref p, a) \<Longrightarrow>
    fleet_step V K zone dg S s (s\<lparr>ft_plane := (ft_plane s)\<lparr>pl_registry := snd (install (ft_registry s) l p n)\<rparr>\<rparr>)"
| confirms: "ft_created s rid = Some (it_target_ref t, a) \<Longrightarrow> ft_reservations s rid = Some (it_key t, it_spec t) \<Longrightarrow>
    ft_machines s (it_target_ref t) = None \<Longrightarrow>
    fleet_step V K zone dg S s (s\<lparr>ft_confirmed := insert t (ft_confirmed s)\<rparr>)"
| closes: "t \<in> ft_confirmed s \<Longrightarrow>
    fleet_step V K zone dg S s
      (s\<lparr>ft_plane := (ft_plane s)\<lparr>pl_registry := snd (mark_closed (ft_registry s) t d reason n)\<rparr>\<rparr>)"
| lists: "ft_rows s k = Some r \<Longrightarrow> recovery_lease r = Ok l \<Longrightarrow>
    fleet_step V K zone dg S s (s\<lparr>ft_listed := insert l (ft_listed s)\<rparr>)"
| forgets: "l \<in> ft_listed s \<Longrightarrow> ml_lease_expires_at_ms l \<le> ft_now s \<Longrightarrow>
    fleet_step V K zone dg S s (s\<lparr>ft_plane := (ft_plane s)\<lparr>pl_registry := snd (expire_lease (ft_registry s) l n)\<rparr>\<rparr>)"
| recovers: "l0 \<in> ft_listed s \<Longrightarrow> q = recovery_request l0 hex n \<Longrightarrow> n \<le> ft_now s \<Longrightarrow>
    aq_attempt_id q \<notin> pl_attempts (ft_plane s) \<Longrightarrow> acquire dg (ft_registry s) q = (Ok (AAcquired l), g) \<Longrightarrow>
    fleet_step V K zone dg S s
      (s\<lparr>ft_plane := (ft_plane s)\<lparr>pl_registry := g, pl_inflight := insert (q, l) (pl_inflight (ft_plane s)),
           pl_attempts := insert (aq_attempt_id q) (pl_attempts (ft_plane s))\<rparr>,
         ft_open := (if ml_recovery_attempt l then insert l (ft_open s) else ft_open s)\<rparr>)"
| discards: "(q, l) \<in> pl_inflight (ft_plane s) \<Longrightarrow> l \<notin> ft_open s \<Longrightarrow>
    fleet_step V K zone dg S s (s\<lparr>ft_plane := (ft_plane s)\<lparr>pl_registry := snd (expire_lease (ft_registry s) l n)\<rparr>\<rparr>)"
| purges: "fleet_step V K zone dg S s (s\<lparr>ft_plane := (ft_plane s)\<lparr>pl_registry := purge_row (ft_registry s) k gen\<rparr>\<rparr>)"

end
