(* ===== verification/Port_Discipline.thy ===== *)
theory Port_Discipline
  imports Hand_Ports Fleet
begin

section \<open>What the handlers know before they change anything\<close>

text \<open>
  A weakest precondition for programs. Its state is what a handler has learnt from the answers so
  far; an effect on the registry or the provider is allowed only on the strength of that: a target is
  closed only after the provider said that its machine is absent, a machine is asked for only on a lease that the
  handler itself reserved and within the window, a lease is given back only if no machine can come of it.
\<close>

subsection \<open>Knowledge\<close>

text \<open>
  An instant that has passed, no earlier than any reading of the clock so far (a clock may go back or lag behind); random identifiers drawn and not yet used; targets that were read; those of
  them found gone; leases read from rows; own leases that were not sent to the provider, that were, and that are withdrawn;
  machines that the provider named for a lease.
\<close>

record know =
  kn_now :: nat
  kn_drawn :: "string set"
  kn_targets :: "installed_target set"
  kn_gone :: "installed_target set"
  kn_listed :: "materialization_lease set"
  kn_ready :: "materialization_lease set"
  kn_sent :: "materialization_lease set"
  kn_closed :: "materialization_lease set"
  kn_answered :: "(materialization_lease \<times> string) set"

definition nothing_known :: know where
  "nothing_known = \<lparr>kn_now = 0, kn_drawn = {}, kn_targets = {}, kn_gone = {}, kn_listed = {}, kn_ready = {}, kn_sent = {},
     kn_closed = {}, kn_answered = {}\<rparr>"

definition says_absent :: "(control_failure, microvm_state) result \<Rightarrow> bool" where
  "says_absent answer \<longleftrightarrow> (\<exists>m. answer = Err (CGone m)) \<or> answer = Ok VmTerminated"

definition says_gone :: "(control_failure, unit) result \<Rightarrow> bool" where
  "says_gone answer \<longleftrightarrow> (\<exists>m. answer = Err (CGone m))"

definition learn_rows :: "know \<Rightarrow> durable_target_record set \<Rightarrow> know" where
  "learn_rows k rs =
     k\<lparr>kn_targets := kn_targets k \<union> {t. \<exists>r\<in>rs. Materialization.installed r = Some t},
       kn_listed := kn_listed k \<union> {l. \<exists>r\<in>rs. recovery_lease r = Ok l}\<rparr>"

definition learn_get :: "know \<Rightarrow> (materialization_error, durable_target_record option) result \<Rightarrow> know" where
  "learn_get k got = (case got of Ok (Some r) \<Rightarrow> learn_rows k {r} | _ \<Rightarrow> k)"

definition learn_list :: "know \<Rightarrow> (materialization_error, durable_target_record list) result \<Rightarrow> know" where
  "learn_list k got = (case got of Ok rs \<Rightarrow> learn_rows k (set rs) | _ \<Rightarrow> k)"

definition learn_target :: "know \<Rightarrow> installed_target \<Rightarrow> know" where
  "learn_target k t = k\<lparr>kn_targets := insert t (kn_targets k)\<rparr>"

definition learn_absent :: "know \<Rightarrow> string \<Rightarrow> bool \<Rightarrow> know" where
  "learn_absent k i absent =
     (if absent then k\<lparr>kn_gone := kn_gone k \<union> {t \<in> kn_targets k. it_target_ref t = i}\<rparr> else k)"

definition learn_acquire :: "know \<Rightarrow> bool \<Rightarrow> (materialization_error, acquire_outcome) result \<Rightarrow> know" where
  "learn_acquire k recovering got =
     (case got of
        Ok (AAcquired l) \<Rightarrow>
          if recovering \<and> \<not> ml_recovery_attempt l then k\<lparr>kn_closed := insert l (kn_closed k)\<rparr>
          else k\<lparr>kn_ready := insert l (kn_ready k)\<rparr>
      | Ok (AInstalled t) \<Rightarrow> learn_target k t
      | _ \<Rightarrow> k)"

definition learn_install :: "know \<Rightarrow> (materialization_error, install_outcome) result \<Rightarrow> know" where
  "learn_install k got = (case got of Ok (IInstalled t) \<Rightarrow> learn_target k t | _ \<Rightarrow> k)"

definition refusal :: "materialization_lease \<Rightarrow> (control_failure, string) result \<Rightarrow> bool" where
  "refusal l answer \<longleftrightarrow> \<not> ml_recovery_attempt l \<and> (\<exists>e. answer = Err e \<and> no_target (launch_failure e))"

definition learn_run :: "know \<Rightarrow> materialization_lease \<Rightarrow> (control_failure, string) result \<Rightarrow> know" where
  "learn_run k l answer =
     (if refusal l answer
      then k\<lparr>kn_ready := kn_ready k - {l}, kn_sent := kn_sent k - {l}, kn_closed := insert l (kn_closed k)\<rparr>
      else k\<lparr>kn_ready := kn_ready k - {l}, kn_sent := insert l (kn_sent k),
             kn_answered := kn_answered k \<union> {(l, i) | i. answer = Ok i}\<rparr>)"

lemma learn_run_same [simp]: "kn_targets (learn_run k l a) = kn_targets k" "kn_listed (learn_run k l a) = kn_listed k"
  by (simp_all add: learn_run_def)

text \<open>A request is made with identifiers that were drawn for it, or replays a lease that was read.\<close>

definition may_acquire :: "know \<Rightarrow> bool \<Rightarrow> acquire_target \<Rightarrow> string set \<Rightarrow> bool" where
  "may_acquire k recovering q hs \<longleftrightarrow>
     hs \<subseteq> kn_drawn k \<and> aq_now_ms q \<le> kn_now k \<and> deployment_times q
     \<and> (if recovering
        then \<exists>l\<in>kn_listed k. \<exists>hex n. q = recovery_request l hex n \<and> hs = {hex}
        else \<exists>hex hex'. aq_reservation_id q = random_identifier ''reservation'' hex
               \<and> aq_attempt_id q = random_identifier ''attempt'' hex' \<and> hs = {hex, hex'})"

definition may_expire :: "know \<Rightarrow> materialization_lease \<Rightarrow> bool" where
  "may_expire k l \<longleftrightarrow>
     l \<in> kn_closed k \<or> l \<in> kn_ready k \<and> \<not> ml_recovery_attempt l \<or> l \<in> kn_listed k \<and> ml_lease_expires_at_ms l \<le> kn_now k"

subsection \<open>The weakest precondition\<close>

primrec wp ::
    "hand_env \<Rightarrow> string \<Rightarrow> 'a hand_prog \<Rightarrow> (know \<Rightarrow> 'a \<Rightarrow> bool) \<Rightarrow> know \<Rightarrow> bool" where
  "wp E zone (Finished x) Q k = Q k x"
| "wp E zone (Clock c) Q k = (\<forall>r n. r \<le> n \<longrightarrow> kn_now k \<le> n \<longrightarrow> wp E zone (c r) Q (k\<lparr>kn_now := n\<rparr>))"
| "wp E zone (Draw c) Q k = (\<forall>h. wp E zone (c h) Q (k\<lparr>kn_drawn := insert h (kn_drawn k)\<rparr>))"
| "wp E zone (RegGet key c) Q k = (\<forall>r. wp E zone (c r) Q (learn_get k r))"
| "wp E zone (RegList root limit c) Q k = (\<forall>r. wp E zone (c r) Q (learn_list k r))"
| "wp E zone (RegAcquire q c) Q k =
     (\<exists>recovering hs. may_acquire k recovering q hs
        \<and> (\<forall>r. wp E zone (c r) Q (learn_acquire (k\<lparr>kn_drawn := kn_drawn k - hs\<rparr>) recovering r)))"
| "wp E zone (RegInstall l p n c) Q k =
     ((l, pt_target_ref p) \<in> kn_answered k \<and> (\<forall>r. wp E zone (c r) Q (learn_install k r)))"
| "wp E zone (RegExpire l n c) Q k =
     (may_expire k l \<and> (\<forall>r. wp E zone (c r) Q (k\<lparr>kn_ready := kn_ready k - {l}\<rparr>)))"
| "wp E zone (RegClose t d reason n c) Q k = (t \<in> kn_gone k \<and> (\<forall>r. wp E zone (c r) Q k))"
| "wp E zone (RegPurge key gen c) Q k = (\<forall>r. wp E zone (c r) Q k)"
| "wp E zone (VmGet i c) Q k = (\<forall>r. wp E zone (c r) Q (learn_absent k i (says_absent r)))"
| "wp E zone (VmTerminate i c) Q k = (\<forall>r. wp E zone (c r) Q (learn_absent k i (says_gone r)))"
| "wp E zone (VmRun l t request c) Q k =
     (l \<in> kn_ready k \<union> kn_sent k \<and> (\<exists>token. launch_admit (en_aws E) (en_codec E) zone l t = Ok (request, token))
      \<and> (\<forall>r. wp E zone (c r) Q (learn_run k l r)))"
| "wp E zone (Ask q c) Q k = (\<forall>a. wp E zone (c a) Q k)"

lemma wp_bind: "wp E zone (hp_bind p f) Q k = wp E zone p (\<lambda>k x. wp E zone (f x) Q k) k"
  by (induction p arbitrary: k) simp_all

lemma wp_value:
  "wp E zone (hp_value r f) Q k = (case r of Err e \<Rightarrow> Q k (Err e) | Ok x \<Rightarrow> wp E zone (f x) Q k)"
  by (simp add: hp_value_def split: sum.split)

lemma wp_try:
  "wp E zone (hp_try p f) Q k = wp E zone p (\<lambda>k r. case r of Err e \<Rightarrow> Q k (Err e) | Ok x \<Rightarrow> wp E zone (f x) Q k) k"
  by (simp add: hp_try_def wp_bind wp_value)

lemmas wp_compose = wp_bind wp_value wp_try

subsection \<open>Terminations\<close>

lemma liveness_wp:
  assumes "\<And>G r. kn_gone k \<subseteq> G \<Longrightarrow> (r = Ok AbsentMachine \<Longrightarrow> {t \<in> kn_targets k. it_target_ref t = i} \<subseteq> G) \<Longrightarrow> Q (k\<lparr>kn_gone := G\<rparr>) r"
  shows "wp E zone (provider_liveness E i) Q k"
proof -
  have "liveness_of E r = Ok AbsentMachine \<Longrightarrow> says_absent r" for r
    by (auto simp: liveness_of_def says_absent_def is_terminated_def split: sum.splits control_failure.splits if_splits)
  then have "Q (learn_absent k i (says_absent r)) (liveness_of E r)" for r
    using assms [of "kn_gone k \<union> {t \<in> kn_targets k. it_target_ref t = i}" "liveness_of E r"]
      assms [of "kn_gone k" "liveness_of E r"] by (cases "says_absent r") (auto simp: learn_absent_def)
  then show ?thesis unfolding provider_liveness_def by simp
qed

lemma confirm_wp:
  assumes t: "t \<in> kn_targets k"
    and Q: "\<And>G r. (r = Ok () \<Longrightarrow> t \<in> G) \<Longrightarrow> Q (k\<lparr>kn_gone := G\<rparr>) r"
  shows "wp E zone (confirm_provider_termination E t) Q k"
  unfolding confirm_provider_termination_def wp_try
proof (rule liveness_wp, goal_cases)
  case (1 G r)
  have reread: "wp E zone (hp_try (provider_liveness E (it_target_ref t)) (\<lambda>liveness. case liveness of
      AbsentMachine \<Rightarrow> Finished (Ok ()) | _ \<Rightarrow> Finished (Err (temporary (en_aws E) m)))) Q (k\<lparr>kn_gone := G'\<rparr>)" for G' m
    unfolding wp_try by (rule liveness_wp) (use t Q in \<open>auto split: sum.splits provider_liveness.splits\<close>)
  show ?case
    using 1 t Q reread
    by (auto simp: Let_def learn_absent_def says_gone_def split: sum.splits provider_liveness.splits control_failure.splits)
qed

lemma forget_wp: "Q k (Ok ()) \<Longrightarrow> wp E zone (forget_target t) Q k"
  by (simp add: forget_target_def)

lemma record_gone_wp:
  assumes "t \<in> kn_gone k" and "\<And>n r. Q (k\<lparr>kn_now := n\<rparr>) r"
  shows "wp E zone (record_gone E t reason) Q k"
  using assms by (auto simp: record_gone_def wp_value intro!: forget_wp split: sum.split)

lemma terminate_wp:
  assumes "t \<in> kn_targets k" and "\<And>G n r. Q (k\<lparr>kn_gone := G, kn_now := n\<rparr>) r"
  shows "wp E zone (terminate_target E t reason) Q k"
  unfolding terminate_target_def wp_try
proof (rule confirm_wp [OF assms(1)], goal_cases)
  case (1 G r)
  then show ?case using assms(2) [where G = G and n = "kn_now k"] assms(2) by (auto simp: wp_value intro!: forget_wp split: sum.split)
qed

lemma settle_wp:
  assumes "t \<in> kn_targets k" and "\<And>G n r. Q (k\<lparr>kn_gone := G, kn_now := n\<rparr>) r"
  shows "wp E zone (settle_guest_result E t result) Q k"
proof -
  have same: "Q k r" for r using assms(2) [where G = "kn_gone k" and n = "kn_now k"] by simp
  have "wp E zone (retire_endpoint_lost_target E t)
      (\<lambda>k r. case r of Err e \<Rightarrow> Q k (Err e) | Ok x \<Rightarrow> Q k (Err e')) k" for e'
    unfolding retire_endpoint_lost_target_def wp_try
  proof (rule confirm_wp [OF assms(1)], goal_cases)
    case (1 G r)
    have "wp E zone (record_gone E t reason) (\<lambda>k r. case r of Err e \<Rightarrow> Q k (Err e) | Ok x \<Rightarrow> Q k (Err e')) (k\<lparr>kn_gone := G\<rparr>)"
      if "t \<in> G" for reason by (rule record_gone_wp) (use that assms(2) in \<open>auto split: sum.split\<close>)
    then show ?case using 1 assms(2) [where G = G and n = "kn_now k"] by (auto split: sum.split)
  qed
  then show ?thesis using same by (auto simp: settle_guest_result_def wp_try split: sum.split)
qed

lemma rpc_wp:
  assumes "t \<in> kn_targets k" and "\<And>G n r. Q (k\<lparr>kn_gone := G, kn_now := n\<rparr>) r"
  shows "wp E zone (guest_rpc E t call) Q k"
  unfolding guest_rpc_def by (simp add: settle_wp assms)

lemma reserve_effect_wp:
  assumes "t \<in> kn_targets k" and "\<And>G n r. Q (k\<lparr>kn_gone := G, kn_now := n\<rparr>) r"
  shows "wp E zone (reserve_file_effect E t i) Q k" and "wp E zone (claim_file_effect E t i) Q k"
  unfolding reserve_file_effect_def claim_file_effect_def wp_try
  by (rule rpc_wp [OF assms(1)], simp add: assms(2) split: sum.split response_reply.split)+

subsection \<open>Resolving and materializing\<close>

lemma resolve_wp:
  assumes "\<And>k t. t \<in> kn_targets k \<Longrightarrow> Q k (Ok t)" and "\<And>k e. Q k (Err e)"
  shows "wp E zone (resolve_target E target expected) Q k"
proof -
  have "wp E zone (hp_try (confirm_provider_termination E t) (\<lambda>_. hp_try (record_gone E t reason) (\<lambda>_. Finished (Err e')))) Q k"
    if "t \<in> kn_targets k" for t reason e' k
    unfolding wp_try
    by (rule confirm_wp [OF that]) (use assms(2) in \<open>auto intro!: record_gone_wp split: sum.split\<close>)
  then show ?thesis
    using assms
    by (auto simp: resolve_target_def wp_value learn_get_def learn_rows_def ok_or_def split: sum.split option.split)
qed

lemma resolve_operation_wp:
  assumes "\<And>k t. t \<in> kn_targets k \<Longrightarrow> Q k (Ok t)" and "\<And>k e. Q k (Err e)"
  shows "wp E zone (resolve_operation_target E operation) Q k"
  unfolding resolve_operation_target_def wp_try by (rule resolve_wp) (use assms in auto)

abbreviation grows :: "know \<Rightarrow> know \<Rightarrow> bool" where
  "grows k k' \<equiv> kn_targets k \<subseteq> kn_targets k' \<and> kn_listed k \<subseteq> kn_listed k'"

lemma launch_wp:
  assumes "l \<in> kn_ready k" and "zone = li_region I"
    and "\<And>n p. (l, pt_target_ref p) \<in> kn_answered (learn_run (k\<lparr>kn_now := n\<rparr>) l (Ok (pt_target_ref p))) \<Longrightarrow>
      Q (learn_run (k\<lparr>kn_now := n\<rparr>) l (Ok (pt_target_ref p))) (Ok p)"
    and "\<And>k' e. grows k k' \<Longrightarrow> (no_target e \<Longrightarrow> \<not> ml_recovery_attempt l \<Longrightarrow> may_expire k' l) \<Longrightarrow> Q k' (Err e)"
  shows "wp E zone (launch_target E I l) Q k"
  unfolding launch_target_def wp.simps
proof (intro allI impI, goal_cases)
  case (1 now n)
  let ?k = "k\<lparr>kn_now := n\<rparr>"
  show ?case
  proof (cases "launch_admit (en_aws E) (en_codec E) (li_region I) l now")
    case (Inl e)
    then show ?thesis using assms(1,4) by (simp add: wp_value may_expire_def)
  next
    case (Inr x)
    then obtain request token where x: "x = (request, token)" by (cases x)
    have "Q (learn_run ?k l answer) (launch_answer l token answer)" for answer
    proof (cases "launch_answer l token answer")
      case (Inr p)
      then have "answer = Ok (pt_target_ref p)" by (auto simp: launch_answer_def physical_new_def result_iffs map_err_def split: sum.splits)
      then show ?thesis using assms(3) [of p] Inr by (simp add: learn_run_def refusal_def)
    next
      case (Inl e)
      have "no_target e \<Longrightarrow> \<exists>e'. answer = Err e' \<and> e = launch_failure e'"
        using Inl by (auto simp: launch_answer_def map_err_def split: sum.splits)
      then show ?thesis unfolding Inl by (intro assms(4)) (auto simp: learn_run_def refusal_def may_expire_def)
    qed
    then show ?thesis using Inr x assms(1,2) by (simp add: wp_value)
  qed
qed

lemma stale_wp: "(\<And>G r. Q (k\<lparr>kn_gone := G\<rparr>) r) \<Longrightarrow> wp E zone (terminate_stale p) Q k"
  unfolding terminate_stale_def
  by (simp add: learn_absent_def) (metis (no_types, lifting) know.surjective know.update_convs(4))

lemma refused_wp:
  assumes "no_target e \<Longrightarrow> \<not> ml_recovery_attempt l \<Longrightarrow> may_expire k l" and "\<And>k e. Q k (Err e)"
  shows "wp E zone (launch_refused q l e) Q k"
  using assms by (auto simp: launch_refused_def expire_answer_def wp_value split: launch_error.split sum.split)

lemma install_launched_wp:
  assumes "(l, pt_target_ref p) \<in> kn_answered k" and "\<And>k t. t \<in> kn_targets k \<Longrightarrow> Q k (Ok t)" and "\<And>k e. Q k (Err e)"
  shows "wp E zone (install_launched q l p) Q k"
proof -
  have "wp E zone (hp_bind (terminate_stale p) (\<lambda>c. Finished (Err (MReservationLost (f c))))) Q k" for f k
    unfolding wp_bind by (rule stale_wp) (simp add: assms(3))
  then show ?thesis
    using assms by (auto simp: install_launched_def wp_value learn_install_def learn_target_def split: sum.split install_outcome.split)
qed

lemma ensure_wp:
  assumes zone: "zone = li_region I" and q: "may_acquire k False q hs"
    and Q: "\<And>k t. t \<in> kn_targets k \<Longrightarrow> Q k (Ok t)" "\<And>k e. Q k (Err e)"
  shows "wp E zone (ensure_target E I q) Q k"
proof -
  have run: "wp E zone (hp_bind (launch_target E I l) (\<lambda>launched. case launched of Ok p \<Rightarrow> install_launched q l p
      | Err e \<Rightarrow> launch_refused q l e)) Q k" if "l \<in> kn_ready k" for l k
    unfolding wp_bind
  proof (rule launch_wp [OF that zone], goal_cases)
    case (1 n p)
    then show ?case by (simp add: install_launched_wp Q)
  next
    case (2 k' e)
    then show ?case by (simp add: refused_wp Q)
  qed
  show ?thesis
    unfolding ensure_target_def wp.simps
    using Q run
    by (intro exI [of _ False] exI [of _ hs] conjI allI q)
      (auto simp: wp_value learn_acquire_def learn_target_def split: sum.split acquire_outcome.split)
qed

lemma materialize_wp:
  assumes zone: "zone = li_region I"
    and Q: "\<And>k t. t \<in> kn_targets k \<Longrightarrow> Q k (Ok t)" "\<And>k e. Q k (Err e)"
  shows "wp E zone (materialize_target E I key owner resources network rclass mode) Q k"
proof -
  have ready: "wp E zone (hp_bind (ensure_target E I q') (\<lambda>r. Finished (reg E r))) Q k"
    if "sealed_acquisition V K I dg L q = Ok q'" "q = materialize_request key' spec intent replace hex hex' hex'' now"
      "now \<le> kn_now k" "hex \<in> kn_drawn k" "hex'' \<in> kn_drawn k"
    for V K dg L q q' key' spec intent replace hex hex' hex'' now k
  proof -
    note sealed = that(1)
    obtain preview lr where "q' = q\<lparr>aq_launch_request := lr\<rparr>" using sealed_acquisition_Ok [OF sealed] .
    then have "may_acquire k False q' {hex, hex''}"
      using that(2-5) by (auto simp: may_acquire_def materialize_request_def deployment_times_def)
    then show ?thesis
      unfolding wp_bind by (rule ensure_wp [OF zone]) (use Q in \<open>simp_all add: map_err_def\<close>)
  qed
  show ?thesis
    unfolding materialize_target_def wp_value wp.simps
    using Q by (auto simp: wp_value intro!: ready split: sum.split)
qed

subsection \<open>The ports\<close>

lemma install_for_operation_wp:
  assumes "\<And>r. Q k r"
  shows "wp E zone (install_for_operation E t envelope) Q k"
  using assms
  by (auto simp: install_for_operation_def install_bundle_for_def install_secrets_for_def redeem_secrets_def preparation_of_def
      wp_compose ok_or_def require_def split: sum.split option.split)

lemma route_wp:
  assumes "zone = li_region I" and "\<And>k t. t \<in> kn_targets k \<Longrightarrow> Q k (Ok t)" and "\<And>k e. Q k (Err e)"
  shows "wp E zone (route_for_submit E I envelope) Q k"
  using assms
  by (auto simp: route_for_submit_def preparation_for_root_def preparation_of_def wp_compose
      intro!: materialize_wp resolve_wp split: sum.split submit_route.split)

abbreviation safe :: "hand_env \<Rightarrow> string \<Rightarrow> 'a hand_prog \<Rightarrow> know \<Rightarrow> bool" where
  "safe E zone p k \<equiv> wp E zone p (\<lambda>k x. True) k"

lemma answered_safe: "safe E zone (answered p) k = safe E zone p k"
proof -
  have "(\<lambda>k r. case r of Err e \<Rightarrow> True | Ok x \<Rightarrow> True) = (\<lambda>k r. True)" by (auto simp: fun_eq_iff split: sum.split)
  then show ?thesis by (simp add: answered_def wp_try)
qed

lemma submit_safe: "zone = li_region I \<Longrightarrow> safe E zone (port_submit E I q) k"
  unfolding port_submit_def wp_value
  by (auto simp: wp_compose guest_submit_rpc_def intro!: route_wp install_for_operation_wp settle_wp split: sum.split response_reply.split)

lemma operations_safe:
  "safe E zone (port_observe E q rest) k" "safe E zone (port_cancel E q) k" "safe E zone (port_acknowledge_terminal E q d) k"
  unfolding port_observe_def port_cancel_def port_acknowledge_terminal_def
  by (auto simp: wp_compose intro!: resolve_operation_wp rpc_wp split: sum.split response_reply.split)

lemma sandbox_safe:
  "zone = li_region I \<Longrightarrow> safe E zone (port_create E I c) k" "safe E zone (port_execute E x) k"
  "safe E zone (port_write_stdin E w) k" "safe E zone (port_terminate E t) k"
  unfolding port_create_def port_execute_def port_write_stdin_def port_terminate_def terminate_resolved_def
  by (auto simp: wp_compose preparation_of_def intro!: resolve_wp rpc_wp materialize_wp terminate_wp
      split: sum.split response_reply.split)

lemma status_safe: "safe E zone (port_status E t) k" "safe E zone (port_inspect E t) k"
  unfolding port_inspect_def port_status_def gone_by_provider_def
  by (auto simp: wp_compose learn_get_def learn_rows_def learn_absent_def says_absent_def is_terminated_def
      intro!: confirm_wp record_gone_wp split: sum.split option.split control_failure.split)

lemma files_safe:
  "safe E zone (port_list E q) k" "safe E zone (port_stat E q) k" "safe E zone (port_read E q) k" "safe E zone (port_find E q) k"
  "safe E zone (port_grep E q) k"
  unfolding port_list_def port_stat_def port_read_def port_find_def port_grep_def file_call_def
  by (auto simp: wp_compose intro!: resolve_wp rpc_wp split: sum.split)

lemma stage_object_wp:
  assumes "t \<in> kn_targets k" and "\<And>G n r. Q (k\<lparr>kn_gone := G, kn_now := n\<rparr>) r"
  shows "wp E zone (stage_object E t x a) Q k"
proof -
  have "Q k r" for r using assms(2) [where G = "kn_gone k" and n = "kn_now k"] by simp
  then show ?thesis
    using assms by (auto simp: stage_object_def install_object_def wp_compose intro!: settle_wp split: sum.split)
qed

lemma write_safe: "safe E zone (port_write E q) k"
  unfolding port_write_def
  by (auto simp: wp_compose intro!: resolve_wp reserve_effect_wp(1) rpc_wp stage_object_wp
      split: sum.split file_source.split response_reply.split stored_result.split effect_reservation.split)

lemma import_safe: "t \<in> kn_targets k \<Longrightarrow> safe E zone (transfer_import E q t i) k"
  unfolding transfer_import_def
  by (auto simp: wp_compose intro!: stage_object_wp rpc_wp split: sum.split response_reply.split stored_result.split)

lemma export_safe: "t \<in> kn_targets k \<Longrightarrow> safe E zone (transfer_export E q t i) k"
  unfolding transfer_export_def
  by (auto simp: wp_compose intro!: settle_wp reserve_effect_wp(2) rpc_wp
      split: sum.split response_reply.split stored_result.split effect_reservation.split)

lemma transfer_safe: "safe E zone (port_transfer E q) k"
  unfolding port_transfer_def Let_def
  by (auto simp: wp_compose intro!: resolve_wp reserve_effect_wp(1) import_safe export_safe
      split: sum.split stored_result.split effect_reservation.split)

lemma default_safe:
  "zone = li_region I \<Longrightarrow> safe E zone (port_materialize_default E I c) k" "safe E zone (port_dematerialize_default E t) k"
  unfolding port_materialize_default_def port_dematerialize_default_def terminate_resolved_def
  by (auto simp: wp_compose preparation_for_root_def preparation_of_def intro!: resolve_wp materialize_wp terminate_wp split: sum.split)

subsection \<open>Purging a root\<close>

lemma purge_installed_wp:
  "t \<in> kn_targets k \<Longrightarrow> (\<And>k' r. grows k k' \<Longrightarrow> Q k' r) \<Longrightarrow> wp E zone (purge_installed E t gen) Q k"
  unfolding purge_installed_def by (auto simp: wp_compose intro!: terminate_wp split: sum.split)

lemma install_recovered_wp:
  assumes "(l, pt_target_ref p) \<in> kn_answered k" and Q: "\<And>k' r. grows k k' \<Longrightarrow> Q k' r"
  shows "wp E zone (install_recovered E l p) Q k"
proof -
  have "wp E zone (purge_installed E t gen) Q (learn_target (k\<lparr>kn_now := n\<rparr>) t)" for t gen n
    by (rule purge_installed_wp) (use Q in \<open>auto simp: learn_target_def\<close>)
  moreover have "wp E zone (hp_bind (terminate_stale p) (\<lambda>stale.
      hp_value (map_err (temporary (en_aws E)) stale) (\<lambda>_. Finished (Ok Unresolved)))) Q (k\<lparr>kn_now := n\<rparr>)" for n
    unfolding wp_bind by (rule stale_wp) (use Q in \<open>auto simp: wp_value split: sum.split\<close>)
  ultimately show ?thesis
    using assms by (auto simp: install_recovered_def wp_value learn_install_def split: sum.split install_outcome.split)
qed

lemma replay_wp:
  assumes "zone = li_region I" and "l \<in> kn_ready k" and Q: "\<And>k' r. grows k k' \<Longrightarrow> Q k' r"
  shows "wp E zone (replay_launch E I l) Q k"
proof -
  have "wp E zone (launch_target E I l) (\<lambda>k r. wp E zone (hp_value (reg E (map_err recovery_launch_error r))
      (install_recovered E l)) Q k) k"
  proof (rule launch_wp [OF assms(2,1)], goal_cases)
    case (1 n p)
    have "wp E zone (install_recovered E l p) Q (learn_run (k\<lparr>kn_now := n\<rparr>) l (Ok (pt_target_ref p)))"
      by (rule install_recovered_wp [OF 1]) (rule Q, simp)
    then show ?case by (simp add: map_err_def wp_value)
  next
    case (2 k' e)
    then show ?case using Q [of k'] by (simp add: map_err_def wp_value)
  qed
  then show ?thesis using Q [of k] unfolding replay_launch_def by (simp add: wp_value wp_bind split: sum.split)
qed

lemma recover_wp:
  assumes "zone = li_region I" and "\<And>l. recovery_lease r = Ok l \<Longrightarrow> l \<in> kn_listed k" and Q: "\<And>k' r. grows k k' \<Longrightarrow> Q k' r"
  shows "wp E zone (recover_materializing E I r) Q k"
proof -
  have "wp E zone (RegAcquire (recovery_request l hex n) (\<lambda>outcome. hp_value (reg E outcome) (recover_acquired E I n))) Q
      (k\<lparr>kn_now := n', kn_drawn := insert hex (kn_drawn k)\<rparr>)" (is "wp E zone _ Q ?k") if "l \<in> kn_listed k" "n \<le> n'" for l hex n n'
  proof -
    have "may_acquire ?k True (recovery_request l hex n) {hex}"
      using that by (auto simp: may_acquire_def deployment_times_def recovery_request_def)
    moreover have "wp E zone (hp_value (reg E r) (recover_acquired E I n)) Q
        (learn_acquire (?k\<lparr>kn_drawn := kn_drawn ?k - {hex}\<rparr>) True r)" for r
      using assms(1) Q
      by (auto simp: recover_acquired_def wp_value learn_acquire_def learn_target_def may_expire_def
          intro!: replay_wp purge_installed_wp split: sum.split acquire_outcome.split)
    ultimately show ?thesis unfolding wp.simps by blast
  qed
  then show ?thesis
    unfolding recover_materializing_def
    using assms by (auto simp: wp_value may_expire_def simp del: wp.simps(6) split: sum.split)
qed

lemma purge_one_wp:
  assumes "zone = li_region I" and "\<And>l. recovery_lease r = Ok l \<Longrightarrow> l \<in> kn_listed k"
    and "\<And>t. Materialization.installed r = Some t \<Longrightarrow> t \<in> kn_targets k" and "\<And>k' r. grows k k' \<Longrightarrow> Q k' r"
  shows "wp E zone (purge_one_target E I r) Q k"
  using assms unfolding purge_one_target_def
  by (auto simp: wp_compose intro!: terminate_wp recover_wp split: option.split durable_target_state.split sum.split)

lemma purge_targets_wp:
  assumes "zone = li_region I" and "\<And>r l. r \<in> set rs \<Longrightarrow> recovery_lease r = Ok l \<Longrightarrow> l \<in> kn_listed k"
    and "\<And>r t. r \<in> set rs \<Longrightarrow> Materialization.installed r = Some t \<Longrightarrow> t \<in> kn_targets k" and "\<And>k r. Q k r"
  shows "wp E zone (purge_targets E I unresolved rs) Q k"
  using assms(2,3)
proof (induction rs arbitrary: unresolved k)
  case (Cons r rs)
  show ?case
    unfolding purge_targets.simps wp_try
  proof (rule purge_one_wp [OF assms(1)], goal_cases)
    case (3 k' res)
    have "wp E zone (purge_targets E I u rs) Q k'" for u
    proof (rule Cons.IH)
      show "l \<in> kn_listed k'" if "r' \<in> set rs" "recovery_lease r' = Ok l" for r' l
        using Cons.prems(1) [of r' l] that 3 by auto
      show "t \<in> kn_targets k'" if "r' \<in> set rs" "Materialization.installed r' = Some t" for r' t
        using Cons.prems(2) [of r' t] that 3 by auto
    qed
    then show ?case using assms(4) by (auto split: sum.split)
  qed (use Cons.prems in auto)
qed (use assms(4) in simp)

lemma purge_safe: "zone = li_region I \<Longrightarrow> safe E zone (port_purge_tree E I root) k"
  unfolding port_purge_tree_def
  by (auto simp: wp_compose learn_list_def learn_rows_def intro!: purge_targets_wp split: sum.split)

text \<open>Every handler changes only what it may, whatever it is answered.\<close>

lemma serve_safe: "zone = li_region I \<Longrightarrow> safe E zone (serve_port E I q) k"
  by (cases q) (simp_all add: answered_safe submit_safe operations_safe sandbox_safe status_safe files_safe write_safe
      transfer_safe default_safe purge_safe)

end
