(* ===== verification/Fleet_Laws.thy ===== *)
theory Fleet_Laws
  imports Fleet
begin

section \<open>Every live machine is charged\<close>

text \<open>
  The invariant of the fleet. A row is seen through \<open>pending\<close> (the reservation, attempt and expiry instants of a
  materializing row) and \<open>occupant\<close> (the machine of an installed row); the transitions of the registry are stated on these,
  then the invariant is kept step by step: a lease that may still create a punctual machine has its row, and a live punctual machine has a row that
  names its token until it must have ended, or names the machine itself.
\<close>

subsection \<open>Rows\<close>

definition pending :: "durable_target_record option \<Rightarrow> (string \<times> string \<times> nat \<times> nat) option" where
  "pending ro =
     (case ro of None \<Rightarrow> None
      | Some r \<Rightarrow> (case dr_state r of Materializing rid lr aid aexp texp lexp \<Rightarrow> Some (rid, aid, texp, lexp) | _ \<Rightarrow> None))"

definition occupant :: "durable_target_record option \<Rightarrow> string option" where
  "occupant ro =
     (case ro of None \<Rightarrow> None | Some r \<Rightarrow> (case dr_state r of Installed tref ct iat ex \<Rightarrow> Some tref | _ \<Rightarrow> None))"

lemma row_views [simp]:
  "pending None = None" "occupant None = None"
  "dr_state r = Materializing rid lr aid aexp texp lexp \<Longrightarrow> pending (Some r) = Some (rid, aid, texp, lexp)"
  "dr_state r = Materializing rid lr aid aexp texp lexp \<Longrightarrow> occupant (Some r) = None"
  "dr_state r = Installed tref ct iat ex \<Longrightarrow> pending (Some r) = None"
  "dr_state r = Installed tref ct iat ex \<Longrightarrow> occupant (Some r) = Some tref"
  "dr_state r = Closed d reason at \<Longrightarrow> pending (Some r) = None"
  "dr_state r = Closed d reason at \<Longrightarrow> occupant (Some r) = None"
  by (simp_all add: pending_def occupant_def)

lemma pending_Some:
  assumes "pending ro = Some (rid, aid, texp, lexp)"
  obtains r lr aexp where "ro = Some r" and "dr_state r = Materializing rid lr aid aexp texp lexp"
  using assms by (auto simp: pending_def split: option.splits durable_target_state.splits)

lemma occupant_Some:
  assumes "occupant ro = Some tref"
  obtains r ct iat ex where "ro = Some r" and "dr_state r = Installed tref ct iat ex"
  using assms by (auto simp: occupant_def split: option.splits durable_target_state.splits)

lemma holds_attempt_pending:
  "holds_attempt r l \<Longrightarrow> \<exists>texp lexp. pending (Some r) = Some (ml_reservation_id l, ml_attempt_id l, texp, lexp)"
  by (auto simp: holds_attempt_def pending_def split: durable_target_state.splits)

abbreviation row_of_lease :: "materialization_lease \<Rightarrow> (string \<times> string \<times> nat \<times> nat)" where
  "row_of_lease l \<equiv> (ml_reservation_id l, ml_attempt_id l, ml_target_expires_at_ms l, ml_lease_expires_at_ms l)"

lemma acquire_existing_rows:
  assumes "acquire_existing dg g q l0 r = (Ok (AAcquired l), g')" and "dr_key r = aq_key q"
  shows "\<exists>r'. mr_records g' (aq_key q) = Some r' \<and> occupant (Some r) = None
    \<and> (l = l0 \<and> r' = record_from_lease l0 (aq_now_ms q)
          \<and> (\<forall>rid aid texp lexp. pending (Some r) = Some (rid, aid, texp, lexp) \<longrightarrow> lexp \<le> aq_now_ms q)
       \<or> lease_from_materializing_record r' = Ok l \<and> dr_spec r' = dr_spec r \<and> dr_key r' = dr_key r
          \<and> (\<exists>rid aid texp lexp. pending (Some r) = Some (rid, aid, texp, lexp)
               \<and> pending (Some r') = Some (rid, aq_attempt_id q, texp, lexp)))"
proof (cases "dr_state r")
  case (Materializing rid lr aid aexp texp lexp)
  show ?thesis
  proof (cases "lexp \<le> aq_now_ms q")
    case True
    then show ?thesis using assms(1) Materializing by (auto simp: acquire_existing_def put_record_def)
  next
    case False
    then obtain r' where t: "take_materialization_attempt dg r q = (Ok l, r')" and g': "g' = put_record g (aq_key q) r'"
      using assms(1) Materializing by (auto simp: acquire_existing_def split: if_splits prod.splits sum.splits)
    then have "lease_from_materializing_record r' = Ok l \<and> dr_spec r' = dr_spec r \<and> dr_key r' = dr_key r
        \<and> pending (Some r') = Some (rid, aq_attempt_id q, texp, lexp)"
      using Materializing
      by (auto simp: take_materialization_attempt_def Let_def result_iffs pending_def split: option.splits)
    then show ?thesis using g' Materializing by (auto simp: put_record_def)
  qed
next
  case (Installed tref ct iat ex)
  then show ?thesis using assms(1) by (simp add: acquire_existing_def)
next
  case (Closed d reason at)
  then show ?thesis
    using assms(1) reserve_capacity_cases [of g "ts_materialized_mib (ml_spec l0)"]
    by (cases "reserve_capacity g (ts_materialized_mib (ml_spec l0))")
      (auto simp: acquire_existing_def put_record_def split: disposition.splits if_splits sum.splits)
qed

lemma acquired_rows:
  assumes "acquire dg g q = (Ok (AAcquired l), g')" and "registry_inv timely dg S g"
  shows "pending (mr_records g' (aq_key q)) = Some (row_of_lease l)" and "occupant (mr_records g (aq_key q)) = None"
    and "ml_key l = aq_key q" and "ml_attempt_id l = aq_attempt_id q"
    and "\<exists>r. mr_records g' (aq_key q) = Some r \<and> dr_spec r = ml_spec l"
    and "\<not> ml_recovery_attempt l \<and> acquire_lease dg q = Ok l
          \<and> (\<forall>rid aid texp lexp. pending (mr_records g (aq_key q)) = Some (rid, aid, texp, lexp) \<longrightarrow> lexp \<le> aq_now_ms q)
      \<or> ml_recovery_attempt l \<and> (\<exists>aid r. mr_records g (aq_key q) = Some r \<and> dr_spec r = ml_spec l
          \<and> pending (Some r) = Some (ml_reservation_id l, aid, ml_target_expires_at_ms l, ml_lease_expires_at_ms l))"
proof -
  obtain l0 where l0: "acquire_lease dg q = Ok l0" using assms(1) by (auto simp: acquire_def split: sum.splits)
  have fresh: "pending (Some (record_from_lease l0 (aq_now_ms q))) = Some (row_of_lease l0)" "\<not> ml_recovery_attempt l0"
      "ml_key l0 = aq_key q" "ml_attempt_id l0 = aq_attempt_id q"
    using l0 by (auto simp: record_from_lease_def pending_def acquire_lease_Ok)
  let ?fresh = "l = l0 \<and> mr_records g' (aq_key q) = Some (record_from_lease l0 (aq_now_ms q))
      \<and> occupant (mr_records g (aq_key q)) = None
      \<and> (\<forall>rid aid texp lexp. pending (mr_records g (aq_key q)) = Some (rid, aid, texp, lexp) \<longrightarrow> lexp \<le> aq_now_ms q)"
  let ?again = "\<exists>r r' rid aid texp lexp. mr_records g (aq_key q) = Some r \<and> mr_records g' (aq_key q) = Some r'
      \<and> occupant (Some r) = None \<and> lease_from_materializing_record r' = Ok l \<and> dr_spec r' = dr_spec r \<and> dr_key r' = aq_key q
      \<and> pending (Some r) = Some (rid, aid, texp, lexp) \<and> pending (Some r') = Some (rid, aq_attempt_id q, texp, lexp)"
  have "?fresh \<or> ?again"
  proof (cases "mr_records g (aq_key q)")
    case None
    then show ?thesis
      using assms(1) l0 reserve_capacity_cases [of g "ts_materialized_mib (ml_spec l0)"]
      by (cases "reserve_capacity g (ts_materialized_mib (ml_spec l0))") (auto simp: acquire_def put_record_def split: sum.splits)
  next
    case (Some r)
    have k: "dr_key r = aq_key q" using registry_inv_record [OF assms(2) Some] by simp
    have "acquire_existing dg g q l0 r = (Ok (AAcquired l), g')"
      using assms(1) l0 Some by (auto simp: acquire_def split: sum.splits if_splits)
    from acquire_existing_rows [OF this k] show ?thesis using Some k by auto
  qed
  then show "pending (mr_records g' (aq_key q)) = Some (row_of_lease l)" and "occupant (mr_records g (aq_key q)) = None"
    and "ml_key l = aq_key q" and "ml_attempt_id l = aq_attempt_id q"
    and "\<exists>r. mr_records g' (aq_key q) = Some r \<and> dr_spec r = ml_spec l"
    and "\<not> ml_recovery_attempt l \<and> acquire_lease dg q = Ok l
          \<and> (\<forall>rid aid texp lexp. pending (mr_records g (aq_key q)) = Some (rid, aid, texp, lexp) \<longrightarrow> lexp \<le> aq_now_ms q)
      \<or> ml_recovery_attempt l \<and> (\<exists>aid r. mr_records g (aq_key q) = Some r \<and> dr_spec r = ml_spec l
          \<and> pending (Some r) = Some (ml_reservation_id l, aid, ml_target_expires_at_ms l, ml_lease_expires_at_ms l))"
    using fresh l0 by (auto simp: lease_from_record_Ok_iff record_from_lease_def)
qed

text \<open>The other transitions keep a row, or change it in one way.\<close>

lemma installed_rows:
  assumes "install g l p n = (res, g')"
  shows "mr_records g' = mr_records g
    \<or> (\<exists>aid texp lexp r r'. mr_records g (ml_key l) = Some r \<and> mr_records g' = (mr_records g)(ml_key l \<mapsto> r')
        \<and> pending (Some r) = Some (ml_reservation_id l, aid, texp, lexp) \<and> pending (Some r') = None
        \<and> occupant (Some r') = Some (pt_target_ref p) \<and> dr_spec r' = dr_spec r)"
  using assms
proof (cases rule: install_cases)
  case (placed r r' rid lr aid aexp texp lexp)
  then show ?thesis by (auto simp: put_record_def)
qed simp_all

lemma expired_rows:
  assumes "expire_lease g l n = (res, g')"
  shows "mr_records g' = mr_records g
    \<or> mr_records g' = (mr_records g)(ml_key l := None)
      \<and> (\<exists>texp lexp. pending (mr_records g (ml_key l)) = Some (ml_reservation_id l, ml_attempt_id l, texp, lexp))"
  using assms
proof (cases rule: expire_lease_cases)
  case (released r)
  then show ?thesis using refund_records [OF released(3)] holds_attempt_pending [OF released(2)] by auto
qed simp

subsection \<open>The invariant\<close>

abbreviation kept_ok :: "spec_digest_fn \<Rightarrow> target_spec set \<Rightarrow> memory_target_registry plane \<Rightarrow> bool" where
  "kept_ok \<equiv> mem_ok_when False"

definition live :: "fleet \<Rightarrow> materialization_lease \<Rightarrow> bool" where
  "live s l \<longleftrightarrow> ft_now s + TARGET_LIFETIME_MS \<le> ml_lease_expires_at_ms l \<and> ft_created s (ml_reservation_id l) = None"

definition timed :: "nat \<Rightarrow> nat \<Rightarrow> bool" where
  "timed texp lexp \<longleftrightarrow> texp + TARGET_DISPATCH_WINDOW_MS + DISPATCH_SLACK_MS = lexp"

definition named :: "fleet \<Rightarrow> string \<Rightarrow> target_key \<Rightarrow> target_spec \<Rightarrow> bool" where
  "named s rid k spec \<longleftrightarrow> ft_reservations s rid = Some (k, spec)"

definition made :: "fleet \<Rightarrow> string \<Rightarrow> target_key \<Rightarrow> target_spec \<Rightarrow> bool" where
  "made s i k spec \<longleftrightarrow> (\<exists>rid a. ft_created s rid = Some (i, a) \<and> named s rid k spec)"

abbreviation known :: "fleet \<Rightarrow> materialization_lease \<Rightarrow> bool" where
  "known s l \<equiv> named s (ml_reservation_id l) (ml_key l) (ml_spec l) \<and> ml_attempt_id l \<in> pl_attempts (ft_plane s)"

definition row_good :: "fleet \<Rightarrow> target_key \<Rightarrow> durable_target_record \<Rightarrow> bool" where
  "row_good s k r \<longleftrightarrow>
     (\<forall>rid aid texp lexp. pending (Some r) = Some (rid, aid, texp, lexp) \<longrightarrow>
        named s rid k (dr_spec r) \<and> timed texp lexp \<and> aid \<in> pl_attempts (ft_plane s))
     \<and> (\<forall>i. occupant (Some r) = Some i \<longrightarrow> made s i k (dr_spec r))"

definition tokens_good :: "fleet \<Rightarrow> bool" where
  "tokens_good s \<longleftrightarrow>
     (\<forall>rid i a. ft_created s rid = Some (i, a) \<longrightarrow> i \<in> ft_ids s \<and> ft_reservations s rid \<noteq> None \<and> a \<in> pl_attempts (ft_plane s)
        \<and> (\<forall>rid' a'. ft_created s rid' = Some (i, a') \<longrightarrow> rid' = rid))"

definition open_good :: "fleet \<Rightarrow> materialization_lease \<Rightarrow> bool" where
  "open_good s l \<longleftrightarrow> known s l \<and> timed (ml_target_expires_at_ms l) (ml_lease_expires_at_ms l)
     \<and> (live s l \<longrightarrow> (\<exists>aid. pending (ft_rows s (ml_key l)) =
          Some (ml_reservation_id l, aid, ml_target_expires_at_ms l, ml_lease_expires_at_ms l)))"

definition covered :: "fleet \<Rightarrow> string \<Rightarrow> machine \<Rightarrow> target_key \<Rightarrow> bool" where
  "covered s i m k \<longleftrightarrow>
     occupant (ft_rows s k) = Some i
     \<or> (\<exists>aid texp lexp. pending (ft_rows s k) = Some (mc_token m, aid, texp, lexp) \<and> mc_born m + TARGET_LIFETIME_MS \<le> lexp)"

definition machine_good :: "fleet \<Rightarrow> string \<Rightarrow> machine \<Rightarrow> bool" where
  "machine_good s i m \<longleftrightarrow> ft_now s < mc_born m + TARGET_LIFETIME_MS
     \<and> (\<exists>a. ft_created s (mc_token m) = Some (i, a))
     \<and> (punctual m \<longrightarrow> (\<exists>k spec. named s (mc_token m) k spec \<and> covered s i m k))"

definition flight_good :: "fleet \<Rightarrow> materialization_lease \<Rightarrow> bool" where
  "flight_good s l \<longleftrightarrow> known s l \<and> (ml_recovery_attempt l \<longrightarrow> l \<in> ft_open s)
     \<and> (l \<notin> ft_open s \<longrightarrow> (\<forall>i. ft_created s (ml_reservation_id l) \<noteq> Some (i, ml_attempt_id l)))
     \<and> (\<not> ml_recovery_attempt l \<longrightarrow>
          (\<exists>texp lexp. pending (ft_rows s (ml_key l)) = Some (ml_reservation_id l, ml_attempt_id l, texp, lexp)) \<longrightarrow>
          (\<forall>l'\<in>ft_open s. live s l' \<longrightarrow> ml_reservation_id l' = ml_reservation_id l \<longrightarrow> l' = l)
          \<and> (\<forall>i a m. ft_created s (ml_reservation_id l) = Some (i, a) \<longrightarrow> ft_machines s i = Some m \<longrightarrow> punctual m \<longrightarrow> a = ml_attempt_id l))"

definition listed_good :: "fleet \<Rightarrow> target_spec set \<Rightarrow> materialization_lease \<Rightarrow> bool" where
  "listed_good s S l \<longleftrightarrow> known s l \<and> ml_spec l \<in> S \<and> agrees (ft_rows s (ml_key l)) l
     \<and> (\<forall>texp lexp. pending (ft_rows s (ml_key l)) = Some (ml_reservation_id l, ml_attempt_id l, texp, lexp) \<longrightarrow>
          lexp = ml_lease_expires_at_ms l)"

definition confirmed_good :: "fleet \<Rightarrow> installed_target \<Rightarrow> bool" where
  "confirmed_good s t \<longleftrightarrow> made s (it_target_ref t) (it_key t) (it_spec t) \<and> ft_machines s (it_target_ref t) = None"

definition distinct_attempts :: "fleet \<Rightarrow> bool" where
  "distinct_attempts s \<longleftrightarrow>
     (\<forall>f\<in>pl_inflight (ft_plane s). \<forall>f'\<in>pl_inflight (ft_plane s). ml_attempt_id (snd f) = ml_attempt_id (snd f') \<longrightarrow> f = f')
     \<and> (\<forall>f\<in>pl_inflight (ft_plane s). \<forall>l\<in>ft_open s. ml_attempt_id (snd f) = ml_attempt_id l \<longrightarrow> snd f = l)"

definition fleet_ok :: "spec_digest_fn \<Rightarrow> target_spec set \<Rightarrow> fleet \<Rightarrow> bool" where
  "fleet_ok dg S s \<longleftrightarrow>
     kept_ok dg S (ft_plane s) \<and> tokens_good s \<and> distinct_attempts s \<and> finite (dom (ft_machines s))
     \<and> (\<forall>k r. ft_rows s k = Some r \<longrightarrow> row_good s k r)
     \<and> (\<forall>l\<in>ft_open s. open_good s l)
     \<and> (\<forall>(l, t)\<in>ft_sent s. l \<in> ft_open s \<and> t + TARGET_LIFETIME_MS \<le> ml_target_expires_at_ms l + TARGET_DISPATCH_WINDOW_MS)
     \<and> (\<forall>i m. ft_machines s i = Some m \<longrightarrow> machine_good s i m)
     \<and> (\<forall>(q, l)\<in>pl_inflight (ft_plane s). flight_good s l)
     \<and> (\<forall>l\<in>ft_listed s. listed_good s S l)
     \<and> (\<forall>t\<in>ft_confirmed s. confirmed_good s t)"

lemma fleet_okD:
  assumes "fleet_ok dg S s"
  shows "kept_ok dg S (ft_plane s)" "tokens_good s" "distinct_attempts s" "finite (dom (ft_machines s))"
    "ft_rows s k = Some r \<Longrightarrow> row_good s k r" "l \<in> ft_open s \<Longrightarrow> open_good s l"
    "(l, t) \<in> ft_sent s \<Longrightarrow> l \<in> ft_open s \<and> t + TARGET_LIFETIME_MS \<le> ml_target_expires_at_ms l + TARGET_DISPATCH_WINDOW_MS"
    "ft_machines s i = Some m \<Longrightarrow> machine_good s i m" "(q, l) \<in> pl_inflight (ft_plane s) \<Longrightarrow> flight_good s l"
    "l \<in> ft_listed s \<Longrightarrow> listed_good s S l" "it \<in> ft_confirmed s \<Longrightarrow> confirmed_good s it"
  using assms unfolding fleet_ok_def by auto

lemma fleet_okI:
  assumes "kept_ok dg S (ft_plane s)" "tokens_good s" "distinct_attempts s" "finite (dom (ft_machines s))"
    "\<And>k r. ft_rows s k = Some r \<Longrightarrow> row_good s k r" "\<And>l. l \<in> ft_open s \<Longrightarrow> open_good s l"
    "\<And>l t. (l, t) \<in> ft_sent s \<Longrightarrow> l \<in> ft_open s \<and> t + TARGET_LIFETIME_MS \<le> ml_target_expires_at_ms l + TARGET_DISPATCH_WINDOW_MS"
    "\<And>i m. ft_machines s i = Some m \<Longrightarrow> machine_good s i m" "\<And>q l. (q, l) \<in> pl_inflight (ft_plane s) \<Longrightarrow> flight_good s l"
    "\<And>l. l \<in> ft_listed s \<Longrightarrow> listed_good s S l" "\<And>it. it \<in> ft_confirmed s \<Longrightarrow> confirmed_good s it"
  shows "fleet_ok dg S s"
  using assms unfolding fleet_ok_def by auto

lemma fleet_start_ok:
  assumes "with_capacity m = Some g" and "digest_ok dg S"
  shows "fleet_ok dg S (fleet_start g)"
proof -
  have "mr_records g = Map.empty" using assms(1) by (auto simp: with_capacity_def split: if_splits)
  then show ?thesis
    using with_capacity_inv [OF assms] by (simp add: fleet_ok_def fleet_start_def tokens_good_def distinct_attempts_def)
qed

lemma flight_goodI:
  assumes "known s l" and "ml_recovery_attempt l \<Longrightarrow> l \<in> ft_open s"
    and "\<And>i. l \<notin> ft_open s \<Longrightarrow> ft_created s (ml_reservation_id l) \<noteq> Some (i, ml_attempt_id l)"
    and "\<And>texp lexp l'. \<not> ml_recovery_attempt l \<Longrightarrow>
      pending (ft_rows s (ml_key l)) = Some (ml_reservation_id l, ml_attempt_id l, texp, lexp) \<Longrightarrow>
      l' \<in> ft_open s \<Longrightarrow> live s l' \<Longrightarrow> ml_reservation_id l' = ml_reservation_id l \<Longrightarrow> l' = l"
    and "\<And>texp lexp i a m. \<not> ml_recovery_attempt l \<Longrightarrow>
      pending (ft_rows s (ml_key l)) = Some (ml_reservation_id l, ml_attempt_id l, texp, lexp) \<Longrightarrow>
      ft_created s (ml_reservation_id l) = Some (i, a) \<Longrightarrow> ft_machines s i = Some m \<Longrightarrow> punctual m \<Longrightarrow> a = ml_attempt_id l"
  shows "flight_good s l"
  unfolding flight_good_def
proof (intro conjI impI allI ballI)
  show "l' = l" if "\<not> ml_recovery_attempt l" "l' \<in> ft_open s" "live s l'" "ml_reservation_id l' = ml_reservation_id l"
      "\<exists>texp lexp. pending (ft_rows s (ml_key l)) = Some (ml_reservation_id l, ml_attempt_id l, texp, lexp)" for l'
    using assms(4) that by blast
  show "a = ml_attempt_id l" if "\<not> ml_recovery_attempt l" "ft_created s (ml_reservation_id l) = Some (i, a)" "ft_machines s i = Some m" "punctual m"
      "\<exists>texp lexp. pending (ft_rows s (ml_key l)) = Some (ml_reservation_id l, ml_attempt_id l, texp, lexp)" for i a m
    using assms(5) that by blast
qed (use assms(1-3) in blast)+

lemma flight_goodD:
  assumes "flight_good s l"
  shows "known s l" and "ml_recovery_attempt l \<Longrightarrow> l \<in> ft_open s"
    and "l \<notin> ft_open s \<Longrightarrow> ft_created s (ml_reservation_id l) \<noteq> Some (i, ml_attempt_id l)"
    and "\<not> ml_recovery_attempt l \<Longrightarrow>
      pending (ft_rows s (ml_key l)) = Some (ml_reservation_id l, ml_attempt_id l, texp, lexp) \<Longrightarrow>
      l' \<in> ft_open s \<Longrightarrow> live s l' \<Longrightarrow> ml_reservation_id l' = ml_reservation_id l \<Longrightarrow> l' = l"
    and "\<not> ml_recovery_attempt l \<Longrightarrow>
      pending (ft_rows s (ml_key l)) = Some (ml_reservation_id l, ml_attempt_id l, texp, lexp) \<Longrightarrow>
      ft_created s (ml_reservation_id l) = Some (i, a) \<Longrightarrow> ft_machines s i = Some m \<Longrightarrow> punctual m \<Longrightarrow> a = ml_attempt_id l"
  using assms unfolding flight_good_def by blast+

text \<open>A machine is at one key, and a reservation is at one key.\<close>

lemma named_unique: "named s rid k spec \<Longrightarrow> named s rid k' spec' \<Longrightarrow> k' = k \<and> spec' = spec"
  by (simp add: named_def)

lemma made_unique: "tokens_good s \<Longrightarrow> made s i k spec \<Longrightarrow> made s i k' spec' \<Longrightarrow> k' = k \<and> spec' = spec"
  unfolding made_def tokens_good_def using named_unique by metis

lemma distinct_attempts_sub:
  assumes "distinct_attempts s" and "pl_inflight (ft_plane s') \<subseteq> pl_inflight (ft_plane s)" and "ft_open s' \<subseteq> ft_open s"
  shows "distinct_attempts s'"
  using assms unfolding distinct_attempts_def by (meson subsetD)

lemma distinct_attempts_add:
  assumes d: "distinct_attempts s" and fs: "pl_inflight (ft_plane s') = insert f (pl_inflight (ft_plane s))"
    and opn: "ft_open s' \<subseteq> insert (snd f) (ft_open s)"
    and nf: "\<And>f'. f' \<in> pl_inflight (ft_plane s) \<Longrightarrow> ml_attempt_id (snd f') \<noteq> ml_attempt_id (snd f)"
    and nl: "\<And>l. l \<in> ft_open s \<Longrightarrow> ml_attempt_id l \<noteq> ml_attempt_id (snd f)"
  shows "distinct_attempts s'"
  unfolding distinct_attempts_def fs
proof (intro conjI ballI impI)
  show "f1 = f2" if "f1 \<in> insert f (pl_inflight (ft_plane s))" "f2 \<in> insert f (pl_inflight (ft_plane s))"
      "ml_attempt_id (snd f1) = ml_attempt_id (snd f2)" for f1 f2
    using that nf [of f1] nf [of f2] d unfolding distinct_attempts_def by (metis insertE)
  show "snd f1 = l" if "f1 \<in> insert f (pl_inflight (ft_plane s))" "l \<in> ft_open s'" "ml_attempt_id (snd f1) = ml_attempt_id l" for f1 l
    using that nf [of f1] nl [of l] opn d unfolding distinct_attempts_def by (metis insertE subsetD)
qed

subsection \<open>Steps that change no row\<close>

lemma fleet_ok_shrink:
  assumes ok: "fleet_ok dg S s" and n: "ft_now s \<le> n" and ms: "ms \<subseteq>\<^sub>m ft_machines s"
    and lives: "\<And>i m. ms i = Some m \<Longrightarrow> n < mc_born m + TARGET_LIFETIME_MS"
  shows "fleet_ok dg S (s\<lparr>ft_now := n, ft_machines := ms\<rparr>)"
proof -
  let ?s = "s\<lparr>ft_now := n, ft_machines := ms\<rparr>"
  note D = fleet_okD [OF ok]
  have sub: "ms i = Some m \<Longrightarrow> ft_machines s i = Some m" for i m using ms by (auto simp: map_le_def dom_def)
  have none: "ft_machines s i = None \<Longrightarrow> ms i = None" for i using sub by (cases "ms i") auto
  have live: "live ?s l \<Longrightarrow> live s l" for l using n by (auto simp: live_def)
  have same: "named ?s = named s" "made ?s = made s" by (auto simp: named_def made_def fun_eq_iff)
  show ?thesis
  proof (rule fleet_okI, goal_cases)
    case 4
    have "dom ms \<subseteq> dom (ft_machines s)" using sub by auto
    then show ?case using D(4) finite_subset by auto
  next
    case (6 l)
    then show ?case using D(6) [of l] live by (auto simp: open_good_def same)
  next
    case (8 i m)
    then show ?case using D(8) [OF sub] lives by (auto simp: machine_good_def covered_def same)
  next
    case (9 q l)
    then show ?case using D(9) [of q l] live sub by (auto simp: flight_good_def same)
  next
    case (11 t)
    then show ?case using D(11) [of t] none by (auto simp: confirmed_good_def same)
  qed (use D in \<open>auto simp: tokens_good_def distinct_attempts_def row_good_def listed_good_def same\<close>)
qed

lemma fleet_ok_drop:
  assumes ok: "fleet_ok dg S s" and mem: "kept_ok dg S ((ft_plane s)\<lparr>pl_registry := g, pl_inflight := fs\<rparr>)"
    and rows: "mr_records g = ft_rows s" and fs: "fs \<subseteq> pl_inflight (ft_plane s)" and opn: "opn \<subseteq> ft_open s" and sent: "sent \<subseteq> ft_sent s"
    and kept: "\<And>l t. (l, t) \<in> sent \<Longrightarrow> l \<in> opn" "\<And>q l. (q, l) \<in> fs \<Longrightarrow> l \<in> ft_open s \<Longrightarrow> l \<in> opn"
  shows "fleet_ok dg S (s\<lparr>ft_plane := (ft_plane s)\<lparr>pl_registry := g, pl_inflight := fs\<rparr>, ft_open := opn, ft_sent := sent\<rparr>)"
    (is "fleet_ok dg S ?s")
proof -
  note D = fleet_okD [OF ok]
  have same: "named ?s = named s" "made ?s = made s" "live ?s = live s" by (auto simp: named_def made_def live_def fun_eq_iff)
  show ?thesis
  proof (rule fleet_okI, goal_cases)
    case 3
    then show ?case by (rule distinct_attempts_sub [OF D(3)]) (use fs opn in simp_all)
  next
    case (9 q l)
    then have f: "(q, l) \<in> fs" by simp
    then have "flight_good s l" using D(9) fs by blast
    then show ?case using kept(2) [OF f] opn unfolding flight_good_def same by (simp add: rows) blast
  qed (use D mem sent opn kept(1) in \<open>auto simp: rows tokens_good_def row_good_def open_good_def machine_good_def covered_def
      listed_good_def confirmed_good_def same\<close>)
qed

lemma fleet_ok_refuse:
  assumes ok: "fleet_ok dg S s" and new: "\<not> ml_recovery_attempt l"
    and none: "\<And>m. ft_created s (ml_reservation_id l) \<noteq> Some (m, ml_attempt_id l)"
  shows "fleet_ok dg S (s\<lparr>ft_open := ft_open s - {l}, ft_sent := {(l', t) \<in> ft_sent s. l' \<noteq> l}\<rparr>)" (is "fleet_ok dg S ?s")
proof -
  note D = fleet_okD [OF ok]
  have same: "named ?s = named s" "made ?s = made s" "live ?s = live s" by (auto simp: named_def made_def live_def fun_eq_iff)
  show ?thesis
  proof (rule fleet_okI, goal_cases)
    case 3
    then show ?case by (rule distinct_attempts_sub [OF D(3)]) simp_all
  next
    case (7 l' t)
    then show ?case using D(7) [of l' t] by simp
  next
    case (9 q l')
    then have "flight_good s l'" using D(9) by simp
    note F = flight_goodD [OF this]
    show ?case
    proof (rule flight_goodI)
      show "known ?s l'" using F(1) by (simp add: same)
      show "l' \<in> ft_open ?s" if "ml_recovery_attempt l'" using F(2) that new by auto
      show "ft_created ?s (ml_reservation_id l') \<noteq> Some (i, ml_attempt_id l')" if "l' \<notin> ft_open ?s" for i
        using F(3) that none by (cases "l' = l") simp_all
    qed (use F(4,5) in \<open>simp_all add: same\<close>)
  qed (use D in \<open>auto simp: tokens_good_def row_good_def open_good_def machine_good_def covered_def
      listed_good_def confirmed_good_def same\<close>)
qed

lemma fleet_ok_dispatch:
  assumes ok: "fleet_ok dg S s" and l: "l \<in> ft_open s" and a: "launch_admit V K zone l t0 = Ok (request, token)"
  shows "fleet_ok dg S (s\<lparr>ft_sent := insert (l, t0) (ft_sent s)\<rparr>)"
proof -
  let ?s = "s\<lparr>ft_sent := insert (l, t0) (ft_sent s)\<rparr>"
  note D = fleet_okD [OF ok]
  have same: "named ?s = named s" "made ?s = made s" "live ?s = live s" by (auto simp: named_def made_def live_def fun_eq_iff)
  show ?thesis
  proof (rule fleet_okI, goal_cases)
    case (7 l' t)
    then show ?case using D(7) [of l' t] l launch_admit_Ok(2) [OF a] by auto
  qed (use D in \<open>auto simp: tokens_good_def distinct_attempts_def row_good_def open_good_def machine_good_def covered_def
      flight_good_def listed_good_def confirmed_good_def same\<close>)
qed

lemma fleet_ok_confirm:
  assumes ok: "fleet_ok dg S s" and t: "confirmed_good s t"
  shows "fleet_ok dg S (s\<lparr>ft_confirmed := insert t (ft_confirmed s)\<rparr>)"
proof -
  let ?s = "s\<lparr>ft_confirmed := insert t (ft_confirmed s)\<rparr>"
  note D = fleet_okD [OF ok]
  have same: "named ?s = named s" "made ?s = made s" "live ?s = live s" by (auto simp: named_def made_def live_def fun_eq_iff)
  show ?thesis
  proof (rule fleet_okI, goal_cases)
    case (11 t')
    then show ?case using D(11) [of t'] t by (auto simp: confirmed_good_def same)
  qed (use D in \<open>auto simp: tokens_good_def distinct_attempts_def row_good_def open_good_def machine_good_def covered_def
      flight_good_def listed_good_def same\<close>)
qed

lemma fleet_ok_list:
  assumes ok: "fleet_ok dg S s" and l: "listed_good s S l"
  shows "fleet_ok dg S (s\<lparr>ft_listed := insert l (ft_listed s)\<rparr>)"
proof -
  let ?s = "s\<lparr>ft_listed := insert l (ft_listed s)\<rparr>"
  note D = fleet_okD [OF ok]
  have same: "named ?s = named s" "made ?s = made s" "live ?s = live s" by (auto simp: named_def made_def live_def fun_eq_iff)
  show ?thesis
  proof (rule fleet_okI, goal_cases)
    case (10 l')
    then show ?case using D(10) [of l'] l by (auto simp: listed_good_def same)
  qed (use D in \<open>auto simp: tokens_good_def distinct_attempts_def row_good_def open_good_def machine_good_def covered_def
      flight_good_def confirmed_good_def same\<close>)
qed

lemma made_ids: "tokens_good s \<Longrightarrow> made s i k spec \<Longrightarrow> i \<in> ft_ids s"
  by (auto simp: tokens_good_def made_def)

lemma machine_ids: "tokens_good s \<Longrightarrow> machine_good s i m \<Longrightarrow> i \<in> ft_ids s"
  by (auto simp: tokens_good_def machine_good_def)

lemma fleet_ok_create:
  assumes ok: "fleet_ok dg S s" and sent: "(l, t) \<in> ft_sent s"
    and new: "ft_created s (ml_reservation_id l) = None" and i: "i \<notin> ft_ids s"
  shows "fleet_ok dg S (s\<lparr>ft_machines := (ft_machines s)(i \<mapsto> \<lparr>mc_token = ml_reservation_id l, mc_born = ft_now s, mc_admitted = t\<rparr>),
      ft_ids := insert i (ft_ids s), ft_created := (ft_created s)(ml_reservation_id l \<mapsto> (i, ml_attempt_id l))\<rparr>)"
    (is "fleet_ok dg S ?s")
proof -
  note D = fleet_okD [OF ok]
  have l: "l \<in> ft_open s" and t: "t + TARGET_LIFETIME_MS \<le> ml_target_expires_at_ms l + TARGET_DISPATCH_WINDOW_MS"
    using D(7) [OF sent] by simp_all
  have L: "known s l" "timed (ml_target_expires_at_ms l) (ml_lease_expires_at_ms l)" using D(6) [OF l] by (simp_all add: open_good_def)
  have lexp: "ft_now s + TARGET_LIFETIME_MS \<le> ml_lease_expires_at_ms l" if "ft_now s \<le> t + DISPATCH_SLACK_MS"
    using that t L(2) unfolding timed_def by linarith
  then have live_l: "live s l" if "ft_now s \<le> t + DISPATCH_SLACK_MS" using new that by (simp add: live_def)
  have row: "\<exists>aid. pending (ft_rows s (ml_key l)) =
      Some (ml_reservation_id l, aid, ml_target_expires_at_ms l, ml_lease_expires_at_ms l)" if "ft_now s \<le> t + DISPATCH_SLACK_MS"
    using D(6) [OF l] live_l [OF that] by (auto simp: open_good_def)
  have live: "live ?s l' \<Longrightarrow> live s l' \<and> ml_reservation_id l' \<noteq> ml_reservation_id l" for l'
    by (auto simp: live_def split: if_splits)
  have named: "named ?s = named s" by (auto simp: named_def fun_eq_iff)
  have made: "made s j k spec \<Longrightarrow> made ?s j k spec" for j k spec
  proof -
    assume "made s j k spec"
    then obtain rid a where c: "ft_created s rid = Some (j, a)" "named s rid k spec" by (auto simp: made_def)
    then have "rid \<noteq> ml_reservation_id l" using new by auto
    then have "ft_created ?s rid = Some (j, a)" using c(1) by simp
    then show "made ?s j k spec" unfolding made_def named using c(2) by blast
  qed
  show ?thesis
  proof (rule fleet_okI, goal_cases)
    case 2
    have "ft_created s rid \<noteq> Some (i, a)" for rid a using D(2) i by (auto simp: tokens_good_def)
    then show ?case using D(2) L(1) by (auto simp: tokens_good_def named_def)
  next
    case (5 k r)
    then show ?case using D(5) [of k r] made by (auto simp: row_good_def named)
  next
    case (6 l')
    then show ?case using D(6) [of l'] live by (auto simp: open_good_def named)
  next
    case (8 j m)
    show ?case
    proof (cases "j = i")
      case True
      then have m: "m = \<lparr>mc_token = ml_reservation_id l, mc_born = ft_now s, mc_admitted = t\<rparr>" using 8 by simp
      have "covered ?s i m (ml_key l)" if "punctual m" using that row lexp m by (auto simp: covered_def punctual_def)
      then show ?thesis using True L(1) m by (auto simp: machine_good_def named target_times)
    next
      case False
      then have g: "machine_good s j m" using 8 D(8) by simp
      then have "mc_token m \<noteq> ml_reservation_id l" using new by (auto simp: machine_good_def)
      then show ?thesis using g by (auto simp: machine_good_def covered_def named)
    qed
  next
    case (9 q lf)
    then have f: "(q, lf) \<in> pl_inflight (ft_plane s)" by simp
    have same: "ml_attempt_id lf = ml_attempt_id l \<Longrightarrow> lf = l"
      using D(3) f l unfolding distinct_attempts_def by fastforce
    have old: "flight_good s lf" using D(9) [OF f] .
    show ?case
    proof (rule flight_goodI)
      show "known ?s lf" using flight_goodD(1) [OF old] by (simp add: named)
      show "lf \<in> ft_open ?s" if "ml_recovery_attempt lf" using flight_goodD(2) [OF old that] by simp
      show "ft_created ?s (ml_reservation_id lf) \<noteq> Some (j, ml_attempt_id lf)" if "lf \<notin> ft_open ?s" for j
        using flight_goodD(3) [OF old] that same l by (auto split: if_splits)
      fix texp lexp
      assume h: "\<not> ml_recovery_attempt lf" "pending (ft_rows ?s (ml_key lf)) = Some (ml_reservation_id lf, ml_attempt_id lf, texp, lexp)"
      then have h': "pending (ft_rows s (ml_key lf)) = Some (ml_reservation_id lf, ml_attempt_id lf, texp, lexp)" by simp
      show "l' = lf" if "l' \<in> ft_open ?s" "live ?s l'" "ml_reservation_id l' = ml_reservation_id lf" for l'
        using flight_goodD(4) [OF old h(1) h'] live that by simp
      show "a = ml_attempt_id lf" if c: "ft_created ?s (ml_reservation_id lf) = Some (j, a)" "ft_machines ?s j = Some m" "punctual m" for j a m
      proof (cases "ml_reservation_id lf = ml_reservation_id l")
        case True
        then have "j = i" using c(1) by simp
        then have "ft_now s \<le> t + DISPATCH_SLACK_MS" using c(2,3) by (auto simp: punctual_def)
        then have "l = lf" using flight_goodD(4) [OF old h(1) h' l live_l] True by simp
        then show ?thesis using c(1) by simp
      next
        case False
        then have c': "ft_created s (ml_reservation_id lf) = Some (j, a)" using c(1) by simp
        then have "j \<noteq> i" using D(2) i by (auto simp: tokens_good_def)
        then show ?thesis using flight_goodD(5) [OF old h(1) h' c'] c(2,3) by simp
      qed
    qed
  next
    case (11 it)
    then have "confirmed_good s it" using D(11) by simp
    moreover have "it_target_ref it \<noteq> i" using calculation made_ids [OF D(2)] i by (auto simp: confirmed_good_def)
    ultimately show ?case using made by (simp add: confirmed_good_def)
  qed (use D in \<open>auto simp: distinct_attempts_def listed_good_def named\<close>)
qed

subsection \<open>Steps that vacate a row or install its machine\<close>

lemma fleet_ok_vacate:
  assumes ok: "fleet_ok dg S s" and mem: "kept_ok dg S ((ft_plane s)\<lparr>pl_registry := g, pl_inflight := fs\<rparr>)"
    and rows: "mr_records g = (ft_rows s)(k0 := ro)" and pend: "pending ro = None"
    and fs: "fs \<subseteq> pl_inflight (ft_plane s)" and opn: "opn \<subseteq> ft_open s" and sent: "sent \<subseteq> ft_sent s"
    and kept: "\<And>l t. (l, t) \<in> sent \<Longrightarrow> l \<in> opn" "\<And>q l. (q, l) \<in> fs \<Longrightarrow> l \<in> ft_open s \<Longrightarrow> l \<in> opn"
    and idle: "\<And>l. l \<in> opn \<Longrightarrow> live s l \<Longrightarrow> ml_key l \<noteq> k0"
    and there: "\<And>i m spec. ft_machines s i = Some m \<Longrightarrow> punctual m \<Longrightarrow> named s (mc_token m) k0 spec \<Longrightarrow> occupant ro = Some i"
    and good: "\<And>r. ro = Some r \<Longrightarrow> row_good s k0 r"
  shows "fleet_ok dg S (s\<lparr>ft_plane := (ft_plane s)\<lparr>pl_registry := g, pl_inflight := fs\<rparr>, ft_open := opn, ft_sent := sent\<rparr>)"
    (is "fleet_ok dg S ?s")
proof -
  note D = fleet_okD [OF ok]
  have same: "named ?s = named s" "made ?s = made s" "live ?s = live s" by (auto simp: named_def made_def live_def fun_eq_iff)
  have ro: "ft_rows ?s k0 = ro" and other: "k \<noteq> k0 \<Longrightarrow> ft_rows ?s k = ft_rows s k" for k by (simp_all add: rows)
  have no_hold: "pending ro \<noteq> Some x" "ro = Some r \<Longrightarrow> \<not> holds_attempt r l" for x r l
    using pend holds_attempt_pending by fastforce+
  show ?thesis
  proof (rule fleet_okI, goal_cases)
    case 1
    then show ?case using mem by simp
  next
    case 3
    then show ?case by (rule distinct_attempts_sub [OF D(3)]) (use fs opn in simp_all)
  next
    case (5 k r)
    then show ?case using D(5) [of k r] good [of r] ro other by (cases "k = k0") (auto simp: row_good_def same)
  next
    case (6 l)
    then show ?case using D(6) [of l] opn idle [of l] other by (auto simp: open_good_def same)
  next
    case (8 i m)
    then have g: "machine_good s i m" using D(8) [of i m] by simp
    have "\<exists>k spec. named s (mc_token m) k spec \<and> covered ?s i m k" if p: "punctual m"
    proof -
      obtain k spec where m: "named s (mc_token m) k spec" "covered s i m k" using g p by (auto simp: machine_good_def)
      have "covered ?s i m k"
        using m(2) there [of i m spec] 8 p m(1) ro other by (cases "k = k0") (auto simp: covered_def)
      then show ?thesis using m(1) by blast
    qed
    then show ?case using g unfolding machine_good_def same by simp
  next
    case (9 q l)
    then have f: "(q, l) \<in> fs" by simp
    then have old: "flight_good s l" using D(9) fs by blast
    show ?case
      using old kept(2) [OF f] opn other [of "ml_key l"] ro no_hold(1)
      unfolding flight_good_def same by (cases "ml_key l = k0") (simp_all, blast+)
  next
    case (10 l)
    then show ?case
      using D(10) [of l] other [of "ml_key l"] ro no_hold by (cases "ml_key l = k0") (auto simp: listed_good_def same agrees_def)
  qed (use D kept(1) sent in \<open>auto simp: tokens_good_def confirmed_good_def same\<close>)
qed

subsection \<open>Reservations\<close>

lemma lifetime_pos: "0 < TARGET_LIFETIME_MS"
  by (simp add: target_times)

text \<open>An expired row covers no live machine and no lease that may still create one.\<close>

lemma expired_row_idle:
  assumes ok: "fleet_ok dg S s"
    and occ: "occupant (ft_rows s k) = None"
    and old: "\<And>rid aid texp lexp. pending (ft_rows s k) = Some (rid, aid, texp, lexp) \<Longrightarrow> lexp \<le> ft_now s"
  shows "l \<in> ft_open s \<Longrightarrow> live s l \<Longrightarrow> ml_key l \<noteq> k"
    and "ft_machines s i = Some m \<Longrightarrow> punctual m \<Longrightarrow> \<not> named s (mc_token m) k spec"
proof -
  show "ml_key l \<noteq> k" if l: "l \<in> ft_open s" "live s l"
  proof
    assume "ml_key l = k"
    then obtain aid where "pending (ft_rows s k) = Some (ml_reservation_id l, aid, ml_target_expires_at_ms l, ml_lease_expires_at_ms l)"
      using fleet_okD(6) [OF ok l(1)] l(2) by (auto simp: open_good_def)
    from old [OF this] show False using l(2) lifetime_pos by (simp add: live_def)
  qed
  show "\<not> named s (mc_token m) k spec" if "ft_machines s i = Some m" and pm: "punctual m"
  proof
    assume n: "named s (mc_token m) k spec"
    have g: "machine_good s i m" using fleet_okD(8) [OF ok that(1)] .
    then have "covered s i m k" using named_unique [OF n] pm by (auto simp: machine_good_def)
    then obtain aid texp lexp where p: "pending (ft_rows s k) = Some (mc_token m, aid, texp, lexp)"
        "mc_born m + TARGET_LIFETIME_MS \<le> lexp" using occ by (auto simp: covered_def)
    from old [OF p(1)] show False using p(2) g by (simp add: machine_good_def)
  qed
qed

lemma own_lease_timed:
  assumes "acquire_lease dg q = Ok l" and "deployment_times q"
  shows "timed (ml_target_expires_at_ms l) (ml_lease_expires_at_ms l)"
  using assms by (auto simp: acquire_lease_Ok deployment_times_def timed_def target_times DISPATCH_SLACK_MS_def)

lemma fleet_ok_reserve:
  assumes ok: "fleet_ok dg S s" and acq: "acquire dg (ft_registry s) q = (Ok (AAcquired l), g)" and spec: "aq_spec q \<in> S"
    and att: "aq_attempt_id q \<notin> pl_attempts (ft_plane s)" and times: "deployment_times q" and now: "aq_now_ms q \<le> ft_now s"
    and res: "\<And>rid x. ft_reservations s rid = Some x \<Longrightarrow> resv rid = Some x"
    and own: "\<not> ml_recovery_attempt l \<Longrightarrow> resv (ml_reservation_id l) = Some (aq_key q, aq_spec q)"
    and opn: "opn = insert l (ft_open s) \<or> opn = ft_open s \<and> \<not> ml_recovery_attempt l"
  shows "fleet_ok dg S (s\<lparr>ft_plane := (ft_plane s)\<lparr>pl_registry := g, pl_inflight := insert (q, l) (pl_inflight (ft_plane s)),
           pl_attempts := insert (aq_attempt_id q) (pl_attempts (ft_plane s))\<rparr>, ft_open := opn, ft_reservations := resv\<rparr>)"
    (is "fleet_ok dg S ?s")
proof -
  note D = fleet_okD [OF ok]
  have plane: "plane_inv_when False dg S (ft_registry s)" using D(1) by (simp add: plane_ok_def)
  then have inv: "registry_inv False dg S (ft_registry s)" "digest_ok dg S" by (simp_all add: plane_inv_def)
  note R = acquired_rows [OF acq inv(1)]
  let ?k = "aq_key q"
  have other: "k \<noteq> ?k \<Longrightarrow> mr_records g k = ft_rows s k" for k using acquire_frame [OF acq inv spec] by simp
  obtain r where r: "mr_records g ?k = Some r" "dr_spec r = ml_spec l" using R(5) by blast
  have live: "live ?s = live s" by (auto simp: live_def fun_eq_iff)
  have named: "named s rid k sp \<Longrightarrow> named ?s rid k sp" for rid k sp using res by (simp add: named_def)
  have made: "made s i k sp \<Longrightarrow> made ?s i k sp" for i k sp using named by (auto simp: made_def)
  have l_spec: "\<not> ml_recovery_attempt l \<Longrightarrow> ml_spec l = aq_spec q" using R(6) by (auto simp: acquire_lease_Ok)
  have taken: "\<exists>aid. pending (ft_rows s ?k) = Some (ml_reservation_id l, aid, ml_target_expires_at_ms l, ml_lease_expires_at_ms l)
      \<and> named s (ml_reservation_id l) ?k (ml_spec l) \<and> timed (ml_target_expires_at_ms l) (ml_lease_expires_at_ms l)"
    if "ml_recovery_attempt l"
  proof -
    obtain aid r0 where r0: "ft_rows s ?k = Some r0" "dr_spec r0 = ml_spec l"
        "pending (Some r0) = Some (ml_reservation_id l, aid, ml_target_expires_at_ms l, ml_lease_expires_at_ms l)"
      using R(6) \<open>ml_recovery_attempt l\<close> by auto
    then show ?thesis using D(5) [OF r0(1)] by (auto simp: row_good_def)
  qed
  have idle: "l' \<in> ft_open s \<Longrightarrow> live s l' \<Longrightarrow> ml_key l' \<noteq> ?k" "ft_machines s i = Some m \<Longrightarrow> punctual m \<Longrightarrow> \<not> named s (mc_token m) ?k sp"
    if "\<not> ml_recovery_attempt l" for l' i m sp
    using expired_row_idle [OF ok R(2)] R(6) that now by (meson le_trans)+
  have own_named: "named ?s (ml_reservation_id l) (ml_key l) (ml_spec l)"
    using taken own named l_spec R(3) by (cases "ml_recovery_attempt l") (auto simp: named_def)
  have own_timed: "timed (ml_target_expires_at_ms l) (ml_lease_expires_at_ms l)"
    using taken R(6) own_lease_timed [OF _ times] by (cases "ml_recovery_attempt l") auto
  have attempt: "known s l' \<Longrightarrow> ml_attempt_id l' \<noteq> ml_attempt_id l" for l' using att R(4) by auto
  have same_key: "ml_key l' = ?k" if "known s l'" "ml_reservation_id l' = ml_reservation_id l" for l'
    using named_unique [OF own_named, of "ml_key l'" "ml_spec l'"] named [of "ml_reservation_id l'"] that R(3) by metis
  have opened: "ft_open s \<subseteq> opn" "opn \<subseteq> insert l (ft_open s)" "ml_recovery_attempt l \<Longrightarrow> l \<in> opn" using opn by auto
  have open_known: "l' \<in> ft_open s \<Longrightarrow> known s l'" for l' using D(6) by (simp add: open_good_def)
  have flight_known: "(q', l') \<in> pl_inflight (ft_plane s) \<Longrightarrow> known s l'" for q' l' using D(9) flight_goodD(1) by blast
  show ?thesis
  proof (rule fleet_okI, goal_cases)
    case 1
    have "worker_step (acquire dg) install expire_lease S (ft_plane s) (ft_plane ?s)"
      using worker_launches [OF _ spec att] acq by (simp add: mem.begin_launch)
    then show ?case by (rule mem.worker_keeps_ok) (rule D(1))
  next
    case 2
    have "resv rid \<noteq> None" if "ft_reservations s rid \<noteq> None" for rid using res that by blast
    then show ?case using D(2) by (auto simp: tokens_good_def)
  next
    case 3
    show ?case
      by (rule distinct_attempts_add [OF D(3), of _ "(q, l)"]) (use attempt open_known flight_known opened(2) in auto)
  next
    case (5 k r')
    show ?case
    proof (cases "k = ?k")
      case True
      then have "r' = r" using 5 r by simp
      moreover have "pending (Some r) = Some (row_of_lease l)" "occupant (Some r) = None"
        using R(1) r(1) by (auto simp: occupant_def elim!: pending_Some)
      ultimately show ?thesis using own_named own_timed R(3,4) r(2) True by (auto simp: row_good_def)
    next
      case False
      then show ?thesis using D(5) [of k r'] 5 other named made by (auto simp: row_good_def)
    qed
  next
    case (6 l')
    show ?case
    proof (cases "l' \<in> ft_open s")
      case True
      show ?thesis
        using D(6) [OF True] named other [of "ml_key l'"] R(1) idle(1) [OF _ True] taken
        by (cases "ml_key l' = ?k"; cases "ml_recovery_attempt l") (auto simp: open_good_def live)
    next
      case False
      then have "l' = l" using 6 opened(2) by auto
      then show ?thesis using own_named own_timed R(1,3,4) by (simp add: open_good_def)
    qed
  next
    case (7 l' t)
    then show ?case using D(7) [of l' t] opened(1) by auto
  next
    case (8 i m)
    then have m: "ft_machines s i = Some m" by simp
    have good: "machine_good s i m" using D(8) [OF m] .
    have "\<exists>k spec. named ?s (mc_token m) k spec \<and> covered ?s i m k" if p: "punctual m"
    proof -
      obtain k sp where g: "named s (mc_token m) k sp" "covered s i m k" using good p by (auto simp: machine_good_def)
      have "covered ?s i m k"
      proof (cases "k = ?k")
        case True
        then have "ml_recovery_attempt l" using idle(2) [OF _ m p] g(1) by blast
        then show ?thesis using taken R(1,2) g(2) True by (auto simp: covered_def)
      next
        case False
        then show ?thesis using g(2) other by (simp add: covered_def)
      qed
      then show ?thesis using named [OF g(1)] by blast
    qed
    then show ?case using good unfolding machine_good_def by simp
  next
    case (9 q' l')
    show ?case
    proof (cases "(q', l') \<in> pl_inflight (ft_plane s)")
      case True
      note F = flight_goodD [OF D(9) [OF True]]
      have away: "ml_key l' \<noteq> ?k" if "pending (ft_rows ?s (ml_key l')) = Some (ml_reservation_id l', ml_attempt_id l', texp, lexp)"
        for texp lexp using that R(1) attempt [OF F(1)] by auto
      show ?thesis
      proof (rule flight_goodI)
        show "known ?s l'" using F(1) named by auto
        show "l' \<in> ft_open ?s" if "ml_recovery_attempt l'" using F(2) [OF that] opened(1) by auto
        show "ft_created ?s (ml_reservation_id l') \<noteq> Some (i, ml_attempt_id l')" if "l' \<notin> ft_open ?s" for i
          using F(3) that opened(1) by auto
        fix texp lexp
        assume h: "\<not> ml_recovery_attempt l'"
          "pending (ft_rows ?s (ml_key l')) = Some (ml_reservation_id l', ml_attempt_id l', texp, lexp)"
        then have h': "pending (ft_rows s (ml_key l')) = Some (ml_reservation_id l', ml_attempt_id l', texp, lexp)"
          using away [OF h(2)] other by simp
        show "l2 = l'" if "l2 \<in> ft_open ?s" "live ?s l2" "ml_reservation_id l2 = ml_reservation_id l'" for l2
        proof (cases "l2 \<in> ft_open s")
          case True
          then show ?thesis using F(4) [OF h(1) h' True] that live by simp
        next
          case False
          then have "l2 = l" using that(1) opened(2) by auto
          then show ?thesis using same_key [OF F(1)] that(3) away [OF h(2)] by simp
        qed
        show "a = ml_attempt_id l'" if "ft_created ?s (ml_reservation_id l') = Some (i, a)" "ft_machines ?s i = Some m" "punctual m" for i a m
          using F(5) [OF h(1) h'] that by simp
      qed
    next
      case False
      then have "l' = l" using 9 by simp
      moreover have "flight_good ?s l"
      proof (rule flight_goodI)
        show "known ?s l" using own_named R(4) by simp
        show "l \<in> ft_open ?s" if "ml_recovery_attempt l" using opened(3) that by simp
        show "ft_created ?s (ml_reservation_id l) \<noteq> Some (i, ml_attempt_id l)" if "l \<notin> ft_open ?s" for i
          using D(2) att R(4) by (auto simp: tokens_good_def)
        assume h: "\<not> ml_recovery_attempt l"
        show "l2 = l" if "l2 \<in> ft_open ?s" "live ?s l2" "ml_reservation_id l2 = ml_reservation_id l" for l2
          using idle(1) [OF h, of l2] same_key [OF open_known [of l2]] that opened(2) live by auto
        show "a = ml_attempt_id l" if c: "ft_created ?s (ml_reservation_id l) = Some (i, a)" "ft_machines ?s i = Some m" "punctual m" for i a m
        proof -
          have g: "machine_good s i m" using D(8) c(2) by simp
          then obtain a' k sp where m: "ft_created s (mc_token m) = Some (i, a')" "named s (mc_token m) k sp"
            using c(3) by (auto simp: machine_good_def)
          then have "mc_token m = ml_reservation_id l" using c(1) D(2) by (auto simp: tokens_good_def)
          then have "k = ?k" using named_unique [OF own_named] named [OF m(2)] R(3) by metis
          then show ?thesis using idle(2) [OF h] c(2,3) m(2) by auto
        qed
      qed
      ultimately show ?thesis by simp
    qed
  next
    case (10 l')
    then have G: "known s l'" "ml_spec l' \<in> S" "agrees (ft_rows s (ml_key l')) l'"
        "\<And>texp lexp. pending (ft_rows s (ml_key l')) = Some (ml_reservation_id l', ml_attempt_id l', texp, lexp) \<Longrightarrow>
          lexp = ml_lease_expires_at_ms l'"
      using D(10) [of l'] by (auto simp: listed_good_def)
    have new: "pending (mr_records g ?k) \<noteq> Some (ml_reservation_id l', ml_attempt_id l', texp, lexp)" for texp lexp
      using R(1) attempt [OF G(1)] by simp
    have "agrees (mr_records g (ml_key l')) l'"
      using G(3) other [of "ml_key l'"] new holds_attempt_pending by (cases "ml_key l' = ?k") (fastforce simp: agrees_def)+
    then show ?case
      using G new other [of "ml_key l'"] named by (cases "ml_key l' = ?k") (auto simp: listed_good_def)
  qed (use D made in \<open>auto simp: confirmed_good_def\<close>)
qed

subsection \<open>Every step\<close>

lemma mem_ok_rows:
  assumes "kept_ok dg S p" and "registry_inv False dg S g" and "fs \<subseteq> pl_inflight p"
    and "\<And>k. mr_records g k = mr_records (pl_registry p) k \<or> pending (mr_records g k) = None"
  shows "kept_ok dg S (p\<lparr>pl_registry := g, pl_inflight := fs\<rparr>)"
proof -
  have "agrees (mr_records g k) l" if "agrees (mr_records (pl_registry p) k) l" for k l
    using that assms(4) [of k] holds_attempt_pending by (fastforce simp: agrees_def)
  then show ?thesis using assms(1-3) by (fastforce simp: plane_ok_def plane_inv_def)
qed

lemma mem_okD:
  assumes "kept_ok dg S p"
  shows "registry_inv False dg S (pl_registry p)" and "digest_ok dg S"
    and "(q, l) \<in> pl_inflight p \<Longrightarrow> agrees (mr_records (pl_registry p) (ml_key l)) l \<and> aq_now_ms q < ml_target_expires_at_ms l"
  using assms by (auto simp: plane_ok_def plane_inv_def)

text \<open>The row of an attempt is expired.\<close>

lemma fleet_ok_expire:
  assumes ok: "fleet_ok dg S s" and e: "expire_lease (ft_registry s) l n = (res, g)" and ag: "agrees (ft_rows s (ml_key l)) l"
    and fs: "fs \<subseteq> pl_inflight (ft_plane s)" and opn: "opn \<subseteq> ft_open s" and sent: "sent \<subseteq> ft_sent s"
    and kept: "\<And>l t. (l, t) \<in> sent \<Longrightarrow> l \<in> opn" "\<And>q l. (q, l) \<in> fs \<Longrightarrow> l \<in> ft_open s \<Longrightarrow> l \<in> opn"
    and idle: "\<And>texp lexp l'. pending (ft_rows s (ml_key l)) = Some (ml_reservation_id l, ml_attempt_id l, texp, lexp) \<Longrightarrow>
      l' \<in> opn \<Longrightarrow> live s l' \<Longrightarrow> ml_reservation_id l' = ml_reservation_id l \<Longrightarrow> ml_lease_expires_at_ms l' = lexp \<Longrightarrow> False"
    and gone: "\<And>texp lexp i m a. pending (ft_rows s (ml_key l)) = Some (ml_reservation_id l, ml_attempt_id l, texp, lexp) \<Longrightarrow>
      ft_machines s i = Some m \<Longrightarrow> punctual m \<Longrightarrow> ft_created s (ml_reservation_id l) = Some (i, a) \<Longrightarrow> mc_born m + TARGET_LIFETIME_MS \<le> lexp \<Longrightarrow> False"
  shows "fleet_ok dg S (s\<lparr>ft_plane := (ft_plane s)\<lparr>pl_registry := g, pl_inflight := fs\<rparr>, ft_open := opn, ft_sent := sent\<rparr>)"
proof -
  note D = fleet_okD [OF ok] and M = mem_okD [OF fleet_okD(1) [OF ok]]
  have inv: "registry_inv False dg S g" using expire_lease_inv(1) [OF e M(1) ag] .
  from expired_rows [OF e] show ?thesis
  proof
    assume same: "mr_records g = ft_rows s"
    have "kept_ok dg S ((ft_plane s)\<lparr>pl_registry := g, pl_inflight := fs\<rparr>)" by (rule mem_ok_rows [OF D(1) inv fs]) (simp add: same)
    then show ?thesis by (rule fleet_ok_drop [OF ok _ same fs opn sent kept])
  next
    assume "mr_records g = (ft_rows s)(ml_key l := None)
      \<and> (\<exists>texp lexp. pending (ft_rows s (ml_key l)) = Some (ml_reservation_id l, ml_attempt_id l, texp, lexp))"
    then obtain texp lexp where rows: "mr_records g = (ft_rows s)(ml_key l := None)"
      and p: "pending (ft_rows s (ml_key l)) = Some (ml_reservation_id l, ml_attempt_id l, texp, lexp)" by blast
    have "kept_ok dg S ((ft_plane s)\<lparr>pl_registry := g, pl_inflight := fs\<rparr>)" by (rule mem_ok_rows [OF D(1) inv fs]) (simp add: rows)
    then show ?thesis
    proof (rule fleet_ok_vacate [OF ok _ rows _ fs opn sent kept], goal_cases)
      case (5 l')
      then show ?case using D(6) [of l'] opn p idle [OF p, of l'] by (auto simp: open_good_def)
    next
      case (6 i m spec)
      then have g: "machine_good s i m" using D(8) by blast
      then have "covered s i m (ml_key l)" using named_unique [OF 6(3)] 6(2) by (auto simp: machine_good_def)
      moreover have "occupant (ft_rows s (ml_key l)) = None" using p by (auto elim!: pending_Some)
      ultimately show ?case using p gone [OF p 6(1,2)] g by (auto simp: covered_def machine_good_def)
    qed simp_all
  qed
qed

end
