(* ===== verification/Fleet_Runs.thy ===== *)
theory Fleet_Runs
  imports Fleet_Laws
begin

section \<open>Every step of the fleet\<close>

text \<open>
  The steps of \<open>fleet_step\<close> one by one, then runs: the invariant of \<open>Fleet_Laws\<close> and the allocation limit
  hold after every run, and a live punctual machine has a charged row of its own.
\<close>

subsection \<open>The steps of a launch\<close>

abbreviation ft_settled ::
    "memory_target_registry \<Rightarrow> (acquire_target \<times> materialization_lease) set \<Rightarrow> fleet \<Rightarrow> fleet" where
  "ft_settled g fs s \<equiv> s\<lparr>ft_plane := (ft_plane s)\<lparr>pl_registry := g, pl_inflight := fs\<rparr>\<rparr>"

lemma ft_same_open: "s\<lparr>ft_plane := p, ft_open := ft_open s, ft_sent := ft_sent s\<rparr> = s\<lparr>ft_plane := p\<rparr>"
  by simp

lemma ft_registry_only:
  "s\<lparr>ft_plane := (ft_plane s)\<lparr>pl_registry := g\<rparr>\<rparr> = ft_settled g (pl_inflight (ft_plane s)) s"
  by simp

lemma sent_open: "fleet_ok dg S s \<Longrightarrow> (l, t) \<in> ft_sent s \<Longrightarrow> l \<in> ft_open s"
  using fleet_okD(7) by blast

lemma fleet_ok_expire_only:
  assumes ok: "fleet_ok dg S s" and e: "expire_lease (ft_registry s) l n = (res, g)" and ag: "agrees (ft_rows s (ml_key l)) l"
    and fs: "fs \<subseteq> pl_inflight (ft_plane s)"
    and idle: "\<And>texp lexp l'. pending (ft_rows s (ml_key l)) = Some (ml_reservation_id l, ml_attempt_id l, texp, lexp) \<Longrightarrow>
      l' \<in> ft_open s \<Longrightarrow> live s l' \<Longrightarrow> ml_reservation_id l' = ml_reservation_id l \<Longrightarrow> ml_lease_expires_at_ms l' = lexp \<Longrightarrow> False"
    and gone: "\<And>texp lexp i m a. pending (ft_rows s (ml_key l)) = Some (ml_reservation_id l, ml_attempt_id l, texp, lexp) \<Longrightarrow>
      ft_machines s i = Some m \<Longrightarrow> punctual m \<Longrightarrow> ft_created s (ml_reservation_id l) = Some (i, a) \<Longrightarrow> mc_born m + TARGET_LIFETIME_MS \<le> lexp \<Longrightarrow> False"
  shows "fleet_ok dg S (ft_settled g fs s)"
  using fleet_ok_expire [OF ok e ag fs subset_refl subset_refl sent_open [OF ok] _ idle gone] unfolding ft_same_open by simp

lemma fleet_ok_install:
  assumes ok: "fleet_ok dg S s" and i: "install (ft_registry s) l p n = (res, g)" and f: "(q, l) \<in> pl_inflight (ft_plane s)"
    and c: "ft_created s (ml_reservation_id l) = Some (pt_target_ref p, a)"
    and fs: "fs \<subseteq> pl_inflight (ft_plane s)"
  shows "fleet_ok dg S (ft_settled g fs s)"
proof -
  note D = fleet_okD [OF ok] and M = mem_okD [OF fleet_okD(1) [OF ok]]
  have inv: "registry_inv False dg S g" using install_inv [OF i M(1)] M(3) [OF f] by simp
  from installed_rows [OF i] show ?thesis
  proof
    assume same: "mr_records g = ft_rows s"
    have "kept_ok dg S ((ft_plane s)\<lparr>pl_registry := g, pl_inflight := fs\<rparr>)" by (rule mem_ok_rows [OF D(1) inv fs]) (simp add: same)
    from fleet_ok_drop [OF ok this same fs subset_refl subset_refl sent_open [OF ok]] show ?thesis
      unfolding ft_same_open by simp
  next
    assume "\<exists>aid texp lexp r r'. ft_rows s (ml_key l) = Some r \<and> mr_records g = (ft_rows s)(ml_key l \<mapsto> r')
        \<and> pending (Some r) = Some (ml_reservation_id l, aid, texp, lexp) \<and> pending (Some r') = None
        \<and> occupant (Some r') = Some (pt_target_ref p) \<and> dr_spec r' = dr_spec r"
    then obtain aid texp lexp r r' where r: "ft_rows s (ml_key l) = Some r" and rows: "mr_records g = (ft_rows s)(ml_key l \<mapsto> r')"
      and old: "pending (Some r) = Some (ml_reservation_id l, aid, texp, lexp)"
      and new: "pending (Some r') = None" "occupant (Some r') = Some (pt_target_ref p)" "dr_spec r' = dr_spec r" by blast
    have free: "occupant (Some r) = None" using old by (auto elim!: pending_Some)
    have "kept_ok dg S ((ft_plane s)\<lparr>pl_registry := g, pl_inflight := fs\<rparr>)"
      by (rule mem_ok_rows [OF D(1) inv fs]) (simp add: rows new(1))
    then have "fleet_ok dg S (s\<lparr>ft_plane := (ft_plane s)\<lparr>pl_registry := g, pl_inflight := fs\<rparr>, ft_open := ft_open s, ft_sent := ft_sent s\<rparr>)"
    proof (rule fleet_ok_vacate [OF ok _ rows new(1) fs subset_refl subset_refl sent_open [OF ok]], goal_cases)
      case (3 l')
      show ?case
      proof
        assume "ml_key l' = ml_key l"
        then have "ml_reservation_id l' = ml_reservation_id l" using D(6) [OF 3(1)] 3(2) r old by (auto simp: open_good_def)
        then show False using 3(2) c by (simp add: live_def)
      qed
    next
      case (4 j m spec)
      then have g: "machine_good s j m" using D(8) by blast
      then have "covered s j m (ml_key l)" using named_unique [OF 4(3)] 4(2) by (auto simp: machine_good_def)
      then have "mc_token m = ml_reservation_id l" using r old free by (auto simp: covered_def)
      then show ?case using g c new(2) by (auto simp: machine_good_def)
    next
      case (5 r'')
      have "named s (ml_reservation_id l) (ml_key l) (dr_spec r)" using D(5) [OF r] old by (auto simp: row_good_def)
      then show ?case using 5 new c by (auto simp: row_good_def made_def)
    qed simp_all
    then show ?thesis unfolding ft_same_open .
  qed
qed

subsection \<open>The other steps\<close>

text \<open>A purge found the lease of a row whose machine must have ended.\<close>

lemma fleet_ok_forget:
  assumes ok: "fleet_ok dg S s" and l: "l \<in> ft_listed s" and n: "ml_lease_expires_at_ms l \<le> ft_now s"
    and e: "expire_lease (ft_registry s) l n = (res, g)"
  shows "fleet_ok dg S (s\<lparr>ft_plane := (ft_plane s)\<lparr>pl_registry := g\<rparr>\<rparr>)"
  unfolding ft_registry_only
proof (rule fleet_ok_expire_only [OF ok e])
  note D = fleet_okD [OF ok]
  have L: "listed_good s S l" using D(10) [OF l] .
  then show "agrees (ft_rows s (ml_key l)) l" by (simp add: listed_good_def)
  fix texp lexp
  assume p: "pending (ft_rows s (ml_key l)) = Some (ml_reservation_id l, ml_attempt_id l, texp, lexp)"
  then have t: "lexp \<le> ft_now s" using L n by (auto simp: listed_good_def)
  show False if "live s l'" "ml_lease_expires_at_ms l' = lexp" for l' using that t lifetime_pos by (simp add: live_def)
  show False if "ft_machines s i = Some m" "punctual m" "mc_born m + TARGET_LIFETIME_MS \<le> lexp" for i m
    using D(8) [OF that(1)] that(3) t by (simp add: machine_good_def)
qed simp

text \<open>An attempt that reserved a fresh row for a recovery gives it back: no machine was asked for.\<close>

lemma fleet_ok_discard:
  assumes ok: "fleet_ok dg S s" and f: "(q, l) \<in> pl_inflight (ft_plane s)" and l: "l \<notin> ft_open s"
    and e: "expire_lease (ft_registry s) l n = (res, g)"
  shows "fleet_ok dg S (s\<lparr>ft_plane := (ft_plane s)\<lparr>pl_registry := g\<rparr>\<rparr>)"
  unfolding ft_registry_only
proof -
  note F = flight_goodD [OF fleet_okD(9) [OF ok f]]
  have new: "\<not> ml_recovery_attempt l" using F(2) l by blast
  show "fleet_ok dg S (ft_settled g (pl_inflight (ft_plane s)) s)"
    by (rule fleet_ok_expire_only [OF ok e])
      (use mem_okD(3) [OF fleet_okD(1) [OF ok] f] F(3) [OF l] F(4,5) [OF new] l in blast)+
qed

lemma purge_row_inv:
  assumes "registry_inv timely dg S g"
  shows "registry_inv timely dg S (purge_row g k gen)" and "mr_reserved_mib (purge_row g k gen) = mr_reserved_mib g"
    and "mr_max_mib (purge_row g k gen) = mr_max_mib g"
proof -
  have "account charge ((mr_records g)(k := None)) = account charge (mr_records g)"
    if "mr_records g k = Some r" "dr_state r = Closed d reason at" for r d reason at
    using assms account_remove [of "mr_records g" k r charge] that by (simp add: registry_inv_def)
  then show "registry_inv timely dg S (purge_row g k gen)"
    using assms by (auto simp: purge_row_def registry_inv_def split: option.splits durable_target_state.splits if_splits)
qed (auto simp: purge_row_def split: option.splits durable_target_state.splits)

lemma fleet_ok_empty:
  assumes ok: "fleet_ok dg S s" and inv: "registry_inv False dg S g"
    and rows: "mr_records g = (ft_rows s)(k := ro)" and empty: "pending ro = None" "occupant ro = None"
    and was: "pending (ft_rows s k) = None" and gone: "\<And>i. occupant (ft_rows s k) = Some i \<Longrightarrow> ft_machines s i = None"
  shows "fleet_ok dg S (s\<lparr>ft_plane := (ft_plane s)\<lparr>pl_registry := g\<rparr>\<rparr>)"
proof -
  note D = fleet_okD [OF ok]
  let ?fs = "pl_inflight (ft_plane s)"
  have "kept_ok dg S ((ft_plane s)\<lparr>pl_registry := g, pl_inflight := ?fs\<rparr>)"
    by (rule mem_ok_rows [OF D(1) inv]) (simp_all add: rows empty)
  then have "fleet_ok dg S (s\<lparr>ft_plane := (ft_plane s)\<lparr>pl_registry := g, pl_inflight := ?fs\<rparr>, ft_open := ft_open s, ft_sent := ft_sent s\<rparr>)"
  proof (rule fleet_ok_vacate [OF ok _ rows empty(1) subset_refl subset_refl subset_refl sent_open [OF ok]], goal_cases)
    case (3 l)
    then show ?case using D(6) [OF 3(1)] was by (auto simp: open_good_def)
  next
    case (4 i m spec)
    have "machine_good s i m" using D(8) [OF 4(1)] .
    then have "covered s i m k" using named_unique [OF 4(3)] 4(2) by (auto simp: machine_good_def)
    then have "occupant (ft_rows s k) = Some i" using was by (simp add: covered_def)
    from gone [OF this] show ?case using 4(1) by simp
  next
    case (5 r)
    then show ?case using empty by (auto simp: row_good_def)
  qed simp_all
  then show ?thesis by simp
qed

lemma fleet_ok_purge:
  assumes ok: "fleet_ok dg S s"
  shows "fleet_ok dg S (s\<lparr>ft_plane := (ft_plane s)\<lparr>pl_registry := purge_row (ft_registry s) k gen\<rparr>\<rparr>)"
proof (cases "purge_row (ft_registry s) k gen = ft_registry s")
  case True
  then show ?thesis using ok by simp
next
  case False
  then have "mr_records (purge_row (ft_registry s) k gen) = (ft_rows s)(k := None)"
      "pending (ft_rows s k) = None" "occupant (ft_rows s k) = None"
    by (auto simp: purge_row_def split: option.splits durable_target_state.splits if_splits)
  then show ?thesis using fleet_ok_empty [OF ok purge_row_inv(1), of _ k gen k None] mem_okD(1) [OF fleet_okD(1) [OF ok]] by simp
qed

lemma mark_closed_cases:
  "snd (mark_closed g t d reason n) = g
    \<or> (\<exists>r r'. mr_records g (it_key t) = Some r \<and> occupant (Some r) = Some (it_target_ref t)
        \<and> mr_records (snd (mark_closed g t d reason n)) = (mr_records g)(it_key t \<mapsto> r')
        \<and> pending (Some r') = None \<and> occupant (Some r') = None)"
proof (cases "valid_reason reason \<and> (\<exists>r. mr_records g (it_key t) = Some r \<and> holds_target r t)")
  case True
  then obtain r where r: "mr_records g (it_key t) = Some r" "holds_target r t" by blast
  then have "mr_records (snd (mark_closed g t d reason n)) =
      (mr_records g)(it_key t \<mapsto> r\<lparr>dr_state := Closed d reason n, dr_updated_at_ms := n\<rparr>)"
    using True by (simp add: mark_closed_def transition_installed_def mat_validate_eq)
  moreover have "occupant (Some r) = Some (it_target_ref t)"
    using r(2) by (auto simp: holds_target_def occupant_def split: durable_target_state.splits)
  ultimately show ?thesis using r(1) by auto
next
  case False
  then show ?thesis using mark_closed_other [of reason g t d n] by blast
qed

lemma fleet_ok_close:
  assumes ok: "fleet_ok dg S s" and t: "t \<in> ft_confirmed s"
  shows "fleet_ok dg S (s\<lparr>ft_plane := (ft_plane s)\<lparr>pl_registry := snd (mark_closed (ft_registry s) t d reason n)\<rparr>\<rparr>)"
proof -
  note D = fleet_okD [OF ok] and M = mem_okD [OF fleet_okD(1) [OF ok]]
  have T: "made s (it_target_ref t) (it_key t) (it_spec t)" "ft_machines s (it_target_ref t) = None"
    using D(11) [OF t] by (simp_all add: confirmed_good_def)
  have "dr_spec r = it_spec t" if "ft_rows s (it_key t) = Some r" "holds_target r t" for r
  proof -
    have "occupant (Some r) = Some (it_target_ref t)"
      using that(2) by (auto simp: holds_target_def occupant_def split: durable_target_state.splits)
    then have "made s (it_target_ref t) (it_key t) (dr_spec r)" using D(5) [OF that(1)] by (simp add: row_good_def)
    then show ?thesis using made_unique [OF D(2) T(1)] by blast
  qed
  then have inv: "registry_inv False dg S (snd (mark_closed (ft_registry s) t d reason n))"
    by (intro mark_closed_inv [OF M(1)]) (simp add: target_agrees_def)
  from mark_closed_cases [of "ft_registry s" t d reason n] show ?thesis
  proof
    assume "snd (mark_closed (ft_registry s) t d reason n) = ft_registry s"
    then show ?thesis using ok by simp
  next
    assume "\<exists>r r'. ft_rows s (it_key t) = Some r \<and> occupant (Some r) = Some (it_target_ref t)
        \<and> mr_records (snd (mark_closed (ft_registry s) t d reason n)) = (ft_rows s)(it_key t \<mapsto> r')
        \<and> pending (Some r') = None \<and> occupant (Some r') = None"
    then obtain r r' where r: "ft_rows s (it_key t) = Some r" "occupant (Some r) = Some (it_target_ref t)"
        "mr_records (snd (mark_closed (ft_registry s) t d reason n)) = (ft_rows s)(it_key t \<mapsto> r')"
        "pending (Some r') = None" "occupant (Some r') = None" by blast
    have "pending (Some r) = None" using r(2) by (auto elim!: occupant_Some)
    then show ?thesis using fleet_ok_empty [OF ok inv r(3,4,5)] r(1,2) T(2) by simp
  qed
qed

subsection \<open>Runs\<close>

lemma recovery_request_fields [simp]:
  "aq_key (recovery_request l hex n) = ml_key l" "aq_spec (recovery_request l hex n) = ml_spec l"
  "aq_reservation_id (recovery_request l hex n) = ml_reservation_id l" "aq_now_ms (recovery_request l hex n) = n"
  "deployment_times (recovery_request l hex n)"
  by (simp_all add: recovery_request_def deployment_times_def)

lemma fleet_ok_recover:
  assumes ok: "fleet_ok dg S s" and l0: "l0 \<in> ft_listed s" and q: "q = recovery_request l0 hex n" and n: "n \<le> ft_now s"
    and a: "aq_attempt_id q \<notin> pl_attempts (ft_plane s)" and acq: "acquire dg (ft_registry s) q = (Ok (AAcquired l), g)"
  shows "fleet_ok dg S
      (s\<lparr>ft_plane := (ft_plane s)\<lparr>pl_registry := g, pl_inflight := insert (q, l) (pl_inflight (ft_plane s)),
           pl_attempts := insert (aq_attempt_id q) (pl_attempts (ft_plane s))\<rparr>,
         ft_open := (if ml_recovery_attempt l then insert l (ft_open s) else ft_open s)\<rparr>)"
proof -
  have L: "named s (ml_reservation_id l0) (ml_key l0) (ml_spec l0)" "ml_spec l0 \<in> S"
    using fleet_okD(10) [OF ok l0] by (simp_all add: listed_good_def)
  note R = acquired_rows [OF acq mem_okD(1) [OF fleet_okD(1) [OF ok]]]
  have "ft_reservations s (ml_reservation_id l) = Some (aq_key q, aq_spec q)" if "\<not> ml_recovery_attempt l"
    using R(6) that L(1) q by (auto simp: acquire_lease_Ok named_def)
  then show ?thesis
    using fleet_ok_reserve [OF ok acq _ a, of "ft_reservations s" "if ml_recovery_attempt l then insert l (ft_open s) else ft_open s"]
      q n L(2) by auto
qed

lemma listed_lease_good:
  assumes ok: "fleet_ok dg S s" and r: "ft_rows s k = Some r" and l: "recovery_lease r = Ok l"
  shows "listed_good s S l"
proof -
  have k: "dr_key r = k" "dr_spec r \<in> S" using registry_inv_record [OF mem_okD(1) [OF fleet_okD(1) [OF ok]] r] by simp_all
  from l have "ml_key l = k" "ml_spec l = dr_spec r" "ml_spec_digest l = dr_spec_digest r"
      "pending (Some r) = Some (row_of_lease l)"
    using k by (auto simp: recovery_lease_def lease_from_record_Ok_iff)
  then show ?thesis using fleet_okD(5) [OF ok r] k r by (auto simp: listed_good_def row_good_def agrees_def)
qed

lemma step_fleet_ok: "fleet_step V K zone dg S s s' \<Longrightarrow> fleet_ok dg S s \<Longrightarrow> fleet_ok dg S s'"
proof (induction rule: fleet_step.induct)
  case (tick s n)
  let ?ms = "\<lambda>i. case ft_machines s i of None \<Rightarrow> None | Some m \<Rightarrow> if n < mc_born m + TARGET_LIFETIME_MS then Some m else None"
  have "?ms \<subseteq>\<^sub>m ft_machines s"
    unfolding map_le_def
  proof
    show "?ms i = ft_machines s i" if "i \<in> dom ?ms" for i using that by (cases "ft_machines s i") (auto split: if_splits)
  qed
  moreover have "n < mc_born m + TARGET_LIFETIME_MS" if "?ms i = Some m" for i m using that by (auto split: option.splits if_splits)
  ultimately show ?case by (rule fleet_ok_shrink [OF tick(2,1)])
next
  case (ends s i)
  have "fleet_ok dg S (s\<lparr>ft_now := ft_now s, ft_machines := (ft_machines s)(i := None)\<rparr>)"
    by (rule fleet_ok_shrink [OF ends order_refl])
      (use fleet_okD(8) [OF ends] in \<open>auto simp: map_le_def machine_good_def split: if_splits\<close>)
  then show ?case by simp
next
  case (reserves s q l g)
  note R = acquired_rows [OF reserves(1) mem_okD(1) [OF fleet_okD(1) [OF reserves(7)]]]
  have "ml_reservation_id l = aq_reservation_id q" if "\<not> ml_recovery_attempt l" using R(6) that by (auto simp: acquire_lease_Ok)
  then show ?case by (intro fleet_ok_reserve [OF reserves(7,1-5)]) (use reserves(6) in \<open>auto split: if_splits\<close>)
next
  case (dispatches q l s t request token)
  then show ?case by (intro fleet_ok_dispatch)
next
  case (creates l t s i)
  then show ?case by (intro fleet_ok_create)
next
  case (refuses q l s)
  then show ?case by (intro fleet_ok_refuse)
next
  case (installs q l s p a n)
  obtain res g where i: "install (ft_registry s) l p n = (res, g)" by (cases "install (ft_registry s) l p n")
  from fleet_ok_install [OF installs(3) i installs(1,2) subset_refl] show ?case unfolding i ft_registry_only by simp
next
  case (confirms s rid t a)
  then have "confirmed_good s t" by (auto simp: confirmed_good_def made_def named_def)
  then show ?case by (rule fleet_ok_confirm [OF confirms(4)])
next
  case (closes t s d reason n)
  then show ?case by (intro fleet_ok_close)
next
  case (lists s k r l)
  then show ?case by (intro fleet_ok_list [OF lists(3)] listed_lease_good)
next
  case (forgets l s n)
  obtain res g where e: "expire_lease (ft_registry s) l n = (res, g)" by (cases "expire_lease (ft_registry s) l n")
  from fleet_ok_forget [OF forgets(3,1,2) e] show ?case unfolding e by simp
next
  case (recovers l0 s q hex n l g)
  then show ?case by (intro fleet_ok_recover)
next
  case (discards q l s n)
  obtain res g where e: "expire_lease (ft_registry s) l n = (res, g)" by (cases "expire_lease (ft_registry s) l n")
  from fleet_ok_discard [OF discards(3,1,2) e] show ?case unfolding e by simp
next
  case (purges s k gen)
  then show ?case by (rule fleet_ok_purge)
qed

lemma run_fleet_ok: "(fleet_step V K zone dg S)\<^sup>*\<^sup>* s s' \<Longrightarrow> fleet_ok dg S s \<Longrightarrow> fleet_ok dg S s'"
  by (induction rule: rtranclp_induct) (auto intro: step_fleet_ok)

text \<open>The allocation limit.\<close>

lemma expired_smaller:
  "mr_reserved_mib (snd (expire_lease g l n)) \<le> mr_reserved_mib g \<and> mr_max_mib (snd (expire_lease g l n)) = mr_max_mib g"
  using expire_shrinks by (cases "expire_lease g l n") simp

lemma step_within:
  assumes "fleet_step V K zone dg S s s'" and "fleet_ok dg S s" and "within_max (ft_registry s)"
    and "mr_max_mib (ft_registry s) = m" and "\<And>spec. spec \<in> S \<Longrightarrow> ts_materialized_mib spec \<le> m"
  shows "within_max (ft_registry s') \<and> mr_max_mib (ft_registry s') = m"
proof -
  note ok = fleet_okD(1) [OF assms(2)]
  have inv: "plane_inv_when False dg S (ft_registry s)" using ok by (simp add: plane_ok_def)
  have acquired: "within_max g \<and> mr_max_mib g = m"
    if a: "acquire dg (ft_registry s) q = (Ok (AAcquired l), g)" and q: "aq_spec q \<in> S" for q l g
    using acquire_within [OF a inv q] assms(3-5) q by simp
  have smaller: "within_max g \<and> mr_max_mib g = m"
    if "mr_reserved_mib g \<le> mr_reserved_mib (ft_registry s) \<and> mr_max_mib g = mr_max_mib (ft_registry s)" for g
    using that assms(3,4) by (auto simp: within_max_def)
  from assms(1) show ?thesis
  proof cases
    case (reserves q l g)
    then show ?thesis using acquired by simp
  next
    case (installs q l p a n)
    then show ?thesis
      using smaller [of "snd (install (ft_registry s) l p n)"] install_same_capacity [of "ft_registry s" l p n]
      by (cases "install (ft_registry s) l p n") simp
  next
    case (closes t d reason n)
    then show ?thesis using smaller [OF mark_closed_shrinks [of "ft_registry s" t d reason n]] by simp
  next
    case (forgets l n)
    then show ?thesis using smaller [OF expired_smaller] by simp
  next
    case (recovers l0 q hex n l g)
    then have "aq_spec q \<in> S" using fleet_okD(10) [OF assms(2)] by (auto simp: listed_good_def)
    then show ?thesis using recovers acquired by simp
  next
    case (discards q l n)
    then show ?thesis using smaller [OF expired_smaller] by simp
  next
    case (purges k gen)
    then show ?thesis using smaller [of "purge_row (ft_registry s) k gen"] purge_row_inv [OF mem_okD(1) [OF ok], of k gen] by simp
  qed (use assms(3,4) in simp_all)
qed

lemma run_within:
  assumes "(fleet_step V K zone dg S)\<^sup>*\<^sup>* (fleet_start g) s" and "with_capacity m = Some g" and "digest_ok dg S"
    and "\<And>spec. spec \<in> S \<Longrightarrow> ts_materialized_mib spec \<le> m"
  shows "fleet_ok dg S s \<and> within_max (ft_registry s) \<and> mr_max_mib (ft_registry s) = m"
  using assms(1)
proof (induction rule: rtranclp_induct)
  case base
  then show ?case
    using fleet_start_ok [OF assms(2,3)] assms(2)
    by (auto simp: fleet_start_def within_max_def with_capacity_def split: if_splits)
next
  case (step s s')
  then show ?case using step_fleet_ok [OF step(2)] step_within [OF step(2)] assms(4) by blast
qed

subsection \<open>Machines and charges\<close>

lemma covered_row:
  assumes "covered s i m k"
  obtains r where "ft_rows s k = Some r" and "charge r = ts_materialized_mib (dr_spec r)"
  using assms by (auto simp: covered_def elim!: pending_Some occupant_Some)

lemma covered_once:
  assumes "machine_good s i m" and "machine_good s j m'" and "covered s i m k" and "covered s j m' k"
  shows "i = j"
proof -
  have "pending ro = Some x \<Longrightarrow> occupant ro = None" for ro x by (cases x) (auto elim!: pending_Some)
  then show ?thesis using assms by (auto simp: covered_def machine_good_def)
qed

text \<open>The machines that were created in time.\<close>

definition punctual_machines :: "(string \<rightharpoonup> machine) \<Rightarrow> string set" where
  "punctual_machines ms = {i. \<exists>m. ms i = Some m \<and> punctual m}"

lemma machines_charged:
  assumes ok: "fleet_ok dg S s" and mib: "\<And>spec. spec \<in> S \<Longrightarrow> ts_materialized_mib spec = c"
  shows "c * card (punctual_machines (ft_machines s)) \<le> mr_reserved_mib (ft_registry s)"
proof -
  note D = fleet_okD [OF ok] and M = mem_okD [OF fleet_okD(1) [OF ok]]
  let ?P = "punctual_machines (ft_machines s)"
  define at where "at i = (SOME k. covered s i (the (ft_machines s i)) k)" for i
  have at: "machine_good s i (the (ft_machines s i)) \<and> covered s i (the (ft_machines s i)) (at i)" if i: "i \<in> ?P" for i
  proof -
    have g: "machine_good s i (the (ft_machines s i))" "punctual (the (ft_machines s i))"
      using D(8) i by (auto simp: punctual_machines_def)
    then have "\<exists>k. covered s i (the (ft_machines s i)) k" by (auto simp: machine_good_def)
    then show ?thesis using g unfolding at_def by (metis someI_ex)
  qed
  have inj: "inj_on at ?P"
  proof (rule inj_onI)
    show "i = j" if "i \<in> ?P" "j \<in> ?P" "at i = at j" for i j
      using covered_once at [OF that(1)] at [OF that(2)] that(3) by metis
  qed
  have row: "at i \<in> dom (ft_rows s) \<and> charge (the (ft_rows s (at i))) = c" if i: "i \<in> ?P" for i
  proof -
    obtain r where r: "ft_rows s (at i) = Some r" "charge r = ts_materialized_mib (dr_spec r)" using covered_row at [OF i] by metis
    then show ?thesis using mib registry_inv_record [OF M(1) r(1)] by auto
  qed
  have fin: "finite (dom (ft_rows s))" using M(1) by (simp add: registry_inv_def)
  have "c * card ?P = (\<Sum>k\<in>at ` ?P. charge (the (ft_rows s k)))"
    using row by (simp add: sum.reindex [OF inj] mult.commute)
  also have "\<dots> \<le> (\<Sum>k\<in>dom (ft_rows s). charge (the (ft_rows s k)))" by (rule sum_mono2 [OF fin]) (use row in auto)
  also have "\<dots> = mr_reserved_mib (ft_registry s)" using M(1) by (simp add: registry_inv_def account_def)
  finally show ?thesis .
qed

text \<open>The promises of the fleet.\<close>

lemma fleet_within_capacity:
  assumes "with_capacity m = Some g" and "digest_ok dg S" and "\<forall>spec\<in>S. ts_materialized_mib spec = TARGET_MEMORY_MIB"
    and "TARGET_MEMORY_MIB \<le> m" and "(fleet_step V K zone dg S)\<^sup>*\<^sup>* (fleet_start g) s"
  shows "TARGET_MEMORY_MIB * card (punctual_machines (ft_machines s)) \<le> mr_reserved_mib (ft_registry s)
    \<and> mr_reserved_mib (ft_registry s) \<le> m"
  using run_within [OF assms(5,1,2)] machines_charged [of dg S s TARGET_MEMORY_MIB] assms(3,4) by (auto simp: within_max_def)

lemma fleet_no_orphan:
  assumes "with_capacity m = Some g" and "digest_ok dg S" and "(fleet_step V K zone dg S)\<^sup>*\<^sup>* (fleet_start g) s"
    and "ft_machines s i = Some mc" and "punctual mc"
  shows "\<exists>k r. ft_rows s k = Some r \<and> dr_spec r \<in> S \<and>
    (case dr_state r of
       Installed tref ct iat ex \<Rightarrow> tref = i
     | Materializing rid lr aid aexp texp lexp \<Rightarrow> rid = mc_token mc \<and> mc_born mc + TARGET_LIFETIME_MS \<le> lexp
     | Closed d reason at \<Rightarrow> False)"
proof -
  have ok: "fleet_ok dg S s" using run_fleet_ok [OF assms(3)] fleet_start_ok [OF assms(1,2)] .
  obtain k where c: "covered s i mc k" using fleet_okD(8) [OF ok assms(4)] assms(5) by (auto simp: machine_good_def)
  then obtain r where r: "ft_rows s k = Some r" by (rule covered_row)
  have "dr_spec r \<in> S" using registry_inv_record [OF mem_okD(1) [OF fleet_okD(1) [OF ok]] r] by simp
  then show ?thesis
    using c r by (intro exI [of _ k] exI [of _ r]) (cases "dr_state r", auto simp: covered_def)
qed

end
