(* ===== verification/Port_World.thy ===== *)
theory Port_World
  imports Port_Discipline Fleet_Runs
begin

section \<open>The handlers in their world\<close>

text \<open>
  Handlers of \<open>Hand_Ports\<close> run concurrently against one registry and one provider. A step is one call of one
  handler, or something that the provider does by itself. Any answer may be lost, any handler may stop at any point, and any time may
  pass between two steps: between the admission of a launch and its call, between the call and its effect, and between the effect and the
  installation of the machine. Every run is
  shown to be a run of \<open>Fleet\<close>: the knowledge of \<open>Port_Discipline\<close>, which every handler respects, is what the conditions of the
  fleet ask for.

  The registry is the in-memory one (\<open>memory.rs\<close>), the reference implementation of the registry ports, in the place of the
  DynamoDB one; each of its operations is one step. The clock that a handler reads may lag behind the provider's time or go back,
  but is not ahead of it. \<open>S\<close> are the specs of the targets in use, and random identifiers do not repeat.
\<close>

subsection \<open>Steps\<close>

record world =
  wo_registry :: memory_target_registry
  wo_now :: nat
  wo_machines :: "string \<rightharpoonup> machine"
  wo_ids :: "string set"
  wo_created :: "string \<rightharpoonup> string \<times> string"
  wo_calls :: "(materialization_lease \<times> nat \<times> exact_run_request) set"
  wo_drawn :: "string set"
  wo_clients :: "nat \<rightharpoonup> (aws_error, unit) result hand_prog"

text \<open>
  \<open>wo_calls\<close> are the requests that the provider may still act on. \<open>wo_created\<close> is its memory of client tokens: the machine, and
  the attempt whose request created it.
\<close>

definition world_start :: "memory_target_registry \<Rightarrow> world" where
  "world_start g = \<lparr>wo_registry = g, wo_now = 0, wo_machines = Map.empty, wo_ids = {}, wo_created = Map.empty, wo_calls = {},
     wo_drawn = {}, wo_clients = Map.empty\<rparr>"

abbreviation goes :: "world \<Rightarrow> nat \<Rightarrow> (aws_error, unit) result hand_prog \<Rightarrow> world" where
  "goes w j p \<equiv> w\<lparr>wo_clients := (wo_clients w)(j \<mapsto> p)\<rparr>"

definition listed_rows :: "memory_target_registry \<Rightarrow> string \<Rightarrow> nat \<Rightarrow> (materialization_error, durable_target_record list) result" where
  "listed_rows g root limit =
     and_then (list_root g root None limit) (\<lambda>p. Ok (case p of None \<Rightarrow> [] | Some p \<Rightarrow> page_items p))"

text \<open>A call of the registry that fails, with or without its effect.\<close>

fun call_failed :: "materialization_error \<Rightarrow> 'a hand_prog \<Rightarrow> 'a hand_prog option" where
  "call_failed e (RegGet key c) = Some (c (Err e))"
| "call_failed e (RegList root limit c) = Some (c (Err e))"
| "call_failed e (RegAcquire q c) = Some (c (Err e))"
| "call_failed e (RegInstall l p n c) = Some (c (Err e))"
| "call_failed e (RegExpire l n c) = Some (c (Err e))"
| "call_failed e (RegClose t d reason n c) = Some (c (Err e))"
| "call_failed e (RegPurge key gen c) = Some (c (Err e))"
| "call_failed e _ = None"

definition refused :: "(control_failure, string) result \<Rightarrow> bool" where
  "refused answer \<longleftrightarrow> (\<exists>e. answer = Err e \<and> no_target (launch_failure e))"

text \<open>What the provider's answers are worth: a named machine was created for the token; a refused request created none.\<close>

definition run_answer :: "world \<Rightarrow> materialization_lease \<Rightarrow> exact_run_request \<Rightarrow> (control_failure, string) result \<Rightarrow> bool" where
  "run_answer w l request answer \<longleftrightarrow>
     (\<forall>i. answer = Ok i \<longrightarrow> (\<exists>a. wo_created w (er_client_token request) = Some (i, a)))
     \<and> (refused answer \<longrightarrow> (\<forall>m. wo_created w (er_client_token request) \<noteq> Some (m, ml_attempt_id l)))"

inductive port_step :: "hand_env \<Rightarrow> string \<Rightarrow> target_spec set \<Rightarrow> world \<Rightarrow> world \<Rightarrow> bool" for E zone S where
  time: "wo_now w \<le> n \<Longrightarrow>
    port_step E zone S w
      (w\<lparr>wo_now := n, wo_machines := (\<lambda>i. case wo_machines w i of None \<Rightarrow> None
         | Some m \<Rightarrow> if n < mc_born m + TARGET_LIFETIME_MS then Some m else None)\<rparr>)"
| ended: "port_step E zone S w (w\<lparr>wo_machines := (wo_machines w)(i := None)\<rparr>)"
| created: "(l, t, request) \<in> wo_calls w \<Longrightarrow> wo_created w (er_client_token request) = None \<Longrightarrow> i \<notin> wo_ids w \<Longrightarrow>
    port_step E zone S w
      (w\<lparr>wo_machines := (wo_machines w)(i \<mapsto> \<lparr>mc_token = er_client_token request, mc_born = wo_now w, mc_admitted = t\<rparr>),
         wo_ids := insert i (wo_ids w),
         wo_created := (wo_created w)(er_client_token request \<mapsto> (i, ml_attempt_id l))\<rparr>)"
| arrives: "li_region I = zone \<Longrightarrow> port_step E zone S w (goes w j (serve_port E I q))"
| stops: "port_step E zone S w (w\<lparr>wo_clients := (wo_clients w)(j := None)\<rparr>)"
| clock: "wo_clients w j = Some (Clock c) \<Longrightarrow> n \<le> wo_now w \<Longrightarrow> port_step E zone S w (goes w j (c n))"
| draw: "wo_clients w j = Some (Draw c) \<Longrightarrow> h \<notin> wo_drawn w \<Longrightarrow>
    port_step E zone S w ((goes w j (c h))\<lparr>wo_drawn := insert h (wo_drawn w)\<rparr>)"
| ask: "wo_clients w j = Some (Ask a c) \<Longrightarrow> port_step E zone S w (goes w j (c x))"
| failed: "wo_clients w j = Some p \<Longrightarrow> call_failed e p = Some p' \<Longrightarrow> port_step E zone S w (goes w j p')"
| reg_get: "wo_clients w j = Some (RegGet key c) \<Longrightarrow>
    port_step E zone S w (goes w j (c (get_record (wo_registry w) key)))"
| reg_list: "wo_clients w j = Some (RegList root limit c) \<Longrightarrow>
    port_step E zone S w (goes w j (c (listed_rows (wo_registry w) root limit)))"
| reg_acquire: "wo_clients w j = Some (RegAcquire q c) \<Longrightarrow> aq_spec q \<in> S \<Longrightarrow>
    acquire (en_digest E) (wo_registry w) q = (res, g) \<Longrightarrow> r = res \<or> r = Err e \<Longrightarrow>
    port_step E zone S w ((goes w j (c r))\<lparr>wo_registry := g\<rparr>)"
| reg_install: "wo_clients w j = Some (RegInstall l p n c) \<Longrightarrow>
    install (wo_registry w) l p n = (res, g) \<Longrightarrow> r = res \<or> r = Err e \<Longrightarrow>
    port_step E zone S w ((goes w j (c r))\<lparr>wo_registry := g\<rparr>)"
| reg_expire: "wo_clients w j = Some (RegExpire l n c) \<Longrightarrow> expire_lease (wo_registry w) l n = (res, g) \<Longrightarrow> r = res \<or> r = Err e \<Longrightarrow>
    port_step E zone S w ((goes w j (c r))\<lparr>wo_registry := g\<rparr>)"
| reg_close: "wo_clients w j = Some (RegClose t d reason n c) \<Longrightarrow> mark_closed (wo_registry w) t d reason n = (res, g) \<Longrightarrow>
    r = res \<or> r = Err e \<Longrightarrow>
    port_step E zone S w ((goes w j (c r))\<lparr>wo_registry := g\<rparr>)"
| reg_purge: "wo_clients w j = Some (RegPurge key gen c) \<Longrightarrow>
    port_step E zone S w ((goes w j (c r))\<lparr>wo_registry := purge_row (wo_registry w) key gen\<rparr>)"
| vm_get: "wo_clients w j = Some (VmGet i c) \<Longrightarrow> (says_absent r \<Longrightarrow> wo_machines w i = None) \<Longrightarrow>
    port_step E zone S w (goes w j (c r))"
| vm_terminate: "wo_clients w j = Some (VmTerminate i c) \<Longrightarrow> (says_gone r \<Longrightarrow> wo_machines w i = None) \<Longrightarrow>
    port_step E zone S w (goes w j (c r))"
| vm_send: "wo_clients w j = Some (VmRun l t request c) \<Longrightarrow>
    port_step E zone S w (w\<lparr>wo_calls := insert (l, t, request) (wo_calls w)\<rparr>)"
| vm_answer: "wo_clients w j = Some (VmRun l t request c) \<Longrightarrow> run_answer w l request r \<Longrightarrow>
    port_step E zone S w
      ((goes w j (c r))\<lparr>wo_calls := (if refused r then {x \<in> wo_calls w. fst x \<noteq> l} else wo_calls w)\<rparr>)"

text \<open>
  A termination request has no step of its own: the machine ends by itself, sooner or later. A request may be sent more than once while
  its call is outstanding, as \<open>paced\<close> does after a throttled attempt.
\<close>

end
