(* ===== verification/Port_Refinement.thy ===== *)
theory Port_Refinement
  imports Port_World
begin

section \<open>Every run of the handlers is a run of the fleet\<close>

text \<open>
  What a handler knows is true of the fleet, and stays true while the others work: identifiers are drawn
  once and a lease belongs to the handler that acquired it.
\<close>

subsection \<open>Knowledge that holds\<close>

definition fresh_hex :: "fleet \<Rightarrow> string \<Rightarrow> bool" where
  "fresh_hex s h \<longleftrightarrow> ft_reservations s (random_identifier ''reservation'' h) = None
     \<and> random_identifier ''attempt'' h \<notin> pl_attempts (ft_plane s) \<and> random_identifier ''purge-attempt'' h \<notin> pl_attempts (ft_plane s)"

definition airborne :: "fleet \<Rightarrow> materialization_lease \<Rightarrow> bool" where
  "airborne s l \<longleftrightarrow> (\<exists>q. (q, l) \<in> pl_inflight (ft_plane s))"

definition unused :: "fleet \<Rightarrow> materialization_lease \<Rightarrow> bool" where
  "unused s l \<longleftrightarrow> (\<forall>t. (l, t) \<notin> ft_sent s) \<and> (\<forall>m. ft_created s (ml_reservation_id l) \<noteq> Some (m, ml_attempt_id l))"

abbreviation target_made :: "fleet \<Rightarrow> installed_target \<Rightarrow> bool" where
  "target_made s t \<equiv> made s (it_target_ref t) (it_key t) (it_spec t)"

definition knows :: "fleet \<Rightarrow> know \<Rightarrow> bool" where
  "knows s k \<longleftrightarrow>
     kn_now k \<le> ft_now s \<and> kn_ready k \<inter> kn_sent k = {} \<and> kn_listed k \<subseteq> ft_listed s
     \<and> (\<forall>h\<in>kn_drawn k. fresh_hex s h) \<and> (\<forall>t\<in>kn_targets k. target_made s t) \<and> (\<forall>t\<in>kn_gone k. confirmed_good s t)
     \<and> (\<forall>l\<in>kn_ready k. airborne s l \<and> l \<in> ft_open s \<and> unused s l)
     \<and> (\<forall>l\<in>kn_sent k. airborne s l \<and> l \<in> ft_open s)
     \<and> (\<forall>l\<in>kn_closed k. airborne s l \<and> l \<notin> ft_open s)
     \<and> (\<forall>x\<in>kn_answered k. airborne s (fst x) \<and> (\<exists>a. ft_created s (ml_reservation_id (fst x)) = Some (snd x, a)))"

lemma knowsD:
  assumes "knows s k"
  shows "kn_now k \<le> ft_now s" "kn_ready k \<inter> kn_sent k = {}" "kn_listed k \<subseteq> ft_listed s"
    "h \<in> kn_drawn k \<Longrightarrow> fresh_hex s h" "t \<in> kn_targets k \<Longrightarrow> target_made s t" "t \<in> kn_gone k \<Longrightarrow> confirmed_good s t"
    "l \<in> kn_ready k \<Longrightarrow> airborne s l \<and> l \<in> ft_open s \<and> unused s l" "l \<in> kn_sent k \<Longrightarrow> airborne s l \<and> l \<in> ft_open s"
    "l \<in> kn_closed k \<Longrightarrow> airborne s l \<and> l \<notin> ft_open s"
    "(l, i) \<in> kn_answered k \<Longrightarrow> airborne s l \<and> (\<exists>a. ft_created s (ml_reservation_id l) = Some (i, a))"
  using assms unfolding knows_def by auto

definition owned :: "know \<Rightarrow> materialization_lease set" where
  "owned k = kn_ready k \<union> kn_sent k \<union> kn_closed k"

lemma owned_airborne: "knows s k \<Longrightarrow> l \<in> owned k \<Longrightarrow> airborne s l"
  using knowsD(7,8,9) unfolding owned_def by blast

subsection \<open>Steps keep it\<close>

text \<open>What no step takes back.\<close>

definition later :: "fleet \<Rightarrow> fleet \<Rightarrow> bool" where
  "later s s' \<longleftrightarrow> ft_now s \<le> ft_now s' \<and> ft_created s \<subseteq>\<^sub>m ft_created s' \<and> ft_reservations s \<subseteq>\<^sub>m ft_reservations s'
     \<and> ft_listed s \<subseteq> ft_listed s' \<and> pl_inflight (ft_plane s) \<subseteq> pl_inflight (ft_plane s') \<and> ft_ids s \<subseteq> ft_ids s'
     \<and> (\<forall>i\<in>ft_ids s. ft_machines s i = None \<longrightarrow> ft_machines s' i = None)"

lemma later_refl: "later s s"
  by (simp add: later_def)

lemma later_trans: "later s s' \<Longrightarrow> later s' s'' \<Longrightarrow> later s s''"
  unfolding later_def by (meson map_le_trans order_trans subsetD subset_trans)

lemma map_le_upd_new: "m k = None \<Longrightarrow> m \<subseteq>\<^sub>m m(k \<mapsto> v)"
  by (auto simp: map_le_def)

lemma step_later: "fleet_step V K zone dg S s s' \<Longrightarrow> later s s'"
  by (induction rule: fleet_step.induct) (auto simp: later_def map_le_upd_new map_le_refl)

lemma run_later: "(fleet_step V K zone dg S)\<^sup>*\<^sup>* s s' \<Longrightarrow> later s s'"
  by (induction rule: rtranclp_induct) (auto intro: later_refl later_trans step_later)

lemma made_later: "later s s' \<Longrightarrow> made s i k spec \<Longrightarrow> made s' i k spec"
  unfolding made_def named_def later_def by (metis domI map_le_def)

lemma confirmed_later:
  assumes "fleet_ok dg S s" and "later s s'" and "confirmed_good s t"
  shows "confirmed_good s' t"
proof -
  have "it_target_ref t \<in> ft_ids s"
    using assms(3) fleet_okD(2) [OF assms(1)] by (auto simp: confirmed_good_def made_def tokens_good_def)
  then show ?thesis using assms(2,3) made_later [OF assms(2)] by (simp add: confirmed_good_def later_def)
qed

definition undisturbed :: "fleet \<Rightarrow> fleet \<Rightarrow> know \<Rightarrow> bool" where
  "undisturbed s s' k \<longleftrightarrow> (\<forall>l\<in>owned k. l \<in> ft_open s' \<longleftrightarrow> l \<in> ft_open s) \<and> (\<forall>l\<in>kn_ready k. unused s l \<longrightarrow> unused s' l)
     \<and> (\<forall>h\<in>kn_drawn k. fresh_hex s h \<longrightarrow> fresh_hex s' h)"

lemma knows_later:
  assumes "fleet_ok dg S s" and "later s s'" and "undisturbed s s' k" and "knows s k"
  shows "knows s' k"
proof -
  note D = knowsD [OF assms(4)] and U = assms(3) [unfolded undisturbed_def owned_def] and L = assms(2) [unfolded later_def]
  have air: "airborne s l \<Longrightarrow> airborne s' l" for l using L unfolding airborne_def by blast
  have created: "ft_created s rid = Some x \<Longrightarrow> ft_created s' rid = Some x" for rid x
    using L unfolding map_le_def by (metis domI)
  show ?thesis
    unfolding knows_def
  proof (intro conjI ballI, goal_cases)
    case 1 then show ?case using D(1) L by simp
  next
    case 2 then show ?case by (rule D(2))
  next
    case 3 then show ?case using D(3) L by blast
  next
    case (4 h) then show ?case using D(4) U by blast
  next
    case (5 t) then show ?case using D(5) made_later [OF assms(2)] by blast
  next
    case (6 t) then show ?case using D(6) confirmed_later [OF assms(1,2)] by blast
  next
    case (7 l) then show ?case using D(7) air by blast
  next
    case (8 l) then show ?case using D(7) [OF 8] U 8 by blast
  next
    case (9 l) then show ?case using D(7) U by blast
  next
    case (10 l) then show ?case using D(8) air by blast
  next
    case (11 l) then show ?case using D(8) [OF 11] U 11 by blast
  next
    case (12 l) then show ?case using D(9) air by blast
  next
    case (13 l) then show ?case using D(9) [OF 13] U 13 by blast
  next
    case (14 x) then show ?case using D(10) [of "fst x" "snd x"] air by simp
  next
    case (15 x) then show ?case using D(10) [of "fst x" "snd x"] created by auto
  qed
qed

lemma undisturbed_same:
  assumes "ft_open s' = ft_open s" "ft_sent s' = ft_sent s" "ft_created s' = ft_created s"
    "ft_reservations s' = ft_reservations s" "pl_attempts (ft_plane s') = pl_attempts (ft_plane s)"
  shows "undisturbed s s' k"
  using assms by (simp add: undisturbed_def unused_def fresh_hex_def)

text \<open>A lease is recognized by its attempt.\<close>

lemma airborne_attempt:
  assumes "fleet_ok dg S s" and "airborne s l"
  shows "ml_attempt_id l \<in> pl_attempts (ft_plane s)" and "l' \<in> ft_open s \<Longrightarrow> ml_attempt_id l' = ml_attempt_id l \<Longrightarrow> l' = l"
proof -
  obtain q where q: "(q, l) \<in> pl_inflight (ft_plane s)" using assms(2) by (auto simp: airborne_def)
  show "ml_attempt_id l \<in> pl_attempts (ft_plane s)" using fleet_okD(9) [OF assms(1) q] by (simp add: flight_good_def)
  show "l' \<in> ft_open s \<Longrightarrow> ml_attempt_id l' = ml_attempt_id l \<Longrightarrow> l' = l"
    using conjunct2 [OF fleet_okD(3) [OF assms(1), unfolded distinct_attempts_def], rule_format, OF q, of l'] by simp
qed

lemma undisturbed_create:
  assumes ok: "fleet_ok dg S s" and k: "knows s k" and sent: "(l, t) \<in> ft_sent s"
  shows "undisturbed s (s\<lparr>ft_machines := ms, ft_ids := is, ft_created := (ft_created s)(ml_reservation_id l \<mapsto> (i, ml_attempt_id l))\<rparr>) k"
proof -
  have "ml_attempt_id l \<noteq> ml_attempt_id l'" if "l' \<in> kn_ready k" for l'
  proof
    assume "ml_attempt_id l = ml_attempt_id l'"
    then have "l = l'" using airborne_attempt(2) [OF ok] knowsD(7) [OF k that] sent_open [OF ok sent] by metis
    then show False using knowsD(7) [OF k that] sent by (simp add: unused_def)
  qed
  then show ?thesis by (auto simp: undisturbed_def unused_def fresh_hex_def)
qed

lemma undisturbed_dispatch:
  "l \<notin> kn_ready k \<Longrightarrow> undisturbed s (s\<lparr>ft_sent := insert (l, t) (ft_sent s)\<rparr>) k"
  by (auto simp: undisturbed_def unused_def fresh_hex_def)

lemma undisturbed_refuse:
  "l \<notin> owned k \<Longrightarrow> undisturbed s (s\<lparr>ft_open := ft_open s - {l}, ft_sent := {(l', t) \<in> ft_sent s. l' \<noteq> l}\<rparr>) k"
  by (auto simp: undisturbed_def unused_def fresh_hex_def)

text \<open>An acquisition uses identifiers that nobody else has.\<close>

lemma identifiers_differ [simp]:
  "random_identifier ''reservation'' h = random_identifier ''reservation'' h' \<longleftrightarrow> h = h'"
  "random_identifier ''attempt'' h = random_identifier ''attempt'' h' \<longleftrightarrow> h = h'"
  "random_identifier ''purge-attempt'' h = random_identifier ''purge-attempt'' h' \<longleftrightarrow> h = h'"
  "random_identifier ''attempt'' h \<noteq> random_identifier ''purge-attempt'' h'"
  "random_identifier ''purge-attempt'' h \<noteq> random_identifier ''attempt'' h'"
  by (simp_all add: random_identifier_def)

abbreviation took ::
    "fleet \<Rightarrow> memory_target_registry \<Rightarrow> acquire_target \<Rightarrow> materialization_lease \<Rightarrow> materialization_lease set
      \<Rightarrow> (string \<rightharpoonup> target_key \<times> target_spec) \<Rightarrow> fleet" where
  "took s g q l os rs \<equiv>
     s\<lparr>ft_plane := (ft_plane s)\<lparr>pl_registry := g, pl_inflight := insert (q, l) (pl_inflight (ft_plane s)),
         pl_attempts := insert (aq_attempt_id q) (pl_attempts (ft_plane s))\<rparr>, ft_open := os, ft_reservations := rs\<rparr>"

lemma fresh_reserved:
  assumes "aq_reservation_id q = random_identifier ''reservation'' hex" and "aq_attempt_id q = random_identifier ''attempt'' hex'"
    and "h \<notin> {hex, hex'}" and "fresh_hex s h"
  shows "fresh_hex (took s g q l os ((ft_reservations s)(aq_reservation_id q \<mapsto> x))) h"
  using assms by (auto simp: fresh_hex_def)

lemma fresh_recovered: "h \<noteq> hex \<Longrightarrow> fresh_hex s h \<Longrightarrow> fresh_hex (took s g (recovery_request l0 hex n) l os (ft_reservations s)) h"
  by (auto simp: fresh_hex_def recovery_request_def)

lemma undisturbed_take:
  assumes ok: "fleet_ok dg S s" and k: "knows s k" and l: "ml_attempt_id l \<notin> pl_attempts (ft_plane s)"
    and os: "os = ft_open s \<or> os = insert l (ft_open s)"
    and hs: "\<And>h. h \<in> kn_drawn k \<Longrightarrow> fresh_hex s h \<Longrightarrow> fresh_hex (took s g q l os rs) h"
  shows "undisturbed s (took s g q l os rs) k"
proof -
  have "l' \<noteq> l" if "l' \<in> owned k" for l'
    using airborne_attempt(1) [OF ok owned_airborne [OF k that]] l by auto
  then show ?thesis using os hs by (auto simp: undisturbed_def unused_def)
qed

lemma taken_new:
  assumes ok: "fleet_ok dg S s" and l: "ml_attempt_id l \<notin> pl_attempts (ft_plane s)"
  shows "l \<notin> ft_open s" and "unused s l" and "\<not> airborne s l"
proof -
  show n: "l \<notin> ft_open s" using fleet_okD(6) [OF ok, of l] l by (auto simp: open_good_def)
  show "unused s l" using n sent_open [OF ok] fleet_okD(2) [OF ok] l by (auto simp: unused_def tokens_good_def)
  show "\<not> airborne s l" using airborne_attempt(1) [OF ok] l by blast
qed

subsection \<open>The simulation\<close>

definition shows_fleet :: "fleet \<Rightarrow> world \<Rightarrow> bool" where
  "shows_fleet s w \<longleftrightarrow> ft_registry s = wo_registry w \<and> ft_now s = wo_now w \<and> ft_machines s = wo_machines w \<and> ft_ids s = wo_ids w
     \<and> ft_created s = wo_created w"

definition calls_sent :: "fleet \<Rightarrow> world \<Rightarrow> bool" where
  "calls_sent s w \<longleftrightarrow> (\<forall>(l, t, request)\<in>wo_calls w. (l, t) \<in> ft_sent s \<and> er_client_token request = ml_reservation_id l)"

definition apart :: "know \<Rightarrow> know \<Rightarrow> bool" where
  "apart k k' \<longleftrightarrow> owned k \<inter> owned k' = {} \<and> kn_drawn k \<inter> kn_drawn k' = {}"

definition sim :: "hand_env \<Rightarrow> string \<Rightarrow> fleet \<Rightarrow> (nat \<Rightarrow> know) \<Rightarrow> world \<Rightarrow> bool" where
  "sim E zone s Ks w \<longleftrightarrow>
     shows_fleet s w \<and> calls_sent s w \<and> (\<forall>h. h \<notin> wo_drawn w \<longrightarrow> fresh_hex s h)
     \<and> (\<forall>j. knows s (Ks j) \<and> kn_drawn (Ks j) \<subseteq> wo_drawn w) \<and> (\<forall>i j. i \<noteq> j \<longrightarrow> apart (Ks i) (Ks j))
     \<and> (\<forall>j p. wo_clients w j = Some p \<longrightarrow> safe E zone p (Ks j))"

lemma simD:
  assumes "sim E zone s Ks w"
  shows "shows_fleet s w" "calls_sent s w" "h \<notin> wo_drawn w \<Longrightarrow> fresh_hex s h" "knows s (Ks j)" "kn_drawn (Ks j) \<subseteq> wo_drawn w"
    "i \<noteq> j \<Longrightarrow> apart (Ks i) (Ks j)" "wo_clients w j = Some p \<Longrightarrow> safe E zone p (Ks j)"
  using assms unfolding sim_def by auto

text \<open>A step that changes the knowledge of at most one handler.\<close>

lemma sim_move:
  assumes sim: "sim E zone s Ks w" and ok: "fleet_ok dg S s" and later: "later s s'"
    and others: "\<And>i. i \<noteq> j \<Longrightarrow> undisturbed s s' (Ks i) \<and> apart k (Ks i)" and k: "knows s' k"
    and w': "shows_fleet s' w'" "calls_sent s' w'" "\<And>h. h \<notin> wo_drawn w' \<Longrightarrow> fresh_hex s' h"
      "kn_drawn k \<subseteq> wo_drawn w'" "wo_drawn w \<subseteq> wo_drawn w'"
    and clients: "\<And>i. i \<noteq> j \<Longrightarrow> wo_clients w' i = wo_clients w i" "\<And>p. wo_clients w' j = Some p \<Longrightarrow> safe E zone p k"
  shows "sim E zone s' (Ks(j := k)) w'"
  unfolding sim_def
proof (intro conjI allI impI)
  fix i
  show "knows s' ((Ks(j := k)) i)" using k knows_later [OF ok later] others simD(4) [OF sim] by auto
  show "kn_drawn ((Ks(j := k)) i) \<subseteq> wo_drawn w'" using w'(4,5) simD(5) [OF sim, of i] by auto
  fix i' assume "i \<noteq> i'"
  then show "apart ((Ks(j := k)) i) ((Ks(j := k)) i')"
    using others [of i] others [of i'] simD(6) [OF sim, of i i'] by (auto simp: apart_def)
next
  fix i p assume "wo_clients w' i = Some p"
  then show "safe E zone p ((Ks(j := k)) i)" using clients simD(7) [OF sim, of i p] by (cases "i = j") auto
qed (use w' in auto)

text \<open>A handler that goes on with no more leases and identifiers than it had.\<close>

lemma sim_goes:
  assumes sim: "sim E zone s Ks w" and ok: "fleet_ok dg S s" and later: "later s s'"
    and same: "\<And>i. i \<noteq> j \<Longrightarrow> undisturbed s s' (Ks i)" and k: "knows s' k" "owned k \<subseteq> owned (Ks j)" "kn_drawn k \<subseteq> kn_drawn (Ks j)"
    and w': "shows_fleet s' w'" "calls_sent s' w'" "\<And>h. h \<notin> wo_drawn w \<Longrightarrow> fresh_hex s' h" "wo_drawn w' = wo_drawn w"
    and clients: "wo_clients w' = (wo_clients w)(j \<mapsto> p)" "safe E zone p k"
  shows "sim E zone s' (Ks(j := k)) w'"
proof (rule sim_move [OF sim ok later])
  show "undisturbed s s' (Ks i) \<and> apart k (Ks i)" if "i \<noteq> j" for i
    using same [OF that] simD(6) [OF sim, of j i] that k(2,3) unfolding apart_def by blast
  show "kn_drawn k \<subseteq> wo_drawn w'" using k(3) w'(4) simD(5) [OF sim, of j] by simp
qed (use k w' clients in auto)

text \<open>A step of the provider, an arrival or a stop.\<close>

lemma sim_stays:
  assumes sim: "sim E zone s Ks w" and ok: "fleet_ok dg S s" and later: "later s s'"
    and same: "\<And>i. undisturbed s s' (Ks i)"
    and w': "shows_fleet s' w'" "calls_sent s' w'" "\<And>h. h \<notin> wo_drawn w \<Longrightarrow> fresh_hex s' h" "wo_drawn w' = wo_drawn w"
    and clients: "\<And>i p. wo_clients w' i = Some p \<Longrightarrow> safe E zone p (Ks i)"
  shows "sim E zone s' Ks w'"
  unfolding sim_def using w' clients knows_later [OF ok later same] simD(4-6) [OF sim] by auto

subsection \<open>Calls of the registry\<close>

lemma row_made:
  assumes ok: "fleet_ok dg S s" and r: "ft_rows s key = Some r" and t: "Materialization.installed r = Some t"
  shows "target_made s t"
proof -
  have "dr_key r = key" using registry_inv_record [OF mem_okD(1) [OF fleet_okD(1) [OF ok]] r] by simp
  then show ?thesis
    using fleet_okD(5) [OF ok r] t by (auto simp: row_good_def Materialization.installed_def split: durable_target_state.splits)
qed

lemma lists_run:
  assumes "finite L" and "\<And>l. l \<in> L \<Longrightarrow> \<exists>key r. ft_rows s key = Some r \<and> recovery_lease r = Ok l"
  shows "(fleet_step V K zone dg S)\<^sup>*\<^sup>* s (s\<lparr>ft_listed := ft_listed s \<union> L\<rparr>)"
  using assms
proof (induction L)
  case (insert l L)
  obtain key r where r: "ft_rows s key = Some r" "recovery_lease r = Ok l" using insert.prems by blast
  have "fleet_step V K zone dg S (s\<lparr>ft_listed := ft_listed s \<union> L\<rparr>) (s\<lparr>ft_listed := insert l (ft_listed s \<union> L)\<rparr>)"
    using fleet_step.lists [of "s\<lparr>ft_listed := ft_listed s \<union> L\<rparr>" key r l] r by simp
  then show ?case using insert by (auto intro: rtranclp.rtrancl_into_rtrancl)
qed simp

abbreviation refines ::
    "hand_env \<Rightarrow> string \<Rightarrow> target_spec set \<Rightarrow> fleet \<Rightarrow> world \<Rightarrow> bool" where
  "refines E zone S s w \<equiv>
     \<exists>s' Ks. (fleet_step (en_aws E) (en_codec E) zone (en_digest E) S)\<^sup>*\<^sup>* s s' \<and> sim E zone s' Ks w"

lemma knows_rows:
  assumes ok: "fleet_ok dg S s" and k: "knows s k" and R: "\<And>r. r \<in> R \<Longrightarrow> \<exists>key. ft_rows s key = Some r"
  shows "knows (s\<lparr>ft_listed := ft_listed s \<union> {l. \<exists>r\<in>R. recovery_lease r = Ok l}\<rparr>) (learn_rows k R)"
proof -
  let ?s = "s\<lparr>ft_listed := ft_listed s \<union> {l. \<exists>r\<in>R. recovery_lease r = Ok l}\<rparr>"
  have k': "knows ?s k"
    by (rule knows_later [OF ok _ undisturbed_same k]) (auto simp: later_def)
  have "made ?s i key spec = made s i key spec" for i key spec by (simp add: made_def named_def)
  then have "target_made ?s t" if "r \<in> R" "Materialization.installed r = Some t" for r t
    using row_made [OF ok _ that(2)] R [OF that(1)] by auto
  then show ?thesis using k' knowsD(3) [OF k] by (auto simp: knows_def learn_rows_def)
qed

lemma sim_rows:
  assumes sim: "sim E zone s Ks w" and ok: "fleet_ok (en_digest E) S s" and R: "finite R" "\<And>r. r \<in> R \<Longrightarrow> \<exists>key. wo_registry w = g \<and> mr_records g key = Some r"
    and p: "safe E zone p (learn_rows (Ks j) R)"
  shows "refines E zone S s (goes w j p)"
proof -
  let ?L = "{l. \<exists>r\<in>R. recovery_lease r = Ok l}"
  let ?s = "s\<lparr>ft_listed := ft_listed s \<union> ?L\<rparr>"
  have rows: "\<exists>key. ft_rows s key = Some r" if "r \<in> R" for r using R(2) [OF that] simD(1) [OF sim] by (auto simp: shows_fleet_def)
  have "?L \<subseteq> (\<lambda>r. projr (recovery_lease r)) ` R" by force
  then have "finite ?L" using R(1) finite_surj by blast
  then have run: "(fleet_step (en_aws E) (en_codec E) zone (en_digest E) S)\<^sup>*\<^sup>* s ?s" by (rule lists_run) (use rows in blast)
  have "sim E zone ?s (Ks(j := learn_rows (Ks j) R)) (goes w j p)"
  proof (rule sim_goes [OF sim ok])
    show "knows ?s (learn_rows (Ks j) R)" by (rule knows_rows [OF ok simD(4) [OF sim] rows])
  qed (use simD(1-3) [OF sim] p in \<open>auto simp: later_def shows_fleet_def calls_sent_def owned_def learn_rows_def fresh_hex_def
      intro: undisturbed_same\<close>)
  then show ?thesis using run by blast
qed

text \<open>The registry as it is, and knowledge that only shrinks.\<close>

lemma sim_same:
  assumes sim: "sim E zone s Ks w" and ok: "fleet_ok (en_digest E) S s"
    and k: "knows s k" "owned k \<subseteq> owned (Ks j)" "kn_drawn k \<subseteq> kn_drawn (Ks j)" and p: "safe E zone p k"
  shows "refines E zone S s (goes w j p)"
proof -
  have "sim E zone s (Ks(j := k)) (goes w j p)"
    by (rule sim_goes [OF sim ok later_refl _ k])
      (use simD(1-3) [OF sim] p in \<open>auto simp: shows_fleet_def calls_sent_def intro: undisturbed_same\<close>)
  then show ?thesis by blast
qed

lemma sim_get:
  assumes sim: "sim E zone s Ks w" and ok: "fleet_ok (en_digest E) S s" and p: "\<And>r. safe E zone (c r) (learn_get (Ks j) r)"
  shows "refines E zone S s (goes w j (c (get_record (wo_registry w) key)))"
proof (cases "\<exists>r. get_record (wo_registry w) key = Ok (Some r)")
  case True
  then obtain r where r: "get_record (wo_registry w) key = Ok (Some r)" by blast
  then have "mr_records (wo_registry w) key = Some r" by (auto simp: get_record_def and_then_def split: sum.splits)
  then show ?thesis
    using sim_rows [OF sim ok, of "{r}" "wo_registry w" "c (Ok (Some r))" j] p [of "Ok (Some r)"] r by (auto simp: learn_get_def)
next
  case False
  then have "learn_get (Ks j) (get_record (wo_registry w) key) = Ks j" by (auto simp: learn_get_def split: sum.split option.split)
  then show ?thesis using sim_same [OF sim ok simD(4) [OF sim], of j j] p [of "get_record (wo_registry w) key"] by simp
qed

lemma listed_rows_rows:
  assumes "registry_inv timely dg S g" and "listed_rows g root limit = Ok rs" and "r \<in> set rs"
  shows "\<exists>key. mr_records g key = Some r"
proof -
  have "set rs \<subseteq> set (root_records g root)"
    using assms(2) set_take_subset
    by (fastforce simp: listed_rows_def list_root_def and_then_def fetch_page_def page_def after_cursor_def
        split: sum.splits option.splits if_splits dest: in_set_takeD)
  then show ?thesis using assms(3) root_records_set [OF assms(1)] by auto
qed

lemma sim_list:
  assumes sim: "sim E zone s Ks w" and ok: "fleet_ok (en_digest E) S s" and p: "\<And>r. safe E zone (c r) (learn_list (Ks j) r)"
  shows "refines E zone S s (goes w j (c (listed_rows (wo_registry w) root limit)))"
proof (cases "listed_rows (wo_registry w) root limit")
  case (Inr rs)
  have "ft_registry s = wo_registry w" using simD(1) [OF sim] by (simp add: shows_fleet_def)
  then have "\<exists>key. mr_records (wo_registry w) key = Some r" if "r \<in> set rs" for r
    using listed_rows_rows [OF _ Inr that] mem_okD(1) [OF fleet_okD(1) [OF ok]] by metis
  then show ?thesis
    using sim_rows [OF sim ok, of "set rs" "wo_registry w" "c (Ok rs)" j] p [of "Ok rs"] Inr by (simp add: learn_list_def)
next
  case (Inl e)
  then show ?thesis using sim_same [OF sim ok simD(4) [OF sim], of j j] p [of "Err e"] by (simp add: learn_list_def)
qed

text \<open>An acquisition that takes a lease.\<close>

lemma take_step:
  assumes may: "may_acquire k recovering q hs" and k: "knows s k" and acq: "acquire dg (ft_registry s) q = (Ok (AAcquired l), g)"
    and spec: "aq_spec q \<in> S"
  defines "os \<equiv> if recovering \<and> \<not> ml_recovery_attempt l then ft_open s else insert l (ft_open s)"
  obtains rs where "fleet_step V K zone dg S s (took s g q l os rs)" and "aq_attempt_id q \<notin> pl_attempts (ft_plane s)"
    and "\<And>h. h \<notin> hs \<Longrightarrow> fresh_hex s h \<Longrightarrow> fresh_hex (took s g q l os rs) h"
proof -
  note D = knowsD [OF k]
  have now: "aq_now_ms q \<le> ft_now s" and drawn: "\<And>h. h \<in> hs \<Longrightarrow> fresh_hex s h" and times: "deployment_times q"
    using may D(1,4) by (auto simp: may_acquire_def)
  show thesis
  proof (cases recovering)
    case True
    then obtain l0 hex n where l0: "l0 \<in> kn_listed k" and q: "q = recovery_request l0 hex n" "hs = {hex}"
      using may by (auto simp: may_acquire_def)
    have a: "aq_attempt_id q \<notin> pl_attempts (ft_plane s)"
      using drawn [of hex] q by (simp add: fresh_hex_def recovery_request_def)
    have "fleet_step V K zone dg S s (took s g q l os (ft_reservations s))"
      using fleet_step.recovers [OF _ q(1) _ a acq, of V K zone S] l0 D(3) now q(1) True by (auto simp: os_def)
    from that [OF this a] show thesis using q fresh_recovered by blast
  next
    case False
    then obtain hex hex' where q: "aq_reservation_id q = random_identifier ''reservation'' hex"
        "aq_attempt_id q = random_identifier ''attempt'' hex'" "hs = {hex, hex'}"
      using may by (auto simp: may_acquire_def)
    have a: "aq_attempt_id q \<notin> pl_attempts (ft_plane s)" and r: "ft_reservations s (aq_reservation_id q) = None"
      using drawn [of hex] drawn [of hex'] q by (simp_all add: fresh_hex_def)
    have "fleet_step V K zone dg S s (took s g q l os ((ft_reservations s)(aq_reservation_id q \<mapsto> (aq_key q, aq_spec q))))"
      using fleet_step.reserves [OF acq spec a times now r] False by (simp add: os_def)
    from that [OF this a] show thesis using q fresh_reserved by blast
  qed
qed

lemma knows_ready:
  "knows s k \<Longrightarrow> airborne s l \<Longrightarrow> l \<in> ft_open s \<Longrightarrow> unused s l \<Longrightarrow> l \<notin> kn_sent k \<Longrightarrow> knows s (k\<lparr>kn_ready := insert l (kn_ready k)\<rparr>)"
  by (simp add: knows_def)

lemma knows_closed:
  "knows s k \<Longrightarrow> airborne s l \<Longrightarrow> l \<notin> ft_open s \<Longrightarrow> knows s (k\<lparr>kn_closed := insert l (kn_closed k)\<rparr>)"
  by (simp add: knows_def)

lemma sim_take:
  assumes sim: "sim E zone s Ks w" and ok: "fleet_ok (en_digest E) S s" and may: "may_acquire (Ks j) recovering q hs"
    and acq: "acquire (en_digest E) (wo_registry w) q = (Ok (AAcquired l), g)" and spec: "aq_spec q \<in> S"
    and r: "r = Ok (AAcquired l) \<or> r = Err e"
    and p: "safe E zone p (learn_acquire ((Ks j)\<lparr>kn_drawn := kn_drawn (Ks j) - hs\<rparr>) recovering r)"
  shows "refines E zone S s ((goes w j p)\<lparr>wo_registry := g\<rparr>)"
proof -
  let ?k = "(Ks j)\<lparr>kn_drawn := kn_drawn (Ks j) - hs\<rparr>"
  let ?os = "if recovering \<and> \<not> ml_recovery_attempt l then ft_open s else insert l (ft_open s)"
  note K = simD(4) [OF sim]
  have reg: "ft_registry s = wo_registry w" using simD(1) [OF sim] by (simp add: shows_fleet_def)
  obtain rs where st: "fleet_step (en_aws E) (en_codec E) zone (en_digest E) S s (took s g q l ?os rs)"
      and a: "aq_attempt_id q \<notin> pl_attempts (ft_plane s)"
      and fresh: "\<And>h. h \<notin> hs \<Longrightarrow> fresh_hex s h \<Longrightarrow> fresh_hex (took s g q l ?os rs) h"
    using take_step [OF may K [of j] acq [folded reg] spec] by blast
  let ?s = "took s g q l ?os rs"
  have l: "ml_attempt_id l \<notin> pl_attempts (ft_plane s)"
    using acquired_rows(4) [OF acq [folded reg] mem_okD(1) [OF fleet_okD(1) [OF ok]]] a by simp
  note new = taken_new [OF ok l]
  have hs: "hs \<subseteq> kn_drawn (Ks j)" using may by (simp add: may_acquire_def)
  have quiet: "undisturbed s ?s k" if "knows s k" "kn_drawn k \<inter> hs = {}" for k
  proof (rule undisturbed_take [OF ok that(1) l])
    fix h assume "h \<in> kn_drawn k" "fresh_hex s h"
    then show "fresh_hex ?s h" using that(2) by (intro fresh) blast+
  qed simp
  have k: "knows s ?k" using K [of j] by (auto simp: knows_def)
  have k': "knows ?s ?k" by (rule knows_later [OF ok step_later [OF st] quiet [OF k] k]) auto
  have unowned: "l \<notin> owned (Ks i)" for i using owned_airborne [OF K] new(3) by blast
  have air: "airborne ?s l" by (auto simp: airborne_def)
  have idle: "unused ?s l" "l \<notin> kn_sent ?k" using new(2) unowned [of j] by (simp_all add: unused_def owned_def)
  have "knows ?s (learn_acquire ?k recovering r)"
  proof (cases "recovering \<and> \<not> ml_recovery_attempt l")
    case True
    then show ?thesis using r k' knows_closed [OF k' air] new(1) by (auto simp: learn_acquire_def)
  next
    case False
    then show ?thesis using r k' knows_ready [OF k' air _ idle] by (auto simp: learn_acquire_def)
  qed
  moreover have "owned (learn_acquire ?k recovering r) \<subseteq> insert l (owned (Ks j))" "kn_drawn (learn_acquire ?k recovering r) = kn_drawn (Ks j) - hs"
    using r by (auto simp: learn_acquire_def owned_def split: if_splits)
  ultimately have "sim E zone ?s (Ks(j := learn_acquire ?k recovering r)) ((goes w j p)\<lparr>wo_registry := g\<rparr>)"
  proof (intro sim_move [OF sim ok step_later [OF st]], goal_cases)
    case (1 i)
    then have ap: "apart (Ks j) (Ks i)" using simD(6) [OF sim, of j i] by blast
    then have "undisturbed s ?s (Ks i)" using quiet [OF K, of i] hs unfolding apart_def by blast
    then show ?case using 1 ap unowned [of i] unfolding apart_def by auto
  next
    case (5 h)
    then have "h \<notin> wo_drawn w" by simp
    then have "h \<notin> hs" "fresh_hex s h" using hs simD(5) [OF sim, of j] simD(3) [OF sim] by auto
    then show ?case by (rule fresh)
  qed (use simD(1,2) [OF sim] simD(5) [OF sim, of j] p in \<open>auto simp: shows_fleet_def calls_sent_def\<close>)
  then show ?thesis using st by blast
qed

lemma sim_acquire:
  assumes sim: "sim E zone s Ks w" and ok: "fleet_ok (en_digest E) S s" and c: "safe E zone (RegAcquire q c) (Ks j)"
    and acq: "acquire (en_digest E) (wo_registry w) q = (res, g)" and spec: "aq_spec q \<in> S" and r: "r = res \<or> r = Err e"
  shows "refines E zone S s ((goes w j (c r))\<lparr>wo_registry := g\<rparr>)"
proof -
  obtain recovering hs where may: "may_acquire (Ks j) recovering q hs"
      and p: "\<And>r. safe E zone (c r) (learn_acquire ((Ks j)\<lparr>kn_drawn := kn_drawn (Ks j) - hs\<rparr>) recovering r)"
    using c by auto
  have reg: "ft_registry s = wo_registry w" using simD(1) [OF sim] by (simp add: shows_fleet_def)
  show ?thesis
  proof (cases "\<exists>l. res = Ok (AAcquired l)")
    case True
    then obtain l where "res = Ok (AAcquired l)" by blast
    then show ?thesis using sim_take [OF sim ok may _ spec _ p] acq r by blast
  next
    case False
    note refused = acquire_refused [OF acq [folded reg] mem_okD(1,2) [OF fleet_okD(1) [OF ok]] spec]
    let ?k = "learn_acquire ((Ks j)\<lparr>kn_drawn := kn_drawn (Ks j) - hs\<rparr>) recovering r"
    have "target_made s t" if "r = Ok (AInstalled t)" for t
      using refused(2) [of t] that r False row_made [OF ok] by auto
    then have "knows s ?k"
      using simD(4) [OF sim, of j] r False by (auto simp: knows_def learn_acquire_def learn_target_def split: sum.split acquire_outcome.split)
    moreover have "owned ?k = owned (Ks j)" "kn_drawn ?k \<subseteq> kn_drawn (Ks j)"
      using r False by (auto simp: learn_acquire_def learn_target_def owned_def split: sum.split acquire_outcome.split)
    ultimately show ?thesis using sim_same [OF sim ok, of ?k j "c r"] p [of r] refused(1) False reg by simp
  qed
qed

text \<open>The other effects on the registry.\<close>

lemma sim_effect:
  assumes sim: "sim E zone s Ks w" and ok: "fleet_ok (en_digest E) S s"
    and st: "fleet_step (en_aws E) (en_codec E) zone (en_digest E) S s (s\<lparr>ft_plane := (ft_plane s)\<lparr>pl_registry := g\<rparr>\<rparr>)"
    and k: "knows (s\<lparr>ft_plane := (ft_plane s)\<lparr>pl_registry := g\<rparr>\<rparr>) k" "owned k \<subseteq> owned (Ks j)" "kn_drawn k \<subseteq> kn_drawn (Ks j)"
    and p: "safe E zone p k"
  shows "refines E zone S s ((goes w j p)\<lparr>wo_registry := g\<rparr>)"
proof -
  have "sim E zone (s\<lparr>ft_plane := (ft_plane s)\<lparr>pl_registry := g\<rparr>\<rparr>) (Ks(j := k)) ((goes w j p)\<lparr>wo_registry := g\<rparr>)"
    by (rule sim_goes [OF sim ok step_later [OF st] _ k])
      (use simD(1-3) [OF sim] p in \<open>auto simp: shows_fleet_def calls_sent_def fresh_hex_def intro: undisturbed_same\<close>)
  then show ?thesis using st by blast
qed

lemma knows_registry:
  "knows (s\<lparr>ft_plane := (ft_plane s)\<lparr>pl_registry := g\<rparr>\<rparr>) k = knows s k"
  by (simp add: knows_def fresh_hex_def airborne_def unused_def made_def named_def confirmed_good_def)

lemma sim_install:
  assumes sim: "sim E zone s Ks w" and ok: "fleet_ok (en_digest E) S s" and c: "safe E zone (RegInstall l p n c) (Ks j)"
    and i: "install (wo_registry w) l p n = (res, g)" and r: "r = res \<or> r = Err e"
  shows "refines E zone S s ((goes w j (c r))\<lparr>wo_registry := g\<rparr>)"
proof -
  have reg: "ft_registry s = wo_registry w" using simD(1) [OF sim] by (simp add: shows_fleet_def)
  obtain q a where q: "(q, l) \<in> pl_inflight (ft_plane s)" "ft_created s (ml_reservation_id l) = Some (pt_target_ref p, a)"
    using c knowsD(10) [OF simD(4) [OF sim], of l "pt_target_ref p" j] by (auto simp: airborne_def)
  let ?s = "s\<lparr>ft_plane := (ft_plane s)\<lparr>pl_registry := g\<rparr>\<rparr>"
  have st: "fleet_step (en_aws E) (en_codec E) zone (en_digest E) S s ?s"
    using fleet_step.installs [OF q, of "en_aws E" "en_codec E" zone "en_digest E" S n] i reg by simp
  have ok': "fleet_ok (en_digest E) S ?s" by (rule step_fleet_ok [OF st ok])
  have "target_made s t" if "r = Ok (IInstalled t)" for t
  proof -
    have "\<exists>r. ft_rows ?s (ml_key l) = Some r \<and> Materialization.installed r = Some t"
      using i [folded reg] r that
      by (cases rule: install_cases) (auto simp: put_record_def Materialization.installed_def)
    then have "target_made ?s t" using row_made [OF ok'] by blast
    then show ?thesis by (simp add: made_def named_def)
  qed
  then have "knows s (learn_install (Ks j) r)"
    using simD(4) [OF sim, of j] by (auto simp: knows_def learn_install_def learn_target_def split: sum.split install_outcome.split)
  moreover have "owned (learn_install (Ks j) r) = owned (Ks j)" "kn_drawn (learn_install (Ks j) r) = kn_drawn (Ks j)"
    by (auto simp: learn_install_def learn_target_def owned_def split: sum.split install_outcome.split)
  ultimately show ?thesis using sim_effect [OF sim ok st, of "learn_install (Ks j) r" j "c r"] c by (simp add: knows_registry)
qed

text \<open>A lease of which no machine came.\<close>

abbreviation withdrawn :: "fleet \<Rightarrow> materialization_lease \<Rightarrow> memory_target_registry \<Rightarrow> fleet" where
  "withdrawn s l g \<equiv>
     s\<lparr>ft_open := ft_open s - {l}, ft_sent := {(l', t) \<in> ft_sent s. l' \<noteq> l}, ft_plane := (ft_plane s)\<lparr>pl_registry := g\<rparr>\<rparr>"

lemma withdrawn_same: "withdrawn s l (ft_registry s) = s\<lparr>ft_open := ft_open s - {l}, ft_sent := {(l', t) \<in> ft_sent s. l' \<noteq> l}\<rparr>"
  by simp

lemma knows_withdrawn:
  assumes "knows s k" and "l \<in> kn_ready k \<union> kn_sent k"
  shows "knows (withdrawn s l g)
    (k\<lparr>kn_ready := kn_ready k - {l}, kn_sent := kn_sent k - {l}, kn_closed := insert l (kn_closed k)\<rparr>)"
  using assms by (auto simp: knows_def fresh_hex_def airborne_def unused_def made_def named_def confirmed_good_def)

lemma knows_unready:
  "knows s (k\<lparr>kn_ready := R, kn_sent := kn_sent k - {l}, kn_closed := insert l (kn_closed k)\<rparr>) \<Longrightarrow> l \<notin> kn_sent k \<Longrightarrow>
    knows s (k\<lparr>kn_ready := R\<rparr>)"
  by (simp add: knows_def)

lemma sim_withdraw:
  assumes sim: "sim E zone s Ks w" and ok: "fleet_ok (en_digest E) S s" and l: "l \<in> owned (Ks j)"
    and run: "(fleet_step (en_aws E) (en_codec E) zone (en_digest E) S)\<^sup>*\<^sup>* s (withdrawn s l g)"
    and k: "knows (withdrawn s l g) k" "owned k \<subseteq> owned (Ks j)" "kn_drawn k \<subseteq> kn_drawn (Ks j)" and p: "safe E zone p k"
    and calls: "calls \<subseteq> {x \<in> wo_calls w. fst x \<noteq> l}"
  shows "refines E zone S s ((goes w j p)\<lparr>wo_registry := g, wo_calls := calls\<rparr>)"
proof -
  have "sim E zone (withdrawn s l g) (Ks(j := k)) ((goes w j p)\<lparr>wo_registry := g, wo_calls := calls\<rparr>)"
  proof (rule sim_goes [OF sim ok run_later [OF run] _ k])
    fix i assume "i \<noteq> j"
    then have "l \<notin> owned (Ks i)" using simD(6) [OF sim, of i j] l by (auto simp: apart_def)
    then show "undisturbed s (withdrawn s l g) (Ks i)" by (auto simp: undisturbed_def unused_def fresh_hex_def)
  next
    show "calls_sent (withdrawn s l g) ((goes w j p)\<lparr>wo_registry := g, wo_calls := calls\<rparr>)"
      using simD(2) [OF sim] calls by (fastforce simp: calls_sent_def)
  qed (use simD(1,3) [OF sim] p in \<open>auto simp: shows_fleet_def fresh_hex_def\<close>)
  then show ?thesis using run by blast
qed

lemma sim_expire:
  assumes sim: "sim E zone s Ks w" and ok: "fleet_ok (en_digest E) S s" and c: "safe E zone (RegExpire l n c) (Ks j)"
    and e: "expire_lease (wo_registry w) l n = (res, g)"
  shows "refines E zone S s ((goes w j (c r))\<lparr>wo_registry := g\<rparr>)"
proof -
  note K = simD(4) [OF sim]
  let ?k = "(Ks j)\<lparr>kn_ready := kn_ready (Ks j) - {l}\<rparr>"
  have reg: "ft_registry s = wo_registry w" using simD(1) [OF sim] by (simp add: shows_fleet_def)
  have p: "safe E zone (c r) ?k" and may: "may_expire (Ks j) l" using c by simp_all
  have k: "knows s ?k" "owned ?k \<subseteq> owned (Ks j)" using K [of j] by (auto simp: knows_def owned_def)
  let ?s = "s\<lparr>ft_plane := (ft_plane s)\<lparr>pl_registry := g\<rparr>\<rparr>"
  from may consider "l \<in> kn_closed (Ks j)" | "l \<in> kn_ready (Ks j)" "\<not> ml_recovery_attempt l"
    | "l \<in> kn_listed (Ks j)" "ml_lease_expires_at_ms l \<le> kn_now (Ks j)" by (auto simp: may_expire_def)
  then show ?thesis
  proof cases
    case 1
    then obtain q where "(q, l) \<in> pl_inflight (ft_plane s)" "l \<notin> ft_open s" using knowsD(9) [OF K] by (auto simp: airborne_def)
    from fleet_step.discards [OF this, of "en_aws E" "en_codec E" zone "en_digest E" S n]
    have "fleet_step (en_aws E) (en_codec E) zone (en_digest E) S s ?s" using e reg by simp
    from sim_effect [OF sim ok this, of ?k j "c r"] show ?thesis using k p by (simp add: knows_registry)
  next
    case 3
    have "l \<in> ft_listed s" "ml_lease_expires_at_ms l \<le> ft_now s" using 3 knowsD(1,3) [OF K, of j] by auto
    from fleet_step.forgets [OF this, of "en_aws E" "en_codec E" zone "en_digest E" S n]
    have "fleet_step (en_aws E) (en_codec E) zone (en_digest E) S s ?s" using e reg by simp
    from sim_effect [OF sim ok this, of ?k j "c r"] show ?thesis using k p by (simp add: knows_registry)
  next
    case 2
    note ready = knowsD(7) [OF K 2(1)]
    obtain q where q: "(q, l) \<in> pl_inflight (ft_plane s)" using ready by (auto simp: airborne_def)
    let ?t = "withdrawn s l (ft_registry s)"
    have st: "fleet_step (en_aws E) (en_codec E) zone (en_digest E) S s ?t"
      unfolding withdrawn_same by (rule fleet_step.refuses [OF q 2(2)]) (use ready in \<open>simp add: unused_def\<close>)
    have "fleet_step (en_aws E) (en_codec E) zone (en_digest E) S ?t (withdrawn s l g)"
      using fleet_step.discards [of q l ?t "en_aws E" "en_codec E" zone "en_digest E" S n] q e reg by simp
    with st have run: "(fleet_step (en_aws E) (en_codec E) zone (en_digest E) S)\<^sup>*\<^sup>* s (withdrawn s l g)" by simp
    have l: "l \<in> kn_ready (Ks j) \<union> kn_sent (Ks j)" "l \<notin> kn_sent (Ks j)" using 2(1) knowsD(2) [OF K, of j] by auto
    have "knows (withdrawn s l g) ?k" by (rule knows_unready [OF knows_withdrawn [OF K l(1)] l(2)])
    moreover have "wo_calls w \<subseteq> {x \<in> wo_calls w. fst x \<noteq> l}"
      using simD(2) [OF sim] ready by (fastforce simp: calls_sent_def unused_def)
    ultimately show ?thesis
      using sim_withdraw [OF sim ok _ run, of j ?k "c r" "wo_calls w"] 2(1) k(2) p by (simp add: owned_def)
  qed
qed

lemma sim_close:
  assumes sim: "sim E zone s Ks w" and ok: "fleet_ok (en_digest E) S s" and c: "safe E zone (RegClose t d reason n c) (Ks j)"
    and m: "mark_closed (wo_registry w) t d reason n = (res, g)"
  shows "refines E zone S s ((goes w j (c r))\<lparr>wo_registry := g\<rparr>)"
proof -
  note K = simD(4) [OF sim]
  have reg: "ft_registry s = wo_registry w" using simD(1) [OF sim] by (simp add: shows_fleet_def)
  have t: "confirmed_good s t" using c knowsD(6) [OF K] by auto
  then obtain rid a where "ft_created s rid = Some (it_target_ref t, a)" "ft_reservations s rid = Some (it_key t, it_spec t)"
      "ft_machines s (it_target_ref t) = None" by (auto simp: confirmed_good_def made_def named_def)
  note st = fleet_step.confirms [OF this, of "en_aws E" "en_codec E" zone "en_digest E" S]
  let ?t = "s\<lparr>ft_confirmed := insert t (ft_confirmed s)\<rparr>"
  let ?u = "?t\<lparr>ft_plane := (ft_plane s)\<lparr>pl_registry := g\<rparr>\<rparr>"
  have sim': "sim E zone ?t Ks w"
    by (rule sim_stays [OF sim ok step_later [OF st]])
      (use simD(1-3,7) [OF sim] in \<open>auto simp: shows_fleet_def calls_sent_def fresh_hex_def intro: undisturbed_same\<close>)
  have "fleet_step (en_aws E) (en_codec E) zone (en_digest E) S ?t (?t\<lparr>ft_plane := (ft_plane ?t)\<lparr>pl_registry := g\<rparr>\<rparr>)"
    using fleet_step.closes [of t ?t "en_aws E" "en_codec E" zone "en_digest E" S d reason n] m reg by simp
  from sim_effect [OF sim' step_fleet_ok [OF st ok] this, of "Ks j" j "c r"] simD(4) [OF sim', of j] c knows_registry [where s = ?t]
  have "refines E zone S ?t ((goes w j (c r))\<lparr>wo_registry := g\<rparr>)" by simp
  then show ?thesis using st by (meson converse_rtranclp_into_rtranclp)
qed

lemma sim_purge:
  assumes sim: "sim E zone s Ks w" and ok: "fleet_ok (en_digest E) S s" and c: "safe E zone (RegPurge key gen c) (Ks j)"
  shows "refines E zone S s ((goes w j (c r))\<lparr>wo_registry := purge_row (wo_registry w) key gen\<rparr>)"
proof -
  have reg: "ft_registry s = wo_registry w" using simD(1) [OF sim] by (simp add: shows_fleet_def)
  from sim_effect [OF sim ok fleet_step.purges [of _ _ _ _ _ s key gen], of "Ks j" j "c r"] simD(4) [OF sim, of j] c reg
  show ?thesis by (simp add: knows_registry)
qed

lemma sim_failed:
  assumes sim: "sim E zone s Ks w" and ok: "fleet_ok (en_digest E) S s" and c: "safe E zone p (Ks j)" and f: "call_failed e p = Some p'"
  shows "refines E zone S s (goes w j p')"
proof -
  note K = simD(4) [OF sim]
  have same: "refines E zone S s (goes w j p')" if "safe E zone p' (Ks j)"
    using sim_same [OF sim ok K] that by blast
  have fewer: "knows s ((Ks j)\<lparr>kn_drawn := kn_drawn (Ks j) - hs\<rparr>)" "knows s ((Ks j)\<lparr>kn_ready := kn_ready (Ks j) - {l}\<rparr>)" for hs l
    using K [of j] by (auto simp: knows_def)
  show ?thesis
  proof (cases p)
    case (RegAcquire q c')
    then obtain recovering hs where "safe E zone p' (learn_acquire ((Ks j)\<lparr>kn_drawn := kn_drawn (Ks j) - hs\<rparr>) recovering (Err e))"
      using c f by auto
    then show ?thesis by (intro sim_same [OF sim ok fewer(1), of hs]) (auto simp: owned_def learn_acquire_def)
  next
    case (RegExpire l n c')
    then have "safe E zone p' ((Ks j)\<lparr>kn_ready := kn_ready (Ks j) - {l}\<rparr>)" using c f by auto
    then show ?thesis by (intro sim_same [OF sim ok fewer(2), of l]) (auto simp: owned_def)
  next
    case (RegGet key c')
    then have "safe E zone (c' (Err e)) (learn_get (Ks j) (Err e))" using c by simp
    then show ?thesis using same f RegGet by (simp add: learn_get_def)
  next
    case (RegList root limit c')
    then have "safe E zone (c' (Err e)) (learn_list (Ks j) (Err e))" using c by simp
    then show ?thesis using same f RegList by (simp add: learn_list_def)
  next
    case (RegInstall l q n c')
    then have "safe E zone (c' (Err e)) (learn_install (Ks j) (Err e))" using c by simp
    then show ?thesis using same f RegInstall by (simp add: learn_install_def)
  qed (use same c f in auto)
qed

subsection \<open>Calls of the provider\<close>

lemma sim_absent:
  assumes sim: "sim E zone s Ks w" and ok: "fleet_ok (en_digest E) S s" and c: "safe E zone p (learn_absent (Ks j) i absent)"
    and a: "absent \<Longrightarrow> wo_machines w i = None"
  shows "refines E zone S s (goes w j p)"
proof (rule sim_same [OF sim ok _ _ _ c])
  have "ft_machines s i = None" if absent using a [OF that] simD(1) [OF sim] by (simp add: shows_fleet_def)
  then show "knows s (learn_absent (Ks j) i absent)"
    using simD(4) [OF sim, of j] by (auto simp: knows_def learn_absent_def confirmed_good_def)
qed (auto simp: learn_absent_def owned_def)

lemma learn_run_sent:
  "learn_run (k\<lparr>kn_ready := kn_ready k - {l}, kn_sent := insert l (kn_sent k)\<rparr>) l r = learn_run k l r"
  by (simp add: learn_run_def)

lemma knows_sent:
  assumes "knows s k" and "l \<in> kn_ready k \<union> kn_sent k"
  shows "knows (s\<lparr>ft_sent := insert (l, t) (ft_sent s)\<rparr>) (k\<lparr>kn_ready := kn_ready k - {l}, kn_sent := insert l (kn_sent k)\<rparr>)"
    and "knows s (k\<lparr>kn_ready := kn_ready k - {l}, kn_sent := insert l (kn_sent k)\<rparr>)"
  using assms by (auto simp: knows_def fresh_hex_def airborne_def unused_def made_def named_def confirmed_good_def)

lemma running_lease:
  assumes "knows s k" and "l \<in> kn_ready k \<union> kn_sent k"
  obtains q where "(q, l) \<in> pl_inflight (ft_plane s)" and "l \<in> ft_open s"
  using assms knowsD(7,8) [OF assms(1), of l] that by (auto simp: airborne_def)

lemma sim_send:
  assumes sim: "sim E zone s Ks w" and ok: "fleet_ok (en_digest E) S s" and j: "wo_clients w j = Some (VmRun l t request c)"
  shows "refines E zone S s (w\<lparr>wo_calls := insert (l, t, request) (wo_calls w)\<rparr>)"
proof -
  let ?k = "(Ks j)\<lparr>kn_ready := kn_ready (Ks j) - {l}, kn_sent := insert l (kn_sent (Ks j))\<rparr>"
  let ?s = "s\<lparr>ft_sent := insert (l, t) (ft_sent s)\<rparr>"
  note p = simD(7) [OF sim j] and K = simD(4) [OF sim]
  obtain token where l: "l \<in> kn_ready (Ks j) \<union> kn_sent (Ks j)"
      and a: "launch_admit (en_aws E) (en_codec E) zone l t = Ok (request, token)" using p by auto
  obtain q where q: "(q, l) \<in> pl_inflight (ft_plane s)" "l \<in> ft_open s" by (rule running_lease [OF K l])
  note st = fleet_step.dispatches [OF q a, of "en_digest E" S]
  have "sim E zone ?s (Ks(j := ?k)) (w\<lparr>wo_calls := insert (l, t, request) (wo_calls w)\<rparr>)"
  proof (rule sim_goes [OF sim ok step_later [OF st]])
    fix i assume "i \<noteq> j"
    then have "l \<notin> kn_ready (Ks i)" using simD(6) [OF sim, of i j] l by (auto simp: apart_def owned_def)
    then show "undisturbed s ?s (Ks i)" by (rule undisturbed_dispatch)
  next
    show "knows ?s ?k" by (rule knows_sent(1) [OF K l])
    show "calls_sent ?s (w\<lparr>wo_calls := insert (l, t, request) (wo_calls w)\<rparr>)"
      using simD(2) [OF sim] launch_admit_Ok(1) [OF a] by (auto simp: calls_sent_def)
    show "wo_clients (w\<lparr>wo_calls := insert (l, t, request) (wo_calls w)\<rparr>) = (wo_clients w)(j \<mapsto> VmRun l t request c)"
      using j by auto
    show "safe E zone (VmRun l t request c) ?k" using p by (simp add: learn_run_sent)
  qed (use simD(1,3) [OF sim] l in \<open>auto simp: shows_fleet_def owned_def fresh_hex_def\<close>)
  then show ?thesis using st by blast
qed

lemma sim_answer:
  assumes sim: "sim E zone s Ks w" and ok: "fleet_ok (en_digest E) S s" and j: "wo_clients w j = Some (VmRun l t request c)"
    and r: "run_answer w l request r"
  shows "refines E zone S s ((goes w j (c r))\<lparr>wo_calls := (if refused r then {x \<in> wo_calls w. fst x \<noteq> l} else wo_calls w)\<rparr>)"
proof -
  note K = simD(4) [OF sim]
  obtain token where l: "l \<in> kn_ready (Ks j) \<union> kn_sent (Ks j)" and p: "safe E zone (c r) (learn_run (Ks j) l r)"
      and a: "launch_admit (en_aws E) (en_codec E) zone l t = Ok (request, token)" using simD(7) [OF sim j] by auto
  note token = launch_admit_Ok(1) [OF a]
  have reg: "ft_registry s = wo_registry w" "ft_created s = wo_created w" using simD(1) [OF sim] by (simp_all add: shows_fleet_def)
  have kept: "owned (learn_run (Ks j) l r) \<subseteq> owned (Ks j)" "kn_drawn (learn_run (Ks j) l r) = kn_drawn (Ks j)"
    using l by (auto simp: learn_run_def owned_def)
  show ?thesis
  proof (cases "refusal l r")
    case True
    then have re: "refused r" "\<not> ml_recovery_attempt l" by (auto simp: refusal_def refused_def)
    obtain q where q: "(q, l) \<in> pl_inflight (ft_plane s)" by (rule running_lease [OF K l])
    have "fleet_step (en_aws E) (en_codec E) zone (en_digest E) S s (withdrawn s l (ft_registry s))"
      unfolding withdrawn_same
      by (rule fleet_step.refuses [OF q re(2)]) (use r re(1) token reg in \<open>simp add: run_answer_def\<close>)
    then have run: "(fleet_step (en_aws E) (en_codec E) zone (en_digest E) S)\<^sup>*\<^sup>* s (withdrawn s l (ft_registry s))" by blast
    have "knows (withdrawn s l (ft_registry s)) (learn_run (Ks j) l r)"
      using knows_withdrawn [OF K l, of "ft_registry s"] True by (simp add: learn_run_def)
    moreover have "l \<in> owned (Ks j)" using l by (auto simp: owned_def)
    ultimately show ?thesis
      using sim_withdraw [OF sim ok _ run _ kept(1) _ p, of "{x \<in> wo_calls w. fst x \<noteq> l}"] kept(2) re(1) reg by simp
  next
    case False
    have kn: "knows s (learn_run (Ks j) l r)"
      using knows_sent(2) [OF K l] False l knowsD(7,8) [OF K, of l j] r token reg
      by (auto simp: learn_run_def knows_def run_answer_def)
    have "sim E zone s (Ks(j := learn_run (Ks j) l r))
        ((goes w j (c r))\<lparr>wo_calls := (if refused r then {x \<in> wo_calls w. fst x \<noteq> l} else wo_calls w)\<rparr>)"
      by (rule sim_goes [OF sim ok later_refl _ kn kept(1)])
        (use simD(1-3) [OF sim] p kept(2) in \<open>auto simp: shows_fleet_def calls_sent_def intro: undisturbed_same\<close>)
    then show ?thesis by blast
  qed
qed

subsection \<open>The provider by itself\<close>

lemma sim_provider:
  assumes sim: "sim E zone s Ks w" and ok: "fleet_ok (en_digest E) S s"
    and st: "fleet_step (en_aws E) (en_codec E) zone (en_digest E) S s s'" and same: "\<And>i. undisturbed s s' (Ks i)"
    and w': "shows_fleet s' w'" "ft_sent s' = ft_sent s" "ft_reservations s' = ft_reservations s" "pl_attempts (ft_plane s') = pl_attempts (ft_plane s)"
      "wo_calls w' = wo_calls w" "wo_drawn w' = wo_drawn w" "wo_clients w' = wo_clients w"
  shows "refines E zone S s w'"
proof -
  have "sim E zone s' Ks w'"
    by (rule sim_stays [OF sim ok step_later [OF st] same w'(1) _ _ w'(6)])
      (use simD(2,3,7) [OF sim] w' in \<open>auto simp: calls_sent_def fresh_hex_def\<close>)
  then show ?thesis using st by blast
qed

lemma sim_clients:
  assumes sim: "sim E zone s Ks w" and c: "\<And>i p. cs i = Some p \<Longrightarrow> safe E zone p (Ks i)"
  shows "sim E zone s Ks (w\<lparr>wo_clients := cs\<rparr>)"
  using simD [OF sim] c unfolding sim_def by (auto simp: shows_fleet_def calls_sent_def)

lemma sim_created:
  assumes sim: "sim E zone s Ks w" and ok: "fleet_ok (en_digest E) S s" and call: "(l, t, request) \<in> wo_calls w"
    and none: "wo_created w (er_client_token request) = None" and i: "i \<notin> wo_ids w"
  shows "refines E zone S s
      (w\<lparr>wo_machines := (wo_machines w)(i \<mapsto> \<lparr>mc_token = er_client_token request, mc_born = wo_now w, mc_admitted = t\<rparr>),
         wo_ids := insert i (wo_ids w),
         wo_created := (wo_created w)(er_client_token request \<mapsto> (i, ml_attempt_id l))\<rparr>)"
proof -
  have l: "(l, t) \<in> ft_sent s" "er_client_token request = ml_reservation_id l"
    using call simD(2) [OF sim] by (auto simp: calls_sent_def)
  show ?thesis
    by (rule sim_provider [OF sim ok fleet_step.creates [OF l(1)] undisturbed_create [OF ok simD(4) [OF sim] l(1)]])
      (use simD(1) [OF sim] none i l(2) in \<open>auto simp: shows_fleet_def\<close>)
qed

subsection \<open>Time and chance\<close>

lemma sim_clock:
  assumes sim: "sim E zone s Ks w" and ok: "fleet_ok (en_digest E) S s" and c: "safe E zone (Clock c) (Ks j)" and n: "n \<le> wo_now w"
  shows "refines E zone S s (goes w j (c n))"
proof -
  note K = simD(4) [OF sim, of j] and W = simD(1) [OF sim, unfolded shows_fleet_def]
  have "safe E zone (c n) ((Ks j)\<lparr>kn_now := wo_now w\<rparr>)" using c n knowsD(1) [OF K] W by simp
  then show ?thesis by (rule sim_same [OF sim ok, rotated 3]) (use K W in \<open>auto simp: knows_def owned_def\<close>)
qed

lemma sim_draw:
  assumes sim: "sim E zone s Ks w" and ok: "fleet_ok (en_digest E) S s" and c: "safe E zone (Draw c) (Ks j)" and h: "h \<notin> wo_drawn w"
  shows "refines E zone S s ((goes w j (c h))\<lparr>wo_drawn := insert h (wo_drawn w)\<rparr>)"
proof -
  let ?k = "(Ks j)\<lparr>kn_drawn := insert h (kn_drawn (Ks j))\<rparr>"
  have "sim E zone s (Ks(j := ?k)) ((goes w j (c h))\<lparr>wo_drawn := insert h (wo_drawn w)\<rparr>)"
  proof (rule sim_move [OF sim ok later_refl])
    fix i assume "i \<noteq> j"
    then show "undisturbed s s (Ks i) \<and> apart ?k (Ks i)"
      using simD(6) [OF sim, of j i] simD(5) [OF sim, of i] h by (auto simp: apart_def owned_def undisturbed_def)
  qed (use h c simD(1-3) [OF sim] simD(5) [OF sim, of j] simD(4) [OF sim, of j] in
      \<open>auto simp: shows_fleet_def calls_sent_def knows_def split: if_splits\<close>)
  then show ?thesis by blast
qed

subsection \<open>Runs\<close>

lemma port_step_refines:
  assumes step: "port_step E zone S w w'" and sim: "sim E zone s Ks w" and ok: "fleet_ok (en_digest E) S s"
  shows "refines E zone S s w'"
proof -
  note W = simD(1) [OF sim, unfolded shows_fleet_def] and P = simD(7) [OF sim] and K = simD(4) [OF sim]
  show ?thesis
    using step
  proof cases
    case (time n)
    show ?thesis unfolding time(1)
      by (rule sim_provider [OF sim ok fleet_step.tick [of s n]])
        (use W time in \<open>auto simp: shows_fleet_def intro: undisturbed_same\<close>)
  next
    case (ended i)
    show ?thesis unfolding ended(1)
      by (rule sim_provider [OF sim ok fleet_step.ends [of _ _ _ _ _ s i]])
        (use W in \<open>auto simp: shows_fleet_def intro: undisturbed_same\<close>)
  next
    case (arrives I j q)
    have "sim E zone s Ks w'" unfolding arrives(1)
      by (rule sim_clients [OF sim]) (use P serve_safe [of zone I] arrives(2) in \<open>auto split: if_splits\<close>)
    then show ?thesis by blast
  next
    case (stops j)
    have "sim E zone s Ks w'" unfolding stops(1) by (rule sim_clients [OF sim]) (use P in \<open>auto split: if_splits\<close>)
    then show ?thesis by blast
  next
    case (ask j a c x)
    then show ?thesis using sim_same [OF sim ok K [of j], of j "c x"] P [OF ask(2)] by simp
  next
    case (vm_get j i c r)
    then show ?thesis using sim_absent [OF sim ok, of "c r" j i "says_absent r"] P [OF vm_get(2)] by simp
  next
    case (vm_terminate j i c r)
    then show ?thesis using sim_absent [OF sim ok, of "c r" j i "says_gone r"] P [OF vm_terminate(2)] by simp
  next
    case (created l t request i)
    show ?thesis unfolding created(1) by (rule sim_created [OF sim ok created(2-)])
  next
    case (clock j c n)
    show ?thesis unfolding clock(1) by (rule sim_clock [OF sim ok P [OF clock(2)] clock(3)])
  next
    case (draw j c h)
    show ?thesis unfolding draw(1) by (rule sim_draw [OF sim ok P [OF draw(2)] draw(3)])
  next
    case (failed j p e p')
    show ?thesis unfolding failed(1) by (rule sim_failed [OF sim ok P [OF failed(2)] failed(3)])
  next
    case (reg_get j key c)
    show ?thesis unfolding reg_get(1) by (rule sim_get [OF sim ok]) (use P [OF reg_get(2)] in simp)
  next
    case (reg_list j root limit c)
    show ?thesis unfolding reg_list(1) by (rule sim_list [OF sim ok]) (use P [OF reg_list(2)] in simp)
  next
    case (reg_acquire j q c res g r e)
    show ?thesis unfolding reg_acquire(1) by (rule sim_acquire [OF sim ok P [OF reg_acquire(2)] reg_acquire(4,3,5)])
  next
    case (reg_install j l p n c res g r e)
    show ?thesis unfolding reg_install(1) by (rule sim_install [OF sim ok P [OF reg_install(2)] reg_install(3,4)])
  next
    case (reg_expire j l n c res g r e)
    show ?thesis unfolding reg_expire(1) by (rule sim_expire [OF sim ok P [OF reg_expire(2)] reg_expire(3)])
  next
    case (reg_close j t d reason n c res g r e)
    show ?thesis unfolding reg_close(1) by (rule sim_close [OF sim ok P [OF reg_close(2)] reg_close(3)])
  next
    case (reg_purge j key gen c r)
    show ?thesis unfolding reg_purge(1) by (rule sim_purge [OF sim ok P [OF reg_purge(2)]])
  next
    case (vm_send j l t request c)
    show ?thesis unfolding vm_send(1) by (rule sim_send [OF sim ok vm_send(2)])
  next
    case (vm_answer j l t request c r)
    show ?thesis unfolding vm_answer(1) by (rule sim_answer [OF sim ok vm_answer(2,3)])
  qed
qed

lemma start_sim: "sim E zone (fleet_start g) (\<lambda>_. nothing_known) (world_start g)"
  by (simp add: sim_def shows_fleet_def calls_sent_def fleet_start_def world_start_def fresh_hex_def knows_def
      nothing_known_def apart_def owned_def)

lemma port_run_refines:
  assumes "(port_step E zone S)\<^sup>*\<^sup>* (world_start g) w" and "with_capacity m = Some g" and "digest_ok (en_digest E) S"
  shows "refines E zone S (fleet_start g) w"
  using assms(1)
proof (induction rule: rtranclp_induct)
  case base
  then show ?case using start_sim by blast
next
  case (step w w')
  then obtain s Ks where run: "(fleet_step (en_aws E) (en_codec E) zone (en_digest E) S)\<^sup>*\<^sup>* (fleet_start g) s" and sim: "sim E zone s Ks w"
    by blast
  have "fleet_ok (en_digest E) S s" by (rule run_fleet_ok [OF run fleet_start_ok [OF assms(2,3)]])
  from port_step_refines [OF step(2) sim this] show ?case using run by (meson rtranclp_trans)
qed

end
