(* ===== verification/Prepare_Laws.thy ===== *)
theory Prepare_Laws
  imports Prepare_Plane
begin

section \<open>Invariants of concurrent preparations\<close>

text \<open>
  What holds in every state that preparations, installations into guests, lookups and purges can
  reach in any interleaving: the accounts of both caches are exact and within their limits, the owners of
  a bundle are exactly the workers that borrow it, the bytes in flight are exactly the reservations of the
  workers, and the cache has room for every reservation that is not installed yet. From the last follows
  that a preparation whose fetches were admitted and succeeded is not refused for want of room.
\<close>

subsection \<open>Sums over workers\<close>

abbreviation total_of :: "('a \<Rightarrow> nat) \<Rightarrow> 'a list \<Rightarrow> nat" where
  "total_of f xs \<equiv> sum_list (map f xs)"

abbreviation without :: "nat \<Rightarrow> 'a list \<Rightarrow> 'a list" where
  "without n xs \<equiv> take n xs @ drop (Suc n) xs"

lemma total_of_split: "n < length xs \<Longrightarrow> total_of f xs = f (xs ! n) + total_of f (without n xs)"
  by (subst id_take_nth_drop [of n xs]) simp_all

lemma without_update: "n < length xs \<Longrightarrow> without n (xs[n := y]) = without n xs"
  by simp

lemma total_of_update: "n < length xs \<Longrightarrow> total_of f (xs[n := y]) = f y + total_of f (without n xs)"
  by (subst total_of_split [of n]) simp_all

lemma set_without: "set (without n xs) \<subseteq> set xs"
  using set_take_subset [of n xs] set_drop_subset [of "Suc n" xs] by auto

lemma set_update_without: "n < length xs \<Longrightarrow> set (xs[n := y]) = insert y (set (without n xs))"
  by (simp add: upd_conv_take_nth_drop)

subsection \<open>Borrowing and returning\<close>

definition same_contents :: "bundle_cache \<Rightarrow> bundle_cache \<Rightarrow> bool" where
  "same_contents c c' \<longleftrightarrow> contents c' = contents c \<and> bc_bundle_bytes c' = bc_bundle_bytes c \<and> same_bounds c c'"

lemma same_contents_refl [simp]: "same_contents c c"
  by (simp add: same_contents_def)

lemma same_contents_trans: "same_contents c c' \<Longrightarrow> same_contents c' c'' \<Longrightarrow> same_contents c c''"
  using same_bounds_trans by (auto simp: same_contents_def)

lemma return_all_laws:
  "same_contents c (return_all ds c) \<and> borrows (return_all ds c) = (\<lambda>d. borrows c d - count_list ds d)"
proof (induction ds arbitrary: c)
  case (Cons d ds)
  have "same_contents c (bundle_return c d)" using bundle_return_laws by (simp add: same_contents_def)
  then show ?case
    using Cons.IH [of "bundle_return c d"] same_contents_trans
    by (auto simp: return_all_def bundle_return_laws(4) fun_eq_iff)
qed (simp add: return_all_def)

lemma get_laws:
  assumes "bundle_get c d = (r, c')"
  shows "same_contents c c'" and "r = contents c d"
    and "borrows c' = (\<lambda>x. borrows c x + (if x = d \<and> contents c d \<noteq> None then 1 else 0))"
  using bundle_get_laws [OF assms] by (auto simp: same_contents_def fun_eq_iff)

subsection \<open>Admission\<close>

abbreviation fetch_digests :: "bundle_fetch list \<Rightarrow> string list" where
  "fetch_digests fs \<equiv> map bf_bundle_digest fs"

text \<open>\<open>sized\<close>: the bytes of a plan are those of its fetches.\<close>

definition sized :: "fetch_plan \<Rightarrow> bool" where
  "sized p \<longleftrightarrow> fp_bytes p = total_of bf_max_bytes (fp_missing p) \<and> distinct (fetch_digests (fp_missing p))"

lemma plan_fetches_laws:
  assumes "plan_fetches V now fm required supplied order c plan = (r, c', plan')"
    and "distinct order" and "\<And>d f. supplied d = Some f \<Longrightarrow> bf_bundle_digest f = d"
    and "sized plan" and "set order \<inter> set (fetch_digests (fp_missing plan)) = {}"
  shows "same_contents c c' \<and> sized plan'
    \<and> (\<forall>d. borrows c' d + count_list (fp_borrowed plan) d = borrows c d + count_list (fp_borrowed plan') d)
    \<and> (r = Ok () \<longrightarrow> set (fp_borrowed plan') \<union> set (fetch_digests (fp_missing plan')) =
        set order \<union> set (fp_borrowed plan) \<union> set (fetch_digests (fp_missing plan)))"
  using assms
proof (induction order arbitrary: c plan)
  case Nil
  then show ?case by simp
next
  case (Cons d ds)
  obtain g c1 where g: "bundle_get c d = (g, c1)" by (rule prod.exhaust)
  note G = get_laws [OF g]
  show ?case
  proof (cases g)
    case (Some content)
    let ?p = "plan\<lparr>fp_borrowed := d # fp_borrowed plan\<rparr>"
    have "plan_fetches V now fm required supplied ds c1 ?p = (r, c', plan')" using Cons.prems(1) g Some by simp
    from Cons.IH [OF this _ Cons.prems(3)] Cons.prems
    have IH: "same_contents c1 c' \<and> sized plan'
      \<and> (\<forall>x. borrows c' x + count_list (d # fp_borrowed plan) x = borrows c1 x + count_list (fp_borrowed plan') x)
      \<and> (r = Ok () \<longrightarrow> set (fp_borrowed plan') \<union> set (fetch_digests (fp_missing plan')) =
        set ds \<union> set (d # fp_borrowed plan) \<union> set (fetch_digests (fp_missing plan)))"
      by (auto simp: sized_def)
    have "contents c d \<noteq> None" unfolding G(2) [symmetric] Some by simp
    then have "borrows c' x + count_list (fp_borrowed plan) x = borrows c x + count_list (fp_borrowed plan') x" for x
      using conjunct1 [OF conjunct2 [OF conjunct2 [OF IH]], rule_format, of x] by (simp add: G(3) split: if_splits)
    then show ?thesis using IH same_contents_trans [OF G(1)] by auto
  next
    case None
    have b: "borrows c1 = borrows c" using G(2,3) None by simp
    let ?bad = "\<lambda>f. bf_expires_at_ms f \<le> now \<or> bf_max_bytes f > MAX_TOOL_BUNDLE_BYTES (aw_brain V)
      \<or> bf_max_bytes f < vb_bytes (the (required d))"
    show ?thesis
    proof (cases "\<exists>f. supplied d = Some f \<and> \<not> ?bad f \<and> fp_bytes plan + bf_max_bytes f \<le> U64_MAX")
      case True
      then obtain f where f: "supplied d = Some f" "\<not> ?bad f" "fp_bytes plan + bf_max_bytes f \<le> U64_MAX" by blast
      let ?p = "plan\<lparr>fp_missing := f # fp_missing plan, fp_bytes := fp_bytes plan + bf_max_bytes f\<rparr>"
      have fd: "bf_bundle_digest f = d" using Cons.prems(3) f(1) .
      have step: "plan_fetches V now fm required supplied ds c1 ?p = (r, c', plan')"
        using Cons.prems(1) g None f by (simp add: checked_add_def)
      have "sized ?p" "set ds \<inter> set (fetch_digests (fp_missing ?p)) = {}" "distinct ds"
        using Cons.prems(2,4,5) fd by (auto simp: sized_def)
      from Cons.IH [OF step this(3) Cons.prems(3) this(1,2)]
      show ?thesis using same_contents_trans [OF G(1)] by (auto simp: b fd)
    next
      case False
      then have "r \<noteq> Ok () \<and> c' = c1 \<and> plan' = plan"
        using Cons.prems(1) g None
        by (auto split: option.splits if_splits simp del: checked_add_Some_iff simp: checked_add_def)
      then show ?thesis using G(1) Cons.prems(4) b by auto
    qed
  qed
qed

text \<open>Bundles may have been evicted, none of them borrowed.\<close>

definition shrunk :: "bundle_cache \<Rightarrow> bundle_cache \<Rightarrow> bool" where
  "shrunk c c' \<longleftrightarrow> bundles_ok c' \<and> same_bounds c c' \<and> contents c' \<subseteq>\<^sub>m contents c
     \<and> bc_bundle_bytes c' \<le> bc_bundle_bytes c \<and> card (dom (contents c')) \<le> card (dom (contents c))
     \<and> (\<forall>d. 0 < borrows c d \<longrightarrow> contents c' d = contents c d)"

lemma shrunk_same: "bundles_ok c \<Longrightarrow> same_contents c c' \<Longrightarrow> shrunk c c'"
  by (simp add: shrunk_def same_contents_def bundles_ok_def)

lemma shrunk_evict:
  assumes "bundles_ok c" and "same_contents c c1" and "\<And>d. borrows c d \<le> borrows c1 d"
    and "evict_idle_to_fit V c1 b n protected order = (r, c2)" and "same_contents c2 c3"
  shows "shrunk c c3"
proof -
  have ok: "bundles_ok c1" using assms(1,2) by (simp add: same_contents_def bundles_ok_def)
  note E = evict_idle_laws [OF assms(4) ok]
  have "\<forall>d. 0 < borrows c d \<longrightarrow> contents c2 d = contents c1 d" using E assms(3) by (metis less_le_trans)
  then show ?thesis
    using E assms(2,5) by (auto simp: shrunk_def same_contents_def bundles_ok_def same_bounds_def)
qed

lemma fetch_admit_Ok:
  assumes "fetch_admit V fl cb ce fb fe cl fm = (Ok r, fl')"
  shows "r = \<lparr>fr_bytes = fb, fr_entries = fe\<rparr>" and "fl' = \<lparr>fl_bytes = fl_bytes fl + fb, fl_entries = fl_entries fl + fe\<rparr>"
    and "fl_bytes fl + fb \<le> fm" and "cb + fl_bytes fl + fb \<le> cl" and "ce + fl_entries fl + fe \<le> MAX_CACHED_BUNDLES"
  using assms by (auto simp: fetch_admit_def result_iffs split: sum.splits)

lemma fetch_admit_Err: "fetch_admit V fl cb ce fb fe cl fm = (Err e, fl') \<Longrightarrow> fl' = fl"
  by (auto simp: fetch_admit_def split: sum.splits)

lemma admit_fetches_cases:
  assumes "admit_fetches V now fm required supplied order bundle_order c fl = (res, c', fl')"
  obtains (unplanned) e r0 c1 plan where "plan_fetches V now fm required supplied order c
        \<lparr>fp_missing = [], fp_borrowed = [], fp_bytes = 0\<rparr> = (r0, c1, plan)"
      "res = Err e" "c' = return_all (fp_borrowed plan) c1" "fl' = fl"
  | (evicted) e c1 plan b n r1 c2 where "plan_fetches V now fm required supplied order c
        \<lparr>fp_missing = [], fp_borrowed = [], fp_bytes = 0\<rparr> = (Ok (), c1, plan)"
      "evict_idle_to_fit V c1 b n (dom required) bundle_order = (r1, c2)"
      "res = Err e" "c' = return_all (fp_borrowed plan) c2" "fl' = fl"
  | (admitted) c1 plan r where "plan_fetches V now fm required supplied order c
        \<lparr>fp_missing = [], fp_borrowed = [], fp_bytes = 0\<rparr> = (Ok (), c1, plan)"
      "evict_idle_to_fit V c1 (fl_bytes fl + fp_bytes plan) (fl_entries fl + length (fp_missing plan)) (dom required) bundle_order
        = (Ok (), c')"
      "fetch_admit V fl (bc_bundle_bytes c') (card (dom (bc_bundles c'))) (fp_bytes plan) (length (fp_missing plan))
        (bc_max_bundle_bytes c') fm = (Ok r, fl')"
      "res = Ok (plan, r)"
  using assms unfolding admit_fetches_def
  by (auto split: sum.splits prod.splits option.splits dest: fetch_admit_Err)

lemma planned:
  assumes "plan_fetches V now fm required supplied order c \<lparr>fp_missing = [], fp_borrowed = [], fp_bytes = 0\<rparr> = (r, c', plan)"
    and "distinct order" and "\<And>d f. supplied d = Some f \<Longrightarrow> bf_bundle_digest f = d"
  shows "same_contents c c'" and "sized plan" and "borrows c' d = borrows c d + count_list (fp_borrowed plan) d"
    and "r = Ok () \<Longrightarrow> set (fp_borrowed plan) \<union> set (fetch_digests (fp_missing plan)) = set order"
  using plan_fetches_laws [OF assms] by (simp_all add: sized_def)

lemma admit_fetches_Err:
  assumes "admit_fetches V now fm required supplied order bundle_order c fl = (Err e, c', fl')"
    and "distinct order" and "\<And>d f. supplied d = Some f \<Longrightarrow> bf_bundle_digest f = d" and "bundles_ok c"
  shows "fl' = fl" and "shrunk c c'" and "borrows c' = borrows c"
proof -
  have "fl' = fl \<and> shrunk c c' \<and> borrows c' = borrows c"
    using assms(1)
  proof (cases rule: admit_fetches_cases)
    case (unplanned e r0 c1 plan)
    note P = planned [OF unplanned(1) assms(2,3)] and R = return_all_laws [of c1 "fp_borrowed plan"]
    then show ?thesis
      using shrunk_same [OF assms(4) same_contents_trans [OF P(1) conjunct1 [OF R]]] unplanned by (auto simp: P(3))
  next
    case (evicted e c1 plan b n r1 c2)
    note P = planned [OF evicted(1) assms(2,3)] and R = return_all_laws [of c2 "fp_borrowed plan"]
    have "bundles_ok c1" using P(1) assms(4) by (simp add: same_contents_def bundles_ok_def)
    then have "borrows c2 = borrows c1" using evict_idle_laws [OF evicted(2)] by simp
    then show ?thesis
      using shrunk_evict [OF assms(4) P(1) _ evicted(2) conjunct1 [OF R]] R evicted by (auto simp: P(3))
  qed simp
  then show "fl' = fl" and "shrunk c c'" and "borrows c' = borrows c" by blast+
qed

lemma admit_fetches_Ok:
  assumes "admit_fetches V now fm required supplied order bundle_order c fl = (Ok (plan, r), c', fl')"
    and "distinct order" and "\<And>d f. supplied d = Some f \<Longrightarrow> bf_bundle_digest f = d" and "bundles_ok c"
  shows "shrunk c c'" and "borrows c' d = borrows c d + count_list (fp_borrowed plan) d" and "sized plan"
    and "set (fp_borrowed plan) \<union> set (fetch_digests (fp_missing plan)) = set order"
    and "fr_bytes r = fp_bytes plan" and "fr_entries r = length (fp_missing plan)"
    and "fl_bytes fl' = fl_bytes fl + fr_bytes r" and "fl_entries fl' = fl_entries fl + fr_entries r"
    and "fl_bytes fl' \<le> fm" and "bc_bundle_bytes c' + fl_bytes fl' \<le> bc_max_bundle_bytes c"
    and "card (dom (contents c')) + fl_entries fl' \<le> MAX_CACHED_BUNDLES"
proof -
  obtain c1 where
    p: "plan_fetches V now fm required supplied order c \<lparr>fp_missing = [], fp_borrowed = [], fp_bytes = 0\<rparr> = (Ok (), c1, plan)"
    and e: "evict_idle_to_fit V c1 (fl_bytes fl + fp_bytes plan) (fl_entries fl + length (fp_missing plan)) (dom required) bundle_order
        = (Ok (), c')"
    and a: "fetch_admit V fl (bc_bundle_bytes c') (card (dom (bc_bundles c'))) (fp_bytes plan) (length (fp_missing plan))
        (bc_max_bundle_bytes c') fm = (Ok r, fl')"
    using assms(1) by (cases rule: admit_fetches_cases) auto
  note P = planned [OF p assms(2,3)] and F = fetch_admit_Ok [OF a]
  have ok: "bundles_ok c1" using P(1) assms(4) by (simp add: same_contents_def bundles_ok_def)
  note E = evict_idle_laws [OF e ok]
  show shrunk: "shrunk c c'" using shrunk_evict [OF assms(4) P(1) _ e] by (simp add: P(3))
  show "borrows c' d = borrows c d + count_list (fp_borrowed plan) d" using E by (simp add: P(3))
  show "sized plan" and "set (fp_borrowed plan) \<union> set (fetch_digests (fp_missing plan)) = set order"
    using P(2,4) by blast+
  show "fr_bytes r = fp_bytes plan" and "fr_entries r = length (fp_missing plan)"
    and "fl_bytes fl' = fl_bytes fl + fr_bytes r" and "fl_entries fl' = fl_entries fl + fr_entries r" and "fl_bytes fl' \<le> fm"
    using F by simp_all
  show "bc_bundle_bytes c' + fl_bytes fl' \<le> bc_max_bundle_bytes c"
    using F(2,4) shrunk by (simp add: shrunk_def same_bounds_def)
  show "card (dom (contents c')) + fl_entries fl' \<le> MAX_CACHED_BUNDLES" using F(2,5) by (simp add: dom_contents)
qed

subsection \<open>What validation established\<close>

abbreviation digests_of :: "prepare_request \<Rightarrow> string set" where
  "digests_of q \<equiv> set (concat (map pb_bundle_digests (pq_bindings q)))"

lemma merge_validations_Ok:
  assumes "merge_validations V vs m = Ok required"
  shows "\<exists>bs. vs = map Inr bs \<and> dom required = dom m \<union> vb_digest ` set bs"
  using assms
proof (induction vs arbitrary: m)
  case (Cons v vs)
  from Cons.prems obtain b where v: "v = Ok b" and r: "merge_validations V vs (m(vb_digest b \<mapsto> b)) = Ok required"
    by (auto simp: result_iffs merge_validated_prepared_bundle_def)
  from Cons.IH [OF r] obtain bs where "vs = map Inr bs" "dom required = dom (m(vb_digest b \<mapsto> b)) \<union> vb_digest ` set bs" by blast
  then show ?case using v by (intro exI [of _ "b # bs"]) auto
qed simp

lemma projection_digests:
  "validate_prepared_binding_projection V p b r s = Ok v \<Longrightarrow> pb_bundle_digests p = [vb_digest v]"
  by (auto simp: validate_prepared_binding_projection_def result_iffs)

lemma supply_fetches_Ok:
  assumes "supply_fetches V required fs m = Ok supplied" and "\<forall>d f. m d = Some f \<longrightarrow> bf_bundle_digest f = d"
  shows "\<forall>d f. supplied d = Some f \<longrightarrow> bf_bundle_digest f = d"
  using assms
proof (induction fs arbitrary: m)
  case (Cons a fs)
  have "supply_fetches V required fs (m(bf_bundle_digest a \<mapsto> a)) = Ok supplied"
    using Cons.prems(1) by (auto simp: result_iffs)
  moreover have "\<forall>d f. (m(bf_bundle_digest a \<mapsto> a)) d = Some f \<longrightarrow> bf_bundle_digest f = d" using Cons.prems(2) by auto
  ultimately show ?case by (rule Cons.IH)
qed simp

lemma validated_digests:
  assumes "validate_prepared_bindings V lookup q arrived = Ok required" and "set arrived = set (pq_bindings q)"
  shows "dom required = digests_of q" and "\<forall>p\<in>set (pq_bindings q). length (pb_bundle_digests p) = 1"
proof -
  let ?v = "\<lambda>p. and_then (lookup (pb_binding_ref p)) (\<lambda>b.
    validate_prepared_binding_projection V p b (pq_root_id q) (pq_session_id q))"
  have m: "merge_validations V (map ?v arrived) Map.empty = Ok required"
    using assms(1) by (auto simp: validate_prepared_bindings_def result_iffs)
  obtain bs where bs: "map ?v arrived = map Inr bs" and dom: "dom required = vb_digest ` set bs"
    using merge_validations_Ok [OF m] by auto
  have pair: "i < length arrived \<Longrightarrow> pb_bundle_digests (arrived ! i) = [vb_digest (bs ! i)]" for i
    using arg_cong [OF bs, of "\<lambda>xs. xs ! i"] map_eq_imp_length_eq [OF bs] projection_digests by (auto simp: result_iffs)
  then have "map pb_bundle_digests arrived = map (\<lambda>b. [vb_digest b]) bs"
    using map_eq_imp_length_eq [OF bs] by (simp add: list_eq_iff_nth_eq)
  then have img: "pb_bundle_digests ` set (pq_bindings q) = (\<lambda>b. [vb_digest b]) ` set bs"
    by (metis assms(2) list.set_map)
  show "\<forall>p\<in>set (pq_bindings q). length (pb_bundle_digests p) = 1"
  proof
    fix p
    assume "p \<in> set (pq_bindings q)"
    then have "pb_bundle_digests p \<in> (\<lambda>b. [vb_digest b]) ` set bs" unfolding img [symmetric] by simp
    then show "length (pb_bundle_digests p) = 1" by auto
  qed
  have "digests_of q = (\<Union>ds\<in>pb_bundle_digests ` set (pq_bindings q). set ds)" by auto
  then show "dom required = digests_of q" unfolding img dom by auto
qed

lemma add_digests_succeeds:
  assumes "length ds + length acc \<le> MAX_PREPARED_BUNDLES V"
  shows "\<exists>required. add_digests V ds acc = Ok required"
  using assms
proof (induction ds arbitrary: acc)
  case (Cons d ds)
  have "length (List.insert d acc) \<le> Suc (length acc)" by (simp add: List.insert_def)
  then show ?case using Cons by (simp add: Let_def)
qed simp

lemma total_of_const: "(\<forall>x\<in>set xs. f x = 1) \<Longrightarrow> total_of f xs = length xs"
  by (induction xs) simp_all

definition bounded :: "aws \<Rightarrow> prepare_request \<Rightarrow> bool" where
  "bounded V q \<longleftrightarrow> (\<exists>ds. required_bundle_digests V (cacheable_preparation q) = Ok ds)"

lemma validated_request:
  assumes "validate_prepare_request V img version lookup q arrived = Ok (required, supplied)"
    and "set arrived = set (pq_bindings q)"
  shows "dom required = digests_of q" and "\<forall>d f. supplied d = Some f \<longrightarrow> bf_bundle_digest f = d" and "bounded V q"
proof -
  have v: "validate_prepared_bindings V lookup q arrived = Ok required"
    and sf: "supply_fetches V required (pq_bundles q) Map.empty = Ok supplied"
    and b: "length (pq_bindings q) \<le> MAX_PREPARED_BUNDLES V"
    using assms(1) by (auto simp: validate_prepare_request_def result_iffs)
  note D = validated_digests [OF v assms(2)]
  show "dom required = digests_of q" by (rule D(1))
  show "\<forall>d f. supplied d = Some f \<longrightarrow> bf_bundle_digest f = d" using supply_fetches_Ok [OF sf] by simp
  have "length (concat (map pb_bundle_digests (pq_bindings q))) = length (pq_bindings q)"
    using total_of_const [OF D(2)] by (simp add: length_concat comp_def)
  then show "bounded V q"
    using add_digests_succeeds [of "concat (map pb_bundle_digests (pq_bindings q))" "[]" V] b
    by (simp add: bounded_def required_bundle_digests_def cacheable_preparation_def)
qed

lemma bounded_digests:
  assumes "bounded V q"
  obtains ds where "required_bundle_digests V (cacheable_preparation q) = Ok ds" and "set ds = digests_of q"
  using assms required_Ok(2) unfolding bounded_def by (force simp: cacheable_preparation_def)

lemma account_map_of:
  assumes "distinct (map fst xs)"
  shows "account length (map_of xs) = total_of (\<lambda>x. length (snd x)) xs"
  using assms
proof (induction xs)
  case (Cons x xs)
  have "map_of xs (fst x) = None" using Cons.prems by (simp add: map_of_eq_None_iff)
  from account_new [OF finite_dom_map_of this, of length "snd x"] show ?case
    using Cons by (cases x) (simp add: fun_upd_def)
qed simp

text \<open>The bytes of admitted fetches fit their reservation and have the digests they are stored under.\<close>

definition true_digests :: "aws \<Rightarrow> (string \<rightharpoonup> bytes) \<Rightarrow> bool" where
  "true_digests V m \<longleftrightarrow> (\<forall>d x. m d = Some x \<longrightarrow> sha256_hex (aw_brain V) x = d)"

lemma fetched_laws:
  assumes "sized plan" and "m = map_of (map (\<lambda>f. (bf_bundle_digest f, content f)) (fp_missing plan))"
    and "\<And>f. f \<in> set (fp_missing plan) \<Longrightarrow> fetched_ok V required f (content f)"
  shows "finite (dom m)" and "dom m = set (fetch_digests (fp_missing plan))" and "account length m \<le> fp_bytes plan"
    and "card (dom m) \<le> length (fp_missing plan)" and "true_digests V m"
proof -
  show "finite (dom m)" by (simp add: assms(2) finite_dom_map_of)
  show dom: "dom m = set (fetch_digests (fp_missing plan))" by (force simp: assms(2) dom_map_of_conv_image_fst)
  have "account length m = total_of (\<lambda>f. length (content f)) (fp_missing plan)"
    using account_map_of [of "map (\<lambda>f. (bf_bundle_digest f, content f)) (fp_missing plan)"] assms(1)
    by (simp add: assms(2) sized_def comp_def)
  also have "\<dots> \<le> fp_bytes plan"
    using assms(1,3) by (auto simp: sized_def fetched_ok_def intro!: sum_list_mono)
  finally show "account length m \<le> fp_bytes plan" .
  show "card (dom m) \<le> length (fp_missing plan)" unfolding dom using card_length [of "fetch_digests (fp_missing plan)"] by simp
  show "true_digests V m"
    using assms(3) by (auto simp: true_digests_def assms(2) fetched_ok_def dest!: map_of_SomeD)
qed

subsection \<open>The invariant\<close>

fun worker_ok :: "aws \<Rightarrow> worker \<Rightarrow> bool" where
  "worker_ok V (Validated q pd required supplied) \<longleftrightarrow>
     bounded V q \<and> dom required = digests_of q \<and> (\<forall>d f. supplied d = Some f \<longrightarrow> bf_bundle_digest f = d)"
| "worker_ok V (Fetching q pd required plan r) \<longleftrightarrow>
     bounded V q \<and> sized plan \<and> set (fp_borrowed plan) \<union> set (fetch_digests (fp_missing plan)) = digests_of q
     \<and> fr_bytes r = fp_bytes plan \<and> fr_entries r = length (fp_missing plan)"
| "worker_ok V (Fetched q pd fetched borrowed r) \<longleftrightarrow>
     bounded V q \<and> finite (dom fetched) \<and> set borrowed \<union> dom fetched = digests_of q \<and> true_digests V fetched
     \<and> account length fetched \<le> fr_bytes r \<and> card (dom fetched) \<le> fr_entries r"
| "worker_ok V (Settling res borrowed r) \<longleftrightarrow> True"
| "worker_ok V (Posting d) \<longleftrightarrow> True"

abbreviation held :: "worker \<Rightarrow> fetch_reservation" where
  "held w \<equiv> snd (guards w)"

abbreviation holds :: "string \<Rightarrow> worker \<Rightarrow> nat" where
  "holds d w \<equiv> count_list (fst (guards w)) d"

text \<open>What a worker may still add to the cache.\<close>

fun owed :: "worker \<Rightarrow> fetch_reservation" where
  "owed (Fetching q pd required plan r) = r"
| "owed (Fetched q pd fetched borrowed r) = r"
| "owed w = \<lparr>fr_bytes = 0, fr_entries = 0\<rparr>"

lemma owed_le: "fr_bytes (owed w) \<le> fr_bytes (held w)" "fr_entries (owed w) \<le> fr_entries (held w)"
  by (cases w; simp)+

definition plane_ok :: "aws \<Rightarrow> prepare_plane \<Rightarrow> bool" where
  "plane_ok V s \<longleftrightarrow>
     store_ok (pc_store (pl_cache s)) \<and> bundles_ok (pl_bundles s) \<and> true_digests V (contents (pl_bundles s))
     \<and> bc_max_bundles (pl_bundles s) = MAX_CACHED_BUNDLES
     \<and> (\<forall>d. borrows (pl_bundles s) d = total_of (holds d) (pl_workers s))
     \<and> fl_bytes (pl_in_flight s) = total_of (\<lambda>w. fr_bytes (held w)) (pl_workers s)
     \<and> fl_entries (pl_in_flight s) = total_of (\<lambda>w. fr_entries (held w)) (pl_workers s)
     \<and> fl_bytes (pl_in_flight s) \<le> pl_fetch_max s
     \<and> bc_bundle_bytes (pl_bundles s) + total_of (\<lambda>w. fr_bytes (owed w)) (pl_workers s) \<le> bc_max_bundle_bytes (pl_bundles s)
     \<and> card (dom (contents (pl_bundles s))) + total_of (\<lambda>w. fr_entries (owed w)) (pl_workers s) \<le> MAX_CACHED_BUNDLES
     \<and> (\<forall>w\<in>set (pl_workers s). worker_ok V w)"

lemma plane_okD:
  assumes "plane_ok V s"
  shows "store_ok (pc_store (pl_cache s))" "bundles_ok (pl_bundles s)" "true_digests V (contents (pl_bundles s))"
    "bc_max_bundles (pl_bundles s) = MAX_CACHED_BUNDLES" "borrows (pl_bundles s) d = total_of (holds d) (pl_workers s)"
    "fl_bytes (pl_in_flight s) = total_of (\<lambda>w. fr_bytes (held w)) (pl_workers s)"
    "fl_entries (pl_in_flight s) = total_of (\<lambda>w. fr_entries (held w)) (pl_workers s)"
    "fl_bytes (pl_in_flight s) \<le> pl_fetch_max s"
    "bc_bundle_bytes (pl_bundles s) + total_of (\<lambda>w. fr_bytes (owed w)) (pl_workers s) \<le> bc_max_bundle_bytes (pl_bundles s)"
    "card (dom (contents (pl_bundles s))) + total_of (\<lambda>w. fr_entries (owed w)) (pl_workers s) \<le> MAX_CACHED_BUNDLES"
    "w \<in> set (pl_workers s) \<Longrightarrow> worker_ok V w"
  using assms unfolding plane_ok_def by blast+

lemma with_plane_ok: "plane_ok V (with_plane cache_max fetch_max)"
  by (simp add: plane_ok_def with_plane_def with_limit_def with_limits_def store_ok_def bundles_ok_def true_digests_def
      indexed_def sessions_of_def sessions.accounted_def contents_def [abs_def] borrows_def MAX_CACHED_PREPARATIONS_def account_def)

text \<open>Steps that change one worker, or none, and the store or the bundles.\<close>

lemma plane_ok_store: "plane_ok V s \<Longrightarrow> store_ok st \<Longrightarrow> plane_ok V (s\<lparr>pl_cache := (pl_cache s)\<lparr>pc_store := st\<rparr>\<rparr>)"
  by (simp add: plane_ok_def)

lemma plane_ok_add:
  assumes "plane_ok V s" and "worker_ok V w" and "held w = \<lparr>fr_bytes = 0, fr_entries = 0\<rparr>"
    and "same_contents (pl_bundles s) c" and "\<And>d. borrows c d = borrows (pl_bundles s) d + holds d w"
  shows "plane_ok V (s\<lparr>pl_cache := (pl_cache s)\<lparr>pc_bundles := c\<rparr>, pl_workers := pl_workers s @ [w]\<rparr>)"
  using assms owed_le [of w] by (auto simp: plane_ok_def same_contents_def same_bounds_def bundles_ok_def)

lemma true_digests_le: "true_digests V m \<Longrightarrow> m' \<subseteq>\<^sub>m m \<Longrightarrow> true_digests V m'"
  by (auto simp: true_digests_def map_le_def dom_def)

text \<open>One worker is replaced by \<open>new\<close>, which is one worker or none.\<close>

lemma plane_ok_exchange:
  assumes s: "plane_ok V s" and n: "n < length (pl_workers s)"
    and ws: "\<And>f. total_of f ws = total_of f new + total_of f (without n (pl_workers s))"
      "set ws = set new \<union> set (without n (pl_workers s))" "\<And>w. w \<in> set new \<Longrightarrow> worker_ok V w"
    and c: "store_ok (pc_store pc)" "bundles_ok (pc_bundles pc)" "true_digests V (contents (pc_bundles pc))"
      "same_bounds (pl_bundles s) (pc_bundles pc)"
    and b: "\<And>d. borrows (pc_bundles pc) d + holds d (pl_workers s ! n) = borrows (pl_bundles s) d + total_of (holds d) new"
    and fl: "fl_bytes fl + fr_bytes (held (pl_workers s ! n)) = fl_bytes (pl_in_flight s) + total_of (\<lambda>w. fr_bytes (held w)) new"
      "fl_entries fl + fr_entries (held (pl_workers s ! n)) = fl_entries (pl_in_flight s) + total_of (\<lambda>w. fr_entries (held w)) new"
      "fl_bytes fl \<le> pl_fetch_max s"
    and room: "bc_bundle_bytes (pc_bundles pc) + total_of (\<lambda>w. fr_bytes (owed w)) new
        + total_of (\<lambda>w. fr_bytes (owed w)) (without n (pl_workers s)) \<le> bc_max_bundle_bytes (pl_bundles s)"
      "card (dom (contents (pc_bundles pc))) + total_of (\<lambda>w. fr_entries (owed w)) new
        + total_of (\<lambda>w. fr_entries (owed w)) (without n (pl_workers s)) \<le> MAX_CACHED_BUNDLES"
  shows "plane_ok V (s\<lparr>pl_cache := pc, pl_in_flight := fl, pl_workers := ws\<rparr>)"
proof -
  note D = plane_okD [OF s] and T = total_of_split [OF n]
  have "borrows (pc_bundles pc) d = total_of (holds d) ws" for d
    using b [of d] D(5) [of d] T [of "holds d"] unfolding ws(1) by linarith
  moreover have "fl_bytes fl = total_of (\<lambda>w. fr_bytes (held w)) ws"
    using fl(1) D(6) T [of "\<lambda>w. fr_bytes (held w)"] unfolding ws(1) by linarith
  moreover have "fl_entries fl = total_of (\<lambda>w. fr_entries (held w)) ws"
    using fl(2) D(7) T [of "\<lambda>w. fr_entries (held w)"] unfolding ws(1) by linarith
  moreover have "\<forall>w\<in>set ws. worker_ok V w"
    unfolding ws(2) using ws(3) D(11) subsetD [OF set_without [of n "pl_workers s"]] by (meson UnE)
  moreover have "bc_bundle_bytes (pc_bundles pc) + total_of (\<lambda>w. fr_bytes (owed w)) ws \<le> bc_max_bundle_bytes (pc_bundles pc)"
    using room(1) c(4) unfolding ws(1) same_bounds_def by linarith
  moreover have "card (dom (contents (pc_bundles pc))) + total_of (\<lambda>w. fr_entries (owed w)) ws \<le> MAX_CACHED_BUNDLES"
    using room(2) unfolding ws(1) by linarith
  ultimately show ?thesis using c fl(3) D(4) by (simp add: plane_ok_def same_bounds_def)
qed

lemma owed_held:
  "total_of (\<lambda>w. fr_bytes (owed w)) ws \<le> total_of (\<lambda>w. fr_bytes (held w)) ws"
  "total_of (\<lambda>w. fr_entries (owed w)) ws \<le> total_of (\<lambda>w. fr_entries (held w)) ws"
  using owed_le by (intro sum_list_mono; blast)+

lemma exchange_update:
  assumes "n < length ws"
  shows "\<And>f. total_of f (ws[n := w]) = total_of f [w] + total_of f (without n ws)"
    and "set (ws[n := w]) = set [w] \<union> set (without n ws)"
  using total_of_update [OF assms] set_update_without [OF assms] by simp_all

lemma plane_ok_admit:
  assumes s: "plane_ok V s" and n: "n < length (pl_workers s)" "pl_workers s ! n = Validated q pd required supplied"
    and a: "distinct order" "set order = dom required"
      "admit_fetches V now (pl_fetch_max s) required supplied order bundle_order (pl_bundles s) (pl_in_flight s)
        = (Ok (plan, r), c, fl)"
  shows "plane_ok V (s\<lparr>pl_cache := (pl_cache s)\<lparr>pc_bundles := c\<rparr>, pl_in_flight := fl,
      pl_workers := (pl_workers s)[n := Fetching q pd required plan r]\<rparr>)"
proof -
  note D = plane_okD [OF s] and T = total_of_split [OF n(1)]
  have w: "worker_ok V (Validated q pd required supplied)" using D(11) n by (metis nth_mem)
  then have sup: "\<And>d f. supplied d = Some f \<Longrightarrow> bf_bundle_digest f = d" by simp
  note A = admit_fetches_Ok [OF a(3,1) this D(2)]
  note le = owed_held [of "without n (pl_workers s)"]
  have shrunk: "bundles_ok c" "same_bounds (pl_bundles s) c" "contents c \<subseteq>\<^sub>m contents (pl_bundles s)"
    using A(1) by (simp_all add: shrunk_def)
  show ?thesis
  proof (rule plane_ok_exchange [OF s n(1) exchange_update [OF n(1)]], goal_cases)
    case 1
    then show ?case using w A(3-6) a(2) by auto
  next
    case 10
    then show ?case using A(5,7,10) D(6) T [of "\<lambda>w. fr_bytes (held w)"] le(1) n(2) by simp
  next
    case 11
    then show ?case using A(6,8,11) D(7) T [of "\<lambda>w. fr_entries (held w)"] le(2) n(2) by simp
  qed (use D shrunk A(2,7-9) true_digests_le n(2) in \<open>auto\<close>)
qed

lemma exchange_remove:
  shows "\<And>f. total_of f (without n ws) = total_of f [] + total_of f (without n ws)"
    and "set (without n ws) = set [] \<union> set (without n ws)"
  by simp_all

lemma plane_ok_refuse:
  assumes s: "plane_ok V s" and n: "n < length (pl_workers s)" "pl_workers s ! n = Validated q pd required supplied"
    and a: "distinct order"
      "admit_fetches V now (pl_fetch_max s) required supplied order bundle_order (pl_bundles s) (pl_in_flight s) = (Err e, c, fl)"
  shows "plane_ok V (s\<lparr>pl_cache := (pl_cache s)\<lparr>pc_bundles := c\<rparr>, pl_in_flight := fl, pl_workers := without n (pl_workers s)\<rparr>)"
proof -
  note D = plane_okD [OF s] and T = total_of_split [OF n(1)]
  have "worker_ok V (Validated q pd required supplied)" using D(11) n by (metis nth_mem)
  then have "\<And>d f. supplied d = Some f \<Longrightarrow> bf_bundle_digest f = d" by simp
  note A = admit_fetches_Err [OF a(2,1) this D(2)]
  have shrunk: "bundles_ok c" "same_bounds (pl_bundles s) c" "contents c \<subseteq>\<^sub>m contents (pl_bundles s)"
      "bc_bundle_bytes c \<le> bc_bundle_bytes (pl_bundles s)" "card (dom (contents c)) \<le> card (dom (contents (pl_bundles s)))"
    using A(2) by (simp_all add: shrunk_def)
  show ?thesis
  proof (rule plane_ok_exchange [OF s n(1) exchange_remove], goal_cases)
    case 10
    then show ?case using D(9) T [of "\<lambda>w. fr_bytes (owed w)"] shrunk(4) by simp
  next
    case 11
    then show ?case using D(10) T [of "\<lambda>w. fr_entries (owed w)"] shrunk(5) by simp
  qed (use D(1,3,8) shrunk A(1,3) true_digests_le n(2) in \<open>auto\<close>)
qed

lemma plane_ok_release:
  assumes s: "plane_ok V s" and n: "n < length (pl_workers s)"
  shows "plane_ok V (release n s)"
proof -
  note D = plane_okD [OF s] and T = total_of_split [OF n]
  obtain ds r where g: "guards (pl_workers s ! n) = (ds, r)" by (rule prod.exhaust)
  note R = return_all_laws [of "pl_bundles s" ds]
  have c: "bundles_ok (return_all ds (pl_bundles s))" "same_bounds (pl_bundles s) (return_all ds (pl_bundles s))"
      "contents (return_all ds (pl_bundles s)) = contents (pl_bundles s)"
      "bc_bundle_bytes (return_all ds (pl_bundles s)) = bc_bundle_bytes (pl_bundles s)"
    using R D(2) by (simp_all add: same_contents_def bundles_ok_def)
  have le: "count_list ds d \<le> borrows (pl_bundles s) d" "fr_bytes r \<le> fl_bytes (pl_in_flight s)"
      "fr_entries r \<le> fl_entries (pl_in_flight s)" for d
    using D(5) [of d] D(6,7) T [of "holds d"] T [of "\<lambda>w. fr_bytes (held w)"] T [of "\<lambda>w. fr_entries (held w)"] g by simp_all
  have "plane_ok V (s\<lparr>pl_cache := (pl_cache s)\<lparr>pc_bundles := return_all ds (pl_bundles s)\<rparr>,
      pl_in_flight := fetch_release (pl_in_flight s) r, pl_workers := without n (pl_workers s)\<rparr>)"
  proof (rule plane_ok_exchange [OF s n exchange_remove], goal_cases)
    case 10
    then show ?case using D(9) T [of "\<lambda>w. fr_bytes (owed w)"] c(4) by simp
  next
    case 11
    then show ?case using D(10) T [of "\<lambda>w. fr_entries (owed w)"] c(3) by simp
  qed (use D(1,3,8) c R le g in \<open>auto simp: fetch_release_def saturating_sub_def\<close>)
  then show ?thesis by (simp add: release_def g)
qed

lemma plane_ok_fetch:
  assumes s: "plane_ok V s" and n: "n < length (pl_workers s)" "pl_workers s ! n = Fetching q pd required plan r"
    and f: "m = map_of (map (\<lambda>f. (bf_bundle_digest f, content f)) (fp_missing plan))"
      "\<And>f. f \<in> set (fp_missing plan) \<Longrightarrow> fetched_ok V required f (content f)"
  shows "plane_ok V (s\<lparr>pl_workers := (pl_workers s)[n := Fetched q pd m (fp_borrowed plan) r]\<rparr>)"
proof -
  note D = plane_okD [OF s] and T = total_of_split [OF n(1)]
  have w: "worker_ok V (Fetching q pd required plan r)" using D(11) n by (metis nth_mem)
  then have "sized plan" by simp
  note F = fetched_laws [OF this f]
  have "worker_ok V (Fetched q pd m (fp_borrowed plan) r)" using w F by simp
  then have "plane_ok V (s\<lparr>pl_cache := pl_cache s, pl_in_flight := pl_in_flight s,
      pl_workers := (pl_workers s)[n := Fetched q pd m (fp_borrowed plan) r]\<rparr>)"
    using D T [of "\<lambda>w. fr_bytes (owed w)"] T [of "\<lambda>w. fr_entries (owed w)"] n(2)
    by (intro plane_ok_exchange [OF s n(1) exchange_update [OF n(1)]]) simp_all
  then show ?thesis by simp
qed

lemma plane_ok_install:
  assumes s: "plane_ok V s" and n: "n < length (pl_workers s)" "pl_workers s ! n = Fetched q pd m borrowed r"
    and i: "cache_install V (pl_cache s) q' pd m session_order bundle_order = (res, pc)"
  shows "plane_ok V (s\<lparr>pl_cache := pc, pl_workers := (pl_workers s)[n := Settling res borrowed r]\<rparr>)"
proof -
  note D = plane_okD [OF s] and T = total_of_split [OF n(1)]
  have "worker_ok V (Fetched q pd m borrowed r)" using D(11) n by (metis nth_mem)
  then have w: "finite (dom m)" "true_digests V m" "account length m \<le> fr_bytes r" "card (dom m) \<le> fr_entries r" by simp_all
  have lim: "bc_bundle_bytes (pl_bundles s) \<le> bc_max_bundle_bytes (pl_bundles s)"
      "card (dom (contents (pl_bundles s))) \<le> bc_max_bundles (pl_bundles s)" using D(4,9,10) by simp_all
  note I = cache_install_laws [OF i D(1,2) w(1) lim]
  have K: "bundles_ok (pc_bundles pc)" "same_bounds (pl_bundles s) (pc_bundles pc)" "borrows (pc_bundles pc) = borrows (pl_bundles s)"
    using I by (simp_all add: kept_bundles_def)
  have true: "true_digests V (contents (pc_bundles pc))" using I w(2) D(3) unfolding true_digests_def by metis
  have "plane_ok V (s\<lparr>pl_cache := pc, pl_in_flight := pl_in_flight s, pl_workers := (pl_workers s)[n := Settling res borrowed r]\<rparr>)"
  proof (rule plane_ok_exchange [OF s n(1) exchange_update [OF n(1)]], goal_cases)
    case 10
    then show ?case using I D(9) T [of "\<lambda>w. fr_bytes (owed w)"] w(3) n(2) by simp
  next
    case 11
    then show ?case using I D(10) T [of "\<lambda>w. fr_entries (owed w)"] w(4) n(2) by simp
  qed (use I D(8) K true n(2) in simp_all)
  then show ?thesis by simp
qed

lemma consume_ok: "store_ok st \<Longrightarrow> store_ok (consume_secret_capability st sid cref)"
proof (cases "ps_sessions st sid")
  case None
  assume "store_ok st"
  with None show ?thesis by (simp add: consume_secret_capability_def)
next
  case (Some p)
  assume ok: "store_ok st"
  let ?p = "p\<lparr>pr_request := (pr_request p)\<lparr>pq_secret_capability := None\<rparr>\<rparr>"
  have same: "sessions_of ((ps_sessions st)(sid \<mapsto> ?p)) root = sessions_of (ps_sessions st) root" for root
    using Some by (auto simp: sessions_of_def)
  have "account pr_metadata_bytes ((ps_sessions st)(sid \<mapsto> ?p)) = account pr_metadata_bytes (ps_sessions st)"
    using account_upd [OF store_okD(3) [OF ok] Some, of pr_metadata_bytes ?p] by simp
  then show ?thesis
    using ok Some same card_dom_upd [of "ps_sessions st" sid p]
    by (auto simp: consume_secret_capability_def store_ok_def indexed_def sessions.accounted_def)
qed

lemma step_plane_ok:
  assumes "prepare_step V s s'" and "plane_ok V s"
  shows "plane_ok V s'"
  using assms(1)
proof cases
  case (start img version lookup q arrived required supplied pd)
  have "plane_ok V (s\<lparr>pl_cache := (pl_cache s)\<lparr>pc_bundles := pl_bundles s\<rparr>,
      pl_workers := pl_workers s @ [Validated q pd required supplied]\<rparr>)"
    using validated_request [OF start(2,3)] by (intro plane_ok_add [OF assms(2)]) simp_all
  then show ?thesis using start(1) by simp
next
  case admit
  then show ?thesis using plane_ok_admit [OF assms(2)] by blast
next
  case refuse
  then show ?thesis using plane_ok_refuse [OF assms(2)] by blast
next
  case fetch
  then show ?thesis using plane_ok_fetch [OF assms(2)] by blast
next
  case install
  then show ?thesis using plane_ok_install [OF assms(2)] by blast
next
  case leave
  then show ?thesis using plane_ok_release [OF assms(2)] by blast
next
  case (post d content c)
  note G = get_laws [OF post(2)]
  have "contents (pl_bundles s) d \<noteq> None" unfolding G(2) [symmetric] by simp
  then show ?thesis unfolding post(1) using G by (intro plane_ok_add [OF assms(2)]) auto
next
  case (look session_id p st)
  then show ?thesis
    using plane_ok_store [OF assms(2)] store_get_ok [OF plane_okD(1) [OF assms(2)], of session_id] by simp
next
  case (purge root_id limit order done_all st)
  then show ?thesis using plane_ok_store [OF assms(2)] purge_ok [OF plane_okD(1) [OF assms(2)]] by blast
next
  case consume
  then show ?thesis using plane_ok_store [OF assms(2)] consume_ok [OF plane_okD(1) [OF assms(2)]] by blast
qed

lemma run_plane_ok: "(prepare_step V)\<^sup>*\<^sup>* s s' \<Longrightarrow> plane_ok V s \<Longrightarrow> plane_ok V s'"
  by (induction rule: rtranclp_induct) (auto intro: step_plane_ok)

subsection \<open>The limits never change\<close>

definition limits :: "prepare_plane \<Rightarrow> nat \<times> nat \<times> nat \<times> nat" where
  "limits s = (bc_max_bundle_bytes (pl_bundles s), ps_max_preparation_bytes (pc_store (pl_cache s)),
     ps_max_preparations (pc_store (pl_cache s)), pl_fetch_max s)"

lemma fold_drop_limits: "same_limits st (fold (\<lambda>s st. drop_session st s) ss st)"
proof (induction ss arbitrary: st)
  case (Cons a ss)
  have "same_limits st (drop_session st a)" by (simp add: same_limits_def)
  then show ?case using Cons.IH same_limits_trans by fastforce
qed (simp add: same_limits_def)

lemma purge_limits:
  assumes "purge_root_page st root limit order = (b, st')"
  shows "same_limits st st'"
  using assms fold_drop_limits [of st] by (auto simp: purge_root_page_def Let_def same_limits_def)

lemma step_limits:
  assumes "prepare_step V s s'" and "plane_ok V s"
  shows "limits s' = limits s"
  using assms(1)
proof cases
  case (admit n q pd required supplied order now bundle_order plan r c fl)
  have "worker_ok V (Validated q pd required supplied)" using plane_okD(11) [OF assms(2)] admit by (metis nth_mem)
  then have "shrunk (pl_bundles s) c" using admit_fetches_Ok(1) [OF admit(6,4) _ plane_okD(2) [OF assms(2)]] by simp
  then show ?thesis using admit(1) by (simp add: limits_def shrunk_def same_bounds_def)
next
  case (refuse n q pd required supplied order now bundle_order e c fl)
  have "worker_ok V (Validated q pd required supplied)" using plane_okD(11) [OF assms(2)] refuse by (metis nth_mem)
  then have "shrunk (pl_bundles s) c" using admit_fetches_Err(2) [OF refuse(6,4) _ plane_okD(2) [OF assms(2)]] by simp
  then show ?thesis using refuse(1) by (simp add: limits_def shrunk_def same_bounds_def)
next
  case (install n q pd fetched borrowed r session_order bundle_order res pc)
  have "worker_ok V (Fetched q pd fetched borrowed r)" using plane_okD(11) [OF assms(2)] install by (metis nth_mem)
  then have "same_limits (pc_store (pl_cache s)) (pc_store pc) \<and> kept_bundles (pl_bundles s) (pc_bundles pc)"
    using cache_install_laws [OF install(5) plane_okD(1,2) [OF assms(2)]] plane_okD(4,9,10) [OF assms(2)] assms(2) by simp
  then show ?thesis using install(1) by (simp add: limits_def kept_bundles_def same_limits_def same_bounds_def)
next
  case (leave n)
  then show ?thesis
    using return_all_laws [of "pl_bundles s" "fst (guards (pl_workers s ! n))"]
    by (simp add: limits_def release_def same_contents_def same_bounds_def split_beta)
next
  case (post d content c)
  then show ?thesis using get_laws(1) [OF post(2)] by (simp add: limits_def same_contents_def same_bounds_def)
next
  case (look session_id p st)
  then show ?thesis by (auto simp: limits_def store_get_def Let_def next_access_def split: option.splits)
next
  case (purge root_id limit order done_all st)
  then show ?thesis using purge_limits [OF purge(2)] by (simp add: limits_def same_limits_def)
next
  case consume
  then show ?thesis by (auto simp: limits_def consume_secret_capability_def split: option.splits)
qed (simp_all add: limits_def)

lemma run_limits: "(prepare_step V)\<^sup>*\<^sup>* s s' \<Longrightarrow> plane_ok V s \<Longrightarrow> limits s' = limits s"
  by (induction rule: rtranclp_induct) (auto simp: step_limits run_plane_ok)

lemma reached:
  assumes "(prepare_step V)\<^sup>*\<^sup>* (with_plane cache_max fetch_max) s"
  shows "plane_ok V s" and "bc_max_bundle_bytes (pl_bundles s) = cache_max" and "pl_fetch_max s = fetch_max"
    and "ps_max_preparation_bytes (pc_store (pl_cache s)) = MAX_CACHED_PREPARATION_BYTES"
    and "ps_max_preparations (pc_store (pl_cache s)) = MAX_CACHED_PREPARATIONS"
  using run_plane_ok [OF assms with_plane_ok] run_limits [OF assms with_plane_ok]
  by (simp_all add: limits_def with_plane_def with_limit_def with_limits_def)

subsection \<open>Borrowed bundles, and installations after admission\<close>

lemma step_borrowed:
  assumes "prepare_step V s s'" and "plane_ok V s" and "0 < borrows (pl_bundles s) d"
  shows "contents (pl_bundles s') d = contents (pl_bundles s) d"
  using assms(1)
proof cases
  case (admit n q pd required supplied order now bundle_order plan r c fl)
  have "worker_ok V (Validated q pd required supplied)" using plane_okD(11) [OF assms(2)] admit by (metis nth_mem)
  then have "shrunk (pl_bundles s) c" using admit_fetches_Ok(1) [OF admit(6,4) _ plane_okD(2) [OF assms(2)]] by simp
  then show ?thesis using admit(1) assms(3) by (simp add: shrunk_def)
next
  case (refuse n q pd required supplied order now bundle_order e c fl)
  have "worker_ok V (Validated q pd required supplied)" using plane_okD(11) [OF assms(2)] refuse by (metis nth_mem)
  then have "shrunk (pl_bundles s) c" using admit_fetches_Err(2) [OF refuse(6,4) _ plane_okD(2) [OF assms(2)]] by simp
  then show ?thesis using refuse(1) assms(3) by (simp add: shrunk_def)
next
  case (install n q pd fetched borrowed r session_order bundle_order res pc)
  have "worker_ok V (Fetched q pd fetched borrowed r)" using plane_okD(11) [OF assms(2)] install by (metis nth_mem)
  then have "kept_bundles (pl_bundles s) (pc_bundles pc)"
    using cache_install_laws [OF install(5) plane_okD(1,2) [OF assms(2)]] plane_okD(4,9,10) [OF assms(2)] assms(2) by simp
  then show ?thesis using install(1) assms(3) by (simp add: kept_bundles_def)
next
  case (leave n)
  then show ?thesis
    using return_all_laws [of "pl_bundles s" "fst (guards (pl_workers s ! n))"]
    by (simp add: release_def same_contents_def split_beta)
next
  case (post d content c)
  then show ?thesis using get_laws(1) [OF post(2)] by (simp add: same_contents_def)
qed simp_all

lemma holds_total: "w \<in> set ws \<Longrightarrow> d \<in> set (fst (guards w)) \<Longrightarrow> 0 < total_of (holds d) ws"
  by (induction ws) (auto simp: count_list_0_iff intro: gr0I)

lemma borrower_keeps:
  assumes "prepare_step V s s'" and "plane_ok V s" and "w \<in> set (pl_workers s)" and "d \<in> set (fst (guards w))"
  shows "\<exists>x. contents (pl_bundles s) d = Some x \<and> contents (pl_bundles s') d = Some x \<and> sha256_hex (aw_brain V) x = d"
proof -
  have b: "0 < borrows (pl_bundles s) d" using holds_total [OF assms(3,4)] plane_okD(5) [OF assms(2)] by simp
  then obtain x where "contents (pl_bundles s) d = Some x" using borrowed_present by blast
  then show ?thesis
    using step_borrowed [OF assms(1,2) b] plane_okD(3) [OF assms(2)] by (auto simp: true_digests_def)
qed

lemma worker_room:
  assumes "plane_ok V s" and "n < length (pl_workers s)" and "pl_workers s ! n = Fetched q pd m borrowed r"
  shows "bc_bundle_bytes (pl_bundles s) + account length m \<le> bc_max_bundle_bytes (pl_bundles s)"
    and "card (dom (contents (pl_bundles s))) + card (dom m) \<le> bc_max_bundles (pl_bundles s)"
proof -
  note D = plane_okD [OF assms(1)] and T = total_of_split [OF assms(2)]
  have "worker_ok V (Fetched q pd m borrowed r)" using D(11) assms(2,3) by (metis nth_mem)
  then show "bc_bundle_bytes (pl_bundles s) + account length m \<le> bc_max_bundle_bytes (pl_bundles s)"
    and "card (dom (contents (pl_bundles s))) + card (dom m) \<le> bc_max_bundles (pl_bundles s)"
    using D(4,9,10) T [of "\<lambda>w. fr_bytes (owed w)"] T [of "\<lambda>w. fr_entries (owed w)"] assms(3) by simp_all
qed

lemma install_after_admission:
  assumes s: "plane_ok V s" and n: "n < length (pl_workers s)" "pl_workers s ! n = Fetched q pd m borrowed r"
    and st: "dom (ps_sessions (pc_store (pl_cache s))) \<subseteq> set session_order"
      "ps_max_preparation_bytes (pc_store (pl_cache s)) \<le> U64_MAX" "ps_max_preparations (pc_store (pl_cache s)) \<le> U64_MAX"
    and q: "no_conflict (pc_store (pl_cache s)) (cacheable_preparation q) pd"
      "metadata_size V (pc_store (pl_cache s)) (cacheable_preparation q) = Ok k"
    and max: "bc_max_bundle_bytes (pl_bundles s) \<le> U64_MAX"
  shows "\<exists>pc. cache_install V (pl_cache s) (cacheable_preparation q) pd m session_order bundle_order = (Ok (), pc)
    \<and> digests_of q \<subseteq> dom (contents (pc_bundles pc))"
proof -
  note D = plane_okD [OF s]
  have w: "worker_ok V (Fetched q pd m borrowed r)" using D(11) n by (metis nth_mem)
  then have b: "bounded V q" and fin: "finite (dom m)" and dig: "set borrowed \<union> dom m = digests_of q" by simp_all
  obtain ds where ds: "required_bundle_digests V (cacheable_preparation q) = Ok ds" "set ds = digests_of q"
    using bounded_digests [OF b] .
  have "contents (pl_bundles s) d \<noteq> None" if "d \<in> set borrowed" for d
    using holds_total [of "Fetched q pd m borrowed r" "pl_workers s" d] n D(5) that borrowed_present nth_mem [OF n(1)] by simp
  then have there: "\<forall>d\<in>set ds. contents (pl_bundles s) d \<noteq> None \<or> m d \<noteq> None"
    unfolding ds(2) dig [symmetric] by auto
  have "fst (cache_install V (pl_cache s) (cacheable_preparation q) pd m session_order bundle_order) = Ok ()"
    using D(4) max ds(2) dig worker_room [OF s n]
    by (intro cache_install_succeeds [OF D(1) st ds(1) _ q(1) there q(2) fin]) (auto simp: MAX_CACHED_BUNDLES_def U64_MAX_def)
  then obtain pc where pc: "cache_install V (pl_cache s) (cacheable_preparation q) pd m session_order bundle_order = (Ok (), pc)"
    by (metis prod.collapse)
  with installed_provides [OF pc D(2) fin ds(1)] ds(2) show ?thesis by auto
qed

end
