(* ===== verification/Prepare_Promises.thy ===== *)
theory Prepare_Promises
  imports Prepare_Laws Guest_Runs
begin

section \<open>What the preparation of sessions promises\<close>

text \<open>
  The limits of both caches and of the fetches in flight, the safety of borrowed bundles and the success
  of admitted preparations, for any interleaving of preparations from an empty plane. A run that fetches,
  installs and posts one bundle shows that their hypotheses can hold.
\<close>

subsection \<open>A run\<close>

definition small_aws :: aws where
  "small_aws =
     \<lparr>aw_brain = small_brain, MAX_MODEL_TOOLS = 2, MAX_MANAGED_TOOL_INPUT_BYTES = 8, input_is_inline = (\<lambda>_. True),
      jcs_input = (\<lambda>_. Some []), jcs_prepare = (\<lambda>_. Some ''q''), resources_digest = (\<lambda>_. Some digest_a),
      network_digest = (\<lambda>_. Some digest_b), descriptor_digest = (\<lambda>_. Some digest_c)\<rparr>"

lemma small_aws_simps [simp]:
  "aw_brain small_aws = small_brain" "MAX_PREPARED_BUNDLES small_aws = 2" "jcs_prepare small_aws q = Some ''q''"
  "resources_digest small_aws rc = Some digest_a" "network_digest small_aws nc = Some digest_b"
  "descriptor_digest small_aws d = Some digest_c"
  by (simp_all add: small_aws_def MAX_PREPARED_BUNDLES_def)

definition small_descriptor :: bundle_descriptor where
  "small_descriptor =
     \<lparr>bd_bundle_digest = digest_b, bd_contract_digest = digest_a, bd_required_env = [], bd_bytes = 2, bd_object_bytes = 2,
      bd_object_sha256 = digest_b, bd_node22 = True, bd_rest = []\<rparr>"

definition small_binding :: sealed_binding where
  "small_binding =
     \<lparr>sb_root_id = ''r'', sb_session_id = ''s'', sb_capability = ''c'', sb_realm = AexManaged, sb_contract_digest = digest_a,
      sb_bundle = Some small_descriptor, sb_required_capabilities = [], sb_rest = []\<rparr>"

definition small_fetch :: bundle_fetch where
  "small_fetch = \<lparr>bf_bundle_digest = digest_b, bf_expires_at_ms = 9, bf_max_bytes = 5, bf_rest = []\<rparr>"

definition small_prepare :: prepare_request where
  "small_prepare =
     \<lparr>pq_root_id = ''r'', pq_session_id = ''s'', pq_bindings = [\<lparr>pb_binding_ref = ''b'', pb_bundle_digests = [digest_b]\<rparr>],
      pq_bundles = [small_fetch], pq_network = NetNone, pq_resources = ceiling, pq_secret_capability = None\<rparr>"

definition small_validated :: "string \<rightharpoonup> validated_bundle" where
  "small_validated = [digest_b \<mapsto> \<lparr>vb_bytes = 2, vb_descriptor_digest = digest_c, vb_digest = digest_b\<rparr>]"

lemma small_spec: "\<exists>spec. target_spec_of small_aws ''i'' ''1'' ceiling NetNone RESOURCE_CLASS = Ok spec"
  by (simp add: target_spec_of_def spec_new_def ceiling_def TARGET_LIFETIME_MS_def MAX_DURATION_SECONDS_def
      mat_validate_bounded_token_def mat_validate_eq validate_bounded_token_def MAX_IMAGE_IDENTITY_BYTES_def
      MAX_MATERIALIZED_MIB_def TARGET_MEMORY_MIB_def RESOURCE_CLASS_def valid_identifier_def identifier_char_def std_defs)

lemma small_bindings:
  "validate_prepared_bindings small_aws (\<lambda>_. Ok small_binding) small_prepare (pq_bindings small_prepare) = Ok small_validated"
  by (simp add: validate_prepared_bindings_def validate_prepared_binding_projection_def validate_managed_binding_def
      merge_validated_prepared_bundle_def small_prepare_def small_binding_def small_descriptor_def small_validated_def
      small_brain_def)

lemma small_validates:
  "validate_prepare_request small_aws ''i'' ''1'' (\<lambda>_. Ok small_binding) small_prepare (pq_bindings small_prepare)
     = Ok (small_validated, [digest_b \<mapsto> small_fetch])"
proof -
  obtain spec where "target_spec_of small_aws ''i'' ''1'' (pq_resources small_prepare) (pq_network small_prepare) RESOURCE_CLASS = Ok spec"
    using small_spec by (auto simp: small_prepare_def)
  moreover have "projection_names small_aws small_prepare = Ok []"
    by (simp add: projection_names_def secret_env_names_def small_prepare_def)
  moreover have "supply_fetches small_aws small_validated (pq_bundles small_prepare) Map.empty = Ok [digest_b \<mapsto> small_fetch]"
    by (simp add: small_prepare_def small_fetch_def small_validated_def)
  ultimately show ?thesis
    by (simp add: validate_prepare_request_def small_bindings) (simp add: small_prepare_def)
qed

definition small_plan :: fetch_plan where
  "small_plan = \<lparr>fp_missing = [small_fetch], fp_borrowed = [], fp_bytes = 5\<rparr>"

definition five_one :: fetch_reservation where
  "five_one = \<lparr>fr_bytes = 5, fr_entries = 1\<rparr>"

definition plane1 :: prepare_plane where
  "plane1 = (with_plane 10 10)\<lparr>pl_workers := [Validated small_prepare ''p'' small_validated [digest_b \<mapsto> small_fetch]]\<rparr>"

definition plane2 :: prepare_plane where
  "plane2 = plane1\<lparr>pl_cache := (pl_cache plane1)\<lparr>pc_bundles := (pl_bundles plane1)\<lparr>bc_access_clock := 1\<rparr>\<rparr>,
     pl_in_flight := \<lparr>fl_bytes = 5, fl_entries = 1\<rparr>,
     pl_workers := [Fetching small_prepare ''p'' small_validated small_plan five_one]\<rparr>"

definition plane3 :: prepare_plane where
  "plane3 = plane2\<lparr>pl_workers := [Fetched small_prepare ''p'' [digest_b \<mapsto> ''ab''] [] five_one]\<rparr>"

lemma small_start: "prepare_step small_aws (with_plane 10 10) plane1"
  using prepare_step.start [OF small_validates refl, of "with_plane 10 10" "''p''"]
  by (simp add: plane1_def with_plane_def)

lemma small_admitted:
  "admit_fetches small_aws 1 10 small_validated [digest_b \<mapsto> small_fetch] [digest_b] [] (pl_bundles plane1) (pl_in_flight plane1)
     = (Ok (small_plan, five_one), (pl_bundles plane1)\<lparr>bc_access_clock := 1\<rparr>, \<lparr>fl_bytes = 5, fl_entries = 1\<rparr>)"
proof -
  have "evict_idle_to_fit small_aws ((pl_bundles plane1)\<lparr>bc_access_clock := 1\<rparr>) 5 1 (dom small_validated) []
      = (Ok (), (pl_bundles plane1)\<lparr>bc_access_clock := 1\<rparr>)"
    by (rule evict_idle_fits)
      (simp_all add: plane1_def with_plane_def with_limit_def with_limits_def contents_def [abs_def] MAX_CACHED_BUNDLES_def U64_MAX_def)
  then show ?thesis
    by (simp add: admit_fetches_def bundle_get_def next_access_def fetch_admit_def plane1_def with_plane_def with_limit_def
        with_limits_def small_fetch_def small_validated_def small_plan_def five_one_def checked_add_def U64_MAX_def
        small_brain_def MAX_CACHED_BUNDLES_def Let_def)
qed

lemma small_runs: "(prepare_step small_aws)\<^sup>*\<^sup>* (with_plane 10 10) plane3"
proof -
  have "prepare_step small_aws plane1 plane2"
    using prepare_step.admit [of 0 plane1 small_prepare "''p''" small_validated "[digest_b \<mapsto> small_fetch]" "[digest_b]" small_aws 1 "[]"
        small_plan five_one] small_admitted
    by (simp add: plane2_def) (simp add: plane1_def with_plane_def small_validated_def)
  with small_start have run: "(prepare_step small_aws)\<^sup>*\<^sup>* (with_plane 10 10) plane2"
    by (rule converse_rtranclp_into_rtranclp [OF _ r_into_rtranclp])
  have p3: "plane3 = plane2\<lparr>pl_workers := (pl_workers plane2)[0 := Fetched small_prepare ''p'' [digest_b \<mapsto> ''ab'']
      (fp_borrowed small_plan) five_one]\<rparr>"
    by (simp add: plane3_def plane2_def small_plan_def)
  have "prepare_step small_aws plane2 plane3"
    unfolding p3
  proof (rule prepare_step.fetch)
    show "pl_workers plane2 ! 0 = Fetching small_prepare ''p'' small_validated small_plan five_one" "0 < length (pl_workers plane2)"
      by (simp_all add: plane2_def)
    show "[digest_b \<mapsto> ''ab''] = map_of (map (\<lambda>f. (bf_bundle_digest f, ''ab'')) (fp_missing small_plan))"
      by (simp add: small_plan_def small_fetch_def)
    show "fetched_ok small_aws small_validated f ''ab''" if "f \<in> set (fp_missing small_plan)" for f
      using that by (simp add: small_plan_def small_fetch_def fetched_ok_def small_validated_def)
  qed
  with run show ?thesis by (rule rtranclp.rtrancl_into_rtrancl)
qed

subsection \<open>Properties\<close>

text \<open>
  C31. However preparations interleave, fail or are dropped: the bytes of the cached bundles together with
  everything the admitted preparations may still add stay within the limit of the cache, and so does the number of entries;
  the bytes in flight are exactly the reservations of the running preparations and stay within their limit; and the
  metadata of sessions stays within its bytes and entries.
\<close>

theorem caches_and_fetches_stay_within_limits:
  assumes "(prepare_step V)\<^sup>*\<^sup>* (with_plane cache_max fetch_max) s"
  shows "account length (contents (pl_bundles s)) + total_of (\<lambda>w. fr_bytes (owed w)) (pl_workers s) \<le> cache_max
    \<and> card (dom (bc_bundles (pl_bundles s))) + total_of (\<lambda>w. fr_entries (owed w)) (pl_workers s) \<le> 4096
    \<and> fl_bytes (pl_in_flight s) = total_of (\<lambda>w. fr_bytes (held w)) (pl_workers s) \<and> fl_bytes (pl_in_flight s) \<le> fetch_max
    \<and> account pr_metadata_bytes (ps_sessions (pc_store (pl_cache s))) \<le> 64 * 1024 * 1024
    \<and> card (dom (ps_sessions (pc_store (pl_cache s)))) \<le> 16384"
proof -
  note R = reached [OF assms] and D = plane_okD [OF reached(1) [OF assms]]
  have "bc_bundle_bytes (pl_bundles s) = account length (contents (pl_bundles s))" using D(2) by (simp add: bundles_ok_def)
  moreover have "account pr_metadata_bytes (ps_sessions (pc_store (pl_cache s))) \<le> 64 * 1024 * 1024"
      "card (dom (ps_sessions (pc_store (pl_cache s)))) \<le> 16384"
    using store_okD(4,5,6) [OF D(1)] R(4,5) by (simp_all add: MAX_CACHED_PREPARATION_BYTES_def MAX_CACHED_PREPARATIONS_def MIB_def)
  ultimately show ?thesis using D(6,8,9,10) R(2,3) by (simp add: MAX_CACHED_BUNDLES_def dom_contents)
qed

theorem caches_and_fetches_stay_within_limits_witness:
  "(prepare_step small_aws)\<^sup>*\<^sup>* (with_plane 10 10) plane3 \<and> fl_bytes (pl_in_flight plane3) \<le> 10
   \<and> total_of (\<lambda>w. fr_bytes (owed w)) (pl_workers plane3) = 5"
  using caches_and_fetches_stay_within_limits [OF small_runs] small_runs by (simp add: plane3_def five_one_def)

text \<open>
  C32. A bundle that a preparation or an installation holds is not evicted by anything that runs beside it,
  and the bytes it is served from have the digest they are cached under.
\<close>

theorem borrowed_bundle_is_kept:
  assumes "(prepare_step V)\<^sup>*\<^sup>* (with_plane cache_max fetch_max) s" and "prepare_step V s s'"
    and "w \<in> set (pl_workers s)" and "d \<in> set (fst (guards w))"
  shows "\<exists>x. contents (pl_bundles s) d = Some x \<and> contents (pl_bundles s') d = Some x \<and> sha256_hex (aw_brain V) x = d"
  using borrower_keeps [OF assms(2) reached(1) [OF assms(1)] assms(3,4)] .

text \<open>
  C33. A preparation whose fetches were admitted and succeeded is installed, whatever was installed or evicted since its
  admission: unless its session is bound to another root or seal or its metadata is too large, the
  installation succeeds and every bundle it requires is cached.
\<close>

theorem admitted_preparation_is_installed:
  assumes "(prepare_step V)\<^sup>*\<^sup>* (with_plane cache_max fetch_max) s" and "cache_max \<le> U64_MAX"
    and "n < length (pl_workers s)" and "pl_workers s ! n = Fetched q pd fetched borrowed r"
    and "dom (ps_sessions (pc_store (pl_cache s))) \<subseteq> set session_order"
    and "no_conflict (pc_store (pl_cache s)) (cacheable_preparation q) pd"
    and "metadata_size V (pc_store (pl_cache s)) (cacheable_preparation q) = Ok k"
  shows "\<exists>pc. cache_install V (pl_cache s) (cacheable_preparation q) pd fetched session_order bundle_order = (Ok (), pc)
    \<and> digests_of q \<subseteq> dom (contents (pc_bundles pc))"
  using assms(2) reached(2,4,5) [OF assms(1)]
  by (intro install_after_admission [OF reached(1) [OF assms(1)] assms(3,4,5) _ _ assms(6,7)])
    (simp_all add: MAX_CACHED_PREPARATION_BYTES_def MAX_CACHED_PREPARATIONS_def MIB_def U64_MAX_def)

lemma small_install_facts:
  "pl_workers plane3 ! 0 = Fetched small_prepare ''p'' [digest_b \<mapsto> ''ab''] [] five_one" "0 < length (pl_workers plane3)"
  "dom (ps_sessions (pc_store (pl_cache plane3))) \<subseteq> set []"
  "no_conflict (pc_store (pl_cache plane3)) (cacheable_preparation small_prepare) ''p''"
  "metadata_size small_aws (pc_store (pl_cache plane3)) (cacheable_preparation small_prepare) = Ok 1"
  by (simp_all add: plane3_def plane2_def plane1_def with_plane_def with_limit_def with_limits_def no_conflict_def
      metadata_size_def MAX_CACHED_PREPARATION_BYTES_def MAX_CACHED_PREPARATIONS_def MIB_def)

lemma small_installs:
  "\<exists>pc. cache_install small_aws (pl_cache plane3) (cacheable_preparation small_prepare) ''p'' [digest_b \<mapsto> ''ab''] [] [] = (Ok (), pc)
    \<and> digests_of small_prepare \<subseteq> dom (contents (pc_bundles pc))"
  using reached(2,4,5) [OF small_runs]
  by (intro install_after_admission [OF reached(1) [OF small_runs] small_install_facts(2,1,3) _ _ small_install_facts(4,5)])
    (simp_all add: MAX_CACHED_PREPARATION_BYTES_def MAX_CACHED_PREPARATIONS_def MIB_def U64_MAX_def)

theorem admitted_preparation_is_installed_witness:
  "\<exists>pc. cache_install small_aws (pl_cache plane3) (cacheable_preparation small_prepare) ''p'' [digest_b \<mapsto> ''ab''] [] [] = (Ok (), pc)
    \<and> digest_b \<in> dom (contents (pc_bundles pc))"
proof -
  have "(10 :: nat) \<le> U64_MAX" and "digest_b \<in> digests_of small_prepare" by (simp_all add: U64_MAX_def small_prepare_def)
  then show ?thesis
    using admitted_preparation_is_installed [OF small_runs _ small_install_facts(2,1,3-5), of "[]"] by blast
qed

theorem borrowed_bundle_is_kept_witness:
  "\<exists>s s' x. (prepare_step small_aws)\<^sup>*\<^sup>* (with_plane 10 10) s \<and> prepare_step small_aws s s'
     \<and> Posting digest_b \<in> set (pl_workers s) \<and> contents (pl_bundles s') digest_b = Some x"
proof -
  obtain pc where pc: "cache_install small_aws (pl_cache plane3) (cacheable_preparation small_prepare) ''p''
      [digest_b \<mapsto> ''ab''] [] [] = (Ok (), pc)" and dig: "digests_of small_prepare \<subseteq> dom (contents (pc_bundles pc))"
    using small_installs by blast
  let ?s4 = "plane3\<lparr>pl_cache := pc, pl_workers := (pl_workers plane3)[0 := Settling (Ok ()) [] five_one]\<rparr>"
  have "prepare_step small_aws plane3 ?s4"
    using prepare_step.install [OF small_install_facts(2,1,3) pc] .
  then have run4: "(prepare_step small_aws)\<^sup>*\<^sup>* (with_plane 10 10) ?s4" using small_runs by simp
  obtain g c where g: "bundle_get (pl_bundles ?s4) digest_b = (g, c)" by (rule prod.exhaust)
  have "digest_b \<in> dom (contents (pc_bundles pc))" using dig by (auto simp: small_prepare_def)
  then obtain x where "g = Some x" using get_laws(2) [OF g] by auto
  let ?s5 = "?s4\<lparr>pl_cache := (pl_cache ?s4)\<lparr>pc_bundles := c\<rparr>, pl_workers := pl_workers ?s4 @ [Posting digest_b]\<rparr>"
  have "prepare_step small_aws ?s4 ?s5" using prepare_step.post [OF g [unfolded \<open>g = Some x\<close>]] .
  then have run5: "(prepare_step small_aws)\<^sup>*\<^sup>* (with_plane 10 10) ?s5" using run4 by (rule rtranclp.rtrancl_into_rtrancl [rotated])
  have last: "prepare_step small_aws ?s5 (release 0 ?s5)" by (rule prepare_step.leave) simp
  have post: "Posting digest_b \<in> set (pl_workers ?s5)" by simp
  have "\<exists>x. contents (pl_bundles ?s5) digest_b = Some x \<and> contents (pl_bundles (release 0 ?s5)) digest_b = Some x
      \<and> sha256_hex (aw_brain small_aws) x = digest_b"
    using borrowed_bundle_is_kept [OF run5 last post] by simp
  with run5 last post show ?thesis by blast
qed

end
