(* ===== verification/Launch_Promises.thy ===== *)
theory Launch_Promises
  imports Provider_Launch Target_Plane Prepare_Promises
begin

section \<open>What the launcher and the pacing promise\<close>

text \<open>
  A sealed launch is replayed by every attempt on its reservation, an admitted dispatch leaves a
  minute and the whole lifetime of its machine within the lease, a bucket keeps its rate, and a call whose outcome is unknown is not
  repeated. The window is checked before the bucket is asked: with the default pacing a
  queue of launches outlives the window.
\<close>

lemma sealed_launch_decodes:
  assumes "launch_codec_ok K" and "deployed I"
    and "target_spec_of V img (li_image_version I) (gl_resources L) (gl_network L) (gl_resource_class L) = Ok spec"
    and "aq_spec q = spec" and "aq_key q = gl_key L"
    and "sealed_acquisition V K I dg L q = Ok q'" and "acquire_lease dg q' = Ok l"
  shows "\<exists>sealed. decode_launch V K (li_region I) (attempt_on l a e recovery) = Ok sealed
    \<and> sealed_to_json K sealed = Some (lr_expose (aq_launch_request q')) \<and> er_client_token (sl_request sealed) = aq_reservation_id q"
proof -
  obtain preview lr where p: "acquire_lease dg q = Ok preview" and s: "seal_launch V K I L preview = Ok lr"
    and q': "q' = q\<lparr>aq_launch_request := lr\<rparr>" using sealed_acquisition_Ok [OF assms(6)] .
  obtain proxy image_arn encoded deadline where w: "li_image_arn I = Ok image_arn"
      "payload_to_json K (launch_payload V L preview (li_token I) proxy) = Some encoded"
      "launch_dispatch_deadline preview = Ok deadline"
      "sealed_to_json K (sealed_request I preview (launch_payload V L preview (li_token I) proxy) image_arn encoded deadline)
        = Some (lr_expose lr)"
    using seal_launch_Ok [OF s] .
  let ?p = "launch_payload V L preview (li_token I) proxy"
  let ?s = "sealed_request I preview ?p image_arn encoded deadline"
  have l: "l = preview\<lparr>ml_launch_request := lr\<rparr>" and rid: "valid_identifier (aq_reservation_id q)"
    using p assms(7) q' by (auto simp: acquire_lease_Ok acquire_ok_def)
  have codec: "sealed_from_json K (lr_expose lr) = Some ?s" "payload_from_json K encoded = Some ?p" "encoded \<noteq> []"
    using assms(1) w(2,4) by (auto simp: launch_codec_ok_def)
  have preview: "ml_key preview = gl_key L" "ml_spec preview = spec" "ml_reservation_id preview = aq_reservation_id q"
    using p assms(4,5) by (auto simp: acquire_lease_Ok)
  have "launch_dispatch_deadline (attempt_on l a e recovery) = Ok deadline"
    using w(3) deadline_same_times [of "attempt_on l a e recovery" preview] l by simp
  moreover have "validate_exact_run_request (li_region I) (sl_request ?s) = Ok ()"
    using assms(2) w(1) codec(3) rid
    by (auto simp: sealed_request_def preview deployed_def intro: exact_request_valid)
  moreover have "er_image_identifier (sl_request ?s) \<noteq> []" using assms(2) w(1)
    by (auto simp: sealed_request_def exact_run_request_def deployed_def)
  ultimately have "decode_launch V K (li_region I) (attempt_on l a e recovery) = Ok ?s"
    using codec(1,2) spec_of_seals [OF assms(3)] l preview
    by (simp add: decode_launch_def)
      (simp add: sealed_request_def exact_run_request_def launch_payload_def require_def)
  moreover have "er_client_token (sl_request ?s) = aq_reservation_id q"
    by (simp add: sealed_request_def exact_run_request_def preview)
  ultimately show ?thesis using w(4) q' by auto
qed

text \<open>
  C34. A launch request that was sealed into a reservation decodes for every attempt on that
  reservation, the first and those that recover: it is neither corrupt nor in conflict with the
  seal, and it is the request that was sealed.
\<close>

theorem sealed_launch_replays:
  assumes "launch_codec_ok K" and "deployed I"
    and "target_spec_of V img (li_image_version I) (gl_resources L) (gl_network L) (gl_resource_class L) = Ok spec"
    and "aq_spec q = spec" and "aq_key q = gl_key L"
    and "sealed_acquisition V K I dg L q = Ok q'" and "acquire_lease dg q' = Ok l"
  shows "\<exists>sealed. decode_launch V K (li_region I) (attempt_on l a e recovery) = Ok sealed
    \<and> sealed_to_json K sealed = Some (lr_expose (aq_launch_request q')) \<and> er_client_token (sl_request sealed) = aq_reservation_id q"
  using sealed_launch_decodes [OF assms] .

definition small_launcher :: generation_launcher where
  "small_launcher =
     \<lparr>gl_key = sample_key, gl_owner_session_id = ''s'', gl_resources = ceiling, gl_network = NetNone,
      gl_resource_class = RESOURCE_CLASS\<rparr>"

definition small_inputs :: launch_inputs where
  "small_inputs =
     \<lparr>li_region = ''r'', li_image_arn = Ok ''arn'', li_image_version = ''1'', li_connectors = (\<lambda>_. ''none''),
      li_authority = \<lparr>ga_host = ''g'', ga_port = 443\<rparr>, li_signed = (\<lambda>_ _ _. Ok []), li_token = ControlToken ''t''\<rparr>"

definition small_spec :: target_spec where
  "small_spec = \<lparr>ts_connector = ConnNone, ts_image_identity = ''i@1'', ts_resource_class = RESOURCE_CLASS,
     ts_materialized_mib = TARGET_MEMORY_MIB, ts_resource_policy_digest = digest_a, ts_network_policy_digest = digest_b\<rparr>"

definition small_acquire :: acquire_target where
  "small_acquire = materialize_request sample_key small_spec None True ''0'' ''1'' ''2'' 5"

definition small_lease :: materialization_lease where
  "small_lease =
     \<lparr>ml_key = sample_key, ml_spec = small_spec, ml_spec_digest = digest_c, ml_reservation_id = ''reservation-0'',
      ml_generation = ''generation-1'', ml_launch_request = DurableLaunchRequest ''unsealed'', ml_attempt_id = ''attempt-2'',
      ml_attempt_expires_at_ms = 30005, ml_target_expires_at_ms = 28800005, ml_lease_expires_at_ms = 29100005,
      ml_recovery_attempt = False\<rparr>"

definition small_sealed :: sealed_launch where
  "small_sealed = sealed_request small_inputs small_lease
     (launch_payload small_aws small_launcher small_lease (ControlToken ''t'') None) ''arn'' ''p'' 240005"

definition small_codec :: launch_codec where
  "small_codec =
     \<lparr>sealed_to_json = (\<lambda>s. if s = small_sealed then Some ''s'' else None),
      sealed_from_json = (\<lambda>b. if b = ''s'' then Some small_sealed else None),
      payload_to_json = (\<lambda>p. if p = launch_payload small_aws small_launcher small_lease (ControlToken ''t'') None
        then Some ''p'' else None),
      payload_from_json = (\<lambda>b. if b = ''p''
        then Some (launch_payload small_aws small_launcher small_lease (ControlToken ''t'') None) else None)\<rparr>"

lemma small_spec_of: "target_spec_of small_aws ''i'' ''1'' ceiling NetNone RESOURCE_CLASS = Ok small_spec"
  by (simp add: target_spec_of_def spec_new_def ceiling_def TARGET_LIFETIME_MS_def MAX_DURATION_SECONDS_def small_spec_def
      mat_validate_bounded_token_def mat_validate_eq validate_bounded_token_def MAX_IMAGE_IDENTITY_BYTES_def
      MAX_MATERIALIZED_MIB_def TARGET_MEMORY_MIB_def RESOURCE_CLASS_def valid_identifier_def identifier_char_def std_defs)

lemma small_identifiers: "valid_key sample_key" "valid_identifier ''reservation-0''" "valid_identifier ''generation-1''"
  "valid_identifier ''attempt-2''"
  by (simp_all add: sample_key_def valid_key_def key_validate_def is_default_def mat_validate_eq valid_identifier_def
      identifier_char_def std_defs)

lemma small_acquire_leases: "acquire_lease (\<lambda>_. digest_c) small_acquire = Ok small_lease"
  using small_identifiers
  by (simp add: acquire_lease_Ok acquire_ok_def small_acquire_def materialize_request_def random_identifier_def small_lease_def
      target_times valid_launch_def MAX_DURABLE_LAUNCH_REQUEST_BYTES_def U64_MAX_def sample_key_def is_default_def)

lemma small_codec_ok: "launch_codec_ok small_codec"
  by (auto simp: launch_codec_ok_def small_codec_def split: if_splits)

lemma small_seals: "sealed_acquisition small_aws small_codec small_inputs (\<lambda>_. digest_c) small_launcher small_acquire
    = Ok (small_acquire\<lparr>aq_launch_request := DurableLaunchRequest ''s''\<rparr>)"
proof -
  have d: "launch_dispatch_deadline small_lease = Ok 240005"
    using own_lease_deadline [OF small_acquire_leases]
    by (simp add: small_acquire_def materialize_request_def target_times)
  have "seal_launch small_aws small_codec small_inputs small_launcher small_lease = Ok (DurableLaunchRequest ''s'')"
    by (simp add: seal_launch_def launch_proxy_def d small_codec_def)
      (simp add: small_inputs_def small_launcher_def small_sealed_def launch_request_new_def MAX_DURABLE_LAUNCH_REQUEST_BYTES_def)
  then show ?thesis by (simp add: sealed_acquisition_def small_acquire_leases)
qed

definition launched_acquire :: acquire_target where
  "launched_acquire = small_acquire\<lparr>aq_launch_request := DurableLaunchRequest ''s''\<rparr>"

definition launched_lease :: materialization_lease where
  "launched_lease = small_lease\<lparr>ml_launch_request := DurableLaunchRequest ''s''\<rparr>"

lemma launched_acquire_leases: "acquire_lease (\<lambda>_. digest_c) launched_acquire = Ok launched_lease"
  using small_identifiers
  by (simp add: launched_acquire_def launched_lease_def acquire_lease_Ok acquire_ok_def small_acquire_def materialize_request_def
      random_identifier_def small_lease_def target_times valid_launch_def MAX_DURABLE_LAUNCH_REQUEST_BYTES_def U64_MAX_def
      sample_key_def is_default_def)

lemma small_deployment:
  "deployed small_inputs"
  "target_spec_of small_aws ''i'' (li_image_version small_inputs) (gl_resources small_launcher)
      (gl_network small_launcher) (gl_resource_class small_launcher) = Ok small_spec"
  "aq_spec small_acquire = small_spec" "aq_key small_acquire = gl_key small_launcher" "li_region small_inputs = ''r''"
  "aq_reservation_id small_acquire = ''reservation-0''"
  using small_spec_of
  by (simp_all add: deployed_def small_inputs_def small_launcher_def small_acquire_def materialize_request_def random_identifier_def)

theorem sealed_launch_replays_witness:
  "\<exists>sealed. decode_launch small_aws small_codec ''r'' (attempt_on launched_lease ''a'' 9 True) = Ok sealed
   \<and> sealed_to_json small_codec sealed = Some ''s'' \<and> er_client_token (sl_request sealed) = ''reservation-0''"
  using sealed_launch_replays [OF small_codec_ok small_deployment(1-4) small_seals launched_acquire_leases [unfolded launched_acquire_def]]
  by (simp add: small_deployment(5,6))

subsection \<open>The window and the pacing\<close>

text \<open>
  A bucket keeps its rate: of any calls it lets through, in whatever order of instants they asked,
  the one \<open>n\<close> places later is let through at least \<open>n - (burst - 1)\<close> intervals later, and never before it asked.
\<close>

theorem token_bucket_keeps_its_rate:
  assumes "i < j" and "j < length ts"
  shows "admissions b ts ! i + (j - i) * tb_interval b \<le> admissions b ts ! j + (tb_burst b - 1) * tb_interval b
    \<and> ts ! j \<le> admissions b ts ! j"
  using admissions_spaced [OF assms, of b] admissions_not_early [OF assms(2), of b] by (simp add: mult.commute)

theorem token_bucket_keeps_its_rate_witness:
  "admissions (bucket_new 10 10) [5, 5] ! 0 + 100000000 \<le> admissions (bucket_new 10 10) [5, 5] ! 1 + 900000000"
  using token_bucket_keeps_its_rate [of 0 1 "[5, 5]" "bucket_new 10 10"] by (simp add: bucket_new_def)

text \<open>
  A state-changing call to the provider is sent at most four times, and again only after the provider refused it by
  throttling: an answer that leaves the outcome unknown, or any other answer, is final.
\<close>

theorem only_throttled_calls_are_repeated:
  assumes "paced b 0 answers = (out, sent, b')"
  shows "length sent \<le> 4 \<and> (\<forall>i. Suc i < length sent \<longrightarrow> (\<exists>m. snd (answers ! i) = Err (CThrottled m)))
    \<and> (\<forall>r. out = Some r \<longrightarrow> sent \<noteq> [] \<and> r = snd (answers ! (length sent - 1))
         \<and> ((\<exists>m. r = Err (CThrottled m)) \<longrightarrow> length sent = 4))"
  using paced_laws [OF assms] by (simp add: MAX_ATTEMPTS_def)

theorem only_throttled_calls_are_repeated_witness:
  "fst (paced (bucket_new 1 1) 0 [(0, Err (CThrottled [])), (5, Err (CUnknown [])), (9, Ok ())]) = Some (Err (CUnknown []))
   \<and> length (fst (snd (paced (bucket_new 1 1) 0 [(0, Err (CThrottled [])), (5, Err (CUnknown [])), (9, Ok ())]))) = 2"
proof -
  obtain out sent b' where p: "paced (bucket_new 1 1) 0 [(0, Err (CThrottled [])), (5, Err (CUnknown [])), (9, Ok ())] = (out, sent, b')"
    by (metis prod_cases3)
  moreover have "out = Some (Err (CUnknown [])) \<and> length sent = 2"
    using p by (auto simp: MAX_ATTEMPTS_def split: prod.splits)
  ultimately show ?thesis using only_throttled_calls_are_repeated [OF p] by simp
qed

text \<open>
  C35. The launcher checks the dispatch window before the provider call asks its token bucket, the bucket delays without
  a bound, and the window is not checked again. When 302 or more launches, whose leases were reserved at one instant
  with the deployment's durations, are asked for at that instant, every one of them is admitted, and at the
  default rate each from the 302nd on is still sent, at an instant so late that a machine which lives its lifetime
  from then on outlives the lease that charges for it.
\<close>

theorem queued_launch_outlives_its_lease:
  assumes "\<forall>l\<in>set ls. (\<exists>sealed. decode_launch V K zone l = Ok sealed)
      \<and> ml_target_expires_at_ms l = now + TARGET_LIFETIME_MS \<and> ml_lease_expires_at_ms l = now + TARGET_LEASE_MS"
    and "301 \<le> i" and "i < length ls"
  shows "\<exists>request token t. launch_admit V K zone (ls ! i) now = Ok (request, token)
    \<and> launch_queue V K zone (bucket_new (run_rate_per_second default_pacing) (run_burst default_pacing))
        (map (\<lambda>l. (l, now, [(now * 1000000, Ok vm)])) ls) ! i
      = (Some (launch_answer (ls ! i) token (Ok vm)), [t])
    \<and> ml_lease_expires_at_ms (ls ! i) < t div 1000000 + TARGET_LIFETIME_MS"
proof -
  let ?b = "bucket_new (run_rate_per_second default_pacing) (run_burst default_pacing)"
  let ?ts = "replicate (length ls) (now * 1000000)"
  have "\<exists>sealed. decode_launch V K zone l = Ok sealed \<and> now \<le> sl_dispatch_deadline_at_ms sealed" if "l \<in> set ls" for l
    using assms(1) that decode_launch_Ok(1) by (fastforce dest: dispatch_deadline_Ok)
  then obtain request token where q: "launch_admit V K zone (ls ! i) now = Ok (request, token)"
      "launch_queue V K zone ?b (map (\<lambda>l. (l, now, [(now * 1000000, Ok vm)])) ls) ! i
        = (Some (launch_answer (ls ! i) token (Ok vm)), [admissions ?b ?ts ! i])"
    using launch_queue_sent [OF assms(3), of V K zone now ?b "now * 1000000" vm] by blast
  have len: "0 < length ?ts" "i < length ?ts" "0 < i" using assms(2,3) by auto
  have "now * 1000000 \<le> admissions ?b ?ts ! 0" using admissions_not_early [OF len(1), of ?b] len(1) by simp
  moreover have "admissions ?b ?ts ! 0 + i * 1000000000 \<le> admissions ?b ?ts ! i"
    using admissions_spaced [OF len(3,2), of ?b] unfolding bucket_new_def default_pacing_def by simp
  ultimately have "now + 301000 \<le> admissions ?b ?ts ! i div 1000000" using assms(2) by linarith
  moreover have "ml_lease_expires_at_ms (ls ! i) = now + TARGET_LIFETIME_MS + 300000"
    using assms(1,3) by (simp add: target_times)
  ultimately show ?thesis using q by fastforce
qed

text \<open>A root with that many sandboxes, each with its own reservation; the text of a sealed request is its client token.\<close>

definition queue_codec :: launch_codec where
  "queue_codec = small_codec\<lparr>sealed_from_json :=
     (\<lambda>b. Some (small_sealed\<lparr>sl_request := (sl_request small_sealed)\<lparr>er_client_token := b\<rparr>\<rparr>))\<rparr>"

definition queue_lease :: "nat \<Rightarrow> materialization_lease" where
  "queue_lease i = launched_lease\<lparr>ml_key := sample_key\<lparr>tk_target_key := ''target:additional:'' @ show_nat i\<rparr>,
     ml_reservation_id := ''reservation-'' @ show_nat i,
     ml_launch_request := DurableLaunchRequest (''reservation-'' @ show_nat i)\<rparr>"

lemma launched_decodes: "decode_launch small_aws small_codec ''r'' launched_lease = Ok small_sealed"
proof -
  obtain sealed where d: "decode_launch small_aws small_codec ''r'' launched_lease = Ok sealed"
      "sealed_to_json small_codec sealed = Some ''s''"
    using sealed_launch_decodes [OF small_codec_ok small_deployment(1-4) small_seals launched_acquire_leases [unfolded launched_acquire_def],
        of False 30005 "''attempt-2''"]
    by (auto simp: small_deployment(5) launched_lease_def small_lease_def)
  then show ?thesis by (auto simp: small_codec_def split: if_splits)
qed

lemma renamed_decodes:
  assumes "x \<noteq> []" and "length x \<le> 128" and "tk_root_id k = tk_root_id sample_key"
  shows "\<exists>sealed. decode_launch small_aws queue_codec ''r''
    (launched_lease\<lparr>ml_key := k, ml_reservation_id := x, ml_launch_request := DurableLaunchRequest x\<rparr>) = Ok sealed" (is "\<exists>sealed. decode_launch _ _ _ ?l = Ok sealed")
proof -
  have "launch_dispatch_deadline ?l = Ok (sl_dispatch_deadline_at_ms small_sealed)"
    using deadline_same_times [of ?l launched_lease] decode_launch_Ok(1) [OF launched_decodes] by simp
  moreover have "validate_exact_run_request ''r'' ((sl_request small_sealed)\<lparr>er_client_token := x\<rparr>) = Ok ()"
    using decode_launch_Ok(3) [OF launched_decodes] assms(1,2) by (simp add: validate_exact_run_request_def require_def split: if_splits)
  ultimately show ?thesis
    using launched_decodes assms(3)
    by (auto simp: decode_launch_def result_iffs queue_codec_def launched_lease_def small_lease_def small_codec_def
        split: if_splits)
qed

lemma queue_lease_decodes:
  assumes "i < 1000"
  shows "\<exists>sealed. decode_launch small_aws queue_codec ''r'' (queue_lease i) = Ok sealed"
proof -
  have "length (show_nat i) \<le> 3"
    using assms by (simp add: show_nat.simps [of i] show_nat.simps [of "i div 10"] show_nat.simps [of "i div 10 div 10"])
  then show ?thesis unfolding queue_lease_def by (intro renamed_decodes) simp_all
qed

theorem queued_launch_outlives_its_lease_witness:
  "distinct (map (\<lambda>l. (ml_key l, ml_reservation_id l)) (map queue_lease [0..<302]))
   \<and> (\<exists>r t. launch_queue small_aws queue_codec ''r'' (bucket_new (run_rate_per_second default_pacing) (run_burst default_pacing))
         (map (\<lambda>l. (l, 5, [(5 * 1000000, Ok ''vm'')])) (map queue_lease [0..<302])) ! 301 = (Some r, [t])
       \<and> ml_lease_expires_at_ms (queue_lease 301) < t div 1000000 + TARGET_LIFETIME_MS)"
proof -
  have "inj show_nat" by (rule injI) (metis nle_le option.inject parse_uint_show_nat)
  then have "distinct (map (\<lambda>l. (ml_key l, ml_reservation_id l)) (map queue_lease [0..<302]))"
    by (auto simp: distinct_map queue_lease_def inj_on_def)
  moreover have "\<forall>l\<in>set (map queue_lease [0..<302]). (\<exists>sealed. decode_launch small_aws queue_codec ''r'' l = Ok sealed)
      \<and> ml_target_expires_at_ms l = 5 + TARGET_LIFETIME_MS \<and> ml_lease_expires_at_ms l = 5 + TARGET_LEASE_MS"
    using queue_lease_decodes by (auto simp: queue_lease_def launched_lease_def small_lease_def target_times)
  from queued_launch_outlives_its_lease [OF this, of 301 "''vm''"]
  have "\<exists>r t. launch_queue small_aws queue_codec ''r'' (bucket_new (run_rate_per_second default_pacing) (run_burst default_pacing))
         (map (\<lambda>l. (l, 5, [(5 * 1000000, Ok ''vm'')])) (map queue_lease [0..<302])) ! 301 = (Some r, [t])
       \<and> ml_lease_expires_at_ms (queue_lease 301) < t div 1000000 + TARGET_LIFETIME_MS"
    by (simp only: length_map length_upt nth_map_upt) fastforce
  ultimately show ?thesis by blast
qed

end
