(* ===== verification/Port_Promises.thy ===== *)
theory Port_Promises
  imports Port_Refinement Launch_Promises
begin

section \<open>What the handlers promise about the machines\<close>

text \<open>
  The registry charges memory by rows; the provider bills machines. The two are tied by the lease, the
  dispatch window, the client token and the confirmed termination. What is promised about machines is about those that
  were created within a minute of the admission of their launch (\<open>punctual\<close>); a launch may wait longer for the pacing, as
  \<open>queued_launch_outlives_its_lease\<close> shows.
\<close>

subsection \<open>A run\<close>

definition idle_registry :: memory_target_registry where
  "idle_registry = the (with_capacity 4096)"

definition launched_registry :: memory_target_registry where
  "launched_registry = put_record (idle_registry\<lparr>mr_reserved_mib := 1024\<rparr>) sample_key (record_from_lease launched_lease 5)"

abbreviation small_step :: "fleet \<Rightarrow> fleet \<Rightarrow> bool" where
  "small_step \<equiv> fleet_step small_aws small_codec ''r'' (\<lambda>_. digest_c) {small_spec}"

lemma launched_begin: "acquire (\<lambda>_. digest_c) idle_registry launched_acquire = (Ok (AAcquired launched_lease), launched_registry)"
proof -
  have "aq_key launched_acquire = sample_key" "aq_now_ms launched_acquire = 5" "ml_spec launched_lease = small_spec"
    by (simp_all add: launched_acquire_def launched_lease_def small_acquire_def materialize_request_def small_lease_def)
  then show ?thesis
    using launched_acquire_leases
    by (simp add: acquire_def idle_registry_def with_capacity_def reserve_capacity_def launched_registry_def
        small_spec_def TARGET_MEMORY_MIB_def checked_sub_def checked_add_def)
qed

lemma launched_admit: "\<exists>request token. launch_admit small_aws small_codec ''r'' launched_lease 5 = Ok (request, token)"
  using launch_admit_iff [OF launched_decodes, of 5] by (simp add: small_sealed_def sealed_request_def) blast

lemma small_world: "with_capacity 4096 = Some idle_registry" "digest_ok (\<lambda>_. digest_c) {small_spec}"
    "\<forall>spec\<in>{small_spec}. ts_materialized_mib spec = TARGET_MEMORY_MIB"
  by (simp_all add: idle_registry_def with_capacity_def digest_ok_def small_spec_def)

text \<open>A first submission reserves, launches and waits for the provider, which creates the machine.\<close>

definition small_env :: hand_env where
  "small_env =
     \<lparr>en_aws = small_aws, en_codec = small_codec, en_digest = (\<lambda>_. digest_c), en_image = ''i'', file_write_digest = (\<lambda>_. []),
      copy_digest = (\<lambda>_. []), parses_path = (\<lambda>_. True), https_url = (\<lambda>_. None)\<rparr>"

definition small_envelope :: operation_envelope where
  "small_envelope =
     \<lparr>oe_operation_id = ''op'', oe_request_digest = digest_a, oe_root_id = ''root-1'', oe_session_id = ''s'', oe_binding_ref = ''b'',
      oe_capability = ''c'', oe_generation = None, oe_target_ref = None, oe_resources = ceiling, oe_network = NetNone, oe_rest = []\<rparr>"

definition prepared_answer :: answer where
  "prepared_answer =
     \<lparr>an_reply = Err (temporary small_aws []), an_unit = Ok (), an_file = Err (temporary small_aws []), an_binding = Err (temporary small_aws []),
      an_purged = Ok True,
      an_preparation = Some \<lparr>pr_request = small_prepare\<lparr>pq_root_id := ''root-1''\<rparr>, pr_public_digest = [], pr_metadata_bytes = 0, pr_last_access = 0\<rparr>,
      an_bundle = None, an_flag = False, an_values = Ok Map.empty, an_staged = Err (temporary small_aws [])\<rparr>"

lemma small_env_simps [simp]:
  "en_aws small_env = small_aws" "en_codec small_env = small_codec" "en_digest small_env = (\<lambda>_. digest_c)" "en_image small_env = ''i''"
  by (simp_all add: small_env_def)

lemma small_launch:
  "\<exists>c. hp_bind (launch_target small_env small_inputs launched_lease) f = Clock c
    \<and> (\<exists>request. (\<exists>c'. c 5 = Ask AskRunPacing (\<lambda>_. VmRun launched_lease 5 request c')) \<and> er_client_token request = ''reservation-0'')"
proof -
  obtain request token where a: "launch_admit small_aws small_codec ''r'' launched_lease 5 = Ok (request, token)"
    using launched_admit by blast
  have "er_client_token request = ''reservation-0''"
    using launch_admit_Ok(1) [OF a] by (simp add: launched_lease_def small_lease_def)
  then show ?thesis
    using a by (simp add: launch_target_def small_deployment(5) hp_value_def)
      (rule exI [of _ request], rule conjI, rule exI, rule refl, assumption)
qed

lemma small_materialize:
  "\<exists>c c0 c1 c2 ca cl. hp_bind (materialize_target small_env small_inputs sample_key ''s'' ceiling NetNone RESOURCE_CLASS LazyDefault) f = Clock c
    \<and> c 5 = Draw c0 \<and> c0 ''0'' = Draw c1 \<and> c1 ''1'' = Draw c2 \<and> c2 ''2'' = RegAcquire launched_acquire ca
    \<and> ca (Ok (AAcquired launched_lease)) = Clock cl
    \<and> (\<exists>request cr. cl 5 = Ask AskRunPacing (\<lambda>_. VmRun launched_lease 5 request cr) \<and> er_client_token request = ''reservation-0'')"
proof -
  have v: "li_image_version small_inputs = ''1''" by (simp add: small_inputs_def)
  have s: "sealed_acquisition small_aws small_codec small_inputs (\<lambda>_. digest_c)
      \<lparr>gl_key = sample_key, gl_owner_session_id = ''s'', gl_resources = ceiling, gl_network = NetNone, gl_resource_class = RESOURCE_CLASS\<rparr>
      (materialize_request sample_key small_spec None True ''0'' ''1'' ''2'' 5) = Ok launched_acquire"
    using small_seals by (simp add: small_launcher_def small_acquire_def launched_acquire_def)
  show ?thesis
    by (simp add: materialize_target_def hp_value_def small_spec_of v s ensure_target_def hp_bind_assoc) (rule small_launch)
qed

lemma small_submit:
  "\<exists>c. serve_port small_env small_inputs (PortSubmit small_envelope) = Ask (AskPreparation ''s'') c
    \<and> (\<exists>f. c prepared_answer = hp_bind (materialize_target small_env small_inputs sample_key ''s'' ceiling NetNone RESOURCE_CLASS LazyDefault) f)"
proof -
  have pure: "validate_inline_input small_aws small_envelope = Ok ()" "operation_request_digest small_brain small_envelope = digest_a"
      "submit_route small_env small_envelope = Ok Lazy" "for_default_target ''root-1'' = Ok sample_key"
    by (simp_all add: validate_inline_input_def small_aws_def small_brain_def submit_route_def small_envelope_def require_def
        for_default_target_def sample_key_def mat_validate_eq valid_identifier_def identifier_char_def std_defs)
  have seal: "validate_operation_root_seal small_aws small_envelope (small_prepare\<lparr>pq_root_id := ''root-1''\<rparr>) = Ok ()"
    by (simp add: validate_operation_root_seal_def validate_resource_ceiling_subset_def small_envelope_def small_prepare_def require_def)
  have fields: "oe_request_digest small_envelope = digest_a" "oe_session_id small_envelope = ''s''" "oe_root_id small_envelope = ''root-1''"
      "pq_resources small_prepare = ceiling" "pq_network small_prepare = NetNone"
    by (simp_all add: small_envelope_def small_prepare_def)
  show ?thesis
    by (simp add: answered_def port_submit_def hp_value_def hp_try_def pure fields require_def route_for_submit_def
        preparation_for_root_def preparation_of_def hp_bind_assoc)
      (simp add: prepared_answer_def ok_or_def seal pure fields map_err_def hp_bind_assoc hp_value_def, rule exI, rule refl)
qed

abbreviation small_port_step :: "world \<Rightarrow> world \<Rightarrow> bool" where
  "small_port_step \<equiv> port_step small_env ''r'' {small_spec}"

definition paused :: "memory_target_registry \<Rightarrow> string set \<Rightarrow> (nat \<rightharpoonup> (aws_error, unit) result hand_prog) \<Rightarrow> world" where
  "paused g ds cs = (world_start g)\<lparr>wo_now := 5, wo_drawn := ds, wo_clients := cs\<rparr>"

lemma paused_simps [simp]:
  "wo_registry (paused g ds cs) = g" "wo_now (paused g ds cs) = 5" "wo_drawn (paused g ds cs) = ds" "wo_clients (paused g ds cs) = cs"
  "(paused g ds cs)\<lparr>wo_clients := cs'\<rparr> = paused g ds cs'" "(paused g ds cs)\<lparr>wo_registry := g'\<rparr> = paused g' ds cs"
  "(paused g ds cs)\<lparr>wo_drawn := ds'\<rparr> = paused g ds' cs"
  by (simp_all add: paused_def world_start_def)

definition at_call :: "memory_target_registry \<Rightarrow> string set \<Rightarrow> (aws_error, unit) result hand_prog \<Rightarrow> bool" where
  "at_call g ds p \<longleftrightarrow> (\<exists>cs. cs 0 = Some p \<and> small_port_step\<^sup>*\<^sup>* (world_start idle_registry) (paused g ds cs))"

lemma at_callI:
  assumes "at_call g ds p" and "\<And>cs. cs 0 = Some p \<Longrightarrow> small_port_step (paused g ds cs) (paused g' ds' (cs(0 \<mapsto> p')))"
  shows "at_call g' ds' p'"
proof -
  obtain cs where cs: "cs 0 = Some p" "small_port_step\<^sup>*\<^sup>* (world_start idle_registry) (paused g ds cs)"
    using assms(1) by (auto simp: at_call_def)
  then have "small_port_step\<^sup>*\<^sup>* (world_start idle_registry) (paused g' ds' (cs(0 \<mapsto> p')))" using assms(2) by (meson rtranclp.rtrancl_into_rtrancl)
  then show ?thesis unfolding at_call_def by (metis fun_upd_same)
qed

lemma at_start: "at_call idle_registry {} (serve_port small_env small_inputs q)"
proof -
  have "small_port_step (world_start idle_registry) (paused idle_registry {} Map.empty)"
    using port_step.time [of "world_start idle_registry" 5] by (simp add: world_start_def paused_def)
  moreover have "small_port_step (paused idle_registry {} Map.empty) (paused idle_registry {} [0 \<mapsto> serve_port small_env small_inputs q])"
    using port_step.arrives [OF small_deployment(5), of small_env "{small_spec}" "paused idle_registry {} Map.empty" 0 q] by simp
  ultimately show ?thesis unfolding at_call_def by (intro exI [of _ "[0 \<mapsto> serve_port small_env small_inputs q]"]) simp
qed

lemma at_ask:
  assumes "at_call g ds (Ask a c)"
  shows "at_call g ds (c x)"
  by (rule at_callI [OF assms]) (use port_step.ask [of "paused g ds _" 0 a c] in force)

lemma at_clock:
  assumes "at_call g ds (Clock c)"
  shows "at_call g ds (c 5)"
  by (rule at_callI [OF assms]) (use port_step.clock [of "paused g ds _" 0 c 5] in force)

lemma at_draw:
  assumes "at_call g ds (Draw c)" and "h \<notin> ds"
  shows "at_call g (insert h ds) (c h)"
  by (rule at_callI [OF assms(1)]) (use port_step.draw [of "paused g ds _" 0 c h] assms(2) in force)

lemma at_acquire:
  assumes "at_call g ds (RegAcquire q c)" and "aq_spec q = small_spec" and "acquire (\<lambda>_. digest_c) g q = (res, g')"
  shows "at_call g' ds (c res)"
  by (rule at_callI [OF assms(1)])
    (use port_step.reg_acquire [of "paused g ds _" 0 q c "{small_spec}" small_env res g' res] assms(2,3) in force)

definition small_machine :: machine where
  "small_machine = \<lparr>mc_token = ''reservation-0'', mc_born = 5, mc_admitted = 5\<rparr>"

lemma small_run:
  "\<exists>w. small_port_step\<^sup>*\<^sup>* (world_start idle_registry) w \<and> wo_machines w = [''vm'' \<mapsto> small_machine]
    \<and> wo_registry w = launched_registry"
proof -
  obtain c f where c: "at_call idle_registry {} (Ask (AskPreparation ''s'') c)"
      "c prepared_answer = hp_bind (materialize_target small_env small_inputs sample_key ''s'' ceiling NetNone RESOURCE_CLASS LazyDefault) f"
    using at_start [of "PortSubmit small_envelope"] small_submit by metis
  obtain c c0 c1 c2 ca cl request cr where p:
      "hp_bind (materialize_target small_env small_inputs sample_key ''s'' ceiling NetNone RESOURCE_CLASS LazyDefault) f = Clock c"
      "c 5 = Draw c0" "c0 ''0'' = Draw c1" "c1 ''1'' = Draw c2" "c2 ''2'' = RegAcquire launched_acquire ca"
      "ca (Ok (AAcquired launched_lease)) = Clock cl" "cl 5 = Ask AskRunPacing (\<lambda>_. VmRun launched_lease 5 request cr)" "er_client_token request = ''reservation-0''"
    using small_materialize [of f] by metis
  have "at_call idle_registry {''2'', ''1'', ''0''} (RegAcquire launched_acquire ca)"
    using at_draw [OF at_draw [OF at_draw [OF at_clock [OF at_ask [OF c(1), of prepared_answer, unfolded c(2) p(1)], unfolded p(2)], of "''0''", unfolded p(3)],
        of "''1''", unfolded p(4)], of "''2''", unfolded p(5)] by simp
  from at_ask [OF at_clock [OF at_acquire [OF this _ launched_begin, unfolded p(6)], unfolded p(7)]]
  have "at_call launched_registry {''2'', ''1'', ''0''} (VmRun launched_lease 5 request cr)"
    by (simp add: launched_acquire_def small_acquire_def materialize_request_def)
  then obtain cs where cs: "cs 0 = Some (VmRun launched_lease 5 request cr)"
      "small_port_step\<^sup>*\<^sup>* (world_start idle_registry) (paused launched_registry {''2'', ''1'', ''0''} cs)" (is "_\<^sup>*\<^sup>* _ ?w")
    by (auto simp: at_call_def)
  let ?v = "?w\<lparr>wo_calls := insert (launched_lease, 5, request) (wo_calls ?w)\<rparr>"
  have "small_port_step ?w ?v" by (rule port_step.vm_send) (use cs(1) in simp)
  then have v: "small_port_step\<^sup>*\<^sup>* (world_start idle_registry) ?v" using cs(2) by (rule rtranclp.rtrancl_into_rtrancl [rotated])
  have "small_port_step ?v (?v\<lparr>wo_machines := (wo_machines ?v)(''vm'' \<mapsto> \<lparr>mc_token = er_client_token request, mc_born = wo_now ?v, mc_admitted = 5\<rparr>),
      wo_ids := insert ''vm'' (wo_ids ?v), wo_created := (wo_created ?v)(er_client_token request \<mapsto> (''vm'', ml_attempt_id launched_lease))\<rparr>)"
      (is "small_port_step _ ?u")
    by (rule port_step.created [of _ 5]) (simp_all add: paused_def world_start_def)
  then have "small_port_step\<^sup>*\<^sup>* (world_start idle_registry) ?u" using v by (rule rtranclp.rtrancl_into_rtrancl [rotated])
  moreover have "wo_machines ?u = [''vm'' \<mapsto> small_machine] \<and> wo_registry ?u = launched_registry"
    using p(8) by (simp add: paused_def world_start_def small_machine_def)
  ultimately show ?thesis by blast
qed

subsection \<open>Properties\<close>

text \<open>
  C4. The handlers of the ports, run concurrently over the in-memory registry, implement the specification of the
  fleet. Requests arrive at any time and interleave call by call; answers are lost, handlers stop, machines end at any
  time, and any time passes between the admission of a launch, its call, its effect and its installation. The registry, the machines and the
  provider's memory of client tokens are always those of a run of \<open>fleet_step\<close>: no
  handler closes a target whose machine the provider has not reported absent, launches on a lease that is not its own or outside the window, or
  gives back a lease of which a machine may come. Of the provider it is assumed that an answer which names or excludes a machine is true,
  and of the clocks that none which a handler reads is ahead of the time of the provider.
\<close>

theorem handlers_refine_fleet:
  assumes "with_capacity m = Some g" and "digest_ok (en_digest E) S" and "(port_step E zone S)\<^sup>*\<^sup>* (world_start g) w"
  shows "\<exists>s. (fleet_step (en_aws E) (en_codec E) zone (en_digest E) S)\<^sup>*\<^sup>* (fleet_start g) s
    \<and> ft_registry s = wo_registry w \<and> ft_now s = wo_now w \<and> ft_machines s = wo_machines w \<and> ft_created s = wo_created w"
  using port_run_refines [OF assms(3,1,2)] by (auto dest!: simD(1) simp: shows_fleet_def)

theorem handlers_refine_fleet_witness:
  "\<exists>s. small_step\<^sup>*\<^sup>* (fleet_start idle_registry) s \<and> ft_machines s = [''vm'' \<mapsto> small_machine]"
proof -
  obtain w where w: "small_port_step\<^sup>*\<^sup>* (world_start idle_registry) w" "wo_machines w = [''vm'' \<mapsto> small_machine]"
    using small_run by blast
  show ?thesis using handlers_refine_fleet [OF small_world(1) _ w(1)] small_world(2) w(2) by auto
qed

text \<open>
  C1. Whatever requests the handlers serve concurrently over the in-memory registry, failing, stopping, recovered and purged, the
  memory of the machines that run at the provider and were created within a minute of the admission of their launch is charged in
  the registry, and the charge stays within the configured capacity: a plane of \<open>m\<close> MiB never runs more than \<open>m / 1024\<close> such
  machines, known to a row or not. Machines that were created later than that are not counted: nothing bounds the wait of a launch between
  its admission and its call. The answers of the provider that name or exclude a machine are taken to be true, and no clock that
  a handler reads is ahead of the time of the provider.
\<close>

theorem machines_stay_within_capacity:
  assumes "with_capacity m = Some g" and "digest_ok (en_digest E) S" and "\<forall>spec\<in>S. ts_materialized_mib spec = TARGET_MEMORY_MIB"
    and "TARGET_MEMORY_MIB \<le> m" and "(port_step E zone S)\<^sup>*\<^sup>* (world_start g) w"
  shows "TARGET_MEMORY_MIB * card {i. \<exists>mc. wo_machines w i = Some mc \<and> mc_born mc \<le> mc_admitted mc + 60000}
      \<le> mr_reserved_mib (wo_registry w)
    \<and> mr_reserved_mib (wo_registry w) \<le> m"
proof -
  obtain s where s: "(fleet_step (en_aws E) (en_codec E) zone (en_digest E) S)\<^sup>*\<^sup>* (fleet_start g) s" "shows_fleet s w"
    using port_run_refines [OF assms(5,1,2)] simD(1) by blast
  then show ?thesis
    using fleet_within_capacity [OF assms(1-4) s(1)]
    by (simp add: shows_fleet_def punctual_machines_def punctual_def DISPATCH_SLACK_MS_def)
qed

theorem machines_stay_within_capacity_witness:
  "\<exists>w. small_port_step\<^sup>*\<^sup>* (world_start idle_registry) w \<and> wo_machines w = [''vm'' \<mapsto> small_machine]
     \<and> 1024 \<le> mr_reserved_mib (wo_registry w) \<and> mr_reserved_mib (wo_registry w) \<le> 4096"
proof -
  obtain w where w: "small_port_step\<^sup>*\<^sup>* (world_start idle_registry) w" "wo_machines w = [''vm'' \<mapsto> small_machine]"
    using small_run by blast
  have "{i. \<exists>mc. wo_machines w i = Some mc \<and> mc_born mc \<le> mc_admitted mc + 60000} = {''vm''}"
    by (simp add: w(2) small_machine_def)
  then have "1024 \<le> mr_reserved_mib (wo_registry w) \<and> mr_reserved_mib (wo_registry w) \<le> 4096"
    using machines_stay_within_capacity [OF small_world(1) _ small_world(3) _ w(1)] small_world(2) by (simp add: TARGET_MEMORY_MIB_def)
  then show ?thesis using w by blast
qed

text \<open>
  C3. No machine that was created within a minute of the admission of its launch is lost: while it runs at the provider, it is the target of an
  installed row, or the row of its key still holds the
  reservation that is its client token, with a lease that outlasts the machine. A row that was closed or purged has no such machine. The
  handlers run concurrently over the in-memory registry, under the same assumptions on the provider and the clocks.
\<close>

theorem no_machine_is_orphaned:
  assumes "with_capacity m = Some g" and "digest_ok (en_digest E) S" and "(port_step E zone S)\<^sup>*\<^sup>* (world_start g) w"
    and "wo_machines w i = Some mc" and "mc_born mc \<le> mc_admitted mc + 60000"
  shows "\<exists>k r. mr_records (wo_registry w) k = Some r \<and> dr_spec r \<in> S \<and>
    (case dr_state r of
       Installed tref ct iat ex \<Rightarrow> tref = i
     | Materializing rid lr aid aexp texp lexp \<Rightarrow> rid = mc_token mc \<and> mc_born mc + TARGET_LIFETIME_MS \<le> lexp
     | Closed d reason at \<Rightarrow> False)"
proof -
  obtain s where s: "(fleet_step (en_aws E) (en_codec E) zone (en_digest E) S)\<^sup>*\<^sup>* (fleet_start g) s" "shows_fleet s w"
    using port_run_refines [OF assms(3,1,2)] simD(1) by blast
  then show ?thesis
    using fleet_no_orphan [OF assms(1,2) s(1), of i mc] assms(4,5) by (simp add: shows_fleet_def punctual_def DISPATCH_SLACK_MS_def)
qed

theorem no_machine_is_orphaned_witness:
  "\<exists>k r. mr_records launched_registry k = Some r \<and> dr_spec r \<in> {small_spec} \<and>
    (case dr_state r of
       Installed tref ct iat ex \<Rightarrow> tref = ''vm''
     | Materializing rid lr aid aexp texp lexp \<Rightarrow> rid = ''reservation-0'' \<and> 5 + TARGET_LIFETIME_MS \<le> lexp
     | Closed d reason at \<Rightarrow> False)"
proof -
  obtain w where w: "small_port_step\<^sup>*\<^sup>* (world_start idle_registry) w" "wo_machines w = [''vm'' \<mapsto> small_machine]"
      "wo_registry w = launched_registry" using small_run by blast
  from no_machine_is_orphaned [OF small_world(1) _ w(1), of "''vm''" small_machine] small_world(2) w(2,3) show ?thesis
    by (simp add: small_machine_def cong: durable_target_state.case_cong)
qed

end
