(* ===== verification/Spec2Isabelle.thy ===== *)
theory Spec2Isabelle
  imports Operation_Ledger Target_Plane Connector Egress_Proxy Live_Files Ack_Store File_Effects
    Dynamo_Rows Guest_Promises Port_Promises
begin

text \<open>
  \<^bold>\<open>Verification of Hands, the default runtime for Brain tools.\<close>

  \<^bold>\<open>The program.\<close> Hands (crates under \<open>src/crates\<close>) runs the tools of one session in a Linux
  guest. A control plane reserves, launches and installs \<^emph>\<open>targets\<close> (physical guests); the guest
  admits effectful \<^emph>\<open>operations\<close>, runs them once and retains their results until Brain acknowledges
  them; files of the guest's workspace are read and written through a confined file service; all
  traffic of a guest leaves through an \<^emph>\<open>egress gateway\<close> that admits only what a signed capability
  grants. The parts interact as follows:

  \<^item> \<open>hand-policy\<close> fixes the vocabulary (identifiers, digests, secrets, environment names) that
    every other crate validates against;
  \<^item> \<open>hand-core\<close> holds the state machines that do not depend on a provider: the operation registry,
    target records with their two ports (\<open>TargetReservations\<close>, \<open>TargetDirectory\<close>), the materializer
    that drives a registry and a launcher through those ports, the connector catalog, live files;
  \<^item> \<open>hand-guest\<close> serves operations inside the guest; its two append-only logs make the
    acknowledgement fence and the file-effect fence survive a crash;
  \<^item> \<open>hand-egress-gateway\<close> is the CONNECT proxy with its capability verifier, destination policy
    and ClientHello gate;
  \<^item> \<open>hand-brain-aws\<close>, \<open>hand-lambda\<close> and \<open>hand-wire\<close> bind all of this to AWS and to the wire.

  \<^bold>\<open>Conventions.\<close> \<open>Hand_Prelude\<close> has Rust's \<open>Result\<close> as a sum (\<open>Ok\<close>, \<open>Err\<close>, the operator \<open>?\<close> as
  \<open>and_then\<close>), the checked and saturating operations of \<open>u64\<close> on naturals with the width written
  out, and accounts (sums of a weight over a finite map). A Rust string is the list of its UTF-8
  bytes; \<open>Rust_Strings\<close> and \<open>Rust_Net\<close> translate the functions of the standard library that the
  code calls (\<open>split\<close>, \<open>trim\<close>, \<open>parse\<close>, \<open>strip_prefix\<close>, UTF-8 validity, address literals). An
  operation of an object takes its state and returns the result with the next state, on errors
  too. Code outside the repository (SHA-256, JSON, base64, ECDSA, IDNA, DNS, the capability
  file-system, Brain's protocol parsers) is an argument of the definitions that use it; what is
  relied on is a named predicate (\<open>digest_ok\<close>, \<open>codec_ok\<close>, the laws of the log codecs and of the
  file-system), and each property with such a hypothesis has a witness with a concrete function.

  \<^bold>\<open>Theories, sources and what they show.\<close>

  \<^item> \<open>Hand_Policy\<close> (\<open>hand-policy/src\<close>): identifier grammar, digests, bounded tokens, control tokens,
    launch requests, the sandbox environment rules.
  \<^item> \<open>Operation_Registry\<close>, \<open>Operation_Ledger\<close> (\<open>hand-core/src/operation.rs\<close>): the registry record
    with its byte and record accounts, every operation, the invariant \<open>op_inv\<close>; traces of calls,
    and the abstract ledger without accounts: every history of the registry, from its creation on, is a
    history of the ledger. An operation id is admitted
    once until its exact terminal result is acknowledged, results stay readable until then, and a
    reserved completion cannot fail for want of space.
  \<^item> \<open>Paging\<close> (\<open>page.rs\<close>, \<open>resources.rs\<close>): the page cut, resource ceilings, and the locale
    \<open>cursor_source\<close>: a client that follows cursors over an ordered listing sees every item once
    and stops. Interpreted for the directory of targets and for directory listings.
  \<^item> \<open>Materialization\<close>, \<open>Materializer\<close>, \<open>Memory_Registry\<close>, \<open>Target_Plane\<close>
    (\<open>hand-core/src/materialization\<close>): keys, specs, records, leases and their validation; the
    orchestration \<open>ensure\<close> split at its suspension point and interleaved by \<open>worker_step\<close>; the
    locale \<open>target_port\<close> with the laws of \<open>port.rs\<close>, interpreted on the in-memory registry. The invariant
    takes a flag that says whether installations come before the expiry of their target, which the code
    does not check (\<open>late_install_is_invalid\<close>). \<open>purge_row\<close> is the effect of the terminal purge, which
    only the production registry has, on an in-memory record. The
    reserved memory is the sum over the live records, an installed target is never displaced, a
    launched target is returned, a failed launch releases or retains its reservation as its error
    says, a close refunds once.
  \<^item> \<open>Dynamo_Table\<close>, \<open>Dynamo_Registry\<close>, \<open>Dynamo_Plane\<close>, \<open>Dynamo_Rows\<close> (\<open>hand-brain-aws/src/dynamo.rs\<close>,
    \<open>registry.rs\<close>): the production registry. An operation is a program, a tree of calls with a
    continuation for each reply; \<open>world_step\<close> interleaves any number of programs between their calls,
    lets calls fail after they were applied and clients stop anywhere; the service is a parameter
    (\<open>dynamo_ok\<close>: consistent reads, conditional writes, all-or-nothing transactions). The locale
    \<open>db_store\<close> says that an invariant kept by every write is kept by every interleaving. The capacity
    row is exactly the memory of the live rows and within the plane, an installed row only closes, a
    lease rests on a committed write that found its key free, lost or expired, rows parse back to
    records, and the effects of an install, a close, an ambiguous release and a purge on a row refine those
    on the record of the in-memory registry.
  \<^item> \<open>Connector\<close> (\<open>hand-core/src/connector.rs\<close>): connector references, the gateway authority and
    its parser, the catalog.
  \<^item> \<open>Egress_Policy\<close>, \<open>Tls_Hello\<close>, \<open>Capability\<close>, \<open>Egress_Proxy\<close> (\<open>hand-egress-gateway/src\<close>,
    \<open>policy.rs\<close>, \<open>tls.rs\<close>, \<open>capability.rs\<close>, \<open>proxy.rs\<close>): destinations and the authorization of a
    target, the ClientHello parser, minting and verification of capabilities (a verified token
    is sealed by its own signature), and the proxy that composes them. An established tunnel was authorized, its target public, its ClientHello names
    the authorized host, its bytes stay within the budget, and a root holds no more permits than
    its quota.
  \<^item> \<open>Live_Files\<close> (\<open>hand-core/src/files.rs\<close>): path confinement, listing, searching, reading, and
    writes that publish all of the content or change no file; a failed write may leave the parent
    directories it created, and nothing else.
  \<^item> \<open>Append_Log\<close>, \<open>Ack_Store\<close>, \<open>File_Effects\<close> (\<open>hand-guest/src/acks.rs\<close>, \<open>file_effects.rs\<close>,
    identities of \<open>hand-wire/src/lib.rs\<close>): a log writer under every outcome of its file calls and
    losses of power; the locale \<open>durable_facts\<close> (a fact that every call and every recovery keeps
    holds for ever), interpreted for acknowledgements, spent claims and completed effects.

  \<^item> \<open>Guest_Tasks\<close>, \<open>Guest_Protocol\<close>, \<open>Guest_Target\<close>, \<open>Guest_Operations\<close> (\<open>hand-guest/src/hand/*.rs\<close>,
    \<open>errors.rs\<close>, parts of \<open>process.rs\<close>): the guest. A handler is a task, a sequence of regions that
    run under the locks of the code; \<open>Guest_Tasks\<close> interleaves any number of them. The target with
    its seal, installation of bundles, bindings and secrets, submission, execution, observation,
    cancellation, acknowledgement, interactive writes. \<open>Guest_Contract\<close>, \<open>Guest_Invariant\<close>,
    \<open>Guest_Safety\<close>, \<open>Guest_Runs\<close> and \<open>Guest_Promises\<close> have the invariant, sample runs and
    the properties: an execution starts at most once and under the seal, a result is kept until
    its acknowledgement is durable, an acknowledged operation is not executed again.
  \<^item> \<open>Aws_Requests\<close>, \<open>Bundle_Cache\<close>, \<open>Bundle_Cache_Laws\<close>, \<open>Prepare_Plane\<close>, \<open>Prepare_Laws\<close>,
    \<open>Prepare_Promises\<close> (\<open>hand-brain-aws/src/errors.rs\<close>, \<open>validate.rs\<close>, \<open>status.rs\<close>, \<open>cache.rs\<close>,
    \<open>ports/preparation.rs\<close>): validation and errors of requests, the two caches with their
    accounts, borrows and evictions, and \<open>prepare\<close> as a machine of concurrent workers. The caches and the
    fetches stay within their limits, a borrowed bundle is kept, an admitted preparation is installed.
  \<^item> \<open>Provider_Control\<close>, \<open>Provider_Launch\<close>, \<open>Launch_Promises\<close> (\<open>hand-lambda/src/control.rs\<close>,
    \<open>launcher.rs\<close>): classification and pacing of the provider's calls, launches that are sealed into a
    reservation and replayed exactly, the dispatch window. \<open>launch_paced\<close> is \<open>launch\<close> with the wait for
    the token bucket between the check of the window and the call, \<open>launch_queue\<close> a batch of launches
    that share the bucket.
  \<^item> \<open>Hand_Programs\<close>, \<open>Hand_Ports\<close> (\<open>hand-brain-aws/src/hand.rs\<close>, \<open>ports/*.rs\<close>, \<open>materializer.rs\<close>): the handlers
    of the production Hand as programs, trees of calls of the registry, the provider, the guest and the
    storage service with a continuation for each answer.
  \<^item> \<open>Fleet\<close>, \<open>Fleet_Laws\<close>, \<open>Fleet_Runs\<close>: the specification of the plane, one step for each effect
    on the registry or the machines with the condition under which it is allowed. A machine records when
    its launch was admitted and when it was created; no step bounds the delay between the two. The
    invariant ties every machine that was created within a minute of its admission (\<open>punctual\<close>) to a row
    that pays for it.
  \<^item> \<open>Port_Discipline\<close>, \<open>Port_World\<close>, \<open>Port_Refinement\<close>, \<open>Port_Promises\<close>: a weakest precondition on programs whose
    state is what a handler has learnt, which every handler satisfies (\<open>serve_safe\<close>); \<open>port_step\<close> interleaves handlers with lost
    answers, stops, waits of any length, clocks that lag behind and a provider that acts by itself; a
    simulation shows every run to be a run of the fleet. Hence the punctual machines that run are charged
    and within the capacity, and none of them is lost.

  \<^bold>\<open>Bounds and loops.\<close> Loops are structural or well-founded recursion and total; no fuel is chosen
  by the development; a search is bounded by the scan limit of the code, an acquisition by the four
  rounds of its loop. Every numeric bound is the constant of the source under its name. No step relation bounds a
  delay: a launch may wait in the pacing, a request may take effect at the provider and a machine may be
  installed at any later time. The promises that need promptness say so in their statements, machine by
  machine: a machine is counted when it was created within a minute of the admission of its launch, the
  slack that \<open>TARGET_DISPATCH_WINDOW_MS\<close> leaves. \<open>queued_launch_outlives_its_lease\<close> shows that the code
  alone does not ensure it. A clock that a handler reads may be behind the time of the world, not ahead of it.

  \<^bold>\<open>What modelling found.\<close> The in-memory registry admits one target larger than the plane
  (\<open>oversized_target_admitted\<close>); a paged \<open>find\<close> loses entries (\<open>find_pages_lose_entries\<close>); after a
  restart the acknowledgement log trusts a record whose sync had failed
  (\<open>reopened_log_trusts_unsynced_record\<close>); a retry that read the acknowledgements before an
  acknowledgement executes a second time (\<open>retry_racing_acknowledgement_executes_twice\<close>); a binding and
  the secrets of its session, installed concurrently, can leave a requirement undeclared
  (\<open>concurrent_installs_leave_undeclared_requirement\<close>); the dispatch window is checked before the
  unbounded wait of the pacing, so that the last of a queue of launches is sent after its lease has expired
  (\<open>queued_launch_outlives_its_lease\<close>); an installation after the expiry of its target stores a record
  that does not validate (\<open>late_install_is_invalid\<close>). The DynamoDB registry refuses what the in-memory one
  wrongly admits: its condition is computed by a checked subtraction.

  \<^bold>\<open>Not modelled.\<close> Poisoned locks, bounded permits and sharded locks of the production process (they only take
  interleavings away); the accept loops and timers of the async runtime; TLS, sockets and process
  spawning; the HTTP, WebSocket and SDK clients (\<open>client.rs\<close>, \<open>transfer.rs\<close> but for the checks of an
  authority); the definition table (\<open>definitions.rs\<close>, with \<open>resolve_binding\<close>); image publication and canary checks of
  \<open>hand-lambda\<close>, which sequence remote calls; the server and start-up of the guest; configuration read from the
  environment; serialization derived by \<open>serde\<close>. The handlers run over the in-memory registry, which the source calls the conformance
  implementation of the ports, with the terminal purge of the production registry added to it; the DynamoDB registry is
  related to it row by row (\<open>Dynamo_Rows\<close>), not through the handlers. In the two durable logs the file system
  forgets what was not synced at each recovery; a restart of the process alone, which keeps it, is the subject
  of \<open>reopened_log_trusts_unsynced_record\<close>.
\<close>

end
